(* ===== verification/LcecPrelude.thy ===== *)
theory LcecPrelude
  imports Main "HOL-Library.Word"
begin

text \<open>
  Shared vocabulary of the development: the machine integers of the C code, the C
  integer conversions and divisions that are written out because their result depends on
  the width, results that may be an error, and the generic lemmas on lists and on folds
  over fallible steps that the component theories use.
\<close>

section \<open>Machine integers\<close>

type_synonym u8 = "8 word"
type_synonym u16 = "16 word"
type_synonym u32 = "32 word"
type_synonym u64 = "64 word"

named_theorems c_int_simps "evaluation rules for the C integer helpers"

text \<open>
  Signed C integers are HOL integers; a conversion to (or an overflow in) a signed type
  of width 32 or 64 goes through \<open>s32\<close> or \<open>s64\<close>, the two's complement wrap.
\<close>

definition s32 :: "int \<Rightarrow> int" where
  [c_int_simps]: "s32 i = (i + 2147483648) mod 4294967296 - 2147483648"

definition s64 :: "int \<Rightarrow> int" where
  [c_int_simps]: "s64 i = (i + 9223372036854775808) mod 18446744073709551616 - 9223372036854775808"

definition in_s32 :: "int \<Rightarrow> bool" where
  "in_s32 i \<longleftrightarrow> - 2147483648 \<le> i \<and> i < 2147483648"

definition in_s64 :: "int \<Rightarrow> bool" where
  "in_s64 i \<longleftrightarrow> - 9223372036854775808 \<le> i \<and> i < 9223372036854775808"

lemma s32_id [simp]: "in_s32 i \<Longrightarrow> s32 i = i"
  by (simp add: s32_def in_s32_def)

lemma in_s32_s32 [simp, intro!]: "in_s32 (s32 i)"
  unfolding s32_def in_s32_def by (smt (verit) pos_mod_bound pos_mod_sign)

lemma s32_s32 [simp]: "s32 (s32 i) = s32 i"
  by simp

lemma s64_id [simp]: "in_s64 i \<Longrightarrow> s64 i = i"
  by (simp add: s64_def in_s64_def)

lemma in_s64_s64 [simp, intro!]: "in_s64 (s64 i)"
  unfolding s64_def in_s64_def by (smt (verit) pos_mod_bound pos_mod_sign)

lemma s32_cong_mod: "s32 i mod 4294967296 = i mod 4294967296"
  by (simp add: s32_def mod_diff_left_eq)

text \<open>C division truncates towards zero, and the remainder has the dividend's sign.\<close>

definition c_div :: "int \<Rightarrow> int \<Rightarrow> int" where
  [c_int_simps]: "c_div a b = sgn a * sgn b * (\<bar>a\<bar> div \<bar>b\<bar>)"

definition c_mod :: "int \<Rightarrow> int \<Rightarrow> int" where
  [c_int_simps]: "c_mod a b = a - b * c_div a b"

lemma c_div_nonneg: "0 \<le> a \<Longrightarrow> 0 < b \<Longrightarrow> c_div a b = a div b"
  by (cases "a = 0") (simp_all add: c_div_def)

lemma c_mod_nonneg: "0 \<le> a \<Longrightarrow> 0 < b \<Longrightarrow> c_mod a b = a mod b"
  by (simp add: c_mod_def c_div_nonneg minus_mult_div_eq_mod)

lemma c_div_neg: "0 \<le> a \<Longrightarrow> 0 < b \<Longrightarrow> c_div (- a) b = - (a div b)"
  by (cases "a = 0") (simp_all add: c_div_def)

section \<open>Results\<close>

text \<open>
  A fallible C function returns its error code or leaves its error by an early return; the
  model returns \<open>Inl\<close> of the error or \<open>Inr\<close> of the value and the new state.
\<close>

fun bind_res :: "'e + 'a \<Rightarrow> ('a \<Rightarrow> 'e + 'b) \<Rightarrow> 'e + 'b" where
  "bind_res (Inl e) f = Inl e"
| "bind_res (Inr a) f = f a"

lemma bind_res_Inr [simp]: "bind_res r Inr = r"
  by (cases r) simp_all

lemma bind_res_eq_Inr: "bind_res r f = Inr b \<longleftrightarrow> (\<exists>a. r = Inr a \<and> f a = Inr b)"
  by (cases r) simp_all

lemma bind_res_InrE [elim!]:
  assumes "bind_res r f = Inr b"
  obtains a where "r = Inr a" and "f a = Inr b"
  using assms by (auto simp: bind_res_eq_Inr)

lemma bind_res_split:
  "P (bind_res r f) \<longleftrightarrow> (\<forall>e. r = Inl e \<longrightarrow> P (Inl e)) \<and> (\<forall>a. r = Inr a \<longrightarrow> P (f a))"
  by (cases r) simp_all

text \<open>A loop whose body may leave with an error: the fold stops at the first one.\<close>

fun fold_res :: "('x \<Rightarrow> 's \<Rightarrow> 'e + 's) \<Rightarrow> 'x list \<Rightarrow> 's \<Rightarrow> 'e + 's" where
  "fold_res f [] s = Inr s"
| "fold_res f (x # xs) s = bind_res (f x s) (fold_res f xs)"

lemma fold_res_append: "fold_res f (xs @ ys) s = bind_res (fold_res f xs s) (fold_res f ys)"
proof (induction xs arbitrary: s)
  case Nil
  then show ?case by simp
next
  case (Cons x xs)
  then show ?case by (cases "f x s") simp_all
qed

lemma fold_res_invariant:
  assumes "fold_res f xs s = Inr t" and "P s"
    and "\<And>x s t. x \<in> set xs \<Longrightarrow> P s \<Longrightarrow> f x s = Inr t \<Longrightarrow> P t"
  shows "P t"
  using assms by (induction xs arbitrary: s) auto

lemma fold_res_total:
  assumes "P s" and "\<And>x s. x \<in> set xs \<Longrightarrow> P s \<Longrightarrow> \<exists>t. f x s = Inr t \<and> P t"
  shows "\<exists>t. fold_res f xs s = Inr t \<and> P t"
  using assms
proof (induction xs arbitrary: s)
  case Nil
  then show ?case by simp
next
  case (Cons x xs)
  from Cons.prems obtain u where "f x s = Inr u" and "P u" by force
  with Cons.IH [of u] Cons.prems(2) show ?case by simp
qed

section \<open>Lists\<close>

text \<open>
  The intrusive doubly linked lists of the code (\<open>LCEC_LIST_APPEND\<close>) are HOL lists:
  the macro links the new item behind \<open>last\<close>, so it is \<open>xs @ [x]\<close>.
\<close>

definition list_append_item :: "'a list \<Rightarrow> 'a \<Rightarrow> 'a list" where
  "list_append_item xs x = xs @ [x]"

lemma length_list_append_item [simp]: "length (list_append_item xs x) = Suc (length xs)"
  by (simp add: list_append_item_def)

lemma set_list_append_item [simp]: "set (list_append_item xs x) = insert x (set xs)"
  by (simp add: list_append_item_def)

lemma nth_list_append_item:
  "i < length xs \<Longrightarrow> list_append_item xs x ! i = xs ! i"
  by (simp add: list_append_item_def nth_append)

lemma list_append_item_last [simp]: "list_append_item xs x ! length xs = x"
  by (simp add: list_append_item_def)

text \<open>The first element with a property, the shape of every search loop of the code.\<close>

lemma find_SomeD: "List.find P xs = Some x \<Longrightarrow> x \<in> set xs \<and> P x"
  by (induction xs) (auto split: if_splits)

lemma find_append:
  "List.find P (xs @ ys) = (case List.find P xs of None \<Rightarrow> List.find P ys | Some x \<Rightarrow> Some x)"
  by (induction xs) auto

lemma sum_list_update_nat:
  "i < length xs \<Longrightarrow> sum_list (xs[i := x]) + xs ! i = sum_list xs + (x::nat)"
  by (induction xs arbitrary: i) (auto split: nat.splits)

end
