(* ===== verification/CString.thy ===== *)
theory CString
  imports Complex_Main LcecPrelude
begin

text \<open>
  The C library functions on strings that the configuration code calls. A C string is a
  HOL \<open>string\<close> without its terminating zero. \<open>long\<close> has 64 bits and \<open>int\<close> 32
  (the LP64 model of the platforms LinuxCNC runs on).
\<close>

section \<open>Characters\<close>

definition char_code :: "char \<Rightarrow> int" where
  "char_code c = of_char c"

text \<open>Upper and lower case ASCII letters differ in bit 5 only.\<close>

fun char_bit5 :: "bool \<Rightarrow> char \<Rightarrow> char" where
  "char_bit5 b (Char b0 b1 b2 b3 b4 _ b6 b7) = Char b0 b1 b2 b3 b4 b b6 b7"

definition c_isspace :: "char \<Rightarrow> bool" where
  "c_isspace c \<longleftrightarrow> c \<in> {CHR '' '', CHR 0x09, CHR 0x0A, CHR 0x0B, CHR 0x0C, CHR 0x0D}"

definition c_tolower :: "char \<Rightarrow> char" where
  "c_tolower c = (if 65 \<le> char_code c \<and> char_code c \<le> 90 then char_bit5 True c else c)"

definition c_toupper :: "char \<Rightarrow> char" where
  "c_toupper c = (if 97 \<le> char_code c \<and> char_code c \<le> 122 then char_bit5 False c else c)"

section \<open>Comparison and copy\<close>

definition strcmp_eq :: "string \<Rightarrow> string \<Rightarrow> bool" where
  "strcmp_eq s t \<longleftrightarrow> s = t"

definition strcasecmp_eq :: "string \<Rightarrow> string \<Rightarrow> bool" where
  "strcasecmp_eq s t \<longleftrightarrow> map c_tolower s = map c_tolower t"

lemma strcmp_eq_iff [simp]: "strcmp_eq s t \<longleftrightarrow> s = t"
  by (simp add: strcmp_eq_def)

lemma strcasecmp_eq_refl [simp]: "strcasecmp_eq s s"
  by (simp add: strcasecmp_eq_def)

lemma strcasecmp_eq_sym: "strcasecmp_eq s t \<longleftrightarrow> strcasecmp_eq t s"
  by (auto simp: strcasecmp_eq_def)

lemma strcasecmp_eq_trans: "strcasecmp_eq s t \<Longrightarrow> strcasecmp_eq t u \<Longrightarrow> strcasecmp_eq s u"
  by (simp add: strcasecmp_eq_def)

text \<open>
  \<open>strncpy\<close> into a buffer of \<open>LCEC_CONF_STR_MAXLEN\<close> bytes with the last byte set to
  zero keeps the first 47 characters.
\<close>

definition LCEC_CONF_STR_MAXLEN :: nat where
  "LCEC_CONF_STR_MAXLEN = 48"

definition conf_strncpy :: "string \<Rightarrow> string" where
  "conf_strncpy s = take (LCEC_CONF_STR_MAXLEN - 1) s"

lemma length_conf_strncpy: "length (conf_strncpy s) < LCEC_CONF_STR_MAXLEN"
  by (simp add: conf_strncpy_def LCEC_CONF_STR_MAXLEN_def)

lemma conf_strncpy_short: "length s < LCEC_CONF_STR_MAXLEN \<Longrightarrow> conf_strncpy s = s"
  by (simp add: conf_strncpy_def)

lemma conf_strncpy_idem [simp]: "conf_strncpy (conf_strncpy s) = conf_strncpy s"
  by (simp add: conf_strncpy_def)

section \<open>Numbers\<close>

text \<open>The value of a character as a digit (36 and more: no digit in any base).\<close>

definition digit_val :: "char \<Rightarrow> int" where
  "digit_val c =
     (if 48 \<le> char_code c \<and> char_code c \<le> 57 then char_code c - 48
      else if 97 \<le> char_code c \<and> char_code c \<le> 122 then char_code c - 87
      else if 65 \<le> char_code c \<and> char_code c \<le> 90 then char_code c - 55
      else 36)"

definition is_digit :: "int \<Rightarrow> char \<Rightarrow> bool" where
  "is_digit base c \<longleftrightarrow> digit_val c < base"

definition digits_val :: "int \<Rightarrow> string \<Rightarrow> int" where
  "digits_val base ds = foldl (\<lambda>a d. a * base + digit_val d) 0 ds"

text \<open>An optional sign: the flag is true for a minus.\<close>

definition read_sign :: "string \<Rightarrow> bool \<times> string" where
  "read_sign s = (case s of
      [] \<Rightarrow> (False, [])
    | c # r \<Rightarrow> if c = CHR ''-'' then (True, r) else if c = CHR ''+'' then (False, r) else (False, s))"

text \<open>\<open>0x\<close> or \<open>0X\<close> is a prefix only if a hexadecimal digit follows.\<close>

definition has_hex_prefix :: "string \<Rightarrow> bool" where
  "has_hex_prefix s \<longleftrightarrow>
     (case s of z # x # h # _ \<Rightarrow> z = CHR ''0'' \<and> (x = CHR ''x'' \<or> x = CHR ''X'') \<and> is_digit 16 h
      | _ \<Rightarrow> False)"

text \<open>
  The common part of \<open>strtol\<close> and \<open>strtoul\<close>: blanks, a sign, a base prefix, digits.
  The result is the sign, the magnitude and the unread rest (\<open>*endptr\<close>), or
  \<open>None\<close> when there is no digit, and then \<open>*endptr\<close> is the whole string.
\<close>

definition scan_int :: "int \<Rightarrow> string \<Rightarrow> (bool \<times> int \<times> string) option" where
  "scan_int base s =
     (let (neg, t) = read_sign (dropWhile c_isspace s);
          hex = has_hex_prefix t;
          b = (if base = 0 then (if hex then 16 else if take 1 t = ''0'' then 8 else 10) else base);
          u = (if hex \<and> (base = 0 \<or> base = 16) then drop 2 t else t);
          ds = takeWhile (is_digit b) u
      in if ds = [] then None else Some (neg, digits_val b ds, drop (length ds) u))"

definition clamp_s64 :: "int \<Rightarrow> int" where
  "clamp_s64 i = max (- 9223372036854775808) (min 9223372036854775807 i)"

definition strtol :: "int \<Rightarrow> string \<Rightarrow> int \<times> string" where
  "strtol base s = (case scan_int base s of
      None \<Rightarrow> (0, s)
    | Some (neg, m, r) \<Rightarrow> (clamp_s64 (if neg then - m else m), r))"

definition strtoul :: "int \<Rightarrow> string \<Rightarrow> int \<times> string" where
  "strtoul base s = (case scan_int base s of
      None \<Rightarrow> (0, s)
    | Some (neg, m, r) \<Rightarrow>
        (if 18446744073709551616 \<le> m then 18446744073709551615
         else if neg then (18446744073709551616 - m) mod 18446744073709551616 else m, r))"

text \<open>\<open>atoi\<close> of the GNU library is \<open>(int) strtol(s, NULL, 10)\<close>; \<open>atol\<close> and \<open>atoll\<close> keep 64 bits.\<close>

definition atoi :: "string \<Rightarrow> int" where
  "atoi s = s32 (fst (strtol 10 s))"

definition atol :: "string \<Rightarrow> int" where
  "atol s = fst (strtol 10 s)"

lemma in_s64_clamp [simp]: "in_s64 (clamp_s64 i)"
  by (auto simp: clamp_s64_def in_s64_def)

lemma in_s64_strtol: "in_s64 (fst (strtol b s))"
  by (auto simp: strtol_def in_s64_def clamp_s64_def split: option.splits)

lemma in_s32_atoi [simp]: "in_s32 (atoi s)"
  by (simp add: atoi_def)

text \<open>
  \<open>strtod\<close> on decimal input (\<open>digits[.digits][e[sign]digits]\<close>), as an exact real; the
  rounding to a \<open>double\<close> and the hexadecimal, infinity and NaN spellings are not modelled.
\<close>

definition scan_exponent :: "string \<Rightarrow> int \<times> string" where
  "scan_exponent s = (case s of
      [] \<Rightarrow> (0, s)
    | c # r \<Rightarrow>
        if c = CHR ''e'' \<or> c = CHR ''E'' then
          (let (neg, t) = read_sign r; ds = takeWhile (is_digit 10) t
           in if ds = [] then (0, s)
              else (if neg then - digits_val 10 ds else digits_val 10 ds, drop (length ds) t))
        else (0, s))"

definition scan_fraction :: "string \<Rightarrow> string \<times> string" where
  "scan_fraction s = (case s of
      [] \<Rightarrow> ([], s)
    | c # r \<Rightarrow> if c = CHR ''.'' then (takeWhile (is_digit 10) r, dropWhile (is_digit 10) r) else ([], s))"

definition pow10 :: "int \<Rightarrow> real" where
  "pow10 e = (if 0 \<le> e then 10 ^ nat e else 1 / 10 ^ nat (- e))"

definition strtod :: "string \<Rightarrow> real \<times> string" where
  "strtod s =
     (let (neg, t) = read_sign (dropWhile c_isspace s);
          ip = takeWhile (is_digit 10) t;
          (fp, u) = scan_fraction (drop (length ip) t)
      in if ip = [] \<and> fp = [] then (0, s)
         else (let (e, r) = scan_exponent u;
                   v = real_of_int (digits_val 10 (ip @ fp)) * pow10 (e - int (length fp))
               in (if neg then - v else v, r)))"

definition atof :: "string \<Rightarrow> real" where
  "atof s = fst (strtod s)"

section \<open>Decimal output\<close>

text \<open>\<open>"%d"\<close> of \<open>printf\<close>.\<close>

definition digit_char :: "int \<Rightarrow> char" where
  "digit_char d = ''0123456789'' ! nat d"

function show_dec :: "int \<Rightarrow> string" where
  "show_dec n = (if n < 10 then [digit_char n] else show_dec (n div 10) @ [digit_char (n mod 10)])"
  by pat_completeness auto
termination
  by (relation "measure nat") auto

declare show_dec.simps [simp del]

definition show_int :: "int \<Rightarrow> string" where
  "show_int i = (if i < 0 then CHR ''-'' # show_dec (- i) else show_dec i)"

lemma show_dec_not_Nil [simp]: "show_dec n \<noteq> []"
  by (subst show_dec.simps) simp

lemma show_int_not_Nil [simp]: "show_int i \<noteq> []"
  by (simp add: show_int_def)

lemma digit_cases:
  assumes "0 \<le> d" and "d < (10::int)"
  shows "d \<in> {0, 1, 2, 3, 4, 5, 6, 7, 8, 9}"
  using assms by simp arith

lemma digit_val_digit [simp]: "0 \<le> d \<Longrightarrow> d < 10 \<Longrightarrow> digit_val (digit_char d) = d"
  by (drule (1) digit_cases) (auto simp: digit_char_def digit_val_def char_code_def)

lemma digits_val_snoc: "digits_val b (ds @ [d]) = digits_val b ds * b + digit_val d"
  by (simp add: digits_val_def)

text \<open>What \<open>"%d"\<close> writes, \<open>atoi\<close> reads back.\<close>

lemma digits_val_show_dec: "0 \<le> n \<Longrightarrow> digits_val 10 (show_dec n) = n"
proof (induction n rule: show_dec.induct)
  case (1 n)
  show ?case
  proof (cases "n < 10")
    case True
    with 1 show ?thesis by (subst show_dec.simps) (simp add: digits_val_def)
  next
    case False
    with 1 show ?thesis by (subst show_dec.simps) (simp add: digits_val_snoc)
  qed
qed

lemma show_dec_digits: "0 \<le> n \<Longrightarrow> c \<in> set (show_dec n) \<Longrightarrow> is_digit 10 c"
proof (induction n rule: show_dec.induct)
  case (1 n)
  show ?case
  proof (cases "n < 10")
    case True
    with 1 show ?thesis by (subst (asm) show_dec.simps) (simp add: is_digit_def)
  next
    case False
    with 1(3) have "c \<in> set (show_dec (n div 10)) \<or> c = digit_char (n mod 10)"
      by (subst (asm) show_dec.simps) auto
    with 1(1,2) False show ?thesis by (auto simp: is_digit_def)
  qed
qed

text \<open>A digit is neither a blank nor a sign, so \<open>scan_int\<close> starts reading at once.\<close>

lemma digit_start: "is_digit 10 c \<Longrightarrow> \<not> c_isspace c \<and> c \<noteq> CHR ''-'' \<and> c \<noteq> CHR ''+''"
  by (auto simp: is_digit_def c_isspace_def digit_val_def char_code_def)

lemma takeWhile_all: "(\<And>x. x \<in> set xs \<Longrightarrow> P x) \<Longrightarrow> takeWhile P xs = xs"
  by (simp add: takeWhile_eq_all_conv)

lemma scan_int_digits:
  assumes "ds \<noteq> []" and "\<And>c. c \<in> set ds \<Longrightarrow> is_digit 10 c"
  shows "scan_int 10 ds = Some (False, digits_val 10 ds, [])"
proof -
  from assms obtain c r where ds: "ds = c # r" and c: "is_digit 10 c" by (cases ds) auto
  from digit_start [OF c] have "dropWhile c_isspace ds = ds" and "read_sign ds = (False, ds)"
    by (simp_all add: ds read_sign_def)
  moreover have tw: "takeWhile (is_digit 10) ds = ds" using assms(2) by (rule takeWhile_all)
  ultimately show ?thesis using assms(1) by (simp add: scan_int_def Let_def tw)
qed

lemma scan_int_minus_digits:
  assumes "ds \<noteq> []" and "\<And>c. c \<in> set ds \<Longrightarrow> is_digit 10 c"
  shows "scan_int 10 (CHR ''-'' # ds) = Some (True, digits_val 10 ds, [])"
proof -
  have tw: "takeWhile (is_digit 10) ds = ds" using assms(2) by (rule takeWhile_all)
  show ?thesis using assms(1) by (simp add: scan_int_def read_sign_def c_isspace_def Let_def tw)
qed

lemma atoi_show_int:
  assumes "in_s32 i"
  shows "atoi (show_int i) = i"
proof (cases "i < 0")
  case True
  then have "scan_int 10 (show_int i) = Some (True, - i, [])"
    using scan_int_minus_digits [OF show_dec_not_Nil show_dec_digits [of "- i"]]
    by (simp add: show_int_def digits_val_show_dec)
  with assms show ?thesis by (simp add: atoi_def strtol_def clamp_s64_def in_s32_def)
next
  case False
  then have "scan_int 10 (show_int i) = Some (False, i, [])"
    using scan_int_digits [OF show_dec_not_Nil show_dec_digits [of i]]
    by (simp add: show_int_def digits_val_show_dec)
  with assms show ?thesis by (simp add: atoi_def strtol_def clamp_s64_def in_s32_def)
qed

end
