(* ===== verification/Lookup.thy ===== *)
theory Lookup
  imports Complex_Main CString
begin

text \<open>
  The lookup tables of \<open>lcec_lookup.c\<close>. A table is an array of key/value rows ended by a
  row whose key is \<open>NULL\<close>; the model is the list of the rows before it. The four
  functions differ in the value type and in the comparison. What a table promises its
  callers is stated once, in the locale \<open>key_table\<close>, and interpreted for each of them.
\<close>

section \<open>The tables\<close>

fun lcec_lookupint :: "(string \<times> int) list \<Rightarrow> string \<Rightarrow> int \<Rightarrow> int" where
  "lcec_lookupint [] key d = d"
| "lcec_lookupint ((k, v) # t) key d = (if strcmp_eq k key then v else lcec_lookupint t key d)"

fun lcec_lookupint_i :: "(string \<times> int) list \<Rightarrow> string \<Rightarrow> int \<Rightarrow> int" where
  "lcec_lookupint_i [] key d = d"
| "lcec_lookupint_i ((k, v) # t) key d =
     (if strcasecmp_eq k key then v else lcec_lookupint_i t key d)"

fun lcec_lookupdouble :: "(string \<times> real) list \<Rightarrow> string \<Rightarrow> real \<Rightarrow> real" where
  "lcec_lookupdouble [] key d = d"
| "lcec_lookupdouble ((k, v) # t) key d = (if strcmp_eq k key then v else lcec_lookupdouble t key d)"

fun lcec_lookupdouble_i :: "(string \<times> real) list \<Rightarrow> string \<Rightarrow> real \<Rightarrow> real" where
  "lcec_lookupdouble_i [] key d = d"
| "lcec_lookupdouble_i ((k, v) # t) key d =
     (if strcasecmp_eq k key then v else lcec_lookupdouble_i t key d)"

section \<open>The contract of a table\<close>

locale key_table =
  fixes keq :: "'k \<Rightarrow> 'k \<Rightarrow> bool"
    and lookup :: "('k \<times> 'v) list \<Rightarrow> 'k \<Rightarrow> 'v \<Rightarrow> 'v"
  assumes lookup_Nil: "lookup [] key d = d"
    and lookup_Cons: "lookup (row # t) key d = (if keq (fst row) key then snd row else lookup t key d)"
begin

lemma lookup_append:
  "lookup (t @ u) key d = lookup t key (lookup u key d)"
  by (induction t) (simp_all add: lookup_Nil lookup_Cons)

lemma lookup_default:
  "(\<And>k v. (k, v) \<in> set t \<Longrightarrow> \<not> keq k key) \<Longrightarrow> lookup t key d = d"
  by (induction t) (force simp: lookup_Nil lookup_Cons)+

lemma lookup_first:
  assumes "\<And>k' v'. (k', v') \<in> set pre \<Longrightarrow> \<not> keq k' key" and "keq k key"
  shows "lookup (pre @ (k, v) # post) key d = v"
  using assms(2) lookup_default [OF assms(1)] by (simp add: lookup_append lookup_Cons)

lemma lookup_find:
  "lookup t key d = (case List.find (\<lambda>row. keq (fst row) key) t of None \<Rightarrow> d | Some row \<Rightarrow> snd row)"
  by (induction t) (simp_all add: lookup_Nil lookup_Cons)

lemma lookup_key_cong:
  "(\<And>k. keq k key = keq k key') \<Longrightarrow> lookup t key d = lookup t key' d"
  by (induction t) (simp_all add: lookup_Nil lookup_Cons)

lemma lookup_mem: "lookup t key d \<noteq> d \<Longrightarrow> \<exists>k. keq k key \<and> (k, lookup t key d) \<in> set t"
  by (induction t) (auto simp: lookup_Nil lookup_Cons split: if_splits)

end

interpretation li: key_table strcmp_eq lcec_lookupint
  by unfold_locales (auto split: prod.splits)

interpretation lii: key_table strcasecmp_eq lcec_lookupint_i
  by unfold_locales (auto split: prod.splits)

interpretation ld: key_table strcmp_eq lcec_lookupdouble
  by unfold_locales (auto split: prod.splits)

interpretation ldi: key_table strcasecmp_eq lcec_lookupdouble_i
  by unfold_locales (auto split: prod.splits)

lemma strcasecmp_key_cong: "strcasecmp_eq key key' \<Longrightarrow> strcasecmp_eq k key = strcasecmp_eq k key'"
  by (auto simp: strcasecmp_eq_def)

text \<open>
  The exact lookup is the finite map of the table; the case-insensitive one answers the
  same for every spelling of a key and finds whatever the exact one finds unless an
  earlier row has the key in another spelling.
\<close>

lemma lcec_lookupint_map_of:
  "lcec_lookupint t key d = (case map_of t key of None \<Rightarrow> d | Some v \<Rightarrow> v)"
  by (induction t) auto

lemma lcec_lookupint_i_spelling:
  "strcasecmp_eq key key' \<Longrightarrow> lcec_lookupint_i t key d = lcec_lookupint_i t key' d"
  by (rule lii.lookup_key_cong) (rule strcasecmp_key_cong)

lemma lcec_lookupint_i_exact:
  assumes "\<And>k v. (k, v) \<in> set t \<Longrightarrow> strcasecmp_eq k key \<Longrightarrow> k = key"
  shows "lcec_lookupint_i t key d = lcec_lookupint t key d"
  using assms
proof (induction t)
  case Nil
  then show ?case by simp
next
  case (Cons row t)
  obtain k v where row: "row = (k, v)" by (cases row)
  have "lcec_lookupint_i t key d = lcec_lookupint t key d"
    by (rule Cons.IH) (rule Cons.prems [OF list.set_intros(2)])
  with Cons.prems [of k v] show ?case by (auto simp: row)
qed

end
