(* ===== verification/ModParam.thy ===== *)
theory ModParam
  imports Lookup
begin

text \<open>
  The module parameter descriptions of \<open>lcec.h\<close> and their operations from
  \<open>lcec_modparam.c\<close>, and the value lookup \<open>lcec_modparam_get\<close> of \<open>lcec_ethercat.c\<close>. An array
  that ends in a row without a name is the list of the rows before it; a pointer that may
  be \<open>NULL\<close> is an option.
\<close>

section \<open>Descriptions\<close>

datatype modparam_type =
  MODPARAM_TYPE_BIT | MODPARAM_TYPE_U32 | MODPARAM_TYPE_S32 | MODPARAM_TYPE_FLOAT
  | MODPARAM_TYPE_STRING

record modparam_desc =
  md_name :: string
  md_id :: int
  md_type :: modparam_type
  md_config_value :: "string option"
  md_config_comment :: "string option"

record modparam_doc =
  doc_name :: string
  doc_config_value :: "string option"
  doc_config_comment :: "string option"

datatype modparam_error = NullTable

definition lcec_modparam_desc_len :: "modparam_desc list option \<Rightarrow> nat" where
  "lcec_modparam_desc_len mp = (case mp of None \<Rightarrow> 0 | Some t \<Rightarrow> length t)"

definition lcec_modparam_doc_len :: "modparam_doc list option \<Rightarrow> nat" where
  "lcec_modparam_doc_len mp = (case mp of None \<Rightarrow> 0 | Some t \<Rightarrow> length t)"

text \<open>
  The concatenation reads the terminator of \<open>a\<close> unconditionally, so a \<open>NULL\<close> first table
  is dereferenced; a \<open>NULL\<close> second table counts as empty.
\<close>

definition lcec_modparam_desc_concat ::
  "modparam_desc list option \<Rightarrow> modparam_desc list option \<Rightarrow> modparam_error + modparam_desc list" where
  "lcec_modparam_desc_concat a b =
     (case a of None \<Rightarrow> Inl NullTable
      | Some ta \<Rightarrow> Inr (ta @ (case b of None \<Rightarrow> [] | Some tb \<Rightarrow> tb)))"

text \<open>One documentation row overrides value and comment of every row with its name.\<close>

definition doc_override :: "modparam_doc \<Rightarrow> modparam_desc \<Rightarrow> modparam_desc" where
  "doc_override bb cc =
     (if strcmp_eq (md_name cc) (doc_name bb)
      then cc\<lparr>md_config_value :=
                (case doc_config_value bb of None \<Rightarrow> md_config_value cc | Some v \<Rightarrow> Some v),
              md_config_comment :=
                (case doc_config_comment bb of None \<Rightarrow> md_config_comment cc | Some v \<Rightarrow> Some v)\<rparr>
      else cc)"

definition merge_doc :: "modparam_doc \<Rightarrow> modparam_desc list \<Rightarrow> modparam_desc list" where
  "merge_doc bb c =
     (if doc_config_value bb \<noteq> None \<or> doc_config_comment bb \<noteq> None
      then map (doc_override bb) c else c)"

definition lcec_modparam_desc_merge_docs ::
  "modparam_desc list option \<Rightarrow> modparam_doc list option \<Rightarrow> modparam_desc list" where
  "lcec_modparam_desc_merge_docs a b =
     fold merge_doc (case b of None \<Rightarrow> [] | Some tb \<Rightarrow> tb) (case a of None \<Rightarrow> [] | Some ta \<Rightarrow> ta)"

lemma lcec_modparam_desc_concat_len:
  "lcec_modparam_desc_concat a b = Inr c \<Longrightarrow>
   lcec_modparam_desc_len (Some c) = lcec_modparam_desc_len a + lcec_modparam_desc_len b"
  by (auto simp: lcec_modparam_desc_concat_def lcec_modparam_desc_len_def split: option.splits)

text \<open>
  The merge in one pass: every row keeps its name, id and type, and its value is the last
  value any documentation row of that name gives, or its own.
\<close>

definition last_doc :: "(modparam_doc \<Rightarrow> string option) \<Rightarrow> modparam_doc list \<Rightarrow> string \<Rightarrow> string option" where
  "last_doc sel docs n = fold (\<lambda>bb acc. if doc_name bb = n \<and> sel bb \<noteq> None then sel bb else acc) docs None"

definition merged_row :: "modparam_doc list \<Rightarrow> modparam_desc \<Rightarrow> modparam_desc" where
  "merged_row docs cc =
     cc\<lparr>md_config_value :=
          (case last_doc doc_config_value docs (md_name cc) of None \<Rightarrow> md_config_value cc | Some v \<Rightarrow> Some v),
        md_config_comment :=
          (case last_doc doc_config_comment docs (md_name cc) of None \<Rightarrow> md_config_comment cc | Some v \<Rightarrow> Some v)\<rparr>"

lemma merge_doc_map: "merge_doc bb c = map (doc_override bb) c"
proof -
  have "doc_override bb cc = cc" if "doc_config_value bb = None" "doc_config_comment bb = None" for cc
    using that by (simp add: doc_override_def)
  then show ?thesis by (auto simp: merge_doc_def map_idI)
qed

lemma last_doc_snoc:
  "last_doc sel (docs @ [bb]) n =
     (if doc_name bb = n \<and> sel bb \<noteq> None then sel bb else last_doc sel docs n)"
  unfolding last_doc_def by (simp only: fold_append fold.simps o_apply id_apply)

lemma doc_override_merged_row: "doc_override bb (merged_row docs cc) = merged_row (docs @ [bb]) cc"
  by (auto simp: doc_override_def merged_row_def last_doc_snoc split: option.splits)

lemma fold_merge_doc: "fold merge_doc docs c = map (merged_row docs) c"
proof (induction docs rule: rev_induct)
  case Nil
  then show ?case by (simp add: merged_row_def last_doc_def map_idI)
next
  case (snoc bb docs)
  then show ?case by (simp add: merge_doc_map doc_override_merged_row)
qed

lemma merged_row_frame [simp]:
  "md_name (merged_row docs cc) = md_name cc"
  "md_id (merged_row docs cc) = md_id cc"
  "md_type (merged_row docs cc) = md_type cc"
  by (simp_all add: merged_row_def)

section \<open>Values\<close>

text \<open>The union of \<open>lcec_conf.h\<close>, with the member the parser stored.\<close>

datatype modparam_val = MpBit bool | MpU32 u32 | MpS32 int | MpFloat real | MpStr string

record slave_modparam =
  smp_id :: int
  smp_name :: string
  smp_value :: modparam_val

text \<open>
  \<open>lcec_modparam_get\<close> walks the array up to the entry with a negative id. The list holds
  the whole array; running off its end would be a read past the array.
\<close>

fun modparam_scan :: "slave_modparam list \<Rightarrow> int \<Rightarrow> modparam_error + modparam_val option" where
  "modparam_scan [] i = Inl NullTable"
| "modparam_scan (p # ps) i =
     (if smp_id p < 0 then Inr None
      else if smp_id p = i then Inr (Some (smp_value p)) else modparam_scan ps i)"

definition lcec_modparam_get :: "slave_modparam list option \<Rightarrow> int \<Rightarrow> modparam_error + modparam_val option" where
  "lcec_modparam_get mps i = (case mps of None \<Rightarrow> Inr None | Some ps \<Rightarrow> modparam_scan ps i)"

lemma modparam_scan_terminated:
  assumes "\<And>p. p \<in> set ps \<Longrightarrow> 0 \<le> smp_id p" and "smp_id t < 0"
  shows "modparam_scan (ps @ t # rest) i =
    Inr (map_option smp_value (List.find (\<lambda>p. smp_id p = i) ps))"
  using assms by (induction ps) (auto simp: not_less [symmetric])

end
