(* ===== verification/TypeRegistry.thy ===== *)
theory TypeRegistry
  imports ModParam
begin

text \<open>
  The device types and their registry (\<open>lcec_devicelist.c\<close>), and the listing tool that prints
  it (\<open>lcec_devices.c\<close>). The linked list \<open>typeslist\<close> is a HOL list. A driver callback is
  known to this code only as a pointer: the model names it by its C function's name.
\<close>

section \<open>The registry\<close>

record slave_type =
  ty_name :: string
  ty_vid :: u32
  ty_pid :: u32
  ty_is_fsoe_logic :: bool
  ty_proc_preinit :: "string option"
  ty_proc_init :: "string option"
  ty_modparams :: "modparam_desc list option"
  ty_flags :: u64
  ty_sourcefile :: "string option"

type_synonym registry = "slave_type list"

definition lcec_addtype :: "slave_type \<Rightarrow> string \<Rightarrow> registry \<Rightarrow> registry" where
  "lcec_addtype ty src reg = reg @ [ty\<lparr>ty_sourcefile := Some src\<rparr>]"

fun lcec_addtypes :: "slave_type list \<Rightarrow> string \<Rightarrow> registry \<Rightarrow> registry" where
  "lcec_addtypes [] src reg = reg"
| "lcec_addtypes (ty # tys) src reg = lcec_addtypes tys src (lcec_addtype ty src reg)"

fun lcec_findslavetype :: "registry \<Rightarrow> string \<Rightarrow> slave_type option" where
  "lcec_findslavetype [] n = None"
| "lcec_findslavetype (ty # tys) n = (if strcmp_eq (ty_name ty) n then Some ty else lcec_findslavetype tys n)"

lemma lcec_findslavetype_find: "lcec_findslavetype reg n = List.find (\<lambda>ty. ty_name ty = n) reg"
  by (induction reg) auto

lemma lcec_findslavetype_name: "lcec_findslavetype reg n = Some ty \<Longrightarrow> ty_name ty = n \<and> ty \<in> set reg"
  by (auto simp: lcec_findslavetype_find dest: find_SomeD)

lemma lcec_addtypes_append:
  "lcec_addtypes tys src reg = reg @ map (\<lambda>ty. ty\<lparr>ty_sourcefile := Some src\<rparr>) tys"
  by (induction tys arbitrary: reg) (simp_all add: lcec_addtype_def)

text \<open>A lookup after a registration: what was there first stays visible.\<close>

lemma lcec_findslavetype_addtype:
  "lcec_findslavetype (lcec_addtype ty src reg) n =
     (case lcec_findslavetype reg n of
        Some ty' \<Rightarrow> Some ty'
      | None \<Rightarrow> if ty_name ty = n then Some (ty\<lparr>ty_sourcefile := Some src\<rparr>) else None)"
  by (simp add: lcec_findslavetype_find lcec_addtype_def find_append split: option.splits)

section \<open>The device list\<close>

text \<open>\<open>"0x%08x"\<close> on a 32-bit value: eight lower case hexadecimal digits.\<close>

definition hex_char :: "int \<Rightarrow> char" where
  "hex_char d = ''0123456789abcdef'' ! nat d"

fun hex_digits :: "nat \<Rightarrow> int \<Rightarrow> string" where
  "hex_digits 0 v = []"
| "hex_digits (Suc k) v = hex_digits k (v div 16) @ [hex_char (v mod 16)]"

definition show_hex8 :: "u32 \<Rightarrow> string" where
  "show_hex8 w = ''0x'' @ hex_digits 8 (uint w)"

definition devicelist_modparam :: "modparam_desc \<Rightarrow> string" where
  "devicelist_modparam m =
     (case md_config_comment m of None \<Rightarrow> [] | Some c \<Rightarrow> ''<!-- '' @ c @ '' --> '') @
     (case md_config_value m of None \<Rightarrow> []
      | Some v \<Rightarrow> ''<modParam name=\"'' @ md_name m @ ''\" value=\"'' @ v @ ''\"/> '')"

definition devicelist_line :: "slave_type \<Rightarrow> string" where
  "devicelist_line ty =
     ty_name ty @ [CHR 0x09] @ show_hex8 (ty_vid ty) @ [CHR 0x09] @ show_hex8 (ty_pid ty) @ [CHR 0x09] @
     (case ty_sourcefile ty of None \<Rightarrow> [] | Some f \<Rightarrow> f) @ [CHR 0x09] @
     (case ty_modparams ty of None \<Rightarrow> [] | Some ms \<Rightarrow> concat (map devicelist_modparam ms)) @ [CHR 0x0A]"

definition devicelist_main :: "registry \<Rightarrow> string" where
  "devicelist_main reg = concat (map devicelist_line reg)"

lemma hex_char_digit [simp]: "0 \<le> d \<Longrightarrow> d < 16 \<Longrightarrow> digit_val (hex_char d) = d"
proof -
  assume "0 \<le> d" and "d < 16"
  then have "d \<in> {0, 1, 2, 3, 4, 5, 6, 7, 8, 9, 10, 11, 12, 13, 14, 15}" by simp arith
  then show ?thesis by (auto simp: hex_char_def digit_val_def char_code_def)
qed

lemma digits_val_hex_digits: "digits_val 16 (hex_digits k v) = v mod 16 ^ k"
proof (induction k arbitrary: v)
  case 0
  then show ?case by (simp add: digits_val_def)
next
  case (Suc k)
  have "v mod 16 ^ Suc k = 16 * (v div 16 mod 16 ^ k) + v mod 16"
    by (simp add: zmod_zmult2_eq)
  with Suc show ?case by (simp add: digits_val_snoc)
qed

lemma length_hex_digits [simp]: "length (hex_digits k v) = k"
  by (induction k arbitrary: v) simp_all

lemma hex_digits_is_digit: "c \<in> set (hex_digits k v) \<Longrightarrow> is_digit 16 c"
  by (induction k arbitrary: v) (auto simp: is_digit_def)

text \<open>What \<open>strtol\<close> in base 16 makes of a printed identifier.\<close>

lemma hex_digits_first: "\<exists>h r. hex_digits 8 v = h # r \<and> is_digit 16 h"
proof -
  obtain h r where h: "hex_digits 8 v = h # r"
    using length_hex_digits [of 8 v] by (cases "hex_digits 8 v") simp_all
  moreover have "is_digit 16 h" using hex_digits_is_digit [of h 8 v] h by simp
  ultimately show ?thesis by blast
qed

lemma strtol_show_hex8: "strtol 16 (show_hex8 w) = (uint w, [])"
proof -
  obtain h r where h: "hex_digits 8 (uint w) = h # r" "is_digit 16 h" using hex_digits_first by blast
  have all: "takeWhile (is_digit 16) r = r"
    by (rule takeWhile_all) (metis h(1) hex_digits_is_digit list.set_intros(2))
  have v: "digits_val 16 (h # r) = uint w"
    using uint_lt2p [of w] by (simp add: h(1) [symmetric] digits_val_hex_digits)
  have "uint w < 4294967296" using uint_lt2p [of w] by simp
  moreover have "- 9223372036854775808 \<le> uint w" by (rule order_trans [OF _ uint_ge_0]) simp
  ultimately have "clamp_s64 (uint w) = uint w" by (simp add: clamp_s64_def)
  then show ?thesis
    using v h(2)
    by (simp add: all strtol_def scan_int_def show_hex8_def h(1) read_sign_def c_isspace_def has_hex_prefix_def Let_def)
qed

end
