(* ===== verification/ConfUtil.thy ===== *)
theory ConfUtil
  imports TypeRegistry
begin

text \<open>
  The helpers of \<open>lcec_conf_util.c\<close>: the chained output buffer, the table driven XML state
  machine both configuration parsers are instances of, and the reader of hexadecimal data.
\<close>

unbundle bit_operations_syntax

section \<open>Output buffer\<close>

text \<open>
  A buffer is a chain of zeroed blocks, each with its length, and the sum of the lengths.
  The model keeps what the caller stores in a block beside the block's length. A block is
  handed out only if \<open>calloc\<close> succeeds, which is the first argument: it is asked with the
  bytes in the buffer so far and the length wanted.
\<close>

record 'a outbuf =
  ob_items :: "(nat \<times> 'a) list"
  ob_len :: nat

type_synonym calloc_oracle = "nat \<Rightarrow> nat \<Rightarrow> bool"

definition initOutputBuffer :: "'a outbuf" where
  "initOutputBuffer = \<lparr>ob_items = [], ob_len = 0\<rparr>"

definition addOutputBuffer :: "calloc_oracle \<Rightarrow> nat \<Rightarrow> 'a \<Rightarrow> 'a outbuf \<Rightarrow> 'a outbuf option" where
  "addOutputBuffer calloc_ok n x buf =
     (if calloc_ok (ob_len buf) n
      then Some \<lparr>ob_items = ob_items buf @ [(n, x)], ob_len = ob_len buf + n\<rparr> else None)"

text \<open>
  The copy visits the blocks in order, writes each at the current destination and frees
  it. Only \<open>head\<close> is reset, so the recorded length survives. With no destination it frees.
\<close>

fun copy_blocks :: "(nat \<times> 'a) list \<Rightarrow> nat \<Rightarrow> (nat \<times> 'a) list \<Rightarrow> (nat \<times> 'a) list" where
  "copy_blocks [] pos dest = dest"
| "copy_blocks ((n, x) # bs) pos dest = copy_blocks bs (pos + n) (dest @ [(pos, x)])"

definition copyFreeOutputBuffer :: "'a outbuf \<Rightarrow> bool \<Rightarrow> 'a outbuf \<times> (nat \<times> 'a) list" where
  "copyFreeOutputBuffer buf has_dest =
     (buf\<lparr>ob_items := []\<rparr>, if has_dest then copy_blocks (ob_items buf) 0 [] else [])"

definition outbuf_ok :: "'a outbuf \<Rightarrow> bool" where
  "outbuf_ok buf \<longleftrightarrow> ob_len buf = sum_list (map fst (ob_items buf))"

lemma outbuf_ok_init [simp]: "outbuf_ok initOutputBuffer"
  by (simp add: outbuf_ok_def initOutputBuffer_def)

lemma outbuf_ok_add: "addOutputBuffer c n x buf = Some buf' \<Longrightarrow> outbuf_ok buf \<Longrightarrow> outbuf_ok buf'"
  by (auto simp: addOutputBuffer_def outbuf_ok_def split: if_splits)

text \<open>Every block lands at the sum of the lengths before it, and the last one ends at the total.\<close>

lemma copy_blocks_spec:
  "copy_blocks bs pos dest =
     dest @ map (\<lambda>i. (pos + sum_list (map fst (take i bs)), snd (bs ! i))) [0..<length bs]"
proof (induction bs arbitrary: pos dest)
  case Nil
  then show ?case by simp
next
  case (Cons b bs)
  obtain n x where b: "b = (n, x)" by (cases b)
  have "[0..<length (b # bs)] = 0 # map Suc [0..<length bs]"
    by (simp add: map_Suc_upt upt_conv_Cons del: upt_Suc)
  then show ?case using Cons by (simp add: b add.assoc comp_def del: upt_Suc)
qed

lemma copy_block_in_bounds:
  assumes "outbuf_ok buf" and "i < length (ob_items buf)"
  shows "sum_list (map fst (take i (ob_items buf))) + fst (ob_items buf ! i) \<le> ob_len buf"
proof -
  let ?bs = "ob_items buf"
  have "ob_len buf = sum_list (map fst (take (Suc i) ?bs @ drop (Suc i) ?bs))"
    using assms(1) by (simp add: outbuf_ok_def)
  also have "\<dots> \<ge> sum_list (map fst (take (Suc i) ?bs))"
    by (simp only: map_append sum_list_append le_add1)
  finally show ?thesis using assms(2) by (simp add: take_Suc_conv_app_nth)
qed

section \<open>The XML state machine\<close>

text \<open>
  Expat calls the handlers; the model takes the calls it makes as a list of events. A
  handler may stop the parser, which makes the whole run fail, so a stop is the error
  \<open>Stop\<close>. \<open>TableOverrun\<close> is the state search reading behind its table and \<open>NullDeref\<close>
  an access through a pointer that is not set.
\<close>

type_synonym attrs = "(string \<times> string) list"

datatype xml_event = StartEl string attrs | EndEl string | CharData string

datatype conf_fail = Stop string | TableOverrun | NullDeref

record xml_inst =
  xi_state :: int

text \<open>
  One row of a handler table. The element name \<open>None\<close> is the \<open>NULL\<close> pointer that ends the
  search loops.
\<close>

record 'a xml_row =
  xr_el :: "string option"
  xr_from :: int
  xr_to :: int
  xr_start :: "(attrs \<Rightarrow> 'a xml_inst_scheme \<Rightarrow> conf_fail + 'a xml_inst_scheme) option"
  xr_end :: "('a xml_inst_scheme \<Rightarrow> conf_fail + 'a xml_inst_scheme) option"

datatype 'r search = Found 'r | Terminated | Overrun

fun xml_search :: "('a xml_row \<Rightarrow> string \<Rightarrow> bool) \<Rightarrow> 'a xml_row list \<Rightarrow> 'a xml_row search" where
  "xml_search match [] = Overrun"
| "xml_search match (r # rs) =
     (case xr_el r of None \<Rightarrow> Terminated
      | Some e \<Rightarrow> if match r e then Found r else xml_search match rs)"

definition xml_start_handler ::
  "'a xml_row list \<Rightarrow> string \<Rightarrow> attrs \<Rightarrow> 'a xml_inst_scheme \<Rightarrow> conf_fail + 'a xml_inst_scheme" where
  "xml_start_handler rows el ats inst =
     (case xml_search (\<lambda>r e. xi_state inst = xr_from r \<and> strcmp_eq el e) rows of
        Found r \<Rightarrow>
          bind_res (case xr_start r of None \<Rightarrow> Inr inst | Some h \<Rightarrow> h ats inst)
            (\<lambda>i. Inr (i\<lparr>xi_state := xr_to r\<rparr>))
      | Terminated \<Rightarrow> Inl (Stop ''unexpected node'')
      | Overrun \<Rightarrow> Inl TableOverrun)"

definition xml_end_handler ::
  "'a xml_row list \<Rightarrow> string \<Rightarrow> 'a xml_inst_scheme \<Rightarrow> conf_fail + 'a xml_inst_scheme" where
  "xml_end_handler rows el inst =
     (case xml_search (\<lambda>r e. xi_state inst = xr_to r \<and> strcmp_eq el e) rows of
        Found r \<Rightarrow>
          bind_res (case xr_end r of None \<Rightarrow> Inr inst | Some h \<Rightarrow> h inst)
            (\<lambda>i. Inr (i\<lparr>xi_state := xr_from r\<rparr>))
      | Terminated \<Rightarrow> Inl (Stop ''unexpected close tag'')
      | Overrun \<Rightarrow> Inl TableOverrun)"

fun xml_step ::
  "'a xml_row list \<Rightarrow> (string \<Rightarrow> 'a xml_inst_scheme \<Rightarrow> conf_fail + 'a xml_inst_scheme) \<Rightarrow>
   xml_event \<Rightarrow> 'a xml_inst_scheme \<Rightarrow> conf_fail + 'a xml_inst_scheme" where
  "xml_step rows cdata (StartEl el ats) inst = xml_start_handler rows el ats inst"
| "xml_step rows cdata (EndEl el) inst = xml_end_handler rows el inst"
| "xml_step rows cdata (CharData s) inst = cdata s inst"

definition xml_run ::
  "'a xml_row list \<Rightarrow> (string \<Rightarrow> 'a xml_inst_scheme \<Rightarrow> conf_fail + 'a xml_inst_scheme) \<Rightarrow>
   xml_event list \<Rightarrow> 'a xml_inst_scheme \<Rightarrow> conf_fail + 'a xml_inst_scheme" where
  "xml_run rows cdata evs inst = fold_res (xml_step rows cdata) evs inst"

lemma xml_search_FoundD:
  "xml_search m rows = Found r \<Longrightarrow> r \<in> set rows \<and> (\<exists>e. xr_el r = Some e \<and> m r e)"
  by (induction rows) (auto split: option.splits if_splits)

lemma xml_search_no_null:
  assumes "\<And>r. r \<in> set rows \<Longrightarrow> xr_el r \<noteq> None"
  shows "xml_search m rows \<noteq> Terminated"
  using assms by (induction rows) (auto split: option.splits)

lemma xml_search_Overrun:
  assumes "\<And>r e. r \<in> set rows \<Longrightarrow> xr_el r = Some e \<Longrightarrow> \<not> m r e"
    and "\<And>r. r \<in> set rows \<Longrightarrow> xr_el r \<noteq> None"
  shows "xml_search m rows = Overrun"
  using assms by (induction rows) (auto split: option.splits)

text \<open>
  What a handler table promises the machine: its handlers keep an invariant, and a close
  handler and the character data handler leave the parser state to the machine.
\<close>

locale xml_table =
  fixes rows :: "'a xml_row list"
    and cdata :: "string \<Rightarrow> 'a xml_inst_scheme \<Rightarrow> conf_fail + 'a xml_inst_scheme"
    and inv :: "'a xml_inst_scheme \<Rightarrow> bool"
  assumes start_row:
      "\<lbrakk>r \<in> set rows; xr_el r \<noteq> None; inv i; xi_state i = xr_from r;
        (case xr_start r of None \<Rightarrow> Inr i | Some h \<Rightarrow> h ats i) = Inr j\<rbrakk> \<Longrightarrow> inv (j\<lparr>xi_state := xr_to r\<rparr>)"
    and end_row:
      "\<lbrakk>r \<in> set rows; xr_el r \<noteq> None; inv i; xi_state i = xr_to r;
        (case xr_end r of None \<Rightarrow> Inr i | Some h \<Rightarrow> h i) = Inr j\<rbrakk> \<Longrightarrow> inv (j\<lparr>xi_state := xr_from r\<rparr>)"
    and cdata_inv: "\<lbrakk>inv i; cdata s i = Inr j\<rbrakk> \<Longrightarrow> inv j"
begin

lemma step_inv: "inv i \<Longrightarrow> xml_step rows cdata ev i = Inr j \<Longrightarrow> inv j"
proof (cases ev)
  case (StartEl el ats)
  assume "inv i" and "xml_step rows cdata ev i = Inr j"
  with StartEl show ?thesis
    by (auto simp: xml_start_handler_def split: search.splits dest!: xml_search_FoundD intro: start_row)
next
  case (EndEl el)
  assume "inv i" and "xml_step rows cdata ev i = Inr j"
  with EndEl show ?thesis
    by (auto simp: xml_end_handler_def split: search.splits dest!: xml_search_FoundD intro: end_row)
next
  case (CharData s)
  assume "inv i" and "xml_step rows cdata ev i = Inr j"
  with CharData show ?thesis by (auto intro: cdata_inv)
qed

lemma run_inv: "xml_run rows cdata evs i = Inr j \<Longrightarrow> inv i \<Longrightarrow> inv j"
  unfolding xml_run_def by (erule fold_res_invariant) (auto intro: step_inv)

end

text \<open>
  Expat reports the elements of a document properly nested. A table in which a state is
  entered by one row only then comes back, at an end tag, to the state of the start tag.
\<close>

fun balanced :: "string list \<Rightarrow> xml_event list \<Rightarrow> bool" where
  "balanced names [] = (names = [])"
| "balanced names (StartEl el ats # evs) = balanced (el # names) evs"
| "balanced names (EndEl el # evs) =
     (case names of [] \<Rightarrow> False | n # ns \<Rightarrow> el = n \<and> balanced ns evs)"
| "balanced names (CharData s # evs) = balanced names evs"

fun xml_path :: "'a xml_row list \<Rightarrow> int \<Rightarrow> string list \<Rightarrow> int \<Rightarrow> bool" where
  "xml_path rows n0 [] n = (n = n0)"
| "xml_path rows n0 (el # names) n =
     (\<exists>r\<in>set rows. xr_el r = Some el \<and> xr_to r = n \<and> xml_path rows n0 names (xr_from r))"

locale xml_tree = xml_table +
  assumes one_way: "\<lbrakk>r \<in> set rows; r' \<in> set rows; xr_to r = xr_to r'\<rbrakk> \<Longrightarrow> r = r'"
    and cdata_state: "cdata s i = Inr j \<Longrightarrow> xi_state j = xi_state i"
begin

lemma start_path:
  "xml_path rows n0 names (xi_state i) \<Longrightarrow> xml_step rows cdata (StartEl el ats) i = Inr j \<Longrightarrow>
   xml_path rows n0 (el # names) (xi_state j)"
  by (auto simp: xml_start_handler_def split: search.splits dest!: xml_search_FoundD)

lemma end_path:
  "xml_path rows n0 (el # names) (xi_state i) \<Longrightarrow> xml_step rows cdata (EndEl el) i = Inr j \<Longrightarrow>
   xml_path rows n0 names (xi_state j)"
  by (auto simp: xml_end_handler_def split: search.splits dest!: xml_search_FoundD dest: one_way)

lemma run_path:
  "balanced names evs \<Longrightarrow> xml_path rows n0 names (xi_state i) \<Longrightarrow> xml_run rows cdata evs i = Inr j \<Longrightarrow>
   xi_state j = n0"
proof (induction evs arbitrary: names i)
  case Nil
  then show ?case by (simp add: xml_run_def)
next
  case (Cons ev evs)
  obtain k where k: "xml_step rows cdata ev i = Inr k" "xml_run rows cdata evs k = Inr j"
    using Cons.prems(3) by (auto simp: xml_run_def)
  show ?case
  proof (cases ev)
    case (StartEl el ats)
    with k(1) Cons.prems(2) have "xml_path rows n0 (el # names) (xi_state k)" by (simp only: start_path)
    with Cons.IH [OF _ this k(2)] Cons.prems(1) StartEl show ?thesis by simp
  next
    case (EndEl el)
    then obtain ns where ns: "names = el # ns" "balanced ns evs"
      using Cons.prems(1) by (auto split: list.splits)
    with EndEl k(1) Cons.prems(2) have "xml_path rows n0 ns (xi_state k)" by (simp only: end_path)
    with Cons.IH [OF ns(2) _ k(2)] show ?thesis by simp
  next
    case (CharData s)
    with k(1) have "xi_state k = xi_state i" by (simp add: cdata_state)
    with Cons.IH [OF _ _ k(2), of names] Cons.prems CharData show ?thesis by simp
  qed
qed

lemma run_returns: "balanced [] evs \<Longrightarrow> xml_run rows cdata evs i = Inr j \<Longrightarrow> xi_state j = xi_state i"
  by (rule run_path [of "[]"]) simp_all

end

section \<open>Hexadecimal data\<close>

definition hex_nibble :: "char \<Rightarrow> u8 option" where
  "hex_nibble c =
     (let v = char_code c in
      if 48 \<le> v \<and> v \<le> 57 then Some (word_of_int (v - 48))
      else if 97 \<le> v \<and> v \<le> 102 then Some (word_of_int (v - 87))
      else if 65 \<le> v \<and> v \<le> 70 then Some (word_of_int (v - 55))
      else None)"

definition is_hex_blank :: "char \<Rightarrow> bool" where
  "is_hex_blank c \<longleftrightarrow> c \<in> {CHR '' '', CHR 0x09, CHR 0x0D, CHR 0x0A}"

text \<open>
  The loop of \<open>parseHex\<close>: \<open>slen\<close> is the remaining length (-1: up to the terminating zero),
  \<open>nib\<close> tells that half a byte is pending in \<open>tmp\<close>, \<open>out\<close> is what has been stored.
\<close>

fun parse_hex_loop :: "string \<Rightarrow> int \<Rightarrow> bool \<Rightarrow> u8 \<Rightarrow> u8 list \<Rightarrow> u8 list option" where
  "parse_hex_loop [] slen nib tmp out = (if nib then None else Some out)"
| "parse_hex_loop (c # s) slen nib tmp out =
     (if \<not> (slen = -1 \<or> slen > 0) then (if nib then None else Some out)
      else
        let slen' = (if slen > 0 then slen - 1 else slen) in
        if \<not> nib \<and> is_hex_blank c then parse_hex_loop s slen' nib tmp out
        else case hex_nibble c of
            None \<Rightarrow> None
          | Some v \<Rightarrow>
              if nib then (let b = tmp OR (v AND 15) in parse_hex_loop s slen' False b (out @ [b]))
              else parse_hex_loop s slen' True (push_bit 4 v) out)"

definition parseHex :: "string \<Rightarrow> int \<Rightarrow> u8 list option" where
  "parseHex s slen = parse_hex_loop s slen False 0 []"

text \<open>
  A byte as two hexadecimal digits, and the blanks that may surround it: what the loop
  reads back.
\<close>

definition hex_byte :: "u8 \<Rightarrow> string" where
  "hex_byte b = [hex_char (uint b div 16), hex_char (uint b mod 16)]"

lemma hex_nibble_hex_char: "0 \<le> d \<Longrightarrow> d < 16 \<Longrightarrow> hex_nibble (hex_char d) = Some (word_of_int d)"
proof -
  assume "0 \<le> d" and "d < 16"
  then have "d \<in> {0, 1, 2, 3, 4, 5, 6, 7, 8, 9, 10, 11, 12, 13, 14, 15}" by simp arith
  then show ?thesis by (auto simp: hex_char_def hex_nibble_def char_code_def)
qed

lemma hex_char_not_blank: "0 \<le> d \<Longrightarrow> d < 16 \<Longrightarrow> \<not> is_hex_blank (hex_char d)"
proof -
  assume "0 \<le> d" and "d < 16"
  then have "d \<in> {0, 1, 2, 3, 4, 5, 6, 7, 8, 9, 10, 11, 12, 13, 14, 15}" by simp arith
  then show ?thesis by (auto simp: hex_char_def is_hex_blank_def)
qed

lemma byte_of_nibbles:
  "push_bit 4 (word_of_int (uint b div 16)) OR (word_of_int (uint b mod 16) AND 15) = (b::u8)"
proof -
  have "word_of_int (uint b div 16) = drop_bit 4 b"
    by (simp add: drop_bit_eq_div word_div_def)
  moreover have "word_of_int (uint b mod 16) = take_bit 4 b"
    by (simp add: take_bit_eq_mod word_mod_def)
  moreover have "push_bit 4 (drop_bit 4 b) OR (take_bit 4 b AND 15) = b"
  proof (rule bit_word_eqI)
    fix n
    have m: "(15::u8) = mask 4" by (simp add: mask_eq_exp_minus_1)
    assume "n < LENGTH(8)"
    then show "bit (push_bit 4 (drop_bit 4 b) OR (take_bit 4 b AND 15)) n = bit b n"
      by (cases "n < 4") (auto simp: m bit_simps)
  qed
  ultimately show ?thesis by simp
qed

lemma parse_hex_loop_byte:
  "parse_hex_loop (hex_byte b @ s) (-1) False tmp out = parse_hex_loop s (-1) False b (out @ [b])"
proof -
  have r: "0 \<le> uint b div 16" "uint b div 16 < 16" "0 \<le> uint b mod 16" "uint b mod 16 < 16"
    using uint_ge_0 [of b] uint_lt2p [of b] by (simp_all add: pos_imp_zdiv_nonneg_iff)
  show ?thesis
    by (simp add: hex_byte_def hex_nibble_hex_char hex_char_not_blank r byte_of_nibbles Let_def)
qed

lemma parse_hex_loop_bytes:
  "parse_hex_loop (concat (map hex_byte bs) @ s) (-1) False tmp out =
   parse_hex_loop s (-1) False (if bs = [] then tmp else last bs) (out @ bs)"
  by (induction bs arbitrary: tmp out) (simp_all add: parse_hex_loop_byte)

lemma parse_hex_loop_blanks:
  "(\<And>c. c \<in> set ws \<Longrightarrow> is_hex_blank c) \<Longrightarrow>
   parse_hex_loop (ws @ s) (-1) False tmp out = parse_hex_loop s (-1) False tmp out"
  by (induction ws) simp_all

text \<open>The bytes are stored one after the other: what is stored before stays in front.\<close>

lemma parse_hex_loop_out:
  "parse_hex_loop s n nib tmp (pre @ out) = map_option ((@) pre) (parse_hex_loop s n nib tmp out)"
  by (induction s n nib tmp out rule: parse_hex_loop.induct) (auto simp: Let_def split: option.splits)

end
