(* ===== verification/ConfData.thy ===== *)
theory ConfData
  imports ConfUtil
begin

text \<open>
  The configuration tokens of \<open>lcec_conf.h\<close>, which \<open>lcec_conf\<close> writes into shared memory
  and \<open>lcec_parse_config\<close> reads back. Each struct is a record; the stream of structs is a
  list of items, tagged by the constructor where the C structs carry \<open>confType\<close>. The two
  tokens with a flexible array (SDO and IDN configuration) are followed by their data,
  which the writer adds as separate blocks: \<open>ItData\<close>.
\<close>

section \<open>Enumerations\<close>

datatype conf_type =
  lcecConfTypeNone | lcecConfTypeMasters | lcecConfTypeMaster | lcecConfTypeSlave
  | lcecConfTypeDcConf | lcecConfTypeWatchdog | lcecConfTypeSyncManager | lcecConfTypePdo
  | lcecConfTypePdoEntry | lcecConfTypeSdoConfig | lcecConfTypeSdoDataRaw
  | lcecConfTypeIdnConfig | lcecConfTypeIdnDataRaw | lcecConfTypeInitCmds
  | lcecConfTypeComplexEntry | lcecConfTypeModParam

text \<open>The numbers of the C enumeration, which the XML machine keeps in its state.\<close>

fun conf_type_num :: "conf_type \<Rightarrow> int" where
  "conf_type_num lcecConfTypeNone = 0"
| "conf_type_num lcecConfTypeMasters = 1"
| "conf_type_num lcecConfTypeMaster = 2"
| "conf_type_num lcecConfTypeSlave = 3"
| "conf_type_num lcecConfTypeDcConf = 4"
| "conf_type_num lcecConfTypeWatchdog = 5"
| "conf_type_num lcecConfTypeSyncManager = 6"
| "conf_type_num lcecConfTypePdo = 7"
| "conf_type_num lcecConfTypePdoEntry = 8"
| "conf_type_num lcecConfTypeSdoConfig = 9"
| "conf_type_num lcecConfTypeSdoDataRaw = 10"
| "conf_type_num lcecConfTypeIdnConfig = 11"
| "conf_type_num lcecConfTypeIdnDataRaw = 12"
| "conf_type_num lcecConfTypeInitCmds = 13"
| "conf_type_num lcecConfTypeComplexEntry = 14"
| "conf_type_num lcecConfTypeModParam = 15"

lemma conf_type_num_inj [simp]: "conf_type_num a = conf_type_num b \<longleftrightarrow> a = b"
  by (cases a; cases b) simp_all

text \<open>The enumeration order, so that the library's order lemmas apply to the token types.\<close>

instantiation conf_type :: linorder
begin

definition less_eq_conf_type :: "conf_type \<Rightarrow> conf_type \<Rightarrow> bool" where
  "less_eq_conf_type a b \<longleftrightarrow> conf_type_num a \<le> conf_type_num b"

definition less_conf_type :: "conf_type \<Rightarrow> conf_type \<Rightarrow> bool" where
  "less_conf_type a b \<longleftrightarrow> conf_type_num a < conf_type_num b"

instance
  by standard (auto simp: less_eq_conf_type_def less_conf_type_def)

end

datatype pdoent_type =
  lcecPdoEntTypeSimple | lcecPdoEntTypeFloatSigned | lcecPdoEntTypeFloatUnsigned
  | lcecPdoEntTypeComplex | lcecPdoEntTypeFloatIeee | lcecPdoEntTypeFloatDoubleIeee

text \<open>
  HAL types and pin directions. \<open>HAL_TYPE_ZERO\<close> is the value 0 a zeroed struct holds, which
  is none of the HAL's types.
\<close>

datatype hal_type = HAL_TYPE_ZERO | HAL_TYPE_UNSPECIFIED | HAL_BIT | HAL_FLOAT | HAL_S32 | HAL_U32

datatype hal_pin_dir = HAL_DIR_UNSPECIFIED | HAL_IN | HAL_OUT | HAL_IO

datatype ec_direction = EC_DIR_INVALID | EC_DIR_OUTPUT | EC_DIR_INPUT

text \<open>The AL states an IDN can be written in; \<open>EC_AL_STATE_NONE\<close> is the value 0.\<close>

datatype ec_al_state = EC_AL_STATE_NONE | EC_AL_STATE_PREOP | EC_AL_STATE_SAFEOP

section \<open>Tokens\<close>

record conf_master =
  cm_index :: int
  cm_appTimePeriod :: u32
  cm_refClockSyncCycles :: int
  cm_syncToRefClock :: int
  cm_refClockSlaveIdx :: int
  cm_name :: string

record conf_slave =
  cs_index :: int
  cs_type_name :: string
  cs_vid :: u32
  cs_pid :: u32
  cs_configPdos :: bool
  cs_syncManagerCount :: nat
  cs_pdoCount :: nat
  cs_pdoEntryCount :: nat
  cs_pdoMappingCount :: nat
  cs_sdoConfigLength :: nat
  cs_idnConfigLength :: nat
  cs_modParamCount :: nat
  cs_syncUnitCycle :: u32
  cs_syncUnit :: string
  cs_name :: string

record conf_dc =
  cd_assignActivate :: u16
  cd_sync0Cycle :: u32
  cd_sync0Shift :: int
  cd_sync1Cycle :: u32
  cd_sync1Shift :: int

record conf_watchdog =
  cw_divider :: u16
  cw_intervals :: u16

record conf_syncmanager =
  csm_index :: u8
  csm_dir :: ec_direction
  csm_pdoCount :: nat

record conf_pdo =
  cp_index :: u16
  cp_pdoEntryCount :: nat

record conf_pdoentry =
  pe_index :: u16
  pe_subindex :: u8
  pe_bitLength :: u8
  pe_subType :: pdoent_type
  pe_halType :: hal_type
  pe_floatScale :: real
  pe_floatOffset :: real
  pe_halPin :: string

record conf_complexentry =
  ce_bitOffset :: u8
  ce_bitLength :: u8
  ce_subType :: pdoent_type
  ce_halType :: hal_type
  ce_floatScale :: real
  ce_floatOffset :: real
  ce_halPin :: string

record conf_sdoconf =
  sdo_index :: u16
  sdo_subindex :: int
  sdo_length :: nat

record conf_idnconf =
  idn_drive :: u8
  idn_idn :: u16
  idn_state :: ec_al_state
  idn_length :: nat

record conf_modparam =
  cmp_id :: int
  cmp_name :: string
  cmp_value :: modparam_val

definition LCEC_CONF_SDO_COMPLETE_SUBIDX :: int where
  "LCEC_CONF_SDO_COMPLETE_SUBIDX = -1"

definition LCEC_CONF_GENERIC_MAX_SUBPINS :: int where
  "LCEC_CONF_GENERIC_MAX_SUBPINS = 32"

definition LCEC_CONF_GENERIC_MAX_BITLEN :: int where
  "LCEC_CONF_GENERIC_MAX_BITLEN = 255"

datatype conf_item =
    ItMaster conf_master
  | ItSlave conf_slave
  | ItDc conf_dc
  | ItWatchdog conf_watchdog
  | ItSyncManager conf_syncmanager
  | ItPdo conf_pdo
  | ItPdoEntry conf_pdoentry
  | ItComplexEntry conf_complexentry
  | ItSdo conf_sdoconf
  | ItIdn conf_idnconf
  | ItModParam conf_modparam
  | ItData "u8 list"
  | ItNull

section \<open>Sizes\<close>

text \<open>
  \<open>sizeof\<close> of the structs on LP64. The SDO and IDN sizes enter the lengths the slave token
  accumulates, and the reader's structs have their own sizes.
\<close>

definition sizeof_sdoconf :: nat where "sizeof_sdoconf = 16"
definition sizeof_idnconf :: nat where "sizeof_idnconf = 24"
definition sizeof_slave_sdoconf :: nat where "sizeof_slave_sdoconf = 16"
definition sizeof_slave_idnconf :: nat where "sizeof_slave_idnconf = 16"

fun sizeof_item :: "conf_item \<Rightarrow> nat" where
  "sizeof_item (ItMaster _) = 72"
| "sizeof_item (ItSlave _) = 208"
| "sizeof_item (ItDc _) = 24"
| "sizeof_item (ItWatchdog _) = 8"
| "sizeof_item (ItSyncManager _) = 16"
| "sizeof_item (ItPdo _) = 12"
| "sizeof_item (ItPdoEntry _) = 80"
| "sizeof_item (ItComplexEntry _) = 80"
| "sizeof_item (ItSdo _) = sizeof_sdoconf"
| "sizeof_item (ItIdn _) = sizeof_idnconf"
| "sizeof_item (ItModParam _) = 104"
| "sizeof_item (ItData bs) = length bs"
| "sizeof_item ItNull = 4"

section \<open>Access through pointers into the buffer\<close>

text \<open>
  The parsers keep pointers to blocks they have added and update them later. A pointer is
  the position of the block; using one that is not set is a \<open>NullDeref\<close>.
\<close>

definition get_master :: "conf_item list \<Rightarrow> nat option \<Rightarrow> conf_fail + conf_master" where
  "get_master its p = (case p of None \<Rightarrow> Inl NullDeref
     | Some k \<Rightarrow> if k < length its then (case its ! k of ItMaster m \<Rightarrow> Inr m | _ \<Rightarrow> Inl NullDeref)
                 else Inl NullDeref)"

definition get_slave :: "conf_item list \<Rightarrow> nat option \<Rightarrow> conf_fail + conf_slave" where
  "get_slave its p = (case p of None \<Rightarrow> Inl NullDeref
     | Some k \<Rightarrow> if k < length its then (case its ! k of ItSlave s \<Rightarrow> Inr s | _ \<Rightarrow> Inl NullDeref)
                 else Inl NullDeref)"

definition get_pdoentry :: "conf_item list \<Rightarrow> nat option \<Rightarrow> conf_fail + conf_pdoentry" where
  "get_pdoentry its p = (case p of None \<Rightarrow> Inl NullDeref
     | Some k \<Rightarrow> if k < length its then (case its ! k of ItPdoEntry e \<Rightarrow> Inr e | _ \<Rightarrow> Inl NullDeref)
                 else Inl NullDeref)"

definition upd_item :: "(conf_item \<Rightarrow> conf_item option) \<Rightarrow> nat option \<Rightarrow> conf_item list \<Rightarrow> conf_fail + conf_item list" where
  "upd_item f p its = (case p of None \<Rightarrow> Inl NullDeref
     | Some k \<Rightarrow> if k < length its
                 then (case f (its ! k) of None \<Rightarrow> Inl NullDeref | Some it \<Rightarrow> Inr (its[k := it]))
                 else Inl NullDeref)"

definition upd_slave :: "(conf_slave \<Rightarrow> conf_slave) \<Rightarrow> nat option \<Rightarrow> conf_item list \<Rightarrow> conf_fail + conf_item list" where
  "upd_slave f = upd_item (\<lambda>it. case it of ItSlave s \<Rightarrow> Some (ItSlave (f s)) | _ \<Rightarrow> None)"

definition upd_syncmanager ::
  "(conf_syncmanager \<Rightarrow> conf_syncmanager) \<Rightarrow> nat option \<Rightarrow> conf_item list \<Rightarrow> conf_fail + conf_item list" where
  "upd_syncmanager f = upd_item (\<lambda>it. case it of ItSyncManager s \<Rightarrow> Some (ItSyncManager (f s)) | _ \<Rightarrow> None)"

definition upd_pdo :: "(conf_pdo \<Rightarrow> conf_pdo) \<Rightarrow> nat option \<Rightarrow> conf_item list \<Rightarrow> conf_fail + conf_item list" where
  "upd_pdo f = upd_item (\<lambda>it. case it of ItPdo s \<Rightarrow> Some (ItPdo (f s)) | _ \<Rightarrow> None)"

definition upd_sdo :: "(conf_sdoconf \<Rightarrow> conf_sdoconf) \<Rightarrow> nat option \<Rightarrow> conf_item list \<Rightarrow> conf_fail + conf_item list" where
  "upd_sdo f = upd_item (\<lambda>it. case it of ItSdo s \<Rightarrow> Some (ItSdo (f s)) | _ \<Rightarrow> None)"

definition upd_idn :: "(conf_idnconf \<Rightarrow> conf_idnconf) \<Rightarrow> nat option \<Rightarrow> conf_item list \<Rightarrow> conf_fail + conf_item list" where
  "upd_idn f = upd_item (\<lambda>it. case it of ItIdn s \<Rightarrow> Some (ItIdn (f s)) | _ \<Rightarrow> None)"

lemma upd_item_length: "upd_item f p its = Inr its' \<Longrightarrow> length its' = length its"
  by (auto simp: upd_item_def split: option.splits if_splits)

lemma upd_item_nth:
  "upd_item f p its = Inr its' \<Longrightarrow>
   \<exists>k it. p = Some k \<and> k < length its \<and> f (its ! k) = Some it \<and> its' = its[k := it]"
  by (auto simp: upd_item_def split: option.splits if_splits)

end
