(* ===== verification/ConfIcmds.thy ===== *)
theory ConfIcmds
  imports ConfData
begin

text \<open>
  The parser of EtherCAT mailbox init command files, \<open>lcec_conf_icmds.c\<close>. It is an
  instance of the XML machine with its own handler table; it appends SDO and IDN tokens
  and their data to the output buffer of the caller and adds their size to the slave token.
\<close>

section \<open>Parser states\<close>

datatype icmd_type =
  icmdTypeNone | icmdTypeMailbox | icmdTypeCoe | icmdTypeCoeIcmds | icmdTypeCoeIcmd
  | icmdTypeCoeIcmdTrans | icmdTypeCoeIcmdComment | icmdTypeCoeIcmdTimeout | icmdTypeCoeIcmdCcs
  | icmdTypeCoeIcmdIndex | icmdTypeCoeIcmdSubindex | icmdTypeCoeIcmdData
  | icmdTypeSoe | icmdTypeSoeIcmds | icmdTypeSoeIcmd | icmdTypeSoeIcmdTrans
  | icmdTypeSoeIcmdComment | icmdTypeSoeIcmdTimeout | icmdTypeSoeIcmdOpcode
  | icmdTypeSoeIcmdDriveno | icmdTypeSoeIcmdIdn | icmdTypeSoeIcmdElements
  | icmdTypeSoeIcmdAttribute | icmdTypeSoeIcmdData

fun icmd_num :: "icmd_type \<Rightarrow> int" where
  "icmd_num icmdTypeNone = 0"
| "icmd_num icmdTypeMailbox = 1"
| "icmd_num icmdTypeCoe = 2"
| "icmd_num icmdTypeCoeIcmds = 3"
| "icmd_num icmdTypeCoeIcmd = 4"
| "icmd_num icmdTypeCoeIcmdTrans = 5"
| "icmd_num icmdTypeCoeIcmdComment = 6"
| "icmd_num icmdTypeCoeIcmdTimeout = 7"
| "icmd_num icmdTypeCoeIcmdCcs = 8"
| "icmd_num icmdTypeCoeIcmdIndex = 9"
| "icmd_num icmdTypeCoeIcmdSubindex = 10"
| "icmd_num icmdTypeCoeIcmdData = 11"
| "icmd_num icmdTypeSoe = 12"
| "icmd_num icmdTypeSoeIcmds = 13"
| "icmd_num icmdTypeSoeIcmd = 14"
| "icmd_num icmdTypeSoeIcmdTrans = 15"
| "icmd_num icmdTypeSoeIcmdComment = 16"
| "icmd_num icmdTypeSoeIcmdTimeout = 17"
| "icmd_num icmdTypeSoeIcmdOpcode = 18"
| "icmd_num icmdTypeSoeIcmdDriveno = 19"
| "icmd_num icmdTypeSoeIcmdIdn = 20"
| "icmd_num icmdTypeSoeIcmdElements = 21"
| "icmd_num icmdTypeSoeIcmdAttribute = 22"
| "icmd_num icmdTypeSoeIcmdData = 23"

record icmd_state = xml_inst +
  ic_items :: "conf_item list"
  ic_len :: nat
  ic_slave :: "nat option"
  ic_currSdoConf :: "nat option"
  ic_currIdnConf :: "nat option"

section \<open>Buffer\<close>

text \<open>The output buffer the parsers share, as the generic buffer of \<open>lcec_conf_util.c\<close>.\<close>

definition conf_buf :: "conf_item list \<Rightarrow> nat \<Rightarrow> conf_item outbuf" where
  "conf_buf its n = \<lparr>ob_items = map (\<lambda>x. (sizeof_item x, x)) its, ob_len = n\<rparr>"

definition add_conf_item :: "calloc_oracle \<Rightarrow> conf_item \<Rightarrow> conf_item list \<Rightarrow> nat \<Rightarrow> (conf_item list \<times> nat) option" where
  "add_conf_item c it its n =
     map_option (\<lambda>b. (map snd (ob_items b), ob_len b)) (addOutputBuffer c (sizeof_item it) it (conf_buf its n))"

lemma add_conf_item_eq:
  "add_conf_item c it its n = (if c n (sizeof_item it) then Some (its @ [it], n + sizeof_item it) else None)"
  by (simp add: add_conf_item_def addOutputBuffer_def conf_buf_def comp_def)

section \<open>Values\<close>

definition icmd_parse_int :: "string \<Rightarrow> int \<Rightarrow> int \<Rightarrow> conf_fail + int" where
  "icmd_parse_int s mn mx =
     (if length s = 0 then Inl (Stop ''Missing number value'')
      else if 32 \<le> length s then Inl (Stop ''Number value size exceeded'')
      else (let (ret, rest) = strtol 0 s
            in if rest \<noteq> [] \<or> ret < mn \<or> ret > mx then Inl (Stop ''Invalid number value'') else Inr ret))"

definition icmd_parse_data :: "calloc_oracle \<Rightarrow> string \<Rightarrow> icmd_state \<Rightarrow> conf_fail + (nat \<times> icmd_state)" where
  "icmd_parse_data c s st =
     (case parseHex s (int (length s)) of
        None \<Rightarrow> Inl (Stop ''Invalid data'')
      | Some bs \<Rightarrow>
          (case add_conf_item c (ItData bs) (ic_items st) (ic_len st) of
             None \<Rightarrow> Inl (Stop ''calloc'')
           | Some (its, n) \<Rightarrow> Inr (length bs, st\<lparr>ic_items := its, ic_len := n\<rparr>)))"

section \<open>Handlers\<close>

definition icmd_set_items :: "icmd_state \<Rightarrow> conf_item list \<Rightarrow> icmd_state" where
  "icmd_set_items st its = st\<lparr>ic_items := its\<rparr>"

definition icmd_upd_sdo :: "(conf_sdoconf \<Rightarrow> conf_sdoconf) \<Rightarrow> icmd_state \<Rightarrow> conf_fail + icmd_state" where
  "icmd_upd_sdo f st =
     bind_res (upd_sdo f (ic_currSdoConf st) (ic_items st)) (\<lambda>its. Inr (icmd_set_items st its))"

definition icmd_upd_idn :: "(conf_idnconf \<Rightarrow> conf_idnconf) \<Rightarrow> icmd_state \<Rightarrow> conf_fail + icmd_state" where
  "icmd_upd_idn f st =
     bind_res (upd_idn f (ic_currIdnConf st) (ic_items st)) (\<lambda>its. Inr (icmd_set_items st its))"

definition icmd_get_sdo :: "icmd_state \<Rightarrow> conf_fail + conf_sdoconf" where
  "icmd_get_sdo st = (case ic_currSdoConf st of None \<Rightarrow> Inl NullDeref
     | Some k \<Rightarrow> if k < length (ic_items st)
                 then (case ic_items st ! k of ItSdo s \<Rightarrow> Inr s | _ \<Rightarrow> Inl NullDeref) else Inl NullDeref)"

definition icmd_get_idn :: "icmd_state \<Rightarrow> conf_fail + conf_idnconf" where
  "icmd_get_idn st = (case ic_currIdnConf st of None \<Rightarrow> Inl NullDeref
     | Some k \<Rightarrow> if k < length (ic_items st)
                 then (case ic_items st ! k of ItIdn s \<Rightarrow> Inr s | _ \<Rightarrow> Inl NullDeref) else Inl NullDeref)"

text \<open>The character data handler: what a text means depends on the element it is in.\<close>

definition icmd_coe_data :: "calloc_oracle \<Rightarrow> string \<Rightarrow> icmd_state \<Rightarrow> conf_fail + icmd_state" where
  "icmd_coe_data c s st =
     (if xi_state st = icmd_num icmdTypeCoeIcmdTrans then
        (if s = ''IP'' \<or> s = ''PS'' then Inr st else Inl (Stop ''Invalid Transition state''))
      else if xi_state st = icmd_num icmdTypeCoeIcmdIndex then
        bind_res (icmd_parse_int s 0 65535) (\<lambda>v. icmd_upd_sdo (sdo_index_update (\<lambda>_. word_of_int v)) st)
      else if xi_state st = icmd_num icmdTypeCoeIcmdSubindex then
        bind_res (icmd_get_sdo st) (\<lambda>p.
          if sdo_subindex p \<noteq> LCEC_CONF_SDO_COMPLETE_SUBIDX
          then bind_res (icmd_parse_int s 0 255) (\<lambda>v. icmd_upd_sdo (sdo_subindex_update (\<lambda>_. v)) st)
          else Inr st)
      else
        bind_res (icmd_parse_data c s st) (\<lambda>(n, st'). icmd_upd_sdo (sdo_length_update (\<lambda>l. l + n)) st'))"

definition icmd_soe_data :: "calloc_oracle \<Rightarrow> string \<Rightarrow> icmd_state \<Rightarrow> conf_fail + icmd_state" where
  "icmd_soe_data c s st =
     (if xi_state st = icmd_num icmdTypeSoeIcmdTrans then
        (if s = ''IP'' \<or> s = ''PS'' then icmd_upd_idn (idn_state_update (\<lambda>_. EC_AL_STATE_PREOP)) st
         else if s = ''SO'' then icmd_upd_idn (idn_state_update (\<lambda>_. EC_AL_STATE_SAFEOP)) st
         else Inl (Stop ''Invalid Transition state''))
      else if xi_state st = icmd_num icmdTypeSoeIcmdDriveno then
        bind_res (icmd_parse_int s 0 7) (\<lambda>v. icmd_upd_idn (idn_drive_update (\<lambda>_. word_of_int v)) st)
      else if xi_state st = icmd_num icmdTypeSoeIcmdIdn then
        bind_res (icmd_parse_int s 0 65535) (\<lambda>v. icmd_upd_idn (idn_idn_update (\<lambda>_. word_of_int v)) st)
      else
        bind_res (icmd_parse_data c s st) (\<lambda>(n, st'). icmd_upd_idn (idn_length_update (\<lambda>l. l + n)) st'))"

definition icmd_data_handler :: "calloc_oracle \<Rightarrow> string \<Rightarrow> icmd_state \<Rightarrow> conf_fail + icmd_state" where
  "icmd_data_handler c s st =
     (if xi_state st \<in> icmd_num ` {icmdTypeCoeIcmdTrans, icmdTypeCoeIcmdIndex, icmdTypeCoeIcmdSubindex, icmdTypeCoeIcmdData}
      then icmd_coe_data c s st
      else if xi_state st \<in> icmd_num ` {icmdTypeSoeIcmdTrans, icmdTypeSoeIcmdDriveno, icmdTypeSoeIcmdIdn, icmdTypeSoeIcmdData}
      then icmd_soe_data c s st
      else Inr st)"

text \<open>\<open>CompleteAccess\<close> is the only attribute looked at; others are skipped.\<close>

definition icmd_coe_attr :: "string \<times> string \<Rightarrow> conf_sdoconf \<Rightarrow> conf_sdoconf" where
  "icmd_coe_attr = (\<lambda>(name, val) p.
     if strcmp_eq name ''CompleteAccess'' then
       (if atoi val \<noteq> 0 then p\<lparr>sdo_subindex := LCEC_CONF_SDO_COMPLETE_SUBIDX\<rparr> else p)
     else p)"

definition icmdTypeCoeIcmdStart :: "calloc_oracle \<Rightarrow> attrs \<Rightarrow> icmd_state \<Rightarrow> conf_fail + icmd_state" where
  "icmdTypeCoeIcmdStart c ats st =
     (case add_conf_item c
         (ItSdo (fold icmd_coe_attr ats \<lparr>sdo_index = 65535, sdo_subindex = 255, sdo_length = 0\<rparr>))
         (ic_items st) (ic_len st) of
        None \<Rightarrow> Inl (Stop ''calloc'')
      | Some (its, n) \<Rightarrow>
          Inr (st\<lparr>ic_items := its, ic_len := n, ic_currSdoConf := Some (length (ic_items st))\<rparr>))"

definition icmdTypeCoeIcmdEnd :: "icmd_state \<Rightarrow> conf_fail + icmd_state" where
  "icmdTypeCoeIcmdEnd st =
     bind_res (icmd_get_sdo st) (\<lambda>p.
       if sdo_index p = 65535 then Inl (Stop ''sdoConfig has no idx attribute'')
       else if sdo_subindex p = 255 then Inl (Stop ''sdoConfig has no subIdx attribute'')
       else bind_res
              (upd_slave (cs_sdoConfigLength_update (\<lambda>l. l + (sizeof_sdoconf + sdo_length p)))
                 (ic_slave st) (ic_items st))
              (\<lambda>its. Inr (icmd_set_items st its)))"

definition icmdTypeSoeIcmdStart :: "calloc_oracle \<Rightarrow> attrs \<Rightarrow> icmd_state \<Rightarrow> conf_fail + icmd_state" where
  "icmdTypeSoeIcmdStart c ats st =
     (case add_conf_item c
         (ItIdn \<lparr>idn_drive = 0, idn_idn = 65535, idn_state = EC_AL_STATE_NONE, idn_length = 0\<rparr>)
         (ic_items st) (ic_len st) of
        None \<Rightarrow> Inl (Stop ''calloc'')
      | Some (its, n) \<Rightarrow>
          Inr (st\<lparr>ic_items := its, ic_len := n, ic_currIdnConf := Some (length (ic_items st))\<rparr>))"

definition icmdTypeSoeIcmdEnd :: "icmd_state \<Rightarrow> conf_fail + icmd_state" where
  "icmdTypeSoeIcmdEnd st =
     bind_res (icmd_get_idn st) (\<lambda>p.
       if idn_idn p = 65535 then Inl (Stop ''idnConfig has no idn attribute'')
       else if idn_state p = EC_AL_STATE_NONE then Inl (Stop ''idnConfig has no state attribute'')
       else bind_res
              (upd_slave (cs_idnConfigLength_update (\<lambda>l. l + (sizeof_idnconf + idn_length p)))
                 (ic_slave st) (ic_items st))
              (\<lambda>its. Inr (icmd_set_items st its)))"

section \<open>Table and run\<close>

type_synonym icmd_xml_row = "unit icmd_state_ext xml_row"

definition icmd_row :: "string \<Rightarrow> icmd_type \<Rightarrow> icmd_type \<Rightarrow>
    (attrs \<Rightarrow> icmd_state \<Rightarrow> conf_fail + icmd_state) option \<Rightarrow> (icmd_state \<Rightarrow> conf_fail + icmd_state) option \<Rightarrow>
    icmd_xml_row" where
  "icmd_row el a b h e =
     \<lparr>xr_el = Some el, xr_from = icmd_num a, xr_to = icmd_num b, xr_start = h, xr_end = e\<rparr>"

text \<open>
  The last row of the table names the element \<^verbatim>\<open>"NULL"\<close>; it is not the \<open>NULL\<close> pointer
  the search loops test for.
\<close>

definition icmd_xml_states :: "calloc_oracle \<Rightarrow>
    icmd_xml_row list" where
  "icmd_xml_states c =
     [icmd_row ''EtherCATMailbox'' icmdTypeNone icmdTypeMailbox None None,
      icmd_row ''CoE'' icmdTypeMailbox icmdTypeCoe None None,
      icmd_row ''InitCmds'' icmdTypeCoe icmdTypeCoeIcmds None None,
      icmd_row ''InitCmd'' icmdTypeCoeIcmds icmdTypeCoeIcmd (Some (icmdTypeCoeIcmdStart c)) (Some icmdTypeCoeIcmdEnd),
      icmd_row ''Transition'' icmdTypeCoeIcmd icmdTypeCoeIcmdTrans None None,
      icmd_row ''Comment'' icmdTypeCoeIcmd icmdTypeCoeIcmdComment None None,
      icmd_row ''Timeout'' icmdTypeCoeIcmd icmdTypeCoeIcmdTimeout None None,
      icmd_row ''Ccs'' icmdTypeCoeIcmd icmdTypeCoeIcmdCcs None None,
      icmd_row ''Index'' icmdTypeCoeIcmd icmdTypeCoeIcmdIndex None None,
      icmd_row ''SubIndex'' icmdTypeCoeIcmd icmdTypeCoeIcmdSubindex None None,
      icmd_row ''Data'' icmdTypeCoeIcmd icmdTypeCoeIcmdData None None,
      icmd_row ''SoE'' icmdTypeMailbox icmdTypeSoe None None,
      icmd_row ''InitCmds'' icmdTypeSoe icmdTypeSoeIcmds None None,
      icmd_row ''InitCmd'' icmdTypeSoeIcmds icmdTypeSoeIcmd (Some (icmdTypeSoeIcmdStart c)) (Some icmdTypeSoeIcmdEnd),
      icmd_row ''Transition'' icmdTypeSoeIcmd icmdTypeSoeIcmdTrans None None,
      icmd_row ''Comment'' icmdTypeSoeIcmd icmdTypeSoeIcmdComment None None,
      icmd_row ''Timeout'' icmdTypeSoeIcmd icmdTypeSoeIcmdTimeout None None,
      icmd_row ''OpCode'' icmdTypeSoeIcmd icmdTypeSoeIcmdOpcode None None,
      icmd_row ''DriveNo'' icmdTypeSoeIcmd icmdTypeSoeIcmdDriveno None None,
      icmd_row ''IDN'' icmdTypeSoeIcmd icmdTypeSoeIcmdIdn None None,
      icmd_row ''Elements'' icmdTypeSoeIcmd icmdTypeSoeIcmdElements None None,
      icmd_row ''Attribute'' icmdTypeSoeIcmd icmdTypeSoeIcmdAttribute None None,
      icmd_row ''Data'' icmdTypeSoeIcmd icmdTypeSoeIcmdData None None,
      \<lparr>xr_el = Some ''NULL'', xr_from = -1, xr_to = -1, xr_start = None, xr_end = None\<rparr>]"

text \<open>
  An init command file: the events Expat reports for it and whether it was read and parsed
  to its end. \<open>None\<close> is a file that cannot be opened.
\<close>

type_synonym xml_file = "(xml_event list \<times> bool) option"

definition parseIcmds ::
  "calloc_oracle \<Rightarrow> nat option \<Rightarrow> conf_item list \<Rightarrow> nat \<Rightarrow> xml_file \<Rightarrow> conf_fail + (conf_item list \<times> nat)" where
  "parseIcmds c slave its n file =
     (case file of
        None \<Rightarrow> Inl (Stop ''unable to open config file'')
      | Some (evs, whole) \<Rightarrow>
          bind_res
            (xml_run (icmd_xml_states c) (icmd_data_handler c) evs
               \<lparr>xi_state = 0, ic_items = its, ic_len = n, ic_slave = slave, ic_currSdoConf = None,
                ic_currIdnConf = None\<rparr>)
            (\<lambda>st. if whole then Inr (ic_items st, ic_len st) else Inl (Stop ''Parse error'')))"

end
