(* ===== verification/ConfParse.thy ===== *)
theory ConfParse
  imports ConfIcmds
begin

text \<open>
  The configuration compiler \<open>lcec_conf.c\<close>: one handler per XML element, the handler
  table, and \<open>main\<close> from the opened file to the shared memory image. An attribute loop is
  a fold over the attribute list; a handler that calls \<open>XML_StopParser\<close> makes the run fail
  and nothing of its state is used afterwards, so it returns \<open>Stop\<close>.
\<close>

section \<open>State and environment\<close>

record conf_state = xml_inst +
  cf_currMaster :: "nat option"
  cf_currSlaveType :: "slave_type option"
  cf_currSlave :: "nat option"
  cf_currSyncManager :: "nat option"
  cf_currPdo :: "nat option"
  cf_currSdoConf :: "nat option"
  cf_currIdnConf :: "nat option"
  cf_currPdoEntry :: "nat option"
  cf_currComplexBitOffset :: u8
  cf_items :: "conf_item list"
  cf_len :: nat
  cf_master_count :: u32
  cf_slave_count :: u32

text \<open>
  What the parser takes from outside: the registered device types, the allocator, the
  EtherCAT master's limit \<open>EC_MAX_SYNC_MANAGERS\<close> and the init command files by name.
\<close>

record conf_env =
  ev_types :: registry
  ev_calloc :: calloc_oracle
  ev_max_sync_managers :: int
  ev_icmd_file :: "string \<Rightarrow> xml_file"

definition conf_init_state :: conf_state where
  "conf_init_state =
     \<lparr>xi_state = 0, cf_currMaster = None, cf_currSlaveType = None, cf_currSlave = None,
      cf_currSyncManager = None, cf_currPdo = None, cf_currSdoConf = None, cf_currIdnConf = None,
      cf_currPdoEntry = None, cf_currComplexBitOffset = 0, cf_items = [], cf_len = 0,
      cf_master_count = 0, cf_slave_count = 0\<rparr>"

definition add_item :: "conf_env \<Rightarrow> conf_item \<Rightarrow> conf_state \<Rightarrow> conf_fail + conf_state" where
  "add_item env it st =
     (case add_conf_item (ev_calloc env) it (cf_items st) (cf_len st) of
        None \<Rightarrow> Inl (Stop ''calloc'')
      | Some (its, n) \<Rightarrow> Inr (st\<lparr>cf_items := its, cf_len := n\<rparr>))"

definition conf_upd_slave :: "(conf_slave \<Rightarrow> conf_slave) \<Rightarrow> conf_state \<Rightarrow> conf_fail + conf_state" where
  "conf_upd_slave f st =
     bind_res (upd_slave f (cf_currSlave st) (cf_items st)) (\<lambda>its. Inr (st\<lparr>cf_items := its\<rparr>))"

definition conf_upd_syncmanager :: "(conf_syncmanager \<Rightarrow> conf_syncmanager) \<Rightarrow> conf_state \<Rightarrow> conf_fail + conf_state" where
  "conf_upd_syncmanager f st =
     bind_res (upd_syncmanager f (cf_currSyncManager st) (cf_items st)) (\<lambda>its. Inr (st\<lparr>cf_items := its\<rparr>))"

definition conf_upd_pdo :: "(conf_pdo \<Rightarrow> conf_pdo) \<Rightarrow> conf_state \<Rightarrow> conf_fail + conf_state" where
  "conf_upd_pdo f st =
     bind_res (upd_pdo f (cf_currPdo st) (cf_items st)) (\<lambda>its. Inr (st\<lparr>cf_items := its\<rparr>))"

definition conf_upd_sdo :: "(conf_sdoconf \<Rightarrow> conf_sdoconf) \<Rightarrow> conf_state \<Rightarrow> conf_fail + conf_state" where
  "conf_upd_sdo f st =
     bind_res (upd_sdo f (cf_currSdoConf st) (cf_items st)) (\<lambda>its. Inr (st\<lparr>cf_items := its\<rparr>))"

definition conf_upd_idn :: "(conf_idnconf \<Rightarrow> conf_idnconf) \<Rightarrow> conf_state \<Rightarrow> conf_fail + conf_state" where
  "conf_upd_idn f st =
     bind_res (upd_idn f (cf_currIdnConf st) (cf_items st)) (\<lambda>its. Inr (st\<lparr>cf_items := its\<rparr>))"

section \<open>masters and master\<close>

text \<open>A multiple \<open>*n\<close> of the master period is an unsigned product, returned as an \<open>int\<close>.\<close>

definition parseSyncCycle :: "u32 \<Rightarrow> string \<Rightarrow> int" where
  "parseSyncCycle period s =
     (case s of c # r \<Rightarrow> if c = CHR ''*'' then s32 (uint (word_of_int (atoi r) * period)) else atoi s
      | [] \<Rightarrow> atoi s)"

definition new_master :: conf_master where
  "new_master = \<lparr>cm_index = 0, cm_appTimePeriod = 1000000, cm_refClockSyncCycles = 0,
     cm_syncToRefClock = 0, cm_refClockSlaveIdx = -1, cm_name = []\<rparr>"

definition master_attr :: "string \<times> string \<Rightarrow> conf_master \<Rightarrow> conf_fail + conf_master" where
  "master_attr = (\<lambda>(name, val) p.
     if strcmp_eq name ''idx'' then Inr (p\<lparr>cm_index := atoi val\<rparr>)
     else if strcmp_eq name ''name'' then Inr (p\<lparr>cm_name := conf_strncpy val\<rparr>)
     else if strcmp_eq name ''appTimePeriod'' then Inr (p\<lparr>cm_appTimePeriod := word_of_int (atol val)\<rparr>)
     else if strcmp_eq name ''refClockSyncCycles'' then Inr (p\<lparr>cm_refClockSyncCycles := s32 (atol val)\<rparr>)
     else if strcmp_eq name ''refClockSlaveIdx'' then Inr (p\<lparr>cm_refClockSlaveIdx := atoi val\<rparr>)
     else if strcmp_eq name ''syncToRefClock'' then
       Inr (p\<lparr>cm_syncToRefClock := (if strcasecmp_eq val ''true'' then 1 else -1)\<rparr>)
     else Inl (Stop ''Invalid master attribute''))"

text \<open>
  The two clock attributes are brought to one form: \<open>cm_syncToRefClock\<close> is 0 or 1 and
  \<open>cm_refClockSyncCycles\<close> is not negative.
\<close>

definition master_sync_mode :: "conf_master \<Rightarrow> conf_fail + conf_master" where
  "master_sync_mode p =
     (let given_sync = cm_syncToRefClock p; given_cycles = cm_refClockSyncCycles p in
      if given_cycles < -1 then Inl (Stop ''refClockSyncCycles invalid'')
      else if given_sync = 0 then
        Inr (p\<lparr>cm_syncToRefClock := (if given_cycles < 0 then 1 else 0),
               cm_refClockSyncCycles := \<bar>given_cycles\<bar>\<rparr>)
      else if given_sync = 1 then
        (if given_cycles > 0 then Inl (Stop ''syncToRefClock=true conflicts'')
         else Inr (p\<lparr>cm_syncToRefClock := 1,
                     cm_refClockSyncCycles := (if given_cycles = 0 then 1 else \<bar>given_cycles\<bar>)\<rparr>))
      else
        (if given_cycles < 0 then Inl (Stop ''syncToRefClock=false conflicts'')
         else Inr (p\<lparr>cm_syncToRefClock := 0\<rparr>)))"

definition master_default_name :: "conf_master \<Rightarrow> conf_master" where
  "master_default_name p = (if cm_name p = [] then p\<lparr>cm_name := conf_strncpy (show_int (cm_index p))\<rparr> else p)"

definition parseMasterAttrs :: "conf_env \<Rightarrow> attrs \<Rightarrow> conf_state \<Rightarrow> conf_fail + conf_state" where
  "parseMasterAttrs env ats st =
     bind_res (fold_res master_attr ats new_master) (\<lambda>p.
     bind_res (master_sync_mode p) (\<lambda>p.
     bind_res (add_item env (ItMaster (master_default_name p)) st) (\<lambda>st'.
     Inr (st'\<lparr>cf_master_count := cf_master_count st + 1, cf_currMaster := Some (length (cf_items st))\<rparr>))))"

section \<open>slave\<close>

definition new_slave :: "u32 \<Rightarrow> conf_slave" where
  "new_slave period = \<lparr>cs_index = 0, cs_type_name = [], cs_vid = 0, cs_pid = 0, cs_configPdos = False,
     cs_syncManagerCount = 0, cs_pdoCount = 0, cs_pdoEntryCount = 0, cs_pdoMappingCount = 0,
     cs_sdoConfigLength = 0, cs_idnConfigLength = 0, cs_modParamCount = 0,
     cs_syncUnitCycle = period, cs_syncUnit = ''default'', cs_name = []\<rparr>"

text \<open>The first pass over the attributes looks the type up; the last \<open>type\<close> counts.\<close>

definition slave_type_attr :: "registry \<Rightarrow> string \<times> string \<Rightarrow> slave_type option \<Rightarrow> conf_fail + slave_type option" where
  "slave_type_attr reg = (\<lambda>(name, val) acc.
     if strcmp_eq name ''type'' then
       (case lcec_findslavetype reg val of
          None \<Rightarrow> Inl (Stop ''Cannot find slave type'')
        | Some ty \<Rightarrow> Inr (Some ty))
     else Inr acc)"

definition slave_attr :: "u32 \<Rightarrow> string \<times> string \<Rightarrow> conf_slave \<Rightarrow> conf_fail + conf_slave" where
  "slave_attr period = (\<lambda>(name, val) p.
     if strcmp_eq name ''type'' then Inr (p\<lparr>cs_type_name := conf_strncpy val\<rparr>)
     else if strcmp_eq name ''idx'' then Inr (p\<lparr>cs_index := atoi val\<rparr>)
     else if strcmp_eq name ''name'' then Inr (p\<lparr>cs_name := conf_strncpy val\<rparr>)
     else if strcmp_eq name ''syncUnit'' then Inr (p\<lparr>cs_syncUnit := conf_strncpy val\<rparr>)
     else if strcmp_eq name ''syncUnitCycle'' then
       (let cyc = parseSyncCycle period val in
        if cyc \<le> 0 then Inl (Stop ''Invalid syncUnitCycle'') else Inr (p\<lparr>cs_syncUnitCycle := word_of_int cyc\<rparr>))
     else if strcmp_eq name ''vid'' then Inr (p\<lparr>cs_vid := word_of_int (fst (strtol 16 val))\<rparr>)
     else if strcmp_eq name ''pid'' then Inr (p\<lparr>cs_pid := word_of_int (fst (strtol 16 val))\<rparr>)
     else if strcmp_eq (cs_type_name p) ''generic'' \<and> strcmp_eq name ''configPdos'' then
       Inr (p\<lparr>cs_configPdos := strcasecmp_eq val ''true''\<rparr>)
     else Inl (Stop ''Invalid slave attribute''))"

definition slave_default_name :: "conf_slave \<Rightarrow> conf_slave" where
  "slave_default_name p = (if cs_name p = [] then p\<lparr>cs_name := conf_strncpy (show_int (cs_index p))\<rparr> else p)"

definition slave_check :: "u32 \<Rightarrow> slave_type option \<Rightarrow> conf_slave \<Rightarrow> conf_fail + slave_type" where
  "slave_check period ty p =
     (if cs_syncUnit p = [] then Inl (Stop ''empty syncUnit attribute'')
      else if cs_syncUnitCycle p = 0 \<or> period = 0 \<or> cs_syncUnitCycle p mod period \<noteq> 0
      then Inl (Stop ''syncUnitCycle is not a positive multiple of appTimePeriod'')
      else case ty of None \<Rightarrow> Inl (Stop ''Slave type is invalid'') | Some t \<Rightarrow> Inr t)"

definition parseSlaveAttrs :: "conf_env \<Rightarrow> attrs \<Rightarrow> conf_state \<Rightarrow> conf_fail + conf_state" where
  "parseSlaveAttrs env ats st =
     bind_res (get_master (cf_items st) (cf_currMaster st)) (\<lambda>m.
     bind_res (fold_res (slave_type_attr (ev_types env)) ats None) (\<lambda>ty.
     bind_res (fold_res (slave_attr (cm_appTimePeriod m)) ats (new_slave (cm_appTimePeriod m))) (\<lambda>p.
     bind_res (slave_check (cm_appTimePeriod m) ty p) (\<lambda>t.
     bind_res (add_item env (ItSlave (slave_default_name p)) st) (\<lambda>st'.
     Inr (st'\<lparr>cf_slave_count := cf_slave_count st + 1, cf_currSlaveType := Some t,
              cf_currSlave := Some (length (cf_items st))\<rparr>))))))"

section \<open>dcConf and watchdog\<close>

definition dc_attr :: "u32 \<Rightarrow> string \<times> string \<Rightarrow> conf_dc \<Rightarrow> conf_fail + conf_dc" where
  "dc_attr period = (\<lambda>(name, val) p.
     if strcmp_eq name ''assignActivate'' then Inr (p\<lparr>cd_assignActivate := word_of_int (fst (strtol 16 val))\<rparr>)
     else if strcmp_eq name ''sync0Cycle'' then Inr (p\<lparr>cd_sync0Cycle := word_of_int (parseSyncCycle period val)\<rparr>)
     else if strcmp_eq name ''sync0Shift'' then Inr (p\<lparr>cd_sync0Shift := atoi val\<rparr>)
     else if strcmp_eq name ''sync1Cycle'' then Inr (p\<lparr>cd_sync1Cycle := word_of_int (parseSyncCycle period val)\<rparr>)
     else if strcmp_eq name ''sync1Shift'' then Inr (p\<lparr>cd_sync1Shift := atoi val\<rparr>)
     else Inl (Stop ''Invalid dcConfig attribute''))"

definition parseDcConfAttrs :: "conf_env \<Rightarrow> attrs \<Rightarrow> conf_state \<Rightarrow> conf_fail + conf_state" where
  "parseDcConfAttrs env ats st =
     bind_res (get_master (cf_items st) (cf_currMaster st)) (\<lambda>m.
     bind_res (fold_res (dc_attr (cm_appTimePeriod m)) ats
        \<lparr>cd_assignActivate = 0, cd_sync0Cycle = 0, cd_sync0Shift = 0, cd_sync1Cycle = 0, cd_sync1Shift = 0\<rparr>) (\<lambda>p.
     add_item env (ItDc p) st))"

definition watchdog_attr :: "string \<times> string \<Rightarrow> conf_watchdog \<Rightarrow> conf_fail + conf_watchdog" where
  "watchdog_attr = (\<lambda>(name, val) p.
     if strcmp_eq name ''divider'' then Inr (p\<lparr>cw_divider := word_of_int (atoi val)\<rparr>)
     else if strcmp_eq name ''intervals'' then Inr (p\<lparr>cw_intervals := word_of_int (atoi val)\<rparr>)
     else Inl (Stop ''Invalid watchdog attribute''))"

definition parseWatchdogAttrs :: "conf_env \<Rightarrow> attrs \<Rightarrow> conf_state \<Rightarrow> conf_fail + conf_state" where
  "parseWatchdogAttrs env ats st =
     bind_res (fold_res watchdog_attr ats \<lparr>cw_divider = 0, cw_intervals = 0\<rparr>) (\<lambda>p.
     add_item env (ItWatchdog p) st)"

section \<open>sdoConfig, idnConfig and their data\<close>

definition sdo_attr :: "string \<times> string \<Rightarrow> conf_sdoconf \<Rightarrow> conf_fail + conf_sdoconf" where
  "sdo_attr = (\<lambda>(name, val) p.
     if strcmp_eq name ''idx'' then
       (let tmp = s32 (fst (strtol 16 val)) in
        if tmp < 0 \<or> tmp \<ge> 65535 then Inl (Stop ''Invalid sdoConfig idx'')
        else Inr (p\<lparr>sdo_index := word_of_int tmp\<rparr>))
     else if strcmp_eq name ''subIdx'' then
       (if strcasecmp_eq val ''complete'' then Inr (p\<lparr>sdo_subindex := LCEC_CONF_SDO_COMPLETE_SUBIDX\<rparr>)
        else let tmp = s32 (fst (strtol 16 val)) in
          if tmp < 0 \<or> tmp \<ge> 255 then Inl (Stop ''Invalid sdoConfig subIdx'')
          else Inr (p\<lparr>sdo_subindex := tmp\<rparr>))
     else Inl (Stop ''Invalid sdoConfig attribute''))"

definition parseSdoConfigAttrs :: "conf_env \<Rightarrow> attrs \<Rightarrow> conf_state \<Rightarrow> conf_fail + conf_state" where
  "parseSdoConfigAttrs env ats st =
     bind_res (fold_res sdo_attr ats \<lparr>sdo_index = 65535, sdo_subindex = 255, sdo_length = 0\<rparr>) (\<lambda>p.
     if sdo_index p = 65535 then Inl (Stop ''sdoConfig has no idx attribute'')
     else if sdo_subindex p = 255 then Inl (Stop ''sdoConfig has no subIdx attribute'')
     else
       bind_res (add_item env (ItSdo p) st) (\<lambda>st'.
       conf_upd_slave (cs_sdoConfigLength_update (\<lambda>l. l + sizeof_sdoconf))
         (st'\<lparr>cf_currSdoConf := Some (length (cf_items st))\<rparr>)))"

text \<open>
  \<open>sscanf(val, "%c-%d-%d", ...)\<close> where it converts all three items: the first character, a
  minus, a number, a minus, a number. Text behind the last number is not looked at.
\<close>

definition scan_idn :: "string \<Rightarrow> (char \<times> int \<times> int) option" where
  "scan_idn s = (case s of
      c # m # r \<Rightarrow>
        if m = CHR ''-'' then
          (case scan_int 10 r of
             Some (neg1, v1, r1) \<Rightarrow>
               (case r1 of
                  m2 # r2 \<Rightarrow>
                    if m2 = CHR ''-'' then
                      (case scan_int 10 r2 of
                         Some (neg2, v2, _) \<Rightarrow>
                           Some (c, s32 (clamp_s64 (if neg1 then - v1 else v1)), s32 (clamp_s64 (if neg2 then - v2 else v2)))
                       | None \<Rightarrow> None)
                    else None
                | [] \<Rightarrow> None)
           | None \<Rightarrow> None)
        else None
    | _ \<Rightarrow> None)"

text \<open>
  The \<open>idn\<close> attribute: \<open>S-set-block\<close> or \<open>P-set-block\<close>, or a plain number. \<open>sscanf\<close>
  overwrites the upper-cased prefix with the character as written.
\<close>

definition parse_idn :: "string \<Rightarrow> conf_fail + int" where
  "parse_idn val = (case val of
      [] \<Rightarrow> Inl (Stop ''Missing idnConfig idn value'')
    | c # _ \<Rightarrow>
        let pfx = c_toupper c in
        bind_res
          (if pfx = CHR ''S'' \<or> pfx = CHR ''P'' then
             (case scan_idn val of
                None \<Rightarrow> Inr 65535
              | Some (pfx', st, block) \<Rightarrow>
                  if st < 0 \<or> st \<ge> 8 then Inl (Stop ''Invalid idnConfig idn set'')
                  else if block < 0 \<or> block \<ge> 4096 then Inl (Stop ''Invalid idnConfig idn block'')
                  else Inr (let t = push_bit 12 st OR block in
                            if pfx' = CHR ''P'' then t OR push_bit 1 15 else t))
           else if 48 \<le> char_code pfx \<and> char_code pfx \<le> 57 then Inr (atoi val)
           else Inr 65535)
          (\<lambda>tmp. if tmp = 65535 then Inl (Stop ''Invalid idnConfig idn value'') else Inr tmp))"

definition idn_attr :: "string \<times> string \<Rightarrow> conf_idnconf \<Rightarrow> conf_fail + conf_idnconf" where
  "idn_attr = (\<lambda>(name, val) p.
     if strcmp_eq name ''drive'' then
       (let tmp = atoi val in
        if tmp < 0 \<or> tmp > 7 then Inl (Stop ''Invalid idnConfig drive'')
        else Inr (p\<lparr>idn_drive := word_of_int tmp\<rparr>))
     else if strcmp_eq name ''idn'' then
       bind_res (parse_idn val) (\<lambda>tmp. Inr (p\<lparr>idn_idn := word_of_int tmp\<rparr>))
     else if strcmp_eq name ''drive'' then
       (if strcmp_eq val ''PREOP'' then Inr (p\<lparr>idn_state := EC_AL_STATE_PREOP\<rparr>)
        else if strcmp_eq val ''SAFEOP'' then Inr (p\<lparr>idn_state := EC_AL_STATE_SAFEOP\<rparr>)
        else Inl (Stop ''Invalid idnConfig state''))
     else Inl (Stop ''Invalid idnConfig attribute''))"

definition parseIdnConfigAttrs :: "conf_env \<Rightarrow> attrs \<Rightarrow> conf_state \<Rightarrow> conf_fail + conf_state" where
  "parseIdnConfigAttrs env ats st =
     bind_res (fold_res idn_attr ats
        \<lparr>idn_drive = 0, idn_idn = 65535, idn_state = EC_AL_STATE_NONE, idn_length = 0\<rparr>) (\<lambda>p.
     if idn_idn p = 65535 then Inl (Stop ''idnConfig has no idn attribute'')
     else if idn_state p = EC_AL_STATE_NONE then Inl (Stop ''idnConfig has no state attribute'')
     else
       bind_res (add_item env (ItIdn p) st) (\<lambda>st'.
       conf_upd_slave (cs_idnConfigLength_update (\<lambda>l. l + sizeof_idnconf))
         (st'\<lparr>cf_currIdnConf := Some (length (cf_items st))\<rparr>)))"

text \<open>
  One \<open>data\<close> attribute of a raw data element. An allocation failure drops the data
  without an error; the lengths are added according to the enclosing element.
\<close>

definition data_raw_attr :: "conf_env \<Rightarrow> string \<times> string \<Rightarrow> conf_state \<Rightarrow> conf_fail + conf_state" where
  "data_raw_attr env = (\<lambda>(name, val) st.
     if strcmp_eq name ''data'' then
       (case parseHex val (-1) of
          None \<Rightarrow> Inl (Stop ''Invalid dataRaw data'')
        | Some bs \<Rightarrow>
            if bs = [] then Inr st
            else (case add_item env (ItData bs) st of
                Inl _ \<Rightarrow> Inr st
              | Inr st' \<Rightarrow>
                  if xi_state st = conf_type_num lcecConfTypeSdoConfig then
                    bind_res (conf_upd_sdo (sdo_length_update (\<lambda>l. l + length bs)) st')
                      (conf_upd_slave (cs_sdoConfigLength_update (\<lambda>l. l + length bs)))
                  else if xi_state st = conf_type_num lcecConfTypeIdnConfig then
                    bind_res (conf_upd_idn (idn_length_update (\<lambda>l. l + length bs)) st')
                      (conf_upd_slave (cs_idnConfigLength_update (\<lambda>l. l + length bs)))
                  else Inr st'))
     else Inl (Stop ''Invalid pdoEntry attribute''))"

definition parseDataRawAttrs :: "conf_env \<Rightarrow> attrs \<Rightarrow> conf_state \<Rightarrow> conf_fail + conf_state" where
  "parseDataRawAttrs env ats st = fold_res (data_raw_attr env) ats st"

section \<open>initCmds\<close>

definition initcmds_attr :: "string \<times> string \<Rightarrow> string option \<Rightarrow> conf_fail + string option" where
  "initcmds_attr = (\<lambda>(name, val) acc.
     if strcmp_eq name ''filename'' then Inr (Some val) else Inl (Stop ''Invalid syncManager attribute''))"

definition parseInitCmdsAttrs :: "conf_env \<Rightarrow> attrs \<Rightarrow> conf_state \<Rightarrow> conf_fail + conf_state" where
  "parseInitCmdsAttrs env ats st =
     bind_res (fold_res initcmds_attr ats None) (\<lambda>fn.
     case fn of
       None \<Rightarrow> Inl (Stop ''initCmds has no filename attribute'')
     | Some filename \<Rightarrow>
         if filename = [] then Inl (Stop ''initCmds has no filename attribute'')
         else bind_res
                (parseIcmds (ev_calloc env) (cf_currSlave st) (cf_items st) (cf_len st) (ev_icmd_file env filename))
                (\<lambda>(its, n). Inr (st\<lparr>cf_items := its, cf_len := n\<rparr>)))"

section \<open>syncManager, pdo, pdoEntry and complexEntry\<close>

definition syncmanager_attr :: "int \<Rightarrow> string \<times> string \<Rightarrow> conf_syncmanager \<Rightarrow> conf_fail + conf_syncmanager" where
  "syncmanager_attr mx = (\<lambda>(name, val) p.
     if strcmp_eq name ''idx'' then
       (let tmp = atoi val in
        if tmp < 0 \<or> tmp \<ge> mx then Inl (Stop ''Invalid syncManager idx'')
        else Inr (p\<lparr>csm_index := word_of_int tmp\<rparr>))
     else if strcmp_eq name ''dir'' then
       (if strcasecmp_eq val ''in'' then Inr (p\<lparr>csm_dir := EC_DIR_INPUT\<rparr>)
        else if strcasecmp_eq val ''out'' then Inr (p\<lparr>csm_dir := EC_DIR_OUTPUT\<rparr>)
        else Inl (Stop ''Invalid syncManager dir''))
     else Inl (Stop ''Invalid syncManager attribute''))"

definition parseSyncManagerAttrs :: "conf_env \<Rightarrow> attrs \<Rightarrow> conf_state \<Rightarrow> conf_fail + conf_state" where
  "parseSyncManagerAttrs env ats st =
     bind_res (get_slave (cf_items st) (cf_currSlave st)) (\<lambda>s.
     if \<not> strcmp_eq (cs_type_name s) ''generic'' then Inl (Stop ''syncManager is only allowed on generic slaves'')
     else
       bind_res (fold_res (syncmanager_attr (ev_max_sync_managers env)) ats
          \<lparr>csm_index = 255, csm_dir = EC_DIR_INVALID, csm_pdoCount = 0\<rparr>) (\<lambda>p.
       if csm_index p = 255 then Inl (Stop ''syncManager has no idx attribute'')
       else if csm_dir p = EC_DIR_INVALID then Inl (Stop ''syncManager has no dir attribute'')
       else
         bind_res (add_item env (ItSyncManager p) st) (\<lambda>st'.
         conf_upd_slave (cs_syncManagerCount_update Suc)
           (st'\<lparr>cf_currSyncManager := Some (length (cf_items st))\<rparr>))))"

definition pdo_attr :: "string \<times> string \<Rightarrow> conf_pdo \<Rightarrow> conf_fail + conf_pdo" where
  "pdo_attr = (\<lambda>(name, val) p.
     if strcmp_eq name ''idx'' then
       (let tmp = s32 (fst (strtol 16 val)) in
        if tmp < 0 \<or> tmp \<ge> 65535 then Inl (Stop ''Invalid pdo idx'')
        else Inr (p\<lparr>cp_index := word_of_int tmp\<rparr>))
     else Inl (Stop ''Invalid pdo attribute''))"

definition parsePdoAttrs :: "conf_env \<Rightarrow> attrs \<Rightarrow> conf_state \<Rightarrow> conf_fail + conf_state" where
  "parsePdoAttrs env ats st =
     bind_res (fold_res pdo_attr ats \<lparr>cp_index = 65535, cp_pdoEntryCount = 0\<rparr>) (\<lambda>p.
     if cp_index p = 65535 then Inl (Stop ''pdo has no idx attribute'')
     else
       bind_res (add_item env (ItPdo p) st) (\<lambda>st'.
       bind_res (conf_upd_slave (cs_pdoCount_update Suc) (st'\<lparr>cf_currPdo := Some (length (cf_items st))\<rparr>))
         (conf_upd_syncmanager (csm_pdoCount_update Suc))))"

text \<open>The HAL types of a PDO entry and of a part of a complex one, with their subtype.\<close>

definition pdoentry_haltype :: "string \<Rightarrow> conf_pdoentry \<Rightarrow> conf_fail + conf_pdoentry" where
  "pdoentry_haltype val p =
     (if strcasecmp_eq val ''bit'' then Inr (p\<lparr>pe_halType := HAL_BIT\<rparr>)
      else if strcasecmp_eq val ''s32'' then Inr (p\<lparr>pe_subType := lcecPdoEntTypeSimple, pe_halType := HAL_S32\<rparr>)
      else if strcasecmp_eq val ''u32'' then Inr (p\<lparr>pe_subType := lcecPdoEntTypeSimple, pe_halType := HAL_U32\<rparr>)
      else if strcasecmp_eq val ''float'' then
        Inr (p\<lparr>pe_subType := lcecPdoEntTypeFloatSigned, pe_halType := HAL_FLOAT\<rparr>)
      else if strcasecmp_eq val ''float-unsigned'' then
        Inr (p\<lparr>pe_subType := lcecPdoEntTypeFloatUnsigned, pe_halType := HAL_FLOAT\<rparr>)
      else if strcasecmp_eq val ''complex'' then Inr (p\<lparr>pe_subType := lcecPdoEntTypeComplex\<rparr>)
      else if strcasecmp_eq val ''float-ieee'' then
        Inr (p\<lparr>pe_subType := lcecPdoEntTypeFloatIeee, pe_halType := HAL_FLOAT\<rparr>)
      else if strcasecmp_eq val ''float-double-ieee'' then
        Inr (p\<lparr>pe_subType := lcecPdoEntTypeFloatDoubleIeee, pe_halType := HAL_FLOAT\<rparr>)
      else Inl (Stop ''Invalid pdoEntry halType''))"

text \<open>The flag beside the token is \<open>floatReq\<close>: a scale or an offset was given.\<close>

definition pdoentry_attr :: "string \<times> string \<Rightarrow> bool \<times> conf_pdoentry \<Rightarrow> conf_fail + bool \<times> conf_pdoentry" where
  "pdoentry_attr = (\<lambda>(name, val) (fr, p).
     if strcmp_eq name ''idx'' then
       (let tmp = s32 (fst (strtol 16 val)) in
        if tmp < 0 \<or> tmp \<ge> 65535 then Inl (Stop ''Invalid pdoEntry idx'')
        else Inr (fr, p\<lparr>pe_index := word_of_int tmp\<rparr>))
     else if strcmp_eq name ''subIdx'' then
       (let tmp = s32 (fst (strtol 16 val)) in
        if tmp < 0 \<or> tmp \<ge> 255 then Inl (Stop ''Invalid pdoEntry subIdx'')
        else Inr (fr, p\<lparr>pe_subindex := word_of_int tmp\<rparr>))
     else if strcmp_eq name ''bitLen'' then
       (let tmp = atoi val in
        if tmp \<le> 0 \<or> tmp > LCEC_CONF_GENERIC_MAX_BITLEN then Inl (Stop ''Invalid pdoEntry bitLen'')
        else Inr (fr, p\<lparr>pe_bitLength := word_of_int tmp\<rparr>))
     else if strcmp_eq name ''halType'' then
       bind_res (pdoentry_haltype val p) (\<lambda>p'. Inr (fr, p'))
     else if strcmp_eq name ''scale'' then Inr (True, p\<lparr>pe_floatScale := atof val\<rparr>)
     else if strcmp_eq name ''offset'' then Inr (True, p\<lparr>pe_floatOffset := atof val\<rparr>)
     else if strcmp_eq name ''halPin'' then Inr (fr, p\<lparr>pe_halPin := conf_strncpy val\<rparr>)
     else Inl (Stop ''Invalid pdoEntry attribute''))"

definition pdoentry_check :: "bool \<Rightarrow> conf_pdoentry \<Rightarrow> conf_fail + conf_pdoentry" where
  "pdoentry_check fr p =
     (if pe_index p = 65535 then Inl (Stop ''pdoEntry has no idx attribute'')
      else if pe_subindex p = 255 then Inl (Stop ''pdoEntry has no subIdx attribute'')
      else if pe_bitLength p = 0 then Inl (Stop ''pdoEntry has no bitLen attribute'')
      else if pe_subType p = lcecPdoEntTypeComplex \<and> pe_halPin p \<noteq> [] then
        Inl (Stop ''pdoEntry has halPin attributes but pin type is complex'')
      else if fr \<and> pe_halType p \<noteq> HAL_FLOAT then
        Inl (Stop ''pdoEntry has scale/offset attributes but pin type is not float'')
      else Inr p)"

definition new_pdoentry :: conf_pdoentry where
  "new_pdoentry = \<lparr>pe_index = 65535, pe_subindex = 255, pe_bitLength = 0, pe_subType = lcecPdoEntTypeSimple,
     pe_halType = HAL_TYPE_ZERO, pe_floatScale = 1, pe_floatOffset = 0, pe_halPin = []\<rparr>"

definition slave_add_pdoentry :: "bool \<Rightarrow> conf_slave \<Rightarrow> conf_slave" where
  "slave_add_pdoentry mapped s =
     s\<lparr>cs_pdoEntryCount := Suc (cs_pdoEntryCount s),
       cs_pdoMappingCount := (if mapped then Suc (cs_pdoMappingCount s) else cs_pdoMappingCount s)\<rparr>"

definition parsePdoEntryAttrs :: "conf_env \<Rightarrow> attrs \<Rightarrow> conf_state \<Rightarrow> conf_fail + conf_state" where
  "parsePdoEntryAttrs env ats st =
     bind_res (fold_res pdoentry_attr ats (False, new_pdoentry)) (\<lambda>(fr, p).
     bind_res (pdoentry_check fr p) (\<lambda>p.
     bind_res (add_item env (ItPdoEntry p) st) (\<lambda>st'.
     bind_res (conf_upd_slave (slave_add_pdoentry (pe_halPin p \<noteq> []))
                 (st'\<lparr>cf_currPdoEntry := Some (length (cf_items st)), cf_currComplexBitOffset := 0\<rparr>))
       (conf_upd_pdo (cp_pdoEntryCount_update Suc)))))"

definition complex_haltype :: "string \<Rightarrow> conf_complexentry \<Rightarrow> conf_fail + conf_complexentry" where
  "complex_haltype val p =
     (if strcasecmp_eq val ''bit'' then Inr (p\<lparr>ce_subType := lcecPdoEntTypeSimple, ce_halType := HAL_BIT\<rparr>)
      else if strcasecmp_eq val ''s32'' then Inr (p\<lparr>ce_subType := lcecPdoEntTypeSimple, ce_halType := HAL_S32\<rparr>)
      else if strcasecmp_eq val ''u32'' then Inr (p\<lparr>ce_subType := lcecPdoEntTypeSimple, ce_halType := HAL_U32\<rparr>)
      else if strcasecmp_eq val ''float'' then
        Inr (p\<lparr>ce_subType := lcecPdoEntTypeFloatSigned, ce_halType := HAL_FLOAT\<rparr>)
      else if strcasecmp_eq val ''float-unsigned'' then
        Inr (p\<lparr>ce_subType := lcecPdoEntTypeFloatUnsigned, ce_halType := HAL_FLOAT\<rparr>)
      else if strcasecmp_eq val ''float-ieee'' then
        Inr (p\<lparr>ce_subType := lcecPdoEntTypeFloatIeee, ce_halType := HAL_FLOAT\<rparr>)
      else if strcasecmp_eq val ''float-double-ieee'' then
        Inr (p\<lparr>ce_subType := lcecPdoEntTypeFloatDoubleIeee, ce_halType := HAL_FLOAT\<rparr>)
      else Inl (Stop ''Invalid complexEntry halType''))"

definition complex_attr ::
  "u8 \<Rightarrow> u8 \<Rightarrow> string \<times> string \<Rightarrow> bool \<times> conf_complexentry \<Rightarrow> conf_fail + bool \<times> conf_complexentry" where
  "complex_attr off entry_bits = (\<lambda>(name, val) (fr, p).
     if strcmp_eq name ''bitLen'' then
       (let tmp = atoi val in
        if tmp \<le> 0 \<or> tmp > LCEC_CONF_GENERIC_MAX_SUBPINS then Inl (Stop ''Invalid complexEntry bitLen'')
        else if uint off + tmp > uint entry_bits then
          Inl (Stop ''complexEntry bitLen sum exceeded pdoEntry bitLen'')
        else Inr (fr, p\<lparr>ce_bitLength := word_of_int tmp\<rparr>))
     else if strcmp_eq name ''halType'' then
       bind_res (complex_haltype val p) (\<lambda>p'. Inr (fr, p'))
     else if strcmp_eq name ''scale'' then Inr (True, p\<lparr>ce_floatScale := atof val\<rparr>)
     else if strcmp_eq name ''offset'' then Inr (True, p\<lparr>ce_floatOffset := atof val\<rparr>)
     else if strcmp_eq name ''halPin'' then Inr (fr, p\<lparr>ce_halPin := conf_strncpy val\<rparr>)
     else Inl (Stop ''Invalid complexEntry attribute''))"

definition new_complexentry :: "u8 \<Rightarrow> conf_complexentry" where
  "new_complexentry off = \<lparr>ce_bitOffset = off, ce_bitLength = 0, ce_subType = lcecPdoEntTypeSimple,
     ce_halType = HAL_TYPE_ZERO, ce_floatScale = 1, ce_floatOffset = 0, ce_halPin = []\<rparr>"

definition slave_add_mapping :: "bool \<Rightarrow> conf_slave \<Rightarrow> conf_slave" where
  "slave_add_mapping mapped s =
     (if mapped then s\<lparr>cs_pdoMappingCount := Suc (cs_pdoMappingCount s)\<rparr> else s)"

definition parseComplexEntryAttrs :: "conf_env \<Rightarrow> attrs \<Rightarrow> conf_state \<Rightarrow> conf_fail + conf_state" where
  "parseComplexEntryAttrs env ats st =
     bind_res (get_pdoentry (cf_items st) (cf_currPdoEntry st)) (\<lambda>e.
     bind_res (fold_res (complex_attr (cf_currComplexBitOffset st) (pe_bitLength e)) ats
                 (False, new_complexentry (cf_currComplexBitOffset st))) (\<lambda>(fr, p).
     if ce_bitLength p = 0 then Inl (Stop ''complexEntry has no bitLen attribute'')
     else if fr \<and> ce_halType p \<noteq> HAL_FLOAT then
       Inl (Stop ''complexEntry has scale/offset attributes but pin type is not float'')
     else
       bind_res (add_item env (ItComplexEntry p) st) (\<lambda>st'.
       conf_upd_slave (slave_add_mapping (ce_halPin p \<noteq> []))
         (st'\<lparr>cf_currComplexBitOffset := cf_currComplexBitOffset st + ce_bitLength p\<rparr>))))"

section \<open>modParam\<close>

definition modparam_attr :: "string \<times> string \<Rightarrow> string option \<times> string option \<Rightarrow> conf_fail + string option \<times> string option" where
  "modparam_attr = (\<lambda>(name, val) (pname, pval).
     if strcmp_eq name ''name'' then Inr (Some val, pval)
     else if strcmp_eq name ''value'' then Inr (pname, Some val)
     else Inl (Stop ''Invalid modparam attribute''))"

definition required_text :: "string \<Rightarrow> string option \<Rightarrow> conf_fail + string" where
  "required_text msg v = (case v of None \<Rightarrow> Inl (Stop msg) | Some s \<Rightarrow> if s = [] then Inl (Stop msg) else Inr s)"

definition parse_modparam_value :: "modparam_type \<Rightarrow> string \<Rightarrow> conf_fail + modparam_val" where
  "parse_modparam_value ty pval = (case ty of
      MODPARAM_TYPE_BIT \<Rightarrow>
        if strcmp_eq ''1'' pval \<or> strcasecmp_eq ''TRUE'' pval \<or> strcasecmp_eq ''ENABLED'' pval then Inr (MpBit True)
        else if strcmp_eq ''0'' pval \<or> strcasecmp_eq ''FALSE'' pval \<or> strcasecmp_eq ''DISABLED'' pval then Inr (MpBit False)
        else Inl (Stop ''Invalid modparam bit value'')
    | MODPARAM_TYPE_U32 \<Rightarrow>
        (let (v, r) = strtoul 0 pval in if r \<noteq> [] then Inl (Stop ''Invalid modparam u32 value'') else Inr (MpU32 (word_of_int v)))
    | MODPARAM_TYPE_S32 \<Rightarrow>
        (let (v, r) = strtol 0 pval in if r \<noteq> [] then Inl (Stop ''Invalid modparam s32 value'') else Inr (MpS32 (s32 v)))
    | MODPARAM_TYPE_FLOAT \<Rightarrow>
        (let (v, r) = strtod pval in if r \<noteq> [] then Inl (Stop ''Invalid modparam float value'') else Inr (MpFloat v))
    | MODPARAM_TYPE_STRING \<Rightarrow> Inr (MpStr (conf_strncpy pval)))"

definition parseModParamAttrs :: "conf_env \<Rightarrow> attrs \<Rightarrow> conf_state \<Rightarrow> conf_fail + conf_state" where
  "parseModParamAttrs env ats st =
     (case cf_currSlaveType st of
        None \<Rightarrow> Inl NullDeref
      | Some ty \<Rightarrow>
          (case ty_modparams ty of
             None \<Rightarrow> Inl (Stop ''modparam not allowed for this slave'')
           | Some mps \<Rightarrow>
               bind_res (fold_res modparam_attr ats (None, None)) (\<lambda>(pname, pval).
               bind_res (required_text ''modparam has no name attribute'' pname) (\<lambda>pname.
               bind_res (required_text ''modparam has no value attribute'' pval) (\<lambda>pval.
               case List.find (\<lambda>d. strcmp_eq pname (md_name d)) mps of
                 None \<Rightarrow> Inl (Stop ''Invalid modparam'')
               | Some d \<Rightarrow>
                   bind_res (parse_modparam_value (md_type d) pval) (\<lambda>v.
                   bind_res (add_item env
                       (ItModParam \<lparr>cmp_id = md_id d, cmp_name = conf_strncpy pname, cmp_value = v\<rparr>) st)
                     (conf_upd_slave (cs_modParamCount_update Suc))))))))"

section \<open>The handler table\<close>

type_synonym conf_xml_row = "unit conf_state_ext xml_row"

definition conf_row :: "string \<Rightarrow> conf_type \<Rightarrow> conf_type \<Rightarrow>
    (attrs \<Rightarrow> conf_state \<Rightarrow> conf_fail + conf_state) option \<Rightarrow> conf_xml_row" where
  "conf_row el a b h =
     \<lparr>xr_el = Some el, xr_from = conf_type_num a, xr_to = conf_type_num b, xr_start = h, xr_end = None\<rparr>"

text \<open>
  As in the init command parser, the last row carries the name \<^verbatim>\<open>"NULL"\<close> where the
  search loops expect the \<open>NULL\<close> pointer.
\<close>

definition conf_xml_states :: "conf_env \<Rightarrow> conf_xml_row list" where
  "conf_xml_states env =
     [conf_row ''masters'' lcecConfTypeNone lcecConfTypeMasters None,
      conf_row ''master'' lcecConfTypeMasters lcecConfTypeMaster (Some (parseMasterAttrs env)),
      conf_row ''slave'' lcecConfTypeMaster lcecConfTypeSlave (Some (parseSlaveAttrs env)),
      conf_row ''dcConf'' lcecConfTypeSlave lcecConfTypeDcConf (Some (parseDcConfAttrs env)),
      conf_row ''watchdog'' lcecConfTypeSlave lcecConfTypeWatchdog (Some (parseWatchdogAttrs env)),
      conf_row ''sdoConfig'' lcecConfTypeSlave lcecConfTypeSdoConfig (Some (parseSdoConfigAttrs env)),
      conf_row ''sdoDataRaw'' lcecConfTypeSdoConfig lcecConfTypeSdoDataRaw (Some (parseDataRawAttrs env)),
      conf_row ''idnConfig'' lcecConfTypeSlave lcecConfTypeIdnConfig (Some (parseIdnConfigAttrs env)),
      conf_row ''idnDataRaw'' lcecConfTypeIdnConfig lcecConfTypeIdnDataRaw (Some (parseDataRawAttrs env)),
      conf_row ''initCmds'' lcecConfTypeSlave lcecConfTypeInitCmds (Some (parseInitCmdsAttrs env)),
      conf_row ''syncManager'' lcecConfTypeSlave lcecConfTypeSyncManager (Some (parseSyncManagerAttrs env)),
      conf_row ''pdo'' lcecConfTypeSyncManager lcecConfTypePdo (Some (parsePdoAttrs env)),
      conf_row ''pdoEntry'' lcecConfTypePdo lcecConfTypePdoEntry (Some (parsePdoEntryAttrs env)),
      conf_row ''complexEntry'' lcecConfTypePdoEntry lcecConfTypeComplexEntry (Some (parseComplexEntryAttrs env)),
      conf_row ''modParam'' lcecConfTypeSlave lcecConfTypeModParam (Some (parseModParamAttrs env)),
      \<lparr>xr_el = Some ''NULL'', xr_from = -1, xr_to = -1, xr_start = None, xr_end = None\<rparr>]"

text \<open>\<open>lcec_conf\<close> sets no character data handler: Expat drops text.\<close>

definition conf_no_cdata :: "string \<Rightarrow> conf_state \<Rightarrow> conf_fail + conf_state" where
  "conf_no_cdata s st = Inr st"

definition conf_run :: "conf_env \<Rightarrow> xml_event list \<Rightarrow> conf_fail + conf_state" where
  "conf_run env evs = xml_run (conf_xml_states env) conf_no_cdata evs conf_init_state"

section \<open>main\<close>

text \<open>
  The image \<open>lcec_conf\<close> leaves in shared memory: the header and the blocks at their
  offsets behind it.
\<close>

definition LCEC_CONF_SHMEM_MAGIC :: u32 where
  "LCEC_CONF_SHMEM_MAGIC = 0x036ED5A3"

record conf_image =
  im_magic :: u32
  im_length :: nat
  im_blocks :: "(nat \<times> conf_item) list"

text \<open>
  \<open>main\<close> from the opened file on: parse the blocks, append the end marker, create the shared
  memory (\<open>shmem_ok\<close>: allocation and mapping of that many bytes succeed) and copy. Every
  failure leaves the image unwritten and the exit code 1.
\<close>

definition conf_main :: "conf_env \<Rightarrow> (nat \<Rightarrow> bool) \<Rightarrow> xml_file \<Rightarrow> conf_fail + conf_image" where
  "conf_main env shmem_ok file =
     (case file of
        None \<Rightarrow> Inl (Stop ''unable to open config file'')
      | Some (evs, whole) \<Rightarrow>
          bind_res (conf_run env evs) (\<lambda>st.
          if \<not> whole then Inl (Stop ''Parse error'')
          else bind_res (add_item env ItNull st) (\<lambda>st'.
            if \<not> shmem_ok (16 + cf_len st') then Inl (Stop ''shared memory'')
            else Inr \<lparr>im_magic = LCEC_CONF_SHMEM_MAGIC, im_length = cf_len st',
                      im_blocks = snd (copyFreeOutputBuffer (conf_buf (cf_items st') (cf_len st')) True)\<rparr>)))"

end
