(* ===== verification/MasterData.thy ===== *)
theory MasterData
  imports ConfParse
begin

text \<open>
  The runtime structures of \<open>lcec.h\<close> that \<open>lcec_main.c\<close> owns: Sync Units, slaves and
  masters. The linked lists are HOL lists; a slave refers to its Sync Unit by position. The
  drivers behind the callback pointers are outside this code, and known by name or by the
  fact that a callback is set.
\<close>

section \<open>Sync Units\<close>

text \<open>The working counter states of the EtherCAT master, in the order of their numbers 0, 1, 2.\<close>

datatype wc_state = EC_WC_ZERO | EC_WC_INCOMPLETE | EC_WC_COMPLETE

text \<open>
  Process data registrations (\<open>ec_pdo_entry_reg_t\<close>) and the growing array of them. The two
  output pointers are names of the variables they point to. The entries list is the array;
  \<open>pr_current\<close> of them are in use.
\<close>

record pdo_entry_reg =
  er_position :: int
  er_vendor_id :: u32
  er_product_code :: u32
  er_index :: u16
  er_subindex :: u16
  er_offset :: "nat option"
  er_bit_position :: "nat option"

record pdo_entry_regs =
  pr_current :: nat
  pr_max :: nat
  pr_entries :: "pdo_entry_reg list"

record sync_unit =
  su_name :: string
  su_cycle_time :: u32
  su_cycle_divider :: u32
  su_cycle_counter :: u32
  su_pdo_entry_count :: nat
  su_regs :: "pdo_entry_regs option"
  su_domain :: "nat option"
  su_process_data :: "nat option"
  su_process_data_len :: nat
  su_queued :: bool
  su_process :: bool
  su_write :: bool

definition new_sync_unit :: sync_unit where
  "new_sync_unit =
     \<lparr>su_name = [], su_cycle_time = 0, su_cycle_divider = 0, su_cycle_counter = 0,
      su_pdo_entry_count = 0, su_regs = None, su_domain = None, su_process_data = None, su_process_data_len = 0,
      su_queued = False, su_process = False, su_write = False\<rparr>"

section \<open>Slaves\<close>

record slave_dc =
  dc_assignActivate :: u16
  dc_sync0Cycle :: u32
  dc_sync0Shift :: int
  dc_sync1Cycle :: u32
  dc_sync1Shift :: int

record slave_watchdog =
  wd_divider :: u16
  wd_intervals :: u16

text \<open>One entry of the packed SDO or IDN configuration, with its data.\<close>

record slave_sdoconf =
  sc_index :: u16
  sc_subindex :: int
  sc_data :: "u8 list"

record slave_idnconf =
  ic_drive :: u8
  ic_idn :: u16
  ic_state :: ec_al_state
  ic_data :: "u8 list"

text \<open>
  HAL pin values. A pin belongs to a component and is read and written through its type.
\<close>

datatype hal_val = HvBit bool | HvS32 int | HvU32 u32 | HvFloat real

text \<open>
  The pin table of a generic slave (\<open>lcec_generic.h\<close>): the configuration fills the first
  part; \<open>gp_pin\<close> are the sub-pins that have been exported, in order, with their values, and
  the last two fields are the process data position the EtherCAT master fills in.
\<close>

record generic_pin =
  gp_name :: string
  gp_type :: hal_type
  gp_subType :: pdoent_type
  gp_floatScale :: real
  gp_floatOffset :: real
  gp_bitOffset :: u8
  gp_bitLength :: u8
  gp_dir :: hal_pin_dir
  gp_pdo_idx :: u16
  gp_pdo_sidx :: u8
  gp_pin :: "hal_val list"
  gp_pdo_os :: u32
  gp_pdo_bp :: u32

text \<open>
  The EtherCAT master's descriptions of PDO entries, PDOs and sync managers. The pointers
  \<open>entries\<close> and \<open>pdos\<close> point into the slave's arrays: they are start positions.
\<close>

record pdo_entry_info =
  ei_index :: u16
  ei_subindex :: u8
  ei_bit_length :: u8

record pdo_info =
  pi_index :: u16
  pi_n_entries :: nat
  pi_entries :: "nat option"

record sync_info =
  si_index :: u8
  si_dir :: ec_direction
  si_n_pdos :: nat
  si_pdos :: "nat option"

text \<open>State the EtherCAT master reports of a slave and of itself, and the pins that show it.\<close>

record slave_config_state =
  ss_online :: bool
  ss_operational :: bool
  ss_al_state :: u8

record slave_state_hal =
  hs_online :: bool
  hs_operational :: bool
  hs_state_init :: bool
  hs_state_preop :: bool
  hs_state_safeop :: bool
  hs_state_op :: bool

record master_state =
  ms_slaves_responding :: u32
  ms_al_states :: u8
  ms_link_up :: bool

record lcec_slave =
  sl_index :: int
  sl_name :: string
  sl_sync_unit_name :: string
  sl_sync_unit_cycle :: u32
  sl_sync_unit :: nat
  sl_vid :: u32
  sl_pid :: u32
  sl_is_fsoe_logic :: bool
  sl_proc_preinit :: "string option"
  sl_proc_init :: "string option"
  sl_flags :: u64
  sl_generic_pdo_entry_count :: nat
  sl_hal_data :: "generic_pin list option"
  sl_generic_pdo_entries :: "pdo_entry_info list option"
  sl_generic_pdos :: "pdo_info list option"
  sl_generic_sync_managers :: "sync_info list option"
  sl_sync_info :: bool
  sl_sdo_config :: "slave_sdoconf list option"
  sl_idn_config :: "slave_idnconf list option"
  sl_modparams :: "slave_modparam list option"
  sl_dc_conf :: "slave_dc option"
  sl_wd_conf :: "slave_watchdog option"
  sl_config :: bool
  sl_state :: slave_config_state
  sl_proc_cleanup :: bool
  sl_proc_read :: bool
  sl_proc_write :: bool
  sl_hal_state :: "slave_state_hal option"
  sl_regs :: "pdo_entry_regs option"

text \<open>What a slave has before \<open>rtapi_app_main\<close> sets it up: zeroed memory.\<close>

definition zero_slave_state :: slave_config_state where
  "zero_slave_state = \<lparr>ss_online = False, ss_operational = False, ss_al_state = 0\<rparr>"

definition zero_master_state :: master_state where
  "zero_master_state = \<lparr>ms_slaves_responding = 0, ms_al_states = 0, ms_link_up = False\<rparr>"

section \<open>Masters\<close>

text \<open>
  The HAL block of a master (\<open>lcec_master_data_t\<close>): pins, parameters and the internal
  variables of the working counter statistics and of the clock control. The build is the
  one with \<open>RTAPI_TASK_PLL_SUPPORT\<close>.
\<close>

record master_hal =
  hd_slaves_responding :: u32
  hd_state_init :: bool
  hd_state_preop :: bool
  hd_state_safeop :: bool
  hd_state_op :: bool
  hd_link_up :: bool
  hd_all_op :: bool
  hd_pll_err :: int
  hd_pll_out :: int
  hd_pll_step :: u32
  hd_pll_max_err :: u32
  hd_pll_reset_cnt :: u32
  hd_app_phase :: int
  hd_dc_phased :: bool
  hd_phase_jitter_out :: int
  hd_drift_mode :: int
  hd_pll_drift :: int
  hd_pll_final :: int
  hd_dc_ref_err :: int
  hd_auto_drift_delay :: int
  hd_phase_locked :: bool
  hd_phase_lock_cnt :: int
  hd_phase_unlock_cnt :: int
  hd_phase_lock_dwell :: int
  hd_wkc :: u32
  hd_wkc_min :: u32
  hd_wkc_change_cnt :: u32
  hd_wkc_state :: int
  hd_wkc_reset :: bool
  hd_wkc_last :: u32
  hd_wkc_full_seen :: bool
  hd_dc_sync_diff :: u32
  hd_dc_sync_converged :: bool
  hd_dc_sync_max :: u32
  hd_dc_sync_monitor :: bool
  hd_dc_sync_miss_cnt :: int
  hd_app_time_lo :: u32
  hd_app_time_hi :: u32
  hd_mono_time_lo :: u32
  hd_mono_time_hi :: u32
  hd_phase_measure_cnt :: int
  hd_phase_min :: int
  hd_phase_max :: int
  hd_phase_last :: int
  hd_phase_jitter :: int
  hd_phase_target :: int
  hd_phase_calibrated :: bool

definition zero_master_hal :: master_hal where
  "zero_master_hal =
     \<lparr>hd_slaves_responding = 0, hd_state_init = False, hd_state_preop = False, hd_state_safeop = False,
      hd_state_op = False, hd_link_up = False, hd_all_op = False, hd_pll_err = 0, hd_pll_out = 0,
      hd_pll_step = 0, hd_pll_max_err = 0, hd_pll_reset_cnt = 0, hd_app_phase = 0, hd_dc_phased = False,
      hd_phase_jitter_out = 0, hd_drift_mode = 0, hd_pll_drift = 0, hd_pll_final = 0, hd_dc_ref_err = 0,
      hd_auto_drift_delay = 0, hd_phase_locked = False, hd_phase_lock_cnt = 0, hd_phase_unlock_cnt = 0,
      hd_phase_lock_dwell = 0, hd_wkc = 0, hd_wkc_min = 0, hd_wkc_change_cnt = 0, hd_wkc_state = 0,
      hd_wkc_reset = False, hd_wkc_last = 0, hd_wkc_full_seen = False, hd_dc_sync_diff = 0,
      hd_dc_sync_converged = False, hd_dc_sync_max = 0, hd_dc_sync_monitor = False,
      hd_dc_sync_miss_cnt = 0, hd_app_time_lo = 0, hd_app_time_hi = 0, hd_mono_time_lo = 0,
      hd_mono_time_hi = 0, hd_phase_measure_cnt = 0, hd_phase_min = 0, hd_phase_max = 0,
      hd_phase_last = 0, hd_phase_jitter = 0, hd_phase_target = 0, hd_phase_calibrated = False\<rparr>"

text \<open>The master itself. The process data pointer and the domains are handles of the EtherCAT master.\<close>

record lcec_master =
  ma_index :: int
  ma_name :: string
  ma_app_time_period :: u32
  ma_sync_ref_cycles :: int
  ma_sync_to_ref_clock :: int
  ma_sync_units :: "sync_unit list"
  ma_slaves :: "lcec_slave list"
  ma_master :: bool
  ma_domain :: "nat option"
  ma_process_data :: "nat option"
  ma_process_data_len :: nat
  ma_sync_units_started :: bool
  ma_hal :: master_hal
  ma_app_time_base :: u64
  ma_period_last :: int
  ma_sync_ref_cnt :: int
  ma_state_update_timer :: int
  ma_ms :: master_state
  ma_activated :: bool
  ma_initf_activated :: bool
  ma_forgot_warned :: bool
  ma_dc_ref :: u64
  ma_dc_ref_time :: u64
  ma_app_time_last :: u32
  ma_dc_time_valid_last :: bool

section \<open>Sync Unit lookup\<close>

text \<open>
  \<open>lcec_master_get_sync_unit\<close>: the cycle must be a positive multiple of the master's, a
  known name must come with the same cycle, a new name creates a unit that is queued for
  its first cycle. \<open>None\<close> is the \<open>NULL\<close> it returns on an error.
\<close>

fun find_sync_unit :: "string \<Rightarrow> nat \<Rightarrow> sync_unit list \<Rightarrow> (nat \<times> sync_unit) option" where
  "find_sync_unit n k [] = None"
| "find_sync_unit n k (u # us) =
     (if take LCEC_CONF_STR_MAXLEN (su_name u) = take LCEC_CONF_STR_MAXLEN n then Some (k, u)
      else find_sync_unit n (Suc k) us)"

definition make_sync_unit :: "u32 \<Rightarrow> string \<Rightarrow> u32 \<Rightarrow> sync_unit" where
  "make_sync_unit period n cycle_time =
     new_sync_unit\<lparr>su_name := conf_strncpy n, su_cycle_time := cycle_time,
                   su_cycle_divider := cycle_time div period, su_queued := True\<rparr>"

definition lcec_master_get_sync_unit :: "u32 \<Rightarrow> sync_unit list \<Rightarrow> string \<Rightarrow> u32 \<Rightarrow> (nat \<times> sync_unit list) option" where
  "lcec_master_get_sync_unit period us n cycle_time =
     (if cycle_time = 0 \<or> period = 0 \<or> cycle_time mod period \<noteq> 0 then None
      else case find_sync_unit n 0 us of
          Some (k, u) \<Rightarrow> if su_cycle_time u \<noteq> cycle_time then None else Some (k, us)
        | None \<Rightarrow> Some (length us, list_append_item us (make_sync_unit period n cycle_time)))"

text \<open>
  Every unit runs at a whole positive number of master cycles, and the divider times the
  master's period is its cycle time.
\<close>

definition sync_unit_ok :: "u32 \<Rightarrow> sync_unit \<Rightarrow> bool" where
  "sync_unit_ok period u \<longleftrightarrow>
     length (su_name u) < LCEC_CONF_STR_MAXLEN \<and>
     0 < uint (su_cycle_divider u) \<and> uint (su_cycle_time u) = uint (su_cycle_divider u) * uint period"

lemma find_sync_unit_Some:
  "find_sync_unit n k us = Some (i, u) \<Longrightarrow>
   k \<le> i \<and> i < k + length us \<and> us ! (i - k) = u \<and>
   take LCEC_CONF_STR_MAXLEN (su_name u) = take LCEC_CONF_STR_MAXLEN n"
proof (induction us arbitrary: k)
  case Nil
  then show ?case by simp
next
  case (Cons v us)
  show ?case
  proof (cases "take LCEC_CONF_STR_MAXLEN (su_name v) = take LCEC_CONF_STR_MAXLEN n")
    case True
    with Cons.prems show ?thesis by auto
  next
    case False
    with Cons.prems have "find_sync_unit n (Suc k) us = Some (i, u)" by simp
    with Cons.IH [of "Suc k"] show ?thesis
      by (auto simp: nth_Cons' Suc_le_eq)
  qed
qed

lemma find_sync_unit_None:
  "find_sync_unit n k us = None \<longleftrightarrow>
   (\<forall>u \<in> set us. take LCEC_CONF_STR_MAXLEN (su_name u) \<noteq> take LCEC_CONF_STR_MAXLEN n)"
  by (induction us arbitrary: k) auto

lemma divider_of_multiple:
  assumes "cycle \<noteq> (0::u32)" and "period \<noteq> 0" and "cycle mod period = 0"
  shows "0 < uint (cycle div period)" and "uint cycle = uint (cycle div period) * uint period"
proof -
  have eq: "uint cycle = uint cycle div uint period * uint period + uint (cycle mod period)"
    by (simp add: uint_mod)
  with assms(3) show mult: "uint cycle = uint (cycle div period) * uint period"
    by (simp add: uint_div)
  from assms(1) have "uint cycle \<noteq> 0" by (simp add: uint_0_iff)
  with mult have "uint (cycle div period) \<noteq> 0" by auto
  then show "0 < uint (cycle div period)" using uint_ge_0 [of "cycle div period"] by linarith
qed

lemma make_sync_unit_simps [simp]:
  "su_name (make_sync_unit period n cyc) = conf_strncpy n"
  "su_cycle_time (make_sync_unit period n cyc) = cyc"
  "su_cycle_divider (make_sync_unit period n cyc) = cyc div period"
  "su_queued (make_sync_unit period n cyc)"
  by (simp_all add: make_sync_unit_def)

lemma make_sync_unit_ok:
  assumes "cycle_time \<noteq> 0" and "period \<noteq> 0" and "cycle_time mod period = 0"
  shows "sync_unit_ok period (make_sync_unit period n cycle_time)"
  using divider_of_multiple [OF assms]
  by (simp add: sync_unit_ok_def length_conf_strncpy)

lemma get_sync_unit_spec:
  assumes "lcec_master_get_sync_unit period us n cyc = Some (k, us')"
    and "\<forall>u \<in> set us. sync_unit_ok period u"
  shows "(\<forall>u \<in> set us'. sync_unit_ok period u) \<and> k < length us' \<and> su_cycle_time (us' ! k) = cyc"
  using assms
  by (auto simp: lcec_master_get_sync_unit_def split: if_splits option.splits
      dest: find_sync_unit_Some intro!: make_sync_unit_ok del: mod_0_imp_dvd)

lemma get_sync_unit_mono:
  assumes "lcec_master_get_sync_unit period us n cyc = Some (k, us')" and "i < length us"
  shows "i < length us' \<and> us' ! i = us ! i"
  using assms
  by (auto simp: lcec_master_get_sync_unit_def nth_list_append_item split: if_splits option.splits)

end
