(* ===== verification/ConfLoad.thy ===== *)
theory ConfLoad
  imports MasterData
begin

text \<open>
  The configuration loader \<open>lcec_parse_config\<close> of \<open>lcec_main.c\<close>, which reads the tokens
  that \<open>lcec_conf\<close> left in shared memory and builds masters, Sync Units and slaves. The
  arrays of a slave are allocated with the sizes the slave token announces and filled
  through pointers that the loader advances; a store behind the end of its array is
  \<open>OutOfBounds\<close>, a read of raw data as a token or of a token as raw data is \<open>Misaligned\<close>.
\<close>

section \<open>State\<close>

datatype load_fail = LoadError string | OutOfBounds | Misaligned

text \<open>
  \<open>ld_slave\<close> is the pointer \<open>slave\<close> as master and slave position. The array pointers are
  positions in the current slave's arrays, \<open>None\<close> where the code has \<open>NULL\<close>; the two
  packed areas are given by the bytes used and the bytes allocated.
\<close>

record load_state =
  ld_masters :: "lcec_master list"
  ld_slave :: "(nat \<times> nat) option"
  ld_slave_count :: nat
  ld_pdo_entries :: "nat option"
  ld_pdos :: "nat option"
  ld_sms :: "nat option"
  ld_hal :: "nat option"
  ld_hal_dir :: hal_pin_dir
  ld_sdo :: "(nat \<times> nat) option"
  ld_idn :: "(nat \<times> nat) option"
  ld_modparams :: "nat option"
  ld_pe :: "conf_pdoentry option"

definition load_init :: load_state where
  "load_init = \<lparr>ld_masters = [], ld_slave = None, ld_slave_count = 0, ld_pdo_entries = None,
     ld_pdos = None, ld_sms = None, ld_hal = None, ld_hal_dir = HAL_DIR_UNSPECIFIED, ld_sdo = None,
     ld_idn = None, ld_modparams = None, ld_pe = None\<rparr>"

definition upd_master :: "nat \<Rightarrow> (lcec_master \<Rightarrow> lcec_master) \<Rightarrow> lcec_master list \<Rightarrow> lcec_master list" where
  "upd_master i f ms = (if i < length ms then ms[i := f (ms ! i)] else ms)"

definition upd_cur_slave :: "(lcec_slave \<Rightarrow> lcec_slave) \<Rightarrow> load_state \<Rightarrow> load_state" where
  "upd_cur_slave f st = (case ld_slave st of None \<Rightarrow> st
     | Some (mi, si) \<Rightarrow>
         st\<lparr>ld_masters := upd_master mi
              (\<lambda>m. if si < length (ma_slaves m)
                   then m\<lparr>ma_slaves := (ma_slaves m)[si := f (ma_slaves m ! si)]\<rparr> else m)
              (ld_masters st)\<rparr>)"

definition cur_slave :: "load_state \<Rightarrow> lcec_slave option" where
  "cur_slave st = (case ld_slave st of None \<Rightarrow> None
     | Some (mi, si) \<Rightarrow>
         if mi < length (ld_masters st) \<and> si < length (ma_slaves (ld_masters st ! mi))
         then Some (ma_slaves (ld_masters st ! mi) ! si) else None)"

text \<open>A store through an array pointer.\<close>

definition store_at :: "'a \<Rightarrow> nat \<Rightarrow> 'a list option \<Rightarrow> 'a list option option" where
  "store_at x k arr = (case arr of None \<Rightarrow> None
     | Some xs \<Rightarrow> if k < length xs then Some (Some (xs[k := x])) else None)"

section \<open>Masters and slaves\<close>

definition load_master :: "conf_master \<Rightarrow> load_state \<Rightarrow> load_fail + load_state" where
  "load_master c st =
     Inr (st\<lparr>ld_masters := list_append_item (ld_masters st)
            \<lparr>ma_index = cm_index c, ma_name = conf_strncpy (cm_name c),
             ma_app_time_period = cm_appTimePeriod c, ma_sync_ref_cycles = cm_refClockSyncCycles c,
             ma_sync_to_ref_clock = cm_syncToRefClock c, ma_sync_units = [], ma_slaves = [],
             ma_master = False, ma_domain = None, ma_process_data = None, ma_process_data_len = 0,
             ma_sync_units_started = False, ma_hal = zero_master_hal, ma_app_time_base = 0, ma_period_last = 0,
             ma_sync_ref_cnt = 0, ma_state_update_timer = 0, ma_ms = zero_master_state, ma_activated = False,
             ma_initf_activated = False, ma_forgot_warned = False, ma_dc_ref = 0, ma_dc_ref_time = 0,
             ma_app_time_last = 0, ma_dc_time_valid_last = False\<rparr>\<rparr>)"

definition zero_pin :: generic_pin where
  "zero_pin = \<lparr>gp_name = [], gp_type = HAL_TYPE_ZERO, gp_subType = lcecPdoEntTypeSimple,
     gp_floatScale = 0, gp_floatOffset = 0, gp_bitOffset = 0, gp_bitLength = 0,
     gp_dir = HAL_DIR_UNSPECIFIED, gp_pdo_idx = 0, gp_pdo_sidx = 0,
     gp_pin = [], gp_pdo_os = 0, gp_pdo_bp = 0\<rparr>"

definition zero_entry_info :: pdo_entry_info where
  "zero_entry_info = \<lparr>ei_index = 0, ei_subindex = 0, ei_bit_length = 0\<rparr>"

definition zero_pdo_info :: pdo_info where
  "zero_pdo_info = \<lparr>pi_index = 0, pi_n_entries = 0, pi_entries = None\<rparr>"

definition zero_sync_info :: sync_info where
  "zero_sync_info = \<lparr>si_index = 0, si_dir = EC_DIR_INVALID, si_n_pdos = 0, si_pdos = None\<rparr>"

definition zero_modparam :: slave_modparam where
  "zero_modparam = \<lparr>smp_id = 0, smp_name = [], smp_value = MpU32 0\<rparr>"

text \<open>The slave record a slave token makes; \<open>ty\<close> is \<open>None\<close> for a generic slave.\<close>

definition load_new_slave :: "conf_slave \<Rightarrow> slave_type option \<Rightarrow> nat \<Rightarrow> lcec_slave" where
  "load_new_slave c ty unit =
     \<lparr>sl_index = cs_index c, sl_name = conf_strncpy (cs_name c),
      sl_sync_unit_name = conf_strncpy (cs_syncUnit c), sl_sync_unit_cycle = cs_syncUnitCycle c,
      sl_sync_unit = unit,
      sl_vid = (case ty of None \<Rightarrow> cs_vid c | Some t \<Rightarrow> if cs_vid c \<noteq> 0 then cs_vid c else ty_vid t),
      sl_pid = (case ty of None \<Rightarrow> cs_pid c | Some t \<Rightarrow> if cs_pid c \<noteq> 0 then cs_pid c else ty_pid t),
      sl_is_fsoe_logic = (case ty of None \<Rightarrow> False | Some t \<Rightarrow> ty_is_fsoe_logic t),
      sl_proc_preinit = (case ty of None \<Rightarrow> None | Some t \<Rightarrow> ty_proc_preinit t),
      sl_proc_init = (case ty of None \<Rightarrow> Some ''lcec_generic_init'' | Some t \<Rightarrow> ty_proc_init t),
      sl_flags = (case ty of None \<Rightarrow> 0 | Some t \<Rightarrow> ty_flags t),
      sl_generic_pdo_entry_count = (case ty of None \<Rightarrow> cs_pdoMappingCount c | Some _ \<Rightarrow> 0),
      sl_hal_data = (case ty of None \<Rightarrow> Some (replicate (cs_pdoMappingCount c) zero_pin) | Some _ \<Rightarrow> None),
      sl_generic_pdo_entries =
        (case ty of None \<Rightarrow> Some (replicate (cs_pdoEntryCount c) zero_entry_info) | Some _ \<Rightarrow> None),
      sl_generic_pdos = (case ty of None \<Rightarrow> Some (replicate (cs_pdoCount c) zero_pdo_info) | Some _ \<Rightarrow> None),
      sl_generic_sync_managers =
        (case ty of None \<Rightarrow> Some ((replicate (cs_syncManagerCount c + 1) zero_sync_info)[0 := zero_sync_info\<lparr>si_index := 255\<rparr>])
         | Some _ \<Rightarrow> None),
      sl_sync_info = (cs_configPdos c \<and> ty = None),
      sl_sdo_config = (if cs_sdoConfigLength c > 0 then Some [] else None),
      sl_idn_config = (if cs_idnConfigLength c > 0 then Some [] else None),
      sl_modparams =
        (if cs_modParamCount c > 0
         then Some (replicate (cs_modParamCount c) zero_modparam @ [zero_modparam\<lparr>smp_id := -1\<rparr>]) else None),
      sl_dc_conf = None, sl_wd_conf = None, sl_config = False, sl_state = zero_slave_state,
      sl_proc_cleanup = False, sl_proc_read = False, sl_proc_write = False, sl_hal_state = None, sl_regs = None\<rparr>"

text \<open>
  The slave token. An unknown type is skipped with a warning, and then the pointers still
  belong to the slave before. The last master of the list is the current one.
\<close>

definition load_slave :: "registry \<Rightarrow> conf_slave \<Rightarrow> load_state \<Rightarrow> load_fail + load_state" where
  "load_slave reg c st =
     (if ld_masters st = [] then Inl (LoadError ''Master node for slave missing'')
      else
        let generic = strcmp_eq (cs_type_name c) ''generic'';
            ty = (if generic then None else lcec_findslavetype reg (cs_type_name c));
            mi = length (ld_masters st) - 1;
            m = ld_masters st ! mi in
        if \<not> generic \<and> ty = None then Inr st
        else case lcec_master_get_sync_unit (ma_app_time_period m) (ma_sync_units m)
                    (conf_strncpy (cs_syncUnit c)) (cs_syncUnitCycle c) of
            None \<Rightarrow> Inl (LoadError ''syncUnit'')
          | Some (unit, us) \<Rightarrow>
              Inr (st\<lparr>ld_masters := upd_master mi
                        (\<lambda>m. m\<lparr>ma_sync_units := us,
                               ma_slaves := list_append_item (ma_slaves m) (load_new_slave c ty unit)\<rparr>)
                        (ld_masters st),
                      ld_slave := Some (mi, length (ma_slaves m)),
                      ld_slave_count := Suc (ld_slave_count st),
                      ld_pdo_entries := (if generic then Some 0 else None),
                      ld_pdos := (if generic then Some 0 else None),
                      ld_sms := (if generic then Some 0 else None),
                      ld_hal := (if generic then Some 0 else None),
                      ld_hal_dir := HAL_DIR_UNSPECIFIED,
                      ld_sdo := (if cs_sdoConfigLength c > 0
                                 then Some (0, cs_sdoConfigLength c + sizeof_slave_sdoconf) else None),
                      ld_idn := (if cs_idnConfigLength c > 0
                                 then Some (0, cs_idnConfigLength c + sizeof_slave_idnconf) else None),
                      ld_modparams := (if cs_modParamCount c > 0 then Some 0 else None)\<rparr>))"

section \<open>Clock and watchdog\<close>

definition load_dc :: "conf_dc \<Rightarrow> load_state \<Rightarrow> load_fail + load_state" where
  "load_dc c st = (case cur_slave st of
      None \<Rightarrow> Inl (LoadError ''Slave node for dc config missing'')
    | Some s \<Rightarrow>
        if sl_dc_conf s \<noteq> None then Inr st
        else Inr (upd_cur_slave (sl_dc_conf_update (\<lambda>_. Some
               \<lparr>dc_assignActivate = cd_assignActivate c, dc_sync0Cycle = cd_sync0Cycle c,
                dc_sync0Shift = cd_sync0Shift c, dc_sync1Cycle = cd_sync1Cycle c,
                dc_sync1Shift = cd_sync1Shift c\<rparr>)) st))"

definition load_watchdog :: "conf_watchdog \<Rightarrow> load_state \<Rightarrow> load_fail + load_state" where
  "load_watchdog c st = (case cur_slave st of
      None \<Rightarrow> Inl (LoadError ''Slave node for watchdog config missing'')
    | Some s \<Rightarrow>
        if sl_wd_conf s \<noteq> None then Inr st
        else Inr (upd_cur_slave (sl_wd_conf_update (\<lambda>_. Some
               \<lparr>wd_divider = cw_divider c, wd_intervals = cw_intervals c\<rparr>)) st))"

section \<open>Sync managers, PDOs and their entries\<close>

definition hal_dir_of :: "ec_direction \<Rightarrow> hal_pin_dir" where
  "hal_dir_of d = (case d of EC_DIR_INPUT \<Rightarrow> HAL_OUT | EC_DIR_OUTPUT \<Rightarrow> HAL_IN | EC_DIR_INVALID \<Rightarrow> HAL_DIR_UNSPECIFIED)"

text \<open>Two stores: the sync manager itself and the end mark in the slot behind it.\<close>

definition load_syncmanager :: "conf_syncmanager \<Rightarrow> load_state \<Rightarrow> load_fail + load_state" where
  "load_syncmanager c st = (case ld_sms st of
      None \<Rightarrow> Inl (LoadError ''Sync manager for generic device missing'')
    | Some k \<Rightarrow> (case ld_pdos st of
          None \<Rightarrow> Inl (LoadError ''PDOs for generic device missing'')
        | Some pk \<Rightarrow>
            (case Option.bind (cur_slave st) (\<lambda>s.
                Option.bind (store_at
                    \<lparr>si_index = csm_index c, si_dir = csm_dir c, si_n_pdos = csm_pdoCount c,
                     si_pdos = (if csm_pdoCount c = 0 then None else Some pk)\<rparr>
                    k (sl_generic_sync_managers s))
                  (store_at (zero_sync_info\<lparr>si_index := 255\<rparr>) (Suc k))) of
               None \<Rightarrow> Inl OutOfBounds
             | Some sms \<Rightarrow>
                 Inr ((upd_cur_slave (sl_generic_sync_managers_update (\<lambda>_. sms)) st)
                        \<lparr>ld_sms := Some (Suc k), ld_hal_dir := hal_dir_of (csm_dir c)\<rparr>))))"

definition load_pdo :: "conf_pdo \<Rightarrow> load_state \<Rightarrow> load_fail + load_state" where
  "load_pdo c st = (case ld_pdos st of
      None \<Rightarrow> Inl (LoadError ''PDOs for generic device missing'')
    | Some k \<Rightarrow> (case ld_pdo_entries st of
          None \<Rightarrow> Inl (LoadError ''PDO entries for generic device missing'')
        | Some ek \<Rightarrow>
            (case Option.bind (cur_slave st) (\<lambda>s. store_at
                \<lparr>pi_index = cp_index c, pi_n_entries = cp_pdoEntryCount c,
                 pi_entries = (if cp_pdoEntryCount c = 0 then None else Some ek)\<rparr> k (sl_generic_pdos s)) of
               None \<Rightarrow> Inl OutOfBounds
             | Some ps \<Rightarrow>
                 Inr ((upd_cur_slave (sl_generic_pdos_update (\<lambda>_. ps)) st)\<lparr>ld_pdos := Some (Suc k)\<rparr>))))"

text \<open>A pin is stored, and the pin pointer advanced, only for an entry with a pin name.\<close>

definition store_pin :: "generic_pin \<Rightarrow> load_state \<Rightarrow> load_fail + load_state" where
  "store_pin pin st = (case ld_hal st of
      None \<Rightarrow> Inl (LoadError ''HAL data for generic device missing'')
    | Some k \<Rightarrow>
        if gp_name pin = [] then Inr st
        else (case Option.bind (cur_slave st) (\<lambda>s. store_at pin k (sl_hal_data s)) of
            None \<Rightarrow> Inl OutOfBounds
          | Some ps \<Rightarrow> Inr ((upd_cur_slave (sl_hal_data_update (\<lambda>_. ps)) st)\<lparr>ld_hal := Some (Suc k)\<rparr>)))"

definition entry_pin :: "conf_pdoentry \<Rightarrow> hal_pin_dir \<Rightarrow> generic_pin" where
  "entry_pin c d =
     \<lparr>gp_name = conf_strncpy (pe_halPin c), gp_type = pe_halType c, gp_subType = pe_subType c,
      gp_floatScale = pe_floatScale c, gp_floatOffset = pe_floatOffset c, gp_bitOffset = 0,
      gp_bitLength = pe_bitLength c, gp_dir = d, gp_pdo_idx = pe_index c, gp_pdo_sidx = pe_subindex c,
      gp_pin = [], gp_pdo_os = 0, gp_pdo_bp = 0\<rparr>"

definition load_pdoentry :: "conf_pdoentry \<Rightarrow> load_state \<Rightarrow> load_fail + load_state" where
  "load_pdoentry c st = (case ld_pdo_entries st of
      None \<Rightarrow> Inl (LoadError ''PDO entries for generic device missing'')
    | Some k \<Rightarrow>
        if ld_hal st = None then Inl (LoadError ''HAL data for generic device missing'')
        else if ld_hal_dir st = HAL_DIR_UNSPECIFIED then Inl (LoadError ''HAL direction for generic device missing'')
        else
          (case Option.bind (cur_slave st) (\<lambda>s. store_at
              \<lparr>ei_index = pe_index c, ei_subindex = pe_subindex c, ei_bit_length = pe_bitLength c\<rparr>
              k (sl_generic_pdo_entries s)) of
             None \<Rightarrow> Inl OutOfBounds
           | Some es \<Rightarrow>
               store_pin (entry_pin c (ld_hal_dir st))
                 ((upd_cur_slave (sl_generic_pdo_entries_update (\<lambda>_. es)) st)
                    \<lparr>ld_pdo_entries := Some (Suc k), ld_pe := Some c\<rparr>)))"

definition complex_pin :: "conf_complexentry \<Rightarrow> conf_pdoentry \<Rightarrow> hal_pin_dir \<Rightarrow> generic_pin" where
  "complex_pin c e d =
     \<lparr>gp_name = conf_strncpy (ce_halPin c), gp_type = ce_halType c, gp_subType = ce_subType c,
      gp_floatScale = ce_floatScale c, gp_floatOffset = ce_floatOffset c, gp_bitOffset = ce_bitOffset c,
      gp_bitLength = ce_bitLength c, gp_dir = d, gp_pdo_idx = pe_index e, gp_pdo_sidx = pe_subindex e,
      gp_pin = [], gp_pdo_os = 0, gp_pdo_bp = 0\<rparr>"

definition load_complexentry :: "conf_complexentry \<Rightarrow> load_state \<Rightarrow> load_fail + load_state" where
  "load_complexentry c st = (case ld_pe st of
      None \<Rightarrow> Inl (LoadError ''pdoEntry for generic device missing'')
    | Some e \<Rightarrow> store_pin (complex_pin c e (ld_hal_dir st)) st)"

section \<open>SDO, IDN and module parameters\<close>

text \<open>
  Entries are packed behind each other. After an SDO entry the index of the next one is set
  to the end mark, two more bytes; the IDN area relies on its zeroed rest.
\<close>

definition load_sdo :: "conf_sdoconf \<Rightarrow> u8 list \<Rightarrow> load_state \<Rightarrow> load_fail + load_state" where
  "load_sdo c bs st = (case ld_sdo st of
      None \<Rightarrow> Inl (LoadError ''sdo_config is NULL'')
    | Some (used, cap) \<Rightarrow>
        (let used' = used + sizeof_slave_sdoconf + length bs in
         if used' + 2 \<le> cap then
           Inr ((upd_cur_slave (\<lambda>s. s\<lparr>sl_sdo_config := Some ((case sl_sdo_config s of None \<Rightarrow> [] | Some es \<Rightarrow> es) @
                    [\<lparr>sc_index = sdo_index c, sc_subindex = sdo_subindex c, sc_data = bs\<rparr>])\<rparr>) st)
                 \<lparr>ld_sdo := Some (used', cap)\<rparr>)
         else Inl OutOfBounds))"

definition load_idn :: "conf_idnconf \<Rightarrow> u8 list \<Rightarrow> load_state \<Rightarrow> load_fail + load_state" where
  "load_idn c bs st = (case ld_idn st of
      None \<Rightarrow> Inl (LoadError ''idn_config is NULL'')
    | Some (used, cap) \<Rightarrow>
        (let used' = used + sizeof_slave_idnconf + length bs in
         if used' \<le> cap then
           Inr ((upd_cur_slave (\<lambda>s. s\<lparr>sl_idn_config := Some ((case sl_idn_config s of None \<Rightarrow> [] | Some es \<Rightarrow> es) @
                    [\<lparr>ic_drive = idn_drive c, ic_idn = idn_idn c, ic_state = idn_state c, ic_data = bs\<rparr>])\<rparr>) st)
                 \<lparr>ld_idn := Some (used', cap)\<rparr>)
         else Inl OutOfBounds))"

definition load_modparam :: "conf_modparam \<Rightarrow> load_state \<Rightarrow> load_fail + load_state" where
  "load_modparam c st =
     (if cur_slave st = None then Inl (LoadError ''Slave node for modparam config missing'')
      else case ld_modparams st of
          None \<Rightarrow> Inl (LoadError ''modparams is null'')
        | Some k \<Rightarrow>
            (case Option.bind (cur_slave st) (\<lambda>s. store_at
                \<lparr>smp_id = cmp_id c, smp_name = cmp_name c, smp_value = cmp_value c\<rparr> k (sl_modparams s)) of
               None \<Rightarrow> Inl OutOfBounds
             | Some ps \<Rightarrow>
                 Inr ((upd_cur_slave (sl_modparams_update (\<lambda>_. ps)) st)\<lparr>ld_modparams := Some (Suc k)\<rparr>)))"

section \<open>The token loop\<close>

text \<open>
  The \<open>n\<close> bytes behind an SDO or IDN token, from the data blocks that follow. A block
  without bytes leaves no trace in memory.
\<close>

fun take_data :: "nat \<Rightarrow> conf_item list \<Rightarrow> (u8 list \<times> conf_item list) option" where
  "take_data n (ItData bs # rest) =
     (if length bs \<le> n then map_option (\<lambda>(ds, r). (bs @ ds, r)) (take_data (n - length bs) rest)
      else None)"
| "take_data n rest = (if n = 0 then Some ([], rest) else None)"

lemma take_data_length: "take_data n its = Some (bs, r) \<Longrightarrow> length r \<le> length its"
  by (induction n its arbitrary: bs r rule: take_data.induct) (fastforce split: if_splits)+

function load_items :: "registry \<Rightarrow> conf_item list \<Rightarrow> load_state \<Rightarrow> load_fail + load_state" where
  "load_items reg [] st = Inl Misaligned"
| "load_items reg (ItNull # rest) st = Inr st"
| "load_items reg (ItMaster c # rest) st = bind_res (load_master c st) (load_items reg rest)"
| "load_items reg (ItSlave c # rest) st = bind_res (load_slave reg c st) (load_items reg rest)"
| "load_items reg (ItDc c # rest) st = bind_res (load_dc c st) (load_items reg rest)"
| "load_items reg (ItWatchdog c # rest) st = bind_res (load_watchdog c st) (load_items reg rest)"
| "load_items reg (ItSyncManager c # rest) st = bind_res (load_syncmanager c st) (load_items reg rest)"
| "load_items reg (ItPdo c # rest) st = bind_res (load_pdo c st) (load_items reg rest)"
| "load_items reg (ItPdoEntry c # rest) st = bind_res (load_pdoentry c st) (load_items reg rest)"
| "load_items reg (ItComplexEntry c # rest) st = bind_res (load_complexentry c st) (load_items reg rest)"
| "load_items reg (ItModParam c # rest) st = bind_res (load_modparam c st) (load_items reg rest)"
| "load_items reg (ItSdo c # rest) st =
     (case take_data (sdo_length c) rest of None \<Rightarrow> Inl Misaligned
      | Some (bs, r) \<Rightarrow> bind_res (load_sdo c bs st) (load_items reg r))"
| "load_items reg (ItIdn c # rest) st =
     (case take_data (idn_length c) rest of None \<Rightarrow> Inl Misaligned
      | Some (bs, r) \<Rightarrow> bind_res (load_idn c bs st) (load_items reg r))"
| "load_items reg (ItData bs # rest) st = (if bs = [] then load_items reg rest st else Inl Misaligned)"
  by pat_completeness auto
termination
  by (relation "measure (\<lambda>(reg, its, st). length its)") (auto dest: take_data_length)

section \<open>Pre-initialisation and the whole function\<close>

text \<open>
  The two stages of pre-initialisation, per master: first the slaves that are not FSoE
  logic, then those that are. \<open>pre\<close> tells whether the driver's callback of a slave succeeds;
  the result is the list of calls made, or the calls up to the failing one.
\<close>

definition preinit_stage :: "bool \<Rightarrow> lcec_slave list \<Rightarrow> nat list" where
  "preinit_stage logic ss =
     filter (\<lambda>i. sl_is_fsoe_logic (ss ! i) = logic \<and> sl_proc_preinit (ss ! i) \<noteq> None) [0..<length ss]"

definition preinit_order :: "lcec_master list \<Rightarrow> (nat \<times> nat) list" where
  "preinit_order ms =
     concat (map (\<lambda>i. map (Pair i) (preinit_stage False (ma_slaves (ms ! i)) @ preinit_stage True (ma_slaves (ms ! i))))
       [0..<length ms])"

record load_env =
  le_types :: registry
  le_shmem_header :: bool
  le_map_header :: bool
  le_shmem_full :: bool
  le_map_full :: bool
  le_preinit :: "nat \<times> nat \<Rightarrow> bool"

text \<open>
  The whole function: \<open>Inl\<close> is the return value -1, with the masters the clean-up had to
  release in the error case behind the token loop.
\<close>

definition lcec_parse_config :: "load_env \<Rightarrow> conf_image \<Rightarrow> load_fail + (lcec_master list \<times> nat)" where
  "lcec_parse_config env im =
     (if \<not> le_shmem_header env then Inl (LoadError ''shmem'')
      else if \<not> le_map_header env then Inl (LoadError ''shmem map'')
      else if im_magic im \<noteq> LCEC_CONF_SHMEM_MAGIC then Inl (LoadError ''lcec_conf is not loaded'')
      else if \<not> le_shmem_full env then Inl (LoadError ''shmem'')
      else if \<not> le_map_full env then Inl (LoadError ''shmem map'')
      else bind_res (load_items (le_types env) (map snd (im_blocks im)) load_init) (\<lambda>st.
        if list_all (le_preinit env) (preinit_order (ld_masters st))
        then Inr (ld_masters st, ld_slave_count st)
        else Inl (LoadError ''preinit'')))"

end
