(* ===== verification/ConfStream.thy ===== *)
theory ConfStream
  imports ConfLoad
begin

text \<open>
  What a well-formed token stream is: the agreement between the writer \<open>lcec_conf\<close> and the
  loader \<open>lcec_parse_config\<close>. It has two parts. The counts in a header token (slave, sync
  manager, PDO) are those of the tokens of its segment, which ends at the next token of the
  same or a higher rank. And the tokens come in an order in which the loader finds every
  pointer it needs set, with the announced number of data bytes behind an SDO or IDN token.
\<close>

section \<open>Segments and counts\<close>

fun level :: "conf_item \<Rightarrow> nat" where
  "level (ItMaster _) = 0"
| "level (ItSlave _) = 0"
| "level (ItSyncManager _) = 1"
| "level (ItPdo _) = 2"
| "level _ = 3"

fun seg_cnt :: "nat \<Rightarrow> (conf_item \<Rightarrow> nat) \<Rightarrow> conf_item list \<Rightarrow> nat" where
  "seg_cnt l f [] = 0"
| "seg_cnt l f (x # xs) = (if level x \<le> l then 0 else f x + seg_cnt l f xs)"

definition n_sm :: "conf_item \<Rightarrow> nat" where
  "n_sm x = (case x of ItSyncManager _ \<Rightarrow> 1 | _ \<Rightarrow> 0)"

definition n_pdo :: "conf_item \<Rightarrow> nat" where
  "n_pdo x = (case x of ItPdo _ \<Rightarrow> 1 | _ \<Rightarrow> 0)"

definition n_entry :: "conf_item \<Rightarrow> nat" where
  "n_entry x = (case x of ItPdoEntry _ \<Rightarrow> 1 | _ \<Rightarrow> 0)"

definition n_map :: "conf_item \<Rightarrow> nat" where
  "n_map x = (case x of ItPdoEntry e \<Rightarrow> of_bool (pe_halPin e \<noteq> [])
     | ItComplexEntry e \<Rightarrow> of_bool (ce_halPin e \<noteq> []) | _ \<Rightarrow> 0)"

definition n_sdo :: "conf_item \<Rightarrow> nat" where
  "n_sdo x = (case x of ItSdo p \<Rightarrow> sizeof_sdoconf + sdo_length p | _ \<Rightarrow> 0)"

definition n_idn :: "conf_item \<Rightarrow> nat" where
  "n_idn x = (case x of ItIdn p \<Rightarrow> sizeof_idnconf + idn_length p | _ \<Rightarrow> 0)"

definition n_mod :: "conf_item \<Rightarrow> nat" where
  "n_mod x = (case x of ItModParam _ \<Rightarrow> 1 | _ \<Rightarrow> 0)"

lemmas n_defs = n_sm_def n_pdo_def n_entry_def n_map_def n_sdo_def n_idn_def n_mod_def

definition slave_counts_ok :: "conf_slave \<Rightarrow> conf_item list \<Rightarrow> bool" where
  "slave_counts_ok s xs \<longleftrightarrow>
     cs_syncManagerCount s = seg_cnt 0 n_sm xs \<and> cs_pdoCount s = seg_cnt 0 n_pdo xs \<and>
     cs_pdoEntryCount s = seg_cnt 0 n_entry xs \<and> cs_pdoMappingCount s = seg_cnt 0 n_map xs \<and>
     cs_sdoConfigLength s = seg_cnt 0 n_sdo xs \<and> cs_idnConfigLength s = seg_cnt 0 n_idn xs \<and>
     cs_modParamCount s = seg_cnt 0 n_mod xs"

fun hdr_ok :: "conf_item \<Rightarrow> conf_item list \<Rightarrow> bool" where
  "hdr_ok (ItSlave s) xs = slave_counts_ok s xs"
| "hdr_ok (ItSyncManager m) xs = (csm_pdoCount m = seg_cnt 1 n_pdo xs)"
| "hdr_ok (ItPdo p) xs = (cp_pdoEntryCount p = seg_cnt 2 n_entry xs)"
| "hdr_ok _ xs = True"

fun stream_ok :: "conf_item list \<Rightarrow> bool" where
  "stream_ok [] = True"
| "stream_ok (x # xs) = (hdr_ok x xs \<and> stream_ok xs)"

lemma seg_cnt_open:
  "\<forall>x\<in>set xs. l < level x \<Longrightarrow> seg_cnt l f (xs @ ys) = seg_cnt l f xs + seg_cnt l f ys"
  by (induction xs) (auto simp: not_le)

lemma seg_cnt_closed: "level x \<le> l \<Longrightarrow> seg_cnt l f (xs @ x # r) = seg_cnt l f xs"
  by (induction xs) auto

lemma hdr_ok_closed: "level x \<le> level z \<Longrightarrow> hdr_ok z (xs @ x # r) = hdr_ok z xs"
  by (cases z) (simp_all add: slave_counts_ok_def seg_cnt_closed)

lemma stream_ok_split:
  "(\<And>z. z \<in> set xs \<Longrightarrow> level x \<le> level z) \<Longrightarrow> stream_ok (xs @ x # r) \<longleftrightarrow> stream_ok xs \<and> stream_ok (x # r)"
  by (induction xs) (auto simp: hdr_ok_closed)

lemma stream_ok_header: "level x = 0 \<Longrightarrow> stream_ok (xs @ x # r) \<longleftrightarrow> stream_ok xs \<and> stream_ok (x # r)"
  by (rule stream_ok_split) simp

text \<open>A token without a header's duties at the end of tokens that are all below it.\<close>

lemma stream_ok_snoc_leaf:
  "(\<And>z. z \<in> set xs \<Longrightarrow> level z = 3) \<Longrightarrow> level y = 3 \<Longrightarrow> stream_ok (xs @ [y])"
proof (induction xs)
  case Nil
  then show ?case by (cases y) simp_all
next
  case (Cons x xs)
  have "level x = 3" by (rule Cons.prems(1)) simp
  then have "hdr_ok x (xs @ [y])" by (cases x) simp_all
  with Cons show ?case by simp
qed

lemma stream_ok_leaves: "(\<And>z. z \<in> set xs \<Longrightarrow> level z = 3) \<Longrightarrow> stream_ok xs"
proof (induction xs)
  case (Cons x xs)
  have "level x = 3" by (rule Cons.prems) simp
  then have "hdr_ok x xs" by (cases x) simp_all
  with Cons show ?case by simp
qed simp

section \<open>Order\<close>

record ctx =
  cx_period :: "u32 option"
  cx_slave :: "bool option"
  cx_dir :: bool
  cx_pe :: bool
  cx_pend :: nat

definition ctx_init :: ctx where
  "ctx_init = \<lparr>cx_period = None, cx_slave = None, cx_dir = False, cx_pe = False, cx_pend = 0\<rparr>"

text \<open>A slave token the loader can take: its type is known and its cycle fits the master's.\<close>

definition slave_loadable :: "registry \<Rightarrow> u32 option \<Rightarrow> conf_slave \<Rightarrow> bool" where
  "slave_loadable reg period s \<longleftrightarrow>
     (cs_type_name s = ''generic'' \<or> lcec_findslavetype reg (cs_type_name s) \<noteq> None) \<and>
     (case period of None \<Rightarrow> False
      | Some p \<Rightarrow> p \<noteq> 0 \<and> cs_syncUnitCycle s \<noteq> 0 \<and> cs_syncUnitCycle s mod p = 0)"

fun ctx_token :: "registry \<Rightarrow> ctx \<Rightarrow> conf_item \<Rightarrow> ctx option" where
  "ctx_token reg c (ItMaster m) = Some (c\<lparr>cx_period := Some (cm_appTimePeriod m), cx_slave := None\<rparr>)"
| "ctx_token reg c (ItSlave s) =
     (if slave_loadable reg (cx_period c) s
      then Some (c\<lparr>cx_slave := Some (cs_type_name s = ''generic''), cx_dir := False, cx_pe := False\<rparr>) else None)"
| "ctx_token reg c (ItDc _) = (if cx_slave c \<noteq> None then Some c else None)"
| "ctx_token reg c (ItWatchdog _) = (if cx_slave c \<noteq> None then Some c else None)"
| "ctx_token reg c (ItModParam _) = (if cx_slave c \<noteq> None then Some c else None)"
| "ctx_token reg c (ItSyncManager m) =
     (if cx_slave c = Some True \<and> csm_dir m \<noteq> EC_DIR_INVALID then Some (c\<lparr>cx_dir := True\<rparr>) else None)"
| "ctx_token reg c (ItPdo _) = (if cx_slave c = Some True \<and> cx_dir c then Some c else None)"
| "ctx_token reg c (ItPdoEntry _) =
     (if cx_slave c = Some True \<and> cx_dir c then Some (c\<lparr>cx_pe := True\<rparr>) else None)"
| "ctx_token reg c (ItComplexEntry _) =
     (if cx_slave c = Some True \<and> cx_dir c \<and> cx_pe c then Some c else None)"
| "ctx_token reg c (ItSdo p) = (if cx_slave c \<noteq> None then Some (c\<lparr>cx_pend := sdo_length p\<rparr>) else None)"
| "ctx_token reg c (ItIdn p) = (if cx_slave c \<noteq> None then Some (c\<lparr>cx_pend := idn_length p\<rparr>) else None)"
| "ctx_token reg c (ItData bs) = None"
| "ctx_token reg c ItNull = None"

definition ctx_step :: "registry \<Rightarrow> ctx \<Rightarrow> conf_item \<Rightarrow> ctx option" where
  "ctx_step reg c x = (case x of
      ItData bs \<Rightarrow> if length bs \<le> cx_pend c then Some (c\<lparr>cx_pend := cx_pend c - length bs\<rparr>) else None
    | _ \<Rightarrow> if cx_pend c = 0 then ctx_token reg c x else None)"

fun ctx_run :: "registry \<Rightarrow> ctx \<Rightarrow> conf_item list \<Rightarrow> ctx option" where
  "ctx_run reg c [] = Some c"
| "ctx_run reg c (x # xs) = Option.bind (ctx_step reg c x) (\<lambda>c'. ctx_run reg c' xs)"

lemma ctx_run_append: "ctx_run reg c (xs @ ys) = Option.bind (ctx_run reg c xs) (\<lambda>c'. ctx_run reg c' ys)"
proof (induction xs arbitrary: c)
  case (Cons x xs)
  then show ?case by (cases "ctx_step reg c x") simp_all
qed simp

lemma ctx_run_snoc: "ctx_run reg c (xs @ [y]) = Option.bind (ctx_run reg c xs) (\<lambda>c'. ctx_step reg c' y)"
  by (simp add: ctx_run_append)

text \<open>Replacing a token by one the order does not distinguish from it.\<close>

lemma ctx_run_replace:
  assumes "\<And>c. ctx_step reg c x = ctx_step reg c y"
  shows "ctx_run reg c (xs @ x # r) = ctx_run reg c (xs @ y # r)"
  by (simp add: ctx_run_append assms)

lemma ctx_run_data:
  "ctx_run reg c (map ItData ds) =
     (if sum_list (map length ds) \<le> cx_pend c
      then Some (c\<lparr>cx_pend := cx_pend c - sum_list (map length ds)\<rparr>) else None)"
  by (induction ds arbitrary: c) (auto simp: ctx_step_def)

fun is_data :: "conf_item \<Rightarrow> bool" where
  "is_data (ItData _) = True"
| "is_data _ = False"

lemma ctx_step_token: "\<not> is_data x \<Longrightarrow> ctx_step reg c x = (if cx_pend c = 0 then ctx_token reg c x else None)"
  by (cases x) (simp_all add: ctx_step_def)

text \<open>The stream the writer hands over: well counted, well ordered, closed by the end mark.\<close>

definition valid_stream :: "registry \<Rightarrow> conf_item list \<Rightarrow> bool" where
  "valid_stream reg its \<longleftrightarrow>
     (\<exists>body c. its = body @ [ItNull] \<and> stream_ok body \<and> ctx_run reg ctx_init body = Some c \<and> cx_pend c = 0)"

section \<open>Sync Units\<close>

text \<open>
  The one thing the writer does not check: that slaves of a master which name the same Sync
  Unit give it the same cycle.
\<close>

fun units_agree :: "(string \<Rightarrow> u32 option) \<Rightarrow> conf_item list \<Rightarrow> bool" where
  "units_agree us [] = True"
| "units_agree us (ItMaster m # xs) = units_agree Map.empty xs"
| "units_agree us (ItSlave s # xs) =
     (let n = conf_strncpy (cs_syncUnit s) in
      case us n of None \<Rightarrow> units_agree (us(n \<mapsto> cs_syncUnitCycle s)) xs
      | Some cyc \<Rightarrow> cyc = cs_syncUnitCycle s \<and> units_agree us xs)"
| "units_agree us (_ # xs) = units_agree us xs"

end
