(* ===== verification/ConfSafety.thy ===== *)
theory ConfSafety
  imports ConfStream
begin

text \<open>
  The invariant of the configuration parser: in every state the XML machine can reach, the
  token stream built so far is well counted and well ordered, and every pointer the
  handlers of that state follow is set and points to a token of its type.
\<close>

section \<open>The stream under appending and updating\<close>

lemma seg_cnt_snoc0: "f y = 0 \<Longrightarrow> seg_cnt l f (xs @ [y]) = seg_cnt l f xs"
  by (induction xs) auto

lemma seg_cnt_snoc:
  "\<forall>x\<in>set xs. l < level x \<Longrightarrow> seg_cnt l f (xs @ [y]) = seg_cnt l f xs + (if level y \<le> l then 0 else f y)"
  by (simp add: seg_cnt_open)

lemma stream_ok_snoc_neutral:
  assumes "\<forall>x\<in>set xs. 0 < level x" and "level y = 3" and "n_entry y = 0"
  shows "stream_ok (xs @ [y]) \<longleftrightarrow> stream_ok xs"
  using assms
proof (induction xs)
  case Nil
  then show ?case by (cases y) simp_all
next
  case (Cons x xs)
  have "n_pdo y = 0" using assms(2) by (cases y) (simp_all add: n_pdo_def)
  with Cons have "hdr_ok x (xs @ [y]) = hdr_ok x xs" by (cases x) (simp_all add: seg_cnt_snoc0)
  with Cons show ?case by simp
qed

lemma slave_counts_snoc:
  assumes "\<forall>x\<in>set xs. 0 < level x" and "0 < level y"
  shows "slave_counts_ok s (xs @ [y]) \<longleftrightarrow>
     cs_syncManagerCount s = seg_cnt 0 n_sm xs + n_sm y \<and> cs_pdoCount s = seg_cnt 0 n_pdo xs + n_pdo y \<and>
     cs_pdoEntryCount s = seg_cnt 0 n_entry xs + n_entry y \<and>
     cs_pdoMappingCount s = seg_cnt 0 n_map xs + n_map y \<and>
     cs_sdoConfigLength s = seg_cnt 0 n_sdo xs + n_sdo y \<and>
     cs_idnConfigLength s = seg_cnt 0 n_idn xs + n_idn y \<and>
     cs_modParamCount s = seg_cnt 0 n_mod xs + n_mod y"
  using assms by (simp add: slave_counts_ok_def seg_cnt_snoc)

text \<open>The counts only look at what a token contributes, so a header update inside keeps them.\<close>

lemma seg_cnt_replace:
  "level x = level y \<Longrightarrow> f x = f y \<Longrightarrow> seg_cnt l f (xs @ x # r) = seg_cnt l f (xs @ y # r)"
  by (induction xs) auto

section \<open>Pointers\<close>

lemma upd_item_at: "upd_item f (Some (length A)) (A @ x # B) =
    (case f x of None \<Rightarrow> Inl NullDeref | Some y \<Rightarrow> Inr (A @ y # B))"
  by (simp add: upd_item_def split: option.split)

lemma upd_slave_at [simp]: "upd_slave f (Some (length A)) (A @ ItSlave s # B) = Inr (A @ ItSlave (f s) # B)"
  by (simp add: upd_slave_def upd_item_at)

lemma upd_syncmanager_at:
  "its = X @ ItSyncManager m # R \<Longrightarrow> k = length X \<Longrightarrow>
   upd_syncmanager f (Some k) its = Inr (X @ ItSyncManager (f m) # R)"
  by (simp add: upd_syncmanager_def upd_item_at)

lemma upd_pdo_at:
  "its = X @ ItPdo m # R \<Longrightarrow> k = length X \<Longrightarrow> upd_pdo f (Some k) its = Inr (X @ ItPdo (f m) # R)"
  by (simp add: upd_pdo_def upd_item_at)

lemma upd_sdo_at:
  "its = X @ ItSdo m # R \<Longrightarrow> k = length X \<Longrightarrow> upd_sdo f (Some k) its = Inr (X @ ItSdo (f m) # R)"
  by (simp add: upd_sdo_def upd_item_at)

lemma upd_idn_at:
  "its = X @ ItIdn m # R \<Longrightarrow> k = length X \<Longrightarrow> upd_idn f (Some k) its = Inr (X @ ItIdn (f m) # R)"
  by (simp add: upd_idn_def upd_item_at)

lemma get_slave_at [simp]: "get_slave (A @ ItSlave s # B) (Some (length A)) = Inr s"
  by (simp add: get_slave_def)

section \<open>The invariant\<close>

definition slave_at :: "conf_state \<Rightarrow> conf_item list \<Rightarrow> conf_slave \<Rightarrow> conf_item list \<Rightarrow> bool" where
  "slave_at st A s B \<longleftrightarrow>
     cf_items st = A @ ItSlave s # B \<and> cf_currSlave st = Some (length A) \<and> (\<forall>x\<in>set B. 0 < level x)"

definition base_inv :: "registry \<Rightarrow> conf_state \<Rightarrow> ctx \<Rightarrow> bool" where
  "base_inv reg st c \<longleftrightarrow>
     ctx_run reg ctx_init (cf_items st) = Some c \<and> cx_pend c = 0 \<and> stream_ok (cf_items st)"

definition master_inv :: "conf_state \<Rightarrow> ctx \<Rightarrow> bool" where
  "master_inv st c \<longleftrightarrow>
     (\<exists>m. get_master (cf_items st) (cf_currMaster st) = Inr m \<and> cx_period c = Some (cm_appTimePeriod m))"

definition slave_inv :: "conf_state \<Rightarrow> ctx \<Rightarrow> bool" where
  "slave_inv st c \<longleftrightarrow>
     (\<exists>A s B. slave_at st A s B \<and> cx_slave c = Some (cs_type_name s = ''generic'')) \<and>
     cf_currSlaveType st \<noteq> None"

definition sm_inv :: "conf_state \<Rightarrow> ctx \<Rightarrow> bool" where
  "sm_inv st c \<longleftrightarrow>
     (\<exists>A s B m C. slave_at st A s (B @ ItSyncManager m # C) \<and>
        cf_currSyncManager st = Some (length (A @ ItSlave s # B)) \<and> (\<forall>x\<in>set C. 1 < level x)) \<and>
     cx_slave c = Some True \<and> cx_dir c"

definition pdo_inv :: "conf_state \<Rightarrow> ctx \<Rightarrow> bool" where
  "pdo_inv st c \<longleftrightarrow>
     (\<exists>A s B m C p D. slave_at st A s (B @ ItSyncManager m # C @ ItPdo p # D) \<and>
        cf_currSyncManager st = Some (length (A @ ItSlave s # B)) \<and> (\<forall>x\<in>set C. 1 < level x) \<and>
        cf_currPdo st = Some (length (A @ ItSlave s # B @ ItSyncManager m # C)) \<and> (\<forall>x\<in>set D. 2 < level x)) \<and>
     cx_slave c = Some True \<and> cx_dir c"

definition entry_inv :: "conf_state \<Rightarrow> ctx \<Rightarrow> bool" where
  "entry_inv st c \<longleftrightarrow>
     (\<exists>e. get_pdoentry (cf_items st) (cf_currPdoEntry st) = Inr e \<and>
        uint (cf_currComplexBitOffset st) \<le> uint (pe_bitLength e)) \<and> cx_pe c"

definition sdo_inv :: "conf_state \<Rightarrow> bool" where
  "sdo_inv st \<longleftrightarrow>
     (\<exists>A s B p ds. slave_at st A s (B @ ItSdo p # map ItData ds) \<and>
        cf_currSdoConf st = Some (length (A @ ItSlave s # B)))"

text \<open>
  The parts that hold in a state, by the enumeration's order: everything but the first two
  states is inside a master, everything but the first three inside a slave. The two IDN
  states are never entered.
\<close>

definition in_st :: "conf_state \<Rightarrow> conf_type set \<Rightarrow> bool" where
  "in_st st S \<longleftrightarrow> (\<exists>t\<in>S. xi_state st = conf_type_num t)"

definition conf_inv :: "registry \<Rightarrow> conf_state \<Rightarrow> bool" where
  "conf_inv reg st \<longleftrightarrow>
     (\<exists>c. base_inv reg st c \<and>
        (in_st st {lcecConfTypeMaster..} \<longrightarrow> master_inv st c) \<and>
        (in_st st {lcecConfTypeSlave..} \<longrightarrow> slave_inv st c) \<and>
        (in_st st {lcecConfTypeSyncManager, lcecConfTypePdo, lcecConfTypePdoEntry, lcecConfTypeComplexEntry} \<longrightarrow> sm_inv st c) \<and>
        (in_st st {lcecConfTypePdo, lcecConfTypePdoEntry, lcecConfTypeComplexEntry} \<longrightarrow> pdo_inv st c) \<and>
        (in_st st {lcecConfTypePdoEntry, lcecConfTypeComplexEntry} \<longrightarrow> entry_inv st c) \<and>
        (in_st st {lcecConfTypeSdoConfig, lcecConfTypeSdoDataRaw} \<longrightarrow> sdo_inv st) \<and>
        \<not> in_st st {lcecConfTypeIdnConfig, lcecConfTypeIdnDataRaw})"

text \<open>
  The invariant with the parser state as an explicit argument, the form in which a handler
  is checked: it runs in one state and the machine then moves to another.
\<close>

definition inv_at :: "registry \<Rightarrow> conf_type \<Rightarrow> conf_state \<Rightarrow> ctx \<Rightarrow> bool" where
  "inv_at reg t st c \<longleftrightarrow>
     base_inv reg st c \<and>
     (lcecConfTypeMaster \<le> t \<longrightarrow> master_inv st c) \<and>
     (lcecConfTypeSlave \<le> t \<longrightarrow> slave_inv st c) \<and>
     (t \<in> {lcecConfTypeSyncManager, lcecConfTypePdo, lcecConfTypePdoEntry, lcecConfTypeComplexEntry} \<longrightarrow> sm_inv st c) \<and>
     (t \<in> {lcecConfTypePdo, lcecConfTypePdoEntry, lcecConfTypeComplexEntry} \<longrightarrow> pdo_inv st c) \<and>
     (t \<in> {lcecConfTypePdoEntry, lcecConfTypeComplexEntry} \<longrightarrow> entry_inv st c) \<and>
     (t \<in> {lcecConfTypeSdoConfig, lcecConfTypeSdoDataRaw} \<longrightarrow> sdo_inv st) \<and>
     t \<notin> {lcecConfTypeIdnConfig, lcecConfTypeIdnDataRaw}"

lemma conf_inv_at: "xi_state st = conf_type_num t \<Longrightarrow> conf_inv reg st \<longleftrightarrow> (\<exists>c. inv_at reg t st c)"
  by (auto simp: conf_inv_def inv_at_def in_st_def)

text \<open>The machine's own update of the state does not concern the parts.\<close>

lemma inv_at_state [simp]: "inv_at reg t (st\<lparr>xi_state := n\<rparr>) c = inv_at reg t st c"
  by (simp add: inv_at_def base_inv_def master_inv_def slave_inv_def sm_inv_def pdo_inv_def entry_inv_def
      sdo_inv_def slave_at_def)

lemma conf_inv_enter: "conf_inv reg (st\<lparr>xi_state := conf_type_num t\<rparr>) \<longleftrightarrow> (\<exists>c. inv_at reg t st c)"
  by (simp add: conf_inv_at [of _ t])

lemma conf_inv_init: "conf_inv reg conf_init_state"
proof -
  have "inv_at reg lcecConfTypeNone conf_init_state ctx_init"
    by (simp add: inv_at_def base_inv_def conf_init_state_def ctx_init_def less_eq_conf_type_def)
  then have "\<exists>c. inv_at reg lcecConfTypeNone conf_init_state c" ..
  then show ?thesis
    by (rule conf_inv_at [of conf_init_state lcecConfTypeNone reg, THEN iffD2, rotated])
      (simp add: conf_init_state_def)
qed

text \<open>
  Leaving an element: the state an element was entered from asks for no more than the
  element's own state, where the machine's table goes one rank up.
\<close>


definition parent_of :: "conf_type \<Rightarrow> conf_type" where
  "parent_of t = (case t of
      lcecConfTypeNone \<Rightarrow> lcecConfTypeNone | lcecConfTypeMasters \<Rightarrow> lcecConfTypeNone
    | lcecConfTypeMaster \<Rightarrow> lcecConfTypeMasters | lcecConfTypeSlave \<Rightarrow> lcecConfTypeMaster
    | lcecConfTypeSdoDataRaw \<Rightarrow> lcecConfTypeSdoConfig | lcecConfTypeIdnDataRaw \<Rightarrow> lcecConfTypeIdnConfig
    | lcecConfTypePdo \<Rightarrow> lcecConfTypeSyncManager | lcecConfTypePdoEntry \<Rightarrow> lcecConfTypePdo
    | lcecConfTypeComplexEntry \<Rightarrow> lcecConfTypePdoEntry | _ \<Rightarrow> lcecConfTypeSlave)"

lemma inv_at_parent: "inv_at reg t st c \<Longrightarrow> inv_at reg (parent_of t) st c"
  by (cases t) (simp_all add: inv_at_def parent_of_def less_eq_conf_type_def)

end
