(* ===== verification/ConfHandlers.thy ===== *)
theory ConfHandlers
  imports ConfSafety
begin

text \<open>
  Every start handler of \<open>lcec_conf.c\<close> keeps the parser invariant: run in a state where its
  element is allowed, it leaves the invariant of the state the element leads to.
\<close>

section \<open>Shared steps\<close>

lemma get_master_snoc: "get_master its p = Inr m \<Longrightarrow> get_master (its @ Z) p = Inr m"
  by (auto simp: get_master_def nth_append split: option.splits if_splits)

lemma get_pdoentry_keep:
  assumes "get_pdoentry (X @ x # Y) p = Inr e" and "\<And>k. x \<noteq> ItPdoEntry k"
  shows "get_pdoentry (X @ y # Y @ Z) p = Inr e"
  using assms by (auto simp: get_pdoentry_def nth_append nth_Cons' split: option.splits if_splits conf_item.splits)

lemma get_pdoentry_snoc [simp]: "get_pdoentry (its @ [ItPdoEntry e]) (Some (length its)) = Inr e"
  by (simp add: get_pdoentry_def)

lemma get_master_new [simp]: "get_master (its @ [ItMaster m]) (Some (length its)) = Inr m"
  by (simp add: get_master_def)

lemma add_item_InrD:
  "add_item env it st = Inr st' \<Longrightarrow>
   cf_items st' = cf_items st @ [it] \<and> st' = st\<lparr>cf_items := cf_items st @ [it], cf_len := cf_len st'\<rparr>"
  by (auto simp: add_item_def add_conf_item_eq split: if_splits)

lemma add_item_InrE:
  assumes "add_item env it st = Inr st'"
  obtains n where "st' = st\<lparr>cf_items := cf_items st @ [it], cf_len := n\<rparr>"
  using add_item_InrD [OF assms] by metis

text \<open>What the order check sees of a slave token, which the counters do not touch.\<close>

definition same_slave :: "conf_slave \<Rightarrow> conf_slave \<Rightarrow> bool" where
  "same_slave s s' \<longleftrightarrow> cs_type_name s' = cs_type_name s \<and> cs_syncUnitCycle s' = cs_syncUnitCycle s"

lemma same_slave_simps [simp]:
  "same_slave s (cs_syncManagerCount_update f s)" "same_slave s (cs_pdoCount_update f s)"
  "same_slave s (cs_sdoConfigLength_update f s)" "same_slave s (cs_idnConfigLength_update f s)"
  "same_slave s (cs_modParamCount_update f s)" "same_slave s (slave_add_pdoentry b s)"
  "same_slave s (slave_add_mapping b s)" "same_slave s s"
  by (simp_all add: same_slave_def slave_add_pdoentry_def slave_add_mapping_def)

lemma ctx_step_same_slave: "same_slave s s' \<Longrightarrow> ctx_step reg c (ItSlave s) = ctx_step reg c (ItSlave s')"
  by (simp add: ctx_step_def slave_loadable_def same_slave_def del: mod_0_imp_dvd cong: option.case_cong)

text \<open>The slave's part of a stream, replaced as a whole.\<close>

lemma base_inv_slaveD:
  "base_inv reg st c \<Longrightarrow> cf_items st = A @ ItSlave s # B \<Longrightarrow> slave_counts_ok s B \<and> stream_ok B"
  by (simp add: base_inv_def stream_ok_header)

lemma base_inv_slaveI:
  assumes "base_inv reg st c" and "cf_items st = A @ ItSlave s # B"
    and "cf_items st' = A @ ItSlave s' # B'" and "same_slave s s'"
    and "slave_counts_ok s' B'" and "stream_ok B'" and "cx_pend c' = 0"
    and "\<And>c1. ctx_run reg c1 B = Some c \<Longrightarrow> ctx_run reg c1 B' = Some c'"
  shows "base_inv reg st' c'"
proof -
  have run: "ctx_run reg ctx_init (A @ ItSlave s' # B) = Some c"
    using assms(1,2) ctx_run_replace [OF ctx_step_same_slave [OF assms(4)], of reg ctx_init A B]
    by (simp add: base_inv_def)
  then have "ctx_run reg ctx_init (A @ ItSlave s' # B') = Some c'"
    using assms(8) by (auto simp: ctx_run_append Option.bind_eq_Some_conv)
  with assms show ?thesis by (simp add: base_inv_def stream_ok_header)
qed

section \<open>master and slave\<close>

lemma inv_at_Masters: "inv_at reg lcecConfTypeMasters st c \<longleftrightarrow> base_inv reg st c"
  by (simp add: inv_at_def less_eq_conf_type_def)

lemma inv_at_None: "inv_at reg lcecConfTypeNone st c \<longleftrightarrow> base_inv reg st c"
  by (simp add: inv_at_def less_eq_conf_type_def)

lemma inv_at_Master: "inv_at reg lcecConfTypeMaster st c \<longleftrightarrow> base_inv reg st c \<and> master_inv st c"
  by (simp add: inv_at_def less_eq_conf_type_def)

definition slave_leaf :: "conf_type \<Rightarrow> bool" where
  "slave_leaf t \<longleftrightarrow> t \<in> {lcecConfTypeSlave, lcecConfTypeDcConf, lcecConfTypeWatchdog, lcecConfTypeInitCmds, lcecConfTypeModParam}"

lemma inv_at_Slave:
  "slave_leaf t \<Longrightarrow> inv_at reg t st c \<longleftrightarrow> base_inv reg st c \<and> master_inv st c \<and> slave_inv st c"
  by (cases t) (simp_all add: inv_at_def less_eq_conf_type_def slave_leaf_def)

lemma slave_leaf_simps [simp]:
  "slave_leaf lcecConfTypeSlave" "slave_leaf lcecConfTypeDcConf" "slave_leaf lcecConfTypeWatchdog"
  "slave_leaf lcecConfTypeInitCmds" "slave_leaf lcecConfTypeModParam"
  by (simp_all add: slave_leaf_def)

lemma inv_at_SyncManager:
  "inv_at reg lcecConfTypeSyncManager st c \<longleftrightarrow>
   base_inv reg st c \<and> master_inv st c \<and> slave_inv st c \<and> sm_inv st c"
  by (simp add: inv_at_def less_eq_conf_type_def)

lemma inv_at_Pdo:
  "inv_at reg lcecConfTypePdo st c \<longleftrightarrow>
   base_inv reg st c \<and> master_inv st c \<and> slave_inv st c \<and> sm_inv st c \<and> pdo_inv st c"
  by (simp add: inv_at_def less_eq_conf_type_def)

lemma inv_at_Entry:
  "t \<in> {lcecConfTypePdoEntry, lcecConfTypeComplexEntry} \<Longrightarrow> inv_at reg t st c \<longleftrightarrow>
   base_inv reg st c \<and> master_inv st c \<and> slave_inv st c \<and> sm_inv st c \<and> pdo_inv st c \<and> entry_inv st c"
  by (cases t) (simp_all add: inv_at_def less_eq_conf_type_def)

lemma inv_at_Sdo:
  "t \<in> {lcecConfTypeSdoConfig, lcecConfTypeSdoDataRaw} \<Longrightarrow> inv_at reg t st c \<longleftrightarrow>
   base_inv reg st c \<and> master_inv st c \<and> slave_inv st c \<and> sdo_inv st"
  by (cases t) (simp_all add: inv_at_def less_eq_conf_type_def)

lemma stream_ok_snoc_header0: "level y = 0 \<Longrightarrow> stream_ok (xs @ [y]) \<longleftrightarrow> stream_ok xs \<and> hdr_ok y []"
  by (simp add: stream_ok_header)

lemma parseMasterAttrs_inv:
  assumes "inv_at reg lcecConfTypeMasters st c" and "parseMasterAttrs env ats st = Inr st'"
  shows "\<exists>c'. inv_at reg lcecConfTypeMaster st' c'"
proof -
  from assms(2) obtain m n where st': "st' = st\<lparr>cf_items := cf_items st @ [ItMaster m], cf_len := n,
      cf_master_count := cf_master_count st + 1, cf_currMaster := Some (length (cf_items st))\<rparr>"
    by (auto simp: parseMasterAttrs_def elim!: add_item_InrE)
  from assms(1) have b: "base_inv reg st c" by (simp add: inv_at_Masters)
  have "inv_at reg lcecConfTypeMaster st' (c\<lparr>cx_period := Some (cm_appTimePeriod m), cx_slave := None\<rparr>)"
    using b by (simp add: inv_at_Master base_inv_def master_inv_def st' ctx_run_snoc ctx_step_def stream_ok_snoc_header0)
  then show ?thesis ..
qed

text \<open>
  The two passes over a slave's attributes agree: the type the first pass looked up last is
  the one the token names, provided no registered name is longer than the token's field.
\<close>

definition short_names :: "registry \<Rightarrow> bool" where
  "short_names reg \<longleftrightarrow> (\<forall>ty\<in>set reg. length (ty_name ty) < LCEC_CONF_STR_MAXLEN)"

lemma slave_type_passes:
  assumes "fold_res (slave_type_attr reg) ats acc = Inr ty" and "fold_res (slave_attr period) ats p = Inr p'"
    and "short_names reg" and "acc \<noteq> None \<longrightarrow> lcec_findslavetype reg (cs_type_name p) \<noteq> None"
  shows "ty \<noteq> None \<longrightarrow> lcec_findslavetype reg (cs_type_name p') \<noteq> None"
  using assms
proof (induction ats arbitrary: acc p)
  case (Cons a ats)
  obtain n v where a: "a = (n, v)" by (cases a)
  from Cons.prems obtain acc1 p1 where 1: "slave_type_attr reg a acc = Inr acc1"
    "fold_res (slave_type_attr reg) ats acc1 = Inr ty" "slave_attr period a p = Inr p1"
    "fold_res (slave_attr period) ats p1 = Inr p'"
    by auto
  have "acc1 \<noteq> None \<longrightarrow> lcec_findslavetype reg (cs_type_name p1) \<noteq> None"
  proof (cases "n = ''type''")
    case True
    then obtain t where t: "lcec_findslavetype reg v = Some t"
      using 1(1) by (auto simp: a slave_type_attr_def split: option.splits)
    with Cons.prems(3) have "length v < LCEC_CONF_STR_MAXLEN"
      using lcec_findslavetype_name [OF t] by (auto simp: short_names_def)
    then have "conf_strncpy v = v" by (simp add: conf_strncpy_short)
    with 1(3) True t show ?thesis by (simp add: a slave_attr_def) auto
  next
    case False
    then have "acc1 = acc" and "cs_type_name p1 = cs_type_name p"
      using 1(1,3) by (auto simp: a slave_type_attr_def slave_attr_def Let_def split: if_splits)
    with Cons.prems(4) show ?thesis by simp
  qed
  with Cons.IH [OF 1(2,4) Cons.prems(3)] show ?case by simp
qed simp

definition no_counts :: "conf_slave \<Rightarrow> bool" where
  "no_counts s \<longleftrightarrow> slave_counts_ok s []"

lemma slave_attr_no_counts:
  "fold_res (slave_attr period) ats p = Inr p' \<Longrightarrow> no_counts p \<Longrightarrow> no_counts p'"
  by (erule fold_res_invariant)
    (auto simp: slave_attr_def no_counts_def slave_counts_ok_def Let_def split: if_splits)

lemma slave_default_name_simps [simp]:
  "cs_type_name (slave_default_name p) = cs_type_name p"
  "cs_syncUnitCycle (slave_default_name p) = cs_syncUnitCycle p"
  "slave_counts_ok (slave_default_name p) xs = slave_counts_ok p xs"
  by (simp_all add: slave_default_name_def slave_counts_ok_def)

lemma parseSlaveAttrs_inv:
  assumes "inv_at (ev_types env) lcecConfTypeMaster st c" and "parseSlaveAttrs env ats st = Inr st'"
    and "short_names (ev_types env)"
  shows "\<exists>c'. inv_at (ev_types env) lcecConfTypeSlave st' c'"
proof -
  let ?reg = "ev_types env"
  from assms(1) obtain m where b: "base_inv ?reg st c" and m: "get_master (cf_items st) (cf_currMaster st) = Inr m"
    and per: "cx_period c = Some (cm_appTimePeriod m)"
    by (auto simp: inv_at_Master master_inv_def)
  from assms(2) m obtain ty p t n where ty: "fold_res (slave_type_attr ?reg) ats None = Inr ty"
    and p: "fold_res (slave_attr (cm_appTimePeriod m)) ats (new_slave (cm_appTimePeriod m)) = Inr p"
    and chk: "slave_check (cm_appTimePeriod m) ty p = Inr t"
    and st': "st' = st\<lparr>cf_items := cf_items st @ [ItSlave (slave_default_name p)], cf_len := n,
      cf_slave_count := cf_slave_count st + 1, cf_currSlaveType := Some t, cf_currSlave := Some (length (cf_items st))\<rparr>"
    unfolding parseSlaveAttrs_def by (auto elim!: add_item_InrE)
  let ?s = "slave_default_name p"
  from chk have "ty \<noteq> None" and cyc: "cs_syncUnitCycle p \<noteq> 0" "cm_appTimePeriod m \<noteq> 0"
    "cs_syncUnitCycle p mod cm_appTimePeriod m = 0"
    by (auto simp: slave_check_def split: if_splits option.splits simp del: mod_0_imp_dvd)
  then have "lcec_findslavetype ?reg (cs_type_name p) \<noteq> None"
    using slave_type_passes [OF ty p assms(3)] by simp
  then have load: "slave_loadable ?reg (cx_period c) ?s"
    using cyc by (simp add: slave_loadable_def per)
  have nc: "slave_counts_ok p []"
    using slave_attr_no_counts [OF p] by (simp add: no_counts_def slave_counts_ok_def new_slave_def)
  let ?c = "c\<lparr>cx_slave := Some (cs_type_name p = ''generic''), cx_dir := False, cx_pe := False\<rparr>"
  have "base_inv ?reg st' ?c"
    using b load nc by (simp add: base_inv_def st' ctx_run_snoc ctx_step_def stream_ok_snoc_header0)
  moreover have "master_inv st' ?c"
    using m per by (simp add: master_inv_def st' get_master_snoc)
  moreover have "slave_inv st' ?c"
    unfolding slave_inv_def by (intro conjI exI [of _ "cf_items st"] exI [of _ ?s] exI [of _ "[]"])
      (simp_all add: st' slave_at_def)
  ultimately have "inv_at ?reg lcecConfTypeSlave st' ?c" by (simp add: inv_at_Slave)
  then show ?thesis ..
qed

section \<open>Tokens inside a slave\<close>

lemma slave_at_unique:
  "slave_at st A s B \<Longrightarrow> slave_at st A' s' B' \<Longrightarrow> A = A' \<and> s = s' \<and> B = B'"
  by (auto simp: slave_at_def append_eq_append_conv)

lemma get_master_before:
  assumes "get_master (A @ ItSlave s # B) p = Inr m" and "\<forall>x\<in>set B. 0 < level x"
  shows "get_master A p = Inr m"
proof -
  obtain k where p: "p = Some k" "k < length (A @ ItSlave s # B)" "(A @ ItSlave s # B) ! k = ItMaster m"
    using assms(1) by (auto simp: get_master_def split: option.splits if_splits conf_item.splits)
  have "k < length A"
  proof (rule ccontr)
    assume "\<not> k < length A"
    with p have "B ! (k - Suc (length A)) = ItMaster m" and "k - Suc (length A) < length B"
      by (auto simp: nth_append nth_Cons' split: if_splits)
    then have "ItMaster m \<in> set B" by (metis nth_mem)
    with assms(2) show False by force
  qed
  with p show ?thesis by (simp add: get_master_def nth_append)
qed

text \<open>
  The common shape of every handler below a slave: the slave's counters and its part of the
  stream change, everything before stays.
\<close>

lemma slave_part_inv:
  assumes "base_inv reg st c" and "master_inv st c" and "slave_inv st c" and "slave_at st A s B"
    and "cf_items st' = A @ ItSlave s' # B'" and "\<forall>x\<in>set B'. 0 < level x"
    and "cf_currMaster st' = cf_currMaster st" and "cf_currSlave st' = cf_currSlave st"
    and "cf_currSlaveType st' = cf_currSlaveType st"
    and "same_slave s s'" and "slave_counts_ok s' B'" and "stream_ok B'"
    and "\<And>c1. ctx_run reg c1 B = Some c \<Longrightarrow> ctx_run reg c1 B' = Some c'"
    and "cx_pend c' = 0" and "cx_period c' = cx_period c" and "cx_slave c' = cx_slave c"
  shows "base_inv reg st' c' \<and> master_inv st' c' \<and> slave_inv st' c' \<and> slave_at st' A s' B'"
proof (intro conjI)
  have it: "cf_items st = A @ ItSlave s # B" and lv: "\<forall>x\<in>set B. 0 < level x"
    and cur: "cf_currSlave st = Some (length A)"
    using assms(4) by (simp_all add: slave_at_def)
  show "base_inv reg st' c'"
    by (rule base_inv_slaveI [OF assms(1) it assms(5,10,11,12,14,13)])
  from assms(2) obtain m where "get_master (cf_items st) (cf_currMaster st) = Inr m"
    and "cx_period c = Some (cm_appTimePeriod m)"
    by (auto simp: master_inv_def)
  note m = this
  have "get_master (A @ ItSlave s # B) (cf_currMaster st) = Inr m" using m(1) by (simp only: it)
  from get_master_snoc [OF get_master_before [OF this lv]]
  have "get_master (cf_items st') (cf_currMaster st') = Inr m" by (simp only: assms(5,7))
  with m(2) assms(15) show "master_inv st' c'" unfolding master_inv_def by auto
  show sa: "slave_at st' A s' B'"
    using assms(5,6,8) cur by (simp add: slave_at_def)
  obtain A0 s0 B0 where s0: "slave_at st A0 s0 B0" "cx_slave c = Some (cs_type_name s0 = ''generic'')"
    and ty: "cf_currSlaveType st \<noteq> None"
    using assms(3) by (auto simp: slave_inv_def)
  have "s0 = s" using slave_at_unique [OF s0(1) assms(4)] by simp
  then have "cx_slave c = Some (cs_type_name s = ''generic'')" using s0(2) by simp
  then have "cx_slave c' = Some (cs_type_name s' = ''generic'')"
    using assms(10,16) by (simp add: same_slave_def)
  with sa ty show "slave_inv st' c'" using assms(9) unfolding slave_inv_def by auto
qed

text \<open>A token of the lowest rank directly below the slave.\<close>

lemma slave_leaf_inv:
  assumes "base_inv reg st c" and "master_inv st c" and "slave_inv st c" and "slave_at st A s B"
    and "cf_items st' = A @ ItSlave s' # B @ [y]" and "level y = 3" and "n_entry y = 0"
    and "cf_currMaster st' = cf_currMaster st" and "cf_currSlave st' = cf_currSlave st"
    and "cf_currSlaveType st' = cf_currSlaveType st"
    and "same_slave s s'" and "slave_counts_ok s B \<Longrightarrow> slave_counts_ok s' (B @ [y])"
    and "\<not> is_data y" and "ctx_token reg c y = Some c" 
  shows "base_inv reg st' c \<and> master_inv st' c \<and> slave_inv st' c \<and> slave_at st' A s' (B @ [y])"
proof (rule slave_part_inv [OF assms(1-5) _ assms(8-11)])
  have it: "cf_items st = A @ ItSlave s # B" and lv: "\<forall>x\<in>set B. 0 < level x"
    using assms(4) by (simp_all add: slave_at_def)
  then show "\<forall>x\<in>set (B @ [y]). 0 < level x" using assms(6) by simp
  from base_inv_slaveD [OF assms(1) it] have ok: "slave_counts_ok s B" "stream_ok B" by auto
  then show "slave_counts_ok s' (B @ [y])" using assms(12) by simp
  show "stream_ok (B @ [y])" using stream_ok_snoc_neutral [OF lv assms(6,7)] ok by simp
  show pend: "cx_pend c = 0" using assms(1) by (simp add: base_inv_def)
  show "ctx_run reg c1 B = Some c \<Longrightarrow> ctx_run reg c1 (B @ [y]) = Some c" for c1
    using pend assms(13,14) by (simp add: ctx_run_snoc ctx_step_token)
qed simp_all

lemma inv_at_SlaveE:
  assumes "inv_at reg lcecConfTypeSlave st c"
  obtains A s B where "base_inv reg st c" and "master_inv st c" and "slave_inv st c"
    and "slave_at st A s B" and "cx_slave c = Some (cs_type_name s = ''generic'')"
    and "cf_items st = A @ ItSlave s # B" and "cf_currSlave st = Some (length A)"
    and "\<forall>x\<in>set B. 0 < level x"
proof -
  have i: "base_inv reg st c" "master_inv st c" "slave_inv st c" using assms by (simp_all add: inv_at_Slave)
  obtain A s B where "slave_at st A s B" and "cx_slave c = Some (cs_type_name s = ''generic'')"
    using i(3) by (auto simp: slave_inv_def)
  with i that show thesis by (auto simp: slave_at_def)
qed

lemma slave_counts_leaf:
  assumes "slave_counts_ok s B" and "\<forall>x\<in>set B. 0 < level x" and "0 < level y"
    and "n_sm y = 0" and "n_pdo y = 0" and "n_entry y = 0" and "n_map y = 0"
    and "n_sdo y = 0" and "n_idn y = 0" and "n_mod y = 0"
  shows "slave_counts_ok s (B @ [y])"
  using assms by (simp add: slave_counts_snoc) (simp add: slave_counts_ok_def)

lemma parseDcConfAttrs_inv:
  assumes "inv_at reg lcecConfTypeSlave st c" and "parseDcConfAttrs env ats st = Inr st'"
  shows "\<exists>c'. inv_at reg lcecConfTypeDcConf st' c'"
proof -
  obtain A s B where i: "base_inv reg st c" "master_inv st c" "slave_inv st c"
    and sa: "slave_at st A s B" "cx_slave c = Some (cs_type_name s = ''generic'')"
    "cf_items st = A @ ItSlave s # B" "cf_currSlave st = Some (length A)" "\<forall>x\<in>set B. 0 < level x"
    using assms(1) by (rule inv_at_SlaveE)
  obtain p where "add_item env (ItDc p) st = Inr st'"
    using assms(2) by (auto simp: parseDcConfAttrs_def)
  then obtain n where st': "st' = st\<lparr>cf_items := cf_items st @ [ItDc p], cf_len := n\<rparr>" by (rule add_item_InrE)
  have "base_inv reg st' c \<and> master_inv st' c \<and> slave_inv st' c \<and> slave_at st' A s (B @ [ItDc p])"
    by (rule slave_leaf_inv [OF i sa(1)]) (simp_all add: st' sa n_defs slave_counts_leaf)
  then show ?thesis by (auto simp: inv_at_Slave)
qed

lemma parseWatchdogAttrs_inv:
  assumes "inv_at reg lcecConfTypeSlave st c" and "parseWatchdogAttrs env ats st = Inr st'"
  shows "\<exists>c'. inv_at reg lcecConfTypeWatchdog st' c'"
proof -
  obtain A s B where i: "base_inv reg st c" "master_inv st c" "slave_inv st c"
    and sa: "slave_at st A s B" "cx_slave c = Some (cs_type_name s = ''generic'')"
    "cf_items st = A @ ItSlave s # B" "cf_currSlave st = Some (length A)" "\<forall>x\<in>set B. 0 < level x"
    using assms(1) by (rule inv_at_SlaveE)
  obtain p where "add_item env (ItWatchdog p) st = Inr st'"
    using assms(2) by (auto simp: parseWatchdogAttrs_def)
  then obtain n where st': "st' = st\<lparr>cf_items := cf_items st @ [ItWatchdog p], cf_len := n\<rparr>" by (rule add_item_InrE)
  have "base_inv reg st' c \<and> master_inv st' c \<and> slave_inv st' c \<and> slave_at st' A s (B @ [ItWatchdog p])"
    by (rule slave_leaf_inv [OF i sa(1)]) (simp_all add: st' sa n_defs slave_counts_leaf)
  then show ?thesis by (auto simp: inv_at_Slave)
qed

text \<open>Handlers that add one token and then update the slave.\<close>

lemma conf_upd_slave_at:
  "cf_items st = A @ ItSlave s # B \<Longrightarrow> cf_currSlave st = Some (length A) \<Longrightarrow>
   conf_upd_slave f st = Inr (st\<lparr>cf_items := A @ ItSlave (f s) # B\<rparr>)"
  by (simp add: conf_upd_slave_def)

lemma add_then_slave:
  assumes "add_item env y st = Inr st1" and "cf_items st = A @ ItSlave s # B" and "cf_currSlave st = Some (length A)"
  shows "conf_upd_slave f st1 = Inr (st1\<lparr>cf_items := A @ ItSlave (f s) # B @ [y]\<rparr>)"
  using assms by (auto elim!: add_item_InrE intro!: conf_upd_slave_at)

lemma parseModParamAttrs_inv:
  assumes "inv_at reg lcecConfTypeSlave st c" and "parseModParamAttrs env ats st = Inr st'"
  shows "\<exists>c'. inv_at reg lcecConfTypeModParam st' c'"
proof -
  obtain A s B where i: "base_inv reg st c" "master_inv st c" "slave_inv st c"
    and sa: "slave_at st A s B" "cx_slave c = Some (cs_type_name s = ''generic'')"
    "cf_items st = A @ ItSlave s # B" "cf_currSlave st = Some (length A)" "\<forall>x\<in>set B. 0 < level x"
    using assms(1) by (rule inv_at_SlaveE)
  obtain q st1 where q: "add_item env (ItModParam q) st = Inr st1"
    and st'0: "conf_upd_slave (cs_modParamCount_update Suc) st1 = Inr st'"
    using assms(2) by (auto simp: parseModParamAttrs_def split: option.splits)
  let ?s = "cs_modParamCount_update Suc s"
  obtain n where st1: "st1 = st\<lparr>cf_items := cf_items st @ [ItModParam q], cf_len := n\<rparr>"
    using q by (rule add_item_InrE)
  have st': "st' = st1\<lparr>cf_items := A @ ItSlave ?s # B @ [ItModParam q]\<rparr>"
    using st'0 add_then_slave [OF q sa(3,4), of "cs_modParamCount_update Suc"] by simp
  have "base_inv reg st' c \<and> master_inv st' c \<and> slave_inv st' c \<and> slave_at st' A ?s (B @ [ItModParam q])"
  proof (rule slave_leaf_inv [OF i sa(1)])
    assume "slave_counts_ok s B"
    then show "slave_counts_ok ?s (B @ [ItModParam q])"
      using sa(5) by (simp add: slave_counts_snoc n_defs) (simp add: slave_counts_ok_def n_defs)
  qed (simp_all add: st' st1 sa n_defs)
  then show ?thesis by (auto simp: inv_at_Slave)
qed

lemma parseSdoConfigAttrs_inv:
  assumes "inv_at reg lcecConfTypeSlave st c" and "parseSdoConfigAttrs env ats st = Inr st'"
  shows "\<exists>c'. inv_at reg lcecConfTypeSdoConfig st' c'"
proof -
  obtain A s B where i: "base_inv reg st c" "master_inv st c" "slave_inv st c"
    and sa: "slave_at st A s B" "cx_slave c = Some (cs_type_name s = ''generic'')"
    "cf_items st = A @ ItSlave s # B" "cf_currSlave st = Some (length A)" "\<forall>x\<in>set B. 0 < level x"
    using assms(1) by (rule inv_at_SlaveE)
  obtain q st1 where len: "sdo_length q = 0" and q: "add_item env (ItSdo q) st = Inr st1"
    and st'0: "conf_upd_slave (cs_sdoConfigLength_update (\<lambda>l. l + sizeof_sdoconf))
         (st1\<lparr>cf_currSdoConf := Some (length (cf_items st))\<rparr>) = Inr st'"
  proof -
    from assms(2) obtain q st1 where q: "fold_res sdo_attr ats \<lparr>sdo_index = 65535, sdo_subindex = 255, sdo_length = 0\<rparr> = Inr q"
      and st1: "add_item env (ItSdo q) st = Inr st1"
      and u: "conf_upd_slave (cs_sdoConfigLength_update (\<lambda>l. l + sizeof_sdoconf))
         (st1\<lparr>cf_currSdoConf := Some (length (cf_items st))\<rparr>) = Inr st'"
      by (auto simp: parseSdoConfigAttrs_def split: if_splits)
    have "sdo_length q = 0"
      by (rule fold_res_invariant [OF q]) (auto simp: sdo_attr_def Let_def split: if_splits)
    from that [OF this st1 u] show ?thesis .
  qed
  let ?s = "cs_sdoConfigLength_update (\<lambda>l. l + sizeof_sdoconf) s"
  obtain n where st1: "st1 = st\<lparr>cf_items := cf_items st @ [ItSdo q], cf_len := n\<rparr>"
    using q by (rule add_item_InrE)
  have st': "st' = st1\<lparr>cf_currSdoConf := Some (length (cf_items st)), cf_items := A @ ItSlave ?s # B @ [ItSdo q]\<rparr>"
    using st'0 by (simp add: st1 sa conf_upd_slave_def upd_slave_at [of _ A s "B @ [ItSdo q]", simplified])
  have pend: "cx_pend c = 0" using i(1) by (simp add: base_inv_def)
  have all: "base_inv reg st' c \<and> master_inv st' c \<and> slave_inv st' c \<and> slave_at st' A ?s (B @ [ItSdo q])"
  proof (rule slave_leaf_inv [OF i sa(1)])
    assume "slave_counts_ok s B"
    then show "slave_counts_ok ?s (B @ [ItSdo q])"
      using sa(5) by (simp add: slave_counts_snoc n_defs) (simp add: slave_counts_ok_def n_defs len)
  next
    show "ctx_token reg c (ItSdo q) = Some c" using sa(2) pend by (cases c) (simp add: len)
  qed (simp_all add: st' st1 sa n_defs)
  have "sdo_inv st'"
    unfolding sdo_inv_def
    by (rule exI [of _ A], rule exI [of _ ?s], rule exI [of _ B], rule exI [of _ q], rule exI [of _ "[]"])
      (use all in \<open>simp add: st' st1 sa\<close>)
  with all show ?thesis by (auto simp: inv_at_Sdo)
qed

text \<open>
  The handler of \<open>idnConfig\<close> never succeeds: the state attribute is compared with the name
  of the drive attribute, so the state it insists on is never set.
\<close>

lemma idn_attr_state: "idn_attr a p = Inr p' \<Longrightarrow> idn_state p' = idn_state p"
  by (auto simp: idn_attr_def Let_def split: if_splits prod.splits)

lemma parseIdnConfigAttrs_fails: "parseIdnConfigAttrs env ats st \<noteq> Inr st'"
proof
  assume "parseIdnConfigAttrs env ats st = Inr st'"
  then obtain p where p: "fold_res idn_attr ats
      \<lparr>idn_drive = 0, idn_idn = 65535, idn_state = EC_AL_STATE_NONE, idn_length = 0\<rparr> = Inr p"
    and "idn_state p \<noteq> EC_AL_STATE_NONE"
    by (auto simp: parseIdnConfigAttrs_def split: if_splits)
  moreover have "idn_state p = EC_AL_STATE_NONE"
    by (rule fold_res_invariant [OF p]) (auto simp: idn_attr_state)
  ultimately show False by simp
qed

section \<open>Sync managers, PDOs and entries\<close>

lemma level_3: "2 < level x \<Longrightarrow> level x = 3"
  by (cases x) simp_all

lemma ctx_step_same_sm: "ctx_step reg c (ItSyncManager (csm_pdoCount_update f m)) = ctx_step reg c (ItSyncManager m)"
  by (simp add: ctx_step_def)

lemma ctx_step_same_pdo: "ctx_step reg c (ItPdo p) = ctx_step reg c (ItPdo q)"
  by (simp add: ctx_step_def)

lemma parseSyncManagerAttrs_inv:
  assumes "inv_at reg lcecConfTypeSlave st c" and "parseSyncManagerAttrs env ats st = Inr st'"
  shows "\<exists>c'. inv_at reg lcecConfTypeSyncManager st' c'"
proof -
  obtain A s B where i: "base_inv reg st c" "master_inv st c" "slave_inv st c"
    and sa: "slave_at st A s B" "cx_slave c = Some (cs_type_name s = ''generic'')"
    "cf_items st = A @ ItSlave s # B" "cf_currSlave st = Some (length A)" "\<forall>x\<in>set B. 0 < level x"
    using assms(1) by (rule inv_at_SlaveE)
  obtain q st1 where gen: "cs_type_name s = ''generic''" and q: "csm_pdoCount q = 0" "csm_dir q \<noteq> EC_DIR_INVALID"
    "add_item env (ItSyncManager q) st = Inr st1"
    and st'0: "conf_upd_slave (cs_syncManagerCount_update Suc)
         (st1\<lparr>cf_currSyncManager := Some (length (cf_items st))\<rparr>) = Inr st'"
  proof -
    from assms(2) obtain q st1 where gen: "cs_type_name s = ''generic''"
      and q: "fold_res (syncmanager_attr (ev_max_sync_managers env)) ats
          \<lparr>csm_index = 255, csm_dir = EC_DIR_INVALID, csm_pdoCount = 0\<rparr> = Inr q" "csm_dir q \<noteq> EC_DIR_INVALID"
      and u: "add_item env (ItSyncManager q) st = Inr st1"
       "conf_upd_slave (cs_syncManagerCount_update Suc)
         (st1\<lparr>cf_currSyncManager := Some (length (cf_items st))\<rparr>) = Inr st'"
      by (auto simp: parseSyncManagerAttrs_def sa split: if_splits)
    have "csm_pdoCount q = 0"
      by (rule fold_res_invariant [OF q(1)]) (auto simp: syncmanager_attr_def Let_def split: if_splits)
    from that [OF gen this q(2) u] show ?thesis .
  qed
  let ?s = "cs_syncManagerCount_update Suc s"
  let ?c = "c\<lparr>cx_dir := True\<rparr>"
  obtain n where st1: "st1 = st\<lparr>cf_items := cf_items st @ [ItSyncManager q], cf_len := n\<rparr>"
    using q(3) by (rule add_item_InrE)
  have st': "st' = st1\<lparr>cf_currSyncManager := Some (length (cf_items st)), cf_items := A @ ItSlave ?s # B @ [ItSyncManager q]\<rparr>"
    using st'0 by (simp add: st1 sa conf_upd_slave_def upd_slave_at [of _ A s "B @ [ItSyncManager q]", simplified])
  have ok: "slave_counts_ok s B" "stream_ok B" using base_inv_slaveD [OF i(1) sa(3)] by auto
  have pend: "cx_pend c = 0" using i(1) by (simp add: base_inv_def)
  have all: "base_inv reg st' ?c \<and> master_inv st' ?c \<and> slave_inv st' ?c \<and> slave_at st' A ?s (B @ [ItSyncManager q])"
  proof (rule slave_part_inv [OF i sa(1)])
    show "slave_counts_ok ?s (B @ [ItSyncManager q])"
      using sa(5) ok(1) by (simp add: slave_counts_snoc n_defs) (simp add: slave_counts_ok_def n_defs)
    have "level (ItSyncManager q) \<le> level z" if "z \<in> set B" for z using sa(5) that by (auto simp: Suc_le_eq)
    then show "stream_ok (B @ [ItSyncManager q])" using ok(2) q(1) by (simp add: stream_ok_split)
    show "ctx_run reg c1 B = Some c \<Longrightarrow> ctx_run reg c1 (B @ [ItSyncManager q]) = Some ?c" for c1
      using pend sa(2) gen q(2) by (simp add: ctx_run_snoc ctx_step_token)
  qed (simp_all add: st' st1 sa pend)
  have "sm_inv st' ?c"
    unfolding sm_inv_def
    by (rule conjI, rule exI [of _ A], rule exI [of _ ?s], rule exI [of _ B], rule exI [of _ q], rule exI [of _ "[]"])
      (use all in \<open>simp_all add: st' st1 sa gen\<close>)
  with all have "inv_at reg lcecConfTypeSyncManager st' ?c" by (simp add: inv_at_SyncManager)
  then show ?thesis ..
qed

lemma parsePdoAttrs_inv:
  assumes "inv_at reg lcecConfTypeSyncManager st c" and "parsePdoAttrs env ats st = Inr st'"
  shows "\<exists>c'. inv_at reg lcecConfTypePdo st' c'"
proof -
  have i: "base_inv reg st c" "master_inv st c" "slave_inv st c" and sm: "sm_inv st c"
    using assms(1) by (simp_all add: inv_at_SyncManager)
  obtain A s B m C where sa: "slave_at st A s (B @ ItSyncManager m # C)"
    and cm: "cf_currSyncManager st = Some (length (A @ ItSlave s # B))" and C: "\<forall>x\<in>set C. 1 < level x"
    and gen: "cx_slave c = Some True" "cx_dir c"
    using sm by (auto simp: sm_inv_def)
  have it: "cf_items st = A @ ItSlave s # B @ ItSyncManager m # C" "cf_currSlave st = Some (length A)"
    and B: "\<forall>x\<in>set B. 0 < level x"
    using sa by (simp_all add: slave_at_def)
  obtain q st1 where q: "cp_pdoEntryCount q = 0" "add_item env (ItPdo q) st = Inr st1"
    and u: "bind_res (conf_upd_slave (cs_pdoCount_update Suc) (st1\<lparr>cf_currPdo := Some (length (cf_items st))\<rparr>))
         (conf_upd_syncmanager (csm_pdoCount_update Suc)) = Inr st'"
  proof -
    from assms(2) obtain q st1 where q: "fold_res pdo_attr ats \<lparr>cp_index = 65535, cp_pdoEntryCount = 0\<rparr> = Inr q"
      and u: "add_item env (ItPdo q) st = Inr st1"
       "bind_res (conf_upd_slave (cs_pdoCount_update Suc) (st1\<lparr>cf_currPdo := Some (length (cf_items st))\<rparr>))
         (conf_upd_syncmanager (csm_pdoCount_update Suc)) = Inr st'"
      unfolding parsePdoAttrs_def by (auto split: if_splits simp: bind_res_eq_Inr)
    have "cp_pdoEntryCount q = 0"
      by (rule fold_res_invariant [OF q(1)]) (auto simp: pdo_attr_def Let_def split: if_splits)
    from that [OF this u] show ?thesis .
  qed
  let ?s = "cs_pdoCount_update Suc s"
  let ?m = "csm_pdoCount_update Suc m"
  obtain n where st1: "st1 = st\<lparr>cf_items := cf_items st @ [ItPdo q], cf_len := n\<rparr>"
    using q(2) by (rule add_item_InrE)
  have st': "st' = st1\<lparr>cf_currPdo := Some (length (cf_items st)),
       cf_items := A @ ItSlave ?s # B @ ItSyncManager ?m # C @ [ItPdo q]\<rparr>"
    using u by (simp add: st1 it cm conf_upd_slave_def conf_upd_syncmanager_def
        upd_slave_at [of _ A s "B @ ItSyncManager m # C @ [ItPdo q]", simplified]
        upd_syncmanager_at [of _ "A @ ItSlave ?s # B" m "C @ [ItPdo q]"])
  let ?B = "B @ ItSyncManager ?m # C @ [ItPdo q]"
  have ok: "slave_counts_ok s (B @ ItSyncManager m # C)" "stream_ok (B @ ItSyncManager m # C)"
    using base_inv_slaveD [OF i(1) it(1)] by auto
  have lB: "level (ItSyncManager m') \<le> level z" if "z \<in> set B" for z m' using B that by (auto simp: Suc_le_eq)
  have lC: "level (ItPdo q) \<le> level z" if "z \<in> set C" for z using C that by (auto simp: Suc_le_eq)
  have pend: "cx_pend c = 0" using i(1) by (simp add: base_inv_def)
  have all: "base_inv reg st' c \<and> master_inv st' c \<and> slave_inv st' c \<and> slave_at st' A ?s ?B"
  proof (rule slave_part_inv [OF i sa])
    have l0: "\<forall>x\<in>set (B @ ItSyncManager ?m # C). 0 < level x" using B C by auto
    have rep: "seg_cnt 0 f (B @ ItSyncManager ?m # C) = seg_cnt 0 f (B @ ItSyncManager m # C)"
      if "f (ItSyncManager ?m) = f (ItSyncManager m)" for f
      by (rule seg_cnt_replace) (simp_all add: that)
    then show "slave_counts_ok ?s ?B"
      using l0 ok(1) slave_counts_snoc [OF l0, of "ItPdo q" ?s]
      by (simp add: rep n_defs) (simp add: slave_counts_ok_def n_defs)
    show "stream_ok ?B"
      using ok(2) q(1) C by (simp add: stream_ok_split [OF lB] stream_ok_split [OF lC] seg_cnt_snoc n_defs)
    show "\<forall>x\<in>set ?B. 0 < level x" using l0 by auto
    show "ctx_run reg c1 (B @ ItSyncManager m # C) = Some c \<Longrightarrow> ctx_run reg c1 ?B = Some c" for c1
      using pend gen ctx_run_snoc [of reg c1 "B @ ItSyncManager ?m # C" "ItPdo q"]
        ctx_run_replace [of reg "ItSyncManager ?m" "ItSyncManager m" c1 B C, OF ctx_step_same_sm]
      by (simp add: ctx_step_token)
  qed (simp_all add: st' st1 it pend)
  have "sm_inv st' c"
    unfolding sm_inv_def
    by (rule conjI, rule exI [of _ A], rule exI [of _ ?s], rule exI [of _ B], rule exI [of _ ?m], rule exI [of _ "C @ [ItPdo q]"])
      (use all C in \<open>auto simp: st' st1 cm gen\<close>)
  moreover have "pdo_inv st' c"
    unfolding pdo_inv_def
    by (rule conjI, rule exI [of _ A], rule exI [of _ ?s], rule exI [of _ B], rule exI [of _ ?m], rule exI [of _ C],
        rule exI [of _ q], rule exI [of _ "[]"])
      (use all C in \<open>auto simp: st' st1 cm gen it\<close>)
  ultimately have "inv_at reg lcecConfTypePdo st' c" using all by (simp add: inv_at_Pdo)
  then show ?thesis ..
qed

lemma parsePdoEntryAttrs_inv:
  assumes "inv_at reg lcecConfTypePdo st c" and "parsePdoEntryAttrs env ats st = Inr st'"
  shows "\<exists>c'. inv_at reg lcecConfTypePdoEntry st' c'"
proof -
  have i: "base_inv reg st c" "master_inv st c" "slave_inv st c" and pd: "pdo_inv st c"
    using assms(1) by (simp_all add: inv_at_Pdo)
  obtain A s B m C p D where sa: "slave_at st A s (B @ ItSyncManager m # C @ ItPdo p # D)"
    and cm: "cf_currSyncManager st = Some (length (A @ ItSlave s # B))" and C: "\<forall>x\<in>set C. 1 < level x"
    and cp: "cf_currPdo st = Some (length (A @ ItSlave s # B @ ItSyncManager m # C))" and D: "\<forall>x\<in>set D. 2 < level x"
    and gen: "cx_slave c = Some True" "cx_dir c"
    using pd by (auto simp: pdo_inv_def)
  have it: "cf_items st = A @ ItSlave s # B @ ItSyncManager m # C @ ItPdo p # D" "cf_currSlave st = Some (length A)"
    and B: "\<forall>x\<in>set B. 0 < level x"
    using sa by (simp_all add: slave_at_def)
  obtain q st1 where q: "add_item env (ItPdoEntry q) st = Inr st1"
    and u: "bind_res (conf_upd_slave (slave_add_pdoentry (pe_halPin q \<noteq> []))
                 (st1\<lparr>cf_currPdoEntry := Some (length (cf_items st)), cf_currComplexBitOffset := 0\<rparr>))
       (conf_upd_pdo (cp_pdoEntryCount_update Suc)) = Inr st'"
    using assms(2) unfolding parsePdoEntryAttrs_def by (auto simp: bind_res_eq_Inr split: prod.splits)
  let ?s = "slave_add_pdoentry (pe_halPin q \<noteq> []) s"
  let ?p = "cp_pdoEntryCount_update Suc p"
  let ?E = "ItPdoEntry q"
  obtain n where st1: "st1 = st\<lparr>cf_items := cf_items st @ [?E], cf_len := n\<rparr>"
    using q by (rule add_item_InrE)
  have st': "st' = st1\<lparr>cf_currPdoEntry := Some (length (cf_items st)), cf_currComplexBitOffset := 0,
       cf_items := A @ ItSlave ?s # B @ ItSyncManager m # C @ ItPdo ?p # D @ [?E]\<rparr>"
    using u by (simp add: st1 it cp conf_upd_slave_def conf_upd_pdo_def
        upd_slave_at [of _ A s "B @ ItSyncManager m # C @ ItPdo p # D @ [?E]", simplified]
        upd_pdo_at [of _ "A @ ItSlave ?s # B @ ItSyncManager m # C" p "D @ [?E]"])
  let ?B = "B @ ItSyncManager m # C @ ItPdo ?p # D @ [?E]"
  let ?c = "c\<lparr>cx_pe := True\<rparr>"
  have ok: "slave_counts_ok s (B @ ItSyncManager m # C @ ItPdo p # D)" "stream_ok (B @ ItSyncManager m # C @ ItPdo p # D)"
    using base_inv_slaveD [OF i(1) it(1)] by auto
  have lB: "level (ItSyncManager m') \<le> level z" if "z \<in> set B" for z m' using B that by (auto simp: Suc_le_eq)
  have lC: "level (ItPdo q) \<le> level z" if "z \<in> set C" for z q using C that by (auto simp: Suc_le_eq)
  have lD: "stream_ok D" "stream_ok (D @ [?E])"
    using D level_3 by (auto intro!: stream_ok_leaves stream_ok_snoc_leaf)
  have pend: "cx_pend c = 0" using i(1) by (simp add: base_inv_def)
  have all: "base_inv reg st' ?c \<and> master_inv st' ?c \<and> slave_inv st' ?c \<and> slave_at st' A ?s ?B"
  proof (rule slave_part_inv [OF i sa])
    have l0: "\<forall>x\<in>set (B @ ItSyncManager m # C @ ItPdo ?p # D). 0 < level x" using B C D by auto
    have rep: "seg_cnt 0 f (B @ ItSyncManager m # C @ ItPdo ?p # D) = seg_cnt 0 f (B @ ItSyncManager m # C @ ItPdo p # D)"
      if "f (ItPdo ?p) = f (ItPdo p)" for f
      using seg_cnt_replace [of "ItPdo ?p" "ItPdo p" f 0 "B @ ItSyncManager m # C" D] that by simp
    then show "slave_counts_ok ?s ?B"
      using l0 ok(1) slave_counts_snoc [OF l0, of ?E ?s]
      by (simp add: rep n_defs slave_add_pdoentry_def) (simp add: slave_counts_ok_def n_defs)
    have h: "seg_cnt 1 n_pdo (C @ ItPdo ?p # D @ [?E]) = seg_cnt 1 n_pdo (C @ ItPdo p # D)"
      using C D by (simp add: seg_cnt_open seg_cnt_snoc0 n_defs)
    show "stream_ok ?B"
      using ok(2) C D h lD by (simp add: stream_ok_split [OF lB] stream_ok_split [OF lC] seg_cnt_snoc n_defs)
    show "\<forall>x\<in>set ?B. 0 < level x" using l0 by auto
    show "ctx_run reg c1 (B @ ItSyncManager m # C @ ItPdo p # D) = Some c \<Longrightarrow> ctx_run reg c1 ?B = Some ?c" for c1
      using pend gen ctx_run_snoc [of reg c1 "B @ ItSyncManager m # C @ ItPdo ?p # D" "?E"]
        ctx_run_replace [of reg "ItPdo ?p" "ItPdo p" c1 "B @ ItSyncManager m # C" D, OF ctx_step_same_pdo]
      by (simp add: ctx_step_token)
  qed (simp_all add: st' st1 it pend)
  have "sm_inv st' ?c"
    unfolding sm_inv_def
    by (rule conjI, rule exI [of _ A], rule exI [of _ ?s], rule exI [of _ B], rule exI [of _ m],
        rule exI [of _ "C @ ItPdo ?p # D @ [?E]"])
      (use all C D in \<open>auto simp: st' st1 cm gen\<close>)
  moreover have "pdo_inv st' ?c"
    unfolding pdo_inv_def
    by (rule conjI, rule exI [of _ A], rule exI [of _ ?s], rule exI [of _ B], rule exI [of _ m], rule exI [of _ C],
        rule exI [of _ ?p], rule exI [of _ "D @ [?E]"])
      (use all C D in \<open>auto simp: st' st1 cm cp gen it\<close>)
  moreover have "entry_inv st' ?c"
  proof -
    have "get_pdoentry (cf_items st') (cf_currPdoEntry st') = Inr q"
      using get_pdoentry_snoc [of "A @ ItSlave ?s # B @ ItSyncManager m # C @ ItPdo ?p # D" q]
      by (simp add: st' st1 it)
    then show ?thesis by (simp add: entry_inv_def st')
  qed
  ultimately have "inv_at reg lcecConfTypePdoEntry st' ?c" using all by (simp add: inv_at_Entry)
  then show ?thesis ..
qed

text \<open>The parts of a complex entry stay inside the bits of the entry.\<close>

lemma complex_attr_bits:
  assumes "fold_res (complex_attr off bits) ats (fr0, p0) = Inr (fr, p)"
    and "uint off + uint (ce_bitLength p0) \<le> uint bits"
  shows "uint off + uint (ce_bitLength p) \<le> uint bits"
proof -
  have "(\<lambda>(fr, p). uint off + uint (ce_bitLength p) \<le> uint bits) (fr, p)"
  proof (rule fold_res_invariant [OF assms(1)])
    fix a :: "string \<times> string" and s t :: "bool \<times> conf_complexentry"
    assume inv: "(\<lambda>(fr, p). uint off + uint (ce_bitLength p) \<le> uint bits) s"
      and step: "complex_attr off bits a s = Inr t"
    obtain n v where a: "a = (n, v)" by (cases a)
    obtain fr1 p1 where s: "s = (fr1, p1)" by (cases s)
    show "(\<lambda>(fr, p). uint off + uint (ce_bitLength p) \<le> uint bits) t"
    proof (cases "n = ''bitLen''")
      case True
      then have t: "0 < atoi v" "atoi v \<le> 32" "uint off + atoi v \<le> uint bits"
        "t = (fr1, p1\<lparr>ce_bitLength := word_of_int (atoi v)\<rparr>)"
        using step by (auto simp: a s complex_attr_def Let_def LCEC_CONF_GENERIC_MAX_SUBPINS_def split: if_splits)
      then have "uint (word_of_int (atoi v) :: u8) = atoi v" by (simp add: uint_word_of_int)
      with t show ?thesis by simp
    next
      case False
      then show ?thesis using step inv
        by (auto simp: a s complex_attr_def complex_haltype_def split: if_splits)
    qed
  qed (use assms(2) in simp)
  then show ?thesis by simp
qed

lemma parseComplexEntryAttrs_inv:
  assumes "inv_at reg lcecConfTypePdoEntry st c" and "parseComplexEntryAttrs env ats st = Inr st'"
  shows "\<exists>c'. inv_at reg lcecConfTypeComplexEntry st' c'"
proof -
  have i: "base_inv reg st c" "master_inv st c" "slave_inv st c" and pd: "pdo_inv st c" and en: "entry_inv st c"
    using assms(1) by (simp_all add: inv_at_Entry)
  obtain A s B m C p D where sa: "slave_at st A s (B @ ItSyncManager m # C @ ItPdo p # D)"
    and cm: "cf_currSyncManager st = Some (length (A @ ItSlave s # B))" and C: "\<forall>x\<in>set C. 1 < level x"
    and cp: "cf_currPdo st = Some (length (A @ ItSlave s # B @ ItSyncManager m # C))" and D: "\<forall>x\<in>set D. 2 < level x"
    and gen: "cx_slave c = Some True" "cx_dir c"
    using pd by (auto simp: pdo_inv_def)
  let ?old = "B @ ItSyncManager m # C @ ItPdo p # D"
  have it: "cf_items st = A @ ItSlave s # ?old" "cf_currSlave st = Some (length A)"
    and l0: "\<forall>x\<in>set ?old. 0 < level x"
    using sa by (simp_all add: slave_at_def)
  let ?off = "cf_currComplexBitOffset st"
  obtain e where e: "get_pdoentry (cf_items st) (cf_currPdoEntry st) = Inr e" "uint ?off \<le> uint (pe_bitLength e)"
    and pe: "cx_pe c"
    using en by (auto simp: entry_inv_def)
  obtain fr q st1 where fold: "fold_res (complex_attr ?off (pe_bitLength e)) ats (False, new_complexentry ?off) = Inr (fr, q)"
    and q: "add_item env (ItComplexEntry q) st = Inr st1"
    and u: "conf_upd_slave (slave_add_mapping (ce_halPin q \<noteq> []))
         (st1\<lparr>cf_currComplexBitOffset := ?off + ce_bitLength q\<rparr>) = Inr st'"
    using assms(2) e(1) unfolding parseComplexEntryAttrs_def by (auto split: prod.splits if_splits simp: bind_res_eq_Inr)
  let ?s = "slave_add_mapping (ce_halPin q \<noteq> []) s"
  let ?E = "ItComplexEntry q"
  obtain n where st1: "st1 = st\<lparr>cf_items := cf_items st @ [?E], cf_len := n\<rparr>"
    using q by (rule add_item_InrE)
  have st': "st' = st1\<lparr>cf_currComplexBitOffset := ?off + ce_bitLength q, cf_items := A @ ItSlave ?s # ?old @ [?E]\<rparr>"
    using u by (simp add: st1 it conf_upd_slave_def upd_slave_at [of _ A s "?old @ [?E]", simplified])
  have all: "base_inv reg st' c \<and> master_inv st' c \<and> slave_inv st' c \<and> slave_at st' A ?s (?old @ [?E])"
  proof (rule slave_leaf_inv [OF i sa])
    assume "slave_counts_ok s ?old"
    then show "slave_counts_ok ?s (?old @ [?E])"
      using slave_counts_snoc [OF l0, of ?E ?s]
      by (simp add: n_defs slave_add_mapping_def) (simp add: slave_counts_ok_def n_defs)
  qed (simp_all add: st' st1 it n_defs gen pe)
  have "sm_inv st' c"
    unfolding sm_inv_def
    by (rule conjI, rule exI [of _ A], rule exI [of _ ?s], rule exI [of _ B], rule exI [of _ m],
        rule exI [of _ "C @ ItPdo p # D @ [?E]"])
      (use all C D in \<open>auto simp: st' st1 cm gen\<close>)
  moreover have "pdo_inv st' c"
    unfolding pdo_inv_def
    by (rule conjI, rule exI [of _ A], rule exI [of _ ?s], rule exI [of _ B], rule exI [of _ m], rule exI [of _ C],
        rule exI [of _ p], rule exI [of _ "D @ [?E]"])
      (use all C D in \<open>auto simp: st' st1 cm cp gen it\<close>)
  moreover have "entry_inv st' c"
  proof -
    have "uint ?off + uint (ce_bitLength q) \<le> uint (pe_bitLength e)"
      by (rule complex_attr_bits [OF fold]) (simp add: new_complexentry_def e(2))
    moreover have "uint (pe_bitLength e) < 256" using uint_lt2p [of "pe_bitLength e"] by simp
    ultimately have "uint (?off + ce_bitLength q) \<le> uint (pe_bitLength e)"
      by (simp add: uint_word_ariths)
    moreover have "get_pdoentry (cf_items st') (cf_currPdoEntry st') = Inr e"
      using get_pdoentry_keep [of A "ItSlave s" ?old _ e "ItSlave ?s" "[?E]"] e(1) by (simp add: st' st1 it)
    ultimately show ?thesis using pe by (simp add: entry_inv_def st')
  qed
  ultimately have "inv_at reg lcecConfTypeComplexEntry st' c" using all by (simp add: inv_at_Entry)
  then show ?thesis ..
qed

section \<open>Raw data of an SDO\<close>

lemma sum_list_lengths_snoc: "sum_list (map length (ds @ [d])) = sum_list (map length ds) + length d"
  by simp

text \<open>
  A run that ends with nothing pending behind the data of an SDO token has consumed exactly
  the announced length, so a longer length takes more data.
\<close>

lemma ctx_run_sdo_data:
  assumes "ctx_run reg c1 (X @ ItSdo p # map ItData ds) = Some c" and "cx_pend c = 0"
  shows "ctx_run reg c1 (X @ ItSdo (p\<lparr>sdo_length := sdo_length p + length bs\<rparr>) # map ItData (ds @ [bs])) = Some c"
proof -
  obtain c2 c3 where 1: "ctx_run reg c1 X = Some c2" "ctx_step reg c2 (ItSdo p) = Some c3"
    "ctx_run reg c3 (map ItData ds) = Some c"
    using assms(1) by (auto simp: ctx_run_append bind_eq_Some_conv)
  have 2: "c3 = c2\<lparr>cx_pend := sdo_length p\<rparr>" "cx_pend c2 = 0" "cx_slave c2 \<noteq> None"
    using 1(2) by (auto simp: ctx_step_token split: if_splits)
  have 3: "sum_list (map length ds) = sdo_length p" "c = c2\<lparr>cx_pend := 0\<rparr>"
    using 1(3) assms(2) by (auto simp: ctx_run_data 2 split: if_splits)
  have "ctx_run reg (c2\<lparr>cx_pend := sdo_length p + length bs\<rparr>) (map ItData (ds @ [bs])) = Some c"
    unfolding ctx_run_data sum_list_lengths_snoc by (simp add: 3)
  with 1 2 show ?thesis by (simp add: ctx_run_append ctx_step_token)
qed

lemma stream_ok_replace_sdo:
  "\<forall>x\<in>set B. 0 < level x \<Longrightarrow> stream_ok (B @ ItSdo p # r) = stream_ok (B @ ItSdo q # r)"
proof (induction B)
  case (Cons x B)
  have "seg_cnt l f (B @ ItSdo p # r) = seg_cnt l f (B @ ItSdo q # r)" if "f (ItSdo p) = f (ItSdo q)" for l f
    using that by (intro seg_cnt_replace) simp_all
  then have "hdr_ok x (B @ ItSdo p # r) = hdr_ok x (B @ ItSdo q # r)"
    using Cons.prems by (cases x) (simp_all add: n_defs)
  with Cons show ?case by simp
qed simp

lemma stream_ok_sdo_data:
  assumes "stream_ok (B @ ItSdo p # map ItData ds)" and "\<forall>x\<in>set B. 0 < level x"
  shows "stream_ok (B @ ItSdo q # map ItData ds @ [ItData bs])"
proof -
  have "stream_ok ((B @ ItSdo q # map ItData ds) @ [ItData bs]) = stream_ok (B @ ItSdo q # map ItData ds)"
    by (rule stream_ok_snoc_neutral) (use assms(2) in \<open>auto simp: n_defs\<close>)
  with assms stream_ok_replace_sdo [of B q "map ItData ds" p] show ?thesis by simp
qed

lemma slave_counts_sdo_data:
  assumes "slave_counts_ok s (B @ ItSdo p # map ItData ds)" and "\<forall>x\<in>set (B @ ItSdo p # map ItData ds). 0 < level x"
  shows "slave_counts_ok (cs_sdoConfigLength_update (\<lambda>l. l + length bs) s)
     (B @ ItSdo (sdo_length_update (\<lambda>l. l + length bs) p) # map ItData ds @ [ItData bs])"
proof -
  have d: "seg_cnt 0 f (map ItData ds @ [ItData bs]) = seg_cnt 0 f (map ItData ds)" if "f (ItData bs) = 0" for f
    using that by (rule seg_cnt_snoc0)
  have B: "\<forall>x\<in>set B. 0 < level x" using assms(2) by auto
  show ?thesis
    using assms(1) by (simp add: slave_counts_ok_def seg_cnt_open [OF B] d n_defs)
qed

lemma data_raw_attr_inv:
  assumes "inv_at reg lcecConfTypeSdoConfig st c" and "xi_state st = conf_type_num lcecConfTypeSdoConfig"
    and "data_raw_attr env a st = Inr st'"
  shows "(\<exists>c'. inv_at reg lcecConfTypeSdoConfig st' c') \<and> xi_state st' = xi_state st"
proof -
  obtain nm v where a: "a = (nm, v)" by (cases a)
  have i: "base_inv reg st c" "master_inv st c" "slave_inv st c" and sd: "sdo_inv st"
    using assms(1) by (simp_all add: inv_at_Sdo)
  obtain A s B p ds where sa: "slave_at st A s (B @ ItSdo p # map ItData ds)"
    and cd: "cf_currSdoConf st = Some (length (A @ ItSlave s # B))"
    using sd by (auto simp: sdo_inv_def)
  let ?old = "B @ ItSdo p # map ItData ds"
  have it: "cf_items st = A @ ItSlave s # ?old" "cf_currSlave st = Some (length A)"
    and l0: "\<forall>x\<in>set ?old. 0 < level x"
    using sa by (simp_all add: slave_at_def)
  show ?thesis
  proof (cases "st' = st")
    case True
    with assms(1) show ?thesis by auto
  next
    case False
    let ?f = "\<lambda>bs. sdo_length_update (\<lambda>l. l + length (bs::u8 list))"
    obtain bs st1 where q: "add_item env (ItData bs) st = Inr st1"
      and u: "bind_res (conf_upd_sdo (?f bs) st1)
                (conf_upd_slave (cs_sdoConfigLength_update (\<lambda>l. l + length bs))) = Inr st'"
      using assms(2,3) False by (auto simp: a data_raw_attr_def split: if_splits option.splits sum.splits)
    let ?s = "cs_sdoConfigLength_update (\<lambda>l. l + length bs) s"
    let ?B = "B @ ItSdo (?f bs p) # map ItData ds @ [ItData bs]"
    obtain n where st1: "st1 = st\<lparr>cf_items := cf_items st @ [ItData bs], cf_len := n\<rparr>"
      using q by (rule add_item_InrE)
    have st': "st' = st1\<lparr>cf_items := A @ ItSlave ?s # ?B\<rparr>"
      using u by (simp add: st1 it cd conf_upd_slave_def conf_upd_sdo_def
          upd_slave_at [of _ A s "B @ ItSdo (?f bs p) # map ItData ds @ [ItData bs]", simplified]
          upd_sdo_at [of _ "A @ ItSlave s # B" p "map ItData ds @ [ItData bs]"])
    have ok: "slave_counts_ok s ?old" "stream_ok ?old" using base_inv_slaveD [OF i(1) it(1)] by auto
    have pend: "cx_pend c = 0" using i(1) by (simp add: base_inv_def)
    have all: "base_inv reg st' c \<and> master_inv st' c \<and> slave_inv st' c \<and> slave_at st' A ?s ?B"
    proof (rule slave_part_inv [OF i sa])
      show "stream_ok ?B" by (rule stream_ok_sdo_data [OF ok(2)]) (use l0 in auto)
      show "slave_counts_ok ?s ?B" by (rule slave_counts_sdo_data [OF ok(1) l0])
      show "\<forall>x\<in>set ?B. 0 < level x" using l0 by auto
      show "ctx_run reg c1 ?old = Some c \<Longrightarrow> ctx_run reg c1 ?B = Some c" for c1
        using ctx_run_sdo_data [of reg c1 B p ds c bs] pend by (cases p) simp
    qed (simp_all add: st' st1 it pend)
    have "sdo_inv st'"
      unfolding sdo_inv_def
      by (rule exI [of _ A], rule exI [of _ ?s], rule exI [of _ B], rule exI [of _ "?f bs p"], rule exI [of _ "ds @ [bs]"])
        (use all in \<open>simp add: st' st1 cd\<close>)
    with all have "inv_at reg lcecConfTypeSdoConfig st' c" by (simp add: inv_at_Sdo)
    then show ?thesis by (auto simp: st' st1)
  qed
qed

lemma parseDataRawAttrs_inv:
  assumes "inv_at reg lcecConfTypeSdoConfig st c" and "xi_state st = conf_type_num lcecConfTypeSdoConfig"
    and "parseDataRawAttrs env ats st = Inr st'"
  shows "\<exists>c'. inv_at reg lcecConfTypeSdoDataRaw st' c'"
proof -
  have "(\<exists>c'. inv_at reg lcecConfTypeSdoConfig st' c') \<and> xi_state st' = conf_type_num lcecConfTypeSdoConfig"
    using assms(3) [unfolded parseDataRawAttrs_def]
  proof (rule fold_res_invariant)
    fix a s t
    assume "(\<exists>c'. inv_at reg lcecConfTypeSdoConfig s c') \<and> xi_state s = conf_type_num lcecConfTypeSdoConfig"
      and "data_raw_attr env a s = Inr t"
    then show "(\<exists>c'. inv_at reg lcecConfTypeSdoConfig t c') \<and> xi_state t = conf_type_num lcecConfTypeSdoConfig"
      using data_raw_attr_inv by metis
  qed (use assms(1,2) in auto)
  then show ?thesis by (simp add: inv_at_Sdo)
qed

end
