(* ===== verification/IcmdSafety.thy ===== *)
theory IcmdSafety
  imports ConfHandlers
begin

text \<open>
  The init command parser inside the configuration parser: it appends tokens to the current
  slave's part of the stream. Between its commands the stream is as the caller's invariant
  wants it. Inside a command one token with its data is not yet in the slave's counters.
\<close>

section \<open>The invariant\<close>

text \<open>
  What stays fixed while a file is read: the registry, the stream before the slave, the
  slave as it was, and the order check's context behind the slave token and at the start.
\<close>

record icmd_frame =
  fr_reg :: registry
  fr_pre :: "conf_item list"
  fr_slave :: conf_slave
  fr_c1 :: ctx
  fr_c :: ctx

definition frame_ok :: "icmd_frame \<Rightarrow> bool" where
  "frame_ok fr \<longleftrightarrow> cx_pend (fr_c fr) = 0 \<and> cx_slave (fr_c fr) \<noteq> None"

definition icmd_at :: "icmd_frame \<Rightarrow> icmd_state \<Rightarrow> conf_slave \<Rightarrow> conf_item list \<Rightarrow> bool" where
  "icmd_at fr st s B \<longleftrightarrow>
     ic_items st = fr_pre fr @ ItSlave s # B \<and> ic_slave st = Some (length (fr_pre fr)) \<and>
     same_slave (fr_slave fr) s \<and> (\<forall>x\<in>set B. 0 < level x)"

definition icmd_part :: "icmd_frame \<Rightarrow> conf_slave \<Rightarrow> conf_item list \<Rightarrow> bool" where
  "icmd_part fr s B \<longleftrightarrow>
     slave_counts_ok s B \<and> stream_ok B \<and> ctx_run (fr_reg fr) (fr_c1 fr) B = Some (fr_c fr)"

definition icmd_closed :: "icmd_frame \<Rightarrow> icmd_state \<Rightarrow> bool" where
  "icmd_closed fr st \<longleftrightarrow> (\<exists>s B. icmd_at fr st s B \<and> icmd_part fr s B)"

text \<open>A token whose data are still coming, with the length it announces so far.\<close>

fun pend_len :: "conf_item \<Rightarrow> nat option" where
  "pend_len (ItSdo p) = Some (sdo_length p)"
| "pend_len (ItIdn p) = Some (idn_length p)"
| "pend_len _ = None"

definition icmd_open :: "icmd_frame \<Rightarrow> icmd_state \<Rightarrow> nat option \<Rightarrow> conf_item \<Rightarrow> bool" where
  "icmd_open fr st k t \<longleftrightarrow>
     (\<exists>s B ds. icmd_at fr st s (B @ t # map ItData ds) \<and> icmd_part fr s B \<and>
        pend_len t = Some (sum_list (map length ds)) \<and> k = Some (length (fr_pre fr @ ItSlave s # B)))"

definition icmd_inv :: "icmd_frame \<Rightarrow> icmd_state \<Rightarrow> bool" where
  "icmd_inv fr st \<longleftrightarrow> frame_ok fr \<and>
     (if 4 \<le> xi_state st \<and> xi_state st \<le> 11 then \<exists>p. icmd_open fr st (ic_currSdoConf st) (ItSdo p)
      else if 14 \<le> xi_state st \<and> xi_state st \<le> 23 then \<exists>p. icmd_open fr st (ic_currIdnConf st) (ItIdn p)
      else icmd_closed fr st)"

lemma icmd_at_state [simp]: "icmd_at fr (st\<lparr>xi_state := n\<rparr>) s B = icmd_at fr st s B"
  by (simp add: icmd_at_def)

lemma icmd_closed_state [simp]: "icmd_closed fr (st\<lparr>xi_state := n\<rparr>) = icmd_closed fr st"
  by (simp add: icmd_closed_def)

lemma icmd_open_state [simp]: "icmd_open fr (st\<lparr>xi_state := n\<rparr>) k t = icmd_open fr st k t"
  by (simp add: icmd_open_def)

lemma pend_len_level: "pend_len t = Some n \<Longrightarrow> level t = 3 \<and> n_entry t = 0"
  by (cases t) (simp_all add: n_defs)

section \<open>Opening, filling and closing a token\<close>

lemma icmd_open_start:
  assumes "icmd_closed fr st" and "ic_items st' = ic_items st @ [t]" and "ic_slave st' = ic_slave st"
    and "pend_len t = Some 0"
  shows "icmd_open fr st' (Some (length (ic_items st))) t"
proof -
  obtain s B where sB: "icmd_at fr st s B" "icmd_part fr s B" using assms(1) by (auto simp: icmd_closed_def)
  have "icmd_at fr st' s (B @ t # map ItData [])"
    using sB(1) assms pend_len_level [OF assms(4)] by (auto simp: icmd_at_def)
  with sB show ?thesis
    unfolding icmd_open_def using assms(4)
    by (intro exI [of _ s] exI [of _ B] exI [of _ "[]"]) (simp add: icmd_at_def)
qed

lemma icmd_open_set:
  assumes "icmd_open fr st (Some k) t" and "ic_items st' = (ic_items st)[k := t']" and "ic_slave st' = ic_slave st"
    and "pend_len t' = pend_len t"
  shows "icmd_open fr st' (Some k) t'"
proof -
  obtain s B ds where 1: "icmd_at fr st s (B @ t # map ItData ds)" "icmd_part fr s B"
    "pend_len t = Some (sum_list (map length ds))" "k = length (fr_pre fr @ ItSlave s # B)"
    using assms(1) by (auto simp: icmd_open_def)
  have "level t' = 3" using pend_len_level 1(3) assms(4) by metis
  then have "icmd_at fr st' s (B @ t' # map ItData ds)"
    using 1(1,4) assms(2,3) by (auto simp: icmd_at_def list_update_append)
  with 1 assms(4) show ?thesis unfolding icmd_open_def by auto
qed

lemma icmd_open_data:
  assumes "icmd_open fr st (Some k) t" and "ic_items st' = (ic_items st @ [ItData bs])[k := t']"
    and "ic_slave st' = ic_slave st" and "pend_len t = Some n" and "pend_len t' = Some (n + length bs)"
  shows "icmd_open fr st' (Some k) t'"
proof -
  obtain s B ds where 1: "icmd_at fr st s (B @ t # map ItData ds)" "icmd_part fr s B"
    "pend_len t = Some (sum_list (map length ds))" "k = length (fr_pre fr @ ItSlave s # B)"
    using assms(1) by (auto simp: icmd_open_def)
  have "level t' = 3" using pend_len_level assms(5) by metis
  then have "icmd_at fr st' s (B @ t' # map ItData (ds @ [bs]))"
    using 1(1,4) assms(2,3) by (auto simp: icmd_at_def list_update_append)
  moreover have "pend_len t' = Some (sum_list (map length (ds @ [bs])))" using 1(3) assms(4,5) by simp
  ultimately show ?thesis using 1 unfolding icmd_open_def by blast
qed

lemma stream_ok_append_neutral:
  assumes "\<forall>x\<in>set xs. 0 < level x" and "\<And>y. y \<in> set ys \<Longrightarrow> level y = 3 \<and> n_entry y = 0"
  shows "stream_ok (xs @ ys) = stream_ok xs"
  using assms(2)
proof (induction ys rule: rev_induct)
  case (snoc y ys)
  have "\<forall>x\<in>set (xs @ ys). 0 < level x" using assms(1) snoc.prems by fastforce
  from stream_ok_snoc_neutral [OF this, of y] snoc show ?case by simp
qed simp

lemma seg_cnt_data [simp]: "(\<And>bs. f (ItData bs) = 0) \<Longrightarrow> l < 3 \<Longrightarrow> seg_cnt l f (map ItData ds) = 0"
  by (induction ds) simp_all

text \<open>The counters of a slave after a token with data has been charged to it.\<close>

definition charge :: "conf_item \<Rightarrow> conf_slave \<Rightarrow> conf_slave" where
  "charge t s = s\<lparr>cs_sdoConfigLength := cs_sdoConfigLength s + n_sdo t,
                  cs_idnConfigLength := cs_idnConfigLength s + n_idn t\<rparr>"

lemma icmd_close:
  assumes "icmd_open fr st (Some k) t" and "frame_ok fr" and "ic_slave st' = ic_slave st"
    and "ic_items st' = (ic_items st)[length (fr_pre fr) := ItSlave (charge t s)]"
    and "ic_items st ! length (fr_pre fr) = ItSlave s"
  shows "icmd_closed fr st'"
proof -
  obtain s0 B ds where 1: "icmd_at fr st s0 (B @ t # map ItData ds)" "icmd_part fr s0 B"
    "pend_len t = Some (sum_list (map length ds))"
    using assms(1) by (auto simp: icmd_open_def)
  have s0: "s0 = s" using 1(1) assms(5) by (auto simp: icmd_at_def)
  let ?new = "B @ t # map ItData ds"
  have lv: "\<forall>x\<in>set ?new. 0 < level x" using 1(1) by (simp add: icmd_at_def)
  have lB: "\<forall>x\<in>set B. 0 < level x" using lv by simp
  have lt: "level t = 3" "n_entry t = 0" using pend_len_level [OF 1(3)] by auto
  have "icmd_at fr st' (charge t s) ?new"
    using 1(1) assms(3,4) by (auto simp: icmd_at_def s0 same_slave_def charge_def)
  moreover have "icmd_part fr (charge t s) ?new"
    unfolding icmd_part_def
  proof (intro conjI)
    have c: "slave_counts_ok s B" using 1(2) by (simp add: icmd_part_def s0)
    have z: "n_sm t = 0" "n_pdo t = 0" "n_map t = 0" "n_mod t = 0" using 1(3) by (cases t; simp add: n_defs)+
    have "seg_cnt 0 f ?new = seg_cnt 0 f B + f t" if "\<And>bs. f (ItData bs) = 0" for f
      using that lt by (simp add: seg_cnt_open [OF lB])
    then show "slave_counts_ok (charge t s) ?new"
      using c z lt by (simp add: slave_counts_ok_def charge_def n_sm_def n_pdo_def n_entry_def n_map_def n_sdo_def n_idn_def n_mod_def)
    show "stream_ok ?new"
      using 1(2) lt by (subst stream_ok_append_neutral [OF lB]) (auto simp: n_defs icmd_part_def)
    have "ctx_step (fr_reg fr) (fr_c fr) t = Some ((fr_c fr)\<lparr>cx_pend := sum_list (map length ds)\<rparr>)"
      using 1(3) assms(2) by (cases t) (simp_all add: ctx_step_token frame_ok_def)
    then show "ctx_run (fr_reg fr) (fr_c1 fr) ?new = Some (fr_c fr)"
      using 1(2) assms(2) by (simp add: icmd_part_def ctx_run_append ctx_run_data frame_ok_def)
  qed
  ultimately show ?thesis by (auto simp: icmd_closed_def)
qed

section \<open>Handlers\<close>

lemma icmd_open_nth:
  "icmd_open fr st k t \<Longrightarrow> \<exists>j. k = Some j \<and> j < length (ic_items st) \<and> ic_items st ! j = t"
  by (auto simp: icmd_open_def icmd_at_def nth_append)

lemma upd_sdo_InrD:
  assumes "upd_sdo f k its = Inr its'"
  shows "\<exists>j p. k = Some j \<and> j < length its \<and> its ! j = ItSdo p \<and> its' = its[j := ItSdo (f p)]"
proof -
  obtain j it where j: "k = Some j" "j < length its" "its' = its[j := it]"
    and it: "(case its ! j of ItSdo s \<Rightarrow> Some (ItSdo (f s)) | _ \<Rightarrow> None) = Some it"
    using upd_item_nth [OF assms [unfolded upd_sdo_def]] by auto
  then show ?thesis by (cases "its ! j") simp_all
qed

lemma upd_idn_InrD:
  assumes "upd_idn f k its = Inr its'"
  shows "\<exists>j p. k = Some j \<and> j < length its \<and> its ! j = ItIdn p \<and> its' = its[j := ItIdn (f p)]"
proof -
  obtain j it where j: "k = Some j" "j < length its" "its' = its[j := it]"
    and it: "(case its ! j of ItIdn s \<Rightarrow> Some (ItIdn (f s)) | _ \<Rightarrow> None) = Some it"
    using upd_item_nth [OF assms [unfolded upd_idn_def]] by auto
  then show ?thesis by (cases "its ! j") simp_all
qed

lemma upd_slave_InrD:
  assumes "upd_slave f k its = Inr its'"
  shows "\<exists>j s. k = Some j \<and> j < length its \<and> its ! j = ItSlave s \<and> its' = its[j := ItSlave (f s)]"
proof -
  obtain j it where j: "k = Some j" "j < length its" "its' = its[j := it]"
    and it: "(case its ! j of ItSlave s \<Rightarrow> Some (ItSlave (f s)) | _ \<Rightarrow> None) = Some it"
    using upd_item_nth [OF assms [unfolded upd_slave_def]] by auto
  then show ?thesis by (cases "its ! j") simp_all
qed

lemma icmd_upd_sdo_open:
  assumes "icmd_open fr st (ic_currSdoConf st) (ItSdo p)" and "icmd_upd_sdo f st = Inr st'"
    and "sdo_length (f p) = sdo_length p"
  shows "(\<exists>q. icmd_open fr st' (ic_currSdoConf st') (ItSdo q)) \<and> xi_state st' = xi_state st"
proof -
  from assms(2) obtain its where u: "upd_sdo f (ic_currSdoConf st) (ic_items st) = Inr its"
    and st': "st' = st\<lparr>ic_items := its\<rparr>"
    by (auto simp: icmd_upd_sdo_def icmd_set_items_def)
  obtain j where j: "ic_currSdoConf st = Some j" "ic_items st ! j = ItSdo p"
    using icmd_open_nth [OF assms(1)] by auto
  have "its = (ic_items st)[j := ItSdo (f p)]" using upd_sdo_InrD [OF u] j by auto
  then have "icmd_open fr st' (Some j) (ItSdo (f p))"
    using icmd_open_set [of fr st j "ItSdo p" st' "ItSdo (f p)"] assms(1,3) j by (simp add: st')
  then show ?thesis using j by (auto simp: st')
qed

lemma icmd_upd_idn_open:
  assumes "icmd_open fr st (ic_currIdnConf st) (ItIdn p)" and "icmd_upd_idn f st = Inr st'"
    and "idn_length (f p) = idn_length p"
  shows "(\<exists>q. icmd_open fr st' (ic_currIdnConf st') (ItIdn q)) \<and> xi_state st' = xi_state st"
proof -
  from assms(2) obtain its where u: "upd_idn f (ic_currIdnConf st) (ic_items st) = Inr its"
    and st': "st' = st\<lparr>ic_items := its\<rparr>"
    by (auto simp: icmd_upd_idn_def icmd_set_items_def)
  obtain j where j: "ic_currIdnConf st = Some j" "ic_items st ! j = ItIdn p"
    using icmd_open_nth [OF assms(1)] by auto
  have "its = (ic_items st)[j := ItIdn (f p)]" using upd_idn_InrD [OF u] j by auto
  then have "icmd_open fr st' (Some j) (ItIdn (f p))"
    using icmd_open_set [of fr st j "ItIdn p" st' "ItIdn (f p)"] assms(1,3) j by (simp add: st')
  then show ?thesis using j by (auto simp: st')
qed

lemma icmd_parse_data_InrD:
  "icmd_parse_data c s st = Inr (n, st') \<Longrightarrow>
   \<exists>bs len. n = length bs \<and> st' = st\<lparr>ic_items := ic_items st @ [ItData bs], ic_len := len\<rparr>"
  by (auto simp: icmd_parse_data_def add_conf_item_eq split: option.splits if_splits)

lemma icmd_sdo_data:
  assumes "icmd_open fr st (ic_currSdoConf st) (ItSdo p)"
    and "bind_res (icmd_parse_data c s st) (\<lambda>(n, st'). icmd_upd_sdo (sdo_length_update (\<lambda>l. l + n)) st') = Inr st'"
  shows "(\<exists>q. icmd_open fr st' (ic_currSdoConf st') (ItSdo q)) \<and> xi_state st' = xi_state st"
proof -
  obtain bs len st1 where 1: "st1 = st\<lparr>ic_items := ic_items st @ [ItData bs], ic_len := len\<rparr>"
    "icmd_upd_sdo (sdo_length_update (\<lambda>l. l + length bs)) st1 = Inr st'"
    using assms(2) by (auto dest!: icmd_parse_data_InrD)
  obtain j where j: "ic_currSdoConf st = Some j" "j < length (ic_items st)" "ic_items st ! j = ItSdo p"
    using icmd_open_nth [OF assms(1)] by auto
  let ?p = "sdo_length_update (\<lambda>l. l + length bs) p"
  from 1(2) obtain its where u: "upd_sdo (sdo_length_update (\<lambda>l. l + length bs)) (ic_currSdoConf st1) (ic_items st1) = Inr its"
    and st': "st' = st1\<lparr>ic_items := its\<rparr>"
    by (auto simp: icmd_upd_sdo_def icmd_set_items_def)
  have "its = (ic_items st @ [ItData bs])[j := ItSdo ?p]"
    using upd_sdo_InrD [OF u] j by (auto simp: 1(1) nth_append)
  then have "icmd_open fr st' (Some j) (ItSdo ?p)"
    using icmd_open_data [of fr st j "ItSdo p" st' bs "ItSdo ?p" "sdo_length p"] assms(1) j by (simp add: st' 1(1))
  then show ?thesis using j by (auto simp: st' 1(1))
qed

lemma icmd_idn_data:
  assumes "icmd_open fr st (ic_currIdnConf st) (ItIdn p)"
    and "bind_res (icmd_parse_data c s st) (\<lambda>(n, st'). icmd_upd_idn (idn_length_update (\<lambda>l. l + n)) st') = Inr st'"
  shows "(\<exists>q. icmd_open fr st' (ic_currIdnConf st') (ItIdn q)) \<and> xi_state st' = xi_state st"
proof -
  obtain bs len st1 where 1: "st1 = st\<lparr>ic_items := ic_items st @ [ItData bs], ic_len := len\<rparr>"
    "icmd_upd_idn (idn_length_update (\<lambda>l. l + length bs)) st1 = Inr st'"
    using assms(2) by (auto dest!: icmd_parse_data_InrD)
  obtain j where j: "ic_currIdnConf st = Some j" "j < length (ic_items st)" "ic_items st ! j = ItIdn p"
    using icmd_open_nth [OF assms(1)] by auto
  let ?p = "idn_length_update (\<lambda>l. l + length bs) p"
  from 1(2) obtain its where u: "upd_idn (idn_length_update (\<lambda>l. l + length bs)) (ic_currIdnConf st1) (ic_items st1) = Inr its"
    and st': "st' = st1\<lparr>ic_items := its\<rparr>"
    by (auto simp: icmd_upd_idn_def icmd_set_items_def)
  have "its = (ic_items st @ [ItData bs])[j := ItIdn ?p]"
    using upd_idn_InrD [OF u] j by (auto simp: 1(1) nth_append)
  then have "icmd_open fr st' (Some j) (ItIdn ?p)"
    using icmd_open_data [of fr st j "ItIdn p" st' bs "ItIdn ?p" "idn_length p"] assms(1) j by (simp add: st' 1(1))
  then show ?thesis using j by (auto simp: st' 1(1))
qed

lemma icmd_coe_data_open:
  assumes "icmd_open fr st (ic_currSdoConf st) (ItSdo p)" and "icmd_coe_data c s st = Inr st'"
  shows "(\<exists>q. icmd_open fr st' (ic_currSdoConf st') (ItSdo q)) \<and> xi_state st' = xi_state st"
proof -
  have no: "\<exists>q. icmd_open fr st (ic_currSdoConf st) (ItSdo q)" using assms(1) by blast
  consider (trans) "xi_state st = icmd_num icmdTypeCoeIcmdTrans"
    | (idx) "xi_state st = icmd_num icmdTypeCoeIcmdIndex" | (sub) "xi_state st = icmd_num icmdTypeCoeIcmdSubindex"
    | (data) "xi_state st \<notin> icmd_num ` {icmdTypeCoeIcmdTrans, icmdTypeCoeIcmdIndex, icmdTypeCoeIcmdSubindex}"
    by auto
  then show ?thesis
  proof cases
    case trans
    with assms(2) no show ?thesis by (auto simp: icmd_coe_data_def split: if_splits)
  next
    case idx
    with assms(2) obtain v where "icmd_upd_sdo (sdo_index_update (\<lambda>_. word_of_int v)) st = Inr st'"
      by (auto simp: icmd_coe_data_def)
    then show ?thesis by (rule icmd_upd_sdo_open [OF assms(1)]) simp
  next
    case sub
    with assms(2) have "bind_res (icmd_get_sdo st) (\<lambda>p.
          if sdo_subindex p \<noteq> LCEC_CONF_SDO_COMPLETE_SUBIDX
          then bind_res (icmd_parse_int s 0 255) (\<lambda>v. icmd_upd_sdo (sdo_subindex_update (\<lambda>_. v)) st)
          else Inr st) = Inr st'"
      by (simp add: icmd_coe_data_def)
    then obtain p0 :: conf_sdoconf where "(if sdo_subindex p0 \<noteq> LCEC_CONF_SDO_COMPLETE_SUBIDX
          then bind_res (icmd_parse_int s 0 255) (\<lambda>v. icmd_upd_sdo (sdo_subindex_update (\<lambda>_. v)) st)
          else Inr st) = Inr st'"
      by (auto simp only: bind_res_eq_Inr)
    then consider "st' = st"
      | "bind_res (icmd_parse_int s 0 255) (\<lambda>v. icmd_upd_sdo (sdo_subindex_update (\<lambda>_. v)) st) = Inr st'"
      by (metis sum.inject(2))
    then show ?thesis
    proof cases
      case 1
      with no show ?thesis by simp
    next
      case 2
      then obtain v where "icmd_upd_sdo (sdo_subindex_update (\<lambda>_. v)) st = Inr st'" by (rule bind_res_InrE)
      then show ?thesis by (rule icmd_upd_sdo_open [OF assms(1)]) simp
    qed
  next
    case data
    with assms(2) show ?thesis by (intro icmd_sdo_data [OF assms(1)]) (simp add: icmd_coe_data_def)
  qed
qed

lemma icmd_soe_data_open:
  assumes "icmd_open fr st (ic_currIdnConf st) (ItIdn p)" and "icmd_soe_data c s st = Inr st'"
  shows "(\<exists>q. icmd_open fr st' (ic_currIdnConf st') (ItIdn q)) \<and> xi_state st' = xi_state st"
proof -
  consider (trans) "xi_state st = icmd_num icmdTypeSoeIcmdTrans"
    | (drive) "xi_state st = icmd_num icmdTypeSoeIcmdDriveno" | (idn) "xi_state st = icmd_num icmdTypeSoeIcmdIdn"
    | (data) "xi_state st \<notin> icmd_num ` {icmdTypeSoeIcmdTrans, icmdTypeSoeIcmdDriveno, icmdTypeSoeIcmdIdn}"
    by auto
  then show ?thesis
  proof cases
    case trans
    with assms(2) obtain v where "icmd_upd_idn (idn_state_update (\<lambda>_. v)) st = Inr st'"
      by (auto simp: icmd_soe_data_def split: if_splits)
    then show ?thesis by (rule icmd_upd_idn_open [OF assms(1)]) simp
  next
    case drive
    with assms(2) obtain v where "icmd_upd_idn (idn_drive_update (\<lambda>_. word_of_int v)) st = Inr st'"
      by (auto simp: icmd_soe_data_def)
    then show ?thesis by (rule icmd_upd_idn_open [OF assms(1)]) simp
  next
    case idn
    with assms(2) obtain v where "icmd_upd_idn (idn_idn_update (\<lambda>_. word_of_int v)) st = Inr st'"
      by (auto simp: icmd_soe_data_def)
    then show ?thesis by (rule icmd_upd_idn_open [OF assms(1)]) simp
  next
    case data
    with assms(2) show ?thesis by (intro icmd_idn_data [OF assms(1)]) (simp add: icmd_soe_data_def)
  qed
qed

lemma icmdTypeCoeIcmdStart_open:
  assumes "icmd_closed fr st" and "icmdTypeCoeIcmdStart c ats st = Inr st'"
  shows "\<exists>p. icmd_open fr st' (ic_currSdoConf st') (ItSdo p)"
proof -
  let ?p0 = "\<lparr>sdo_index = 65535, sdo_subindex = 255, sdo_length = 0\<rparr>"
  have len: "sdo_length (fold icmd_coe_attr ats p) = sdo_length p" for p
    by (induction ats arbitrary: p) (auto simp: icmd_coe_attr_def split: prod.splits)
  from assms(2) obtain n where "st' = st\<lparr>ic_items := ic_items st @ [ItSdo (fold icmd_coe_attr ats ?p0)],
      ic_len := n, ic_currSdoConf := Some (length (ic_items st))\<rparr>"
    by (auto simp: icmdTypeCoeIcmdStart_def add_conf_item_eq split: if_splits)
  then show ?thesis using icmd_open_start [OF assms(1), of st' "ItSdo (fold icmd_coe_attr ats ?p0)"] len by auto
qed

lemma icmdTypeSoeIcmdStart_open:
  assumes "icmd_closed fr st" and "icmdTypeSoeIcmdStart c ats st = Inr st'"
  shows "\<exists>p. icmd_open fr st' (ic_currIdnConf st') (ItIdn p)"
proof -
  let ?p0 = "\<lparr>idn_drive = 0, idn_idn = 65535, idn_state = EC_AL_STATE_NONE, idn_length = 0\<rparr>"
  from assms(2) obtain n where "st' = st\<lparr>ic_items := ic_items st @ [ItIdn ?p0],
      ic_len := n, ic_currIdnConf := Some (length (ic_items st))\<rparr>"
    by (auto simp: icmdTypeSoeIcmdStart_def add_conf_item_eq split: if_splits)
  then show ?thesis using icmd_open_start [OF assms(1), of st' "ItIdn ?p0"] by auto
qed

lemma icmd_open_slave:
  assumes "icmd_open fr st (Some k) t" and "upd_slave f (ic_slave st) (ic_items st) = Inr its"
    and "frame_ok fr" and "\<And>s. f s = charge t s"
  shows "icmd_closed fr (icmd_set_items st its)"
proof -
  have "ic_slave st = Some (length (fr_pre fr))" using assms(1) by (auto simp: icmd_open_def icmd_at_def)
  then obtain s where "ic_items st ! length (fr_pre fr) = ItSlave s"
    and "its = (ic_items st)[length (fr_pre fr) := ItSlave (f s)]"
    using upd_slave_InrD [OF assms(2)] by auto
  then show ?thesis using icmd_close [OF assms(1,3), of "icmd_set_items st its" s] assms(4)
    by (simp add: icmd_set_items_def)
qed

lemma icmdTypeCoeIcmdEnd_closed:
  assumes "icmd_open fr st (ic_currSdoConf st) (ItSdo p)" and "icmdTypeCoeIcmdEnd st = Inr st'" and "frame_ok fr"
  shows "icmd_closed fr st'"
proof -
  obtain j where j: "ic_currSdoConf st = Some j" "j < length (ic_items st)" "ic_items st ! j = ItSdo p"
    using icmd_open_nth [OF assms(1)] by auto
  then have "icmd_get_sdo st = Inr p" by (simp add: icmd_get_sdo_def)
  then obtain its where "upd_slave (cs_sdoConfigLength_update (\<lambda>l. l + (sizeof_sdoconf + sdo_length p))) (ic_slave st) (ic_items st) = Inr its"
    and st': "st' = icmd_set_items st its"
    using assms(2) by (auto simp: icmdTypeCoeIcmdEnd_def split: if_splits)
  then show ?thesis
    using icmd_open_slave [of fr st j "ItSdo p"] assms(1,3) j by (simp add: charge_def n_defs st')
qed

lemma icmdTypeSoeIcmdEnd_closed:
  assumes "icmd_open fr st (ic_currIdnConf st) (ItIdn p)" and "icmdTypeSoeIcmdEnd st = Inr st'" and "frame_ok fr"
  shows "icmd_closed fr st'"
proof -
  obtain j where j: "ic_currIdnConf st = Some j" "j < length (ic_items st)" "ic_items st ! j = ItIdn p"
    using icmd_open_nth [OF assms(1)] by auto
  then have "icmd_get_idn st = Inr p" by (simp add: icmd_get_idn_def)
  then obtain its where "upd_slave (cs_idnConfigLength_update (\<lambda>l. l + (sizeof_idnconf + idn_length p))) (ic_slave st) (ic_items st) = Inr its"
    and st': "st' = icmd_set_items st its"
    using assms(2) by (auto simp: icmdTypeSoeIcmdEnd_def split: if_splits)
  then show ?thesis
    using icmd_open_slave [of fr st j "ItIdn p"] assms(1,3) j by (simp add: charge_def n_defs st')
qed

section \<open>The table\<close>

text \<open>The three kinds of states: inside a CoE command, inside a SoE command, between commands.\<close>

definition icmd_class :: "int \<Rightarrow> nat" where
  "icmd_class n = (if 4 \<le> n \<and> n \<le> 11 then 1 else if 14 \<le> n \<and> n \<le> 23 then 2 else 0)"

lemma icmd_inv_class:
  "icmd_inv fr st \<longleftrightarrow> frame_ok fr \<and>
     (icmd_class (xi_state st) = 0 \<longrightarrow> icmd_closed fr st) \<and>
     (icmd_class (xi_state st) = 1 \<longrightarrow> (\<exists>p. icmd_open fr st (ic_currSdoConf st) (ItSdo p))) \<and>
     (icmd_class (xi_state st) = 2 \<longrightarrow> (\<exists>p. icmd_open fr st (ic_currIdnConf st) (ItIdn p)))"
  by (simp add: icmd_inv_def icmd_class_def)

lemma icmd_rows:
  "r \<in> set (icmd_xml_states c) \<Longrightarrow>
   (xr_start r = None \<and> xr_end r = None \<and> icmd_class (xr_from r) = icmd_class (xr_to r)) \<or>
   (xr_start r = Some (icmdTypeCoeIcmdStart c) \<and> xr_end r = Some icmdTypeCoeIcmdEnd \<and>
      icmd_class (xr_from r) = 0 \<and> icmd_class (xr_to r) = 1) \<or>
   (xr_start r = Some (icmdTypeSoeIcmdStart c) \<and> xr_end r = Some icmdTypeSoeIcmdEnd \<and>
      icmd_class (xr_from r) = 0 \<and> icmd_class (xr_to r) = 2)"
  by (simp add: icmd_xml_states_def icmd_row_def icmd_class_def) (elim disjE; simp)

lemma icmd_one_way: "distinct (map xr_to (icmd_xml_states c))"
  by (simp add: icmd_xml_states_def icmd_row_def)

lemma icmd_inv_enter: "icmd_inv fr (st\<lparr>xi_state := n\<rparr>) \<longleftrightarrow> frame_ok fr \<and>
     (icmd_class n = 0 \<longrightarrow> icmd_closed fr st) \<and>
     (icmd_class n = 1 \<longrightarrow> (\<exists>p. icmd_open fr st (ic_currSdoConf st) (ItSdo p))) \<and>
     (icmd_class n = 2 \<longrightarrow> (\<exists>p. icmd_open fr st (ic_currIdnConf st) (ItIdn p)))"
  by (simp add: icmd_inv_class)

text \<open>No text changes the parser state.\<close>

definition keeps_state :: "int \<Rightarrow> conf_fail + icmd_state \<Rightarrow> bool" where
  "keeps_state n r \<longleftrightarrow> (\<forall>j. r = Inr j \<longrightarrow> xi_state j = n)"

lemma keeps_bind: "(\<And>a. r = Inr a \<Longrightarrow> keeps_state n (f a)) \<Longrightarrow> keeps_state n (bind_res r f)"
  by (cases r) (simp_all add: keeps_state_def)

lemma keeps_if:
  "(b \<Longrightarrow> keeps_state n r) \<Longrightarrow> (\<not> b \<Longrightarrow> keeps_state n s) \<Longrightarrow> keeps_state n (if b then r else s)"
  by simp

lemma keeps_simps:
  "keeps_state (xi_state st) (Inr st)" "keeps_state n (Inl e)"
  "keeps_state (xi_state st) (icmd_upd_sdo f st)" "keeps_state (xi_state st) (icmd_upd_idn g st)"
  by (auto simp: keeps_state_def icmd_upd_sdo_def icmd_upd_idn_def icmd_set_items_def)

lemma keeps_parse_data:
  assumes "\<And>n st'. keeps_state (xi_state st') (f n st')"
  shows "keeps_state (xi_state st) (bind_res (icmd_parse_data c s st) (\<lambda>(n, st'). f n st'))"
proof (rule keeps_bind)
  fix a assume a: "icmd_parse_data c s st = Inr a"
  obtain n st' where "a = (n, st')" by (cases a)
  with a assms [of st' n] show "keeps_state (xi_state st) (case a of (n, st') \<Rightarrow> f n st')"
    by (auto dest!: icmd_parse_data_InrD)
qed

lemma icmd_data_state:
  assumes "icmd_data_handler c s i = Inr j"
  shows "xi_state j = xi_state i"
proof -
  have "keeps_state (xi_state i) (icmd_coe_data c s i)"
    unfolding icmd_coe_data_def by (intro keeps_if keeps_parse_data keeps_bind keeps_simps)
  moreover have "keeps_state (xi_state i) (icmd_soe_data c s i)"
    unfolding icmd_soe_data_def by (intro keeps_if keeps_parse_data keeps_bind keeps_simps)
  moreover have "icmd_coe_data c s i = Inr j \<or> icmd_soe_data c s i = Inr j \<or> j = i"
    using assms unfolding icmd_data_handler_def by (simp split: if_splits)
  ultimately show ?thesis unfolding keeps_state_def by blast
qed

lemma icmd_data_inv:
  assumes "icmd_inv fr i" and "icmd_data_handler c s i = Inr j"
  shows "icmd_inv fr j"
proof -
  consider (coe) "icmd_class (xi_state i) = 1" "icmd_coe_data c s i = Inr j"
    | (soe) "icmd_class (xi_state i) = 2" "icmd_soe_data c s i = Inr j" | (skip) "j = i"
    using assms(2) by (auto simp: icmd_data_handler_def icmd_class_def split: if_splits)
  then show ?thesis
  proof cases
    case coe
    then obtain p where "icmd_open fr i (ic_currSdoConf i) (ItSdo p)" using assms(1) by (auto simp: icmd_inv_class)
    from icmd_coe_data_open [OF this coe(2)] coe(1) assms(1) show ?thesis by (simp add: icmd_inv_class)
  next
    case soe
    then obtain p where "icmd_open fr i (ic_currIdnConf i) (ItIdn p)" using assms(1) by (auto simp: icmd_inv_class)
    from icmd_soe_data_open [OF this soe(2)] soe(1) assms(1) show ?thesis by (simp add: icmd_inv_class)
  next
    case skip
    with assms(1) show ?thesis by simp
  qed
qed

interpretation icmds: xml_tree "icmd_xml_states c" "icmd_data_handler c" "icmd_inv fr" for c fr
proof
  fix r i ats j
  assume r: "r \<in> set (icmd_xml_states c)" and inv: "icmd_inv fr i" and st: "xi_state i = xr_from r"
    and h: "(case xr_start r of None \<Rightarrow> Inr i | Some h \<Rightarrow> h ats i) = Inr j"
  from icmd_rows [OF r] show "icmd_inv fr (j\<lparr>xi_state := xr_to r\<rparr>)"
    using inv st h by (elim disjE)
      (auto simp: icmd_inv_enter icmd_inv_class icmdTypeCoeIcmdStart_open icmdTypeSoeIcmdStart_open)
next
  fix r i j
  assume r: "r \<in> set (icmd_xml_states c)" and inv: "icmd_inv fr i" and st: "xi_state i = xr_to r"
    and h: "(case xr_end r of None \<Rightarrow> Inr i | Some h \<Rightarrow> h i) = Inr j"
  from icmd_rows [OF r] show "icmd_inv fr (j\<lparr>xi_state := xr_from r\<rparr>)"
    using inv st h by (elim disjE)
      (auto simp: icmd_inv_enter icmd_inv_class intro: icmdTypeCoeIcmdEnd_closed icmdTypeSoeIcmdEnd_closed)
next
  fix i s j
  assume "icmd_inv fr i" and "icmd_data_handler c s i = Inr j"
  then show "icmd_inv fr j" by (rule icmd_data_inv)
next
  fix r r'
  assume "r \<in> set (icmd_xml_states c)" and "r' \<in> set (icmd_xml_states c)" and "xr_to r = xr_to r'"
  with icmd_one_way [of c] show "r = r'" by (auto simp: distinct_map inj_on_def)
next
  fix s i j
  assume "icmd_data_handler c s i = Inr j"
  then show "xi_state j = xi_state i" by (rule icmd_data_state)
qed

text \<open>A whole file: from a well-counted stream to a well-counted stream.\<close>

lemma parseIcmds_closed:
  assumes "parseIcmds c k its n file = Inr (its', n')" and "frame_ok fr"
    and "its = fr_pre fr @ ItSlave (fr_slave fr) # B" and "k = Some (length (fr_pre fr))"
    and "\<forall>x\<in>set B. 0 < level x" and "icmd_part fr (fr_slave fr) B"
    and "\<And>evs. file = Some (evs, True) \<Longrightarrow> balanced [] evs"
  shows "\<exists>s' B'. its' = fr_pre fr @ ItSlave s' # B' \<and> same_slave (fr_slave fr) s' \<and>
     (\<forall>x\<in>set B'. 0 < level x) \<and> icmd_part fr s' B'"
proof -
  let ?st = "\<lparr>xi_state = 0, ic_items = its, ic_len = n, ic_slave = k, ic_currSdoConf = None, ic_currIdnConf = None\<rparr>"
  obtain evs st where f: "file = Some (evs, True)" and its': "its' = ic_items st"
    and run: "xml_run (icmd_xml_states c) (icmd_data_handler c) evs ?st = Inr st"
    using assms(1) by (auto simp: parseIcmds_def split: option.splits if_splits)
  have "icmd_closed fr ?st"
    unfolding icmd_closed_def using assms(3-6) by (auto simp: icmd_at_def)
  then have "icmd_inv fr ?st" using assms(2) by (simp add: icmd_inv_class icmd_class_def)
  with run have "icmd_inv fr st" by (rule icmds.run_inv)
  moreover have "xi_state st = 0"
    using icmds.run_returns [OF assms(7) [OF f] run] by simp
  ultimately have "icmd_closed fr st" by (simp add: icmd_inv_class icmd_class_def)
  then show ?thesis by (auto simp: icmd_closed_def icmd_at_def its')
qed

text \<open>
  The files the parser is given: Expat accepts a document to its end only if its elements
  are properly nested.
\<close>

definition icmd_files_balanced :: "conf_env \<Rightarrow> bool" where
  "icmd_files_balanced env \<longleftrightarrow>
     (\<forall>fn evs. ev_icmd_file env fn = Some (evs, True) \<longrightarrow> balanced [] evs)"

lemma parseInitCmdsAttrs_inv:
  assumes "inv_at reg lcecConfTypeSlave st c" and "parseInitCmdsAttrs env ats st = Inr st'"
    and "icmd_files_balanced env"
  shows "\<exists>c'. inv_at reg lcecConfTypeInitCmds st' c'"
proof -
  obtain A s B where i: "base_inv reg st c" "master_inv st c" "slave_inv st c"
    and sa: "slave_at st A s B" "cx_slave c = Some (cs_type_name s = ''generic'')"
    "cf_items st = A @ ItSlave s # B" "cf_currSlave st = Some (length A)" "\<forall>x\<in>set B. 0 < level x"
    using assms(1) by (rule inv_at_SlaveE)
  obtain fn its n where p: "parseIcmds (ev_calloc env) (cf_currSlave st) (cf_items st) (cf_len st) (ev_icmd_file env fn) = Inr (its, n)"
    and st': "st' = st\<lparr>cf_items := its, cf_len := n\<rparr>"
    using assms(2) by (auto simp: parseInitCmdsAttrs_def split: option.splits if_splits)
  have ok: "slave_counts_ok s B" "stream_ok B" using base_inv_slaveD [OF i(1) sa(3)] by auto
  have pend: "cx_pend c = 0" using i(1) by (simp add: base_inv_def)
  obtain c0 c1 where c1: "ctx_run reg ctx_init A = Some c0" "ctx_step reg c0 (ItSlave s) = Some c1" "ctx_run reg c1 B = Some c"
    using i(1) by (auto simp: base_inv_def sa(3) ctx_run_append bind_eq_Some_conv)
  let ?fr = "\<lparr>fr_reg = reg, fr_pre = A, fr_slave = s, fr_c1 = c1, fr_c = c\<rparr>"
  obtain s' B' where 1: "its = A @ ItSlave s' # B'" "same_slave s s'" "\<forall>x\<in>set B'. 0 < level x"
    "slave_counts_ok s' B'" "stream_ok B'" "ctx_run reg c1 B' = Some c"
    using parseIcmds_closed [OF p, of ?fr B] sa assms(3) ok pend c1(3)
    by (auto simp: icmd_part_def frame_ok_def icmd_files_balanced_def)
  have run: "ctx_run reg ctx_init (A @ ItSlave s' # B') = Some c"
    using c1 1(6) ctx_step_same_slave [OF 1(2), of reg c0] by (simp add: ctx_run_append)
  have "base_inv reg st' c"
    using i(1) run 1(4,5) by (simp add: base_inv_def st' 1(1) sa(3) stream_ok_header pend)
  moreover have "master_inv st' c"
  proof -
    obtain m where m: "get_master (cf_items st) (cf_currMaster st) = Inr m" "cx_period c = Some (cm_appTimePeriod m)"
      using i(2) by (auto simp: master_inv_def)
    from get_master_snoc [OF get_master_before [OF m(1) [unfolded sa(3)] sa(5)]]
    have "get_master its (cf_currMaster st) = Inr m" by (simp only: 1(1))
    with m(2) show ?thesis by (auto simp: master_inv_def st')
  qed
  moreover have "slave_inv st' c"
  proof -
    have "slave_at st' A s' B'" using sa 1 by (simp add: slave_at_def st')
    moreover have "cx_slave c = Some (cs_type_name s' = ''generic'')" using sa(2) 1(2) by (simp add: same_slave_def)
    ultimately show ?thesis using i(3) unfolding slave_inv_def by (auto simp: st')
  qed
  ultimately show ?thesis by (auto simp: inv_at_Slave)
qed

end
