(* ===== verification/ConfSound.thy ===== *)
theory ConfSound
  imports IcmdSafety
begin

text \<open>
  The configuration parser as an instance of the XML machine: its handler table keeps the
  parser invariant, so a run that succeeds hands over a valid token stream.
\<close>

section \<open>The configuration parser's table\<close>

text \<open>
  A row with its handler, as the invariant sees it. The row with the name \<^verbatim>\<open>"NULL"\<close> leads
  from a state no other row leads to.
\<close>

definition conf_row_ok :: "conf_env \<Rightarrow> conf_xml_row \<Rightarrow> bool" where
  "conf_row_ok env r \<longleftrightarrow>
     (\<exists>a b. xr_from r = conf_type_num a \<and> xr_to r = conf_type_num b \<and> a = parent_of b \<and> xr_end r = None \<and>
       (\<forall>ats i j c. inv_at (ev_types env) a i c \<longrightarrow> xi_state i = conf_type_num a \<longrightarrow>
         (case xr_start r of None \<Rightarrow> Inr i | Some h \<Rightarrow> h ats i) = Inr j \<longrightarrow>
         (\<exists>c'. inv_at (ev_types env) b j c')))"

lemma conf_row_okI:
  assumes "a = parent_of b"
    and "\<And>ats i j c. inv_at (ev_types env) a i c \<Longrightarrow> xi_state i = conf_type_num a \<Longrightarrow> h ats i = Inr j \<Longrightarrow>
      \<exists>c'. inv_at (ev_types env) b j c'"
  shows "conf_row_ok env (conf_row el a b (Some h))"
  using assms by (auto simp: conf_row_ok_def conf_row_def)

lemma conf_rows_ok:
  assumes "short_names (ev_types env)" and "icmd_files_balanced env" and "r \<in> set (conf_xml_states env)"
  shows "conf_row_ok env r \<or> (xr_from r = -1 \<and> xr_to r = -1 \<and> xr_start r = None \<and> xr_end r = None)"
proof -
  note m = parseMasterAttrs_inv parseSlaveAttrs_inv [OF _ _ assms(1)] parseDcConfAttrs_inv parseWatchdogAttrs_inv
    parseSdoConfigAttrs_inv parseDataRawAttrs_inv parseInitCmdsAttrs_inv [OF _ _ assms(2)]
    parseSyncManagerAttrs_inv parsePdoAttrs_inv parsePdoEntryAttrs_inv parseComplexEntryAttrs_inv
    parseModParamAttrs_inv
  have masters: "conf_row_ok env (conf_row el lcecConfTypeNone lcecConfTypeMasters None)" for el
    unfolding conf_row_ok_def
    by (rule exI [of _ lcecConfTypeNone], rule exI [of _ lcecConfTypeMasters])
      (auto simp: conf_row_def parent_of_def inv_at_None inv_at_Masters)
  have idn: "conf_row_ok env (conf_row el lcecConfTypeSlave lcecConfTypeIdnConfig (Some (parseIdnConfigAttrs env)))" for el
    by (rule conf_row_okI) (simp_all add: parent_of_def parseIdnConfigAttrs_fails)
  have idnraw: "conf_row_ok env (conf_row el lcecConfTypeIdnConfig lcecConfTypeIdnDataRaw (Some h))" for el h
    by (rule conf_row_okI) (simp_all add: parent_of_def inv_at_def)
  have rows: "list_all (\<lambda>r. conf_row_ok env r \<or> xr_from r = -1 \<and> xr_to r = -1 \<and> xr_start r = None \<and> xr_end r = None)
      (conf_xml_states env)"
    unfolding conf_xml_states_def list.pred_inject
    by (intro conjI; (rule disjI1, (rule masters idn idnraw | rule conf_row_okI, simp add: parent_of_def, erule m, assumption+) | simp))
  then show ?thesis using assms(3) by (simp add: list_all_iff)
qed

lemma conf_rows_named: "list_all (\<lambda>r. xr_el r \<noteq> None) (conf_xml_states env)"
  by (simp add: conf_xml_states_def conf_row_def)

definition conf_run_inv :: "conf_env \<Rightarrow> conf_state \<Rightarrow> bool" where
  "conf_run_inv env st \<longleftrightarrow>
     short_names (ev_types env) \<and> icmd_files_balanced env \<and> conf_inv (ev_types env) st"

lemma conf_one_way: "distinct (map xr_to (conf_xml_states env))"
  by (simp add: conf_xml_states_def conf_row_def)

interpretation confs: xml_tree "conf_xml_states env" conf_no_cdata "conf_run_inv env" for env
proof
  fix r i ats j
  assume r: "r \<in> set (conf_xml_states env)" and inv: "conf_run_inv env i" and st: "xi_state i = xr_from r"
    and h: "(case xr_start r of None \<Rightarrow> Inr i | Some h \<Rightarrow> h ats i) = Inr j"
  have ok: "short_names (ev_types env)" "icmd_files_balanced env" "conf_inv (ev_types env) i"
    using inv by (simp_all add: conf_run_inv_def)
  from conf_rows_ok [OF ok(1,2) r] show "conf_run_inv env (j\<lparr>xi_state := xr_to r\<rparr>)"
  proof
    assume "conf_row_ok env r"
    then obtain a b where ab: "xr_from r = conf_type_num a" "xr_to r = conf_type_num b"
      and step: "\<And>c. inv_at (ev_types env) a i c \<Longrightarrow> \<exists>c'. inv_at (ev_types env) b j c'"
      using st h unfolding conf_row_ok_def by metis
    from ok(3) ab(1) st have "\<exists>c. inv_at (ev_types env) a i c" by (simp add: conf_inv_at)
    with step have "\<exists>c'. inv_at (ev_types env) b j c'" by blast
    with ok ab(2) show ?thesis by (simp add: conf_run_inv_def conf_inv_enter)
  next
    assume "xr_from r = -1 \<and> xr_to r = -1 \<and> xr_start r = None \<and> xr_end r = None"
    with st h have "j\<lparr>xi_state := xr_to r\<rparr> = i" by simp
    with inv show ?thesis by simp
  qed
next
  fix r i j
  assume r: "r \<in> set (conf_xml_states env)" and inv: "conf_run_inv env i" and st: "xi_state i = xr_to r"
    and h: "(case xr_end r of None \<Rightarrow> Inr i | Some h \<Rightarrow> h i) = Inr j"
  have ok: "short_names (ev_types env)" "icmd_files_balanced env" "conf_inv (ev_types env) i"
    using inv by (simp_all add: conf_run_inv_def)
  from conf_rows_ok [OF ok(1,2) r] show "conf_run_inv env (j\<lparr>xi_state := xr_from r\<rparr>)"
  proof
    assume "conf_row_ok env r"
    then obtain b where b: "xr_from r = conf_type_num (parent_of b)" "xr_to r = conf_type_num b" "xr_end r = None"
      unfolding conf_row_ok_def by metis
    from ok(3) b(2) st have "\<exists>c. inv_at (ev_types env) b i c" by (simp add: conf_inv_at)
    then have "\<exists>c. inv_at (ev_types env) (parent_of b) i c" using inv_at_parent by blast
    with ok b h show ?thesis by (simp add: conf_run_inv_def conf_inv_enter)
  next
    assume "xr_from r = -1 \<and> xr_to r = -1 \<and> xr_start r = None \<and> xr_end r = None"
    with st h have "j\<lparr>xi_state := xr_from r\<rparr> = i" by simp
    with inv show ?thesis by simp
  qed
next
  fix i s j
  assume "conf_run_inv env i" and "conf_no_cdata s i = Inr j"
  then show "conf_run_inv env j" by (simp add: conf_no_cdata_def)
next
  fix r r'
  assume "r \<in> set (conf_xml_states env)" and "r' \<in> set (conf_xml_states env)" and "xr_to r = xr_to r'"
  with conf_one_way [of env] show "r = r'" by (auto simp: distinct_map inj_on_def)
next
  fix s i j
  assume "conf_no_cdata s i = Inr j"
  then show "xi_state j = xi_state i" by (simp add: conf_no_cdata_def)
qed

text \<open>What the shared memory image of a successful run holds.\<close>

lemma conf_image_items:
  assumes "conf_main env shmem_ok file = Inr im"
  shows "\<exists>evs st n. file = Some (evs, True) \<and> conf_run env evs = Inr st \<and>
     map snd (im_blocks im) = cf_items st @ [ItNull] \<and> im_magic im = LCEC_CONF_SHMEM_MAGIC"
proof -
  obtain evs st st' where 1: "file = Some (evs, True)" "conf_run env evs = Inr st" "add_item env ItNull st = Inr st'"
    and im: "im = \<lparr>im_magic = LCEC_CONF_SHMEM_MAGIC, im_length = cf_len st',
      im_blocks = snd (copyFreeOutputBuffer (conf_buf (cf_items st') (cf_len st')) True)\<rparr>"
    using assms by (auto simp: conf_main_def split: option.splits if_splits)
  have "map snd (im_blocks im) = cf_items st'"
    by (intro nth_equalityI)
      (simp_all add: im copyFreeOutputBuffer_def conf_buf_def copy_blocks_spec comp_def)
  also have "\<dots> = cf_items st @ [ItNull]" using add_item_InrD [OF 1(3)] by simp
  finally show ?thesis using 1 im by auto
qed

lemma conf_main_valid:
  assumes "conf_main env shmem_ok file = Inr im" and "short_names (ev_types env)" and "icmd_files_balanced env"
  shows "valid_stream (ev_types env) (map snd (im_blocks im))"
proof -
  obtain evs st where run: "conf_run env evs = Inr st" and its: "map snd (im_blocks im) = cf_items st @ [ItNull]"
    using conf_image_items [OF assms(1)] by auto
  have "conf_run_inv env conf_init_state" using assms(2,3) by (simp add: conf_run_inv_def conf_inv_init)
  with run [unfolded conf_run_def] have "conf_run_inv env st" by (rule confs.run_inv)
  then obtain c where "base_inv (ev_types env) st c" by (auto simp: conf_run_inv_def conf_inv_def)
  then show ?thesis by (auto simp: valid_stream_def its base_inv_def)
qed

end
