(* ===== verification/ConfPipeline.thy ===== *)
theory ConfPipeline
  imports ConfSound
begin

text \<open>
  The loader on a valid token stream: every store of \<open>lcec_parse_config\<close> stays inside the
  arrays that were allocated with the slave token's counts, every data read is aligned, and
  the token loop fails in one case only, two slaves that disagree on a Sync Unit's cycle.
\<close>

section \<open>Room in the arrays\<close>

definition room :: "nat option \<Rightarrow> 'a list option \<Rightarrow> nat \<Rightarrow> bool" where
  "room p arr n \<longleftrightarrow> (\<exists>k xs. p = Some k \<and> arr = Some xs \<and> k + n = length xs)"

definition bytes_room :: "(nat \<times> nat) option \<Rightarrow> nat \<Rightarrow> bool" where
  "bytes_room p n \<longleftrightarrow> (\<exists>used cap. p = Some (used, cap) \<and> used + n + 16 \<le> cap)"

lemma room_store:
  "room p arr (Suc n) \<Longrightarrow>
   \<exists>k xs. p = Some k \<and> store_at x k arr = Some (Some xs) \<and> room (Some (Suc k)) (Some xs) n"
  by (auto simp: room_def store_at_def)

lemma room_store2:
  "room p arr (Suc (Suc n)) \<Longrightarrow>
   \<exists>k xs. p = Some k \<and> Option.bind (store_at x k arr) (store_at y (Suc k)) = Some (Some xs) \<and>
     room (Some (Suc k)) (Some xs) (Suc n)"
  by (auto simp: room_def store_at_def)

section \<open>The current slave\<close>

lemma cur_slave_upd: "cur_slave st = Some s \<Longrightarrow> cur_slave (upd_cur_slave f st) = Some (f s)"
  by (auto simp: cur_slave_def upd_cur_slave_def upd_master_def split: option.splits if_splits)

lemma upd_cur_slave_fields [simp]:
  "ld_slave (upd_cur_slave f st) = ld_slave st" "ld_slave_count (upd_cur_slave f st) = ld_slave_count st"
  "ld_pdo_entries (upd_cur_slave f st) = ld_pdo_entries st" "ld_pdos (upd_cur_slave f st) = ld_pdos st"
  "ld_sms (upd_cur_slave f st) = ld_sms st" "ld_hal (upd_cur_slave f st) = ld_hal st"
  "ld_hal_dir (upd_cur_slave f st) = ld_hal_dir st" "ld_sdo (upd_cur_slave f st) = ld_sdo st"
  "ld_idn (upd_cur_slave f st) = ld_idn st" "ld_modparams (upd_cur_slave f st) = ld_modparams st"
  "ld_pe (upd_cur_slave f st) = ld_pe st"
  by (simp_all add: upd_cur_slave_def split: option.split)

lemma cur_slave_cong: "ld_masters st' = ld_masters st \<Longrightarrow> ld_slave st' = ld_slave st \<Longrightarrow> cur_slave st' = cur_slave st"
  by (cases "ld_slave st") (auto simp: cur_slave_def)

lemma cur_slave_fields [simp]:
  "cur_slave (st\<lparr>ld_sms := a\<rparr>) = cur_slave st" "cur_slave (st\<lparr>ld_pdos := a\<rparr>) = cur_slave st"
  "cur_slave (st\<lparr>ld_pdo_entries := a\<rparr>) = cur_slave st" "cur_slave (st\<lparr>ld_hal := a\<rparr>) = cur_slave st"
  "cur_slave (st\<lparr>ld_hal_dir := d\<rparr>) = cur_slave st" "cur_slave (st\<lparr>ld_sdo := b\<rparr>) = cur_slave st"
  "cur_slave (st\<lparr>ld_idn := b\<rparr>) = cur_slave st" "cur_slave (st\<lparr>ld_modparams := a\<rparr>) = cur_slave st"
  "cur_slave (st\<lparr>ld_pe := e\<rparr>) = cur_slave st"
  by (auto intro: cur_slave_cong)

text \<open>What a slave update leaves of the current master: its period and its Sync Units.\<close>

definition units_inv :: "load_state \<Rightarrow> u32 option \<Rightarrow> (string \<Rightarrow> u32 option) \<Rightarrow> bool" where
  "units_inv st per us \<longleftrightarrow>
     (case per of None \<Rightarrow> True | Some p \<Rightarrow> ld_masters st \<noteq> [] \<and>
        ma_app_time_period (last (ld_masters st)) = p \<and>
        (\<forall>u\<in>set (ma_sync_units (last (ld_masters st))). length (su_name u) < LCEC_CONF_STR_MAXLEN) \<and>
        (\<forall>n. length n < LCEC_CONF_STR_MAXLEN \<longrightarrow>
           us n = map_option (\<lambda>(k, u). su_cycle_time u) (find_sync_unit n 0 (ma_sync_units (last (ld_masters st))))))"

lemma last_upd_master:
  assumes "ms \<noteq> []" and "\<And>m. ma_app_time_period (f m) = ma_app_time_period m \<and> ma_sync_units (f m) = ma_sync_units m"
  shows "upd_master i f ms \<noteq> [] \<and>
    ma_app_time_period (last (upd_master i f ms)) = ma_app_time_period (last ms) \<and>
    ma_sync_units (last (upd_master i f ms)) = ma_sync_units (last ms)"
  using assms by (auto simp: upd_master_def last_conv_nth nth_list_update)

lemma units_inv_upd [simp]: "units_inv (upd_cur_slave f st) per us = units_inv st per us"
proof (cases "ld_masters st = []")
  case True
  then show ?thesis by (simp add: units_inv_def upd_cur_slave_def upd_master_def split: option.splits)
next
  case False
  let ?g = "\<lambda>si m. if si < length (ma_slaves m) then m\<lparr>ma_slaves := (ma_slaves m)[si := f (ma_slaves m ! si)]\<rparr> else m"
  have "ma_app_time_period (?g si m) = ma_app_time_period m \<and> ma_sync_units (?g si m) = ma_sync_units m" for si m by simp
  from last_upd_master [OF False this] show ?thesis
    by (auto simp: units_inv_def upd_cur_slave_def False split: option.split)
qed

lemma find_sync_unit_append:
  "find_sync_unit n k (us @ [u]) =
     (case find_sync_unit n k us of Some r \<Rightarrow> Some r
      | None \<Rightarrow> if take LCEC_CONF_STR_MAXLEN (su_name u) = take LCEC_CONF_STR_MAXLEN n then Some (k + length us, u) else None)"
  by (induction us arbitrary: k) (auto split: option.split)

section \<open>The invariant\<close>

definition slave_room :: "bool \<Rightarrow> lcec_slave \<Rightarrow> load_state \<Rightarrow> conf_item list \<Rightarrow> bool" where
  "slave_room gen s st rest \<longleftrightarrow>
     (gen \<longrightarrow>
        room (ld_sms st) (sl_generic_sync_managers s) (Suc (seg_cnt 0 n_sm rest)) \<and>
        room (ld_pdos st) (sl_generic_pdos s) (seg_cnt 0 n_pdo rest) \<and>
        room (ld_pdo_entries st) (sl_generic_pdo_entries s) (seg_cnt 0 n_entry rest) \<and>
        room (ld_hal st) (sl_hal_data s) (seg_cnt 0 n_map rest)) \<and>
     (0 < seg_cnt 0 n_sdo rest \<longrightarrow> bytes_room (ld_sdo st) (seg_cnt 0 n_sdo rest)) \<and>
     (0 < seg_cnt 0 n_idn rest \<longrightarrow> bytes_room (ld_idn st) (seg_cnt 0 n_idn rest)) \<and>
     (0 < seg_cnt 0 n_mod rest \<longrightarrow> room (ld_modparams st) (sl_modparams s) (Suc (seg_cnt 0 n_mod rest)))"

definition load_inv :: "ctx \<Rightarrow> (string \<Rightarrow> u32 option) \<Rightarrow> conf_item list \<Rightarrow> load_state \<Rightarrow> bool" where
  "load_inv c us rest st \<longleftrightarrow>
     units_inv st (cx_period c) us \<and>
     (\<forall>gen. cx_slave c = Some gen \<longrightarrow>
        (\<exists>s. cur_slave st = Some s \<and> slave_room gen s st rest) \<and>
        (cx_dir c \<longrightarrow> ld_hal_dir st \<noteq> HAL_DIR_UNSPECIFIED) \<and> (cx_pe c \<longrightarrow> ld_pe st \<noteq> None))"

lemma load_inv_init: "load_inv ctx_init us rest load_init"
  by (simp add: load_inv_def ctx_init_def units_inv_def)

section \<open>One token\<close>

lemma load_master_inv:
  assumes "load_inv c us (ItMaster m # rest) st"
  shows "\<exists>st'. load_master m st = Inr st' \<and>
    load_inv (c\<lparr>cx_period := Some (cm_appTimePeriod m), cx_slave := None\<rparr>) Map.empty rest st'"
  by (simp add: load_master_def load_inv_def units_inv_def list_append_item_def)

lemma get_sync_unit_cases:
  assumes "units_inv st (Some p) us" and "p \<noteq> 0" and "cyc \<noteq> 0" and "cyc mod p = 0"
    and "length n < LCEC_CONF_STR_MAXLEN"
  shows "lcec_master_get_sync_unit p (ma_sync_units (last (ld_masters st))) n cyc =
    (case us n of
       None \<Rightarrow> Some (length (ma_sync_units (last (ld_masters st))),
                 ma_sync_units (last (ld_masters st)) @ [make_sync_unit p n cyc])
     | Some cy \<Rightarrow> if cy = cyc then Some (fst (the (find_sync_unit n 0 (ma_sync_units (last (ld_masters st))))),
                                       ma_sync_units (last (ld_masters st))) else None)"
  using assms
  by (auto simp: lcec_master_get_sync_unit_def units_inv_def list_append_item_def split: option.splits prod.splits
      simp del: mod_0_imp_dvd)

text \<open>The state a slave token leaves, and the room it makes.\<close>

definition slave_loaded :: "registry \<Rightarrow> conf_slave \<Rightarrow> nat \<Rightarrow> sync_unit list \<Rightarrow> load_state \<Rightarrow> load_state" where
  "slave_loaded reg c unit us st =
     (let generic = (cs_type_name c = ''generic'');
          ty = (if generic then None else lcec_findslavetype reg (cs_type_name c));
          mi = length (ld_masters st) - 1 in
      st\<lparr>ld_masters := upd_master mi
            (\<lambda>m. m\<lparr>ma_sync_units := us, ma_slaves := list_append_item (ma_slaves m) (load_new_slave c ty unit)\<rparr>)
            (ld_masters st),
         ld_slave := Some (mi, length (ma_slaves (ld_masters st ! mi))),
         ld_slave_count := Suc (ld_slave_count st),
         ld_pdo_entries := (if generic then Some 0 else None), ld_pdos := (if generic then Some 0 else None),
         ld_sms := (if generic then Some 0 else None), ld_hal := (if generic then Some 0 else None),
         ld_hal_dir := HAL_DIR_UNSPECIFIED,
         ld_sdo := (if cs_sdoConfigLength c > 0 then Some (0, cs_sdoConfigLength c + sizeof_slave_sdoconf) else None),
         ld_idn := (if cs_idnConfigLength c > 0 then Some (0, cs_idnConfigLength c + sizeof_slave_idnconf) else None),
         ld_modparams := (if cs_modParamCount c > 0 then Some 0 else None)\<rparr>)"

lemma load_slave_eq:
  assumes "ld_masters st \<noteq> []" and "cs_type_name c = ''generic'' \<or> lcec_findslavetype reg (cs_type_name c) \<noteq> None"
  shows "load_slave reg c st =
    (case lcec_master_get_sync_unit (ma_app_time_period (last (ld_masters st))) (ma_sync_units (last (ld_masters st)))
            (conf_strncpy (cs_syncUnit c)) (cs_syncUnitCycle c) of
       None \<Rightarrow> Inl (LoadError ''syncUnit'')
     | Some (unit, us) \<Rightarrow> Inr (slave_loaded reg c unit us st))"
  using assms by (auto simp: load_slave_def slave_loaded_def Let_def last_conv_nth split: option.splits)

lemma slave_loaded_room:
  assumes "ld_masters st \<noteq> []" and "slave_counts_ok c rest"
  shows "\<exists>s. cur_slave (slave_loaded reg c unit us st) = Some s \<and>
    slave_room (cs_type_name c = ''generic'') s (slave_loaded reg c unit us st) rest"
proof -
  let ?ty = "if cs_type_name c = ''generic'' then None else lcec_findslavetype reg (cs_type_name c)"
  let ?s = "load_new_slave c ?ty unit"
  have "cur_slave (slave_loaded reg c unit us st) = Some ?s"
    using assms(1) by (simp add: cur_slave_def slave_loaded_def Let_def upd_master_def list_append_item_def)
  moreover have "slave_room (cs_type_name c = ''generic'') ?s (slave_loaded reg c unit us st) rest"
    using assms(2)
    by (simp add: slave_room_def slave_loaded_def Let_def load_new_slave_def room_def bytes_room_def
        slave_counts_ok_def sizeof_slave_sdoconf_def sizeof_slave_idnconf_def)
  ultimately show ?thesis by blast
qed

lemma slave_loaded_units:
  assumes "ld_masters st \<noteq> []"
  shows "ld_masters (slave_loaded reg c unit us st) \<noteq> [] \<and>
    ma_app_time_period (last (ld_masters (slave_loaded reg c unit us st))) = ma_app_time_period (last (ld_masters st)) \<and>
    ma_sync_units (last (ld_masters (slave_loaded reg c unit us st))) = us"
  using assms by (auto simp: slave_loaded_def Let_def upd_master_def last_conv_nth nth_list_update)

lemma slave_loaded_inv:
  assumes "load_inv c us (ItSlave s # rest) st" and "cx_period c = Some p" and "slave_counts_ok s rest"
    and "units_inv (slave_loaded reg s unit uu st) (Some p) us'"
  shows "load_inv (c\<lparr>cx_slave := Some (cs_type_name s = ''generic''), cx_dir := False, cx_pe := False\<rparr>) us' rest
    (slave_loaded reg s unit uu st)"
proof -
  have "ld_masters st \<noteq> []" using assms(1,2) by (simp add: load_inv_def units_inv_def)
  from slave_loaded_room [OF this assms(3)] show ?thesis
    using assms(2,4) by (simp add: load_inv_def)
qed

lemma load_slave_inv:
  assumes "load_inv c us (ItSlave s # rest) st" and "slave_loadable reg (cx_period c) s" and "slave_counts_ok s rest"
  shows "case us (conf_strncpy (cs_syncUnit s)) of
      Some cyc \<Rightarrow> if cyc = cs_syncUnitCycle s
        then \<exists>st'. load_slave reg s st = Inr st' \<and>
          load_inv (c\<lparr>cx_slave := Some (cs_type_name s = ''generic''), cx_dir := False, cx_pe := False\<rparr>) us rest st'
        else load_slave reg s st = Inl (LoadError ''syncUnit'')
    | None \<Rightarrow> \<exists>st'. load_slave reg s st = Inr st' \<and>
          load_inv (c\<lparr>cx_slave := Some (cs_type_name s = ''generic''), cx_dir := False, cx_pe := False\<rparr>)
            (us(conf_strncpy (cs_syncUnit s) \<mapsto> cs_syncUnitCycle s)) rest st'"
proof -
  let ?n = "conf_strncpy (cs_syncUnit s)"
  let ?U = "ma_sync_units (last (ld_masters st))"
  obtain p where p: "cx_period c = Some p" "p \<noteq> 0" "cs_syncUnitCycle s \<noteq> 0" "cs_syncUnitCycle s mod p = 0"
    and ty: "cs_type_name s = ''generic'' \<or> lcec_findslavetype reg (cs_type_name s) \<noteq> None"
    using assms(2) by (auto simp: slave_loadable_def split: option.splits simp del: mod_0_imp_dvd)
  have u: "units_inv st (Some p) us" using assms(1) p(1) by (simp add: load_inv_def)
  have ms: "ld_masters st \<noteq> []" and per: "ma_app_time_period (last (ld_masters st)) = p"
    and short: "\<forall>u\<in>set ?U. length (su_name u) < LCEC_CONF_STR_MAXLEN"
    and us: "\<And>n. length n < LCEC_CONF_STR_MAXLEN \<Longrightarrow> us n = map_option (\<lambda>(k, u). su_cycle_time u) (find_sync_unit n 0 ?U)"
    using u by (simp_all add: units_inv_def)
  note get = get_sync_unit_cases [OF u p(2,3,4) length_conf_strncpy]
  note load = load_slave_eq [OF ms ty, unfolded per get]
  show ?thesis
  proof (cases "us ?n")
    case None
    let ?uu = "?U @ [make_sync_unit p ?n (cs_syncUnitCycle s)]"
    have "units_inv (slave_loaded reg s (length ?U) ?uu st) (Some p) (us(?n \<mapsto> cs_syncUnitCycle s))"
      using None us [OF length_conf_strncpy] per short
      by (auto simp: units_inv_def slave_loaded_units [OF ms] find_sync_unit_append us length_conf_strncpy
          split: option.splits)
    from slave_loaded_inv [OF assms(1) p(1) assms(3) this] show ?thesis by (simp add: load None)
  next
    case (Some cy)
    have "units_inv (slave_loaded reg s k ?U st) (Some p) us" for k
      using u by (simp add: units_inv_def slave_loaded_units [OF ms])
    from slave_loaded_inv [OF assms(1) p(1) assms(3) this] show ?thesis by (simp add: load Some)
  qed
qed

lemma units_inv_fields [simp]:
  "units_inv (st\<lparr>ld_sms := a\<rparr>) = units_inv st" "units_inv (st\<lparr>ld_pdos := a\<rparr>) = units_inv st"
  "units_inv (st\<lparr>ld_pdo_entries := a\<rparr>) = units_inv st" "units_inv (st\<lparr>ld_hal := a\<rparr>) = units_inv st"
  "units_inv (st\<lparr>ld_hal_dir := d\<rparr>) = units_inv st" "units_inv (st\<lparr>ld_sdo := b\<rparr>) = units_inv st"
  "units_inv (st\<lparr>ld_idn := b\<rparr>) = units_inv st" "units_inv (st\<lparr>ld_modparams := a\<rparr>) = units_inv st"
  "units_inv (st\<lparr>ld_pe := e\<rparr>) = units_inv st"
  by (intro ext; simp add: units_inv_def cong: option.case_cong)+

lemma load_invE:
  assumes "load_inv c us (x # rest) st" and "cx_slave c = Some gen"
  obtains s where "units_inv st (cx_period c) us" and "cur_slave st = Some s" and "slave_room gen s st (x # rest)"
    and "cx_dir c \<longrightarrow> ld_hal_dir st \<noteq> HAL_DIR_UNSPECIFIED" and "cx_pe c \<longrightarrow> ld_pe st \<noteq> None"
  using assms by (auto simp: load_inv_def)

lemma load_dc_inv:
  assumes "load_inv c us (ItDc d # rest) st" and "cx_slave c = Some gen"
  shows "\<exists>st'. load_dc d st = Inr st' \<and> load_inv c us rest st'"
  using assms(1,2)
proof (rule load_invE)
  fix s
  assume a: "units_inv st (cx_period c) us" "cur_slave st = Some s" "slave_room gen s st (ItDc d # rest)"
    "cx_dir c \<longrightarrow> ld_hal_dir st \<noteq> HAL_DIR_UNSPECIFIED" "cx_pe c \<longrightarrow> ld_pe st \<noteq> None"
  show ?thesis
    using a assms(2) cur_slave_upd [OF a(2)]
    by (auto simp: load_dc_def load_inv_def slave_room_def n_defs)
qed

lemma load_watchdog_inv:
  assumes "load_inv c us (ItWatchdog d # rest) st" and "cx_slave c = Some gen"
  shows "\<exists>st'. load_watchdog d st = Inr st' \<and> load_inv c us rest st'"
  using assms(1,2)
proof (rule load_invE)
  fix s
  assume a: "units_inv st (cx_period c) us" "cur_slave st = Some s" "slave_room gen s st (ItWatchdog d # rest)"
    "cx_dir c \<longrightarrow> ld_hal_dir st \<noteq> HAL_DIR_UNSPECIFIED" "cx_pe c \<longrightarrow> ld_pe st \<noteq> None"
  show ?thesis
    using a assms(2) cur_slave_upd [OF a(2)]
    by (auto simp: load_watchdog_def load_inv_def slave_room_def n_defs)
qed

lemma load_syncmanager_inv:
  assumes "load_inv c us (ItSyncManager m # rest) st" and "cx_slave c = Some True" and "csm_dir m \<noteq> EC_DIR_INVALID"
  shows "\<exists>st'. load_syncmanager m st = Inr st' \<and> load_inv (c\<lparr>cx_dir := True\<rparr>) us rest st'"
  using assms(1,2)
proof (rule load_invE)
  fix s
  assume a: "units_inv st (cx_period c) us" "cur_slave st = Some s" "slave_room True s st (ItSyncManager m # rest)"
    "cx_dir c \<longrightarrow> ld_hal_dir st \<noteq> HAL_DIR_UNSPECIFIED" "cx_pe c \<longrightarrow> ld_pe st \<noteq> None"
  have r: "room (ld_sms st) (sl_generic_sync_managers s) (Suc (Suc (seg_cnt 0 n_sm rest)))"
    using a(3) by (simp add: slave_room_def n_defs)
  obtain pk where pk: "ld_pdos st = Some pk" using a(3) by (auto simp: slave_room_def room_def)
  obtain k xs where k: "ld_sms st = Some k"
    "Option.bind (store_at \<lparr>si_index = csm_index m, si_dir = csm_dir m, si_n_pdos = csm_pdoCount m,
        si_pdos = (if csm_pdoCount m = 0 then None else Some pk)\<rparr> k (sl_generic_sync_managers s))
      (store_at (zero_sync_info\<lparr>si_index := 255\<rparr>) (Suc k)) = Some (Some xs)"
    "room (Some (Suc k)) (Some xs) (Suc (seg_cnt 0 n_sm rest))"
    using room_store2 [OF r] by blast
  have d: "hal_dir_of (csm_dir m) \<noteq> HAL_DIR_UNSPECIFIED"
    using assms(3) by (simp add: hal_dir_of_def split: ec_direction.splits)
  show ?thesis
    using a k pk d assms(2) cur_slave_upd [OF a(2)]
    by (simp add: load_syncmanager_def load_inv_def slave_room_def n_defs)
qed

lemma load_pdo_inv:
  assumes "load_inv c us (ItPdo m # rest) st" and "cx_slave c = Some True"
  shows "\<exists>st'. load_pdo m st = Inr st' \<and> load_inv c us rest st'"
  using assms(1,2)
proof (rule load_invE)
  fix s
  assume a: "units_inv st (cx_period c) us" "cur_slave st = Some s" "slave_room True s st (ItPdo m # rest)"
    "cx_dir c \<longrightarrow> ld_hal_dir st \<noteq> HAL_DIR_UNSPECIFIED" "cx_pe c \<longrightarrow> ld_pe st \<noteq> None"
  have r: "room (ld_pdos st) (sl_generic_pdos s) (Suc (seg_cnt 0 n_pdo rest))"
    using a(3) by (simp add: slave_room_def n_defs)
  obtain ek where ek: "ld_pdo_entries st = Some ek" using a(3) by (auto simp: slave_room_def room_def)
  obtain k xs where k: "ld_pdos st = Some k"
    "store_at \<lparr>pi_index = cp_index m, pi_n_entries = cp_pdoEntryCount m,
        pi_entries = (if cp_pdoEntryCount m = 0 then None else Some ek)\<rparr> k (sl_generic_pdos s) = Some (Some xs)"
    "room (Some (Suc k)) (Some xs) (seg_cnt 0 n_pdo rest)"
    using room_store [OF r] by blast
  show ?thesis
    using a k ek assms(2) cur_slave_upd [OF a(2)]
    by (simp add: load_pdo_def load_inv_def slave_room_def n_defs)
qed

text \<open>A pin is stored for an entry that has a pin name, which is what the counter counts.\<close>

lemma store_pin_inv:
  assumes "units_inv st (cx_period c) us" and "cur_slave st = Some s" and "cx_slave c = Some True"
    and "room (ld_hal st) (sl_hal_data s) (of_bool (gp_name pin \<noteq> []) + seg_cnt 0 n_map rest)"
    and "cx_dir c \<longrightarrow> ld_hal_dir st \<noteq> HAL_DIR_UNSPECIFIED" and "cx_pe c \<longrightarrow> ld_pe st \<noteq> None"
    and "room (ld_hal st) (sl_hal_data s) (seg_cnt 0 n_map rest) \<Longrightarrow> slave_room True s st rest"
    and "\<And>k xs. room (Some k) (Some xs) (seg_cnt 0 n_map rest) \<Longrightarrow>
      slave_room True (s\<lparr>sl_hal_data := Some xs\<rparr>) (st\<lparr>ld_hal := Some k\<rparr>) rest"
  shows "\<exists>st'. store_pin pin st = Inr st' \<and> load_inv c us rest st'"
proof -
  obtain k where k: "ld_hal st = Some k" using assms(4) by (auto simp: room_def)
  show ?thesis
  proof (cases "gp_name pin = []")
    case True
    with assms k show ?thesis by (simp add: store_pin_def load_inv_def)
  next
    case False
    then have "room (ld_hal st) (sl_hal_data s) (Suc (seg_cnt 0 n_map rest))" using assms(4) by simp
    then obtain xs where x: "store_at pin k (sl_hal_data s) = Some (Some xs)" "room (Some (Suc k)) (Some xs) (seg_cnt 0 n_map rest)"
      using room_store [of "ld_hal st" "sl_hal_data s" _ pin] k by auto
    let ?s = "s\<lparr>sl_hal_data := Some xs\<rparr>"
    let ?st = "(upd_cur_slave (sl_hal_data_update (\<lambda>_. Some xs)) st)\<lparr>ld_hal := Some (Suc k)\<rparr>"
    have "slave_room True ?s ?st rest" using assms(8) [OF x(2)] by (simp add: slave_room_def)
    then have "load_inv c us rest ?st"
      using assms(1,3,5,6) cur_slave_upd [OF assms(2), of "sl_hal_data_update (\<lambda>_. Some xs)"] by (simp add: load_inv_def)
    then show ?thesis using False k x(1) assms(2) by (simp add: store_pin_def)
  qed
qed

lemma strncpy_empty [simp]: "conf_strncpy s = [] \<longleftrightarrow> s = []"
  by (simp add: conf_strncpy_def LCEC_CONF_STR_MAXLEN_def)

lemma load_pdoentry_inv:
  assumes "load_inv c us (ItPdoEntry e # rest) st" and "cx_slave c = Some True" and "cx_dir c"
  shows "\<exists>st'. load_pdoentry e st = Inr st' \<and> load_inv (c\<lparr>cx_pe := True\<rparr>) us rest st'"
  using assms(1,2)
proof (rule load_invE)
  fix s
  assume a: "units_inv st (cx_period c) us" "cur_slave st = Some s" "slave_room True s st (ItPdoEntry e # rest)"
    "cx_dir c \<longrightarrow> ld_hal_dir st \<noteq> HAL_DIR_UNSPECIFIED" "cx_pe c \<longrightarrow> ld_pe st \<noteq> None"
  have r: "room (ld_pdo_entries st) (sl_generic_pdo_entries s) (Suc (seg_cnt 0 n_entry rest))"
    and h: "room (ld_hal st) (sl_hal_data s) (of_bool (pe_halPin e \<noteq> []) + seg_cnt 0 n_map rest)"
    using a(3) by (simp_all add: slave_room_def n_defs)
  obtain k xs where k: "ld_pdo_entries st = Some k"
    "store_at \<lparr>ei_index = pe_index e, ei_subindex = pe_subindex e, ei_bit_length = pe_bitLength e\<rparr>
        k (sl_generic_pdo_entries s) = Some (Some xs)"
    "room (Some (Suc k)) (Some xs) (seg_cnt 0 n_entry rest)"
    using room_store [OF r] by blast
  let ?s = "s\<lparr>sl_generic_pdo_entries := Some xs\<rparr>"
  let ?st = "(upd_cur_slave (sl_generic_pdo_entries_update (\<lambda>_. Some xs)) st)\<lparr>ld_pdo_entries := Some (Suc k), ld_pe := Some e\<rparr>"
  have "\<exists>st'. store_pin (entry_pin e (ld_hal_dir st)) ?st = Inr st' \<and> load_inv (c\<lparr>cx_pe := True\<rparr>) us rest st'"
  proof (rule store_pin_inv [where s = ?s])
    show "units_inv ?st (cx_period (c\<lparr>cx_pe := True\<rparr>)) us" using a(1) by simp
    show "cur_slave ?st = Some ?s"
      using cur_slave_upd [OF a(2), of "sl_generic_pdo_entries_update (\<lambda>_. Some xs)"] by simp
  qed (use a h k assms in \<open>simp_all add: slave_room_def n_defs entry_pin_def\<close>)
  moreover have "load_pdoentry e st = store_pin (entry_pin e (ld_hal_dir st)) ?st"
    using k a(2,4) assms(3) h by (auto simp: load_pdoentry_def room_def)
  ultimately show ?thesis by simp
qed

lemma load_complexentry_inv:
  assumes "load_inv c us (ItComplexEntry e # rest) st" and "cx_slave c = Some True" and "cx_pe c"
  shows "\<exists>st'. load_complexentry e st = Inr st' \<and> load_inv c us rest st'"
  using assms(1,2)
proof (rule load_invE)
  fix s
  assume a: "units_inv st (cx_period c) us" "cur_slave st = Some s" "slave_room True s st (ItComplexEntry e # rest)"
    "cx_dir c \<longrightarrow> ld_hal_dir st \<noteq> HAL_DIR_UNSPECIFIED" "cx_pe c \<longrightarrow> ld_pe st \<noteq> None"
  obtain q where q: "ld_pe st = Some q" using a(5) assms(3) by auto
  have "\<exists>st'. store_pin (complex_pin e q (ld_hal_dir st)) st = Inr st' \<and> load_inv c us rest st'"
    by (rule store_pin_inv [OF a(1,2) assms(2)])
      (use a assms in \<open>simp_all add: slave_room_def n_defs complex_pin_def\<close>)
  then show ?thesis by (simp add: load_complexentry_def q)
qed

lemma load_modparam_inv:
  assumes "load_inv c us (ItModParam e # rest) st" and "cx_slave c = Some gen"
  shows "\<exists>st'. load_modparam e st = Inr st' \<and> load_inv c us rest st'"
  using assms(1,2)
proof (rule load_invE)
  fix s
  assume a: "units_inv st (cx_period c) us" "cur_slave st = Some s" "slave_room gen s st (ItModParam e # rest)"
    "cx_dir c \<longrightarrow> ld_hal_dir st \<noteq> HAL_DIR_UNSPECIFIED" "cx_pe c \<longrightarrow> ld_pe st \<noteq> None"
  have r: "room (ld_modparams st) (sl_modparams s) (Suc (Suc (seg_cnt 0 n_mod rest)))"
    using a(3) by (simp add: slave_room_def n_defs)
  obtain k xs where k: "ld_modparams st = Some k"
    "store_at \<lparr>smp_id = cmp_id e, smp_name = cmp_name e, smp_value = cmp_value e\<rparr> k (sl_modparams s) = Some (Some xs)"
    "room (Some (Suc k)) (Some xs) (Suc (seg_cnt 0 n_mod rest))"
    using room_store [OF r] by blast
  show ?thesis
    using a k assms(2) cur_slave_upd [OF a(2)]
    by (simp add: load_modparam_def load_inv_def slave_room_def n_defs)
qed

lemma load_sdo_inv:
  assumes "load_inv c us (ItSdo p # rest) st" and "cx_slave c = Some gen" and "length bs = sdo_length p"
    and "\<And>f. (\<And>bs. f (ItData bs) = 0) \<Longrightarrow> seg_cnt 0 f r = seg_cnt 0 f rest"
  shows "\<exists>st'. load_sdo p bs st = Inr st' \<and> load_inv c us r st'"
  using assms(1,2)
proof (rule load_invE)
  fix s
  assume a: "units_inv st (cx_period c) us" "cur_slave st = Some s" "slave_room gen s st (ItSdo p # rest)"
    "cx_dir c \<longrightarrow> ld_hal_dir st \<noteq> HAL_DIR_UNSPECIFIED" "cx_pe c \<longrightarrow> ld_pe st \<noteq> None"
  have seg: "seg_cnt 0 n_sm r = seg_cnt 0 n_sm rest" "seg_cnt 0 n_pdo r = seg_cnt 0 n_pdo rest"
    "seg_cnt 0 n_entry r = seg_cnt 0 n_entry rest" "seg_cnt 0 n_map r = seg_cnt 0 n_map rest"
    "seg_cnt 0 n_sdo r = seg_cnt 0 n_sdo rest" "seg_cnt 0 n_idn r = seg_cnt 0 n_idn rest"
    "seg_cnt 0 n_mod r = seg_cnt 0 n_mod rest"
    by (rule assms(4), simp add: n_defs)+
  have "bytes_room (ld_sdo st) (sizeof_sdoconf + sdo_length p + seg_cnt 0 n_sdo rest)"
    using a(3) by (simp add: slave_room_def n_defs sizeof_sdoconf_def)
  then obtain used cap where b: "ld_sdo st = Some (used, cap)"
    "used + (sizeof_sdoconf + sdo_length p + seg_cnt 0 n_sdo rest) + 16 \<le> cap"
    by (auto simp: bytes_room_def)
  show ?thesis
    using a b assms(2,3) cur_slave_upd [OF a(2)]
    by (simp add: load_sdo_def load_inv_def slave_room_def n_defs seg Let_def bytes_room_def
        sizeof_slave_sdoconf_def sizeof_sdoconf_def)
qed

lemma load_idn_inv:
  assumes "load_inv c us (ItIdn p # rest) st" and "cx_slave c = Some gen" and "length bs = idn_length p"
    and "\<And>f. (\<And>bs. f (ItData bs) = 0) \<Longrightarrow> seg_cnt 0 f r = seg_cnt 0 f rest"
  shows "\<exists>st'. load_idn p bs st = Inr st' \<and> load_inv c us r st'"
  using assms(1,2)
proof (rule load_invE)
  fix s
  assume a: "units_inv st (cx_period c) us" "cur_slave st = Some s" "slave_room gen s st (ItIdn p # rest)"
    "cx_dir c \<longrightarrow> ld_hal_dir st \<noteq> HAL_DIR_UNSPECIFIED" "cx_pe c \<longrightarrow> ld_pe st \<noteq> None"
  have seg: "seg_cnt 0 n_sm r = seg_cnt 0 n_sm rest" "seg_cnt 0 n_pdo r = seg_cnt 0 n_pdo rest"
    "seg_cnt 0 n_entry r = seg_cnt 0 n_entry rest" "seg_cnt 0 n_map r = seg_cnt 0 n_map rest"
    "seg_cnt 0 n_sdo r = seg_cnt 0 n_sdo rest" "seg_cnt 0 n_idn r = seg_cnt 0 n_idn rest"
    "seg_cnt 0 n_mod r = seg_cnt 0 n_mod rest"
    by (rule assms(4), simp add: n_defs)+
  have "bytes_room (ld_idn st) (sizeof_idnconf + idn_length p + seg_cnt 0 n_idn rest)"
    using a(3) by (simp add: slave_room_def n_defs sizeof_idnconf_def)
  then obtain used cap where b: "ld_idn st = Some (used, cap)"
    "used + (sizeof_idnconf + idn_length p + seg_cnt 0 n_idn rest) + 16 \<le> cap"
    by (auto simp: bytes_room_def)
  show ?thesis
    using a b assms(2,3) cur_slave_upd [OF a(2)]
    by (simp add: load_idn_def load_inv_def slave_room_def n_defs seg Let_def bytes_room_def
        sizeof_slave_idnconf_def sizeof_idnconf_def)
qed

section \<open>The token loop\<close>

text \<open>
  The data behind a token: the loader's read of the announced length ends where the order
  check has nothing pending.
\<close>

lemma take_data_pending:
  assumes "ctx_run reg c body = Some cf" and "cx_pend cf = 0"
  shows "\<exists>bs r. take_data (cx_pend c) (body @ [ItNull]) = Some (bs, r @ [ItNull]) \<and> length bs = cx_pend c \<and>
     ctx_run reg (c\<lparr>cx_pend := 0\<rparr>) r = Some cf \<and> length r \<le> length body \<and>
     (\<forall>f. (\<forall>bs. f (ItData bs) = 0) \<longrightarrow> seg_cnt 0 f r = seg_cnt 0 f body) \<and>
     (stream_ok body \<longrightarrow> stream_ok r) \<and> (\<forall>us. units_agree us r = units_agree us body)"
  using assms(1)
proof (induction body arbitrary: c)
  case Nil
  then show ?case using assms(2) by auto
next
  case (Cons x body)
  obtain c' where c': "ctx_step reg c x = Some c'" "ctx_run reg c' body = Some cf"
    using Cons.prems by (auto simp: bind_eq_Some_conv)
  show ?case
  proof (cases "is_data x")
    case True
    then obtain d where x: "x = ItData d" by (cases x) simp_all
    have d: "length d \<le> cx_pend c" "c' = c\<lparr>cx_pend := cx_pend c - length d\<rparr>"
      using c'(1) by (auto simp: x ctx_step_def split: if_splits)
    obtain bs r where r: "take_data (cx_pend c') (body @ [ItNull]) = Some (bs, r @ [ItNull])" "length bs = cx_pend c'"
      "ctx_run reg (c'\<lparr>cx_pend := 0\<rparr>) r = Some cf" "length r \<le> length body"
      "\<forall>f. (\<forall>bs. f (ItData bs) = 0) \<longrightarrow> seg_cnt 0 f r = seg_cnt 0 f body"
      "stream_ok body \<longrightarrow> stream_ok r" "\<forall>us. units_agree us r = units_agree us body"
      using Cons.IH [OF c'(2)] by blast
    show ?thesis
      by (rule exI [of _ "d @ bs"], rule exI [of _ r]) (use r d in \<open>simp add: x\<close>)
  next
    case False
    then have pend: "cx_pend c = 0" using c'(1) by (auto simp: ctx_step_token split: if_splits)
    then have "take_data (cx_pend c) ((x # body) @ [ItNull]) = Some ([], (x # body) @ [ItNull])"
      using False by (cases x) simp_all
    moreover have "ctx_run reg (c\<lparr>cx_pend := 0\<rparr>) (x # body) = Some cf"
      using Cons.prems pend by (cases c) simp
    ultimately show ?thesis using pend
      by - (rule exI [of _ "[]"], rule exI [of _ "x # body"], simp)
  qed
qed

lemma load_items_valid:
  assumes "load_inv c us body st" and "ctx_run reg c body = Some cf" and "cx_pend c = 0" and "cx_pend cf = 0"
    and "stream_ok body"
  shows "if units_agree us body then \<exists>st'. load_items reg (body @ [ItNull]) st = Inr st'
    else load_items reg (body @ [ItNull]) st = Inl (LoadError ''syncUnit'')"
  using assms
proof (induction "length body" arbitrary: c us body st rule: less_induct)
  case less
  show ?case
  proof (cases body)
    case Nil
    then show ?thesis by simp
  next
    case (Cons x rest)
    note inv = less.prems(1) [unfolded Cons]
    obtain c' where c': "ctx_step reg c x = Some c'" "ctx_run reg c' rest = Some cf"
      using less.prems(2) by (auto simp: Cons bind_eq_Some_conv)
    have ok: "hdr_ok x rest" "stream_ok rest" using less.prems(5) by (simp_all add: Cons)
    have IH: "if units_agree us' rest then \<exists>st''. load_items reg (rest @ [ItNull]) st' = Inr st''
        else load_items reg (rest @ [ItNull]) st' = Inl (LoadError ''syncUnit'')"
      if "load_inv c' us' rest st'" and "cx_pend c' = 0" for us' st'
      by (rule less.hyps [OF _ that(1) c'(2) that(2) less.prems(4) ok(2)]) (simp add: Cons)
    have IHdata: "if units_agree us r then \<exists>st''. load_items reg (r @ [ItNull]) st' = Inr st''
        else load_items reg (r @ [ItNull]) st' = Inl (LoadError ''syncUnit'')"
      if "load_inv c us r st'" and "ctx_run reg c r = Some cf" and "length r \<le> length rest" and "stream_ok r" for r st'
      by (rule less.hyps [OF _ that(1,2) less.prems(3,4) that(4)]) (use that(3) in \<open>simp add: Cons\<close>)
    have tok: "ctx_token reg c x = Some c'" if "\<not> is_data x"
      using c'(1) that less.prems(3) by (simp add: ctx_step_token)
    show ?thesis
    proof (cases x)
      case (ItMaster m)
      then show ?thesis using tok load_master_inv [OF inv [unfolded ItMaster]] IH less.prems(3) by (auto simp: Cons)
    next
      case (ItSlave s)
      have l: "slave_loadable reg (cx_period c) s"
        and cc: "c' = c\<lparr>cx_slave := Some (cs_type_name s = ''generic''), cx_dir := False, cx_pe := False\<rparr>"
        using tok by (auto simp: ItSlave split: if_splits)
      have "slave_counts_ok s rest" using ok(1) by (simp add: ItSlave)
      from load_slave_inv [OF inv [unfolded ItSlave] l this] show ?thesis
        using IH less.prems(3) cc
        by (cases "us (conf_strncpy (cs_syncUnit s))") (auto simp: Cons ItSlave Let_def split: if_splits)
    next
      case (ItSdo p)
      obtain gen where g: "cx_slave c = Some gen" "c' = c\<lparr>cx_pend := sdo_length p\<rparr>"
        using tok by (auto simp: ItSdo split: if_splits)
      obtain bs r where r: "take_data (sdo_length p) (rest @ [ItNull]) = Some (bs, r @ [ItNull])" "length bs = sdo_length p"
        "ctx_run reg (c\<lparr>cx_pend := 0\<rparr>) r = Some cf" "length r \<le> length rest"
        "\<forall>f. (\<forall>bs. f (ItData bs) = 0) \<longrightarrow> seg_cnt 0 f r = seg_cnt 0 f rest"
        "stream_ok rest \<longrightarrow> stream_ok r" "\<forall>us. units_agree us r = units_agree us rest"
        using take_data_pending [OF c'(2) less.prems(4)] by (auto simp: g)
      have cp: "c\<lparr>cx_pend := 0\<rparr> = c" using less.prems(3) by (cases c) simp
      obtain st' where st': "load_sdo p bs st = Inr st'" "load_inv c us r st'"
        using load_sdo_inv [OF inv [unfolded ItSdo] g(1) r(2)] r(5) by blast
      from IHdata [OF st'(2) _ r(4)] r ok(2) st'(1) cp show ?thesis by (simp add: Cons ItSdo)
    next
      case (ItIdn p)
      obtain gen where g: "cx_slave c = Some gen" "c' = c\<lparr>cx_pend := idn_length p\<rparr>"
        using tok by (auto simp: ItIdn split: if_splits)
      obtain bs r where r: "take_data (idn_length p) (rest @ [ItNull]) = Some (bs, r @ [ItNull])" "length bs = idn_length p"
        "ctx_run reg (c\<lparr>cx_pend := 0\<rparr>) r = Some cf" "length r \<le> length rest"
        "\<forall>f. (\<forall>bs. f (ItData bs) = 0) \<longrightarrow> seg_cnt 0 f r = seg_cnt 0 f rest"
        "stream_ok rest \<longrightarrow> stream_ok r" "\<forall>us. units_agree us r = units_agree us rest"
        using take_data_pending [OF c'(2) less.prems(4)] by (auto simp: g)
      have cp: "c\<lparr>cx_pend := 0\<rparr> = c" using less.prems(3) by (cases c) simp
      obtain st' where st': "load_idn p bs st = Inr st'" "load_inv c us r st'"
        using load_idn_inv [OF inv [unfolded ItIdn] g(1) r(2)] r(5) by blast
      from IHdata [OF st'(2) _ r(4)] r ok(2) st'(1) cp show ?thesis by (simp add: Cons ItIdn)
    next
      case (ItData d)
      then have "d = []" "c' = c" using c'(1) less.prems(3) by (auto simp: ctx_step_def split: if_splits)
      moreover have "load_inv c us rest st" using inv by (simp add: ItData load_inv_def slave_room_def n_defs)
      ultimately show ?thesis using IH less.prems(3) by (auto simp: Cons ItData)
    next
      case (ItDc d)
      then have "cx_slave c \<noteq> None" "c' = c" using tok by (auto split: if_splits)
      then show ?thesis using load_dc_inv [OF inv [unfolded ItDc]] IH less.prems(3) by (auto simp: Cons ItDc)
    next
      case (ItWatchdog d)
      then have "cx_slave c \<noteq> None" "c' = c" using tok by (auto split: if_splits)
      then show ?thesis using load_watchdog_inv [OF inv [unfolded ItWatchdog]] IH less.prems(3) by (auto simp: Cons ItWatchdog)
    next
      case (ItModParam d)
      then have "cx_slave c \<noteq> None" "c' = c" using tok by (auto split: if_splits)
      then show ?thesis using load_modparam_inv [OF inv [unfolded ItModParam]] IH less.prems(3) by (auto simp: Cons ItModParam)
    next
      case (ItSyncManager d)
      then have "cx_slave c = Some True" "csm_dir d \<noteq> EC_DIR_INVALID" "c' = c\<lparr>cx_dir := True\<rparr>"
        using tok by (auto split: if_splits)
      then show ?thesis using load_syncmanager_inv [OF inv [unfolded ItSyncManager]] IH less.prems(3)
        by (auto simp: Cons ItSyncManager)
    next
      case (ItPdo d)
      then have "cx_slave c = Some True" "c' = c" using tok by (auto split: if_splits)
      then show ?thesis using load_pdo_inv [OF inv [unfolded ItPdo]] IH less.prems(3) by (auto simp: Cons ItPdo)
    next
      case (ItPdoEntry d)
      then have "cx_slave c = Some True" "cx_dir c" "c' = c\<lparr>cx_pe := True\<rparr>" using tok by (auto split: if_splits)
      then show ?thesis using load_pdoentry_inv [OF inv [unfolded ItPdoEntry]] IH less.prems(3)
        by (auto simp: Cons ItPdoEntry)
    next
      case (ItComplexEntry d)
      then have "cx_slave c = Some True" "cx_pe c" "c' = c" using tok by (auto split: if_splits)
      then show ?thesis using load_complexentry_inv [OF inv [unfolded ItComplexEntry]] IH less.prems(3)
        by (auto simp: Cons ItComplexEntry)
    next
      case ItNull
      then show ?thesis using tok by simp
    qed
  qed
qed

text \<open>The two programs together.\<close>

lemma valid_stream_loads:
  assumes "valid_stream reg its"
  shows "if units_agree Map.empty (butlast its) then \<exists>st. load_items reg its load_init = Inr st
    else load_items reg its load_init = Inl (LoadError ''syncUnit'')"
proof -
  obtain body c where b: "its = body @ [ItNull]" "stream_ok body" "ctx_run reg ctx_init body = Some c" "cx_pend c = 0"
    using assms by (auto simp: valid_stream_def)
  have "load_inv ctx_init Map.empty body load_init" by (rule load_inv_init)
  from load_items_valid [OF this b(3) _ b(4,2)] show ?thesis by (simp add: b(1) ctx_init_def)
qed

end
