(* ===== verification/MasterRead.thy ===== *)
theory MasterRead
  imports MasterData
begin

text \<open>
  The read half of the cyclic task in \<open>lcec_main.c\<close>: \<open>lcec_read_master\<close> with the update of
  the state pins, the working counter statistics and the clock synchrony monitor, and
  \<open>lcec_read_all\<close>. What the EtherCAT master answers is given by an environment record; the
  calls made to it and to the drivers, and the mutex operations, are logged in order.
\<close>

section \<open>Calls and answers\<close>

text \<open>
  Domains and slaves are named by their position in the master's lists. A driver callback
  is logged with the period and the process data handle it finds in the master.
\<close>

datatype rt_call =
    MutexGet | MutexGive
  | CReceive | CDomainProcess nat | CDomainState nat | CSyncMonitorProcess | CMasterState
  | CSlaveConfigState nat | CProcRead nat u32 "nat option"
  | CPllGetReference | CProcWrite nat u32 "nat option" | CDomainQueue nat | CApplicationTime u64
  | CReferenceClockTime | CSyncReferenceClock | CSyncSlaveClocks | CSyncMonitorQueue | CSend
  | CSetCorrection int
  | CGetTimeOfDay | CActivate | CDomainData nat | CDomainSize nat

record rt_env =
  en_domain_state :: "nat \<Rightarrow> u32 \<times> wc_state"
  en_sync_monitor :: u32
  en_master_state :: master_state
  en_slave_state :: "nat \<Rightarrow> slave_config_state"
  en_timeofday :: u64
  en_now :: int
  en_now_act :: int
  en_pll_ref :: int
  en_ref_clock :: "u32 option"
  en_activate_ok :: bool
  en_domain_data :: "nat \<Rightarrow> nat option"
  en_domain_size :: "nat \<Rightarrow> nat"

definition EC_AL_STATE_OP :: u8 where "EC_AL_STATE_OP = 8"
definition LCEC_STATE_UPDATE_PERIOD :: int where "LCEC_STATE_UPDATE_PERIOD = 1000000000"
definition LCEC_DC_SYNC_MISS_MAX :: int where "LCEC_DC_SYNC_MISS_MAX = 10"

fun wc_num :: "wc_state \<Rightarrow> int" where
  "wc_num EC_WC_ZERO = 0"
| "wc_num EC_WC_INCOMPLETE = 1"
| "wc_num EC_WC_COMPLETE = 2"

section \<open>State pins\<close>

definition lcec_update_master_hal :: "master_hal \<Rightarrow> master_state \<Rightarrow> master_hal" where
  "lcec_update_master_hal h ms =
     h\<lparr>hd_slaves_responding := ms_slaves_responding ms,
        hd_state_init := (ms_al_states ms AND 1 \<noteq> 0),
        hd_state_preop := (ms_al_states ms AND 2 \<noteq> 0),
        hd_state_safeop := (ms_al_states ms AND 4 \<noteq> 0),
        hd_state_op := (ms_al_states ms AND 8 \<noteq> 0),
        hd_link_up := ms_link_up ms,
        hd_all_op := (ms_al_states ms = 8)\<rparr>"

definition lcec_update_slave_state_hal :: "slave_state_hal \<Rightarrow> slave_config_state \<Rightarrow> slave_state_hal" where
  "lcec_update_slave_state_hal hs ss =
     hs\<lparr>hs_online := ss_online ss, hs_operational := ss_operational ss,
        hs_state_init := (ss_al_state ss AND 1 \<noteq> 0),
        hs_state_preop := (ss_al_state ss AND 2 \<noteq> 0),
        hs_state_safeop := (ss_al_state ss AND 4 \<noteq> 0),
        hs_state_op := (ss_al_state ss AND 8 \<noteq> 0)\<rparr>"

definition lcec_master_all_op :: "lcec_master \<Rightarrow> bool" where
  "lcec_master_all_op m \<longleftrightarrow> ms_al_states (ma_ms m) = EC_AL_STATE_OP"

section \<open>Working counter statistics\<close>

definition wkc_user_reset :: "master_hal \<Rightarrow> master_hal" where
  "wkc_user_reset h =
     (if hd_wkc_reset h
      then h\<lparr>hd_wkc_reset := False, hd_wkc_full_seen := False, hd_wkc_min := 0, hd_wkc_change_cnt := 0\<rparr>
      else h)"

definition wkc_update :: "u32 \<Rightarrow> wc_state \<Rightarrow> master_hal \<Rightarrow> master_hal" where
  "wkc_update now wcs h0 =
     (let h = wkc_user_reset h0;
          h = h\<lparr>hd_wkc := now, hd_wkc_state := wc_num wcs\<rparr>;
          h = (if \<not> hd_wkc_full_seen h then
                  (if wcs = EC_WC_COMPLETE
                   then h\<lparr>hd_wkc_full_seen := True, hd_wkc_min := now, hd_wkc_change_cnt := 0\<rparr> else h)
                else
                  (let h = (if now < hd_wkc_min h then h\<lparr>hd_wkc_min := now\<rparr> else h)
                   in if now \<noteq> hd_wkc_last h then h\<lparr>hd_wkc_change_cnt := hd_wkc_change_cnt h + 1\<rparr> else h))
      in h\<lparr>hd_wkc_last := now\<rparr>)"

section \<open>Clock synchrony monitor\<close>

definition dc_sync_update :: "u32 \<Rightarrow> master_hal \<Rightarrow> master_hal" where
  "dc_sync_update diff h =
     (if hd_dc_sync_monitor h then
        (if diff \<noteq> 0xFFFFFFFF then
           h\<lparr>hd_dc_sync_miss_cnt := 0, hd_dc_sync_diff := diff, hd_dc_sync_converged := (diff < hd_dc_sync_max h)\<rparr>
         else if hd_dc_sync_miss_cnt h < LCEC_DC_SYNC_MISS_MAX then
           h\<lparr>hd_dc_sync_miss_cnt := hd_dc_sync_miss_cnt h + 1\<rparr>
         else h\<lparr>hd_dc_sync_converged := False, hd_dc_sync_diff := 0xFFFFFFFF\<rparr>)
      else h)"

section \<open>Domains\<close>

text \<open>
  One pass over the Sync Units: a queued domain is processed, and the state of every domain
  is added up. The accumulator is the log, the working counter sum and the two flags.
\<close>

fun read_domains :: "rt_env \<Rightarrow> nat \<Rightarrow> sync_unit list \<Rightarrow> rt_call list \<times> sync_unit list" where
  "read_domains env k [] = ([], [])"
| "read_domains env k (u # us) =
     (let (cs, us') = read_domains env (Suc k) us
      in ((if su_queued u then [CDomainProcess k] else []) @ CDomainState k # cs,
          u\<lparr>su_process := su_queued u, su_queued := False\<rparr> # us'))"

definition domain_sum :: "rt_env \<Rightarrow> nat \<Rightarrow> u32" where
  "domain_sum env n = fold (\<lambda>k acc. acc + fst (en_domain_state env k)) [0..<n] 0"

definition all_domains_zero :: "rt_env \<Rightarrow> nat \<Rightarrow> bool" where
  "all_domains_zero env n = fold (\<lambda>k acc. if snd (en_domain_state env k) \<noteq> EC_WC_ZERO then False else acc) [0..<n] True"

definition all_domains_complete :: "rt_env \<Rightarrow> nat \<Rightarrow> bool" where
  "all_domains_complete env n =
     fold (\<lambda>k acc. if snd (en_domain_state env k) \<noteq> EC_WC_COMPLETE then False else acc) [0..<n] True"

definition domains_wc_state :: "rt_env \<Rightarrow> nat \<Rightarrow> wc_state" where
  "domains_wc_state env n =
     (if all_domains_complete env n then EC_WC_COMPLETE
      else if all_domains_zero env n then EC_WC_ZERO else EC_WC_INCOMPLETE)"

section \<open>The read function\<close>

text \<open>
  The period check adopts the thread's period only where the configuration gave none; the
  other branch reports the mismatch.
\<close>

definition read_check_period :: "int \<Rightarrow> lcec_master \<Rightarrow> lcec_master" where
  "read_check_period period m =
     (if period \<noteq> ma_period_last m then
        m\<lparr>ma_period_last := period,
          ma_app_time_period := (if ma_app_time_period m = 0 then word_of_int period else ma_app_time_period m)\<rparr>
      else m)"

definition read_check_states :: "int \<Rightarrow> lcec_master \<Rightarrow> bool \<times> lcec_master" where
  "read_check_states period m =
     (if \<not> ma_sync_units_started m then (True, m\<lparr>ma_state_update_timer := 0\<rparr>)
      else if ma_state_update_timer m > 0 then
        (False, m\<lparr>ma_state_update_timer := s64 (ma_state_update_timer m - period)\<rparr>)
      else (True, m\<lparr>ma_state_update_timer := LCEC_STATE_UPDATE_PERIOD\<rparr>))"

text \<open>The loop over the slaves: state under the mutex, pins, and the driver's read function.\<close>

fun read_slaves :: "rt_env \<Rightarrow> bool \<Rightarrow> sync_unit list \<Rightarrow> nat \<Rightarrow> lcec_slave list \<Rightarrow> rt_call list \<times> lcec_slave list" where
  "read_slaves env chk us k [] = ([], [])"
| "read_slaves env chk us k (s # ss) =
     (let st = (if chk then en_slave_state env k else sl_state s);
          s' = s\<lparr>sl_state := st,
                 sl_hal_state := (if chk then map_option (\<lambda>hs. lcec_update_slave_state_hal hs st) (sl_hal_state s)
                                  else sl_hal_state s)\<rparr>;
          u = us ! sl_sync_unit s;
          (cs, ss') = read_slaves env chk us (Suc k) ss
      in (MutexGet # (if chk then [CSlaveConfigState k] else []) @ MutexGive #
          (if su_process u \<and> sl_proc_read s then [CProcRead k (su_cycle_time u) (su_process_data u)] else []) @ cs,
          s' # ss'))"

text \<open>The process data handle left in the master is that of the last driver called.\<close>

fun last_process_data :: "(lcec_slave \<Rightarrow> bool) \<Rightarrow> sync_unit list \<Rightarrow> lcec_slave list \<Rightarrow> nat option \<times> nat \<Rightarrow> nat option \<times> nat" where
  "last_process_data called us [] pd = pd"
| "last_process_data called us (s # ss) pd =
     last_process_data called us ss
       (if called s then (su_process_data (us ! sl_sync_unit s), su_process_data_len (us ! sl_sync_unit s)) else pd)"

definition lcec_read_master :: "rt_env \<Rightarrow> int \<Rightarrow> master_state \<Rightarrow> lcec_master \<Rightarrow> rt_call list \<times> master_state \<times> lcec_master" where
  "lcec_read_master env period gms m =
     (if \<not> ma_activated m then ([], gms, m)
      else
        let m1 = read_check_period period m;
            (chk, m2) = read_check_states period m1;
            n = length (ma_sync_units m2);
            (dcalls, us) = read_domains env 0 (ma_sync_units m2);
            mon = hd_dc_sync_monitor (ma_hal m2);
            diff = (if mon then en_sync_monitor env else 0xFFFFFFFF);
            ms = (if chk then en_master_state env else ma_ms m2);
            m3 = m2\<lparr>ma_sync_units := us, ma_ms := ms\<rparr>;
            m4 = m3\<lparr>ma_sync_units_started :=
                      (if \<not> ma_sync_units_started m3 \<and> lcec_master_all_op m3 then True else ma_sync_units_started m3)\<rparr>;
            h = lcec_update_master_hal (ma_hal m4) ms;
            h = wkc_update (domain_sum env n) (domains_wc_state env n) h;
            h = dc_sync_update diff h;
            gms' = \<lparr>ms_slaves_responding = ms_slaves_responding gms + ms_slaves_responding ms,
                    ms_al_states = ms_al_states gms OR ms_al_states ms,
                    ms_link_up = (ms_link_up gms \<and> ms_link_up ms)\<rparr>;
            (scalls, ss) = read_slaves env chk us 0 (ma_slaves m4);
            (pd, pdl) = last_process_data (\<lambda>s. su_process (us ! sl_sync_unit s) \<and> sl_proc_read s) us
                          (ma_slaves m4) (ma_process_data m4, ma_process_data_len m4)
        in (MutexGet # CReceive # dcalls @ (if mon then [CSyncMonitorProcess] else []) @
              (if chk then [CMasterState] else []) @ MutexGive # scalls,
            gms', m4\<lparr>ma_hal := h, ma_slaves := ss, ma_process_data := pd, ma_process_data_len := pdl\<rparr>))"

text \<open>
  \<open>lcec_read_all\<close>: the global state starts from zero and is shown on the global pins. Every
  master has its own environment.
\<close>

fun read_masters :: "(nat \<Rightarrow> rt_env) \<Rightarrow> int \<Rightarrow> nat \<Rightarrow> master_state \<Rightarrow> lcec_master list \<Rightarrow>
    rt_call list list \<times> master_state \<times> lcec_master list" where
  "read_masters envs period k gms [] = ([], gms, [])"
| "read_masters envs period k gms (m # ms) =
     (let (cs, gms1, m') = lcec_read_master (envs k) period gms m;
          (css, gms2, ms') = read_masters envs period (Suc k) gms1 ms
      in (cs # css, gms2, m' # ms'))"

definition lcec_read_all :: "(nat \<Rightarrow> rt_env) \<Rightarrow> int \<Rightarrow> lcec_master list \<Rightarrow> master_hal \<Rightarrow>
    rt_call list list \<times> lcec_master list \<times> master_hal" where
  "lcec_read_all envs period ms gh =
     (let (css, gms, ms') = read_masters envs period 0
            \<lparr>ms_slaves_responding = 0, ms_al_states = 0, ms_link_up = (ms \<noteq> [])\<rparr> ms
      in (css, ms', lcec_update_master_hal gh gms))"

end
