(* ===== verification/MasterWrite.thy ===== *)
theory MasterWrite
  imports MasterRead
begin

text \<open>
  Activation and the write half of the cyclic task in \<open>lcec_main.c\<close>: \<open>lcec_activate_master\<close>,
  the Sync Unit scheduler, the application time, and the clock control behind the send
  (phase calibration and BANG-BANG control where the master is the clock source, the PLL
  where the reference clock is). The build has \<open>RTAPI_TASK_PLL_SUPPORT\<close>. A remainder by a
  zero period is the result \<open>None\<close>.
\<close>

section \<open>Activation\<close>

text \<open>The handles of every domain are fetched; the first one that is set stays in the master.\<close>

fun activate_units :: "rt_env \<Rightarrow> nat \<Rightarrow> sync_unit list \<Rightarrow> nat option \<times> nat \<Rightarrow> rt_call list \<times> sync_unit list \<times> nat option \<times> nat" where
  "activate_units env k [] pd = ([], [], pd)"
| "activate_units env k (u # us) pd =
     (let u' = u\<lparr>su_process_data := en_domain_data env k, su_process_data_len := en_domain_size env k\<rparr>;
          pd' = (if fst pd = None then (su_process_data u', su_process_data_len u') else pd);
          (cs, us', pd'') = activate_units env (Suc k) us pd'
      in (CDomainData k # CDomainSize k # cs, u' # us', pd''))"

definition lcec_activate_master :: "rt_env \<Rightarrow> lcec_master \<Rightarrow> rt_call list \<times> bool \<times> lcec_master" where
  "lcec_activate_master env m =
     (if ma_activated m then ([], True, m)
      else
        let tod = en_timeofday env;
            now = word_of_int (en_now_act env) :: u64;
            m1 = m\<lparr>ma_app_time_base := tod, ma_dc_time_valid_last := False, ma_dc_ref := 0\<rparr>;
            m2 = (if ma_sync_to_ref_clock m1 = 0 then m1\<lparr>ma_app_time_base := ma_app_time_base m1 - now\<rparr> else m1);
            initial = (if ma_sync_to_ref_clock m2 = 0 then ma_app_time_base m2 + now else ma_app_time_base m2);
            m3 = m2\<lparr>ma_dc_ref_time := initial\<rparr>
        in if \<not> en_activate_ok env then ([CGetTimeOfDay, CApplicationTime initial, CActivate], False, m3)
           else
             let (cs, us, pd, pdl) = activate_units env 0 (ma_sync_units m3) (ma_process_data m3, ma_process_data_len m3)
             in (CGetTimeOfDay # CApplicationTime initial # CActivate # cs, True,
                 m3\<lparr>ma_sync_units := us, ma_process_data := pd, ma_process_data_len := pdl, ma_activated := True\<rparr>))"

text \<open>The HAL init function: every master that is not active yet; the mark tells a clean start.\<close>

definition lcec_activate_one :: "rt_env \<Rightarrow> lcec_master \<Rightarrow> rt_call list \<times> lcec_master" where
  "lcec_activate_one env m =
     (if ma_activated m then ([], m)
      else let (cs, ok, m') = lcec_activate_master env m
           in (cs, if ok then m'\<lparr>ma_initf_activated := True\<rparr> else m'))"

definition lcec_activate :: "(nat \<Rightarrow> rt_env) \<Rightarrow> lcec_master list \<Rightarrow> rt_call list list \<times> lcec_master list" where
  "lcec_activate envs ms =
     (let rs = map (\<lambda>k. lcec_activate_one (envs k) (ms ! k)) [0..<length ms] in (map fst rs, map snd rs))"

section \<open>Scheduler\<close>

definition sched_unit :: "bool \<Rightarrow> sync_unit \<Rightarrow> sync_unit" where
  "sched_unit force u =
     (if force then u\<lparr>su_write := True, su_cycle_counter := 0\<rparr>
      else if su_cycle_counter u = 0 then u\<lparr>su_write := True, su_cycle_counter := su_cycle_divider u - 1\<rparr>
      else u\<lparr>su_write := False, su_cycle_counter := su_cycle_counter u - 1\<rparr>)"

definition sched_units :: "bool \<Rightarrow> sync_unit list \<Rightarrow> sync_unit list" where
  "sched_units force us = map (sched_unit force) us"

fun write_slaves :: "sync_unit list \<Rightarrow> nat \<Rightarrow> lcec_slave list \<Rightarrow> rt_call list" where
  "write_slaves us k [] = []"
| "write_slaves us k (s # ss) =
     (let u = us ! sl_sync_unit s in
      (if su_write u \<and> sl_proc_write s then [CProcWrite k (su_cycle_time u) (su_process_data u)] else []) @
      write_slaves us (Suc k) ss)"

fun queue_units :: "nat \<Rightarrow> sync_unit list \<Rightarrow> rt_call list \<times> sync_unit list" where
  "queue_units k [] = ([], [])"
| "queue_units k (u # us) =
     (let (cs, us') = queue_units (Suc k) us
      in if su_write u then (CDomainQueue k # cs, u\<lparr>su_queued := True\<rparr> # us') else (cs, u # us'))"

section \<open>Times\<close>

definition app_time_step :: "int \<Rightarrow> int \<Rightarrow> int \<Rightarrow> lcec_master \<Rightarrow> u64 \<times> lcec_master" where
  "app_time_step period now ref m =
     (if ma_sync_to_ref_clock m = 0 then (ma_app_time_base m + word_of_int now, m)
      else (ma_app_time_base m + ma_dc_ref m + word_of_int (now - ref),
            m\<lparr>ma_dc_ref := ma_dc_ref m + word_of_int period\<rparr>))"

definition publish_times :: "u64 \<Rightarrow> int \<Rightarrow> master_hal \<Rightarrow> master_hal" where
  "publish_times app_time now h =
     h\<lparr>hd_app_time_lo := ucast app_time, hd_app_time_hi := ucast (drop_bit 32 app_time),
       hd_mono_time_lo := ucast (word_of_int now :: u64), hd_mono_time_hi := ucast (drop_bit 32 (word_of_int now :: u64))\<rparr>"

text \<open>The reference clock is set every \<open>sync_ref_cycles\<close> calls, where the master is the source.\<close>

definition sync_ref_step :: "lcec_master \<Rightarrow> rt_call list \<times> lcec_master" where
  "sync_ref_step m =
     (if ma_sync_to_ref_clock m = 0 \<and> ma_sync_ref_cycles m > 0 then
        (if ma_sync_ref_cnt m = 0
         then ([CSyncReferenceClock], m\<lparr>ma_sync_ref_cnt := s32 (ma_sync_ref_cycles m - 1)\<rparr>)
         else ([], m\<lparr>ma_sync_ref_cnt := s32 (ma_sync_ref_cnt m - 1)\<rparr>))
      else ([], m))"

section \<open>Phase control, master is the clock source\<close>

definition PHASE_MEASURE_CYCLES :: int where "PHASE_MEASURE_CYCLES = 100"

definition phase_unwrap :: "int \<Rightarrow> int \<Rightarrow> int \<Rightarrow> int" where
  "phase_unwrap period prev cur =
     (let diff = s32 (cur - prev) in
      if diff > c_div period 2 then s32 (cur - period)
      else if diff < c_div (- period) 2 then s32 (cur + period)
      else cur)"

definition phase_measure :: "int \<Rightarrow> int \<Rightarrow> master_hal \<Rightarrow> master_hal" where
  "phase_measure period cur h =
     (let h = h\<lparr>hd_dc_phased := False\<rparr> in
      if hd_phase_measure_cnt h = 0 then
        h\<lparr>hd_phase_min := cur, hd_phase_max := cur, hd_phase_last := cur, hd_phase_measure_cnt := 1\<rparr>
      else if hd_phase_measure_cnt h < PHASE_MEASURE_CYCLES then
        (let adj = phase_unwrap period (hd_phase_last h) cur;
             h = (if adj < hd_phase_min h then h\<lparr>hd_phase_min := adj\<rparr> else h);
             h = (if adj > hd_phase_max h then h\<lparr>hd_phase_max := adj\<rparr> else h)
         in h\<lparr>hd_phase_last := cur, hd_phase_measure_cnt := hd_phase_measure_cnt h + 1\<rparr>)
      else
        (let jitter = s32 (hd_phase_max h - hd_phase_min h);
             target = s32 (jitter + c_div jitter 2);
             max_target = c_div period 8
         in h\<lparr>hd_phase_jitter := jitter, hd_phase_jitter_out := jitter,
              hd_phase_target := (if target > max_target then max_target else target),
              hd_phase_calibrated := True, hd_phase_locked := False, hd_phase_lock_cnt := 0,
              hd_phase_unlock_cnt := 0\<rparr>))"

text \<open>The lock state has hysteresis: it is set inside one window and cleared outside a wider one.\<close>

definition phase_lock_state :: "int \<Rightarrow> int \<Rightarrow> bool \<Rightarrow> bool" where
  "phase_lock_state period err locked =
     (if s32 \<bar>err\<bar> < c_div period 100 then True
      else if s32 \<bar>err\<bar> > c_div period 20 then False else locked)"

text \<open>The pin follows the lock state only after it has lasted the dwell time.\<close>

definition phase_dwell :: "master_hal \<Rightarrow> master_hal" where
  "phase_dwell h =
     (if hd_phase_locked h then
        (let h = h\<lparr>hd_phase_unlock_cnt := 0\<rparr> in
         if hd_phase_lock_cnt h < hd_phase_lock_dwell h
         then h\<lparr>hd_phase_lock_cnt := hd_phase_lock_cnt h + 1\<rparr> else h\<lparr>hd_dc_phased := True\<rparr>)
      else
        (let h = h\<lparr>hd_phase_lock_cnt := 0\<rparr> in
         if hd_phase_unlock_cnt h < hd_phase_lock_dwell h
         then h\<lparr>hd_phase_unlock_cnt := hd_phase_unlock_cnt h + 1\<rparr> else h\<lparr>hd_dc_phased := False\<rparr>))"

definition step_pos :: "u32 \<Rightarrow> int" where "step_pos st = s32 (uint st)"
definition step_neg :: "u32 \<Rightarrow> int" where "step_neg st = s32 (uint (- st))"

definition phase_control :: "int \<Rightarrow> int \<Rightarrow> master_hal \<Rightarrow> master_hal" where
  "phase_control period cur h =
     (let err = s32 (cur - hd_phase_target h);
          h = h\<lparr>hd_pll_err := err\<rparr>;
          h = h\<lparr>hd_phase_locked := phase_lock_state period err (hd_phase_locked h)\<rparr>;
          h = (if hd_phase_locked h then h\<lparr>hd_pll_out := 0\<rparr>
               else if err > 0 then h\<lparr>hd_pll_out := step_neg (hd_pll_step h)\<rparr>
               else if err < 0 then h\<lparr>hd_pll_out := step_pos (hd_pll_step h)\<rparr> else h)
      in phase_dwell h)"

definition r2m_control :: "bool \<Rightarrow> int \<Rightarrow> int \<Rightarrow> master_hal \<Rightarrow> master_hal" where
  "r2m_control initf period cur h =
     (if \<not> hd_phase_calibrated h then phase_measure period cur h
      else if \<not> initf then phase_control period cur h
      else h\<lparr>hd_pll_out := 0, hd_dc_phased := True\<rparr>)"

section \<open>PLL, reference clock is the source\<close>

definition pll_fold1 :: "int \<Rightarrow> int \<Rightarrow> int" where
  "pll_fold1 period e =
     (if e > c_div period 2 then s32 (e - period)
      else if e < - c_div period 2 then s32 (e + period) else e)"

definition pll_fold :: "int \<Rightarrow> int \<Rightarrow> int" where
  "pll_fold period e = pll_fold1 period (pll_fold1 period e)"

text \<open>The correction of a resync: the nearest whole periods, or the offset itself if that is none.\<close>

definition resync_corr :: "int \<Rightarrow> int \<Rightarrow> int" where
  "resync_corr period raw =
     (let c = (if raw \<ge> 0 then c_div (raw + c_div period 2) period * period
               else - (c_div (- raw + c_div period 2) period * period))
      in if c = 0 then raw else c)"

definition pll_threshold :: "int \<Rightarrow> u32 \<Rightarrow> int" where
  "pll_threshold period max_err =
     s32 (uint (if max_err > word_of_int (c_div period 2) then word_of_int (c_div period 2) else max_err))"

text \<open>The drift compensation, with the delay counter it runs down.\<close>

definition pll_drift_step :: "int \<Rightarrow> int \<Rightarrow> master_hal \<Rightarrow> int \<times> master_hal" where
  "pll_drift_step period cur h =
     (if hd_drift_mode h = 0 then
        (let v = c_mod (s32 (period - cur)) period;
             v = (if v < 0 then s32 (v + period) else v)
         in if hd_auto_drift_delay h > 0 then (0, h\<lparr>hd_auto_drift_delay := hd_auto_drift_delay h - 1\<rparr>)
            else (v, h))
      else (0, h))"

text \<open>One control step; the results besides the HAL data are the new \<open>dc_ref\<close> and \<open>dc_time_valid\<close>.\<close>

definition m2r_control :: "u32 \<Rightarrow> int \<Rightarrow> int \<Rightarrow> u64 \<Rightarrow> master_hal \<Rightarrow> master_hal \<times> u64 \<times> bool" where
  "m2r_control aperiod raw cur dc_ref h =
     (let period = s32 (uint aperiod);
          (drift, h) = pll_drift_step period cur h;
          err = pll_fold period (s32 (raw + drift));
          h = h\<lparr>hd_pll_err := err, hd_dc_phased := (s32 \<bar>err\<bar> < s32 (uint (aperiod div 10)))\<rparr>
      in if s32 \<bar>raw\<bar> > pll_threshold period (hd_pll_max_err h) then
           (h\<lparr>hd_pll_reset_cnt := hd_pll_reset_cnt h + 1,
              hd_auto_drift_delay := (if hd_drift_mode h = 0 then 100 else hd_auto_drift_delay h)\<rparr>,
            dc_ref - word_of_int (resync_corr period raw), False)
         else (h\<lparr>hd_pll_out := (if err < 0 then step_neg (hd_pll_step h) else step_pos (hd_pll_step h))\<rparr>,
               dc_ref, True))"

definition pll_correction :: "int \<Rightarrow> master_hal \<Rightarrow> int" where
  "pll_correction to_ref h =
     (if to_ref = 0 \<and> hd_phase_locked h then hd_pll_drift h else s32 (hd_pll_out h + hd_pll_drift h))"

text \<open>
  Everything behind the send. \<open>dc\<close> is what the reference clock read gave, \<open>None\<close> if it was
  not asked or failed.
\<close>

definition clock_control :: "u64 \<Rightarrow> u32 option \<Rightarrow> lcec_master \<Rightarrow> (rt_call list \<times> lcec_master) option" where
  "clock_control app_time dc m =
     (if ma_app_time_period m = 0 then None
      else
        let aperiod = ma_app_time_period m;
            period = s32 (uint aperiod);
            cur = s32 (uint ((app_time - ma_dc_ref_time m) mod ucast aperiod));
            h = (ma_hal m)\<lparr>hd_pll_err := 0, hd_pll_out := 0, hd_dc_ref_err := 0, hd_app_phase := cur\<rparr>;
            h = (if ma_sync_to_ref_clock m = 0 then r2m_control (ma_initf_activated m) period cur h else h);
            both = (dc \<noteq> None \<and> ma_dc_time_valid_last m);
            raw = (if both then s32 (uint (ma_app_time_last m - the dc)) else 0);
            h = (if both then h\<lparr>hd_dc_ref_err := raw\<rparr> else h);
            (h, dc_ref, valid) =
              (if both \<and> ma_sync_to_ref_clock m \<noteq> 0 then m2r_control aperiod raw cur (ma_dc_ref m) h
               else (if ma_sync_to_ref_clock m \<noteq> 0 then h\<lparr>hd_dc_phased := False\<rparr> else h, ma_dc_ref m, dc \<noteq> None));
            corr = pll_correction (ma_sync_to_ref_clock m) h
        in Some ([CSetCorrection corr],
                 m\<lparr>ma_hal := h\<lparr>hd_pll_final := corr\<rparr>, ma_dc_ref := dc_ref,
                   ma_app_time_last := ucast app_time, ma_dc_time_valid_last := valid\<rparr>))"

section \<open>The write function\<close>

text \<open>
  Up to the send: the calls, the application time, what the reference clock read gave, and
  the master.
\<close>

definition write_front :: "rt_env \<Rightarrow> int \<Rightarrow> lcec_master \<Rightarrow> rt_call list \<times> u64 \<times> u32 option \<times> lcec_master" where
  "write_front env period m =
     (let us = sched_units (\<not> ma_sync_units_started m) (ma_sync_units m);
          wcalls = write_slaves us 0 (ma_slaves m);
          (pd, pdl) = last_process_data (\<lambda>s. su_write (us ! sl_sync_unit s) \<and> sl_proc_write s) us
                        (ma_slaves m) (ma_process_data m, ma_process_data_len m);
          (qcalls, us') = queue_units 0 us;
          m1 = m\<lparr>ma_sync_units := us', ma_process_data := pd, ma_process_data_len := pdl\<rparr>;
          now = en_now env;
          (app_time, m2) = app_time_step period now (en_pll_ref env) m1;
          m3 = m2\<lparr>ma_hal := publish_times app_time now (ma_hal m2)\<rparr>;
          ask = (ma_sync_to_ref_clock m3 \<noteq> 0 \<or> ma_sync_ref_cycles m3 \<noteq> 0);
          (rcalls, m4) = sync_ref_step m3
      in (wcalls @ CPllGetReference # MutexGet # qcalls @ CApplicationTime app_time #
            (if ask then [CReferenceClockTime] else []) @ rcalls @ CSyncSlaveClocks #
            (if hd_dc_sync_monitor (ma_hal m4) then [CSyncMonitorQueue] else []) @ [CSend, MutexGive],
          app_time, if ask then en_ref_clock env else None, m4))"

definition write_cycle :: "rt_env \<Rightarrow> int \<Rightarrow> lcec_master \<Rightarrow> (rt_call list \<times> lcec_master) option" where
  "write_cycle env period m =
     (let (cs, app_time, dc, m') = write_front env period m
      in map_option (\<lambda>(ccs, m''). (cs @ ccs, m'')) (clock_control app_time dc m'))"

definition lcec_write_master :: "rt_env \<Rightarrow> int \<Rightarrow> lcec_master \<Rightarrow> (rt_call list \<times> lcec_master) option" where
  "lcec_write_master env period m =
     (if ma_activated m then write_cycle env period m
      else
        let (cs, ok, m') = lcec_activate_master env (m\<lparr>ma_forgot_warned := True\<rparr>)
        in if \<not> ok then Some (cs, m')
           else map_option (\<lambda>(cs', m''). (cs @ cs', m'')) (write_cycle env period m'))"

fun lcec_write_all :: "(nat \<Rightarrow> rt_env) \<Rightarrow> int \<Rightarrow> nat \<Rightarrow> lcec_master list \<Rightarrow> (rt_call list list \<times> lcec_master list) option" where
  "lcec_write_all envs period k [] = Some ([], [])"
| "lcec_write_all envs period k (m # ms) =
     Option.bind (lcec_write_master (envs k) period m) (\<lambda>(cs, m').
       map_option (\<lambda>(css, ms'). (cs # css, m' # ms')) (lcec_write_all envs period (Suc k) ms))"

end
