(* ===== verification/RuntimeSched.thy ===== *)
theory RuntimeSched
  imports MasterWrite
begin

text \<open>
  The schedule of the cyclic task: which domain is exchanged in which cycle, which driver
  callback runs, how often the reference clock is set, and the mutex discipline of the
  calls. A counter that is reloaded when it is zero and counted down otherwise is the
  interface both the Sync Unit scheduler and the reference clock synchronisation implement.
\<close>

section \<open>Count-down scheduling\<close>

locale countdown =
  fixes step :: "'s \<Rightarrow> 's"
    and cnt :: "'s \<Rightarrow> nat"
    and per :: "'s \<Rightarrow> nat"
    and fires :: "'s \<Rightarrow> bool"
    and ok :: "'s \<Rightarrow> bool"
  assumes per_pos: "ok s \<Longrightarrow> 0 < per s"
    and per_step: "ok s \<Longrightarrow> per (step s) = per s"
    and ok_step: "ok s \<Longrightarrow> ok (step s)"
    and fire: "ok s \<Longrightarrow> fires s \<longleftrightarrow> cnt s = 0"
    and reload: "ok s \<Longrightarrow> cnt s = 0 \<Longrightarrow> cnt (step s) = per s - 1"
    and down: "ok s \<Longrightarrow> cnt s \<noteq> 0 \<Longrightarrow> cnt (step s) = cnt s - 1"
begin

lemma run_ok: "ok s \<Longrightarrow> ok ((step ^^ n) s) \<and> per ((step ^^ n) s) = per s"
  by (induction n) (simp_all add: ok_step per_step)

lemma cnt_run: "ok s \<Longrightarrow> cnt s = 0 \<Longrightarrow> cnt ((step ^^ n) s) = (if n mod per s = 0 then 0 else per s - n mod per s)"
proof (induction n)
  case 0
  then show ?case by simp
next
  case (Suc n)
  let ?t = "(step ^^ n) s"
  have ok: "ok ?t" "per ?t = per s" using run_ok [OF Suc.prems(1), of n] by auto
  have p: "0 < per s" by (rule per_pos [OF Suc.prems(1)])
  then have lt: "n mod per s < per s" by simp
  show ?case
  proof (cases "n mod per s = 0")
    case True
    then have "cnt (step ?t) = per s - 1" using Suc reload [OF ok(1)] ok(2) by simp
    moreover have "Suc n mod per s = (if per s = 1 then 0 else 1)" using True by (simp add: mod_Suc)
    ultimately show ?thesis using p by (auto simp: le_Suc_eq split: if_splits)
  next
    case False
    then have c: "cnt ?t = per s - n mod per s" using Suc lt by simp
    then have "cnt ?t \<noteq> 0" using lt by simp
    then have "cnt (step ?t) = per s - n mod per s - 1" using down [OF ok(1)] c by simp
    moreover have "Suc n mod per s = (if Suc (n mod per s) = per s then 0 else Suc (n mod per s))"
      by (rule mod_Suc)
    ultimately show ?thesis using lt False by (auto split: if_splits)
  qed
qed

text \<open>Started with a counter of zero, it fires in every \<open>per\<close>-th step and in no other.\<close>

lemma fires_run: "ok s \<Longrightarrow> cnt s = 0 \<Longrightarrow> fires ((step ^^ n) s) \<longleftrightarrow> n mod per s = 0"
proof -
  assume a: "ok s" "cnt s = 0"
  then have "n mod per s < per s" using per_pos by simp
  then show ?thesis using fire run_ok [OF a(1), of n] cnt_run [OF a, of n] by auto
qed

end

text \<open>
  The unit's part of a thread cycle: a read takes the queued mark over into the process
  mark, the scheduler decides whether to write, a write queues.
\<close>

definition after_read :: "sync_unit \<Rightarrow> sync_unit" where
  "after_read u = u\<lparr>su_process := su_queued u, su_queued := False\<rparr>"

definition after_write :: "sync_unit \<Rightarrow> sync_unit" where
  "after_write u = (if su_write u then u\<lparr>su_queued := True\<rparr> else u)"

definition unit_cycle :: "sync_unit \<Rightarrow> sync_unit" where
  "unit_cycle u = after_write (sched_unit False (after_read u))"

lemma unit_cycle_simps:
  "su_cycle_divider (unit_cycle u) = su_cycle_divider u"
  "su_cycle_counter (unit_cycle u) = (if su_cycle_counter u = 0 then su_cycle_divider u - 1 else su_cycle_counter u - 1)"
  "su_queued (unit_cycle u) \<longleftrightarrow> su_cycle_counter u = 0"
  "su_write (sched_unit False (after_read u)) \<longleftrightarrow> su_cycle_counter u = 0"
  by (simp_all add: unit_cycle_def after_write_def sched_unit_def after_read_def)

interpretation unit_clock: countdown unit_cycle "\<lambda>u. unat (su_cycle_counter u)"
    "\<lambda>u. unat (su_cycle_divider u)" "\<lambda>u. su_write (sched_unit False (after_read u))" "\<lambda>u. 0 < su_cycle_divider u"
proof
  fix u :: sync_unit
  assume a: "0 < su_cycle_divider u"
  then show "0 < unat (su_cycle_divider u)" by (simp add: word_less_nat_alt)
  show "unat (su_cycle_divider (unit_cycle u)) = unat (su_cycle_divider u)" by (simp add: unit_cycle_simps)
  show "0 < su_cycle_divider (unit_cycle u)" using a by (simp add: unit_cycle_simps)
  show "su_write (sched_unit False (after_read u)) \<longleftrightarrow> unat (su_cycle_counter u) = 0"
    by (simp add: unit_cycle_simps unat_eq_0)
  show "unat (su_cycle_counter (unit_cycle u)) = unat (su_cycle_divider u) - 1"
    if "unat (su_cycle_counter u) = 0"
    using that a by (simp add: unit_cycle_simps unat_eq_0 unat_minus_one)
  show "unat (su_cycle_counter (unit_cycle u)) = unat (su_cycle_counter u) - 1"
    if "unat (su_cycle_counter u) \<noteq> 0"
    using that by (simp add: unit_cycle_simps unat_eq_0 unat_minus_one)
qed

text \<open>The reference clock synchronisation, where the master is the source.\<close>

definition ref_source :: "lcec_master \<Rightarrow> bool" where
  "ref_source m \<longleftrightarrow> ma_sync_to_ref_clock m = 0 \<and> 0 < ma_sync_ref_cycles m \<and> in_s32 (ma_sync_ref_cycles m) \<and>
     0 \<le> ma_sync_ref_cnt m \<and> in_s32 (ma_sync_ref_cnt m)"

interpretation ref_clock: countdown "\<lambda>m. snd (sync_ref_step m)" "\<lambda>m. nat (ma_sync_ref_cnt m)"
    "\<lambda>m. nat (ma_sync_ref_cycles m)" "\<lambda>m. fst (sync_ref_step m) = [CSyncReferenceClock]" ref_source
proof
  fix m :: lcec_master
  assume a: "ref_source m"
  then show "0 < nat (ma_sync_ref_cycles m)" by (simp add: ref_source_def)
  show "nat (ma_sync_ref_cycles (snd (sync_ref_step m))) = nat (ma_sync_ref_cycles m)"
    by (simp add: sync_ref_step_def)
  have s: "s32 (ma_sync_ref_cycles m - 1) = ma_sync_ref_cycles m - 1"
    "ma_sync_ref_cnt m \<noteq> 0 \<Longrightarrow> s32 (ma_sync_ref_cnt m - 1) = ma_sync_ref_cnt m - 1"
    using a by (auto simp: ref_source_def in_s32_def)
  show "ref_source (snd (sync_ref_step m))"
    using a s by (auto simp: sync_ref_step_def ref_source_def in_s32_def)
  show "fst (sync_ref_step m) = [CSyncReferenceClock] \<longleftrightarrow> nat (ma_sync_ref_cnt m) = 0"
    using a by (auto simp: sync_ref_step_def ref_source_def)
  show "nat (ma_sync_ref_cnt (snd (sync_ref_step m))) = nat (ma_sync_ref_cycles m) - 1" if "nat (ma_sync_ref_cnt m) = 0"
    using that a s by (auto simp: sync_ref_step_def ref_source_def)
  show "nat (ma_sync_ref_cnt (snd (sync_ref_step m))) = nat (ma_sync_ref_cnt m) - 1" if "nat (ma_sync_ref_cnt m) \<noteq> 0"
    using that a s by (auto simp: sync_ref_step_def ref_source_def)
qed

section \<open>Mutex discipline\<close>

text \<open>
  Calls to a domain or to the master's datagrams are made with the mutex held, drivers run
  without it, and it is neither taken twice nor left held.
\<close>

fun needs_mutex :: "rt_call \<Rightarrow> bool" where
  "needs_mutex CReceive = True"
| "needs_mutex (CDomainProcess _) = True"
| "needs_mutex (CDomainState _) = True"
| "needs_mutex CSyncMonitorProcess = True"
| "needs_mutex CMasterState = True"
| "needs_mutex (CSlaveConfigState _) = True"
| "needs_mutex (CDomainQueue _) = True"
| "needs_mutex CReferenceClockTime = True"
| "needs_mutex CSyncReferenceClock = True"
| "needs_mutex CSyncSlaveClocks = True"
| "needs_mutex CSyncMonitorQueue = True"
| "needs_mutex CSend = True"
| "needs_mutex _ = False"

fun no_mutex :: "rt_call \<Rightarrow> bool" where
  "no_mutex (CProcRead _ _ _) = True"
| "no_mutex (CProcWrite _ _ _) = True"
| "no_mutex (CSetCorrection _) = True"
| "no_mutex CPllGetReference = True"
| "no_mutex CActivate = True"
| "no_mutex _ = False"

fun mutex_ok :: "bool \<Rightarrow> rt_call list \<Rightarrow> bool" where
  "mutex_ok held [] = (\<not> held)"
| "mutex_ok held (c # cs) =
     (if c = MutexGet then \<not> held \<and> mutex_ok True cs
      else if c = MutexGive then held \<and> mutex_ok False cs
      else (needs_mutex c \<longrightarrow> held) \<and> (no_mutex c \<longrightarrow> \<not> held) \<and> mutex_ok held cs)"

definition plain_calls :: "bool \<Rightarrow> rt_call list \<Rightarrow> bool" where
  "plain_calls held cs \<longleftrightarrow>
     (\<forall>c\<in>set cs. c \<noteq> MutexGet \<and> c \<noteq> MutexGive \<and> (needs_mutex c \<longrightarrow> held) \<and> (no_mutex c \<longrightarrow> \<not> held))"

lemma mutex_ok_plain: "plain_calls held cs \<Longrightarrow> mutex_ok held (cs @ ds) = mutex_ok held ds"
  by (induction cs) (auto simp: plain_calls_def)

lemma mutex_ok_free: "mutex_ok False cs \<Longrightarrow> mutex_ok False (cs @ ds) = mutex_ok False ds"
proof -
  have "mutex_ok h cs \<Longrightarrow> mutex_ok h (cs @ ds) = mutex_ok False ds" for h
    by (induction cs arbitrary: h) (auto split: if_splits)
  then show "mutex_ok False cs \<Longrightarrow> mutex_ok False (cs @ ds) = mutex_ok False ds" .
qed

lemma read_domains_plain: "plain_calls True (fst (read_domains env k us))"
  by (induction us arbitrary: k) (auto simp: plain_calls_def Let_def case_prod_unfold)

lemma read_slaves_mutex: "mutex_ok False (fst (read_slaves env chk us k ss))"
  by (induction ss arbitrary: k) (auto simp: Let_def case_prod_unfold)

lemma write_slaves_plain: "plain_calls False (write_slaves us k ss)"
  by (induction ss arbitrary: k) (auto simp: plain_calls_def Let_def)

lemma queue_units_plain: "plain_calls True (fst (queue_units k us))"
  by (induction us arbitrary: k) (auto simp: plain_calls_def Let_def case_prod_unfold)

lemma activate_units_plain: "plain_calls False (fst (activate_units env k us pd))"
  by (induction us arbitrary: k pd) (auto simp: plain_calls_def Let_def case_prod_unfold)

lemma plain_calls_Cons [simp]: "plain_calls False (c # cs) \<longleftrightarrow>
   c \<noteq> MutexGet \<and> c \<noteq> MutexGive \<and> \<not> needs_mutex c \<and> plain_calls False cs"
  by (auto simp: plain_calls_def)

lemma plain_calls_Nil [simp]: "plain_calls held []"
  by (simp add: plain_calls_def)

lemma activate_master_plain: "plain_calls False (fst (lcec_activate_master env m))"
  using activate_units_plain [of env 0]
  by (simp add: lcec_activate_master_def Let_def case_prod_unfold)

lemma read_master_mutex: "mutex_ok False (fst (lcec_read_master env period gms m))"
  by (simp add: lcec_read_master_def Let_def case_prod_unfold mutex_ok_plain [OF read_domains_plain]
      read_slaves_mutex)

lemma sync_ref_calls: "plain_calls True (fst (sync_ref_step m))"
  by (simp add: sync_ref_step_def plain_calls_def)

lemma write_front_mutex: "mutex_ok False (fst (write_front env period m))"
  by (simp add: write_front_def Let_def case_prod_unfold mutex_ok_plain [OF write_slaves_plain]
      mutex_ok_plain [OF queue_units_plain] mutex_ok_plain [OF sync_ref_calls])

lemma clock_control_calls: "clock_control t dc m = Some (cs, m') \<Longrightarrow> \<exists>x. cs = [CSetCorrection x]"
  by (auto simp: clock_control_def Let_def case_prod_unfold split: if_splits)

lemma write_cycleD:
  "write_cycle env period m = Some (cs, m') \<Longrightarrow>
   \<exists>fs t dc m1 x. write_front env period m = (fs, t, dc, m1) \<and> cs = fs @ [CSetCorrection x] \<and>
     clock_control t dc m1 = Some ([CSetCorrection x], m')"
  by (auto simp: write_cycle_def split: prod.splits dest: clock_control_calls)

lemma write_cycle_mutex: "write_cycle env period m = Some (cs, m') \<Longrightarrow> mutex_ok False cs"
  using write_front_mutex [of env period m]
  by (auto dest!: write_cycleD simp: mutex_ok_free)

lemma write_master_mutex:
  assumes "lcec_write_master env period m = Some (cs, m')"
  shows "mutex_ok False cs"
proof -
  let ?a = "lcec_activate_master env (m\<lparr>ma_forgot_warned := True\<rparr>)"
  have a: "mutex_ok False (fst ?a @ ds) = mutex_ok False ds" for ds
    by (rule mutex_ok_plain [OF activate_master_plain])
  show ?thesis
  proof (cases "ma_activated m")
    case True
    with assms show ?thesis by (simp add: lcec_write_master_def write_cycle_mutex)
  next
    case False
    with assms a [of "[]"] show ?thesis
      by (auto simp: lcec_write_master_def case_prod_unfold Let_def a intro: write_cycle_mutex split: if_splits)
  qed
qed

section \<open>Which domains are exchanged\<close>

lemma read_domains_units: "snd (read_domains env k us) = map (\<lambda>u. u\<lparr>su_process := su_queued u, su_queued := False\<rparr>) us"
  by (induction us arbitrary: k) (simp_all add: Let_def case_prod_unfold)

lemma queue_units_units: "snd (queue_units k us) = map (\<lambda>u. if su_write u then u\<lparr>su_queued := True\<rparr> else u) us"
  by (induction us arbitrary: k) (simp_all add: Let_def case_prod_unfold)

lemma queue_units_calls:
  "CDomainQueue j \<in> set (fst (queue_units k us)) \<longleftrightarrow> (\<exists>i<length us. j = k + i \<and> su_write (us ! i))"
  by (induction us arbitrary: k) (auto simp: Let_def case_prod_unfold Ex_less_Suc2)

lemma read_domains_calls:
  "CDomainProcess j \<in> set (fst (read_domains env k us)) \<longleftrightarrow> (\<exists>i<length us. j = k + i \<and> su_queued (us ! i))"
  by (induction us arbitrary: k) (auto simp: Let_def case_prod_unfold Ex_less_Suc2)

lemma read_slaves_calls:
  "CProcRead j per pd \<in> set (fst (read_slaves env chk us k ss)) \<longleftrightarrow>
   (\<exists>i<length ss. j = k + i \<and> su_process (us ! sl_sync_unit (ss ! i)) \<and> sl_proc_read (ss ! i) \<and>
      per = su_cycle_time (us ! sl_sync_unit (ss ! i)) \<and> pd = su_process_data (us ! sl_sync_unit (ss ! i)))"
  by (induction ss arbitrary: k) (auto simp: Let_def case_prod_unfold Ex_less_Suc2)

lemma write_slaves_calls:
  "CProcWrite j per pd \<in> set (write_slaves us k ss) \<longleftrightarrow>
   (\<exists>i<length ss. j = k + i \<and> su_write (us ! sl_sync_unit (ss ! i)) \<and> sl_proc_write (ss ! i) \<and>
      per = su_cycle_time (us ! sl_sync_unit (ss ! i)) \<and> pd = su_process_data (us ! sl_sync_unit (ss ! i)))"
  by (induction ss arbitrary: k) (auto simp: Let_def case_prod_unfold Ex_less_Suc2)

lemma read_slaves_other:
  "CDomainProcess j \<notin> set (fst (read_slaves env chk us k ss))" "CDomainQueue j \<notin> set (fst (read_slaves env chk us k ss))"
  by (induction ss arbitrary: k) (auto simp: Let_def case_prod_unfold)

lemma write_slaves_other: "CDomainQueue j \<notin> set (write_slaves us k ss)"
  by (induction ss arbitrary: k) (auto simp: Let_def)

lemma read_domains_other: "CProcRead j per pd \<notin> set (fst (read_domains env k us))"
  by (induction us arbitrary: k) (auto simp: Let_def case_prod_unfold)

lemma queue_units_other: "CProcWrite j per pd \<notin> set (fst (queue_units k us))"
  by (induction us arbitrary: k) (auto simp: Let_def case_prod_unfold)

text \<open>What the preparation of a read leaves alone.\<close>

lemma read_check_period_simps [simp]:
  "ma_sync_units (read_check_period p m) = ma_sync_units m" "ma_slaves (read_check_period p m) = ma_slaves m"
  "ma_activated (read_check_period p m) = ma_activated m" "ma_hal (read_check_period p m) = ma_hal m"
  "ma_sync_units_started (read_check_period p m) = ma_sync_units_started m" "ma_ms (read_check_period p m) = ma_ms m"
  "ma_sync_to_ref_clock (read_check_period p m) = ma_sync_to_ref_clock m"
  "ma_sync_ref_cycles (read_check_period p m) = ma_sync_ref_cycles m"
  "ma_sync_ref_cnt (read_check_period p m) = ma_sync_ref_cnt m"
  by (simp_all add: read_check_period_def)

lemma read_check_states_simps [simp]:
  "ma_sync_units (snd (read_check_states p m)) = ma_sync_units m" "ma_slaves (snd (read_check_states p m)) = ma_slaves m"
  "ma_activated (snd (read_check_states p m)) = ma_activated m" "ma_hal (snd (read_check_states p m)) = ma_hal m"
  "ma_sync_units_started (snd (read_check_states p m)) = ma_sync_units_started m"
  "ma_ms (snd (read_check_states p m)) = ma_ms m"
  "ma_app_time_period (snd (read_check_states p m)) = ma_app_time_period m"
  "ma_sync_to_ref_clock (snd (read_check_states p m)) = ma_sync_to_ref_clock m"
  "ma_sync_ref_cycles (snd (read_check_states p m)) = ma_sync_ref_cycles m"
  "ma_sync_ref_cnt (snd (read_check_states p m)) = ma_sync_ref_cnt m"
  by (simp_all add: read_check_states_def)

lemma read_slaves_static:
  "map sl_sync_unit (snd (read_slaves env chk us k ss)) = map sl_sync_unit ss"
  "map sl_proc_read (snd (read_slaves env chk us k ss)) = map sl_proc_read ss"
  "map sl_proc_write (snd (read_slaves env chk us k ss)) = map sl_proc_write ss"
  by (induction ss arbitrary: k) (simp_all add: Let_def case_prod_unfold)

text \<open>What a read does to the master, as far as the schedule is concerned.\<close>

lemma read_master_facts:
  assumes "ma_activated m" and "lcec_read_master env period gms m = (cs, gms', m')"
  shows "ma_sync_units m' = map after_read (ma_sync_units m)"
    and "map sl_sync_unit (ma_slaves m') = map sl_sync_unit (ma_slaves m)"
    and "map sl_proc_read (ma_slaves m') = map sl_proc_read (ma_slaves m)"
    and "map sl_proc_write (ma_slaves m') = map sl_proc_write (ma_slaves m)"
    and "ma_activated m'"
    and "ma_sync_units_started m \<Longrightarrow> ma_sync_units_started m'"
  using assms by (auto simp: lcec_read_master_def Let_def case_prod_unfold read_domains_units read_slaves_static
      after_read_def[abs_def])

lemma read_master_calls:
  assumes "ma_activated m" and "lcec_read_master env period gms m = (cs, gms', m')"
  shows "CDomainProcess j \<in> set cs \<longleftrightarrow> j < length (ma_sync_units m) \<and> su_queued (ma_sync_units m ! j)"
    and "CProcRead j per pd \<in> set cs \<longleftrightarrow>
      (let u = map after_read (ma_sync_units m) ! sl_sync_unit (ma_slaves m ! j) in
       j < length (ma_slaves m) \<and> sl_proc_read (ma_slaves m ! j) \<and> su_process u \<and> per = su_cycle_time u \<and> pd = su_process_data u)"
  using assms by (auto simp: lcec_read_master_def Let_def case_prod_unfold read_domains_units read_slaves_calls
      read_domains_calls read_slaves_other read_domains_other after_read_def[abs_def])

text \<open>The same for a write.\<close>

lemma app_time_step_simps [simp]:
  "ma_sync_units (snd (app_time_step p n r m)) = ma_sync_units m" "ma_slaves (snd (app_time_step p n r m)) = ma_slaves m"
  "ma_activated (snd (app_time_step p n r m)) = ma_activated m"
  "ma_sync_units_started (snd (app_time_step p n r m)) = ma_sync_units_started m"
  "ma_app_time_period (snd (app_time_step p n r m)) = ma_app_time_period m"
  "ma_sync_to_ref_clock (snd (app_time_step p n r m)) = ma_sync_to_ref_clock m"
  "ma_sync_ref_cycles (snd (app_time_step p n r m)) = ma_sync_ref_cycles m"
  "ma_sync_ref_cnt (snd (app_time_step p n r m)) = ma_sync_ref_cnt m"
  by (simp_all add: app_time_step_def)

lemma sync_ref_step_simps [simp]:
  "ma_sync_units (snd (sync_ref_step m)) = ma_sync_units m" "ma_slaves (snd (sync_ref_step m)) = ma_slaves m"
  "ma_activated (snd (sync_ref_step m)) = ma_activated m" "ma_hal (snd (sync_ref_step m)) = ma_hal m"
  "ma_sync_units_started (snd (sync_ref_step m)) = ma_sync_units_started m"
  "ma_app_time_period (snd (sync_ref_step m)) = ma_app_time_period m"
  "ma_sync_to_ref_clock (snd (sync_ref_step m)) = ma_sync_to_ref_clock m"
  "ma_sync_ref_cycles (snd (sync_ref_step m)) = ma_sync_ref_cycles m"
  by (simp_all add: sync_ref_step_def)

lemma clock_control_facts:
  assumes "clock_control t dc m = Some (cs, m')"
  shows "ma_sync_units m' = ma_sync_units m" and "ma_slaves m' = ma_slaves m" and "ma_activated m' = ma_activated m"
    and "ma_sync_units_started m' = ma_sync_units_started m" and "ma_app_time_period m' = ma_app_time_period m"
    and "ma_sync_to_ref_clock m' = ma_sync_to_ref_clock m" and "ma_sync_ref_cycles m' = ma_sync_ref_cycles m"
    and "ma_sync_ref_cnt m' = ma_sync_ref_cnt m" and "\<exists>x. cs = [CSetCorrection x]"
  using assms by (auto simp: clock_control_def Let_def case_prod_unfold split: if_splits)

lemma write_front_facts:
  assumes "write_front env period m = (cs, t, dc, m')"
  shows "ma_sync_units m' = map after_write (sched_units (\<not> ma_sync_units_started m) (ma_sync_units m))"
    and "ma_slaves m' = ma_slaves m" and "ma_activated m' = ma_activated m"
    and "ma_sync_units_started m' = ma_sync_units_started m" and "ma_app_time_period m' = ma_app_time_period m"
    and "ma_sync_to_ref_clock m' = ma_sync_to_ref_clock m" and "ma_sync_ref_cycles m' = ma_sync_ref_cycles m"
  using assms by (auto simp: write_front_def Let_def case_prod_unfold queue_units_units after_write_def[abs_def])

lemma write_front_calls:
  assumes "write_front env period m = (cs, t, dc, m')"
  shows "CDomainQueue j \<in> set cs \<longleftrightarrow> j < length (ma_sync_units m) \<and>
      su_write (sched_unit (\<not> ma_sync_units_started m) (ma_sync_units m ! j))"
  using assms by (auto simp: write_front_def Let_def case_prod_unfold queue_units_calls write_slaves_other sched_units_def
      sync_ref_step_def split: if_splits)

lemma write_cycle_facts:
  assumes "write_cycle env period m = Some (cs, m')"
  shows "ma_sync_units m' = map after_write (sched_units (\<not> ma_sync_units_started m) (ma_sync_units m))"
    and "ma_slaves m' = ma_slaves m" and "ma_activated m' = ma_activated m"
    and "ma_sync_units_started m' = ma_sync_units_started m" and "ma_app_time_period m' = ma_app_time_period m"
    and "ma_sync_to_ref_clock m' = ma_sync_to_ref_clock m" and "ma_sync_ref_cycles m' = ma_sync_ref_cycles m"
  using write_cycleD [OF assms] write_front_facts clock_control_facts by metis+

lemma write_cycle_calls:
  assumes "write_cycle env period m = Some (cs, m')"
  shows "CDomainQueue j \<in> set cs \<longleftrightarrow> j < length (ma_sync_units m) \<and>
      su_write (sched_unit (\<not> ma_sync_units_started m) (ma_sync_units m ! j))"
  using write_cycleD [OF assms] write_front_calls by fastforce

section \<open>The thread\<close>

text \<open>
  One period of the HAL thread: the read function, then the write function. The tr keeps
  the calls of the two apart.
\<close>

definition lcec_cycle :: "rt_env \<times> rt_env \<Rightarrow> int \<Rightarrow> master_state \<Rightarrow> lcec_master \<Rightarrow>
    ((rt_call list \<times> rt_call list) \<times> lcec_master) option" where
  "lcec_cycle e period gms m =
     (let (rcs, _, m1) = lcec_read_master (fst e) period gms m
      in map_option (\<lambda>(wcs, m2). ((rcs, wcs), m2)) (lcec_write_master (snd e) period m1))"

fun lcec_cycles :: "int \<Rightarrow> master_state \<Rightarrow> (rt_env \<times> rt_env) list \<Rightarrow> lcec_master \<Rightarrow>
    ((rt_call list \<times> rt_call list) list \<times> lcec_master) option" where
  "lcec_cycles period gms [] m = Some ([], m)"
| "lcec_cycles period gms (e # es) m =
     Option.bind (lcec_cycle e period gms m) (\<lambda>(c, m').
       map_option (\<lambda>(cs, m''). (c # cs, m'')) (lcec_cycles period gms es m'))"

lemma lcec_cycle_units:
  assumes "lcec_cycle e period gms m = Some ((rcs, wcs), m')" and "ma_activated m" and "ma_sync_units_started m"
  shows "ma_sync_units m' = map unit_cycle (ma_sync_units m)" and "ma_activated m'" and "ma_sync_units_started m'"
    and "CDomainProcess j \<in> set rcs \<longleftrightarrow> j < length (ma_sync_units m) \<and> su_queued (ma_sync_units m ! j)"
    and "CDomainQueue j \<in> set wcs \<longleftrightarrow> j < length (ma_sync_units m) \<and> su_cycle_counter (ma_sync_units m ! j) = 0"
proof -
  obtain g m1 where r: "lcec_read_master (fst e) period gms m = (rcs, g, m1)"
    and w: "lcec_write_master (snd e) period m1 = Some (wcs, m')"
    using assms(1) by (auto simp: lcec_cycle_def split: prod.splits)
  note rf = read_master_facts [OF assms(2) r]
  have wc: "write_cycle (snd e) period m1 = Some (wcs, m')"
    using w rf(5) by (simp add: lcec_write_master_def)
  note wf = write_cycle_facts [OF wc]
  show "ma_sync_units m' = map unit_cycle (ma_sync_units m)"
    by (simp add: wf(1) rf(1,6) assms(3) sched_units_def unit_cycle_def)
  show "ma_activated m'" "ma_sync_units_started m'" using wf(3,4) rf(5,6) assms(3) by auto
  show "CDomainProcess j \<in> set rcs \<longleftrightarrow> j < length (ma_sync_units m) \<and> su_queued (ma_sync_units m ! j)"
    by (rule read_master_calls(1) [OF assms(2) r])
  show "CDomainQueue j \<in> set wcs \<longleftrightarrow> j < length (ma_sync_units m) \<and> su_cycle_counter (ma_sync_units m ! j) = 0"
    unfolding write_cycle_calls [OF wc] by (auto simp: rf(1,6) assms(3) unit_cycle_simps)
qed

lemma lcec_cycles_units:
  assumes "lcec_cycles period gms es m = Some (tr, m')" and "ma_activated m" and "ma_sync_units_started m"
    and "n < length es" and "j < length (ma_sync_units m)"
  shows "length tr = length es"
    and "CDomainProcess j \<in> set (fst (tr ! n)) \<longleftrightarrow> su_queued ((unit_cycle ^^ n) (ma_sync_units m ! j))"
    and "CDomainQueue j \<in> set (snd (tr ! n)) \<longleftrightarrow> su_cycle_counter ((unit_cycle ^^ n) (ma_sync_units m ! j)) = 0"
proof -
  have "length tr = length es \<and>
    (CDomainProcess j \<in> set (fst (tr ! n)) \<longleftrightarrow> su_queued ((unit_cycle ^^ n) (ma_sync_units m ! j))) \<and>
    (CDomainQueue j \<in> set (snd (tr ! n)) \<longleftrightarrow> su_cycle_counter ((unit_cycle ^^ n) (ma_sync_units m ! j)) = 0)"
    using assms
  proof (induction es arbitrary: m tr n)
    case (Cons e es)
    obtain rcs wcs m1 cs where c: "lcec_cycle e period gms m = Some ((rcs, wcs), m1)"
      and rest: "lcec_cycles period gms es m1 = Some (cs, m')" and tr: "tr = (rcs, wcs) # cs"
      using Cons.prems(1) by (auto simp: bind_eq_Some_conv)
    note u = lcec_cycle_units [OF c Cons.prems(2,3)]
    have IH: "length cs = length es \<and>
      (CDomainProcess j \<in> set (fst (cs ! i)) \<longleftrightarrow> su_queued ((unit_cycle ^^ Suc i) (ma_sync_units m ! j))) \<and>
      (CDomainQueue j \<in> set (snd (cs ! i)) \<longleftrightarrow> su_cycle_counter ((unit_cycle ^^ Suc i) (ma_sync_units m ! j)) = 0)"
      if "i < length es" for i
      using Cons.IH [OF rest u(2,3) that] Cons.prems(5) u(1) by (simp add: funpow_swap1)
    have len: "length cs = length es"
      using rest by (induction es arbitrary: m1 cs) (auto simp: bind_eq_Some_conv)
    show ?case
    proof (cases n)
      case 0
      then show ?thesis using u(4,5) Cons.prems(5) len by (simp add: tr)
    next
      case (Suc i)
      then show ?thesis using IH [of i] Cons.prems(4) by (simp add: tr)
    qed
  qed simp
  then show "length tr = length es"
    and "CDomainProcess j \<in> set (fst (tr ! n)) \<longleftrightarrow> su_queued ((unit_cycle ^^ n) (ma_sync_units m ! j))"
    and "CDomainQueue j \<in> set (snd (tr ! n)) \<longleftrightarrow> su_cycle_counter ((unit_cycle ^^ n) (ma_sync_units m ! j)) = 0"
    by auto
qed

lemma unit_queued_run: "su_queued ((unit_cycle ^^ Suc n) u) \<longleftrightarrow> su_cycle_counter ((unit_cycle ^^ n) u) = 0"
  by (simp add: unit_cycle_simps)

lemma unit_counter_run:
  "0 < su_cycle_divider u \<Longrightarrow> su_cycle_counter u = 0 \<Longrightarrow>
   su_cycle_counter ((unit_cycle ^^ n) u) = 0 \<longleftrightarrow> n mod unat (su_cycle_divider u) = 0"
  using unit_clock.fires_run [of u n] by (simp add: unit_cycle_simps unat_eq_0)

section \<open>The reference clock over thread cycles\<close>

definition ref_part :: "lcec_master \<Rightarrow> int \<times> int \<times> int" where
  "ref_part m = (ma_sync_to_ref_clock m, ma_sync_ref_cycles m, ma_sync_ref_cnt m)"

lemma sync_ref_step_cong:
  "ref_part m = ref_part m' \<Longrightarrow>
   fst (sync_ref_step m) = fst (sync_ref_step m') \<and> ref_part (snd (sync_ref_step m)) = ref_part (snd (sync_ref_step m'))"
  by (auto simp: ref_part_def sync_ref_step_def)

lemma sync_ref_run_cong:
  "ref_part m = ref_part m' \<Longrightarrow>
   ref_part (((\<lambda>m. snd (sync_ref_step m)) ^^ n) m) = ref_part (((\<lambda>m. snd (sync_ref_step m)) ^^ n) m')"
proof (induction n)
  case (Suc n)
  from sync_ref_step_cong [OF Suc.IH [OF Suc.prems]] show ?case by simp
qed simp

lemma write_slaves_no_ref: "CSyncReferenceClock \<notin> set (write_slaves us k ss)"
  by (induction ss arbitrary: k) (auto simp: Let_def)

lemma queue_units_no_ref: "CSyncReferenceClock \<notin> set (fst (queue_units k us))"
  by (induction us arbitrary: k) (auto simp: Let_def case_prod_unfold)

lemma sync_ref_cnt:
  "ma_sync_ref_cnt (snd (sync_ref_step m)) =
     (if ma_sync_to_ref_clock m = 0 \<and> ma_sync_ref_cycles m > 0
      then (if ma_sync_ref_cnt m = 0 then s32 (ma_sync_ref_cycles m - 1) else s32 (ma_sync_ref_cnt m - 1))
      else ma_sync_ref_cnt m)"
  by (simp add: sync_ref_step_def)

lemma sync_ref_fires:
  "fst (sync_ref_step m) =
     (if ma_sync_to_ref_clock m = 0 \<and> ma_sync_ref_cycles m > 0 \<and> ma_sync_ref_cnt m = 0 then [CSyncReferenceClock] else [])"
  by (simp add: sync_ref_step_def)

lemma write_front_ref:
  assumes "write_front env period m = (fs, t, dc, m1)"
  shows "ref_part m1 = ref_part (snd (sync_ref_step m))"
    and "CSyncReferenceClock \<in> set fs \<longleftrightarrow> fst (sync_ref_step m) = [CSyncReferenceClock]"
  using assms
  by (auto simp: write_front_def Let_def case_prod_unfold ref_part_def write_slaves_no_ref queue_units_no_ref
      sync_ref_cnt sync_ref_fires)

lemma write_cycle_ref:
  assumes "write_cycle env period m = Some (cs, m')"
  shows "ref_part m' = ref_part (snd (sync_ref_step m))"
    and "CSyncReferenceClock \<in> set cs \<longleftrightarrow> fst (sync_ref_step m) = [CSyncReferenceClock]"
proof -
  obtain fs t dc m1 x where f: "write_front env period m = (fs, t, dc, m1)"
    and cs: "cs = fs @ [CSetCorrection x]" and c: "clock_control t dc m1 = Some ([CSetCorrection x], m')"
    using write_cycleD [OF assms] by auto
  have "ref_part m' = ref_part m1" using clock_control_facts(6-8) [OF c] by (simp add: ref_part_def)
  then show "ref_part m' = ref_part (snd (sync_ref_step m))"
    and "CSyncReferenceClock \<in> set cs \<longleftrightarrow> fst (sync_ref_step m) = [CSyncReferenceClock]"
    using write_front_ref [OF f] by (simp_all add: cs)
qed

lemma lcec_cycle_ref:
  assumes "lcec_cycle e period gms m = Some ((rcs, wcs), m')" and "ma_activated m"
  shows "ref_part m' = ref_part (snd (sync_ref_step m))" and "ma_activated m'"
    and "CSyncReferenceClock \<in> set wcs \<longleftrightarrow> fst (sync_ref_step m) = [CSyncReferenceClock]"
proof -
  obtain g m1 where r: "lcec_read_master (fst e) period gms m = (rcs, g, m1)"
    and w: "lcec_write_master (snd e) period m1 = Some (wcs, m')"
    using assms(1) by (auto simp: lcec_cycle_def split: prod.splits)
  have a: "ma_activated m1" using read_master_facts(5) [OF assms(2) r] .
  have p: "ref_part m1 = ref_part m"
    using r assms(2) by (auto simp: lcec_read_master_def Let_def case_prod_unfold ref_part_def)
  have wc: "write_cycle (snd e) period m1 = Some (wcs, m')" using w a by (simp add: lcec_write_master_def)
  show "ma_activated m'" using write_cycle_facts(3) [OF wc] a by simp
  show "ref_part m' = ref_part (snd (sync_ref_step m))"
    and "CSyncReferenceClock \<in> set wcs \<longleftrightarrow> fst (sync_ref_step m) = [CSyncReferenceClock]"
    using write_cycle_ref [OF wc] sync_ref_step_cong [OF p] by auto
qed

lemma lcec_cycles_ref:
  assumes "lcec_cycles period gms es m = Some (tr, m')" and "ma_activated m" and "n < length es"
  shows "CSyncReferenceClock \<in> set (snd (tr ! n)) \<longleftrightarrow>
    fst (sync_ref_step (((\<lambda>m. snd (sync_ref_step m)) ^^ n) m)) = [CSyncReferenceClock]"
  using assms
proof (induction es arbitrary: m tr n)
  case (Cons e es)
  obtain rcs wcs m1 cs where c: "lcec_cycle e period gms m = Some ((rcs, wcs), m1)"
    and rest: "lcec_cycles period gms es m1 = Some (cs, m')" and tr: "tr = (rcs, wcs) # cs"
    using Cons.prems(1) by (auto simp: bind_eq_Some_conv)
  note r = lcec_cycle_ref [OF c Cons.prems(2)]
  show ?case
  proof (cases n)
    case 0
    then show ?thesis using r(3) by (simp add: tr)
  next
    case (Suc i)
    have "CSyncReferenceClock \<in> set (snd (cs ! i)) \<longleftrightarrow>
      fst (sync_ref_step (((\<lambda>m. snd (sync_ref_step m)) ^^ i) m1)) = [CSyncReferenceClock]"
      using Cons.IH [OF rest r(2)] Cons.prems(3) Suc by simp
    also have "\<dots> \<longleftrightarrow> fst (sync_ref_step (((\<lambda>m. snd (sync_ref_step m)) ^^ i) (snd (sync_ref_step m)))) = [CSyncReferenceClock]"
      using sync_ref_step_cong [OF sync_ref_run_cong [OF r(1), of i]] by simp
    finally show ?thesis by (simp only: tr Suc nth_Cons_Suc funpow_Suc_right o_apply)
  qed
qed simp

lemma lcec_cycles_mutex:
  assumes "lcec_cycles period gms es m = Some (tr, m')"
  shows "mutex_ok False (concat (map (\<lambda>(r, w). r @ w) tr))"
  using assms
proof (induction es arbitrary: m tr)
  case (Cons e es)
  obtain rcs wcs m1 cs where c: "lcec_cycle e period gms m = Some ((rcs, wcs), m1)"
    and rest: "lcec_cycles period gms es m1 = Some (cs, m')" and tr: "tr = (rcs, wcs) # cs"
    using Cons.prems(1) by (auto simp: bind_eq_Some_conv)
  obtain g m2 where r: "lcec_read_master (fst e) period gms m = (rcs, g, m2)"
    and w: "lcec_write_master (snd e) period m2 = Some (wcs, m1)"
    using c by (auto simp: lcec_cycle_def split: prod.splits)
  have "mutex_ok False rcs" using read_master_mutex [of "fst e" period gms m] by (simp add: r)
  then show ?case
    using write_master_mutex [OF w] Cons.IH [OF rest] by (simp add: tr mutex_ok_free)
qed simp

end
