(* ===== verification/RuntimeClock.thy ===== *)
theory RuntimeClock
  imports RuntimeSched
begin

text \<open>
  The clock control of \<open>lcec_write_master\<close>: the folded PLL error and the resync of the
  reference, the phase calibration and its lock indicator, the continuity of the
  application time over the activation, and the one arithmetic fault the code can meet, a
  zero period.
\<close>

section \<open>Folding the error\<close>

text \<open>Periods of at most 2^30 ns, about a second: the sums below stay inside 32 bits.\<close>

definition period_ok :: "int \<Rightarrow> bool" where
  "period_ok p \<longleftrightarrow> 0 < p \<and> p \<le> 1073741824"

lemma c_div_half: "0 < p \<Longrightarrow> c_div p 2 = p div 2"
  by (simp add: c_div_nonneg)

lemma pll_fold1_cases:
  assumes "0 < p" and "p < 2147483648" and "in_s32 e"
  shows "pll_fold1 p e = (if e > p div 2 then e - p else if e < - (p div 2) then e + p else e)"
proof -
  have "e > p div 2 \<Longrightarrow> in_s32 (e - p)" "e < - (p div 2) \<Longrightarrow> in_s32 (e + p)"
    using assms by (auto simp: in_s32_def)
  then show ?thesis by (simp add: pll_fold1_def c_div_half [OF assms(1)])
qed

lemma pll_fold1_spec:
  assumes "0 < p" and "p < 2147483648" and "in_s32 e"
  shows "in_s32 (pll_fold1 p e)" and "pll_fold1 p e mod p = e mod p"
    and "\<bar>pll_fold1 p e\<bar> \<le> max (p div 2) (\<bar>e\<bar> - p)"
proof -
  note c = pll_fold1_cases [OF assms]
  show "in_s32 (pll_fold1 p e)" using assms by (auto simp: c in_s32_def)
  show "pll_fold1 p e mod p = e mod p" by (simp add: c)
  show "\<bar>pll_fold1 p e\<bar> \<le> max (p div 2) (\<bar>e\<bar> - p)" using assms(1)
    by (simp add: c split: if_split) linarith
qed

lemma pll_fold_spec:
  assumes "0 < p" and "p < 2147483648" and "in_s32 e"
  shows "pll_fold p e mod p = e mod p" and "\<bar>e\<bar> \<le> 2 * p + p div 2 \<Longrightarrow> \<bar>pll_fold p e\<bar> \<le> p div 2"
proof -
  note s1 = pll_fold1_spec [OF assms]
  note s2 = pll_fold1_spec [OF assms(1,2) s1(1)]
  show "pll_fold p e mod p = e mod p" using s1(2) s2(2) by (simp add: pll_fold_def)
  show "\<bar>e\<bar> \<le> 2 * p + p div 2 \<Longrightarrow> \<bar>pll_fold p e\<bar> \<le> p div 2"
    unfolding pll_fold_def using s1(3) s2(3) assms(1) by linarith
qed

section \<open>Resync\<close>

lemma resync_corr_eq:
  assumes "0 < p"
  shows "resync_corr p raw =
    (let c = sgn raw * ((\<bar>raw\<bar> + p div 2) div p * p) in if c = 0 then raw else c)"
  using assms by (cases "raw \<ge> 0") (auto simp: resync_corr_def c_div_half c_div_nonneg Let_def sgn_if)

lemma nearest_multiple:
  assumes "0 < p" and "0 \<le> (x::int)"
  shows "\<bar>x - (x + p div 2) div p * p\<bar> \<le> p div 2"
proof -
  have "(x + p div 2) div p * p = x + p div 2 - (x + p div 2) mod p" by (simp add: minus_mod_eq_div_mult)
  moreover have "0 \<le> (x + p div 2) mod p" "(x + p div 2) mod p < p" using assms(1) by simp_all
  moreover have "p \<le> 2 * (p div 2) + 1" by presburger
  ultimately show ?thesis by linarith
qed

text \<open>
  Either the correction is a positive number of whole periods, the nearest to the offset,
  or the offset is less than half a period and is removed as it is.
\<close>

lemma resync_corr_spec:
  assumes "0 < p" and "raw \<noteq> 0"
  shows "(p dvd resync_corr p raw \<and> resync_corr p raw \<noteq> 0 \<and> \<bar>raw - resync_corr p raw\<bar> \<le> p div 2) \<or>
    (resync_corr p raw = raw \<and> 2 * \<bar>raw\<bar> < p + 1)"
proof (cases "(\<bar>raw\<bar> + p div 2) div p = 0")
  case True
  then have "(\<bar>raw\<bar> + p div 2) mod p = \<bar>raw\<bar> + p div 2"
    using div_mult_mod_eq [of "\<bar>raw\<bar> + p div 2" p] by simp
  then have "\<bar>raw\<bar> + p div 2 < p" using pos_mod_bound [OF assms(1), of "\<bar>raw\<bar> + p div 2"] by simp
  moreover have "p \<le> 2 * (p div 2) + 1" by presburger
  ultimately show ?thesis using True by (simp add: resync_corr_eq [OF assms(1)] Let_def)
next
  case False
  then have c: "resync_corr p raw = sgn raw * ((\<bar>raw\<bar> + p div 2) div p * p)"
    using assms by (simp add: resync_corr_eq [OF assms(1)] Let_def sgn_if)
  have "\<bar>raw - resync_corr p raw\<bar> = \<bar>\<bar>raw\<bar> - (\<bar>raw\<bar> + p div 2) div p * p\<bar>"
    using assms(2) by (auto simp: c sgn_if)
  then have "\<bar>raw - resync_corr p raw\<bar> \<le> p div 2" using nearest_multiple [OF assms(1), of "\<bar>raw\<bar>"] by simp
  moreover have "p dvd resync_corr p raw" unfolding c by (intro dvd_mult dvd_triv_right)
  moreover have "resync_corr p raw \<noteq> 0" using False assms unfolding c by (simp add: sgn_if)
  ultimately show ?thesis by blast
qed

section \<open>One PLL step\<close>

definition hal_period :: "u32 \<Rightarrow> int" where
  "hal_period ap = s32 (uint ap)"

lemma hal_period_ok: "period_ok (uint ap) \<Longrightarrow> hal_period ap = uint ap"
  by (simp add: hal_period_def period_ok_def in_s32_def)

lemma pll_drift_range:
  assumes "period_ok p" and "0 \<le> cur" and "cur < p"
  shows "0 \<le> fst (pll_drift_step p cur h)" and "fst (pll_drift_step p cur h) < p"
proof -
  have "c_mod (s32 (p - cur)) p = (p - cur) mod p"
    using assms by (simp add: period_ok_def in_s32_def c_mod_nonneg)
  moreover have "0 \<le> (p - cur) mod p" "(p - cur) mod p < p" using assms(1) by (simp_all add: period_ok_def)
  ultimately show "0 \<le> fst (pll_drift_step p cur h)" and "fst (pll_drift_step p cur h) < p"
    using assms(1) by (simp_all add: pll_drift_step_def Let_def period_ok_def not_less)
qed

lemma pll_drift_fields [simp]:
  "hd_pll_max_err (snd (pll_drift_step p cur h)) = hd_pll_max_err h"
  "hd_pll_step (snd (pll_drift_step p cur h)) = hd_pll_step h"
  "hd_app_phase (snd (pll_drift_step p cur h)) = hd_app_phase h"
  "hd_pll_reset_cnt (snd (pll_drift_step p cur h)) = hd_pll_reset_cnt h"
  by (simp_all add: pll_drift_step_def Let_def)

lemma pll_threshold_le:
  assumes "period_ok p"
  shows "pll_threshold p e \<le> p div 2"
proof -
  define t where "t = (if e > word_of_int (p div 2) then word_of_int (p div 2) else e)"
  have p: "0 \<le> p div 2" "p div 2 < 2147483648" "0 < p" using assms by (auto simp: period_ok_def)
  then have "uint (word_of_int (p div 2) :: u32) = p div 2" by (simp add: uint_word_of_int)
  then have le: "uint t \<le> p div 2"
    by (simp add: t_def word_less_def not_less word_le_def split: if_splits)
  then have "in_s32 (uint t)" using p(2) uint_ge_0 [of t] unfolding in_s32_def by linarith
  moreover have "pll_threshold p e = s32 (uint t)" by (simp only: pll_threshold_def c_div_half [OF p(3)] t_def)
  ultimately show ?thesis using le by simp
qed

text \<open>A step without a resync: the published error is the offset plus drift, folded into half a period.\<close>

lemma m2r_control_locked:
  assumes "m2r_control ap raw cur dc_ref h = (h', ref', True)"
    and "period_ok (uint ap)" and "\<bar>raw\<bar> < 2147483648" and "0 \<le> cur" and "cur < uint ap"
  shows "\<bar>hd_pll_err h'\<bar> \<le> uint ap div 2"
    and "hd_pll_err h' mod uint ap = (raw + fst (pll_drift_step (uint ap) cur h)) mod uint ap"
    and "hd_pll_out h' = (if hd_pll_err h' < 0 then step_neg (hd_pll_step h) else step_pos (hd_pll_step h))"
    and "ref' = dc_ref"
proof -
  let ?p = "uint ap" and ?d = "fst (pll_drift_step (uint ap) cur h)"
  have p: "s32 ?p = ?p" "0 < ?p" "?p < 2147483648" "?p \<le> 1073741824"
    using assms(2) by (auto simp: period_ok_def in_s32_def)
  have r: "s32 \<bar>raw\<bar> \<le> pll_threshold ?p (hd_pll_max_err h)"
    and err: "hd_pll_err h' = pll_fold ?p (s32 (raw + ?d))"
    and out: "hd_pll_out h' = (if hd_pll_err h' < 0 then step_neg (hd_pll_step h) else step_pos (hd_pll_step h))"
    and ref: "ref' = dc_ref"
    using assms(1) by (auto simp: m2r_control_def Let_def case_prod_unfold p(1) not_less split: if_splits)
  have "s32 \<bar>raw\<bar> = \<bar>raw\<bar>" using assms(3) by (simp add: in_s32_def)
  then have raw: "\<bar>raw\<bar> \<le> ?p div 2"
    using r pll_threshold_le [OF assms(2), of "hd_pll_max_err h"] by simp
  have d: "0 \<le> ?d" "?d < ?p" using pll_drift_range [OF assms(2,4,5)] by auto
  have e: "in_s32 (raw + ?d)" "\<bar>raw + ?d\<bar> \<le> 2 * ?p + ?p div 2"
    using raw d p by (auto simp: in_s32_def)
  then show "\<bar>hd_pll_err h'\<bar> \<le> uint ap div 2" and "hd_pll_err h' mod uint ap = (raw + ?d) mod uint ap"
    using pll_fold_spec [OF p(2,3), of "raw + ?d"] by (simp_all add: err)
qed (use assms(1) in \<open>auto simp: m2r_control_def Let_def case_prod_unfold split: if_splits\<close>)

text \<open>A resync moves the reference by the correction and skips the next control step.\<close>

lemma m2r_control_resync:
  assumes "m2r_control ap raw cur dc_ref h = (h', ref', False)" and "period_ok (uint ap)"
  shows "ref' = dc_ref - word_of_int (resync_corr (uint ap) raw)"
    and "hd_pll_reset_cnt h' = hd_pll_reset_cnt h + 1"
    and "pll_threshold (uint ap) (hd_pll_max_err h) < s32 \<bar>raw\<bar>"
proof -
  have p: "s32 (uint ap) = uint ap" using assms(2) by (auto simp: period_ok_def in_s32_def)
  show "ref' = dc_ref - word_of_int (resync_corr (uint ap) raw)"
    and "hd_pll_reset_cnt h' = hd_pll_reset_cnt h + 1"
    and "pll_threshold (uint ap) (hd_pll_max_err h) < s32 \<bar>raw\<bar>"
    using assms(1) by (auto simp: m2r_control_def Let_def case_prod_unfold p split: if_splits)
qed

section \<open>Phase calibration and lock\<close>

lemma phase_unwrap_range:
  assumes "period_ok p" and "0 \<le> cur" and "cur < p" and "0 \<le> prev" and "prev < p"
  shows "- p < phase_unwrap p prev cur \<and> phase_unwrap p prev cur < 2 * p"
proof -
  have s: "s32 (cur - prev) = cur - prev" "s32 (cur - p) = cur - p" "s32 (cur + p) = cur + p"
    using assms by (simp_all add: period_ok_def in_s32_def)
  have "c_div (- p) 2 = - (p div 2)" using assms by (simp add: period_ok_def c_div_neg)
  then show ?thesis using assms by (auto simp: phase_unwrap_def Let_def s period_ok_def c_div_half)
qed

text \<open>
  The measurement: after the first sample the minimum and maximum enclose it, and the
  counter counts the samples up to the limit.
\<close>

definition measuring :: "int \<Rightarrow> master_hal \<Rightarrow> bool" where
  "measuring p h \<longleftrightarrow> \<not> hd_phase_calibrated h \<and>
     (0 < hd_phase_measure_cnt h \<longrightarrow>
        - p < hd_phase_min h \<and> hd_phase_min h \<le> hd_phase_max h \<and> hd_phase_max h < 2 * p \<and>
        0 \<le> hd_phase_last h \<and> hd_phase_last h < p)"

lemma phase_measure_step:
  assumes "measuring p h" and "period_ok p" and "0 \<le> cur" and "cur < p" and "0 \<le> hd_phase_measure_cnt h"
    and "hd_phase_measure_cnt h < PHASE_MEASURE_CYCLES"
  shows "measuring p (phase_measure p cur h)"
    and "hd_phase_measure_cnt (phase_measure p cur h) = hd_phase_measure_cnt h + 1"
proof -
  show "hd_phase_measure_cnt (phase_measure p cur h) = hd_phase_measure_cnt h + 1"
    using assms by (simp add: phase_measure_def Let_def)
  show "measuring p (phase_measure p cur h)"
  proof (cases "hd_phase_measure_cnt h = 0")
    case True
    then show ?thesis using assms by (simp add: phase_measure_def measuring_def Let_def)
  next
    case False
    then have c: "0 < hd_phase_measure_cnt h" using assms(5) by simp
    have "- p < phase_unwrap p (hd_phase_last h) cur \<and> phase_unwrap p (hd_phase_last h) cur < 2 * p"
      using assms c by (intro phase_unwrap_range) (auto simp: measuring_def)
    then show ?thesis using assms c False by (auto simp: phase_measure_def measuring_def Let_def)
  qed
qed

lemma phase_measure_done:
  assumes "measuring p h" and "p \<le> 400000000" and "0 < p" and "hd_phase_measure_cnt h = PHASE_MEASURE_CYCLES"
  shows "hd_phase_calibrated (phase_measure p cur h) \<and> \<not> hd_phase_locked (phase_measure p cur h) \<and>
    hd_phase_jitter (phase_measure p cur h) = hd_phase_max h - hd_phase_min h \<and>
    0 \<le> hd_phase_target (phase_measure p cur h) \<and> hd_phase_target (phase_measure p cur h) \<le> p div 8"
proof -
  have c: "\<not> hd_phase_calibrated h" "hd_phase_measure_cnt h \<noteq> 0" "\<not> hd_phase_measure_cnt h < PHASE_MEASURE_CYCLES"
    and r: "- p < hd_phase_min h" "hd_phase_min h \<le> hd_phase_max h" "hd_phase_max h < 2 * p"
    using assms by (auto simp: measuring_def PHASE_MEASURE_CYCLES_def)
  let ?j = "hd_phase_max h - hd_phase_min h"
  have j: "0 \<le> ?j" "?j < 3 * p" using r by auto
  have s: "s32 ?j = ?j" using j assms(2) by (simp add: in_s32_def)
  have "in_s32 (?j + ?j div 2)" unfolding in_s32_def using j assms(2) by linarith
  then have "s32 (?j + c_div ?j 2) = ?j + ?j div 2" using j by (simp add: c_div_nonneg)
  moreover have "c_div p 8 = p div 8" using assms(3) by (simp add: c_div_nonneg)
  ultimately show ?thesis using c j assms(3) by (simp add: phase_measure_def Let_def s pos_imp_zdiv_nonneg_iff)
qed

definition phase_measure_run :: "int \<Rightarrow> int list \<Rightarrow> master_hal \<Rightarrow> master_hal" where
  "phase_measure_run p curs h = fold (phase_measure p) curs h"

lemma phase_measure_run_spec:
  assumes "period_ok p" and "measuring p h" and "hd_phase_measure_cnt h = 0"
    and "\<forall>c\<in>set curs. 0 \<le> c \<and> c < p" and "int (length curs) \<le> PHASE_MEASURE_CYCLES"
  shows "measuring p (phase_measure_run p curs h) \<and> hd_phase_measure_cnt (phase_measure_run p curs h) = int (length curs)"
  using assms(4,5)
proof (induction curs rule: rev_induct)
  case Nil
  then show ?case using assms by (simp add: phase_measure_run_def)
next
  case (snoc c curs)
  let ?h = "phase_measure_run p curs h"
  have IH: "measuring p ?h" "hd_phase_measure_cnt ?h = int (length curs)" using snoc by auto
  have step: "phase_measure_run p (curs @ [c]) h = phase_measure p c ?h" by (simp add: phase_measure_run_def)
  show ?case
    unfolding step using snoc.prems phase_measure_step [OF IH(1) assms(1), of c] IH(2) by simp
qed

text \<open>The lock indicator: in the window all the time, it is set after the dwell time and not before.\<close>

lemma phase_control_in_window:
  assumes "s32 \<bar>s32 (cur - hd_phase_target h)\<bar> < c_div p 100"
  shows "phase_control p cur h =
    phase_dwell (h\<lparr>hd_pll_err := s32 (cur - hd_phase_target h), hd_phase_locked := True, hd_pll_out := 0\<rparr>)"
  using assms by (simp add: phase_control_def phase_lock_state_def Let_def)

definition phase_control_run :: "int \<Rightarrow> int list \<Rightarrow> master_hal \<Rightarrow> master_hal" where
  "phase_control_run p curs h = fold (phase_control p) curs h"

lemma phase_control_run_spec:
  assumes "\<forall>c\<in>set curs. s32 \<bar>s32 (c - hd_phase_target h)\<bar> < c_div p 100"
    and "hd_phase_lock_cnt h = 0" and "\<not> hd_dc_phased h" and "0 \<le> hd_phase_lock_dwell h"
  shows "hd_phase_target (phase_control_run p curs h) = hd_phase_target h \<and>
    hd_phase_lock_dwell (phase_control_run p curs h) = hd_phase_lock_dwell h \<and>
    hd_phase_lock_cnt (phase_control_run p curs h) = min (int (length curs)) (hd_phase_lock_dwell h) \<and>
    (hd_dc_phased (phase_control_run p curs h) \<longleftrightarrow> hd_phase_lock_dwell h < int (length curs)) \<and>
    (curs \<noteq> [] \<longrightarrow> hd_phase_locked (phase_control_run p curs h) \<and> hd_pll_out (phase_control_run p curs h) = 0)"
  using assms(1)
proof (induction curs rule: rev_induct)
  case Nil
  then show ?case using assms by (simp add: phase_control_run_def)
next
  case (snoc c curs)
  let ?h = "phase_control_run p curs h"
  have step: "phase_control_run p (curs @ [c]) h = phase_control p c ?h" by (simp add: phase_control_run_def)
  have w: "s32 \<bar>s32 (c - hd_phase_target ?h)\<bar> < c_div p 100" using snoc by simp
  show ?case
    unfolding step phase_control_in_window [OF w] using snoc assms(4)
    by (auto simp: phase_dwell_def Let_def)
qed

section \<open>The period and the application time\<close>

text \<open>The controllers leave the phase pin to the caller.\<close>

lemma r2m_control_app_phase: "hd_app_phase (r2m_control initf p cur h) = hd_app_phase h"
  by (simp add: r2m_control_def phase_measure_def phase_control_def phase_dwell_def Let_def)

lemma m2r_control_app_phase: "hd_app_phase (fst (m2r_control ap raw cur ref h)) = hd_app_phase h"
  by (simp add: m2r_control_def Let_def case_prod_unfold)

lemma clock_control_None: "clock_control t dc m = None \<longleftrightarrow> ma_app_time_period m = 0"
  by (simp add: clock_control_def Let_def case_prod_unfold)

lemma clock_control_phase:
  assumes "clock_control t dc m = Some (cs, m')"
  shows "hd_app_phase (ma_hal m') = s32 (uint ((t - ma_dc_ref_time m) mod ucast (ma_app_time_period m)))"
    and "ma_app_time_last m' = ucast t"
  using assms
  by (auto simp: clock_control_def Let_def case_prod_unfold r2m_control_app_phase m2r_control_app_phase split: if_splits)

lemma write_front_app_time:
  assumes "write_front env period m = (cs, t, dc, m')"
  shows "t = (if ma_sync_to_ref_clock m = 0 then ma_app_time_base m + word_of_int (en_now env)
              else ma_app_time_base m + ma_dc_ref m + word_of_int (en_now env - en_pll_ref env))"
    and "ma_dc_ref_time m' = ma_dc_ref_time m" and "ma_app_time_period m' = ma_app_time_period m"
    and "CApplicationTime t \<in> set cs"
  using assms by (auto simp: write_front_def Let_def case_prod_unfold app_time_step_def sync_ref_step_def)

lemma write_cycle_None: "write_cycle env period m = None \<longleftrightarrow> ma_app_time_period m = 0"
  by (auto simp: write_cycle_def clock_control_None split: prod.splits dest: write_front_app_time(3))

lemma lcec_activate_master_facts:
  assumes "lcec_activate_master env m = (cs, True, m')" and "\<not> ma_activated m"
  shows "ma_activated m'" and "ma_app_time_period m' = ma_app_time_period m"
    and "ma_sync_to_ref_clock m' = ma_sync_to_ref_clock m" and "ma_dc_ref m' = 0"
    and "ma_dc_ref_time m' = (if ma_sync_to_ref_clock m = 0 then ma_app_time_base m' + word_of_int (en_now_act env)
                              else ma_app_time_base m')"
    and "CApplicationTime (ma_dc_ref_time m') \<in> set cs"
  using assms by (auto simp: lcec_activate_master_def Let_def case_prod_unfold split: if_splits)

text \<open>
  The first application time after the activation is the one announced at the activation
  plus the time that has passed, or, with the reference clock as the source, plus the
  distance from the thread's reference point.
\<close>

lemma first_app_time:
  assumes "lcec_activate_master ea m = (as, True, m1)" and "\<not> ma_activated m"
    and "write_front ew period m1 = (cs, t, dc, m2)"
  shows "t - ma_dc_ref_time m1 =
    word_of_int (if ma_sync_to_ref_clock m = 0 then en_now ew - en_now_act ea else en_now ew - en_pll_ref ew)"
  using lcec_activate_master_facts [OF assms(1,2)] write_front_app_time(1) [OF assms(3)]
  by (simp add: of_int_diff)

lemma activated_phase:
  assumes "lcec_activate_master ea m = (as, True, m1)" and "\<not> ma_activated m"
    and "write_cycle ew period m1 = Some (cs, m2)"
  shows "hd_app_phase (ma_hal m2) =
    s32 (uint (word_of_int (if ma_sync_to_ref_clock m = 0 then en_now ew - en_now_act ea else en_now ew - en_pll_ref ew)
               mod (ucast (ma_app_time_period m) :: u64)))"
proof -
  obtain fs t dc m3 x where f: "write_front ew period m1 = (fs, t, dc, m3)"
    and c: "clock_control t dc m3 = Some ([CSetCorrection x], m2)"
    using write_cycleD [OF assms(3)] by auto
  show ?thesis
    using clock_control_phase(1) [OF c] first_app_time [OF assms(1,2) f] write_front_app_time [OF f]
      lcec_activate_master_facts [OF assms(1,2)] by simp
qed

text \<open>A read with the thread's period leaves a period that can be divided by.\<close>

lemma read_master_period:
  assumes "ma_activated m" and "lcec_read_master env period gms m = (cs, gms', m')"
  shows "ma_app_time_period m' =
    (if ma_app_time_period m = 0 \<and> period \<noteq> ma_period_last m then word_of_int period else ma_app_time_period m)"
  using assms by (auto simp: lcec_read_master_def Let_def case_prod_unfold read_check_period_def)

lemma activate_period: "ma_app_time_period (snd (snd (lcec_activate_master env m))) = ma_app_time_period m"
  by (simp add: lcec_activate_master_def Let_def case_prod_unfold)

lemma write_master_total: "ma_app_time_period m \<noteq> 0 \<Longrightarrow> lcec_write_master env period m \<noteq> None"
proof -
  assume p: "ma_app_time_period m \<noteq> 0"
  let ?a = "lcec_activate_master env (m\<lparr>ma_forgot_warned := True\<rparr>)"
  have "write_cycle env period m \<noteq> None" and "write_cycle env period (snd (snd ?a)) \<noteq> None"
    using p by (simp_all del: not_None_eq add: write_cycle_None activate_period)
  then show "lcec_write_master env period m \<noteq> None"
    by (auto simp: lcec_write_master_def case_prod_unfold Let_def)
qed

section \<open>Whole steps\<close>

lemma clock_phase_range:
  assumes "period_ok (uint (ap :: u32))"
  shows "0 \<le> s32 (uint ((x :: u64) mod ucast ap))" and "s32 (uint (x mod ucast ap)) < uint ap"
proof -
  have u: "uint (ucast ap :: u64) = uint ap" by (simp add: uint_up_ucast is_up)
  have "uint (x mod ucast ap) = uint x mod uint ap" by (simp add: uint_mod u)
  moreover have "0 \<le> uint x mod uint ap" "uint x mod uint ap < uint ap" using assms by (simp_all add: period_ok_def)
  ultimately show "0 \<le> s32 (uint (x mod ucast ap))" and "s32 (uint (x mod ucast ap)) < uint ap"
    using assms by (simp_all add: in_s32_def period_ok_def)
qed

lemma resync_corr_rest: "0 < p \<Longrightarrow> raw \<noteq> 0 \<Longrightarrow> \<bar>raw - resync_corr p raw\<bar> \<le> p div 2"
  using resync_corr_spec [of p raw] by auto

lemma clock_control_m2r:
  assumes "clock_control t (Some d) m = Some (cs, m')" and "ma_sync_to_ref_clock m \<noteq> 0" and "ma_dc_time_valid_last m"
  obtains h' ref' v h cur where
    "m2r_control (ma_app_time_period m) (s32 (uint (ma_app_time_last m - d))) cur (ma_dc_ref m) h = (h', ref', v)"
    and "cur = s32 (uint ((t - ma_dc_ref_time m) mod ucast (ma_app_time_period m)))"
    and "hd_pll_step h = hd_pll_step (ma_hal m)" and "hd_pll_drift h' = hd_pll_drift (ma_hal m)"
    and "hd_pll_reset_cnt h = hd_pll_reset_cnt (ma_hal m)" and "hd_pll_max_err h = hd_pll_max_err (ma_hal m)"
    and "cs = [CSetCorrection (s32 (hd_pll_out h' + hd_pll_drift (ma_hal m)))]"
    and "ma_hal m' = h'\<lparr>hd_pll_final := s32 (hd_pll_out h' + hd_pll_drift (ma_hal m))\<rparr>"
    and "ma_dc_ref m' = ref'" and "ma_dc_time_valid_last m' = v" and "ma_app_time_period m \<noteq> 0"
proof -
  let ?cur = "s32 (uint ((t - ma_dc_ref_time m) mod ucast (ma_app_time_period m)))"
  let ?raw = "s32 (uint (ma_app_time_last m - d))"
  let ?h = "(ma_hal m)\<lparr>hd_pll_err := 0, hd_pll_out := 0, hd_app_phase := ?cur, hd_dc_ref_err := ?raw\<rparr>"
  obtain h' ref' v where r: "m2r_control (ma_app_time_period m) ?raw ?cur (ma_dc_ref m) ?h = (h', ref', v)"
    by (cases "m2r_control (ma_app_time_period m) ?raw ?cur (ma_dc_ref m) ?h")
  have "hd_pll_drift (snd (pll_drift_step p c h)) = hd_pll_drift h" for p c h
    by (simp add: pll_drift_step_def Let_def)
  then have dr: "hd_pll_drift h' = hd_pll_drift (ma_hal m)"
    using r by (auto simp: m2r_control_def Let_def case_prod_unfold split: if_splits)
  have p: "ma_app_time_period m \<noteq> 0" using assms(1) by (auto simp: clock_control_def)
  have "clock_control t (Some d) m = Some ([CSetCorrection (s32 (hd_pll_out h' + hd_pll_drift (ma_hal m)))],
     m\<lparr>ma_hal := h'\<lparr>hd_pll_final := s32 (hd_pll_out h' + hd_pll_drift (ma_hal m))\<rparr>, ma_dc_ref := ref',
       ma_app_time_last := ucast t, ma_dc_time_valid_last := v\<rparr>)"
    using assms(2,3) p r by (simp add: clock_control_def Let_def pll_correction_def dr)
  with assms(1) have "cs = [CSetCorrection (s32 (hd_pll_out h' + hd_pll_drift (ma_hal m)))]"
    "m' = m\<lparr>ma_hal := h'\<lparr>hd_pll_final := s32 (hd_pll_out h' + hd_pll_drift (ma_hal m))\<rparr>, ma_dc_ref := ref',
       ma_app_time_last := ucast t, ma_dc_time_valid_last := v\<rparr>" by simp_all
  then show thesis by (intro that [OF r refl _ dr]) (simp_all add: p)
qed

lemma write_master_None:
  "lcec_write_master env period m = None \<longleftrightarrow> ma_app_time_period m = 0 \<and>
     (ma_activated m \<or> fst (snd (lcec_activate_master env (m\<lparr>ma_forgot_warned := True\<rparr>))))"
  by (auto simp: lcec_write_master_def write_cycle_None case_prod_unfold activate_period Let_def)

lemma read_master_period_pos:
  "ma_app_time_period m \<noteq> 0 \<Longrightarrow> ma_app_time_period (snd (snd (lcec_read_master env period gms m))) = ma_app_time_period m"
  by (simp add: lcec_read_master_def Let_def case_prod_unfold read_check_period_def)

lemma clock_control_period:
  "clock_control t dc m = Some (cs, m') \<Longrightarrow> ma_app_time_period m' = ma_app_time_period m"
  by (auto simp: clock_control_def Let_def case_prod_unfold split: if_splits)

lemma write_cycle_period:
  "write_cycle env period m = Some (cs, m') \<Longrightarrow> ma_app_time_period m' = ma_app_time_period m"
  by (auto simp: write_cycle_def split: prod.splits dest!: clock_control_period write_front_app_time(3))

lemma write_master_period:
  assumes "lcec_write_master env period m = Some (cs, m')"
  shows "ma_app_time_period m' = ma_app_time_period m"
  using assms
  by (auto simp: lcec_write_master_def case_prod_unfold Let_def activate_period split: if_splits dest!: write_cycle_period)

lemma lcec_cycles_total: "ma_app_time_period m \<noteq> 0 \<Longrightarrow> lcec_cycles period gms es m \<noteq> None"
proof (induction es arbitrary: m)
  case (Cons e es)
  let ?m1 = "snd (snd (lcec_read_master (fst e) period gms m))"
  have m1: "ma_app_time_period ?m1 = ma_app_time_period m" using Cons.prems by (rule read_master_period_pos)
  then obtain cs m2 where w: "lcec_write_master (snd e) period ?m1 = Some (cs, m2)"
    using write_master_total [of ?m1] Cons.prems by fastforce
  then have "ma_app_time_period m2 \<noteq> 0" using write_master_period m1 Cons.prems by fastforce
  then show ?case using Cons.IH [of m2] w by (auto simp: lcec_cycle_def case_prod_unfold)
qed simp

end
