(* ===== verification/RuntimeStats.thy ===== *)
theory RuntimeStats
  imports RuntimeSched
begin

text \<open>
  What the monitoring pins of \<open>lcec_read_master\<close> mean over many cycles: the working counter
  statistics against a list of exchanges, the clock synchrony monitor against a run of
  missing answers, and the global state against the masters.
\<close>

section \<open>Working counter statistics\<close>

text \<open>
  The specification: nothing is recorded before the first complete exchange; from there the
  minimum of the counters and the number of changes.
\<close>

definition wkc_seen :: "(u32 \<times> wc_state) list \<Rightarrow> u32 list" where
  "wkc_seen xs = map fst (dropWhile (\<lambda>x. snd x \<noteq> EC_WC_COMPLETE) xs)"

fun changes :: "'a list \<Rightarrow> nat" where
  "changes (x # y # xs) = (if x \<noteq> y then Suc (changes (y # xs)) else changes (y # xs))"
| "changes _ = 0"

definition wkc_run :: "(u32 \<times> wc_state) list \<Rightarrow> master_hal \<Rightarrow> master_hal" where
  "wkc_run xs h = fold (\<lambda>(now, wcs). wkc_update now wcs) xs h"

lemma changes_snoc: "xs \<noteq> [] \<Longrightarrow> changes (xs @ [y]) = changes xs + (if last xs \<noteq> y then 1 else 0)"
  by (induction xs rule: changes.induct) auto

lemma wkc_seen_snoc:
  "wkc_seen (xs @ [x]) =
     (if wkc_seen xs = [] then (if snd x = EC_WC_COMPLETE then [fst x] else []) else wkc_seen xs @ [fst x])"
proof (cases "\<exists>y\<in>set xs. snd y = EC_WC_COMPLETE")
  case True
  then obtain y where y: "y \<in> set xs" "\<not> snd y \<noteq> EC_WC_COMPLETE" by auto
  then have "wkc_seen xs \<noteq> []" by (auto simp: wkc_seen_def dropWhile_eq_Nil_conv)
  with y show ?thesis by (simp add: wkc_seen_def dropWhile_append1)
next
  case False
  then have "dropWhile (\<lambda>x. snd x \<noteq> EC_WC_COMPLETE) xs = []" by (auto simp: dropWhile_eq_Nil_conv)
  moreover have "\<And>y. y \<in> set xs \<Longrightarrow> snd y \<noteq> EC_WC_COMPLETE" using False by auto
  ultimately show ?thesis by (simp add: wkc_seen_def dropWhile_append2)
qed

lemma wkc_run_spec:
  assumes "\<not> hd_wkc_full_seen h" and "\<not> hd_wkc_reset h"
  shows "\<not> hd_wkc_reset (wkc_run xs h) \<and>
    (hd_wkc_full_seen (wkc_run xs h) \<longleftrightarrow> wkc_seen xs \<noteq> []) \<and>
    (wkc_seen xs \<noteq> [] \<longrightarrow>
       hd_wkc_min (wkc_run xs h) = Min (set (wkc_seen xs)) \<and>
       hd_wkc_change_cnt (wkc_run xs h) = of_nat (changes (wkc_seen xs)) \<and>
       hd_wkc_last (wkc_run xs h) = last (wkc_seen xs))"
proof (induction xs rule: rev_induct)
  case Nil
  then show ?case using assms by (simp add: wkc_run_def wkc_seen_def)
next
  case (snoc x xs)
  obtain now wcs where x: "x = (now, wcs)" by (cases x)
  have run: "wkc_run (xs @ [(now, wcs)]) h = wkc_update now wcs (wkc_run xs h)" by (simp add: wkc_run_def)
  let ?h = "wkc_run xs h"
  show ?case
  proof (cases "wkc_seen xs = []")
    case True
    with snoc show ?thesis
      by (simp add: run wkc_seen_snoc x wkc_update_def wkc_user_reset_def Let_def)
  next
    case False
    define M where "M = Min (set (wkc_seen xs))"
    have m: "Min (insert now (set (wkc_seen xs))) = min now M"
      using False by (simp add: Min_insert M_def)
    show ?thesis
      using snoc [folded M_def] False
      by (auto simp: run wkc_seen_snoc x wkc_update_def wkc_user_reset_def Let_def m changes_snoc min_def not_less)
  qed
qed

text \<open>A user reset starts the statistics again: the exchange of that cycle is the first one seen.\<close>

lemma wkc_reset_restarts:
  "hd_wkc_reset h \<Longrightarrow>
   wkc_update now wcs h = wkc_update now wcs (h\<lparr>hd_wkc_reset := False, hd_wkc_full_seen := False, hd_wkc_min := 0, hd_wkc_change_cnt := 0\<rparr>)"
  by (simp add: wkc_update_def wkc_user_reset_def)

section \<open>Clock synchrony monitor\<close>

definition dc_sync_run :: "u32 list \<Rightarrow> master_hal \<Rightarrow> master_hal" where
  "dc_sync_run ds h = fold dc_sync_update ds h"

lemma dc_sync_misses:
  assumes "hd_dc_sync_monitor h" and "hd_dc_sync_miss_cnt h = 0"
  shows "dc_sync_run (replicate n 0xFFFFFFFF) h =
    (if int n \<le> LCEC_DC_SYNC_MISS_MAX then h\<lparr>hd_dc_sync_miss_cnt := int n\<rparr>
     else h\<lparr>hd_dc_sync_miss_cnt := LCEC_DC_SYNC_MISS_MAX, hd_dc_sync_converged := False, hd_dc_sync_diff := 0xFFFFFFFF\<rparr>)"
proof (induction n)
  case 0
  have "h\<lparr>hd_dc_sync_miss_cnt := 0\<rparr> = h" using assms(2) by (cases h) simp
  then show ?case by (simp add: dc_sync_run_def LCEC_DC_SYNC_MISS_MAX_def)
next
  case (Suc n)
  have "dc_sync_run (replicate (Suc n) 0xFFFFFFFF) h = dc_sync_update 0xFFFFFFFF (dc_sync_run (replicate n 0xFFFFFFFF) h)"
    by (simp only: dc_sync_run_def replicate_append_same [symmetric] replicate_Suc fold_append comp_apply fold_simps)
  with Suc assms show ?case
    by (auto simp: dc_sync_update_def LCEC_DC_SYNC_MISS_MAX_def split: if_splits)
qed

lemma dc_sync_run_spec:
  assumes "hd_dc_sync_monitor h" and "d \<noteq> 0xFFFFFFFF"
  shows "hd_dc_sync_diff (dc_sync_run (d # replicate n 0xFFFFFFFF) h) = (if n \<le> 10 then d else 0xFFFFFFFF)"
    and "hd_dc_sync_converged (dc_sync_run (d # replicate n 0xFFFFFFFF) h) \<longleftrightarrow> n \<le> 10 \<and> d < hd_dc_sync_max h"
proof -
  let ?h = "dc_sync_update d h"
  have h: "hd_dc_sync_monitor ?h" "hd_dc_sync_miss_cnt ?h = 0" "hd_dc_sync_diff ?h = d"
    "hd_dc_sync_converged ?h = (d < hd_dc_sync_max h)"
    using assms by (simp_all add: dc_sync_update_def)
  have "dc_sync_run (d # replicate n 0xFFFFFFFF) h = dc_sync_run (replicate n 0xFFFFFFFF) ?h"
    by (simp add: dc_sync_run_def)
  then show "hd_dc_sync_diff (dc_sync_run (d # replicate n 0xFFFFFFFF) h) = (if n \<le> 10 then d else 0xFFFFFFFF)"
    and "hd_dc_sync_converged (dc_sync_run (d # replicate n 0xFFFFFFFF) h) \<longleftrightarrow> n \<le> 10 \<and> d < hd_dc_sync_max h"
    by (simp_all add: dc_sync_misses [OF h(1,2)] h LCEC_DC_SYNC_MISS_MAX_def)
qed

section \<open>Domains and the global state\<close>

lemma fold_flag: "fold (\<lambda>k acc. if P k then False else acc) xs acc \<longleftrightarrow> acc \<and> (\<forall>k\<in>set xs. \<not> P k)"
  by (induction xs arbitrary: acc) auto

lemma domains_wc_state_spec:
  "domains_wc_state env n =
     (if \<forall>k<n. snd (en_domain_state env k) = EC_WC_COMPLETE then EC_WC_COMPLETE
      else if \<forall>k<n. snd (en_domain_state env k) = EC_WC_ZERO then EC_WC_ZERO else EC_WC_INCOMPLETE)"
  by (auto simp: domains_wc_state_def all_domains_complete_def all_domains_zero_def fold_flag)

lemma domain_sum_spec: "domain_sum env n = (\<Sum>k<n. fst (en_domain_state env k))"
  by (induction n) (simp_all add: domain_sum_def add.commute)

text \<open>The read of all masters adds up the state of every activated master.\<close>

definition read_ms :: "rt_env \<Rightarrow> int \<Rightarrow> lcec_master \<Rightarrow> master_state" where
  "read_ms env period m = ma_ms (snd (snd (lcec_read_master env period zero_master_state m)))"

lemma read_master_gms:
  "fst (snd (lcec_read_master env period gms m)) =
     (if ma_activated m then
        \<lparr>ms_slaves_responding = ms_slaves_responding gms + ms_slaves_responding (read_ms env period m),
         ms_al_states = ms_al_states gms OR ms_al_states (read_ms env period m),
         ms_link_up = (ms_link_up gms \<and> ms_link_up (read_ms env period m))\<rparr>
      else gms)"
  by (simp add: lcec_read_master_def read_ms_def Let_def case_prod_unfold)

lemma read_masters_gms:
  "fst (snd (read_masters envs period k gms ms)) =
     (let idx = filter (\<lambda>i. ma_activated (ms ! i)) [0..<length ms];
          st = (\<lambda>i. read_ms (envs (k + i)) period (ms ! i)) in
      \<lparr>ms_slaves_responding = ms_slaves_responding gms + sum_list (map (\<lambda>i. ms_slaves_responding (st i)) idx),
       ms_al_states = fold (\<lambda>i a. a OR ms_al_states (st i)) idx (ms_al_states gms),
       ms_link_up = (ms_link_up gms \<and> (\<forall>i\<in>set idx. ms_link_up (st i)))\<rparr>)"
proof (induction ms arbitrary: k gms)
  case Nil
  then show ?case by (cases gms) simp
next
  case (Cons m ms)
  have idx: "filter (\<lambda>i. ma_activated ((m # ms) ! i)) [0..<length (m # ms)] =
      (if ma_activated m then [0] else []) @ map Suc (filter (\<lambda>i. ma_activated (ms ! i)) [0..<length ms])"
    by (simp add: upt_conv_Cons map_Suc_upt [symmetric] filter_map comp_def del: upt_Suc map_Suc_upt)
  have step: "fst (snd (read_masters envs period k gms (m # ms))) =
      fst (snd (read_masters envs period (Suc k) (fst (snd (lcec_read_master (envs k) period gms m))) ms))"
    by (simp add: Let_def case_prod_unfold)
  show ?case
    unfolding step idx Cons.IH read_master_gms
    by (auto simp: Let_def fold_map comp_def add.assoc)
qed

text \<open>The masters after the read carry the state that was added up.\<close>

lemma read_masters_length: "length (snd (snd (read_masters envs period k gms ms))) = length ms"
  by (induction ms arbitrary: k gms) (simp_all add: Let_def case_prod_unfold)

lemma read_ms_gms: "ma_ms (snd (snd (lcec_read_master env period gms m))) = read_ms env period m"
  by (simp add: read_ms_def lcec_read_master_def Let_def case_prod_unfold)

lemma read_masters_ms:
  "i < length ms \<Longrightarrow> ma_ms (snd (snd (read_masters envs period k gms ms)) ! i) = read_ms (envs (k + i)) period (ms ! i)"
proof (induction ms arbitrary: k gms i)
  case (Cons m ms)
  then show ?case by (cases i) (simp_all add: Let_def case_prod_unfold read_ms_gms)
qed simp

lemma fold_or_bit: "fold (\<lambda>i a. a OR f i) xs a AND b \<noteq> (0 :: u8) \<longleftrightarrow> a AND b \<noteq> 0 \<or> (\<exists>i\<in>set xs. f i AND b \<noteq> 0)"
  by (induction xs arbitrary: a) (auto simp: bit.conj_disj_distrib2 or_eq_0_iff)

end
