(* ===== verification/Samples.thy ===== *)
theory Samples
  imports ConfPipeline RuntimeClock RuntimeStats
begin

text \<open>
  Concrete inputs the witnesses of the root theory are evaluated on: a document with a
  generic and a registered slave, an init command file, and a master in operation.
\<close>

section \<open>A configuration\<close>

definition sample_types :: registry where
  "sample_types =
     [\<lparr>ty_name = ''generic'', ty_vid = 0, ty_pid = 0, ty_is_fsoe_logic = False, ty_proc_preinit = None,
       ty_proc_init = None, ty_modparams = None, ty_flags = 0, ty_sourcefile = None\<rparr>,
      \<lparr>ty_name = ''EL9'', ty_vid = 2, ty_pid = 9, ty_is_fsoe_logic = False, ty_proc_preinit = Some ''lcec_el9_preinit'',
       ty_proc_init = Some ''lcec_el9_init'',
       ty_modparams = Some [\<lparr>md_name = ''gain'', md_id = 3, md_type = MODPARAM_TYPE_U32, md_config_value = None,
                             md_config_comment = None\<rparr>],
       ty_flags = 0, ty_sourcefile = Some ''lcec_el9.c''\<rparr>]"

definition sample_icmds :: "xml_event list" where
  "sample_icmds =
     [StartEl ''EtherCATMailbox'' [], StartEl ''CoE'' [], StartEl ''InitCmds'' [], StartEl ''InitCmd'' [],
      StartEl ''Transition'' [], CharData ''PS'', EndEl ''Transition'',
      StartEl ''Index'' [], CharData ''32768'', EndEl ''Index'',
      StartEl ''SubIndex'' [], CharData ''1'', EndEl ''SubIndex'',
      StartEl ''Data'' [], CharData ''0A0b'', EndEl ''Data'',
      EndEl ''InitCmd'', EndEl ''InitCmds'', EndEl ''CoE'', EndEl ''EtherCATMailbox'']"

definition sample_env :: conf_env where
  "sample_env =
     \<lparr>ev_types = sample_types, ev_calloc = (\<lambda>_ _. True), ev_max_sync_managers = 16,
      ev_icmd_file = (\<lambda>f. if f = ''init.xml'' then Some (sample_icmds, True) else None)\<rparr>"

definition sample_doc :: "xml_event list" where
  "sample_doc =
     [StartEl ''masters'' [],
      StartEl ''master'' [(''idx'', ''0''), (''appTimePeriod'', ''1000000''), (''refClockSyncCycles'', ''5'')],
      StartEl ''slave'' [(''idx'', ''0''), (''type'', ''generic''), (''vid'', ''2''), (''syncUnit'', ''slow''), (''syncUnitCycle'', ''*2'')],
      StartEl ''sdoConfig'' [(''idx'', ''8000''), (''subIdx'', ''01'')],
      StartEl ''sdoDataRaw'' [(''data'', ''1f 00'')], EndEl ''sdoDataRaw'', EndEl ''sdoConfig'',
      StartEl ''initCmds'' [(''filename'', ''init.xml'')], EndEl ''initCmds'',
      StartEl ''syncManager'' [(''idx'', ''2''), (''dir'', ''out'')],
      StartEl ''pdo'' [(''idx'', ''1600'')],
      StartEl ''pdoEntry'' [(''idx'', ''7000''), (''subIdx'', ''01''), (''bitLen'', ''8''), (''halType'', ''complex'')],
      StartEl ''complexEntry'' [(''bitLen'', ''3''), (''halType'', ''u32''), (''halPin'', ''mode'')], EndEl ''complexEntry'',
      EndEl ''pdoEntry'', EndEl ''pdo'', EndEl ''syncManager'', EndEl ''slave'',
      StartEl ''slave'' [(''idx'', ''1''), (''type'', ''EL9'')],
      StartEl ''dcConf'' [(''assignActivate'', ''300''), (''sync0Cycle'', ''*1'')], EndEl ''dcConf'',
      StartEl ''watchdog'' [(''divider'', ''2498''), (''intervals'', ''1000'')], EndEl ''watchdog'',
      StartEl ''modParam'' [(''name'', ''gain''), (''value'', ''0x10'')], EndEl ''modParam'',
      EndEl ''slave'', EndEl ''master'', EndEl ''masters'']"

definition sample_file :: xml_file where
  "sample_file = Some (sample_doc, True)"

definition sample_shmem :: "nat \<Rightarrow> bool" where
  "sample_shmem n \<longleftrightarrow> n < 4096"

definition sample_image :: conf_image where
  "sample_image = (case conf_main sample_env sample_shmem sample_file of Inr im \<Rightarrow> im
     | Inl _ \<Rightarrow> \<lparr>im_magic = 0, im_length = 0, im_blocks = []\<rparr>)"

definition sample_load_env :: load_env where
  "sample_load_env =
     \<lparr>le_types = sample_types, le_shmem_header = True, le_map_header = True, le_shmem_full = True,
      le_map_full = True, le_preinit = (\<lambda>_. True)\<rparr>"

lemma sample_main: "conf_main sample_env sample_shmem sample_file = Inr sample_image"
proof -
  have "case conf_main sample_env sample_shmem sample_file of Inr im \<Rightarrow> True | Inl _ \<Rightarrow> False"
    by code_simp
  then show ?thesis by (simp add: sample_image_def split: sum.splits)
qed

lemma sample_short: "short_names (ev_types sample_env)"
  by (simp add: short_names_def sample_env_def sample_types_def LCEC_CONF_STR_MAXLEN_def)

lemma sample_balanced: "icmd_files_balanced sample_env"
  by (simp add: icmd_files_balanced_def sample_env_def sample_icmds_def)

lemma sample_units: "units_agree Map.empty (butlast (map snd (im_blocks sample_image)))"
  by code_simp

section \<open>A master in operation\<close>

definition sample_unit :: sync_unit where
  "sample_unit = (make_sync_unit 1000000 ''slow'' 2000000)\<lparr>su_process_data := Some 0, su_process_data_len := 1\<rparr>"

definition sample_slave :: lcec_slave where
  "sample_slave =
     (load_new_slave (new_slave 2000000) None 0)
       \<lparr>sl_config := True, sl_proc_read := True, sl_proc_write := True,
        sl_hal_state := Some \<lparr>hs_online = False, hs_operational = False, hs_state_init = False, hs_state_preop = False,
                              hs_state_safeop = False, hs_state_op = False\<rparr>\<rparr>"

definition sample_master :: lcec_master where
  "sample_master =
     \<lparr>ma_index = 0, ma_name = ''0'', ma_app_time_period = 1000000, ma_sync_ref_cycles = 5, ma_sync_to_ref_clock = 0,
      ma_sync_units = [sample_unit], ma_slaves = [sample_slave], ma_master = True, ma_domain = Some 0,
      ma_process_data = Some 0, ma_process_data_len = 1, ma_sync_units_started = True,
      ma_hal = zero_master_hal\<lparr>hd_pll_step := 1000, hd_pll_max_err := 1000000, hd_dc_sync_max := 40000,
                               hd_dc_sync_monitor := True, hd_phase_lock_dwell := 200\<rparr>,
      ma_app_time_base = 0, ma_period_last = 1000000, ma_sync_ref_cnt = 0, ma_state_update_timer = 0,
      ma_ms = \<lparr>ms_slaves_responding = 1, ms_al_states = 8, ms_link_up = True\<rparr>, ma_activated = True,
      ma_initf_activated = False, ma_forgot_warned = False, ma_dc_ref = 0, ma_dc_ref_time = 0,
      ma_app_time_last = 0, ma_dc_time_valid_last = False\<rparr>"

definition sample_rt :: rt_env where
  "sample_rt =
     \<lparr>en_domain_state = (\<lambda>_. (3, EC_WC_COMPLETE)), en_sync_monitor = 12,
      en_master_state = \<lparr>ms_slaves_responding = 1, ms_al_states = 8, ms_link_up = True\<rparr>,
      en_slave_state = (\<lambda>_. \<lparr>ss_online = True, ss_operational = True, ss_al_state = 8\<rparr>),
      en_timeofday = 5000000, en_now = 1250000, en_now_act = 1000000, en_pll_ref = 1200000,
      en_ref_clock = Some 700, en_activate_ok = True, en_domain_data = (\<lambda>k. Some k), en_domain_size = (\<lambda>_. 1)\<rparr>"

end
