(* ===== verification/Syncs.thy ===== *)
theory Syncs
  imports MasterData
begin

text \<open>
  The builder of sync manager configurations of \<open>lcec_ethercat.c\<close> (\<open>lcec_syncs_*\<close>). A driver
  calls it sync manager by sync manager, PDO by PDO and entry by entry; it fills three flat
  arrays that point into each other, which the EtherCAT master reads back. The specification
  is the nested list of the calls, and the simulation says that the arrays mean that list
  unless the error flag is set.
\<close>

section \<open>The builder\<close>

datatype ec_watchdog_mode = EC_WD_DEFAULT | EC_WD_ENABLE | EC_WD_DISABLE

record sync_cfg = sync_info +
  si_watchdog_mode :: ec_watchdog_mode

definition LCEC_MAX_SYNC_COUNT :: nat where "LCEC_MAX_SYNC_COUNT = 4"
definition LCEC_MAX_PDO_INFO_COUNT :: nat where "LCEC_MAX_PDO_INFO_COUNT = 16"
definition LCEC_MAX_PDO_ENTRY_COUNT :: nat where "LCEC_MAX_PDO_ENTRY_COUNT = 128"

lemmas sync_max_defs = LCEC_MAX_SYNC_COUNT_def LCEC_MAX_PDO_INFO_COUNT_def LCEC_MAX_PDO_ENTRY_COUNT_def

text \<open>The \<open>curr\<close> pointers are positions in the array they point into.\<close>

record syncs =
  sy_sync_count :: nat
  sy_curr_sync :: "nat option"
  sy_syncs :: "sync_cfg list"
  sy_pdo_info_count :: nat
  sy_curr_pdo_info :: "nat option"
  sy_pdo_infos :: "pdo_info list"
  sy_pdo_entry_count :: nat
  sy_curr_pdo_entry :: "nat option"
  sy_pdo_entries :: "pdo_entry_info list"
  sy_autoflow :: bool
  sy_pdo_entry_limit :: int
  sy_pdo_limit :: int
  sy_pdo_increment :: int
  sy_error :: bool

datatype sync_fault = SyncNull | SyncOverrun

definition zero_sync :: sync_cfg where
  "zero_sync = \<lparr>si_index = 0, si_dir = EC_DIR_INVALID, si_n_pdos = 0, si_pdos = None, si_watchdog_mode = EC_WD_DEFAULT\<rparr>"

definition zero_pdo :: pdo_info where "zero_pdo = \<lparr>pi_index = 0, pi_n_entries = 0, pi_entries = None\<rparr>"

definition zero_entry :: pdo_entry_info where "zero_entry = \<lparr>ei_index = 0, ei_subindex = 0, ei_bit_length = 0\<rparr>"

definition lcec_syncs_init :: syncs where
  "lcec_syncs_init =
     \<lparr>sy_sync_count = 0, sy_curr_sync = None, sy_syncs = replicate (LCEC_MAX_SYNC_COUNT + 1) zero_sync,
      sy_pdo_info_count = 0, sy_curr_pdo_info = None, sy_pdo_infos = replicate (LCEC_MAX_PDO_INFO_COUNT + 1) zero_pdo,
      sy_pdo_entry_count = 0, sy_curr_pdo_entry = None,
      sy_pdo_entries = replicate (LCEC_MAX_PDO_ENTRY_COUNT + 1) zero_entry,
      sy_autoflow = False, sy_pdo_entry_limit = 0, sy_pdo_limit = 0, sy_pdo_increment = 0, sy_error = False\<rparr>"

definition lcec_syncs_enable_autoflow :: "int \<Rightarrow> int \<Rightarrow> int \<Rightarrow> syncs \<Rightarrow> syncs" where
  "lcec_syncs_enable_autoflow pdo_limit pdo_entry_limit pdo_increment s =
     s\<lparr>sy_autoflow := True, sy_pdo_limit := pdo_limit, sy_pdo_entry_limit := pdo_entry_limit,
       sy_pdo_increment := pdo_increment\<rparr>"

text \<open>A write through a position; behind the array it is a fault.\<close>

definition upd_at :: "('a \<Rightarrow> 'a) \<Rightarrow> nat \<Rightarrow> 'a list \<Rightarrow> sync_fault + 'a list" where
  "upd_at f i xs = (if i < length xs then Inr (xs[i := f (xs ! i)]) else Inl SyncOverrun)"

text \<open>The boolean is the return value, \<open>True\<close> for 0 and \<open>False\<close> for -1.\<close>

definition lcec_syncs_add_sync :: "ec_direction \<Rightarrow> ec_watchdog_mode \<Rightarrow> syncs \<Rightarrow> sync_fault + bool \<times> syncs" where
  "lcec_syncs_add_sync d w s =
     (if sy_sync_count s \<ge> LCEC_MAX_SYNC_COUNT then Inr (False, s\<lparr>sy_error := True\<rparr>)
      else
        let k = sy_sync_count s in
        bind_res (upd_at (\<lambda>c. c\<lparr>si_index := of_nat k, si_dir := d, si_watchdog_mode := w\<rparr>) k (sy_syncs s)) (\<lambda>cs.
        bind_res (upd_at (\<lambda>c. c\<lparr>si_index := 0xff\<rparr>) (Suc k) cs) (\<lambda>cs.
          Inr (True, s\<lparr>sy_curr_sync := Some k, sy_syncs := cs, sy_sync_count := Suc k\<rparr>))))"

definition lcec_syncs_add_pdo_info :: "u16 \<Rightarrow> syncs \<Rightarrow> sync_fault + bool \<times> syncs" where
  "lcec_syncs_add_pdo_info idx s =
     (if sy_pdo_info_count s > LCEC_MAX_PDO_INFO_COUNT then Inr (False, s\<lparr>sy_error := True\<rparr>)
      else case sy_curr_sync s of
        None \<Rightarrow> Inl SyncNull
      | Some c \<Rightarrow>
          let k = sy_pdo_info_count s in
          bind_res (upd_at (\<lambda>si. si\<lparr>si_pdos := (if si_pdos si = None then Some k else si_pdos si),
                                     si_n_pdos := Suc (si_n_pdos si)\<rparr>) c (sy_syncs s)) (\<lambda>cs.
          bind_res (upd_at (\<lambda>p. p\<lparr>pi_index := idx\<rparr>) k (sy_pdo_infos s)) (\<lambda>ps.
            let s1 = s\<lparr>sy_curr_pdo_info := Some k, sy_syncs := cs, sy_pdo_infos := ps\<rparr> in
            if sy_autoflow s \<and> int k > sy_pdo_limit s then Inr (False, s1\<lparr>sy_error := True\<rparr>)
            else Inr (True, s1\<lparr>sy_pdo_info_count := Suc k\<rparr>))))"

text \<open>With autoflow, the entry that fills a PDO also opens the next one; its result is not looked at.\<close>

definition lcec_syncs_add_pdo_entry :: "u16 \<Rightarrow> u8 \<Rightarrow> u8 \<Rightarrow> syncs \<Rightarrow> sync_fault + bool \<times> syncs" where
  "lcec_syncs_add_pdo_entry idx sidx len s =
     (if sy_pdo_entry_count s > LCEC_MAX_PDO_ENTRY_COUNT then Inr (False, s\<lparr>sy_error := True\<rparr>)
      else case sy_curr_pdo_info s of
        None \<Rightarrow> Inl SyncNull
      | Some c \<Rightarrow>
          let k = sy_pdo_entry_count s in
          bind_res (upd_at (\<lambda>p. p\<lparr>pi_entries := (if pi_entries p = None then Some k else pi_entries p),
                                   pi_n_entries := Suc (pi_n_entries p)\<rparr>) c (sy_pdo_infos s)) (\<lambda>ps.
          let s1 = s\<lparr>sy_curr_pdo_entry := Some k, sy_pdo_infos := ps\<rparr>;
              p = ps ! c in
          bind_res (if sy_autoflow s \<and> int (pi_n_entries p) \<ge> sy_pdo_entry_limit s
                    then map_sum id snd (lcec_syncs_add_pdo_info
                           (word_of_int (uint (pi_index p) + sy_pdo_increment s)) s1)
                    else Inr s1) (\<lambda>s2.
          bind_res (upd_at (\<lambda>_. \<lparr>ei_index = idx, ei_subindex = sidx, ei_bit_length = len\<rparr>) k (sy_pdo_entries s2)) (\<lambda>es.
            Inr (True, s2\<lparr>sy_pdo_entries := es, sy_pdo_entry_count := Suc k\<rparr>)))))"

text \<open>A driver's building sequence. Its returns are not looked at; the error flag is.\<close>

datatype sync_call = AddSync ec_direction ec_watchdog_mode | AddPdo u16 | AddEntry u16 u8 u8

fun sync_call_step :: "sync_call \<Rightarrow> syncs \<Rightarrow> sync_fault + bool \<times> syncs" where
  "sync_call_step (AddSync d w) s = lcec_syncs_add_sync d w s"
| "sync_call_step (AddPdo i) s = lcec_syncs_add_pdo_info i s"
| "sync_call_step (AddEntry i si l) s = lcec_syncs_add_pdo_entry i si l s"

definition sync_build :: "sync_call list \<Rightarrow> syncs \<Rightarrow> sync_fault + syncs" where
  "sync_build = fold_res (\<lambda>c s. map_sum id snd (sync_call_step c s))"

section \<open>Memory safety\<close>

definition syncs_mem :: "syncs \<Rightarrow> bool" where
  "syncs_mem s \<longleftrightarrow>
     length (sy_syncs s) = LCEC_MAX_SYNC_COUNT + 1 \<and> length (sy_pdo_infos s) = LCEC_MAX_PDO_INFO_COUNT + 1 \<and>
     length (sy_pdo_entries s) = LCEC_MAX_PDO_ENTRY_COUNT + 1 \<and> sy_sync_count s \<le> LCEC_MAX_SYNC_COUNT \<and>
     (\<forall>k. sy_curr_sync s = Some k \<longrightarrow> k < LCEC_MAX_SYNC_COUNT) \<and>
     (\<forall>k. sy_curr_pdo_info s = Some k \<longrightarrow> k \<le> LCEC_MAX_PDO_INFO_COUNT)"

lemma syncs_mem_init: "syncs_mem lcec_syncs_init"
  by (simp add: syncs_mem_def lcec_syncs_init_def)

lemma syncs_mem_autoflow [simp]: "syncs_mem (lcec_syncs_enable_autoflow a b c s) = syncs_mem s"
  by (simp add: syncs_mem_def lcec_syncs_enable_autoflow_def)

lemma upd_at_append [simp]: "upd_at f (length xs) (xs @ y # ys) = Inr (xs @ f y # ys)"
  by (simp add: upd_at_def)

lemma upd_at_Inr: "upd_at f i xs = Inr ys \<Longrightarrow> length ys = length xs"
  by (auto simp: upd_at_def split: if_splits)

lemma upd_at_ok: "i < length xs \<Longrightarrow> upd_at f i xs = Inr (xs[i := f (xs ! i)])"
  by (simp add: upd_at_def)

lemma add_sync_mem:
  assumes "syncs_mem s"
  shows "case lcec_syncs_add_sync d w s of Inr (b, s') \<Rightarrow> syncs_mem s' \<and> (sy_error s' \<longleftrightarrow> sy_error s \<or> \<not> b) | Inl f \<Rightarrow> False"
  using assms by (auto simp: lcec_syncs_add_sync_def syncs_mem_def upd_at_ok Let_def)

lemma add_pdo_info_mem:
  assumes "syncs_mem s"
  shows "case lcec_syncs_add_pdo_info i s of
      Inr (b, s') \<Rightarrow> syncs_mem s' \<and> (sy_error s' \<longleftrightarrow> sy_error s \<or> \<not> b) \<and> sy_pdo_entries s' = sy_pdo_entries s \<and>
        sy_pdo_entry_count s' = sy_pdo_entry_count s
    | Inl f \<Rightarrow> f = SyncNull \<and> sy_curr_sync s = None"
  using assms
  by (auto simp: lcec_syncs_add_pdo_info_def syncs_mem_def upd_at_ok Let_def not_less split: option.splits)

text \<open>The entry may as well be written before the next PDO is opened.\<close>

definition write_entry :: "u16 \<Rightarrow> u8 \<Rightarrow> u8 \<Rightarrow> nat \<Rightarrow> syncs \<Rightarrow> syncs" where
  "write_entry idx sidx len c s =
     (let k = sy_pdo_entry_count s in
      s\<lparr>sy_curr_pdo_entry := Some k,
        sy_pdo_infos := (sy_pdo_infos s)[c := (sy_pdo_infos s ! c)
          \<lparr>pi_entries := (if pi_entries (sy_pdo_infos s ! c) = None then Some k else pi_entries (sy_pdo_infos s ! c)),
           pi_n_entries := Suc (pi_n_entries (sy_pdo_infos s ! c))\<rparr>],
        sy_pdo_entries := (sy_pdo_entries s)[k := \<lparr>ei_index = idx, ei_subindex = sidx, ei_bit_length = len\<rparr>],
        sy_pdo_entry_count := Suc k\<rparr>)"

lemma add_pdo_info_frame:
  "lcec_syncs_add_pdo_info i (s\<lparr>sy_pdo_entries := es, sy_pdo_entry_count := n\<rparr>) =
   map_sum id (map_prod id (\<lambda>s. s\<lparr>sy_pdo_entries := es, sy_pdo_entry_count := n\<rparr>)) (lcec_syncs_add_pdo_info i s)"
  by (auto simp: lcec_syncs_add_pdo_info_def upd_at_def Let_def split: option.splits)

lemma add_pdo_entry_alt:
  assumes "syncs_mem s"
  shows "lcec_syncs_add_pdo_entry idx sidx len s =
    (if sy_pdo_entry_count s > LCEC_MAX_PDO_ENTRY_COUNT then Inr (False, s\<lparr>sy_error := True\<rparr>)
     else case sy_curr_pdo_info s of
       None \<Rightarrow> Inl SyncNull
     | Some c \<Rightarrow>
         (let s1 = write_entry idx sidx len c s; p = sy_pdo_infos s1 ! c in
          if sy_autoflow s \<and> int (pi_n_entries p) \<ge> sy_pdo_entry_limit s
          then map_sum id (\<lambda>(b, s). (True, s))
                 (lcec_syncs_add_pdo_info (word_of_int (uint (pi_index p) + sy_pdo_increment s)) s1)
          else Inr (True, s1)))"
proof (cases "sy_pdo_entry_count s > LCEC_MAX_PDO_ENTRY_COUNT \<or> sy_curr_pdo_info s = None")
  case True
  then show ?thesis by (auto simp: lcec_syncs_add_pdo_entry_def)
next
  case False
  then obtain c where c: "sy_curr_pdo_info s = Some c" and k: "sy_pdo_entry_count s \<le> LCEC_MAX_PDO_ENTRY_COUNT" by auto
  define ps where "ps = (sy_pdo_infos s)[c := (sy_pdo_infos s ! c)
      \<lparr>pi_entries := (if pi_entries (sy_pdo_infos s ! c) = None then Some (sy_pdo_entry_count s) else pi_entries (sy_pdo_infos s ! c)),
       pi_n_entries := Suc (pi_n_entries (sy_pdo_infos s ! c))\<rparr>]"
  define es where "es = (sy_pdo_entries s)[sy_pdo_entry_count s := \<lparr>ei_index = idx, ei_subindex = sidx, ei_bit_length = len\<rparr>]"
  define sa where "sa = s\<lparr>sy_curr_pdo_entry := Some (sy_pdo_entry_count s), sy_pdo_infos := ps\<rparr>"
  define i where "i = (word_of_int (uint (pi_index (ps ! c)) + sy_pdo_increment s) :: u16)"
  have cl: "c < length (sy_pdo_infos s)" using assms c by (auto simp: syncs_mem_def)
  have el: "sy_pdo_entry_count s < length (sy_pdo_entries s)" using assms k by (simp add: syncs_mem_def)
  have w: "write_entry idx sidx len c s = sa\<lparr>sy_pdo_entries := es, sy_pdo_entry_count := Suc (sy_pdo_entry_count s)\<rparr>"
    by (simp add: write_entry_def sa_def ps_def es_def Let_def)
  have m: "syncs_mem sa" using assms by (simp add: sa_def ps_def syncs_mem_def)
  have u: "upd_at f (sy_pdo_entry_count s) (sy_pdo_entries s') = Inr es" 
    if "sy_pdo_entries s' = sy_pdo_entries s" "f = (\<lambda>_. \<lparr>ei_index = idx, ei_subindex = sidx, ei_bit_length = len\<rparr>)" for s' f
    using el that by (simp add: upd_at_ok es_def)
  have "lcec_syncs_add_pdo_entry idx sidx len s =
      bind_res (if sy_autoflow s \<and> int (pi_n_entries (ps ! c)) \<ge> sy_pdo_entry_limit s
                then map_sum id snd (lcec_syncs_add_pdo_info i sa) else Inr sa)
        (\<lambda>s2. bind_res (upd_at (\<lambda>_. \<lparr>ei_index = idx, ei_subindex = sidx, ei_bit_length = len\<rparr>)
                        (sy_pdo_entry_count s) (sy_pdo_entries s2))
          (\<lambda>es. Inr (True, s2\<lparr>sy_pdo_entries := es, sy_pdo_entry_count := Suc (sy_pdo_entry_count s)\<rparr>)))"
    using k cl c by (simp add: lcec_syncs_add_pdo_entry_def upd_at_ok Let_def ps_def sa_def i_def)
  also have "\<dots> = (if sy_autoflow s \<and> int (pi_n_entries (ps ! c)) \<ge> sy_pdo_entry_limit s
                then map_sum id (\<lambda>(b, s). (True, s)) (lcec_syncs_add_pdo_info i (write_entry idx sidx len c s))
                else Inr (True, write_entry idx sidx len c s))"
    using add_pdo_info_mem [OF m, of i] u [of sa]
    by (auto simp: w add_pdo_info_frame u sa_def split: sum.splits)
  finally show ?thesis
    using c k by (simp add: w i_def sa_def Let_def)
qed

lemma write_entry_mem:
  "syncs_mem s \<Longrightarrow> syncs_mem (write_entry i si l c s)" "sy_error (write_entry i si l c s) = sy_error s"
  by (simp_all add: write_entry_def syncs_mem_def Let_def)

lemma add_pdo_entry_mem:
  assumes "syncs_mem s"
  shows "case lcec_syncs_add_pdo_entry i si l s of
      Inr (b, s') \<Rightarrow> syncs_mem s' \<and> (sy_error s \<or> \<not> b \<longrightarrow> sy_error s') | Inl f \<Rightarrow> f = SyncNull"
proof -
  have a: "case map_sum id (\<lambda>(b, s). (True, s)) (lcec_syncs_add_pdo_info j (write_entry i si l c s)) of
      Inr (b, s') \<Rightarrow> syncs_mem s' \<and> (sy_error s \<or> \<not> b \<longrightarrow> sy_error s') | Inl f \<Rightarrow> f = SyncNull" for j c
    using add_pdo_info_mem [OF write_entry_mem(1) [OF assms, where i = i and si = si and l = l and c = c], where i = j]
    by (cases "lcec_syncs_add_pdo_info j (write_entry i si l c s)") (auto simp: write_entry_mem)
  have m: "syncs_mem (s\<lparr>sy_error := True\<rparr>)" using assms by (simp add: syncs_mem_def)
  show ?thesis
    using a write_entry_mem(1) [OF assms] assms m
    by (simp add: add_pdo_entry_alt [OF assms] Let_def write_entry_mem split: option.split)
qed

lemma sync_call_step_mem:
  assumes "syncs_mem s"
  shows "case sync_call_step c s of
      Inr (b, s') \<Rightarrow> syncs_mem s' \<and> (sy_error s \<or> \<not> b \<longrightarrow> sy_error s') | Inl f \<Rightarrow> f = SyncNull"
proof (cases c)
  case (AddSync d w)
  then show ?thesis using add_sync_mem [OF assms, of d w] by (auto split: sum.splits)
next
  case (AddPdo i)
  then show ?thesis using add_pdo_info_mem [OF assms, of i] by (auto split: sum.splits)
next
  case (AddEntry i si l)
  then show ?thesis using add_pdo_entry_mem [OF assms, of i si l] by (auto split: sum.splits)
qed

lemma sync_build_Cons:
  "sync_build (c # cs) s = bind_res (map_sum id snd (sync_call_step c s)) (sync_build cs)"
  by (simp add: sync_build_def)

lemma sync_build_mem:
  assumes "syncs_mem s"
  shows "case sync_build cs s of
      Inr s' \<Rightarrow> syncs_mem s' \<and> (sy_error s \<longrightarrow> sy_error s') | Inl f \<Rightarrow> f = SyncNull"
  using assms
proof (induction cs arbitrary: s)
  case (Cons c cs)
  show ?case
  proof (cases "sync_call_step c s")
    case (Inr r)
    obtain b s1 where r: "r = (b, s1)" by (cases r)
    with sync_call_step_mem [OF Cons.prems, of c] Inr have "syncs_mem s1" "sy_error s \<longrightarrow> sy_error s1" by auto
    with Cons.IH [of s1] Inr r show ?thesis by (auto simp: sync_build_Cons split: sum.splits)
  qed (use sync_call_step_mem [OF Cons.prems, of c] in \<open>simp add: sync_build_Cons\<close>)
qed (simp add: sync_build_def)

section \<open>What a layout is\<close>

text \<open>The nested list a sequence of calls describes, and the same calls on it.\<close>

type_synonym pdo_layout = "u16 \<times> pdo_entry_info list"
type_synonym sync_layout = "((ec_direction \<times> ec_watchdog_mode) \<times> pdo_layout list) list"

definition all_pdos :: "sync_layout \<Rightarrow> pdo_layout list" where
  "all_pdos L = concat (map snd L)"

definition all_entries :: "pdo_layout list \<Rightarrow> pdo_entry_info list" where
  "all_entries ps = concat (map snd ps)"

definition layout_add_pdo :: "u16 \<Rightarrow> sync_layout \<Rightarrow> sync_layout" where
  "layout_add_pdo i L = (case rev L of (h, ps) # M \<Rightarrow> rev M @ [(h, ps @ [(i, [])])] | [] \<Rightarrow> [])"

definition layout_add_entry :: "pdo_entry_info \<Rightarrow> sync_layout \<Rightarrow> sync_layout" where
  "layout_add_entry e L = (case rev L of (h, ps) # M \<Rightarrow>
      (case rev ps of (i, es) # qs \<Rightarrow> rev M @ [(h, rev qs @ [(i, es @ [e])])] | [] \<Rightarrow> L) | [] \<Rightarrow> [])"

text \<open>With autoflow, a PDO that has reached the limit is followed by an empty one.\<close>

definition layout_overflow :: "(int \<times> int) option \<Rightarrow> sync_layout \<Rightarrow> sync_layout" where
  "layout_overflow af L = (case af of None \<Rightarrow> L
    | Some (limit, increment) \<Rightarrow>
        (case last (snd (last L)) of (i, es) \<Rightarrow>
           if int (length es) \<ge> limit then layout_add_pdo (word_of_int (uint i + increment)) L else L))"

fun layout_step :: "(int \<times> int) option \<Rightarrow> sync_call \<Rightarrow> sync_layout \<Rightarrow> sync_layout" where
  "layout_step af (AddSync d w) L = L @ [((d, w), [])]"
| "layout_step af (AddPdo i) L = layout_add_pdo i L"
| "layout_step af (AddEntry i si l) L =
     layout_overflow af (layout_add_entry \<lparr>ei_index = i, ei_subindex = si, ei_bit_length = l\<rparr> L)"

definition layout_run :: "(int \<times> int) option \<Rightarrow> sync_call list \<Rightarrow> sync_layout \<Rightarrow> sync_layout" where
  "layout_run af cs L = fold (layout_step af) cs L"

text \<open>A sequence names the sync manager before its PDOs and a PDO before its entries.\<close>

fun call_fits :: "sync_call \<Rightarrow> sync_layout \<Rightarrow> bool" where
  "call_fits (AddSync d w) L = True"
| "call_fits (AddPdo i) L = (L \<noteq> [])"
| "call_fits (AddEntry i si l) L = (L \<noteq> [] \<and> snd (last L) \<noteq> [])"

fun calls_fit :: "(int \<times> int) option \<Rightarrow> sync_call list \<Rightarrow> sync_layout \<Rightarrow> bool" where
  "calls_fit af [] L = True"
| "calls_fit af (c # cs) L = (call_fits c L \<and> calls_fit af cs (layout_step af c L))"

lemma layout_add_pdo_snoc [simp]: "layout_add_pdo i (M @ [(h, ps)]) = M @ [(h, ps @ [(i, [])])]"
  by (simp add: layout_add_pdo_def)

lemma layout_add_entry_snoc [simp]:
  "layout_add_entry e (M @ [(h, qs @ [(i, es)])]) = M @ [(h, qs @ [(i, es @ [e])])]"
  by (simp add: layout_add_entry_def)

lemma layout_overflow_snoc [simp]:
  "layout_overflow (Some (limit, increment)) (M @ [(h, qs @ [(i, es)])]) =
    (if int (length es) \<ge> limit
     then M @ [(h, qs @ [(i, es), (word_of_int (uint i + increment), [])])] else M @ [(h, qs @ [(i, es)])])"
  by (simp add: layout_overflow_def layout_add_pdo_def)

lemma all_pdos_simps [simp]: "all_pdos [] = []" "all_pdos (L @ M) = all_pdos L @ all_pdos M" "all_pdos [(h, ps)] = ps"
  by (simp_all add: all_pdos_def)

lemma all_entries_simps [simp]:
  "all_entries [] = []" "all_entries (ps @ qs) = all_entries ps @ all_entries qs" "all_entries [(i, es)] = es"
  by (simp_all add: all_entries_def)

section \<open>The arrays of a layout\<close>

fun lay_pdos :: "nat \<Rightarrow> pdo_layout list \<Rightarrow> pdo_info list" where
  "lay_pdos off [] = []"
| "lay_pdos off ((i, es) # ps) =
     \<lparr>pi_index = i, pi_n_entries = length es, pi_entries = (if es = [] then None else Some off)\<rparr> #
     lay_pdos (off + length es) ps"

fun lay_syncs :: "nat \<Rightarrow> nat \<Rightarrow> sync_layout \<Rightarrow> sync_cfg list" where
  "lay_syncs k off [] = []"
| "lay_syncs k off (((d, w), ps) # L) =
     \<lparr>si_index = of_nat k, si_dir = d, si_n_pdos = length ps, si_pdos = (if ps = [] then None else Some off),
      si_watchdog_mode = w\<rparr> # lay_syncs (Suc k) (off + length ps) L"

lemma lay_pdos_append [simp]:
  "lay_pdos off (ps @ qs) = lay_pdos off ps @ lay_pdos (off + length (all_entries ps)) qs"
  by (induction off ps rule: lay_pdos.induct) (simp_all add: all_entries_def add.assoc)

lemma lay_syncs_append [simp]:
  "lay_syncs k off (L @ M) = lay_syncs k off L @ lay_syncs (k + length L) (off + length (all_pdos L)) M"
  by (induction k off L rule: lay_syncs.induct) (simp_all add: all_pdos_def add.assoc)

lemma length_lay_pdos [simp]: "length (lay_pdos off ps) = length ps"
  by (induction off ps rule: lay_pdos.induct) simp_all

lemma length_lay_syncs [simp]: "length (lay_syncs k off L) = length L"
  by (induction k off L rule: lay_syncs.induct) simp_all

text \<open>
  The state of the builder after the calls of a layout: the used parts of the arrays are the
  layout's, the rest is still zero but for the terminator, and the pointers are at the ends.
\<close>

definition free_sync :: "sync_cfg \<Rightarrow> bool" where
  "free_sync c \<longleftrightarrow> si_n_pdos c = 0 \<and> si_pdos c = None"

definition syncs_rel :: "syncs \<Rightarrow> sync_layout \<Rightarrow> bool" where
  "syncs_rel s L \<longleftrightarrow> syncs_mem s \<and> sy_sync_count s = length L \<and>
     sy_pdo_info_count s = length (all_pdos L) \<and> sy_pdo_entry_count s = length (all_entries (all_pdos L)) \<and>
     (\<exists>t. sy_syncs s = lay_syncs 0 0 L @ t \<and> list_all free_sync t \<and> (L \<noteq> [] \<longrightarrow> t \<noteq> [] \<and> si_index (hd t) = 0xff)) \<and>
     (\<exists>n. sy_pdo_infos s = lay_pdos 0 (all_pdos L) @ replicate n zero_pdo) \<and>
     (\<exists>t. sy_pdo_entries s = all_entries (all_pdos L) @ t) \<and>
     sy_curr_sync s = (if L = [] then None else Some (length L - 1)) \<and>
     (\<forall>h ps M. L = M @ [(h, ps)] \<longrightarrow> ps \<noteq> [] \<longrightarrow> sy_curr_pdo_info s = Some (length (all_pdos L) - 1))"

lemma syncs_rel_init: "syncs_rel lcec_syncs_init []"
proof -
  have "\<exists>n. sy_pdo_infos lcec_syncs_init = lay_pdos 0 (all_pdos []) @ replicate n zero_pdo"
    by (intro exI [of _ "LCEC_MAX_PDO_INFO_COUNT + 1"]) (simp add: lcec_syncs_init_def)
  then show ?thesis
    using syncs_mem_init unfolding syncs_rel_def
    by (simp add: lcec_syncs_init_def list_all_iff free_sync_def zero_sync_def)
qed

lemma add_sync_rel:
  assumes "syncs_rel s L" and "lcec_syncs_add_sync d w s = Inr (True, s')"
  shows "syncs_rel s' (L @ [((d, w), [])])"
proof -
  have m: "syncs_mem s" and len: "sy_sync_count s = length L" using assms(1) by (simp_all add: syncs_rel_def)
  from assms(2) have lt: "length L < LCEC_MAX_SYNC_COUNT" by (auto simp: lcec_syncs_add_sync_def len split: if_splits)
  obtain t where t: "sy_syncs s = lay_syncs 0 0 L @ t" "list_all free_sync t" using assms(1) by (auto simp: syncs_rel_def)
  have "length L + length t = LCEC_MAX_SYNC_COUNT + 1" using m t(1) by (auto simp: syncs_mem_def)
  with lt obtain c1 c2 u where u: "t = c1 # c2 # u"
    by (cases t; cases "tl t") (auto simp: sync_max_defs)
  have c1: "upd_at f (length L) (sy_syncs s) = Inr (lay_syncs 0 0 L @ f c1 # c2 # u)" for f
    using upd_at_append [of f "lay_syncs 0 0 L" c1 "c2 # u"] by (simp add: t(1) u)
  have c2: "upd_at f (Suc (length L)) (lay_syncs 0 0 L @ x # c2 # u) = Inr (lay_syncs 0 0 L @ x # f c2 # u)" for f x
    using upd_at_append [of f "lay_syncs 0 0 L @ [x]" c2 u] by simp
  have free: "free_sync c1" "free_sync c2" "list_all free_sync u" using t(2) by (simp_all add: u)
  have e: "c1\<lparr>si_index := of_nat (length L), si_dir := d, si_watchdog_mode := w\<rparr> =
      \<lparr>si_index = of_nat (length L), si_dir = d, si_n_pdos = 0, si_pdos = None, si_watchdog_mode = w\<rparr>"
    using free(1) by (simp add: free_sync_def)
  have "s' = s\<lparr>sy_curr_sync := Some (length L),
      sy_syncs := lay_syncs 0 0 (L @ [((d, w), [])]) @ c2\<lparr>si_index := 0xff\<rparr> # u, sy_sync_count := Suc (length L)\<rparr>"
    using assms(2) lt by (simp add: lcec_syncs_add_sync_def len c1 c2 e Let_def)
  moreover have "free_sync (c2\<lparr>si_index := 0xff\<rparr>)" using free(2) by (simp add: free_sync_def)
  ultimately show ?thesis
    using assms(1) lt free(3) u t(1) unfolding syncs_rel_def syncs_mem_def by auto
qed

lemma free_slot:
  assumes "xs = lay_pdos 0 ps @ replicate n zero_pdo" and "length ps < length xs"
  obtains m where "xs = lay_pdos 0 ps @ zero_pdo # replicate m zero_pdo"
  using assms by (cases n) auto

lemma add_pdo_rel:
  assumes "syncs_rel s (M @ [(h, ps)])" and "lcec_syncs_add_pdo_info i s = Inr (True, s')"
  shows "syncs_rel s' (M @ [(h, ps @ [(i, [])])])"
proof -
  let ?L = "M @ [(h, ps)]" and ?off = "length (all_pdos M)"
  obtain d w where h: "h = (d, w)" by (cases h)
  have m: "syncs_mem s" and len: "sy_pdo_info_count s = length (all_pdos ?L)" and cs: "sy_curr_sync s = Some (length M)"
    using assms(1) by (simp_all add: syncs_rel_def)
  have lt: "length (all_pdos ?L) \<le> LCEC_MAX_PDO_INFO_COUNT"
    using assms(2) by (auto simp: lcec_syncs_add_pdo_info_def len split: if_splits)
  obtain t where t: "sy_syncs s = lay_syncs 0 0 ?L @ t" "list_all free_sync t" "t \<noteq> []" "si_index (hd t) = 0xff"
    using assms(1) by (auto simp: syncs_rel_def)
  obtain n where "sy_pdo_infos s = lay_pdos 0 (all_pdos ?L) @ replicate n zero_pdo"
    using assms(1) by (auto simp: syncs_rel_def)
  moreover have "length (all_pdos ?L) < length (sy_pdo_infos s)" using m lt by (simp add: syncs_mem_def)
  ultimately obtain n where n: "sy_pdo_infos s = lay_pdos 0 (all_pdos ?L) @ zero_pdo # replicate n zero_pdo"
    by (rule free_slot)
  define c where "c = \<lparr>si_index = of_nat (length M), si_dir = d, si_n_pdos = length ps,
      si_pdos = (if ps = [] then None else Some ?off), si_watchdog_mode = w\<rparr>"
  have c: "sy_syncs s = lay_syncs 0 0 M @ c # t" by (simp add: t(1) h c_def)
  have u1: "upd_at f (length M) (sy_syncs s) = Inr (lay_syncs 0 0 M @ f c # t)" for f
    using upd_at_append [of f "lay_syncs 0 0 M" c t] by (simp add: c)
  have u2: "upd_at f (?off + length ps) (sy_pdo_infos s) = Inr (lay_pdos 0 (all_pdos ?L) @ f zero_pdo # replicate n zero_pdo)" for f
    using upd_at_append [of f "lay_pdos 0 (all_pdos ?L)" zero_pdo "replicate n zero_pdo"] by (simp add: n)
  have z: "zero_pdo\<lparr>pi_index := i\<rparr> = \<lparr>pi_index = i, pi_n_entries = 0, pi_entries = None\<rparr>"
    by (simp add: zero_pdo_def)
  have "s' = s\<lparr>sy_curr_pdo_info := Some (?off + length ps),
      sy_syncs := lay_syncs 0 0 (M @ [(h, ps @ [(i, [])])]) @ t,
      sy_pdo_infos := lay_pdos 0 (all_pdos (M @ [(h, ps @ [(i, [])])])) @ replicate n zero_pdo,
      sy_pdo_info_count := Suc (?off + length ps)\<rparr>"
    using assms(2) lt u1 u2
    by (auto simp: lcec_syncs_add_pdo_info_def len cs Let_def c_def z h split: if_splits)
  then show ?thesis
    using assms(1) lt t n unfolding syncs_rel_def syncs_mem_def by auto
qed

lemma write_entry_rel:
  assumes "syncs_rel s (M @ [(h, qs @ [(i, es)])])" and "sy_pdo_entry_count s \<le> LCEC_MAX_PDO_ENTRY_COUNT"
    and "sy_curr_pdo_info s = Some c"
  shows "syncs_rel (write_entry idx sidx len c s)
      (M @ [(h, qs @ [(i, es @ [\<lparr>ei_index = idx, ei_subindex = sidx, ei_bit_length = len\<rparr>])])])"
    and "sy_pdo_infos (write_entry idx sidx len c s) ! c =
      \<lparr>pi_index = i, pi_n_entries = Suc (length es), pi_entries = Some (length (all_entries (all_pdos M @ qs)))\<rparr>"
proof -
  let ?L = "M @ [(h, qs @ [(i, es)])]" and ?e = "\<lparr>ei_index = idx, ei_subindex = sidx, ei_bit_length = len\<rparr>"
  let ?k = "length (all_entries (all_pdos ?L))" and ?off = "length (all_entries (all_pdos M @ qs))"
  obtain d w where h: "h = (d, w)" by (cases h)
  have m: "syncs_mem s" and k: "sy_pdo_entry_count s = ?k" using assms(1) by (simp_all add: syncs_rel_def)
  have c: "c = length (all_pdos M @ qs)" using assms(1,3) by (auto simp: syncs_rel_def)
  obtain n where n: "sy_pdo_infos s = lay_pdos 0 (all_pdos ?L) @ replicate n zero_pdo"
    using assms(1) by (auto simp: syncs_rel_def)
  obtain t where t: "sy_pdo_entries s = all_entries (all_pdos ?L) @ t" using assms(1) by (auto simp: syncs_rel_def)
  have "?k < length (sy_pdo_entries s)" using m assms(2) k by (simp add: syncs_mem_def)
  then obtain t0 u where u: "t = t0 # u" by (cases t) (auto simp: t)
  define p where "p = \<lparr>pi_index = i, pi_n_entries = length es, pi_entries = (if es = [] then None else Some ?off)\<rparr>"
  define p' where "p' = \<lparr>pi_index = i, pi_n_entries = Suc (length es), pi_entries = Some ?off\<rparr>"
  have infos: "sy_pdo_infos s = lay_pdos 0 (all_pdos M @ qs) @ p # replicate n zero_pdo"
    by (simp add: n p_def add.assoc)
  have at: "sy_pdo_infos s ! c = p" and up: "(sy_pdo_infos s)[c := x] = lay_pdos 0 (all_pdos M @ qs) @ x # replicate n zero_pdo" for x
    using infos c by (simp_all add: nth_append list_update_append)
  have p': "p\<lparr>pi_entries := (if pi_entries p = None then Some ?k else pi_entries p), pi_n_entries := Suc (pi_n_entries p)\<rparr> = p'"
    by (simp add: p_def p'_def)
  have w: "write_entry idx sidx len c s = s\<lparr>sy_curr_pdo_entry := Some ?k,
      sy_pdo_infos := lay_pdos 0 (all_pdos M @ qs) @ p' # replicate n zero_pdo,
      sy_pdo_entries := all_entries (all_pdos ?L) @ ?e # u, sy_pdo_entry_count := Suc ?k\<rparr>"
    by (simp only: write_entry_def Let_def at up k p') (simp add: t u list_update_append)
  have l: "lay_pdos 0 (all_pdos (M @ [(h, qs @ [(i, es @ [?e])])])) = lay_pdos 0 (all_pdos M @ qs) @ [p']"
    by (simp add: p'_def add.assoc)
  have sy: "lay_syncs 0 0 (M @ [(h, qs @ [(i, es @ [?e])])]) = lay_syncs 0 0 ?L" by (simp add: h)
  show "syncs_rel (write_entry idx sidx len c s) (M @ [(h, qs @ [(i, es @ [?e])])])"
    using assms(1) l sy t u infos unfolding syncs_rel_def syncs_mem_def w by auto
  show "sy_pdo_infos (write_entry idx sidx len c s) ! c =
      \<lparr>pi_index = i, pi_n_entries = Suc (length es), pi_entries = Some ?off\<rparr>"
    unfolding w by (simp add: c p'_def nth_append)
qed

text \<open>One call simulates the same call on the layout, if the error flag stays clear.\<close>

definition autoflow_of :: "syncs \<Rightarrow> (int \<times> int) option" where
  "autoflow_of s = (if sy_autoflow s then Some (sy_pdo_entry_limit s, sy_pdo_increment s) else None)"

lemma call_fitsD:
  "call_fits (AddPdo i) L \<Longrightarrow> \<exists>M h ps. L = M @ [(h, ps)]"
  "call_fits (AddEntry i si l) L \<Longrightarrow> \<exists>M h qs j es. L = M @ [(h, qs @ [(j, es)])]"
proof -
  show "call_fits (AddPdo i) L \<Longrightarrow> \<exists>M h ps. L = M @ [(h, ps)]"
    by (cases L rule: rev_cases) auto
  assume "call_fits (AddEntry i si l) L"
  then obtain M h ps where L: "L = M @ [(h, ps)]" "ps \<noteq> []" by (cases L rule: rev_cases) auto
  then show "\<exists>M h qs j es. L = M @ [(h, qs @ [(j, es)])]" by (cases ps rule: rev_cases) auto
qed

lemma autoflow_frame:
  "lcec_syncs_add_sync d w s = Inr (b, s') \<Longrightarrow> autoflow_of s' = autoflow_of s"
  "lcec_syncs_add_pdo_info i s = Inr (b, s') \<Longrightarrow> autoflow_of s' = autoflow_of s"
  by (auto simp: lcec_syncs_add_sync_def lcec_syncs_add_pdo_info_def autoflow_of_def Let_def
      split: if_splits option.splits)

lemma autoflow_write [simp]: "autoflow_of (write_entry i si l c s) = autoflow_of s"
  by (simp add: write_entry_def autoflow_of_def Let_def)

lemma sync_step_rel:
  assumes "syncs_rel s L" and "call_fits c L" and "sync_call_step c s = Inr (b, s')" and "\<not> sy_error s'"
  shows "syncs_rel s' (layout_step (autoflow_of s) c L) \<and> autoflow_of s' = autoflow_of s"
proof -
  have m: "syncs_mem s" using assms(1) by (simp add: syncs_rel_def)
  have b: "b" using sync_call_step_mem [OF m, of c] assms(3,4) by auto
  show ?thesis
  proof (cases c)
    case (AddSync d w)
    then show ?thesis using add_sync_rel [OF assms(1)] assms(3) b by (auto dest: autoflow_frame)
  next
    case (AddPdo i)
    then obtain M h ps where "L = M @ [(h, ps)]" using call_fitsD(1) assms(2) by blast
    then show ?thesis using add_pdo_rel [of s M h ps] AddPdo assms(1,3) b by (auto dest: autoflow_frame)
  next
    case (AddEntry i si l)
    then obtain M h qs j es where L: "L = M @ [(h, qs @ [(j, es)])]" using call_fitsD(2) assms(2) by blast
    let ?e = "\<lparr>ei_index = i, ei_subindex = si, ei_bit_length = l\<rparr>"
    obtain k where k: "sy_curr_pdo_info s = Some k" using assms(1) L by (auto simp: syncs_rel_def)
    have cnt: "sy_pdo_entry_count s \<le> LCEC_MAX_PDO_ENTRY_COUNT"
      using assms(3,4) AddEntry by (auto simp: add_pdo_entry_alt [OF m] split: if_splits)
    note w = write_entry_rel [OF assms(1)[unfolded L] cnt k, of i si l]
    have mem: "syncs_mem (write_entry i si l k s)" by (rule write_entry_mem(1) [OF m])
    define nidx where "nidx = (word_of_int (uint j + sy_pdo_increment s) :: u16)"
    show ?thesis
    proof (cases "sy_autoflow s \<and> int (Suc (length es)) \<ge> sy_pdo_entry_limit s")
      case True
      then have "sync_call_step c s = map_sum id (\<lambda>(b, s). (True, s)) (lcec_syncs_add_pdo_info nidx (write_entry i si l k s))"
        using AddEntry k cnt w(2) by (simp add: add_pdo_entry_alt [OF m] nidx_def Let_def)
      with assms(3) obtain b' where a: "lcec_syncs_add_pdo_info nidx (write_entry i si l k s) = Inr (b', s')"
        by (cases "lcec_syncs_add_pdo_info nidx (write_entry i si l k s)") auto
      have "b'" using add_pdo_info_mem [OF mem, of nidx] a assms(4) by auto
      then have "syncs_rel s' (M @ [(h, (qs @ [(j, es @ [?e])]) @ [(nidx, [])])])"
        using add_pdo_rel [OF w(1)] a by simp
      moreover have "autoflow_of s' = autoflow_of s" using autoflow_frame(2) [OF a] by simp
      moreover have "autoflow_of s = Some (sy_pdo_entry_limit s, sy_pdo_increment s)" using True by (simp add: autoflow_of_def)
      ultimately show ?thesis using True AddEntry L by (simp add: nidx_def)
    next
      case False
      then have "s' = write_entry i si l k s"
        using assms(3) AddEntry k cnt w(2) by (auto simp: add_pdo_entry_alt [OF m] Let_def)
      moreover have "autoflow_of s = None \<or> autoflow_of s = Some (sy_pdo_entry_limit s, sy_pdo_increment s) \<and>
          \<not> int (Suc (length es)) \<ge> sy_pdo_entry_limit s" using False by (auto simp: autoflow_of_def)
      ultimately show ?thesis using w(1) AddEntry L by (auto simp: layout_overflow_def)
    qed
  qed
qed

lemma sync_build_rel:
  assumes "syncs_rel s L" and "calls_fit (autoflow_of s) cs L" and "sync_build cs s = Inr s'" and "\<not> sy_error s'"
  shows "syncs_rel s' (layout_run (autoflow_of s) cs L)"
  using assms
proof (induction cs arbitrary: s L)
  case (Cons c cs)
  from Cons.prems(3) obtain b s1 where s1: "sync_call_step c s = Inr (b, s1)" "sync_build cs s1 = Inr s'"
    by (cases "sync_call_step c s") (auto simp: sync_build_Cons)
  have m: "syncs_mem s" using Cons.prems(1) by (simp add: syncs_rel_def)
  have "syncs_mem s1" using sync_call_step_mem [OF m, of c] s1(1) by simp
  then have e: "\<not> sy_error s1" using sync_build_mem [of s1 cs] s1(2) Cons.prems(4) by auto
  have "syncs_rel s1 (layout_step (autoflow_of s) c L)" "autoflow_of s1 = autoflow_of s"
    using sync_step_rel [OF Cons.prems(1) _ s1(1) e] Cons.prems(2) by simp_all
  then show ?case using Cons.IH [OF _ _ s1(2) Cons.prems(4), of "layout_step (autoflow_of s) c L"] Cons.prems(2)
    by (simp add: layout_run_def)
qed (simp add: layout_run_def sync_build_def)

section \<open>Reading the arrays\<close>

text \<open>How the EtherCAT master takes a configuration: up to the index 0xff, following the pointers.\<close>

definition slice :: "'a list \<Rightarrow> nat option \<Rightarrow> nat \<Rightarrow> 'a list" where
  "slice xs p n = (case p of None \<Rightarrow> [] | Some k \<Rightarrow> take n (drop k xs))"

definition read_pdo :: "pdo_entry_info list \<Rightarrow> pdo_info \<Rightarrow> pdo_layout" where
  "read_pdo es p = (pi_index p, slice es (pi_entries p) (pi_n_entries p))"

definition read_syncs :: "syncs \<Rightarrow> sync_layout" where
  "read_syncs s =
     map (\<lambda>c. ((si_dir c, si_watchdog_mode c),
               map (read_pdo (sy_pdo_entries s)) (slice (sy_pdo_infos s) (si_pdos c) (si_n_pdos c))))
       (takeWhile (\<lambda>c. si_index c \<noteq> 0xff) (sy_syncs s))"

lemma read_pdos:
  "map (read_pdo (pre @ all_entries ps @ post)) (lay_pdos (length pre) ps) = ps"
proof (induction ps arbitrary: pre)
  case (Cons p ps)
  obtain i es where p: "p = (i, es)" by (cases p)
  show ?case using Cons.IH [of "pre @ es"] by (simp add: p read_pdo_def slice_def all_entries_def)
qed simp

lemma read_pdos_slice:
  assumes "es = all_entries all @ t" and "all = pre @ ps @ post" and "infos = lay_pdos 0 all @ u"
  shows "map (read_pdo es) (slice infos (if ps = [] then None else Some (length pre)) (length ps)) = ps"
  using assms read_pdos [of "all_entries pre" ps "all_entries post @ t"] by (simp add: slice_def)

lemma read_syncs_lay:
  assumes "es = all_entries (all_pdos (P @ L)) @ t" and "infos = lay_pdos 0 (all_pdos (P @ L)) @ u"
  shows "map (\<lambda>c. ((si_dir c, si_watchdog_mode c), map (read_pdo es) (slice infos (si_pdos c) (si_n_pdos c))))
      (lay_syncs k (length (all_pdos P)) L) = L"
  using assms
proof (induction L arbitrary: P k)
  case (Cons x L)
  obtain d w ps where x: "x = ((d, w), ps)" by (cases x) auto
  have "map (read_pdo es) (slice infos (if ps = [] then None else Some (length (all_pdos P))) (length ps)) = ps"
    using Cons.prems by (intro read_pdos_slice [of es "all_pdos (P @ x # L)" t "all_pdos P" ps "all_pdos L" infos u])
      (simp_all add: x all_pdos_def)
  moreover have "length (all_pdos P) + length ps = length (all_pdos (P @ [x]))" by (simp add: x)
  ultimately show ?case using Cons.IH [of "P @ [x]" "Suc k"] Cons.prems by (simp add: x del: all_pdos_simps)
qed simp

lemma lay_syncs_index:
  "k + length L \<le> 255 \<Longrightarrow> c \<in> set (lay_syncs k off L) \<Longrightarrow> si_index c \<noteq> 0xff"
proof (induction k off L rule: lay_syncs.induct)
  case (2 k off d w ps L)
  have "unat (of_nat k :: u8) = k" using 2(2) by (simp add: unat_of_nat)
  then have "(of_nat k :: u8) \<noteq> 0xff" using 2(2) by auto
  with 2 show ?case by auto
qed simp

lemma read_syncs_rel:
  assumes "syncs_rel s L" and "L \<noteq> []"
  shows "read_syncs s = L"
proof -
  obtain t where t: "sy_syncs s = lay_syncs 0 0 L @ t" "t \<noteq> []" "si_index (hd t) = 0xff"
    using assms by (auto simp: syncs_rel_def)
  have "length L \<le> LCEC_MAX_SYNC_COUNT" using assms(1) by (simp add: syncs_rel_def syncs_mem_def)
  then have "0 + length L \<le> 255" by (simp add: sync_max_defs)
  then have "takeWhile (\<lambda>c. si_index c \<noteq> 0xff) (sy_syncs s) = lay_syncs 0 0 L"
    using t lay_syncs_index [of 0 L] by (cases t) (simp_all add: takeWhile_append)
  then show ?thesis
    using assms(1) read_syncs_lay [of "sy_pdo_entries s" "[]" L _ "sy_pdo_infos s" _ 0]
    by (auto simp: read_syncs_def syncs_rel_def)
qed

section \<open>A sequence within the limits is accepted\<close>

definition layout_fits :: "sync_layout \<Rightarrow> bool" where
  "layout_fits L \<longleftrightarrow> length L \<le> LCEC_MAX_SYNC_COUNT \<and> length (all_pdos L) \<le> LCEC_MAX_PDO_INFO_COUNT + 1 \<and>
     length (all_entries (all_pdos L)) \<le> LCEC_MAX_PDO_ENTRY_COUNT + 1"

lemma sync_step_fits:
  assumes "syncs_rel s L" and "autoflow_of s = None" and "\<not> sy_error s" and "call_fits c L"
    and "layout_fits (layout_step None c L)"
  shows "\<exists>s'. sync_call_step c s = Inr (True, s') \<and> \<not> sy_error s'"
proof -
  have m: "syncs_mem s" using assms(1) by (simp add: syncs_rel_def)
  have a: "\<not> sy_autoflow s" using assms(2) by (simp add: autoflow_of_def split: if_splits)
  have r: "sy_sync_count s = length L" "sy_pdo_info_count s = length (all_pdos L)"
    "sy_pdo_entry_count s = length (all_entries (all_pdos L))" using assms(1) by (simp_all add: syncs_rel_def)
  show ?thesis
  proof (cases c)
    case (AddSync d w)
    have "length L < LCEC_MAX_SYNC_COUNT" using assms(5) AddSync by (simp add: layout_fits_def)
    then show ?thesis using m assms(3) AddSync r
      by (simp add: lcec_syncs_add_sync_def syncs_mem_def upd_at_ok Let_def)
  next
    case (AddPdo i)
    then obtain M h ps where L: "L = M @ [(h, ps)]" using call_fitsD(1) assms(4) by blast
    have "length (all_pdos L) \<le> LCEC_MAX_PDO_INFO_COUNT" using assms(5) AddPdo L by (simp add: layout_fits_def)
    moreover have "sy_curr_sync s = Some (length M)" using assms(1) L by (simp add: syncs_rel_def)
    ultimately show ?thesis using m assms(3) AddPdo r a L
      by (simp add: lcec_syncs_add_pdo_info_def syncs_mem_def upd_at_ok Let_def)
  next
    case (AddEntry i si l)
    then obtain M h qs j es where L: "L = M @ [(h, qs @ [(j, es)])]" using call_fitsD(2) assms(4) by blast
    have "length (all_entries (all_pdos L)) \<le> LCEC_MAX_PDO_ENTRY_COUNT"
      using assms(5) AddEntry L by (simp add: layout_fits_def layout_overflow_def)
    moreover obtain k where "sy_curr_pdo_info s = Some k" using assms(1) L by (auto simp: syncs_rel_def)
    ultimately show ?thesis using assms(3) AddEntry r a
      by (simp add: add_pdo_entry_alt [OF m] write_entry_mem Let_def)
  qed
qed

lemma layout_step_grows:
  assumes "call_fits c L"
  shows "length L \<le> length (layout_step None c L) \<and> length (all_pdos L) \<le> length (all_pdos (layout_step None c L)) \<and>
    length (all_entries (all_pdos L)) \<le> length (all_entries (all_pdos (layout_step None c L)))"
proof (cases c)
  case (AddPdo i)
  then show ?thesis using call_fitsD(1) assms by fastforce
next
  case (AddEntry i si l)
  then obtain M h qs j es where "L = M @ [(h, qs @ [(j, es)])]" using call_fitsD(2) assms by blast
  then show ?thesis using AddEntry by (simp add: layout_overflow_def)
qed simp

lemma layout_run_grows:
  "calls_fit None cs L \<Longrightarrow> layout_fits (layout_run None cs L) \<Longrightarrow> layout_fits L"
proof (induction cs arbitrary: L)
  case (Cons c cs)
  then have "layout_fits (layout_step None c L)" by (simp add: layout_run_def)
  then show ?case using layout_step_grows [of c L] Cons.prems(1) by (auto simp: layout_fits_def)
qed (simp add: layout_run_def)

lemma sync_build_fits:
  assumes "syncs_rel s L" and "autoflow_of s = None" and "\<not> sy_error s" and "calls_fit None cs L"
    and "layout_fits (layout_run None cs L)"
  shows "\<exists>s'. sync_build cs s = Inr s' \<and> \<not> sy_error s' \<and> syncs_rel s' (layout_run None cs L)"
  using assms
proof (induction cs arbitrary: s L)
  case (Cons c cs)
  let ?L = "layout_step None c L"
  have fits: "layout_fits (layout_run None cs ?L)" using Cons.prems(5) by (simp add: layout_run_def)
  then have "layout_fits ?L" using layout_run_grows Cons.prems(4) by auto
  then obtain s1 where s1: "sync_call_step c s = Inr (True, s1)" "\<not> sy_error s1"
    using sync_step_fits [OF Cons.prems(1-3)] Cons.prems(4) by auto
  have "syncs_rel s1 ?L \<and> autoflow_of s1 = None"
    using sync_step_rel [OF Cons.prems(1) _ s1] Cons.prems(2,4) by simp
  then show ?case using Cons.IH [of s1 ?L] s1 Cons.prems(4) fits by (simp add: sync_build_Cons layout_run_def)
qed (simp add: sync_build_def layout_run_def)

section \<open>Autoflow\<close>

text \<open>No PDO of a layout built with autoflow holds more entries than the limit, and the last has room.\<close>

definition autoflow_ok :: "int \<Rightarrow> sync_layout \<Rightarrow> bool" where
  "autoflow_ok limit L \<longleftrightarrow> (\<forall>(h, ps) \<in> set L. (\<forall>(i, es) \<in> set ps. int (length es) \<le> limit) \<and>
     (ps \<noteq> [] \<longrightarrow> int (length (snd (last ps))) < limit))"

lemma autoflow_step_ok:
  assumes "autoflow_ok limit L" and "call_fits c L" and "0 < limit"
  shows "autoflow_ok limit (layout_step (Some (limit, inc)) c L)"
proof (cases c)
  case (AddPdo i)
  then obtain M h ps where "L = M @ [(h, ps)]" using call_fitsD(1) assms(2) by blast
  then show ?thesis using AddPdo assms(1,3) by (auto simp: autoflow_ok_def)
next
  case (AddEntry i si l)
  then obtain M h qs j es where L: "L = M @ [(h, qs @ [(j, es)])]" using call_fitsD(2) assms(2) by blast
  then have "int (length es) < limit" using assms(1) by (auto simp: autoflow_ok_def)
  then show ?thesis using AddEntry L assms(1,3) by (auto simp: autoflow_ok_def)
qed (use assms(1) in \<open>auto simp: autoflow_ok_def\<close>)

lemma autoflow_run_ok:
  assumes "0 < limit" and "autoflow_ok limit L" and "calls_fit (Some (limit, inc)) cs L"
  shows "autoflow_ok limit (layout_run (Some (limit, inc)) cs L)"
  using assms(2,3)
proof (induction cs arbitrary: L)
  case (Cons c cs)
  then show ?case using autoflow_step_ok [OF _ _ assms(1)] by (simp add: layout_run_def)
qed (simp add: layout_run_def)

end
