(* ===== verification/SyncsOrder.thy ===== *)
theory SyncsOrder
  imports Syncs
begin

text \<open>
  Building sequences over the limits: a sequence that names a sync manager before its PDOs
  and a PDO before its entries never runs through a null pointer, also behind an error, and
  what the limit of autoflow leaves in the counters when it rejects a PDO.
\<close>

section \<open>The pointers\<close>

text \<open>The pointers the layout says are set are set; nothing is counted before the first one.\<close>

definition syncs_ptr :: "syncs \<Rightarrow> sync_layout \<Rightarrow> bool" where
  "syncs_ptr s L \<longleftrightarrow> syncs_mem s \<and> (L \<noteq> [] \<longrightarrow> sy_curr_sync s \<noteq> None) \<and> (all_pdos L \<noteq> [] \<longrightarrow> sy_curr_pdo_info s \<noteq> None) \<and>
     (sy_curr_sync s = None \<longrightarrow> sy_sync_count s = 0) \<and> (sy_curr_pdo_info s = None \<longrightarrow> sy_pdo_info_count s = 0)"

lemma add_sync_ptr:
  assumes "syncs_ptr s L"
  shows "\<exists>b s'. lcec_syncs_add_sync d w s = Inr (b, s') \<and> syncs_ptr s' (L @ [((d, w), [])])"
proof -
  have m: "syncs_mem s" using assms by (simp add: syncs_ptr_def)
  obtain b s' where s': "lcec_syncs_add_sync d w s = Inr (b, s')" "syncs_mem s'"
    using add_sync_mem [OF m, of d w] by (cases "lcec_syncs_add_sync d w s") auto
  have "sy_curr_sync s' \<noteq> None" "sy_curr_pdo_info s' = sy_curr_pdo_info s" "sy_pdo_info_count s' = sy_pdo_info_count s"
    using s'(1) m assms
    by (auto simp: lcec_syncs_add_sync_def syncs_mem_def upd_at_ok Let_def syncs_ptr_def LCEC_MAX_SYNC_COUNT_def split: if_splits)
  then show ?thesis using s' assms by (auto simp: syncs_ptr_def)
qed

lemma add_pdo_info_ptr:
  assumes "syncs_ptr s L" and "sy_curr_sync s \<noteq> None"
  shows "\<exists>b s'. lcec_syncs_add_pdo_info i s = Inr (b, s') \<and> syncs_ptr s' L \<and> sy_curr_pdo_info s' \<noteq> None \<and> sy_curr_sync s' \<noteq> None"
proof -
  have m: "syncs_mem s" using assms by (simp add: syncs_ptr_def)
  obtain b s' where s': "lcec_syncs_add_pdo_info i s = Inr (b, s')" "syncs_mem s'"
    using add_pdo_info_mem [OF m, of i] assms(2) by (cases "lcec_syncs_add_pdo_info i s") auto
  have "sy_curr_sync s' = sy_curr_sync s" "sy_curr_pdo_info s' \<noteq> None"
    using s'(1) assms
    by (auto simp: lcec_syncs_add_pdo_info_def Let_def syncs_ptr_def LCEC_MAX_PDO_INFO_COUNT_def split: if_splits option.splits)
  then show ?thesis using s' assms by (auto simp: syncs_ptr_def)
qed

lemma write_entry_ptr:
  "syncs_ptr s L \<Longrightarrow> syncs_ptr (write_entry i si l c s) L"
  "sy_curr_sync (write_entry i si l c s) = sy_curr_sync s" "sy_curr_pdo_info (write_entry i si l c s) = sy_curr_pdo_info s"
  using write_entry_mem(1) [of s i si l c] by (simp_all add: syncs_ptr_def) (simp_all add: write_entry_def Let_def)

lemma add_pdo_entry_ptr:
  assumes "syncs_ptr s L" and "sy_curr_sync s \<noteq> None" and "sy_curr_pdo_info s \<noteq> None"
  shows "\<exists>b s'. lcec_syncs_add_pdo_entry i si l s = Inr (b, s') \<and> syncs_ptr s' L \<and> sy_curr_pdo_info s' \<noteq> None \<and> sy_curr_sync s' \<noteq> None"
proof -
  have m: "syncs_mem s" using assms by (simp add: syncs_ptr_def)
  obtain c where c: "sy_curr_pdo_info s = Some c" using assms(3) by auto
  have w: "syncs_ptr s L \<Longrightarrow> syncs_ptr (write_entry i si l c s) L" "sy_curr_sync (write_entry i si l c s) = sy_curr_sync s"
    "sy_curr_pdo_info (write_entry i si l c s) = sy_curr_pdo_info s" by (simp_all add: write_entry_ptr)
  let ?s1 = "write_entry i si l c s" and ?p = "sy_pdo_infos (write_entry i si l c s) ! c"
  let ?full = "sy_autoflow s \<and> int (pi_n_entries ?p) \<ge> sy_pdo_entry_limit s"
  obtain b s' where s': "lcec_syncs_add_pdo_info (word_of_int (uint (pi_index ?p) + sy_pdo_increment s)) ?s1 = Inr (b, s')"
      "syncs_ptr s' L" "sy_curr_pdo_info s' \<noteq> None" "sy_curr_sync s' \<noteq> None"
    using add_pdo_info_ptr [OF w(1) [OF assms(1)]] assms(2) w(2) by metis
  show ?thesis
  proof (cases "sy_pdo_entry_count s > LCEC_MAX_PDO_ENTRY_COUNT")
    case True
    then show ?thesis using assms by (auto simp: add_pdo_entry_alt [OF m] syncs_ptr_def syncs_mem_def)
  next
    case False
    show ?thesis
    proof (cases ?full)
      case True
      then have "lcec_syncs_add_pdo_entry i si l s = Inr (True, s')"
        using False c s'(1) unfolding add_pdo_entry_alt [OF m] Let_def by (simp only: if_False if_True option.case) simp
      then show ?thesis using s'(2-4) by blast
    next
      case no: False
      have "lcec_syncs_add_pdo_entry i si l s = Inr (True, ?s1)"
        using False c no unfolding add_pdo_entry_alt [OF m] Let_def by (simp only: if_False option.case)
      then show ?thesis using w(1) [OF assms(1)] assms(2,3) unfolding w(2,3) [symmetric] by blast
    qed
  qed
qed

lemma syncs_ptr_mono:
  "syncs_ptr s L \<Longrightarrow> sy_curr_sync s \<noteq> None \<Longrightarrow> sy_curr_pdo_info s \<noteq> None \<Longrightarrow> syncs_ptr s L'"
  by (auto simp: syncs_ptr_def)

lemma sync_step_ptr:
  assumes "syncs_ptr s L" and "call_fits c L"
  shows "\<exists>b s'. sync_call_step c s = Inr (b, s') \<and> syncs_ptr s' (layout_step af c L)"
proof (cases c)
  case (AddSync d w)
  then show ?thesis using add_sync_ptr [OF assms(1)] by simp
next
  case (AddPdo i)
  then obtain M h ps where "L = M @ [(h, ps)]" using call_fitsD(1) assms(2) by blast
  then have "sy_curr_sync s \<noteq> None" using assms(1) by (simp add: syncs_ptr_def)
  then show ?thesis using add_pdo_info_ptr [OF assms(1)] syncs_ptr_mono AddPdo by (metis sync_call_step.simps(2))
next
  case (AddEntry i si l)
  then obtain M h qs j es where "L = M @ [(h, qs @ [(j, es)])]" using call_fitsD(2) assms(2) by blast
  then have "sy_curr_sync s \<noteq> None" "sy_curr_pdo_info s \<noteq> None" using assms(1) by (simp_all add: syncs_ptr_def)
  then show ?thesis using add_pdo_entry_ptr [OF assms(1)] syncs_ptr_mono AddEntry by (metis sync_call_step.simps(3))
qed

lemma sync_build_ptr:
  "syncs_ptr s L \<Longrightarrow> calls_fit af cs L \<Longrightarrow> \<exists>s'. sync_build cs s = Inr s' \<and> syncs_mem s'"
proof (induction cs arbitrary: s L)
  case Nil
  then show ?case by (simp add: sync_build_def syncs_ptr_def)
next
  case (Cons c cs)
  obtain b s1 where s1: "sync_call_step c s = Inr (b, s1)" "syncs_ptr s1 (layout_step af c L)"
    using sync_step_ptr [OF Cons.prems(1), of c af] Cons.prems(2) by auto
  then show ?case using Cons.IH [OF s1(2)] Cons.prems(2) by (simp add: sync_build_Cons)
qed

text \<open>The builder a driver starts from, with the limits of autoflow where it asks for them.\<close>

definition syncs_start :: "(int \<times> int \<times> int) option \<Rightarrow> syncs" where
  "syncs_start af = (case af of None \<Rightarrow> lcec_syncs_init
     | Some (pl, el, inc) \<Rightarrow> lcec_syncs_enable_autoflow pl el inc lcec_syncs_init)"

definition start_flow :: "(int \<times> int \<times> int) option \<Rightarrow> (int \<times> int) option" where
  "start_flow = map_option snd"

lemma syncs_start_facts:
  "syncs_ptr (syncs_start af) []" "syncs_rel (syncs_start af) []" "autoflow_of (syncs_start af) = start_flow af"
  "\<not> sy_error (syncs_start af)"
proof -
  show "syncs_ptr (syncs_start af) []"
    using syncs_mem_init by (auto simp: syncs_start_def syncs_ptr_def split: option.split)
      (auto simp: lcec_syncs_init_def lcec_syncs_enable_autoflow_def)
  have "syncs_rel (lcec_syncs_enable_autoflow a b c lcec_syncs_init) []" for a b c
    using syncs_rel_init by (simp add: syncs_rel_def) (simp add: lcec_syncs_enable_autoflow_def)
  then show "syncs_rel (syncs_start af) []" using syncs_rel_init by (auto simp: syncs_start_def split: option.split)
  show "autoflow_of (syncs_start af) = start_flow af"
    by (auto simp: syncs_start_def autoflow_of_def start_flow_def lcec_syncs_enable_autoflow_def lcec_syncs_init_def split: option.split)
  show "\<not> sy_error (syncs_start af)"
    by (auto simp: syncs_start_def lcec_syncs_enable_autoflow_def lcec_syncs_init_def split: option.split)
qed

section \<open>A layout is not empty\<close>

lemma layout_step_nonempty: "L \<noteq> [] \<Longrightarrow> layout_step af c L \<noteq> []"
proof -
  assume "L \<noteq> []"
  then obtain M h ps where L: "L = M @ [(h, ps)]" by (cases L rule: rev_cases) auto
  have o: "layout_overflow af K \<noteq> []" if "K \<noteq> []" for K
    using that by (cases K rule: rev_cases) (auto simp: layout_overflow_def split: option.split prod.split)
  show ?thesis using o L by (cases c; cases ps rule: rev_cases) (auto simp: layout_add_entry_def)
qed

lemma layout_run_nonempty: "calls_fit af cs [] \<Longrightarrow> cs \<noteq> [] \<Longrightarrow> layout_run af cs [] \<noteq> []"
proof -
  have n: "L \<noteq> [] \<Longrightarrow> layout_run af cs L \<noteq> []" for cs L
    by (induction cs arbitrary: L) (simp_all add: layout_run_def layout_step_nonempty)
  show "calls_fit af cs [] \<Longrightarrow> cs \<noteq> [] \<Longrightarrow> layout_run af cs [] \<noteq> []"
    using n by (cases cs; cases "hd cs") (auto simp: layout_run_def)
qed

section \<open>The entries of a layout\<close>

definition call_entries :: "sync_call \<Rightarrow> pdo_entry_info list" where
  "call_entries c = (case c of AddEntry i si l \<Rightarrow> [\<lparr>ei_index = i, ei_subindex = si, ei_bit_length = l\<rparr>] | _ \<Rightarrow> [])"

lemma layout_overflow_entries: "L \<noteq> [] \<Longrightarrow> all_entries (all_pdos (layout_overflow af L)) = all_entries (all_pdos L)"
  by (cases L rule: rev_cases) (auto simp: layout_overflow_def split: option.split prod.split)

lemma layout_step_entries:
  assumes "call_fits c L"
  shows "all_entries (all_pdos (layout_step af c L)) = all_entries (all_pdos L) @ call_entries c"
proof (cases c)
  case (AddPdo i)
  then obtain M h ps where "L = M @ [(h, ps)]" using call_fitsD(1) assms by blast
  then show ?thesis using AddPdo by (simp add: call_entries_def)
next
  case (AddEntry i si l)
  then obtain M h qs j es where "L = M @ [(h, qs @ [(j, es)])]" using call_fitsD(2) assms by blast
  then show ?thesis using AddEntry by (simp add: layout_overflow_entries call_entries_def)
qed (simp add: call_entries_def)

lemma layout_run_entries_from:
  "calls_fit af cs L \<Longrightarrow> all_entries (all_pdos (layout_run af cs L)) = all_entries (all_pdos L) @ concat (map call_entries cs)"
  by (induction cs arbitrary: L) (simp_all add: layout_run_def layout_step_entries)

lemma layout_run_entries:
  "calls_fit af cs [] \<Longrightarrow> all_entries (all_pdos (layout_run af cs [])) =
     concat (map (\<lambda>c. case c of AddEntry i si l \<Rightarrow> [\<lparr>ei_index = i, ei_subindex = si, ei_bit_length = l\<rparr>] | _ \<Rightarrow> []) cs)"
  using layout_run_entries_from [of af cs "[]"] by (simp add: call_entries_def [abs_def])

section \<open>The limit of autoflow\<close>

text \<open>
  A PDO over the limit is reported and not counted, but the sync manager already counts it:
  it names one PDO more than there are.
\<close>

lemma pdo_limit_rejects:
  assumes "syncs_mem s" and "sy_curr_sync s = Some c" and "sy_pdo_info_count s \<le> LCEC_MAX_PDO_INFO_COUNT"
    and "sy_autoflow s" and "sy_pdo_limit s < int (sy_pdo_info_count s)"
  shows "\<exists>s'. lcec_syncs_add_pdo_info i s = Inr (False, s') \<and> sy_error s' \<and> sy_pdo_info_count s' = sy_pdo_info_count s \<and>
    si_n_pdos (sy_syncs s' ! c) = Suc (si_n_pdos (sy_syncs s ! c))"
  using assms by (auto simp: lcec_syncs_add_pdo_info_def syncs_mem_def upd_at_ok Let_def)

end
