(* ===== verification/BusData.thy ===== *)
theory BusData
  imports MasterData
begin

text \<open>
  Access to process data and SDO buffers. The code uses the macros of the EtherCAT master's
  header for it, which is not part of the repository: they are a record of functions, and
  what the code relies on, that they access little-endian data and single bits, is the
  predicate \<open>ec_le\<close>. Buffers are lists of bytes; an access behind the end is \<open>None\<close>.
\<close>

section \<open>The macros\<close>

record ec_macros =
  EC_READ_BIT :: "u8 \<Rightarrow> nat \<Rightarrow> bool"
  EC_WRITE_BIT :: "u8 \<Rightarrow> nat \<Rightarrow> bool \<Rightarrow> u8"
  EC_READ_U16 :: "u8 list \<Rightarrow> u16"
  EC_READ_U32 :: "u8 list \<Rightarrow> u32"
  EC_WRITE_U16 :: "u16 \<Rightarrow> u8 list"
  EC_WRITE_U32 :: "u32 \<Rightarrow> u8 list"
  EC_READ_REAL :: "u8 list \<Rightarrow> real"
  EC_READ_LREAL :: "u8 list \<Rightarrow> real"
  EC_WRITE_REAL :: "real \<Rightarrow> u8 list"
  EC_WRITE_LREAL :: "real \<Rightarrow> u8 list"

text \<open>Bytes of a word, least significant first, and back.\<close>

definition le_bytes :: "nat \<Rightarrow> 'a::len word \<Rightarrow> u8 list" where
  "le_bytes n w = map (\<lambda>i. ucast (drop_bit (8 * i) w)) [0..<n]"

fun le_word :: "u8 list \<Rightarrow> 'a::len word" where
  "le_word [] = 0"
| "le_word (b # bs) = ucast b OR push_bit 8 (le_word bs)"

definition ec_le :: "ec_macros \<Rightarrow> bool" where
  "ec_le ec \<longleftrightarrow>
     (\<forall>b p. p < 8 \<longrightarrow> EC_READ_BIT ec b p = bit b p) \<and>
     (\<forall>b p v. p < 8 \<longrightarrow> EC_WRITE_BIT ec b p v = (if v then set_bit p b else unset_bit p b)) \<and>
     (\<forall>bs. length bs = 2 \<longrightarrow> EC_READ_U16 ec bs = le_word bs) \<and>
     (\<forall>bs. length bs = 4 \<longrightarrow> EC_READ_U32 ec bs = le_word bs) \<and>
     (\<forall>w. EC_WRITE_U16 ec w = le_bytes 2 w) \<and> (\<forall>w. EC_WRITE_U32 ec w = le_bytes 4 w) \<and>
     (\<forall>x. length (EC_WRITE_REAL ec x) = 4) \<and> (\<forall>x. length (EC_WRITE_LREAL ec x) = 8)"

lemma length_le_bytes [simp]: "length (le_bytes n w) = n"
  by (simp add: le_bytes_def)

lemma nth_le_bytes [simp]: "i < n \<Longrightarrow> le_bytes n w ! i = ucast (drop_bit (8 * i) w)"
  by (simp add: le_bytes_def)

lemma bit_le_word:
  "bit (le_word bs :: 'a::len word) k \<longleftrightarrow> k < LENGTH('a) \<and> k < 8 * length bs \<and> bit (bs ! (k div 8)) (k mod 8)"
proof (induction bs arbitrary: k)
  case (Cons b bs)
  show ?case
  proof (cases "k < 8")
    case True
    then show ?thesis by (auto simp: bit_or_iff bit_push_bit_iff bit_ucast_iff)
  next
    case False
    then obtain j where j: "k = 8 + j" using le_Suc_ex not_less by metis
    have "\<not> bit b (8 + j)" by (auto dest: bit_imp_le_length)
    then show ?thesis by (auto simp: j bit_or_iff bit_push_bit_iff bit_ucast_iff Cons.IH)
  qed
qed simp

lemma le_word_bytes: "LENGTH('a::len) \<le> 8 * n \<Longrightarrow> le_word (le_bytes n w) = (w :: 'a word)"
proof (rule bit_word_eqI)
  fix k assume n: "LENGTH('a) \<le> 8 * n" and k: "k < LENGTH('a)"
  then have "k div 8 < n" by (simp add: less_mult_imp_div_less mult.commute)
  with n k show "bit (le_word (le_bytes n w) :: 'a word) k = bit w k"
    by (simp add: bit_le_word bit_ucast_iff bit_drop_bit_eq)
qed

section \<open>Bytes and bits of a buffer\<close>

definition pd_load :: "u8 list \<Rightarrow> nat \<Rightarrow> nat \<Rightarrow> u8 list option" where
  "pd_load pd os n = (if os + n \<le> length pd then Some (take n (drop os pd)) else None)"

definition pd_store :: "u8 list \<Rightarrow> nat \<Rightarrow> u8 list \<Rightarrow> u8 list option" where
  "pd_store pd os bs =
     (if os + length bs \<le> length pd then Some (take os pd @ bs @ drop (os + length bs) pd) else None)"

text \<open>The byte of a bit offset, and the bit in it: \<open>pd[offset >> 3]\<close> and \<open>offset & 7\<close>.\<close>

definition pd_read_bit :: "ec_macros \<Rightarrow> u8 list \<Rightarrow> int \<Rightarrow> bool option" where
  "pd_read_bit ec pd off =
     (if 0 \<le> off \<and> nat (off div 8) < length pd
      then Some (EC_READ_BIT ec (pd ! nat (off div 8)) (nat (off mod 8))) else None)"

definition pd_write_bit :: "ec_macros \<Rightarrow> u8 list \<Rightarrow> int \<Rightarrow> bool \<Rightarrow> u8 list option" where
  "pd_write_bit ec pd off v =
     (if 0 \<le> off \<and> nat (off div 8) < length pd
      then Some (pd[nat (off div 8) := EC_WRITE_BIT ec (pd ! nat (off div 8)) (nat (off mod 8)) v]) else None)"

definition pd_bit :: "u8 list \<Rightarrow> nat \<Rightarrow> bool" where
  "pd_bit pd k \<longleftrightarrow> bit (pd ! (k div 8)) (k mod 8)"

lemma pd_read_bit_nat:
  assumes "ec_le ec" and "k < 8 * length pd"
  shows "pd_read_bit ec pd (int k) = Some (pd_bit pd k)"
proof -
  have "k div 8 < length pd" using assms(2) by (simp add: less_mult_imp_div_less mult.commute)
  then show ?thesis using assms(1)
    by (simp add: pd_read_bit_def pd_bit_def ec_le_def nat_div_distrib nat_mod_distrib)
qed

lemma pd_write_bit_nat:
  assumes "ec_le ec" and "k < 8 * length pd"
  shows "\<exists>pd'. pd_write_bit ec pd (int k) v = Some pd' \<and> length pd' = length pd \<and>
    (\<forall>j < 8 * length pd. pd_bit pd' j = (if j = k then v else pd_bit pd j))"
proof -
  have k: "k div 8 < length pd" using assms(2) by (simp add: less_mult_imp_div_less mult.commute)
  have "pd_bit (pd[k div 8 := (if v then set_bit (k mod 8) (pd ! (k div 8)) else unset_bit (k mod 8) (pd ! (k div 8)))]) j =
      (if j = k then v else pd_bit pd j)" for j
  proof (cases "j div 8 = k div 8")
    case True
    then have "j mod 8 = k mod 8 \<longleftrightarrow> j = k" by (metis div_mult_mod_eq)
    then show ?thesis using True k
      by (auto simp: pd_bit_def bit_set_bit_iff bit_unset_bit_iff)
  next
    case False
    then show ?thesis by (auto simp: pd_bit_def)
  qed
  then show ?thesis using k assms(1)
    by (simp add: pd_write_bit_def ec_le_def nat_div_distrib nat_mod_distrib)
qed

lemma pd_bits_eqI:
  assumes "length a = length b" and "\<And>k. k < 8 * length b \<Longrightarrow> pd_bit a k = pd_bit b k"
  shows "a = b"
proof (rule nth_equalityI [OF assms(1)])
  fix i assume i: "i < length a"
  show "a ! i = b ! i"
  proof (rule bit_word_eqI)
    fix p assume "p < LENGTH(8)"
    then have p: "p < 8" by simp
    then have "pd_bit a (8 * i + p) = pd_bit b (8 * i + p)" using i assms by simp
    with p show "bit (a ! i) p = bit (b ! i) p" by (simp add: pd_bit_def)
  qed
qed

section \<open>Runs of bits\<close>

text \<open>The loops that gather and scatter a value bit by bit; the counter \<open>i\<close> is the source's.\<close>

fun read_bits :: "ec_macros \<Rightarrow> u8 list \<Rightarrow> int \<Rightarrow> nat \<Rightarrow> nat \<Rightarrow> u32 \<Rightarrow> u32 option" where
  "read_bits ec pd off i 0 v = Some v"
| "read_bits ec pd off i (Suc n) v =
     (case pd_read_bit ec pd off of
        None \<Rightarrow> None
      | Some b \<Rightarrow> read_bits ec pd (off + 1) (Suc i) n (if b then v OR push_bit i 1 else v))"

fun write_bits :: "ec_macros \<Rightarrow> int \<Rightarrow> nat \<Rightarrow> int \<Rightarrow> u8 list \<Rightarrow> u8 list option" where
  "write_bits ec off 0 v pd = Some pd"
| "write_bits ec off (Suc n) v pd =
     (case pd_write_bit ec pd off (odd v) of
        None \<Rightarrow> None
      | Some pd' \<Rightarrow> write_bits ec (off + 1) n (v div 2) pd')"

lemma read_bits_spec:
  assumes "ec_le ec" and "off + n \<le> 8 * length pd" and "i + n \<le> 32"
  shows "\<exists>w. read_bits ec pd (int off) i n v = Some w \<and>
    (\<forall>k < 32. bit w k = (bit v k \<or> i \<le> k \<and> k < i + n \<and> pd_bit pd (off + (k - i))))"
  using assms(2,3)
proof (induction n arbitrary: off i v)
  case (Suc n)
  let ?v = "if pd_bit pd off then v OR push_bit i 1 else v"
  obtain w where w: "read_bits ec pd (int (Suc off)) (Suc i) n ?v = Some w"
    "\<forall>k < 32. bit w k = (bit ?v k \<or> Suc i \<le> k \<and> k < Suc i + n \<and> pd_bit pd (Suc off + (k - Suc i)))"
    using Suc.IH [of "Suc off" "Suc i" ?v] Suc.prems by auto
  have "bit w k = (bit v k \<or> i \<le> k \<and> k < i + Suc n \<and> pd_bit pd (off + (k - i)))" if k: "k < 32" for k
  proof (cases "k = i")
    case True
    then show ?thesis using w(2) k by (auto simp: bit_or_iff bit_exp_iff)
  next
    case False
    then have "Suc off + (k - Suc i) = off + (k - i)" if "i \<le> k" using that by simp
    moreover have "bit ?v k = bit v k" using False by (auto simp: bit_or_iff bit_exp_iff)
    moreover have "bit w k = (bit ?v k \<or> Suc i \<le> k \<and> k < Suc i + n \<and> pd_bit pd (Suc off + (k - Suc i)))"
      using w(2) k by blast
    ultimately show ?thesis using False by auto
  qed
  then show ?case using w(1) pd_read_bit_nat [OF assms(1), of off pd] Suc.prems by (simp add: add.commute)
qed auto

lemma write_bits_spec:
  assumes "ec_le ec" and "off + n \<le> 8 * length pd"
  shows "\<exists>pd'. write_bits ec (int off) n v pd = Some pd' \<and> length pd' = length pd \<and>
    (\<forall>j < 8 * length pd. pd_bit pd' j = (if off \<le> j \<and> j < off + n then bit v (j - off) else pd_bit pd j))"
  using assms(2)
proof (induction n arbitrary: off v pd)
  case (Suc n)
  obtain p1 where p1: "pd_write_bit ec pd (int off) (odd v) = Some p1" "length p1 = length pd"
    "\<forall>j < 8 * length pd. pd_bit p1 j = (if j = off then odd v else pd_bit pd j)"
    using pd_write_bit_nat [OF assms(1), of off pd "odd v"] Suc.prems by auto
  obtain p2 where p2: "write_bits ec (int (Suc off)) n (v div 2) p1 = Some p2" "length p2 = length p1"
    "\<forall>j < 8 * length p1. pd_bit p2 j = (if Suc off \<le> j \<and> j < Suc off + n then bit (v div 2) (j - Suc off) else pd_bit p1 j)"
    using Suc.IH [of "Suc off" p1 "v div 2"] Suc.prems p1(2) by auto
  have "pd_bit p2 j = (if off \<le> j \<and> j < off + Suc n then bit v (j - off) else pd_bit pd j)" if j: "j < 8 * length pd" for j
  proof (cases "j = off")
    case True
    then show ?thesis using p1 p2 j by (simp add: bit_0)
  next
    case False
    have "bit v (j - off) = bit (v div 2) (j - Suc off)" if "Suc off \<le> j"
      using that bit_Suc [of v "j - Suc off"] by (simp add: Suc_diff_Suc)
    then show ?thesis using p1 p2 j False by auto
  qed
  then show ?case using p1 p2 by (auto simp: add.commute)
qed auto

text \<open>The bits of a stored byte string.\<close>

lemma pd_store_spec:
  assumes "os + n \<le> length pd"
  shows "\<exists>pd'. pd_store pd os (le_bytes n (w :: 'a::len word)) = Some pd' \<and> length pd' = length pd \<and>
    (\<forall>j < 8 * length pd. pd_bit pd' j =
       (if 8 * os \<le> j \<and> j < 8 * os + 8 * n then bit w (j - 8 * os) else pd_bit pd j))"
proof -
  let ?pd = "take os pd @ le_bytes n w @ drop (os + n) pd"
  have "pd_bit ?pd j = (if 8 * os \<le> j \<and> j < 8 * os + 8 * n then bit w (j - 8 * os) else pd_bit pd j)"
    if "j < 8 * length pd" for j
  proof -
    have q: "j div 8 < length pd" using that by (simp add: less_mult_imp_div_less mult.commute)
    consider "j < 8 * os" | "8 * os \<le> j" "j < 8 * os + 8 * n" | "8 * os + 8 * n \<le> j" by linarith
    then show ?thesis
    proof cases
      case 1
      then have "j div 8 < os" by (simp add: less_mult_imp_div_less mult.commute)
      then show ?thesis using 1 q by (simp add: pd_bit_def nth_append)
    next
      case 2
      define k where "k = j - 8 * os"
      then have j: "j = 8 * os + k" and k: "k < 8 * n" using 2 by auto
      have "k div 8 < n" using k by (simp add: less_mult_imp_div_less mult.commute)
      moreover have "os \<le> length pd" using assms by simp
      ultimately have "pd_bit ?pd j = bit w (8 * (k div 8) + k mod 8)"
        by (simp add: j pd_bit_def nth_append bit_ucast_iff bit_drop_bit_eq)
      then show ?thesis using 2 k by (simp add: j)
    next
      case 3
      then have "os + n \<le> j div 8" by (simp add: less_eq_div_iff_mult_less_eq mult.commute)
      then have "\<not> j div 8 < os" "\<not> j div 8 - os < n" by auto
      then have "?pd ! (j div 8) = pd ! (j div 8)" using q assms by (simp add: nth_append)
      then show ?thesis using 3 by (simp add: pd_bit_def)
    qed
  qed
  then show ?thesis using assms by (auto simp: pd_store_def)
qed

lemma pd_load_bit:
  assumes "pd_load pd os n = Some bs" and "k < 8 * n"
  shows "bit (bs ! (k div 8)) (k mod 8) = pd_bit pd (8 * os + k)"
proof -
  have "k div 8 < n" using assms(2) by (simp add: less_mult_imp_div_less mult.commute)
  then show ?thesis using assms(1) by (auto simp: pd_load_def pd_bit_def split: if_splits)
qed

lemma le_word_load:
  assumes "pd_load pd os n = Some bs"
  shows "bit (le_word bs :: 'a::len word) k \<longleftrightarrow> k < LENGTH('a) \<and> k < 8 * n \<and> pd_bit pd (8 * os + k)"
proof -
  have "length bs = n" using assms by (auto simp: pd_load_def split: if_splits)
  then show ?thesis using pd_load_bit [OF assms, of k] by (auto simp: bit_le_word)
qed

section \<open>A machine the macros fit\<close>

definition le_macros :: ec_macros where
  "le_macros =
     \<lparr>EC_READ_BIT = (\<lambda>b p. drop_bit p b AND 1 \<noteq> 0),
      EC_WRITE_BIT = (\<lambda>b p v. if v then b OR push_bit p 1 else b AND NOT (push_bit p 1)),
      EC_READ_U16 = le_word, EC_READ_U32 = le_word, EC_WRITE_U16 = le_bytes 2, EC_WRITE_U32 = le_bytes 4,
      EC_READ_REAL = (\<lambda>bs. 0), EC_READ_LREAL = (\<lambda>bs. 0),
      EC_WRITE_REAL = (\<lambda>x. [0, 0, 0, 0]), EC_WRITE_LREAL = (\<lambda>x. [0, 0, 0, 0, 0, 0, 0, 0])\<rparr>"

lemma le_macros: "ec_le le_macros"
proof -
  have "(drop_bit p b AND 1 \<noteq> 0) = bit b p" for b :: u8 and p
    by (simp add: and_one_eq odd_iff_mod_2_eq_one [symmetric] bit_iff_odd_drop_bit del: odd_iff_mod_2_eq_one)
  then show ?thesis
    by (simp add: ec_le_def le_macros_def set_bit_eq_or unset_bit_eq_and_not)
qed

end
