(* ===== verification/Sdo.thy ===== *)
theory Sdo
  imports BusData
begin

text \<open>
  SDO and IDN access of \<open>lcec_ethercat.c\<close>: the checked transfers and the readers and writers
  of the three widths built on them, with their variants for HAL pins and module parameters.
  What the bus answers is given by an environment; the calls made to it are logged.
\<close>

section \<open>The bus\<close>

datatype sdo_call =
    SdoUpload int u16 u8 nat
  | SdoDownload int u16 u8 "u8 list"
  | SdoConfig int u16 u8 "u8 list"
  | SdoConfigComplete int u16 "u8 list"
  | IdnRead int u8 u16 nat
  | IdnConfig int u8 u16 ec_al_state "u8 list"

text \<open>
  An upload answers an error number, 0 for success, the bytes it has put into the buffer,
  and the size it reports. Downloads and configurations answer an error number.
\<close>

record sdo_env =
  se_upload :: "int \<Rightarrow> u16 \<Rightarrow> u8 \<Rightarrow> nat \<Rightarrow> int \<times> u8 list \<times> nat"
  se_download :: "int \<Rightarrow> u16 \<Rightarrow> u8 \<Rightarrow> u8 list \<Rightarrow> int"
  se_config :: "int \<Rightarrow> u16 \<Rightarrow> u8 \<Rightarrow> u8 list \<Rightarrow> int"
  se_config_complete :: "int \<Rightarrow> u16 \<Rightarrow> u8 list \<Rightarrow> int"
  se_read_idn :: "int \<Rightarrow> u8 \<Rightarrow> u16 \<Rightarrow> nat \<Rightarrow> int \<times> u8 list \<times> nat"
  se_config_idn :: "int \<Rightarrow> u8 \<Rightarrow> u16 \<Rightarrow> ec_al_state \<Rightarrow> u8 list \<Rightarrow> int"

text \<open>The buffer after a transfer has overwritten its front, never more than its size.\<close>

definition overlay :: "u8 list \<Rightarrow> u8 list \<Rightarrow> u8 list" where
  "overlay buf bs = take (length buf) bs @ drop (length bs) buf"

lemma length_overlay [simp]: "length (overlay buf bs) = length buf"
  by (simp add: overlay_def)

lemma overlay_full: "length bs = length buf \<Longrightarrow> overlay buf bs = bs"
  by (simp add: overlay_def)

section \<open>Reading\<close>

text \<open>Return value and buffer; \<open>target\<close> is the buffer before, its length the size asked for.\<close>

definition lcec_read_sdo :: "sdo_env \<Rightarrow> lcec_slave \<Rightarrow> u16 \<Rightarrow> u8 \<Rightarrow> u8 list \<Rightarrow> int \<times> u8 list" where
  "lcec_read_sdo env s index subindex target =
     (case se_upload env (sl_index s) index subindex (length target) of (err, bs, result_size) \<Rightarrow>
        if err \<noteq> 0 then (-1, overlay target bs)
        else if result_size \<noteq> length target then (-1, overlay target bs)
        else (0, overlay target bs))"

text \<open>
  The width variants read into a buffer on the stack and hand out what is in it, also after
  an error; \<open>junk\<close> is what the stack held.
\<close>

definition lcec_read_sdo8 :: "sdo_env \<Rightarrow> lcec_slave \<Rightarrow> u16 \<Rightarrow> u8 \<Rightarrow> u8 \<Rightarrow> int \<times> u8" where
  "lcec_read_sdo8 env s index subindex result =
     map_prod id hd (lcec_read_sdo env s index subindex [result])"

definition lcec_read_sdo16 :: "ec_macros \<Rightarrow> sdo_env \<Rightarrow> u8 list \<Rightarrow> lcec_slave \<Rightarrow> u16 \<Rightarrow> u8 \<Rightarrow> int \<times> u16" where
  "lcec_read_sdo16 ec env junk s index subindex =
     map_prod id (EC_READ_U16 ec) (lcec_read_sdo env s index subindex (take 2 junk))"

definition lcec_read_sdo32 :: "ec_macros \<Rightarrow> sdo_env \<Rightarrow> u8 list \<Rightarrow> lcec_slave \<Rightarrow> u16 \<Rightarrow> u8 \<Rightarrow> int \<times> u32" where
  "lcec_read_sdo32 ec env junk s index subindex =
     map_prod id (EC_READ_U32 ec) (lcec_read_sdo env s index subindex (take 4 junk))"

definition lcec_read_sdo8_pin_U32 :: "sdo_env \<Rightarrow> u8 \<Rightarrow> lcec_slave \<Rightarrow> u16 \<Rightarrow> u8 \<Rightarrow> int \<times> u32" where
  "lcec_read_sdo8_pin_U32 env junk s index subindex =
     map_prod id (\<lambda>d. ucast (hd d)) (lcec_read_sdo env s index subindex [junk])"

definition lcec_read_sdo8_pin_S32 :: "sdo_env \<Rightarrow> u8 \<Rightarrow> lcec_slave \<Rightarrow> u16 \<Rightarrow> u8 \<Rightarrow> int \<times> int" where
  "lcec_read_sdo8_pin_S32 env junk s index subindex =
     map_prod id (\<lambda>d. uint (hd d)) (lcec_read_sdo env s index subindex [junk])"

definition lcec_read_sdo16_pin_U32 :: "ec_macros \<Rightarrow> sdo_env \<Rightarrow> u8 list \<Rightarrow> lcec_slave \<Rightarrow> u16 \<Rightarrow> u8 \<Rightarrow> int \<times> u32" where
  "lcec_read_sdo16_pin_U32 ec env junk s index subindex =
     map_prod id (\<lambda>d. ucast (EC_READ_U16 ec d)) (lcec_read_sdo env s index subindex (take 2 junk))"

definition lcec_read_sdo16_pin_S32 :: "ec_macros \<Rightarrow> sdo_env \<Rightarrow> u8 list \<Rightarrow> lcec_slave \<Rightarrow> u16 \<Rightarrow> u8 \<Rightarrow> int \<times> int" where
  "lcec_read_sdo16_pin_S32 ec env junk s index subindex =
     map_prod id (\<lambda>d. sint (EC_READ_U16 ec d)) (lcec_read_sdo env s index subindex (take 2 junk))"

definition lcec_read_sdo32_pin_U32 :: "ec_macros \<Rightarrow> sdo_env \<Rightarrow> u8 list \<Rightarrow> lcec_slave \<Rightarrow> u16 \<Rightarrow> u8 \<Rightarrow> int \<times> u32" where
  "lcec_read_sdo32_pin_U32 ec env junk s index subindex =
     map_prod id (EC_READ_U32 ec) (lcec_read_sdo env s index subindex (take 4 junk))"

definition lcec_read_sdo32_pin_S32 :: "ec_macros \<Rightarrow> sdo_env \<Rightarrow> u8 list \<Rightarrow> lcec_slave \<Rightarrow> u16 \<Rightarrow> u8 \<Rightarrow> int \<times> int" where
  "lcec_read_sdo32_pin_S32 ec env junk s index subindex =
     map_prod id (\<lambda>d. sint (EC_READ_U32 ec d)) (lcec_read_sdo env s index subindex (take 4 junk))"

definition lcec_read_idn :: "sdo_env \<Rightarrow> lcec_slave \<Rightarrow> u8 \<Rightarrow> u16 \<Rightarrow> u8 list \<Rightarrow> int \<times> u8 list" where
  "lcec_read_idn env s drive_no idn target =
     (case se_read_idn env (sl_index s) drive_no idn (length target) of (err, bs, result_size) \<Rightarrow>
        if err \<noteq> 0 then (-1, overlay target bs)
        else if result_size \<noteq> length target then (-1, overlay target bs)
        else (0, overlay target bs))"

section \<open>Writing\<close>

definition lcec_write_sdo :: "sdo_env \<Rightarrow> lcec_slave \<Rightarrow> u16 \<Rightarrow> u8 \<Rightarrow> u8 list \<Rightarrow> sdo_call list \<times> int" where
  "lcec_write_sdo env s index subindex bs =
     (let d = SdoDownload (sl_index s) index subindex bs; c = SdoConfig (sl_index s) index subindex bs in
      if se_download env (sl_index s) index subindex bs \<noteq> 0 then ([d], -1)
      else if se_config env (sl_index s) index subindex bs \<noteq> 0 then ([d, c], -1)
      else ([d, c], 0))"

definition lcec_write_sdo8 :: "sdo_env \<Rightarrow> lcec_slave \<Rightarrow> u16 \<Rightarrow> u8 \<Rightarrow> u8 \<Rightarrow> sdo_call list \<times> int" where
  "lcec_write_sdo8 env s index subindex v = lcec_write_sdo env s index subindex [v]"

definition lcec_write_sdo16 :: "ec_macros \<Rightarrow> sdo_env \<Rightarrow> lcec_slave \<Rightarrow> u16 \<Rightarrow> u8 \<Rightarrow> u16 \<Rightarrow> sdo_call list \<times> int" where
  "lcec_write_sdo16 ec env s index subindex v = lcec_write_sdo env s index subindex (EC_WRITE_U16 ec v)"

definition lcec_write_sdo32 :: "ec_macros \<Rightarrow> sdo_env \<Rightarrow> lcec_slave \<Rightarrow> u16 \<Rightarrow> u8 \<Rightarrow> u32 \<Rightarrow> sdo_call list \<times> int" where
  "lcec_write_sdo32 ec env s index subindex v = lcec_write_sdo env s index subindex (EC_WRITE_U32 ec v)"

text \<open>The variants for module parameters differ in the message they print.\<close>

definition neg_to_fail :: "sdo_call list \<times> int \<Rightarrow> sdo_call list \<times> int" where
  "neg_to_fail = (\<lambda>(cs, r). if r < 0 then (cs, -1) else (cs, 0))"

definition lcec_write_sdo8_modparam :: "sdo_env \<Rightarrow> lcec_slave \<Rightarrow> u16 \<Rightarrow> u8 \<Rightarrow> u8 \<Rightarrow> sdo_call list \<times> int" where
  "lcec_write_sdo8_modparam env s index subindex v = neg_to_fail (lcec_write_sdo8 env s index subindex v)"

definition lcec_write_sdo16_modparam :: "ec_macros \<Rightarrow> sdo_env \<Rightarrow> lcec_slave \<Rightarrow> u16 \<Rightarrow> u8 \<Rightarrow> u16 \<Rightarrow> sdo_call list \<times> int" where
  "lcec_write_sdo16_modparam ec env s index subindex v = neg_to_fail (lcec_write_sdo16 ec env s index subindex v)"

definition lcec_write_sdo32_modparam :: "ec_macros \<Rightarrow> sdo_env \<Rightarrow> lcec_slave \<Rightarrow> u16 \<Rightarrow> u8 \<Rightarrow> u32 \<Rightarrow> sdo_call list \<times> int" where
  "lcec_write_sdo32_modparam ec env s index subindex v = neg_to_fail (lcec_write_sdo32 ec env s index subindex v)"

section \<open>Looking up a slave\<close>

definition lcec_slave_by_index :: "lcec_slave list \<Rightarrow> int \<Rightarrow> lcec_slave option" where
  "lcec_slave_by_index ss index = List.find (\<lambda>s. sl_index s = index) ss"

section \<open>Facts\<close>

text \<open>
  A transfer is a success exactly if the bus reports none of the two errors; what was
  downloaded is what is stored for later start-ups.
\<close>

lemma read_sdo_ok:
  assumes "se_upload env (sl_index s) index subindex (length target) = (0, bs, length target)"
    and "length bs = length target"
  shows "lcec_read_sdo env s index subindex target = (0, bs)"
  using assms by (simp add: lcec_read_sdo_def overlay_full)

lemma read_sdo_ret: "fst (lcec_read_sdo env s index subindex target) \<in> {0, -1}"
  by (auto simp: lcec_read_sdo_def split: prod.splits)

lemma write_sdo_ok:
  "snd (lcec_write_sdo env s index subindex bs) = 0 \<longleftrightarrow>
     fst (lcec_write_sdo env s index subindex bs) = [SdoDownload (sl_index s) index subindex bs, SdoConfig (sl_index s) index subindex bs] \<and>
     se_download env (sl_index s) index subindex bs = 0 \<and> se_config env (sl_index s) index subindex bs = 0"
  by (auto simp: lcec_write_sdo_def Let_def)

text \<open>A value written and read back as bytes, in each width.\<close>

lemma read_sdo32_of_bytes:
  assumes "ec_le ec" and "se_upload env (sl_index s) index subindex 4 = (0, EC_WRITE_U32 ec v, 4)" and "length junk = 4"
  shows "lcec_read_sdo32 ec env junk s index subindex = (0, v)"
proof -
  have w: "EC_WRITE_U32 ec v = le_bytes 4 v" using assms(1) by (simp add: ec_le_def)
  have r: "EC_READ_U32 ec (le_bytes 4 v) = v" using assms(1) le_word_bytes [of 4 v] by (simp add: ec_le_def)
  show ?thesis using read_sdo_ok [of env s index subindex junk "le_bytes 4 v"] assms w r
    by (simp add: lcec_read_sdo32_def)
qed

lemma read_sdo16_of_bytes:
  assumes "ec_le ec" and "se_upload env (sl_index s) index subindex 2 = (0, EC_WRITE_U16 ec v, 2)" and "length junk = 2"
  shows "lcec_read_sdo16 ec env junk s index subindex = (0, v)"
proof -
  have w: "EC_WRITE_U16 ec v = le_bytes 2 v" using assms(1) by (simp add: ec_le_def)
  have r: "EC_READ_U16 ec (le_bytes 2 v) = v" using assms(1) le_word_bytes [of 2 v] by (simp add: ec_le_def)
  show ?thesis using read_sdo_ok [of env s index subindex junk "le_bytes 2 v"] assms w r
    by (simp add: lcec_read_sdo16_def)
qed

end
