(* ===== verification/BusRegs.thy ===== *)
theory BusRegs
  imports MasterData
begin

text \<open>
  The registration of process data entries of \<open>lcec_ethercat.c\<close>: a driver's init function
  records every entry it wants a position for in an array of fixed size, and
  \<open>rtapi_app_main\<close> concatenates the arrays of the slaves of a Sync Unit. The interface of
  such a log is a locale; it is interpreted on the code's array.
\<close>

section \<open>The array\<close>

datatype regs_fail =
    RegsFull        \<comment> \<open>the function prints a message and returns -1\<close>
  | RegsNull        \<comment> \<open>the slave has no array\<close>
  | RegsOverrun     \<comment> \<open>a store behind the array\<close>

definition LCEC_MAX_PDO_REG_COUNT :: nat where "LCEC_MAX_PDO_REG_COUNT = 256"

definition zero_reg :: pdo_entry_reg where
  "zero_reg = \<lparr>er_position = 0, er_vendor_id = 0, er_product_code = 0, er_index = 0, er_subindex = 0,
               er_offset = None, er_bit_position = None\<rparr>"

definition lcec_allocate_pdo_entry_reg :: "nat \<Rightarrow> pdo_entry_regs" where
  "lcec_allocate_pdo_entry_reg n = \<lparr>pr_current = 0, pr_max = n, pr_entries = replicate n zero_reg\<rparr>"

definition lcec_pdo_entry_reg_len :: "pdo_entry_regs \<Rightarrow> nat" where
  "lcec_pdo_entry_reg_len r = pr_current r"

text \<open>The store both functions end with: write the next entry and count it.\<close>

definition regs_store :: "pdo_entry_regs \<Rightarrow> pdo_entry_reg \<Rightarrow> regs_fail + pdo_entry_regs" where
  "regs_store r e =
     (if pr_current r < length (pr_entries r)
      then Inr (r\<lparr>pr_entries := (pr_entries r)[pr_current r := e], pr_current := Suc (pr_current r)\<rparr>)
      else Inl RegsOverrun)"

definition regs_push :: "pdo_entry_regs \<Rightarrow> pdo_entry_reg \<Rightarrow> regs_fail + pdo_entry_regs" where
  "regs_push r e = (if pr_current r \<ge> pr_max r then Inl RegsFull else regs_store r e)"

text \<open>The subindex is stored with the width the caller gives it.\<close>

definition lcec_pdo_init ::
    "lcec_slave \<Rightarrow> u16 \<Rightarrow> u16 \<Rightarrow> nat option \<Rightarrow> nat option \<Rightarrow> regs_fail + lcec_slave" where
  "lcec_pdo_init s idx sidx os bp =
     (case sl_regs s of
        None \<Rightarrow> Inl RegsNull
      | Some r \<Rightarrow>
          bind_res (regs_push r \<lparr>er_position = sl_index s, er_vendor_id = sl_vid s, er_product_code = sl_pid s,
                                 er_index = idx, er_subindex = sidx, er_offset = os, er_bit_position = bp\<rparr>)
            (\<lambda>r'. Inr (s\<lparr>sl_regs := Some r'\<rparr>)))"

text \<open>The loop over the used entries of the source; the check before it is made once.\<close>

definition lcec_append_pdo_entry_reg :: "pdo_entry_regs \<Rightarrow> pdo_entry_regs \<Rightarrow> regs_fail + pdo_entry_regs" where
  "lcec_append_pdo_entry_reg dest src =
     (if pr_current dest + pr_current src > pr_max dest then Inl RegsFull
      else fold_res (\<lambda>i d. regs_store d (pr_entries src ! i)) [0..<pr_current src] dest)"

section \<open>The interface of a bounded log\<close>

text \<open>
  A log has a content and a room. Pushing adds one element behind the content if there is
  room and is an error otherwise; appending adds a whole content or nothing.
\<close>

locale bounded_log =
  fixes ok :: "'r \<Rightarrow> bool" and content :: "'r \<Rightarrow> 'a list" and room :: "'r \<Rightarrow> nat"
    and push :: "'r \<Rightarrow> 'a \<Rightarrow> 'e + 'r" and append_log :: "'r \<Rightarrow> 'r \<Rightarrow> 'e + 'r"
  assumes push_fits: "ok r \<Longrightarrow> length (content r) < room r \<Longrightarrow>
      \<exists>r'. push r x = Inr r' \<and> ok r' \<and> content r' = content r @ [x] \<and> room r' = room r"
    and push_full: "ok r \<Longrightarrow> \<not> length (content r) < room r \<Longrightarrow> \<exists>e. push r x = Inl e"
    and append_fits: "ok d \<Longrightarrow> ok s \<Longrightarrow> length (content d) + length (content s) \<le> room d \<Longrightarrow>
      \<exists>d'. append_log d s = Inr d' \<and> ok d' \<and> content d' = content d @ content s \<and> room d' = room d"
    and append_full: "ok d \<Longrightarrow> ok s \<Longrightarrow> \<not> length (content d) + length (content s) \<le> room d \<Longrightarrow>
      \<exists>e. append_log d s = Inl e"
begin

lemma push_Inr:
  assumes "ok r" and "push r x = Inr r'"
  shows "ok r' \<and> content r' = content r @ [x] \<and> room r' = room r \<and> length (content r) < room r"
  using push_fits [OF assms(1), of x] push_full [OF assms(1), of x] assms(2)
  by (cases "length (content r) < room r") auto

lemma append_Inr:
  assumes "ok d" and "ok s" and "append_log d s = Inr d'"
  shows "ok d' \<and> content d' = content d @ content s \<and> room d' = room d"
  using append_fits [OF assms(1,2)] append_full [OF assms(1,2)] assms(3)
  by (cases "length (content d) + length (content s) \<le> room d") auto

text \<open>Pushing a list: all of it if it fits, an error at the first element that does not.\<close>

lemma push_all:
  assumes "ok r"
  shows "(case fold_res (\<lambda>x r. push r x) xs r of
      Inr r' \<Rightarrow> ok r' \<and> content r' = content r @ xs \<and> room r' = room r
    | Inl e \<Rightarrow> room r < length (content r) + length xs)"
  using assms
proof (induction xs arbitrary: r)
  case (Cons x xs)
  show ?case
  proof (cases "length (content r) < room r")
    case True
    obtain r' where r': "push r x = Inr r'" "ok r'" "content r' = content r @ [x]" "room r' = room r"
      using push_fits [OF Cons.prems True] by blast
    show ?thesis using Cons.IH [OF r'(2)] r' by (auto split: sum.splits)
  next
    case False
    then show ?thesis using push_full [OF Cons.prems False, of x] by auto
  qed
qed simp

text \<open>Appending a list of logs whose contents fit together gives their concatenation.\<close>

lemma append_all:
  assumes "ok d" and "\<forall>s\<in>set ss. ok s" and "length (content d) + (\<Sum>s\<leftarrow>ss. length (content s)) \<le> room d"
  shows "\<exists>d'. fold_res (\<lambda>s d. append_log d s) ss d = Inr d' \<and> ok d' \<and>
    content d' = content d @ concat (map content ss) \<and> room d' = room d"
  using assms
proof (induction ss arbitrary: d)
  case (Cons s ss)
  obtain d' where d': "append_log d s = Inr d'" "ok d'" "content d' = content d @ content s" "room d' = room d"
    using append_fits [of d s] Cons.prems by auto
  show ?case using Cons.IH [of d'] Cons.prems d' by simp
qed simp

end

section \<open>The code's array is one\<close>

text \<open>Behind the used part the array is still zeroed, which ends the list for the EtherCAT master.\<close>

definition regs_ok :: "pdo_entry_regs \<Rightarrow> bool" where
  "regs_ok r \<longleftrightarrow> pr_current r \<le> pr_max r \<and> length (pr_entries r) = pr_max r \<and>
     drop (pr_current r) (pr_entries r) = replicate (pr_max r - pr_current r) zero_reg"

definition regs_content :: "pdo_entry_regs \<Rightarrow> pdo_entry_reg list" where
  "regs_content r = take (pr_current r) (pr_entries r)"

lemma regs_content_length [simp]: "regs_ok r \<Longrightarrow> length (regs_content r) = pr_current r"
  by (simp add: regs_ok_def regs_content_def)

lemma allocate_regs [simp]:
  "regs_ok (lcec_allocate_pdo_entry_reg n)" "regs_content (lcec_allocate_pdo_entry_reg n) = []"
  "pr_max (lcec_allocate_pdo_entry_reg n) = n"
  by (simp_all add: lcec_allocate_pdo_entry_reg_def regs_ok_def regs_content_def)

lemma regs_store_spec:
  assumes "regs_ok r" and "pr_current r < pr_max r"
  obtains r' where "regs_store r e = Inr r'" and "regs_ok r'" and "regs_content r' = regs_content r @ [e]"
    and "pr_max r' = pr_max r"
proof -
  have "drop (Suc (pr_current r)) (pr_entries r) = tl (drop (pr_current r) (pr_entries r))"
    by (simp add: drop_Suc tl_drop)
  also have "\<dots> = replicate (pr_max r - Suc (pr_current r)) zero_reg"
    using assms by (simp add: regs_ok_def)
  finally show thesis
    using assms that by (simp add: regs_store_def regs_ok_def regs_content_def take_Suc_conv_app_nth)
qed

lemma regs_entries: "regs_ok r \<Longrightarrow> pr_entries r = regs_content r @ replicate (pr_max r - pr_current r) zero_reg"
  unfolding regs_ok_def regs_content_def by (metis append_take_drop_id)

lemma regs_store_fold:
  assumes "regs_ok d" and "pr_current d + n \<le> pr_max d"
  shows "\<exists>d'. fold_res (\<lambda>i d. regs_store d (f i)) [0..<n] d = Inr d' \<and> regs_ok d' \<and>
    regs_content d' = regs_content d @ map f [0..<n] \<and> pr_max d' = pr_max d"
  using assms(2)
proof (induction n)
  case 0
  then show ?case using assms(1) by simp
next
  case (Suc n)
  then obtain d' where d': "fold_res (\<lambda>i d. regs_store d (f i)) [0..<n] d = Inr d'" "regs_ok d'"
    "regs_content d' = regs_content d @ map f [0..<n]" "pr_max d' = pr_max d" by auto
  have "pr_current d' = pr_current d + n"
    using d'(2,3) assms(1) by (metis regs_content_length length_append length_map diff_zero length_upt)
  then have "pr_current d' < pr_max d'" using Suc.prems d'(4) by simp
  then obtain r where "regs_store d' (f n) = Inr r" "regs_ok r" "regs_content r = regs_content d' @ [f n]" "pr_max r = pr_max d'"
    by (rule regs_store_spec [OF d'(2)])
  then show ?case using d' by (simp add: fold_res_append)
qed

lemma append_regs_fits:
  assumes "regs_ok d" and "regs_ok s" and "pr_current d + pr_current s \<le> pr_max d"
  shows "\<exists>d'. lcec_append_pdo_entry_reg d s = Inr d' \<and> regs_ok d' \<and>
    regs_content d' = regs_content d @ regs_content s \<and> pr_max d' = pr_max d"
proof -
  have "map (\<lambda>i. pr_entries s ! i) [0..<pr_current s] = regs_content s"
    using assms(2) by (intro nth_equalityI) (simp_all add: regs_content_def regs_ok_def)
  then show ?thesis
    using regs_store_fold [OF assms(1,3), of "\<lambda>i. pr_entries s ! i"] assms(3)
    by (simp add: lcec_append_pdo_entry_reg_def)
qed

interpretation regs: bounded_log regs_ok regs_content pr_max regs_push lcec_append_pdo_entry_reg
proof
  show "\<exists>r'. regs_push r x = Inr r' \<and> regs_ok r' \<and> regs_content r' = regs_content r @ [x] \<and> pr_max r' = pr_max r"
    if "regs_ok r" "length (regs_content r) < pr_max r" for r x
    using that by (auto simp: regs_push_def elim: regs_store_spec [of r x])
  show "\<exists>d'. lcec_append_pdo_entry_reg d s = Inr d' \<and> regs_ok d' \<and>
      regs_content d' = regs_content d @ regs_content s \<and> pr_max d' = pr_max d"
    if "regs_ok d" "regs_ok s" "length (regs_content d) + length (regs_content s) \<le> pr_max d" for d s
    using that append_regs_fits by simp
qed (simp_all add: regs_push_def lcec_append_pdo_entry_reg_def)

text \<open>Registering an entry touches nothing else of the slave.\<close>

lemma pdo_init_Inr:
  assumes "lcec_pdo_init s idx sidx os bp = Inr s'" and "sl_regs s = Some r" and "regs_ok r"
  obtains r' where "s' = s\<lparr>sl_regs := Some r'\<rparr>" and "regs_ok r'" and "pr_max r' = pr_max r"
    and "regs_content r' = regs_content r @
      [\<lparr>er_position = sl_index s, er_vendor_id = sl_vid s, er_product_code = sl_pid s, er_index = idx,
        er_subindex = sidx, er_offset = os, er_bit_position = bp\<rparr>]"
  using assms by (auto simp: lcec_pdo_init_def dest!: regs.push_Inr [OF assms(3)])

end
