(* ===== verification/HalExport.thy ===== *)
theory HalExport
  imports MasterData
begin

text \<open>
  The export of HAL pins and parameters (\<open>lcec_pins.c\<close>, the parameter functions of
  \<open>lcec_ethercat.c\<close>) and the tables of the master and slave pins of \<open>lcec_main.c\<close>. HAL itself
  is an environment: the length limit of its names, and whether it accepts a new object given
  what has been exported before.
\<close>

section \<open>Names\<close>

datatype fmt_arg = FStr string | FInt int

text \<open>
  \<^verbatim>\<open>vsnprintf\<close> with the two conversions the code uses; a conversion without its argument is
  undefined behaviour, \<open>None\<close>. The value is the whole text, whatever the buffer holds of it.
\<close>

fun c_format :: "string \<Rightarrow> fmt_arg list \<Rightarrow> string option" where
  "c_format [] as = Some []"
| "c_format (c # f) as =
     (if c = CHR ''%'' then
        (case (f, as) of
           (CHR ''s'' # f', FStr s # as') \<Rightarrow> map_option ((@) s) (c_format f' as')
         | (CHR ''d'' # f', FInt i # as') \<Rightarrow> map_option ((@) (show_int i)) (c_format f' as')
         | _ \<Rightarrow> None)
      else map_option ((#) c) (c_format f as))"

section \<open>Objects\<close>

datatype hal_param_dir = HAL_RO | HAL_RW

datatype hal_kind = HalPin hal_pin_dir | HalParam hal_param_dir

text \<open>The field is the member of the structure the pin or parameter is for.\<close>

record hal_obj =
  ho_kind :: hal_kind
  ho_type :: hal_type
  ho_name :: string
  ho_field :: string
  ho_value :: "hal_val option"

record hal_env =
  he_name_len :: nat
  he_new :: "hal_obj list \<Rightarrow> hal_kind \<Rightarrow> hal_type \<Rightarrow> string \<Rightarrow> int"

definition ENOMEM :: int where "ENOMEM = 12"

fun hal_default :: "hal_type \<Rightarrow> hal_val option" where
  "hal_default HAL_BIT = Some (HvBit False)"
| "hal_default HAL_FLOAT = Some (HvFloat 0)"
| "hal_default HAL_S32 = Some (HvS32 0)"
| "hal_default HAL_U32 = Some (HvU32 0)"
| "hal_default _ = None"

text \<open>
  One object: the name is formatted and checked against the limit, the object is created and
  gets its default. The result is the error number, 0 for success, with the objects so far.
\<close>

definition hal_newfv ::
    "hal_env \<Rightarrow> hal_kind \<Rightarrow> hal_type \<Rightarrow> string \<Rightarrow> string \<Rightarrow> fmt_arg list \<Rightarrow> hal_obj list \<Rightarrow> (int \<times> hal_obj list) option" where
  "hal_newfv env kind ty field fmt as objs =
     (case c_format fmt as of
        None \<Rightarrow> None
      | Some name \<Rightarrow>
          if length name > he_name_len env then Some (- ENOMEM, objs)
          else
            let err = he_new env objs kind ty name in
            if err \<noteq> 0 then Some (err, objs)
            else Some (0, objs @ [\<lparr>ho_kind = kind, ho_type = ty, ho_name = name, ho_field = field,
                                   ho_value = hal_default ty\<rparr>]))"

definition lcec_pin_newf ::
    "hal_env \<Rightarrow> hal_type \<Rightarrow> hal_pin_dir \<Rightarrow> string \<Rightarrow> string \<Rightarrow> fmt_arg list \<Rightarrow> hal_obj list \<Rightarrow> (int \<times> hal_obj list) option" where
  "lcec_pin_newf env ty dir field fmt as objs = hal_newfv env (HalPin dir) ty field fmt as objs"

definition lcec_param_newf ::
    "hal_env \<Rightarrow> hal_type \<Rightarrow> hal_param_dir \<Rightarrow> string \<Rightarrow> string \<Rightarrow> fmt_arg list \<Rightarrow> hal_obj list \<Rightarrow> (int \<times> hal_obj list) option" where
  "lcec_param_newf env ty dir field fmt as objs = hal_newfv env (HalParam dir) ty field fmt as objs"

section \<open>Tables\<close>

record pindesc =
  pd_type :: hal_type
  pd_dir :: hal_pin_dir
  pd_offset :: string
  pd_fmt :: string

record paramdesc =
  qd_type :: hal_type
  qd_dir :: hal_param_dir
  qd_offset :: string
  qd_fmt :: string

text \<open>The loop over a table ends at the unspecified type; a table without one is not allowed.\<close>

fun lcec_pin_newf_list ::
    "hal_env \<Rightarrow> pindesc list \<Rightarrow> fmt_arg list \<Rightarrow> hal_obj list \<Rightarrow> (int \<times> hal_obj list) option" where
  "lcec_pin_newf_list env [] as objs = None"
| "lcec_pin_newf_list env (p # ps) as objs =
     (if pd_type p = HAL_TYPE_UNSPECIFIED then Some (0, objs)
      else case lcec_pin_newf env (pd_type p) (pd_dir p) (pd_offset p) (pd_fmt p) as objs of
          None \<Rightarrow> None
        | Some (err, objs') \<Rightarrow> if err \<noteq> 0 then Some (err, objs') else lcec_pin_newf_list env ps as objs')"

fun lcec_param_newf_list ::
    "hal_env \<Rightarrow> paramdesc list \<Rightarrow> fmt_arg list \<Rightarrow> hal_obj list \<Rightarrow> (int \<times> hal_obj list) option" where
  "lcec_param_newf_list env [] as objs = None"
| "lcec_param_newf_list env (p # ps) as objs =
     (if qd_type p = HAL_TYPE_UNSPECIFIED then Some (0, objs)
      else case lcec_param_newf env (qd_type p) (qd_dir p) (qd_offset p) (qd_fmt p) as objs of
          None \<Rightarrow> None
        | Some (err, objs') \<Rightarrow> if err \<noteq> 0 then Some (err, objs') else lcec_param_newf_list env ps as objs')"

definition pin_row :: "hal_type \<Rightarrow> hal_pin_dir \<Rightarrow> string \<Rightarrow> string \<Rightarrow> pindesc" where
  "pin_row ty dir field fmt = \<lparr>pd_type = ty, pd_dir = dir, pd_offset = field, pd_fmt = fmt\<rparr>"

definition param_row :: "hal_type \<Rightarrow> hal_param_dir \<Rightarrow> string \<Rightarrow> string \<Rightarrow> paramdesc" where
  "param_row ty dir field fmt = \<lparr>qd_type = ty, qd_dir = dir, qd_offset = field, qd_fmt = fmt\<rparr>"

definition pin_end :: pindesc where "pin_end = pin_row HAL_TYPE_UNSPECIFIED HAL_DIR_UNSPECIFIED [] []"

definition master_global_pins :: "pindesc list" where
  "master_global_pins =
     [pin_row HAL_U32 HAL_OUT ''slaves_responding'' ''%s.slaves-responding'',
      pin_row HAL_BIT HAL_OUT ''state_init'' ''%s.state-init'',
      pin_row HAL_BIT HAL_OUT ''state_preop'' ''%s.state-preop'',
      pin_row HAL_BIT HAL_OUT ''state_safeop'' ''%s.state-safeop'',
      pin_row HAL_BIT HAL_OUT ''state_op'' ''%s.state-op'',
      pin_row HAL_BIT HAL_OUT ''link_up'' ''%s.link-up'',
      pin_row HAL_BIT HAL_OUT ''all_op'' ''%s.all-op'',
      pin_end]"

definition master_pins :: "pindesc list" where
  "master_pins =
     [pin_row HAL_S32 HAL_OUT ''pll_err'' ''%s.pll-err'',
      pin_row HAL_S32 HAL_OUT ''pll_out'' ''%s.pll-out'',
      pin_row HAL_U32 HAL_OUT ''pll_reset_cnt'' ''%s.pll-reset-count'',
      pin_row HAL_S32 HAL_OUT ''app_phase'' ''%s.app-phase'',
      pin_row HAL_BIT HAL_OUT ''dc_phased'' ''%s.dc-phased'',
      pin_row HAL_S32 HAL_OUT ''phase_jitter_out'' ''%s.phase-jitter'',
      pin_row HAL_S32 HAL_IN ''drift_mode'' ''%s.drift-mode'',
      pin_row HAL_S32 HAL_IN ''pll_drift'' ''%s.pll-drift'',
      pin_row HAL_S32 HAL_OUT ''pll_final'' ''%s.pll-final'',
      pin_row HAL_S32 HAL_OUT ''dc_ref_err'' ''%s.dc-ref-err'',
      pin_row HAL_U32 HAL_OUT ''wkc'' ''%s.wkc'',
      pin_row HAL_U32 HAL_OUT ''wkc_min'' ''%s.wkc-min'',
      pin_row HAL_U32 HAL_OUT ''wkc_change_cnt'' ''%s.wkc-change-count'',
      pin_row HAL_S32 HAL_OUT ''wkc_state'' ''%s.wkc-state'',
      pin_row HAL_BIT HAL_IO ''wkc_reset'' ''%s.wkc-reset'',
      pin_row HAL_U32 HAL_OUT ''app_time_lo'' ''%s.app-time-lo'',
      pin_row HAL_U32 HAL_OUT ''app_time_hi'' ''%s.app-time-hi'',
      pin_row HAL_U32 HAL_OUT ''mono_time_lo'' ''%s.mono-time-lo'',
      pin_row HAL_U32 HAL_OUT ''mono_time_hi'' ''%s.mono-time-hi'',
      pin_row HAL_U32 HAL_OUT ''dc_sync_diff'' ''%s.dc-sync-diff'',
      pin_row HAL_BIT HAL_OUT ''dc_sync_converged'' ''%s.dc-sync-converged'',
      pin_end]"

definition master_params :: "paramdesc list" where
  "master_params =
     [param_row HAL_U32 HAL_RW ''pll_step'' ''%s.pll-step'',
      param_row HAL_U32 HAL_RW ''pll_max_err'' ''%s.pll-max-err'',
      param_row HAL_U32 HAL_RW ''dc_sync_max'' ''%s.dc-sync-max'',
      param_row HAL_BIT HAL_RW ''dc_sync_monitor'' ''%s.dc-sync-monitor'',
      param_row HAL_TYPE_UNSPECIFIED HAL_RO [] []]"

definition slave_pins :: "pindesc list" where
  "slave_pins =
     [pin_row HAL_BIT HAL_OUT ''online'' ''%s.%s.%s.slave-online'',
      pin_row HAL_BIT HAL_OUT ''operational'' ''%s.%s.%s.slave-oper'',
      pin_row HAL_BIT HAL_OUT ''state_init'' ''%s.%s.%s.slave-state-init'',
      pin_row HAL_BIT HAL_OUT ''state_preop'' ''%s.%s.%s.slave-state-preop'',
      pin_row HAL_BIT HAL_OUT ''state_safeop'' ''%s.%s.%s.slave-state-safeop'',
      pin_row HAL_BIT HAL_OUT ''state_op'' ''%s.%s.%s.slave-state-op'',
      pin_end]"

section \<open>The HAL blocks of masters and slaves\<close>

text \<open>A \<open>None\<close> inside is the \<open>NULL\<close> of a failed export. The build has \<open>RTAPI_TASK_PLL_SUPPORT\<close>.\<close>

definition lcec_init_master_hal ::
    "hal_env \<Rightarrow> string \<Rightarrow> bool \<Rightarrow> hal_obj list \<Rightarrow> (master_hal option \<times> hal_obj list) option" where
  "lcec_init_master_hal env pfx glob objs =
     Option.bind (lcec_pin_newf_list env master_global_pins [FStr pfx] objs) (\<lambda>(err, objs1).
       if err \<noteq> 0 then Some (None, objs1)
       else if glob then Some (Some zero_master_hal, objs1)
       else Option.bind (lcec_pin_newf_list env master_pins [FStr pfx] objs1) (\<lambda>(err, objs2).
         if err \<noteq> 0 then Some (None, objs2)
         else Option.bind (lcec_param_newf_list env master_params [FStr pfx] objs2) (\<lambda>(err, objs3).
           if err \<noteq> 0 then Some (None, objs3) else Some (Some zero_master_hal, objs3))))"

definition zero_slave_state_hal :: slave_state_hal where
  "zero_slave_state_hal = \<lparr>hs_online = False, hs_operational = False, hs_state_init = False, hs_state_preop = False,
                           hs_state_safeop = False, hs_state_op = False\<rparr>"

definition LCEC_MODULE_NAME :: string where "LCEC_MODULE_NAME = ''lcec''"

definition lcec_init_slave_state_hal ::
    "hal_env \<Rightarrow> string \<Rightarrow> string \<Rightarrow> hal_obj list \<Rightarrow> (slave_state_hal option \<times> hal_obj list) option" where
  "lcec_init_slave_state_hal env master_name slave_name objs =
     map_option (\<lambda>(err, objs'). (if err \<noteq> 0 then None else Some zero_slave_state_hal, objs'))
       (lcec_pin_newf_list env slave_pins [FStr LCEC_MODULE_NAME, FStr master_name, FStr slave_name] objs)"

section \<open>The interface of a table export\<close>

text \<open>
  Both kinds of tables are exported row by row until the unspecified type: a row adds its
  object or nothing, and the first error ends the loop.
\<close>

locale table_export =
  fixes ty :: "'r \<Rightarrow> hal_type" and obj :: "fmt_arg list \<Rightarrow> 'r \<Rightarrow> hal_obj"
    and newf :: "hal_env \<Rightarrow> 'r \<Rightarrow> fmt_arg list \<Rightarrow> hal_obj list \<Rightarrow> (int \<times> hal_obj list) option"
    and run :: "hal_env \<Rightarrow> 'r list \<Rightarrow> fmt_arg list \<Rightarrow> hal_obj list \<Rightarrow> (int \<times> hal_obj list) option"
  assumes newf_ok: "newf env r as objs = Some (0, objs') \<Longrightarrow>
      objs' = objs @ [obj as r] \<and> length (ho_name (obj as r)) \<le> he_name_len env"
    and newf_err: "newf env r as objs = Some (err, objs') \<Longrightarrow> err \<noteq> 0 \<Longrightarrow> objs' = objs"
    and run_Nil: "run env [] as objs = None"
    and run_Cons: "run env (r # rs) as objs =
      (if ty r = HAL_TYPE_UNSPECIFIED then Some (0, objs)
       else case newf env r as objs of None \<Rightarrow> None
        | Some (err, objs') \<Rightarrow> if err \<noteq> 0 then Some (err, objs') else run env rs as objs')"
begin

definition rows :: "'r list \<Rightarrow> 'r list" where
  "rows rs = takeWhile (\<lambda>r. ty r \<noteq> HAL_TYPE_UNSPECIFIED) rs"

lemma run_ok:
  "run env rs as objs = Some (0, objs') \<Longrightarrow>
   objs' = objs @ map (obj as) (rows rs) \<and> (\<forall>r\<in>set (rows rs). length (ho_name (obj as r)) \<le> he_name_len env)"
proof (induction rs arbitrary: objs)
  case (Cons r rs)
  show ?case
  proof (cases "ty r = HAL_TYPE_UNSPECIFIED")
    case False
    then obtain o1 where "newf env r as objs = Some (0, o1)" and o1: "run env rs as o1 = Some (0, objs')"
      using Cons.prems by (auto simp: run_Cons split: option.splits if_splits)
    then show ?thesis using newf_ok Cons.IH [OF o1] False by (auto simp: rows_def)
  qed (use Cons.prems in \<open>auto simp: run_Cons rows_def\<close>)
qed (simp add: run_Nil)

lemma run_err:
  "run env rs as objs = Some (err, objs') \<Longrightarrow> err \<noteq> 0 \<Longrightarrow>
   \<exists>n < length (rows rs). objs' = objs @ map (obj as) (take n (rows rs))"
proof (induction rs arbitrary: objs)
  case (Cons r rs)
  have ty: "ty r \<noteq> HAL_TYPE_UNSPECIFIED" using Cons.prems by (auto simp: run_Cons split: if_splits)
  then obtain e o1 where n: "newf env r as objs = Some (e, o1)" using Cons.prems by (auto simp: run_Cons split: option.splits)
  show ?case
  proof (cases "e = 0")
    case True
    then obtain k where "k < length (rows rs)" "objs' = o1 @ map (obj as) (take k (rows rs))"
      using Cons ty n by (auto simp: run_Cons)
    then show ?thesis using newf_ok n True ty by (intro exI [of _ "Suc k"]) (auto simp: rows_def)
  next
    case False
    then show ?thesis using Cons.prems ty n newf_err [OF n] by (auto simp: run_Cons rows_def intro!: exI [of _ 0])
  qed
qed (simp add: run_Nil)

end

section \<open>Both exports are instances\<close>

definition named_obj :: "hal_kind \<Rightarrow> hal_type \<Rightarrow> string \<Rightarrow> string \<Rightarrow> fmt_arg list \<Rightarrow> hal_obj" where
  "named_obj kind ty field fmt as =
     \<lparr>ho_kind = kind, ho_type = ty, ho_name = the (c_format fmt as), ho_field = field, ho_value = hal_default ty\<rparr>"

definition pin_obj :: "fmt_arg list \<Rightarrow> pindesc \<Rightarrow> hal_obj" where
  "pin_obj as p = named_obj (HalPin (pd_dir p)) (pd_type p) (pd_offset p) (pd_fmt p) as"

definition param_obj :: "fmt_arg list \<Rightarrow> paramdesc \<Rightarrow> hal_obj" where
  "param_obj as p = named_obj (HalParam (qd_dir p)) (qd_type p) (qd_offset p) (qd_fmt p) as"

lemma hal_newfv_ok:
  "hal_newfv env kind ty field fmt as objs = Some (0, objs') \<Longrightarrow>
   objs' = objs @ [named_obj kind ty field fmt as] \<and> length (ho_name (named_obj kind ty field fmt as)) \<le> he_name_len env"
  by (auto simp: hal_newfv_def named_obj_def ENOMEM_def Let_def not_less split: option.splits if_splits)

lemma hal_newfv_err: "hal_newfv env kind ty field fmt as objs = Some (err, objs') \<Longrightarrow> err \<noteq> 0 \<Longrightarrow> objs' = objs"
  by (auto simp: hal_newfv_def Let_def split: option.splits if_splits)

interpretation pins: table_export pd_type pin_obj
    "\<lambda>env p as objs. lcec_pin_newf env (pd_type p) (pd_dir p) (pd_offset p) (pd_fmt p) as objs" lcec_pin_newf_list
  by unfold_locales (auto simp: lcec_pin_newf_def pin_obj_def dest: hal_newfv_ok hal_newfv_err)

interpretation params: table_export qd_type param_obj
    "\<lambda>env p as objs. lcec_param_newf env (qd_type p) (qd_dir p) (qd_offset p) (qd_fmt p) as objs" lcec_param_newf_list
  by unfold_locales (auto simp: lcec_param_newf_def param_obj_def dest: hal_newfv_ok hal_newfv_err)

section \<open>What the tables export\<close>

lemma pin_rows [simp]:
  "pins.rows (pin_row ty d f fmt # rs) = (if ty = HAL_TYPE_UNSPECIFIED then [] else pin_row ty d f fmt # pins.rows rs)"
  by (simp add: pins.rows_def pin_row_def)

lemma param_rows [simp]:
  "params.rows (param_row ty d f fmt # rs) = (if ty = HAL_TYPE_UNSPECIFIED then [] else param_row ty d f fmt # params.rows rs)"
  by (simp add: params.rows_def param_row_def)

lemma row_obj_name [simp]:
  "ho_name (pin_obj as (pin_row ty d f fmt)) = the (c_format fmt as)"
  "ho_name (param_obj as (param_row ty d' f fmt)) = the (c_format fmt as)"
  by (simp_all add: pin_obj_def param_obj_def pin_row_def param_row_def named_obj_def)

definition master_objs :: "string \<Rightarrow> bool \<Rightarrow> hal_obj list" where
  "master_objs pfx glob =
     map (pin_obj [FStr pfx]) (pins.rows master_global_pins) @
     (if glob then [] else map (pin_obj [FStr pfx]) (pins.rows master_pins) @
                           map (param_obj [FStr pfx]) (params.rows master_params))"

definition slave_objs :: "string \<Rightarrow> string \<Rightarrow> hal_obj list" where
  "slave_objs mname sname = map (pin_obj [FStr LCEC_MODULE_NAME, FStr mname, FStr sname]) (pins.rows slave_pins)"

lemma init_master_hal_ok:
  assumes "lcec_init_master_hal env pfx glob objs = Some (Some h, objs')"
  shows "h = zero_master_hal \<and> objs' = objs @ master_objs pfx glob"
  using assms
  by (auto simp: lcec_init_master_hal_def master_objs_def bind_eq_Some_conv split: if_splits
      dest!: pins.run_ok params.run_ok)

lemma init_slave_hal_ok:
  assumes "lcec_init_slave_state_hal env mname sname objs = Some (Some h, objs')"
  shows "h = zero_slave_state_hal \<and> objs' = objs @ slave_objs mname sname"
  using assms
  by (auto simp: lcec_init_slave_state_hal_def slave_objs_def split: if_splits dest!: pins.run_ok)

end
