(* ===== verification/GenericDev.thy ===== *)
theory GenericDev
  imports BusRegs BusData HalExport
begin

text \<open>
  The driver of generic slaves (\<open>devices/lcec_generic.c\<close>): its pins are described by the
  configuration, and its values lie anywhere in the process data, at any bit and with any
  length. Besides the four access functions, whose two ways of access are shown to agree,
  the theory models the init, read and write functions over all pins.
\<close>

section \<open>Integers in the process data\<close>

text \<open>\<open>((os << 3) | (bp & 7)) + bitOffset\<close>, computed unsigned and kept in an \<open>int\<close>.\<close>

definition generic_offset :: "generic_pin \<Rightarrow> int" where
  "generic_offset p =
     s32 (uint ((push_bit 3 (gp_pdo_os p) OR (gp_pdo_bp p AND 7)) + ucast (gp_bitOffset p)))"

definition generic_aligned :: "generic_pin \<Rightarrow> bool" where
  "generic_aligned p \<longleftrightarrow> gp_pdo_bp p = 0 \<and> gp_bitOffset p = 0"

definition lcec_generic_read_s32 :: "ec_macros \<Rightarrow> u8 list \<Rightarrow> generic_pin \<Rightarrow> int option" where
  "lcec_generic_read_s32 ec pd p =
     (let os = unat (gp_pdo_os p); len = gp_bitLength p in
      if generic_aligned p \<and> len = 8 then map_option (\<lambda>bs. sint (hd bs)) (pd_load pd os 1)
      else if generic_aligned p \<and> len = 16 then map_option (\<lambda>bs. sint (EC_READ_U16 ec bs)) (pd_load pd os 2)
      else if generic_aligned p \<and> len = 32 then map_option (\<lambda>bs. sint (EC_READ_U32 ec bs)) (pd_load pd os 4)
      else map_option (\<lambda>v. if len = 8 then sint (ucast v :: u8) else if len = 16 then sint (ucast v :: u16) else sint v)
             (read_bits ec pd (generic_offset p) 0 (unat len) 0))"

definition lcec_generic_read_u32 :: "ec_macros \<Rightarrow> u8 list \<Rightarrow> generic_pin \<Rightarrow> u32 option" where
  "lcec_generic_read_u32 ec pd p =
     (let os = unat (gp_pdo_os p); len = gp_bitLength p in
      if generic_aligned p \<and> len = 8 then map_option (\<lambda>bs. ucast (hd bs)) (pd_load pd os 1)
      else if generic_aligned p \<and> len = 16 then map_option (\<lambda>bs. ucast (EC_READ_U16 ec bs)) (pd_load pd os 2)
      else if generic_aligned p \<and> len = 32 then map_option (EC_READ_U32 ec) (pd_load pd os 4)
      else read_bits ec pd (generic_offset p) 0 (unat len) 0)"

text \<open>The value is limited to the range of the length first.\<close>

definition clamp_s32 :: "nat \<Rightarrow> int \<Rightarrow> int" where
  "clamp_s32 len v =
     (let lim = s32 (2 ^ len div 2 - 1);
          v = (if v > lim then lim else v);
          lim = - lim - 1
      in if v < lim then lim else v)"

definition clamp_u32 :: "nat \<Rightarrow> u32 \<Rightarrow> u32" where
  "clamp_u32 len v = (let lim = word_of_int (2 ^ len - 1) in if v > lim then lim else v)"

definition lcec_generic_write_s32 :: "ec_macros \<Rightarrow> u8 list \<Rightarrow> generic_pin \<Rightarrow> int \<Rightarrow> u8 list option" where
  "lcec_generic_write_s32 ec pd p v0 =
     (let os = unat (gp_pdo_os p); len = gp_bitLength p; v = clamp_s32 (unat len) v0 in
      if generic_aligned p \<and> len = 8 then pd_store pd os [word_of_int v]
      else if generic_aligned p \<and> len = 16 then pd_store pd os (EC_WRITE_U16 ec (word_of_int v))
      else if generic_aligned p \<and> len = 32 then pd_store pd os (EC_WRITE_U32 ec (word_of_int v))
      else write_bits ec (generic_offset p) (unat len) v pd)"

definition lcec_generic_write_u32 :: "ec_macros \<Rightarrow> u8 list \<Rightarrow> generic_pin \<Rightarrow> u32 \<Rightarrow> u8 list option" where
  "lcec_generic_write_u32 ec pd p v0 =
     (let os = unat (gp_pdo_os p); len = gp_bitLength p; v = clamp_u32 (unat len) v0 in
      if generic_aligned p \<and> len = 8 then pd_store pd os [ucast v]
      else if generic_aligned p \<and> len = 16 then pd_store pd os (EC_WRITE_U16 ec (ucast v))
      else if generic_aligned p \<and> len = 32 then pd_store pd os (EC_WRITE_U32 ec v)
      else write_bits ec (generic_offset p) (unat len) (uint v) pd)"

section \<open>The position of a value\<close>

definition generic_pos :: "generic_pin \<Rightarrow> nat" where
  "generic_pos p = 8 * unat (gp_pdo_os p) + unat (gp_pdo_bp p) mod 8 + unat (gp_bitOffset p)"

definition generic_in :: "u8 list \<Rightarrow> generic_pin \<Rightarrow> bool" where
  "generic_in pd p \<longleftrightarrow> generic_pos p + unat (gp_bitLength p) \<le> 8 * length pd \<and> generic_pos p < 2147483648"

lemma generic_offset_pos:
  assumes "generic_pos p < 2147483648"
  shows "generic_offset p = int (generic_pos p)"
proof -
  let ?a = "push_bit 3 (gp_pdo_os p)" and ?b = "gp_pdo_bp p AND 7"
  have b: "?b = take_bit 3 (gp_pdo_bp p)" by (simp add: take_bit_eq_mask mask_eq_exp_minus_1)
  have "\<not> bit ?a n \<or> \<not> bit ?b n" for n by (auto simp: b bit_push_bit_iff bit_take_bit_iff)
  then have or: "?a OR ?b = ?a + ?b" by (simp add: disjunctive_add)
  have "unat (gp_pdo_os p) < 268435456" using assms by (simp add: generic_pos_def)
  then have "uint (gp_pdo_os p) < 268435456" by (simp only: unat_eq_nat_uint nat_less_iff uint_ge_0)
  then have "uint (gp_pdo_os p) * 8 mod 4294967296 = uint (gp_pdo_os p) * 8"
    by (intro mod_pos_pos_trivial mult_nonneg_nonneg uint_ge_0) simp_all
  then have ua: "uint ?a = 8 * uint (gp_pdo_os p)"
    by (simp add: push_bit_eq_mult uint_word_ariths)
  have ub: "uint ?b = uint (gp_pdo_bp p) mod 8" by (simp add: b unsigned_take_bit_eq take_bit_eq_mod uint_mod)
  have uc: "uint (ucast (gp_bitOffset p) :: u32) = uint (gp_bitOffset p)" by (simp add: uint_up_ucast is_up)
  have pos: "int (generic_pos p) = 8 * uint (gp_pdo_os p) + uint (gp_pdo_bp p) mod 8 + uint (gp_bitOffset p)"
    by (simp add: generic_pos_def zmod_int)
  have lim: "int (generic_pos p) < 2147483648" using assms by simp
  have n: "0 \<le> uint (gp_bitOffset p)" "0 \<le> uint (gp_pdo_bp p) mod 8" by simp_all
  have s1: "uint (?a + ?b) = 8 * uint (gp_pdo_os p) + uint (gp_pdo_bp p) mod 8"
    using iffD1 [OF uint_add_lem, of ?a ?b] lim n unfolding ua ub pos by simp
  have "uint (?a + ?b + ucast (gp_bitOffset p)) = int (generic_pos p)"
    using iffD1 [OF uint_add_lem, of "?a + ?b" "ucast (gp_bitOffset p)"] lim unfolding s1 uc pos by simp
  then show ?thesis using assms by (simp add: generic_offset_def or in_s32_def)
qed

section \<open>Both ways of access agree\<close>

text \<open>A word read has the bits at the position, whichever way it is read.\<close>

lemma read_bits_run:
  assumes "ec_le ec" and "generic_in pd p" and "unat (gp_bitLength p) \<le> 32"
  shows "\<exists>w. read_bits ec pd (generic_offset p) 0 (unat (gp_bitLength p)) 0 = Some w \<and>
    (\<forall>k. bit w k \<longleftrightarrow> k < unat (gp_bitLength p) \<and> pd_bit pd (generic_pos p + k))"
proof -
  have pos: "generic_pos p < 2147483648" "generic_pos p + unat (gp_bitLength p) \<le> 8 * length pd"
    using assms(2) by (simp_all add: generic_in_def)
  obtain w where w: "read_bits ec pd (int (generic_pos p)) 0 (unat (gp_bitLength p)) 0 = Some w"
    "\<forall>k < 32. bit w k = (k < unat (gp_bitLength p) \<and> pd_bit pd (generic_pos p + k))"
    using read_bits_spec [OF assms(1) pos(2), of 0 0] assms(3) by auto
  have "bit w k \<longleftrightarrow> k < unat (gp_bitLength p) \<and> pd_bit pd (generic_pos p + k)" for k
  proof (cases "k < 32")
    case False
    then show ?thesis using assms(3) by (auto dest: bit_imp_le_length)
  qed (use w(2) in blast)
  then show ?thesis using w(1) by (simp add: generic_offset_pos [OF pos(1)])
qed

lemma aligned_pos: "generic_aligned p \<Longrightarrow> generic_pos p = 8 * unat (gp_pdo_os p)"
  by (simp add: generic_aligned_def generic_pos_def)

lemma aligned_load:
  assumes "generic_aligned p" and "generic_in pd p" and "unat (gp_bitLength p) = 8 * n"
  obtains bs where "pd_load pd (unat (gp_pdo_os p)) n = Some bs" and "length bs = n"
    and "\<forall>k < 8 * n. bit (bs ! (k div 8)) (k mod 8) = pd_bit pd (generic_pos p + k)"
proof -
  have "unat (gp_pdo_os p) + n \<le> length pd"
    using assms aligned_pos [OF assms(1)] by (simp add: generic_in_def)
  then obtain bs where bs: "pd_load pd (unat (gp_pdo_os p)) n = Some bs" "length bs = n" by (simp add: pd_load_def)
  then show thesis using that pd_load_bit [OF bs(1)] aligned_pos [OF assms(1)] by simp
qed

lemma generic_read_u32_spec:
  assumes "ec_le ec" and "generic_in pd p" and "unat (gp_bitLength p) \<le> 32"
  obtains w where "lcec_generic_read_u32 ec pd p = Some w"
    and "\<And>k. bit w k \<longleftrightarrow> k < unat (gp_bitLength p) \<and> pd_bit pd (generic_pos p + k)"
proof -
  obtain w where w: "read_bits ec pd (generic_offset p) 0 (unat (gp_bitLength p)) 0 = Some w"
    "\<And>k. bit w k \<longleftrightarrow> k < unat (gp_bitLength p) \<and> pd_bit pd (generic_pos p + k)"
    using read_bits_run [OF assms] by auto
  have "lcec_generic_read_u32 ec pd p = Some w"
  proof (cases "generic_aligned p \<and> (gp_bitLength p = 8 \<or> gp_bitLength p = 16 \<or> gp_bitLength p = 32)")
    case False
    then show ?thesis using w(1) by (auto simp: lcec_generic_read_u32_def Let_def)
  next
    case True
    then have al: "generic_aligned p" by simp
    from True consider "gp_bitLength p = 8" | "gp_bitLength p = 16" | "gp_bitLength p = 32" by blast
    then show ?thesis
    proof cases
      case 1
      then have "unat (gp_bitLength p) = 8 * 1" by simp
      then obtain bs where bs: "pd_load pd (unat (gp_pdo_os p)) 1 = Some bs" "length bs = 1"
        "\<forall>k < 8 * 1. bit (bs ! (k div 8)) (k mod 8) = pd_bit pd (generic_pos p + k)"
        by (rule aligned_load [OF al assms(2)])
      then obtain b where b: "bs = [b]" by (auto simp: length_Suc_conv)
      have "bit b k \<Longrightarrow> k < 8" for k using bit_imp_le_length [of b k] by simp
      note b8 = this
      have "ucast b = w" by (rule bit_word_eqI) (use b8 bs(3) w(2) 1 in \<open>auto simp: b bit_ucast_iff\<close>)
      then show ?thesis using al 1 bs(1) by (simp add: lcec_generic_read_u32_def b)
    next
      case 2
      then have "unat (gp_bitLength p) = 8 * 2" by simp
      then obtain bs where bs: "pd_load pd (unat (gp_pdo_os p)) 2 = Some bs" "length bs = 2"
        "\<forall>k < 8 * 2. bit (bs ! (k div 8)) (k mod 8) = pd_bit pd (generic_pos p + k)"
        by (rule aligned_load [OF al assms(2)])
      have "ucast (le_word bs :: u16) = w" by (rule bit_word_eqI) (use bs w(2) 2 in \<open>auto simp: bit_ucast_iff bit_le_word\<close>)
      then show ?thesis using al 2 bs(1,2) assms(1) by (simp add: lcec_generic_read_u32_def ec_le_def)
    next
      case 3
      then have "unat (gp_bitLength p) = 8 * 4" by simp
      then obtain bs where bs: "pd_load pd (unat (gp_pdo_os p)) 4 = Some bs" "length bs = 4"
        "\<forall>k < 8 * 4. bit (bs ! (k div 8)) (k mod 8) = pd_bit pd (generic_pos p + k)"
        by (rule aligned_load [OF al assms(2)])
      have "le_word bs = w" by (rule bit_word_eqI) (use bs w(2) 3 in \<open>auto simp: bit_le_word\<close>)
      then show ?thesis using al 3 bs(1,2) assms(1) by (simp add: lcec_generic_read_u32_def ec_le_def)
    qed
  qed
  then show thesis using w(2) by (rule that)
qed

text \<open>The signed reader reads the same word and extends its sign for two lengths besides the full one.\<close>

definition generic_signed :: "nat \<Rightarrow> u32 \<Rightarrow> int" where
  "generic_signed len w = (if len = 8 then sint (ucast w :: u8) else if len = 16 then sint (ucast w :: u16) else sint w)"

lemma generic_read_s32_u32:
  assumes "ec_le ec" and "generic_in pd p" and "unat (gp_bitLength p) \<le> 32"
  shows "lcec_generic_read_s32 ec pd p = map_option (generic_signed (unat (gp_bitLength p))) (lcec_generic_read_u32 ec pd p)"
proof -
  have len: "unat (gp_bitLength p) = 8 \<longleftrightarrow> gp_bitLength p = 8" "unat (gp_bitLength p) = 16 \<longleftrightarrow> gp_bitLength p = 16"
    by (simp_all add: word_unat_eq_iff)
  have "ucast (ucast b :: u32) = b" for b :: u8 by (rule bit_word_eqI) (simp add: bit_ucast_iff)
  moreover have "ucast (ucast b :: u32) = b" for b :: u16 by (rule bit_word_eqI) (simp add: bit_ucast_iff)
  ultimately show ?thesis
    unfolding lcec_generic_read_s32_def lcec_generic_read_u32_def generic_signed_def len
    by (simp add: option.map_comp comp_def Let_def)
qed

text \<open>A write puts the low bits of the limited value at the position and leaves all others.\<close>

definition pd_put :: "u8 list \<Rightarrow> nat \<Rightarrow> nat \<Rightarrow> int \<Rightarrow> u8 list \<Rightarrow> bool" where
  "pd_put pd pos n v pd' \<longleftrightarrow> length pd' = length pd \<and>
     (\<forall>j < 8 * length pd. pd_bit pd' j = (if pos \<le> j \<and> j < pos + n then bit v (j - pos) else pd_bit pd j))"

lemma write_bits_run:
  assumes "ec_le ec" and "generic_in pd p"
  shows "\<exists>pd'. write_bits ec (generic_offset p) (unat (gp_bitLength p)) v pd = Some pd' \<and>
    pd_put pd (generic_pos p) (unat (gp_bitLength p)) v pd'"
  using write_bits_spec [OF assms(1), of "generic_pos p" "unat (gp_bitLength p)" pd v] assms(2)
  by (simp add: generic_in_def generic_offset_pos pd_put_def)

lemma aligned_store:
  assumes "generic_aligned p" and "generic_in pd p" and "unat (gp_bitLength p) = 8 * n" and "LENGTH('a::len) = 8 * n"
  shows "\<exists>pd'. pd_store pd (unat (gp_pdo_os p)) (le_bytes n (word_of_int v :: 'a word)) = Some pd' \<and>
    pd_put pd (generic_pos p) (unat (gp_bitLength p)) v pd'"
proof -
  have "unat (gp_pdo_os p) + n \<le> length pd"
    using assms(2,3) aligned_pos [OF assms(1)] by (simp add: generic_in_def)
  from pd_store_spec [OF this, of "word_of_int v :: 'a word"] show ?thesis
    using assms(3,4) by (auto simp: pd_put_def aligned_pos [OF assms(1)] bit_word_of_int_iff)
qed

lemma single_byte: "[w] = le_bytes 1 (w :: u8)"
  by (simp add: le_bytes_def)

lemma generic_write_spec:
  assumes "ec_le ec" and "generic_in pd p"
  shows "\<exists>pd'. lcec_generic_write_s32 ec pd p v = Some pd' \<and>
      pd_put pd (generic_pos p) (unat (gp_bitLength p)) (clamp_s32 (unat (gp_bitLength p)) v) pd'"
    and "\<exists>pd'. lcec_generic_write_u32 ec pd p w = Some pd' \<and>
      pd_put pd (generic_pos p) (unat (gp_bitLength p)) (uint (clamp_u32 (unat (gp_bitLength p)) w)) pd'"
proof -
  note run = write_bits_run [OF assms]
  have st: "\<exists>pd'. pd_store pd (unat (gp_pdo_os p)) [word_of_int x] = Some pd' \<and>
      pd_put pd (generic_pos p) (unat (gp_bitLength p)) x pd'"
    if "generic_aligned p" "gp_bitLength p = 8" for x
    using aligned_store [of p pd 1 x, where 'a = 8] assms(2) that by (simp add: single_byte)
  have st16: "\<exists>pd'. pd_store pd (unat (gp_pdo_os p)) (EC_WRITE_U16 ec (word_of_int x)) = Some pd' \<and>
      pd_put pd (generic_pos p) (unat (gp_bitLength p)) x pd'"
    if "generic_aligned p" "gp_bitLength p = 16" for x
    using aligned_store [of p pd 2 x, where 'a = 16] assms that by (simp add: ec_le_def)
  have st32: "\<exists>pd'. pd_store pd (unat (gp_pdo_os p)) (EC_WRITE_U32 ec (word_of_int x)) = Some pd' \<and>
      pd_put pd (generic_pos p) (unat (gp_bitLength p)) x pd'"
    if "generic_aligned p" "gp_bitLength p = 32" for x
    using aligned_store [of p pd 4 x, where 'a = 32] assms that by (simp add: ec_le_def)
  show "\<exists>pd'. lcec_generic_write_s32 ec pd p v = Some pd' \<and>
      pd_put pd (generic_pos p) (unat (gp_bitLength p)) (clamp_s32 (unat (gp_bitLength p)) v) pd'"
    using run st st16 st32 unfolding lcec_generic_write_s32_def Let_def by (simp split: if_split)
  have st': "\<exists>pd'. pd_store pd (unat (gp_pdo_os p)) [ucast c] = Some pd' \<and>
      pd_put pd (generic_pos p) (unat (gp_bitLength p)) (uint c) pd'"
    if "generic_aligned p" "gp_bitLength p = 8" for c :: u32
    using st [OF that, of "uint c"] by (simp only: ucast_eq)
  have st16': "\<exists>pd'. pd_store pd (unat (gp_pdo_os p)) (EC_WRITE_U16 ec (ucast c)) = Some pd' \<and>
      pd_put pd (generic_pos p) (unat (gp_bitLength p)) (uint c) pd'"
    if "generic_aligned p" "gp_bitLength p = 16" for c :: u32
    using st16 [OF that, of "uint c"] by (simp only: ucast_eq)
  have st32': "\<exists>pd'. pd_store pd (unat (gp_pdo_os p)) (EC_WRITE_U32 ec c) = Some pd' \<and>
      pd_put pd (generic_pos p) (unat (gp_bitLength p)) (uint c) pd'"
    if "generic_aligned p" "gp_bitLength p = 32" for c :: u32
    using st32 [OF that, of "uint c"] by (simp only: word_of_int_uint)
  show "\<exists>pd'. lcec_generic_write_u32 ec pd p w = Some pd' \<and>
      pd_put pd (generic_pos p) (unat (gp_bitLength p)) (uint (clamp_u32 (unat (gp_bitLength p)) w)) pd'"
    using run [of "uint (clamp_u32 (unat (gp_bitLength p)) w)"] st' [of "clamp_u32 (unat (gp_bitLength p)) w"]
      st16' [of "clamp_u32 (unat (gp_bitLength p)) w"] st32' [of "clamp_u32 (unat (gp_bitLength p)) w"]
    unfolding lcec_generic_write_u32_def Let_def by (simp split: if_split)
qed

section \<open>Writing and reading back\<close>

lemma generic_in_put: "pd_put pd pos n v pd' \<Longrightarrow> generic_in pd' p = generic_in pd p"
  by (simp add: pd_put_def generic_in_def)

lemma read_after_put:
  assumes "ec_le ec" and "generic_in pd p" and "unat (gp_bitLength p) \<le> 32"
    and "pd_put pd (generic_pos p) (unat (gp_bitLength p)) v pd'"
  obtains w where "lcec_generic_read_u32 ec pd' p = Some w" and "w = take_bit (unat (gp_bitLength p)) (word_of_int v)"
proof -
  have "generic_in pd' p" using assms(2,4) generic_in_put by blast
  then obtain w where w: "lcec_generic_read_u32 ec pd' p = Some w"
    "\<And>k. bit w k \<longleftrightarrow> k < unat (gp_bitLength p) \<and> pd_bit pd' (generic_pos p + k)"
    using generic_read_u32_spec [OF assms(1) _ assms(3)] by blast
  have "pd_bit pd' (generic_pos p + k) = bit v k" if "k < unat (gp_bitLength p)" for k
    using assms(2,4) that by (simp add: pd_put_def generic_in_def)
  then have "w = take_bit (unat (gp_bitLength p)) (word_of_int v)"
    by (intro bit_word_eqI) (auto simp: w(2) bit_take_bit_iff bit_word_of_int_iff)
  then show thesis using w(1) that by blast
qed

lemma clamp_s32_range:
  assumes "1 \<le> len" and "len \<le> 32"
  shows "clamp_s32 len v = max (- (2 ^ (len - 1))) (min v (2 ^ (len - 1) - 1))"
proof -
  obtain m where m: "len = Suc m" "m \<le> 31" using assms by (cases len) auto
  have le: "(2::int) ^ m \<le> 2147483648" using power_increasing [of m 31 "2::int"] m(2) by simp
  have ge: "1 \<le> (2::int) ^ m" by simp
  have "s32 (2 ^ m - 1) = 2 ^ m - 1" by (intro s32_id) (use le ge in \<open>unfold in_s32_def, linarith\<close>)
  then show ?thesis using ge by (simp add: m(1) clamp_s32_def Let_def)
qed

lemma take_bit_clamp_u32:
  assumes "len \<le> 32"
  shows "take_bit len (clamp_u32 len w) = clamp_u32 len w" and "uint (clamp_u32 len w) = min (uint w) (2 ^ len - 1)"
proof -
  have le: "(2::int) ^ len \<le> 4294967296" using power_increasing [of len 32 "2::int"] assms by simp
  have "(2 ^ len - 1) mod 2 ^ 32 = (2 ^ len - 1 :: int)"
    using le by (intro mod_pos_pos_trivial) simp_all
  then have "uint (word_of_int (2 ^ len - 1) :: u32) = 2 ^ len - 1"
    unfolding uint_word_of_int by simp
  then show u: "uint (clamp_u32 len w) = min (uint w) (2 ^ len - 1)"
    by (simp add: clamp_u32_def Let_def word_less_def)
  have "uint (clamp_u32 len w) < 2 ^ len" unfolding u by simp
  then show "take_bit len (clamp_u32 len w) = clamp_u32 len w"
    by (intro word_uint_eqI) (simp add: unsigned_take_bit_eq take_bit_int_eq_self)
qed

lemma generic_roundtrip_u32:
  assumes "ec_le ec" and "generic_in pd p" and "unat (gp_bitLength p) \<le> 32"
  shows "\<exists>pd'. lcec_generic_write_u32 ec pd p w = Some pd' \<and>
    lcec_generic_read_u32 ec pd' p = Some (clamp_u32 (unat (gp_bitLength p)) w)"
proof -
  obtain pd' where pd': "lcec_generic_write_u32 ec pd p w = Some pd'"
    "pd_put pd (generic_pos p) (unat (gp_bitLength p)) (uint (clamp_u32 (unat (gp_bitLength p)) w)) pd'"
    using generic_write_spec(2) [OF assms(1,2)] by blast
  show ?thesis
    using pd'(1) read_after_put [OF assms pd'(2)] take_bit_clamp_u32(1) [OF assms(3)] by auto
qed

lemma sint_low_bits:
  assumes "1 \<le> LENGTH('a::len)" and "- (2 ^ (LENGTH('a) - 1)) \<le> v" and "v < 2 ^ (LENGTH('a) - 1)"
  shows "sint (word_of_int v :: 'a word) = v"
  using assms by (simp add: sint_sbintrunc' signed_take_bit_int_eq_self)

lemma generic_roundtrip_s32:
  assumes "ec_le ec" and "generic_in pd p" and "1 \<le> unat (gp_bitLength p)" and "unat (gp_bitLength p) \<le> 32"
    and "c = max (- (2 ^ (unat (gp_bitLength p) - 1))) (min v (2 ^ (unat (gp_bitLength p) - 1) - 1))"
  shows "\<exists>pd'. lcec_generic_write_s32 ec pd p v = Some pd' \<and>
    lcec_generic_read_s32 ec pd' p =
      Some (if unat (gp_bitLength p) \<in> {8, 16, 32} then c else c mod 2 ^ unat (gp_bitLength p))"
proof -
  let ?n = "unat (gp_bitLength p)"
  have c: "clamp_s32 ?n v = c" using clamp_s32_range [OF assms(3,4)] assms(5) by simp
  obtain pd' where pd': "lcec_generic_write_s32 ec pd p v = Some pd'" "pd_put pd (generic_pos p) ?n c pd'"
    using generic_write_spec(1) [OF assms(1,2), of v] by (auto simp: c)
  have "generic_in pd' p" using generic_in_put [OF pd'(2)] assms(2) by simp
  then have r: "lcec_generic_read_s32 ec pd' p = Some (generic_signed ?n (take_bit ?n (word_of_int c)))"
    using read_after_put [OF assms(1,2,4) pd'(2)] generic_read_s32_u32 [OF assms(1) _ assms(4)] by force
  have rng: "- (2 ^ (?n - 1)) \<le> c" "c < 2 ^ (?n - 1)" using assms(5) by auto
  have "generic_signed ?n (take_bit ?n (word_of_int c)) = (if ?n \<in> {8, 16, 32} then c else c mod 2 ^ ?n)"
  proof -
    consider "?n = 8" | "?n = 16" | "?n = 32" | "?n \<notin> {8, 16, 32}" by blast
    then show ?thesis
    proof cases
      case 1
      have "ucast (take_bit 8 (word_of_int c) :: u32) = (word_of_int c :: u8)"
        by (rule bit_word_eqI) (simp add: bit_ucast_iff bit_take_bit_iff bit_word_of_int_iff)
      then show ?thesis using 1 rng sint_low_bits [of c, where 'a = 8] by (simp add: generic_signed_def)
    next
      case 2
      have "ucast (take_bit 16 (word_of_int c) :: u32) = (word_of_int c :: u16)"
        by (rule bit_word_eqI) (simp add: bit_ucast_iff bit_take_bit_iff bit_word_of_int_iff)
      then show ?thesis using 2 rng sint_low_bits [of c, where 'a = 16] by (simp add: generic_signed_def)
    next
      case 3
      have "take_bit 32 (word_of_int c :: u32) = word_of_int c"
        by (rule bit_word_eqI) (simp add: bit_take_bit_iff)
      then show ?thesis using 3 rng sint_low_bits [of c, where 'a = 32] by (simp add: generic_signed_def)
    next
      case 4
      then have n: "?n < 32" using assms(4) by auto
      have "uint (take_bit ?n (word_of_int c) :: u32) = c mod 2 ^ ?n"
        using n le_imp_power_dvd [of ?n 32 "2::int"] unfolding unsigned_take_bit_eq uint_word_of_int
        by (simp add: take_bit_eq_mod mod_mod_cancel)
      moreover have "signed_take_bit 31 (c mod 2 ^ ?n) = c mod 2 ^ ?n"
      proof (rule signed_take_bit_int_eq_self)
        have b: "0 \<le> c mod 2 ^ ?n" "c mod 2 ^ ?n < 2 ^ ?n" by simp_all
        have "(2::int) ^ ?n \<le> 2 ^ 31" using n by (intro power_increasing) auto
        with b(2) show "c mod 2 ^ ?n < 2 ^ 31" by (rule less_le_trans)
        show "- (2 ^ 31) \<le> c mod 2 ^ ?n" using b(1) by (rule order_trans [rotated]) simp
      qed
      ultimately have "sint (take_bit ?n (word_of_int c) :: u32) = c mod 2 ^ ?n"
        by (simp add: sint_uint)
      then show ?thesis using 4 by (simp add: generic_signed_def)
    qed
  qed
  then show ?thesis using pd'(1) r by simp
qed

end
