(* ===== verification/GenericPins.thy ===== *)
theory GenericPins
  imports GenericDev
begin

text \<open>
  The three functions of the generic driver over all pins of a slave (\<open>devices/lcec_generic.c\<close>):
  the export of the pins, and the transfer between process data and pins. Floating point
  values are real numbers, and every arithmetic result goes through the rounding of the
  machine, which is an argument; a conversion of a value outside the target's range is
  undefined behaviour, \<open>None\<close>.
\<close>

section \<open>Init\<close>

text \<open>The pins of a bit array get a number; the others have the configured name alone.\<close>

fun generic_bit_pins ::
    "hal_env \<Rightarrow> fmt_arg list \<Rightarrow> nat \<Rightarrow> nat \<Rightarrow> generic_pin \<Rightarrow> hal_obj list \<Rightarrow> (int \<times> generic_pin \<times> hal_obj list) option" where
  "generic_bit_pins env as j 0 p objs = Some (0, p, objs)"
| "generic_bit_pins env as j (Suc n) p objs =
     Option.bind (lcec_pin_newf env (gp_type p) (gp_dir p) ''pin'' ''%s.%s.%s.%s-%d'' (as @ [FInt (int j)]) objs)
       (\<lambda>(err, objs'). if err \<noteq> 0 then Some (err, p, objs')
          else generic_bit_pins env as (Suc j) n (p\<lparr>gp_pin := gp_pin p @ [HvBit False]\<rparr>) objs')"

definition generic_one_pin ::
    "hal_env \<Rightarrow> fmt_arg list \<Rightarrow> generic_pin \<Rightarrow> hal_obj list \<Rightarrow> (int \<times> generic_pin \<times> hal_obj list) option" where
  "generic_one_pin env as p objs =
     Option.bind (lcec_pin_newf env (gp_type p) (gp_dir p) ''pin'' ''%s.%s.%s.%s'' as objs)
       (\<lambda>(err, objs'). if err \<noteq> 0 then Some (err, p, objs')
          else Some (0, p\<lparr>gp_pin := [the (hal_default (gp_type p))]\<rparr>, objs'))"

definition generic_init_pin ::
    "hal_env \<Rightarrow> fmt_arg list \<Rightarrow> generic_pin \<Rightarrow> hal_obj list \<Rightarrow> (int \<times> generic_pin \<times> hal_obj list) option" where
  "generic_init_pin env as p objs =
     (case gp_type p of
        HAL_BIT \<Rightarrow>
          if gp_bitLength p = 1 then generic_one_pin env as p objs
          else generic_bit_pins env as 0 (min (nat LCEC_CONF_GENERIC_MAX_SUBPINS) (unat (gp_bitLength p))) p objs
      | HAL_S32 \<Rightarrow> if gp_bitLength p > 32 then Some (0, p, objs) else generic_one_pin env as p objs
      | HAL_U32 \<Rightarrow> if gp_bitLength p > 32 then Some (0, p, objs) else generic_one_pin env as p objs
      | HAL_FLOAT \<Rightarrow>
          if gp_bitLength p > 32 \<and> gp_subType p \<noteq> lcecPdoEntTypeFloatDoubleIeee then Some (0, p, objs)
          else generic_one_pin env as p objs
      | _ \<Rightarrow> Some (0, p, objs))"

text \<open>
  The loop over the pins. The result of the registration is not looked at, so a full array
  leaves the position of the entry unset; a missing array is a fault.
\<close>

fun generic_init_pins ::
    "hal_env \<Rightarrow> string \<Rightarrow> nat \<Rightarrow> generic_pin list \<Rightarrow> lcec_slave \<Rightarrow> hal_obj list \<Rightarrow>
     (int \<times> generic_pin list \<times> lcec_slave \<times> hal_obj list) option" where
  "generic_init_pins env mname i [] s objs = Some (0, [], s, objs)"
| "generic_init_pins env mname i (p # ps) s objs =
     Option.bind
       (case lcec_pdo_init s (gp_pdo_idx p) (ucast (gp_pdo_sidx p)) (Some i) (Some i) of
          Inr s' \<Rightarrow> Some s' | Inl RegsFull \<Rightarrow> Some s | Inl _ \<Rightarrow> None) (\<lambda>s.
     Option.bind (generic_init_pin env [FStr LCEC_MODULE_NAME, FStr mname, FStr (sl_name s), FStr (gp_name p)] p objs)
       (\<lambda>(err, p', objs'). if err \<noteq> 0 then Some (err, p' # ps, s, objs')
          else map_option (\<lambda>(err, ps', r). (err, p' # ps', r)) (generic_init_pins env mname (Suc i) ps s objs')))"

definition lcec_generic_init ::
    "hal_env \<Rightarrow> string \<Rightarrow> lcec_slave \<Rightarrow> hal_obj list \<Rightarrow> (int \<times> lcec_slave \<times> hal_obj list) option" where
  "lcec_generic_init env mname s objs =
     (case sl_hal_data s of
        None \<Rightarrow> None
      | Some ps \<Rightarrow>
          map_option (\<lambda>(err, ps', s', objs').
              (err, s'\<lparr>sl_hal_data := Some (ps' @ drop (sl_generic_pdo_entry_count s) ps)\<rparr>, objs'))
            (generic_init_pins env mname 0 (take (sl_generic_pdo_entry_count s) ps)
               (s\<lparr>sl_proc_read := True, sl_proc_write := True\<rparr>) objs))"

section \<open>Values\<close>

fun hv_bit :: "hal_val \<Rightarrow> bool" where "hv_bit (HvBit b) = b" | "hv_bit _ = False"
fun hv_s32 :: "hal_val \<Rightarrow> int" where "hv_s32 (HvS32 i) = i" | "hv_s32 _ = 0"
fun hv_u32 :: "hal_val \<Rightarrow> u32" where "hv_u32 (HvU32 w) = w" | "hv_u32 _ = 0"
fun hv_float :: "hal_val \<Rightarrow> real" where "hv_float (HvFloat x) = x" | "hv_float _ = 0"

definition c_trunc :: "real \<Rightarrow> int" where
  "c_trunc x = (if 0 \<le> x then \<lfloor>x\<rfloor> else \<lceil>x\<rceil>)"

definition c_s32_of :: "real \<Rightarrow> int option" where
  "c_s32_of x = (if in_s32 (c_trunc x) then Some (c_trunc x) else None)"

definition c_u32_of :: "real \<Rightarrow> u32 option" where
  "c_u32_of x = (if 0 \<le> c_trunc x \<and> c_trunc x < 4294967296 then Some (word_of_int (c_trunc x)) else None)"

section \<open>Read\<close>

fun read_bit_pins :: "ec_macros \<Rightarrow> u8 list \<Rightarrow> int \<Rightarrow> hal_val list \<Rightarrow> hal_val list option" where
  "read_bit_pins ec pd off [] = Some []"
| "read_bit_pins ec pd off (v # vs) =
     Option.bind (pd_read_bit ec pd off) (\<lambda>b. map_option ((#) (HvBit b)) (read_bit_pins ec pd (off + 1) vs))"

definition generic_read_float :: "ec_macros \<Rightarrow> u8 list \<Rightarrow> generic_pin \<Rightarrow> real option" where
  "generic_read_float ec pd p =
     (case gp_subType p of
        lcecPdoEntTypeFloatUnsigned \<Rightarrow> map_option (\<lambda>w. real_of_int (uint w)) (lcec_generic_read_u32 ec pd p)
      | lcecPdoEntTypeFloatIeee \<Rightarrow> map_option (EC_READ_REAL ec) (pd_load pd (unat (gp_pdo_os p)) 4)
      | lcecPdoEntTypeFloatDoubleIeee \<Rightarrow> map_option (EC_READ_LREAL ec) (pd_load pd (unat (gp_pdo_os p)) 8)
      | _ \<Rightarrow> map_option real_of_int (lcec_generic_read_s32 ec pd p))"

definition set_pin0 :: "generic_pin \<Rightarrow> hal_val \<Rightarrow> generic_pin" where
  "set_pin0 p v = p\<lparr>gp_pin := v # tl (gp_pin p)\<rparr>"

definition generic_read_pin :: "ec_macros \<Rightarrow> (real \<Rightarrow> real) \<Rightarrow> u8 list \<Rightarrow> generic_pin \<Rightarrow> generic_pin option" where
  "generic_read_pin ec rnd pd p =
     (if gp_dir p \<noteq> HAL_OUT \<or> gp_pin p = [] then Some p
      else case gp_type p of
        HAL_BIT \<Rightarrow> map_option (\<lambda>vs. p\<lparr>gp_pin := vs\<rparr>) (read_bit_pins ec pd (generic_offset p) (gp_pin p))
      | HAL_S32 \<Rightarrow> map_option (\<lambda>v. set_pin0 p (HvS32 v)) (lcec_generic_read_s32 ec pd p)
      | HAL_U32 \<Rightarrow> map_option (\<lambda>v. set_pin0 p (HvU32 v)) (lcec_generic_read_u32 ec pd p)
      | HAL_FLOAT \<Rightarrow> map_option (\<lambda>x. set_pin0 p (HvFloat (rnd (rnd (x * gp_floatScale p) + gp_floatOffset p))))
                       (generic_read_float ec pd p)
      | _ \<Rightarrow> Some p)"

fun map_res_opt :: "('a \<Rightarrow> 'b option) \<Rightarrow> 'a list \<Rightarrow> 'b list option" where
  "map_res_opt f [] = Some []"
| "map_res_opt f (x # xs) = Option.bind (f x) (\<lambda>y. map_option ((#) y) (map_res_opt f xs))"

definition lcec_generic_read :: "ec_macros \<Rightarrow> (real \<Rightarrow> real) \<Rightarrow> u8 list \<Rightarrow> lcec_slave \<Rightarrow> lcec_slave option" where
  "lcec_generic_read ec rnd pd s =
     (case sl_hal_data s of
        None \<Rightarrow> None
      | Some ps \<Rightarrow> map_option (\<lambda>ps'. s\<lparr>sl_hal_data := Some (ps' @ drop (sl_generic_pdo_entry_count s) ps)\<rparr>)
                     (map_res_opt (generic_read_pin ec rnd pd) (take (sl_generic_pdo_entry_count s) ps)))"

section \<open>Write\<close>

fun write_bit_pins :: "ec_macros \<Rightarrow> int \<Rightarrow> hal_val list \<Rightarrow> u8 list \<Rightarrow> u8 list option" where
  "write_bit_pins ec off [] pd = Some pd"
| "write_bit_pins ec off (v # vs) pd =
     Option.bind (pd_write_bit ec pd off (hv_bit v)) (write_bit_pins ec (off + 1) vs)"

definition generic_write_float :: "ec_macros \<Rightarrow> u8 list \<Rightarrow> generic_pin \<Rightarrow> real \<Rightarrow> u8 list option" where
  "generic_write_float ec pd p x =
     (case gp_subType p of
        lcecPdoEntTypeFloatUnsigned \<Rightarrow> Option.bind (c_u32_of x) (lcec_generic_write_u32 ec pd p)
      | lcecPdoEntTypeFloatIeee \<Rightarrow> pd_store pd (unat (gp_pdo_os p)) (EC_WRITE_REAL ec x)
      | lcecPdoEntTypeFloatDoubleIeee \<Rightarrow> pd_store pd (unat (gp_pdo_os p)) (EC_WRITE_LREAL ec x)
      | _ \<Rightarrow> Option.bind (c_s32_of x) (lcec_generic_write_s32 ec pd p))"

definition generic_write_pin :: "ec_macros \<Rightarrow> (real \<Rightarrow> real) \<Rightarrow> generic_pin \<Rightarrow> u8 list \<Rightarrow> u8 list option" where
  "generic_write_pin ec rnd p pd =
     (if gp_dir p \<noteq> HAL_IN \<or> gp_pin p = [] then Some pd
      else case gp_type p of
        HAL_BIT \<Rightarrow> write_bit_pins ec (generic_offset p) (gp_pin p) pd
      | HAL_S32 \<Rightarrow> lcec_generic_write_s32 ec pd p (hv_s32 (hd (gp_pin p)))
      | HAL_U32 \<Rightarrow> lcec_generic_write_u32 ec pd p (hv_u32 (hd (gp_pin p)))
      | HAL_FLOAT \<Rightarrow> generic_write_float ec pd p
                       (rnd (rnd (hv_float (hd (gp_pin p)) + gp_floatOffset p) * gp_floatScale p))
      | _ \<Rightarrow> Some pd)"

fun generic_write_pins :: "ec_macros \<Rightarrow> (real \<Rightarrow> real) \<Rightarrow> generic_pin list \<Rightarrow> u8 list \<Rightarrow> u8 list option" where
  "generic_write_pins ec rnd [] pd = Some pd"
| "generic_write_pins ec rnd (p # ps) pd = Option.bind (generic_write_pin ec rnd p pd) (generic_write_pins ec rnd ps)"

definition lcec_generic_write :: "ec_macros \<Rightarrow> (real \<Rightarrow> real) \<Rightarrow> lcec_slave \<Rightarrow> u8 list \<Rightarrow> u8 list option" where
  "lcec_generic_write ec rnd s pd =
     (case sl_hal_data s of
        None \<Rightarrow> None
      | Some ps \<Rightarrow> generic_write_pins ec rnd (take (sl_generic_pdo_entry_count s) ps) pd)"

section \<open>What a write changes\<close>

text \<open>The bits a pin is written to, and a pin that lies in the process data.\<close>

definition pin_bits :: "generic_pin \<Rightarrow> nat set" where
  "pin_bits p =
     (case gp_type p of
        HAL_BIT \<Rightarrow> {generic_pos p ..< generic_pos p + length (gp_pin p)}
      | HAL_FLOAT \<Rightarrow>
          (case gp_subType p of
             lcecPdoEntTypeFloatIeee \<Rightarrow> {8 * unat (gp_pdo_os p) ..< 8 * unat (gp_pdo_os p) + 32}
           | lcecPdoEntTypeFloatDoubleIeee \<Rightarrow> {8 * unat (gp_pdo_os p) ..< 8 * unat (gp_pdo_os p) + 64}
           | _ \<Rightarrow> {generic_pos p ..< generic_pos p + unat (gp_bitLength p)})
      | HAL_S32 \<Rightarrow> {generic_pos p ..< generic_pos p + unat (gp_bitLength p)}
      | HAL_U32 \<Rightarrow> {generic_pos p ..< generic_pos p + unat (gp_bitLength p)}
      | _ \<Rightarrow> {})"

definition pin_in :: "u8 list \<Rightarrow> generic_pin \<Rightarrow> bool" where
  "pin_in pd p \<longleftrightarrow> generic_in pd p \<and> pin_bits p \<subseteq> {..< 8 * length pd}"

definition same_but :: "nat set \<Rightarrow> u8 list \<Rightarrow> u8 list \<Rightarrow> bool" where
  "same_but B pd pd' \<longleftrightarrow> length pd' = length pd \<and> (\<forall>j < 8 * length pd. j \<notin> B \<longrightarrow> pd_bit pd' j = pd_bit pd j)"

lemma same_but_refl [simp]: "same_but B pd pd"
  by (simp add: same_but_def)

lemma same_but_trans: "same_but A pd pd1 \<Longrightarrow> same_but B pd1 pd2 \<Longrightarrow> same_but (A \<union> B) pd pd2"
  by (simp add: same_but_def)

lemma pd_put_same: "pd_put pd pos n v pd' \<Longrightarrow> same_but {pos ..< pos + n} pd pd'"
  by (auto simp: pd_put_def same_but_def)

lemma pd_store_same: "pd_store pd os bs = Some pd' \<Longrightarrow> same_but {8 * os ..< 8 * os + 8 * length bs} pd pd'"
proof -
  assume s: "pd_store pd os bs = Some pd'"
  then have l: "os + length bs \<le> length pd" and pd': "pd' = take os pd @ bs @ drop (os + length bs) pd"
    by (auto simp: pd_store_def split: if_splits)
  have "pd' ! i = pd ! i" if "i < length pd" "i < os \<or> os + length bs \<le> i" for i
    using that l by (auto simp: pd' nth_append)
  moreover have "j div 8 < os \<or> os + length bs \<le> j div 8" if "j \<notin> {8 * os ..< 8 * os + 8 * length bs}" for j
    using that by auto
  moreover have "j div 8 < length pd" if "j < 8 * length pd" for j
    using that by (simp add: less_mult_imp_div_less mult.commute)
  ultimately show ?thesis using l by (auto simp: same_but_def pd_bit_def pd')
qed

lemma write_bit_pins_run:
  assumes "ec_le ec" and "pos + length vs \<le> 8 * length pd"
  shows "\<exists>pd'. write_bit_pins ec (int pos) vs pd = Some pd' \<and> length pd' = length pd \<and>
    (\<forall>j < 8 * length pd. pd_bit pd' j =
       (if pos \<le> j \<and> j < pos + length vs then hv_bit (vs ! (j - pos)) else pd_bit pd j))"
  using assms(2)
proof (induction vs arbitrary: pos pd)
  case (Cons v vs)
  obtain p1 where p1: "pd_write_bit ec pd (int pos) (hv_bit v) = Some p1" "length p1 = length pd"
    "\<forall>j < 8 * length pd. pd_bit p1 j = (if j = pos then hv_bit v else pd_bit pd j)"
    using pd_write_bit_nat [OF assms(1), of pos pd "hv_bit v"] Cons.prems by auto
  obtain p2 where p2: "write_bit_pins ec (int (Suc pos)) vs p1 = Some p2" "length p2 = length p1"
    "\<forall>j < 8 * length p1. pd_bit p2 j =
       (if Suc pos \<le> j \<and> j < Suc pos + length vs then hv_bit (vs ! (j - Suc pos)) else pd_bit p1 j)"
    using Cons.IH [of "Suc pos" p1] Cons.prems p1(2) by auto
  have "pd_bit p2 j = (if pos \<le> j \<and> j < pos + length (v # vs) then hv_bit ((v # vs) ! (j - pos)) else pd_bit pd j)"
    if "j < 8 * length pd" for j
    using p1 p2 that by (cases "j = pos") (auto simp: nth_Cons')
  then show ?case using p1 p2 by (auto simp: add.commute)
qed auto

lemma write_pin_same:
  assumes "ec_le ec" and "pin_in pd p" and "generic_write_pin ec rnd p pd = Some pd'"
  shows "same_but (pin_bits p) pd pd'"
proof (cases "gp_dir p \<noteq> HAL_IN \<or> gp_pin p = []")
  case True
  then show ?thesis using assms(3) by (auto simp: generic_write_pin_def)
next
  case False
  have gi: "generic_in pd p" and sub: "pin_bits p \<subseteq> {..< 8 * length pd}" using assms(2) by (simp_all add: pin_in_def)
  have w: "same_but {generic_pos p ..< generic_pos p + unat (gp_bitLength p)} pd x"
    if "lcec_generic_write_s32 ec pd p v = Some x \<or> lcec_generic_write_u32 ec pd p u = Some x" for v u x
    using that generic_write_spec(1) [OF assms(1) gi, of v] generic_write_spec(2) [OF assms(1) gi, of u] pd_put_same by force
  have ieee: "same_but {8 * unat (gp_pdo_os p) ..< 8 * unat (gp_pdo_os p) + 32} pd x"
    if "pd_store pd (unat (gp_pdo_os p)) (EC_WRITE_REAL ec y) = Some x" for x y
    using pd_store_same [OF that] assms(1) by (simp add: ec_le_def)
  have lieee: "same_but {8 * unat (gp_pdo_os p) ..< 8 * unat (gp_pdo_os p) + 64} pd x"
    if "pd_store pd (unat (gp_pdo_os p)) (EC_WRITE_LREAL ec y) = Some x" for x y
    using pd_store_same [OF that] assms(1) by (simp add: ec_le_def)
  show ?thesis
  proof (cases "gp_type p")
    case HAL_BIT
    obtain k where k: "length (gp_pin p) = Suc k" using False by (cases "gp_pin p") auto
    then have "generic_pos p + k \<in> pin_bits p" by (simp add: pin_bits_def HAL_BIT)
    then have "generic_pos p + length (gp_pin p) \<le> 8 * length pd" using sub k by auto
    moreover have "generic_offset p = int (generic_pos p)" using gi by (simp add: generic_in_def generic_offset_pos)
    ultimately show ?thesis
      using write_bit_pins_run [OF assms(1), of "generic_pos p" "gp_pin p" pd] assms(3) False HAL_BIT
      by (auto simp: generic_write_pin_def same_but_def pin_bits_def)
  next
    case HAL_FLOAT
    then show ?thesis using assms(3) False w ieee lieee
      by (auto simp: generic_write_pin_def generic_write_float_def pin_bits_def bind_eq_Some_conv split: pdoent_type.splits)
  qed (use assms(3) False w in \<open>auto simp: generic_write_pin_def pin_bits_def\<close>)
qed

lemma pin_in_same: "same_but B pd pd' \<Longrightarrow> pin_in pd' p = pin_in pd p"
  by (simp add: pin_in_def same_but_def generic_in_def)

lemma write_pins_same:
  assumes "ec_le ec" and "\<forall>p\<in>set ps. pin_in pd p" and "generic_write_pins ec rnd ps pd = Some pd'"
  shows "same_but (\<Union>p\<in>set ps. pin_bits p) pd pd'"
  using assms(2,3)
proof (induction ps arbitrary: pd)
  case (Cons p ps)
  then obtain pd1 where w: "generic_write_pin ec rnd p pd = Some pd1" "generic_write_pins ec rnd ps pd1 = Some pd'"
    by (auto simp: bind_eq_Some_conv)
  have s1: "same_but (pin_bits p) pd pd1" using write_pin_same [OF assms(1) _ w(1)] Cons.prems by simp
  then have "\<forall>p\<in>set ps. pin_in pd1 p" using Cons.prems pin_in_same by auto
  then show ?case using same_but_trans [OF s1 Cons.IH [OF _ w(2)]] by simp
qed simp

section \<open>Every pin keeps its value\<close>

fun pins_disjoint :: "generic_pin list \<Rightarrow> bool" where
  "pins_disjoint [] = True"
| "pins_disjoint (p # ps) = ((\<forall>q\<in>set ps. pin_bits p \<inter> pin_bits q = {}) \<and> pins_disjoint ps)"

lemma read_u32_same:
  assumes "ec_le ec" and "generic_in pd p" and "unat (gp_bitLength p) \<le> 32" and "same_but B pd pd'"
    and "B \<inter> {generic_pos p ..< generic_pos p + unat (gp_bitLength p)} = {}"
  shows "lcec_generic_read_u32 ec pd' p = lcec_generic_read_u32 ec pd p"
proof -
  have in': "generic_in pd' p" using assms(2,4) by (simp add: generic_in_def same_but_def)
  obtain w where w: "lcec_generic_read_u32 ec pd p = Some w"
    "\<And>k. bit w k \<longleftrightarrow> k < unat (gp_bitLength p) \<and> pd_bit pd (generic_pos p + k)"
    using generic_read_u32_spec [OF assms(1-3)] by blast
  obtain w' where w': "lcec_generic_read_u32 ec pd' p = Some w'"
    "\<And>k. bit w' k \<longleftrightarrow> k < unat (gp_bitLength p) \<and> pd_bit pd' (generic_pos p + k)"
    using generic_read_u32_spec [OF assms(1) in' assms(3)] by blast
  have "pd_bit pd' (generic_pos p + k) = pd_bit pd (generic_pos p + k)" if "k < unat (gp_bitLength p)" for k
  proof -
    have "generic_pos p + k \<notin> B" using assms(5) that by auto
    then show ?thesis using assms(2,4) that by (auto simp: same_but_def generic_in_def)
  qed
  then have "w' = w" by (intro bit_word_eqI) (auto simp: w(2) w'(2))
  then show ?thesis using w(1) w'(1) by simp
qed

lemma write_pins_u32:
  assumes "ec_le ec" and "\<forall>p\<in>set ps. pin_in pd p" and "pins_disjoint ps"
    and "generic_write_pins ec rnd ps pd = Some pd'" and "p \<in> set ps"
    and "gp_dir p = HAL_IN" and "gp_type p = HAL_U32" and "gp_pin p = [HvU32 w]" and "unat (gp_bitLength p) \<le> 32"
  shows "lcec_generic_read_u32 ec pd' p = Some (clamp_u32 (unat (gp_bitLength p)) w)"
  using assms(2-5)
proof (induction ps arbitrary: pd)
  case (Cons q ps)
  then obtain pd1 where w: "generic_write_pin ec rnd q pd = Some pd1" "generic_write_pins ec rnd ps pd1 = Some pd'"
    by (auto simp: bind_eq_Some_conv)
  have s1: "same_but (pin_bits q) pd pd1" using write_pin_same [OF assms(1) _ w(1)] Cons.prems(1) by simp
  then have in1: "\<forall>p\<in>set ps. pin_in pd1 p" using Cons.prems(1) pin_in_same by auto
  show ?case
  proof (cases "p \<in> set ps")
    case True
    then show ?thesis using Cons.IH [OF in1 _ w(2)] Cons.prems(2) by simp
  next
    case False
    then have q: "q = p" using Cons.prems(4) by simp
    have gin: "generic_in pd p" using Cons.prems(1) q by (simp add: pin_in_def)
    then have gin1: "generic_in pd1 p" using s1 by (simp add: generic_in_def same_but_def)
    have b: "pin_bits p = {generic_pos p ..< generic_pos p + unat (gp_bitLength p)}" by (simp add: pin_bits_def assms(7))
    have "lcec_generic_write_u32 ec pd p w = Some pd1" using w(1) q assms(6-8) by (simp add: generic_write_pin_def)
    then have r1: "lcec_generic_read_u32 ec pd1 p = Some (clamp_u32 (unat (gp_bitLength p)) w)"
      using generic_roundtrip_u32 [OF assms(1) gin assms(9), of w] by simp
    have "(\<Union>p\<in>set ps. pin_bits p) \<inter> pin_bits p = {}" using Cons.prems(2) q by auto
    then show ?thesis
      using read_u32_same [OF assms(1) gin1 assms(9) write_pins_same [OF assms(1) in1 w(2)]] r1 by (simp add: b)
  qed
qed simp

section \<open>What the init function registers\<close>

text \<open>Entry by entry in the order of the pins, each for the position fields of its own pin.\<close>

definition generic_reg :: "lcec_slave \<Rightarrow> nat \<Rightarrow> generic_pin \<Rightarrow> pdo_entry_reg" where
  "generic_reg s k p =
     \<lparr>er_position = sl_index s, er_vendor_id = sl_vid s, er_product_code = sl_pid s, er_index = gp_pdo_idx p,
      er_subindex = ucast (gp_pdo_sidx p), er_offset = Some k, er_bit_position = Some k\<rparr>"

lemma generic_bit_pins_frame:
  "generic_bit_pins env as j n p objs = Some (err, p', objs') \<Longrightarrow> \<exists>vs. p' = p\<lparr>gp_pin := vs\<rparr>"
proof (induction env as j n p objs rule: generic_bit_pins.induct)
  case (1 env as j p objs)
  then have "p' = p\<lparr>gp_pin := gp_pin p\<rparr>" by simp
  then show ?case ..
next
  case (2 env as j n p objs)
  show ?case
  proof (cases "err = 0 \<or> p' \<noteq> p")
    case True
    with 2 show ?thesis by (fastforce simp: bind_eq_Some_conv split: if_splits)
  next
    case False
    then have "p' = p\<lparr>gp_pin := gp_pin p\<rparr>" by simp
    then show ?thesis ..
  qed
qed

lemma generic_init_pin_frame:
  assumes "generic_init_pin env as p objs = Some (err, p', objs')"
  shows "\<exists>vs. p' = p\<lparr>gp_pin := vs\<rparr>"
proof -
  have id: "\<exists>vs. p = p\<lparr>gp_pin := vs\<rparr>" by (rule exI [of _ "gp_pin p"]) simp
  have one: "\<exists>vs. p' = p\<lparr>gp_pin := vs\<rparr>" if "generic_one_pin env as p objs = Some (err, p', objs')"
    using that id by (auto simp: generic_one_pin_def bind_eq_Some_conv split: if_splits)
  show ?thesis
    using assms id one generic_bit_pins_frame
    by (auto simp: generic_init_pin_def split: hal_type.splits if_splits)
qed

lemma generic_init_pins_ok:
  assumes "generic_init_pins env mname i ps s objs = Some (0, ps', s', objs')"
    and "sl_regs s = Some r" and "regs_ok r" and "pr_current r + length ps \<le> pr_max r"
  shows "\<exists>r'. s' = s\<lparr>sl_regs := Some r'\<rparr> \<and> regs_ok r' \<and> pr_max r' = pr_max r \<and>
    regs_content r' = regs_content r @ map (\<lambda>k. generic_reg s (i + k) (ps ! k)) [0..<length ps] \<and>
    length ps' = length ps \<and> (\<forall>k < length ps. \<exists>vs. ps' ! k = (ps ! k)\<lparr>gp_pin := vs\<rparr>)"
  using assms
proof (induction ps arbitrary: i s objs r ps')
  case (Cons p ps)
  let ?e = "generic_reg s i p"
  have "pr_current r < pr_max r" using Cons.prems(4) by simp
  then obtain r1 where push: "regs_push r ?e = Inr r1" "regs_ok r1" "regs_content r1 = regs_content r @ [?e]" "pr_max r1 = pr_max r"
    using regs.push_fits [OF Cons.prems(3), of ?e] Cons.prems(3) by auto
  have i1: "lcec_pdo_init s (gp_pdo_idx p) (ucast (gp_pdo_sidx p)) (Some i) (Some i) = Inr (s\<lparr>sl_regs := Some r1\<rparr>)"
    using push(1) Cons.prems(2) by (simp add: lcec_pdo_init_def generic_reg_def)
  let ?s1 = "s\<lparr>sl_regs := Some r1\<rparr>"
  obtain p' objs1 qs where q: "generic_init_pin env [FStr LCEC_MODULE_NAME, FStr mname, FStr (sl_name s), FStr (gp_name p)] p objs
      = Some (0, p', objs1)" "generic_init_pins env mname (Suc i) ps ?s1 objs1 = Some (0, qs, s', objs')" "ps' = p' # qs"
    using Cons.prems(1) i1 by (auto simp: bind_eq_Some_conv split: if_splits)
  have cur: "pr_current r1 = Suc (pr_current r)"
    using push(2,3) Cons.prems(3) by (metis length_append_singleton regs_content_length)
  obtain r' where r': "s' = ?s1\<lparr>sl_regs := Some r'\<rparr>" "regs_ok r'" "pr_max r' = pr_max r1"
    "regs_content r' = regs_content r1 @ map (\<lambda>k. generic_reg ?s1 (Suc i + k) (ps ! k)) [0..<length ps]"
    "length qs = length ps" "\<forall>k < length ps. \<exists>vs. qs ! k = (ps ! k)\<lparr>gp_pin := vs\<rparr>"
    using Cons.IH [OF q(2) _ push(2)] Cons.prems(4) cur push(4) by auto
  have g: "generic_reg ?s1 = generic_reg s" by (intro ext) (simp add: generic_reg_def)
  have m: "map (\<lambda>k. generic_reg s (i + k) ((p # ps) ! k)) [0..<length (p # ps)] =
      ?e # map (\<lambda>k. generic_reg s (Suc i + k) (ps ! k)) [0..<length ps]"
    by (simp add: map_upt_Suc del: upt_Suc)
  have f: "\<exists>vs. (p' # qs) ! k = ((p # ps) ! k)\<lparr>gp_pin := vs\<rparr>" if "k < length (p # ps)" for k
    using that r'(6) generic_init_pin_frame [OF q(1)] by (cases k) auto
  show ?case using r' push(3,4) f by (intro exI [of _ r'] conjI allI impI) (simp_all only: m q(3), simp_all add: g)
next
  case Nil
  then have "s' = s\<lparr>sl_regs := Some r\<rparr>" by simp
  with Nil show ?case by (intro exI [of _ r]) simp
qed

end
