(* ===== verification/MasterInit.thy ===== *)
theory MasterInit
  imports Sdo GenericPins MasterWrite ConfLoad
begin

text \<open>
  Start and end of the real-time component (\<open>rtapi_app_main\<close>, \<open>rtapi_app_exit\<close> and
  \<open>lcec_clear_config\<close> of \<open>lcec_main.c\<close>): the masters of the configuration are requested, get
  a domain for every Sync Unit, their slaves are configured and their process data entries
  registered, and the functions of the cyclic task are exported. Every call to the EtherCAT
  master, to HAL and to the drivers is logged; an error jumps to the clean-up.
\<close>

section \<open>Calls and answers\<close>

text \<open>Masters, Sync Units and slaves are named by their positions.\<close>

datatype init_call =
    IHalInit
  | IRequestMaster nat int
  | ICreateDomain nat nat
  | ISlaveConfig nat nat
  | ISdo nat nat sdo_call
  | IProcInit nat nat
  | IConfigDc nat nat slave_dc
  | IConfigWatchdog nat nat slave_watchdog
  | IConfigPdos nat nat
  | IRegPdoEntries nat nat "pdo_entry_reg list"
  | IActivate nat "rt_call list"
  | IExportFunct string
  | IHalReady
  | IDeactivate nat
  | IProcCleanup nat nat
  | IReleaseMaster nat
  | IHalExit

text \<open>
  What the world answers. A driver's init function other than the generic one is an argument:
  its return value, the slave it leaves and the HAL objects after it; \<open>None\<close> is a crash.
\<close>

record init_env =
  ie_hal_init :: bool
  ie_initf :: bool
  ie_request :: "nat \<Rightarrow> int \<Rightarrow> bool"
  ie_domain :: "nat \<Rightarrow> nat \<Rightarrow> bool"
  ie_slave_config :: "nat \<Rightarrow> nat \<Rightarrow> bool"
  ie_sdo :: sdo_env
  ie_proc_init :: "string \<Rightarrow> string \<Rightarrow> lcec_slave \<Rightarrow> hal_obj list \<Rightarrow> (int \<times> lcec_slave \<times> hal_obj list) option"
  ie_config_pdos :: "nat \<Rightarrow> nat \<Rightarrow> int"
  ie_reg_list :: "nat \<Rightarrow> nat \<Rightarrow> int"
  ie_hal :: hal_env
  ie_rt :: "nat \<Rightarrow> rt_env"
  ie_export :: "string \<Rightarrow> int"

record init_state =
  is_masters :: "lcec_master list"
  is_objs :: "hal_obj list"
  is_calls :: "init_call list"

text \<open>\<open>Failed\<close> is the jump to \<open>fail2\<close> with the state at that time; \<open>Crashed\<close> is undefined behaviour.\<close>

datatype init_stop = Failed init_state | Crashed

section \<open>Steps\<close>

definition emit :: "init_call \<Rightarrow> init_state \<Rightarrow> init_state" where
  "emit c st = st\<lparr>is_calls := is_calls st @ [c]\<rparr>"

definition fail_unless :: "bool \<Rightarrow> init_state \<Rightarrow> init_stop + init_state" where
  "fail_unless b st = (if b then Inr st else Inl (Failed st))"

definition set_master :: "nat \<Rightarrow> (lcec_master \<Rightarrow> lcec_master) \<Rightarrow> init_state \<Rightarrow> init_state" where
  "set_master k f st = st\<lparr>is_masters := (is_masters st)[k := f (is_masters st ! k)]\<rparr>"

definition set_slave :: "nat \<Rightarrow> nat \<Rightarrow> (lcec_slave \<Rightarrow> lcec_slave) \<Rightarrow> init_state \<Rightarrow> init_state" where
  "set_slave k i f = set_master k (\<lambda>m. m\<lparr>ma_slaves := (ma_slaves m)[i := f (ma_slaves m ! i)]\<rparr>)"

definition set_unit :: "nat \<Rightarrow> nat \<Rightarrow> (sync_unit \<Rightarrow> sync_unit) \<Rightarrow> init_state \<Rightarrow> init_state" where
  "set_unit k j f = set_master k (\<lambda>m. m\<lparr>ma_sync_units := (ma_sync_units m)[j := f (ma_sync_units m ! j)]\<rparr>)"

definition the_master :: "init_state \<Rightarrow> nat \<Rightarrow> lcec_master" where
  "the_master st k = is_masters st ! k"

definition the_slave :: "init_state \<Rightarrow> nat \<Rightarrow> nat \<Rightarrow> lcec_slave" where
  "the_slave st k i = ma_slaves (is_masters st ! k) ! i"

definition the_unit :: "init_state \<Rightarrow> nat \<Rightarrow> nat \<Rightarrow> sync_unit" where
  "the_unit st k j = ma_sync_units (is_masters st ! k) ! j"

text \<open>The EtherCAT master and the domain of every Sync Unit; the first domain is kept in the master.\<close>

definition init_request :: "init_env \<Rightarrow> nat \<Rightarrow> init_state \<Rightarrow> init_stop + init_state" where
  "init_request env k st0 =
     (let idx = ma_index (the_master st0 k);
          st = emit (IRequestMaster k idx) st0
      in if ie_request env k idx then Inr (set_master k (\<lambda>m. m\<lparr>ma_master := True\<rparr>) st) else Inl (Failed st))"

definition init_domain :: "init_env \<Rightarrow> nat \<Rightarrow> nat \<Rightarrow> init_state \<Rightarrow> init_stop + init_state" where
  "init_domain env k j st0 =
     (let st = emit (ICreateDomain k j) st0 in
      if ie_domain env k j
      then Inr (set_master k (\<lambda>m. m\<lparr>ma_domain := (if ma_domain m = None then Some j else ma_domain m)\<rparr>)
                  (set_unit k j (\<lambda>u. u\<lparr>su_domain := Some j\<rparr>) st))
      else Inl (Failed st))"

section \<open>A slave\<close>

text \<open>The SDO and IDN values of the configuration; their errors are printed and ignored.\<close>

definition sdo_calls :: "sdo_env \<Rightarrow> lcec_slave \<Rightarrow> slave_sdoconf \<Rightarrow> sdo_call list" where
  "sdo_calls env s c =
     (if sc_subindex c = LCEC_CONF_SDO_COMPLETE_SUBIDX then [SdoConfigComplete (sl_index s) (sc_index c) (sc_data c)]
      else fst (lcec_write_sdo env s (sc_index c) (word_of_int (sc_subindex c)) (sc_data c)))"

definition idn_calls :: "lcec_slave \<Rightarrow> slave_idnconf \<Rightarrow> sdo_call list" where
  "idn_calls s c = [IdnConfig (sl_index s) (ic_drive c) (ic_idn c) (ic_state c) (ic_data c)]"

text \<open>The packed areas end at the index 0xffff and at the state 0.\<close>

definition config_calls :: "sdo_env \<Rightarrow> lcec_slave \<Rightarrow> sdo_call list" where
  "config_calls env s =
     (case sl_sdo_config s of None \<Rightarrow> []
      | Some cs \<Rightarrow> concat (map (sdo_calls env s) (takeWhile (\<lambda>c. sc_index c \<noteq> 0xffff) cs))) @
     (case sl_idn_config s of None \<Rightarrow> []
      | Some cs \<Rightarrow> concat (map (idn_calls s) (takeWhile (\<lambda>c. ic_state c \<noteq> EC_AL_STATE_NONE) cs)))"

definition call_proc_init :: "init_env \<Rightarrow> string \<Rightarrow> string \<Rightarrow> lcec_slave \<Rightarrow> hal_obj list \<Rightarrow> (int \<times> lcec_slave \<times> hal_obj list) option" where
  "call_proc_init env name mname s objs =
     (if name = ''lcec_generic_init'' then lcec_generic_init (ie_hal env) mname s objs
      else ie_proc_init env name mname s objs)"

definition init_driver :: "init_env \<Rightarrow> nat \<Rightarrow> nat \<Rightarrow> init_state \<Rightarrow> init_stop + init_state" where
  "init_driver env k i st =
     (case sl_proc_init (the_slave st k i) of
        None \<Rightarrow> Inr st
      | Some name \<Rightarrow>
          (case call_proc_init env name (ma_name (the_master st k)) (the_slave st k i) (is_objs st) of
             None \<Rightarrow> Inl Crashed
           | Some (err, s', objs') \<Rightarrow>
               fail_unless (err = 0) ((set_slave k i (\<lambda>_. s') (emit (IProcInit k i) st))\<lparr>is_objs := objs'\<rparr>)))"

definition init_dc :: "nat \<Rightarrow> nat \<Rightarrow> init_state \<Rightarrow> init_state" where
  "init_dc k i st = (case sl_dc_conf (the_slave st k i) of None \<Rightarrow> st | Some dc \<Rightarrow> emit (IConfigDc k i dc) st)"

definition init_watchdog :: "nat \<Rightarrow> nat \<Rightarrow> init_state \<Rightarrow> init_state" where
  "init_watchdog k i st = (case sl_wd_conf (the_slave st k i) of None \<Rightarrow> st | Some wd \<Rightarrow> emit (IConfigWatchdog k i wd) st)"

definition init_pdos :: "init_env \<Rightarrow> nat \<Rightarrow> nat \<Rightarrow> init_state \<Rightarrow> init_stop + init_state" where
  "init_pdos env k i st =
     (if sl_sync_info (the_slave st k i)
      then fail_unless (ie_config_pdos env k i = 0) (emit (IConfigPdos k i) st) else Inr st)"

definition init_slave_pins :: "init_env \<Rightarrow> nat \<Rightarrow> nat \<Rightarrow> init_state \<Rightarrow> init_stop + init_state" where
  "init_slave_pins env k i st =
     (case lcec_init_slave_state_hal (ie_hal env) (ma_name (the_master st k)) (sl_name (the_slave st k i)) (is_objs st) of
        None \<Rightarrow> Inl Crashed
      | Some (None, objs') \<Rightarrow> Inl (Failed (st\<lparr>is_objs := objs'\<rparr>))
      | Some (Some h, objs') \<Rightarrow> Inr ((set_slave k i (\<lambda>s. s\<lparr>sl_hal_state := Some h\<rparr>) st)\<lparr>is_objs := objs'\<rparr>))"

definition count_regs :: "nat \<Rightarrow> nat \<Rightarrow> init_state \<Rightarrow> init_stop + init_state" where
  "count_regs k i st =
     (case sl_regs (the_slave st k i) of
        None \<Rightarrow> Inl Crashed
      | Some r \<Rightarrow> Inr (set_unit k (sl_sync_unit (the_slave st k i))
                     (\<lambda>u. u\<lparr>su_pdo_entry_count := su_pdo_entry_count u + lcec_pdo_entry_reg_len r\<rparr>) st))"

definition init_slave :: "init_env \<Rightarrow> nat \<Rightarrow> nat \<Rightarrow> init_state \<Rightarrow> init_stop + init_state" where
  "init_slave env k i st0 =
     (let st = emit (ISlaveConfig k i) st0 in
      if \<not> ie_slave_config env k i then Inl (Failed st)
      else
        let st = set_slave k i (\<lambda>s. s\<lparr>sl_config := True\<rparr>) st;
            st = st\<lparr>is_calls := is_calls st @ map (ISdo k i) (config_calls (ie_sdo env) (the_slave st k i))\<rparr>;
            st = set_slave k i (\<lambda>s. s\<lparr>sl_regs := Some (lcec_allocate_pdo_entry_reg LCEC_MAX_PDO_REG_COUNT)\<rparr>) st
        in bind_res (init_driver env k i st) (\<lambda>st.
           bind_res (init_pdos env k i (init_watchdog k i (init_dc k i st))) (\<lambda>st.
           bind_res (init_slave_pins env k i st) (count_regs k i))))"

section \<open>Registration\<close>

text \<open>
  The entries of the slaves of one Sync Unit, in the order of the slaves, in an array with
  one zeroed element behind them that ends the list for the EtherCAT master.
\<close>

definition unit_regs :: "nat \<Rightarrow> lcec_slave list \<Rightarrow> pdo_entry_regs \<Rightarrow> regs_fail + pdo_entry_regs" where
  "unit_regs j = fold_res (\<lambda>s d. if sl_sync_unit s = j
     then (case sl_regs s of None \<Rightarrow> Inl RegsNull | Some r \<Rightarrow> lcec_append_pdo_entry_reg d r) else Inr d)"

definition init_register :: "init_env \<Rightarrow> nat \<Rightarrow> nat \<Rightarrow> init_state \<Rightarrow> init_stop + init_state" where
  "init_register env k j st =
     (case unit_regs j (ma_slaves (the_master st k))
             (lcec_allocate_pdo_entry_reg (su_pdo_entry_count (the_unit st k j) + 1)) of
        Inl RegsFull \<Rightarrow> Inl (Failed st)
      | Inl _ \<Rightarrow> Inl Crashed
      | Inr r \<Rightarrow> fail_unless (ie_reg_list env k j = 0)
                  (emit (IRegPdoEntries k j (pr_entries r)) (set_unit k j (\<lambda>u. u\<lparr>su_regs := Some r\<rparr>) st)))"

section \<open>The HAL block of a master\<close>

text \<open>The defaults of the parameters, all derived from the application period.\<close>

definition default_hal :: "u32 \<Rightarrow> master_hal \<Rightarrow> master_hal" where
  "default_hal period h =
     h\<lparr>hd_pll_step := period div 1000, hd_pll_max_err := period, hd_auto_drift_delay := 100,
       hd_phase_lock_dwell := (if period > 0 then s32 (c_div 200000000 (uint period)) else 200),
       hd_dc_sync_max := (if period \<noteq> 0 then period div 25 else 10000), hd_dc_sync_monitor := True\<rparr>"

text \<open>\<^verbatim>\<open>snprintf\<close> into a name: a longer text is cut.\<close>

definition funct_name :: "init_env \<Rightarrow> string \<Rightarrow> string" where
  "funct_name env s = take (he_name_len (ie_hal env) - 1) s"

definition init_master_pins :: "init_env \<Rightarrow> nat \<Rightarrow> init_state \<Rightarrow> init_stop + init_state" where
  "init_master_pins env k st =
     (case lcec_init_master_hal (ie_hal env) (funct_name env (LCEC_MODULE_NAME @ ''.'' @ ma_name (the_master st k))) False (is_objs st) of
        None \<Rightarrow> Inl Crashed
      | Some (None, objs') \<Rightarrow> Inl (Failed (st\<lparr>is_objs := objs'\<rparr>))
      | Some (Some h, objs') \<Rightarrow>
          Inr ((set_master k (\<lambda>m. m\<lparr>ma_hal := default_hal (ma_app_time_period m) h\<rparr>) st)\<lparr>is_objs := objs'\<rparr>))"

definition init_legacy_activate :: "init_env \<Rightarrow> nat \<Rightarrow> init_state \<Rightarrow> init_stop + init_state" where
  "init_legacy_activate env k st =
     (if ie_initf env then Inr st
      else case lcec_activate_master (ie_rt env k) (the_master st k) of
        (cs, ok, m') \<Rightarrow> fail_unless ok (set_master k (\<lambda>_. m') (emit (IActivate k cs) st)))"

definition export_funct :: "init_env \<Rightarrow> string \<Rightarrow> init_state \<Rightarrow> init_stop + init_state" where
  "export_funct env s st =
     (let name = funct_name env s in fail_unless (ie_export env name = 0) (emit (IExportFunct name) st))"

section \<open>Masters, and the whole function\<close>

definition init_master :: "init_env \<Rightarrow> nat \<Rightarrow> init_state \<Rightarrow> init_stop + init_state" where
  "init_master env k st0 =
     bind_res (init_request env k st0) (\<lambda>st.
     bind_res (fold_res (init_domain env k) [0..<length (ma_sync_units (the_master st0 k))] st) (\<lambda>st.
     bind_res (fold_res (init_slave env k) [0..<length (ma_slaves (the_master st0 k))] st) (\<lambda>st.
     bind_res (fold_res (init_register env k) [0..<length (ma_sync_units (the_master st0 k))] st) (\<lambda>st.
     bind_res (init_master_pins env k st) (\<lambda>st.
     bind_res (init_legacy_activate env k st) (\<lambda>st.
     bind_res (export_funct env (LCEC_MODULE_NAME @ ''.'' @ ma_name (the_master st0 k) @ ''.read'') st)
       (export_funct env (LCEC_MODULE_NAME @ ''.'' @ ma_name (the_master st0 k) @ ''.write''))))))))"

definition init_global_pins :: "init_env \<Rightarrow> init_state \<Rightarrow> init_stop + init_state" where
  "init_global_pins env st =
     (case lcec_init_master_hal (ie_hal env) LCEC_MODULE_NAME True (is_objs st) of
        None \<Rightarrow> Inl Crashed
      | Some (None, objs') \<Rightarrow> Inl (Failed (st\<lparr>is_objs := objs'\<rparr>))
      | Some (Some h, objs') \<Rightarrow> Inr (st\<lparr>is_objs := objs'\<rparr>))"

definition init_all :: "init_env \<Rightarrow> init_state \<Rightarrow> init_stop + init_state" where
  "init_all env st0 =
     bind_res (init_global_pins env st0) (\<lambda>st.
     bind_res (fold_res (init_master env) [0..<length (is_masters st0)] st) (\<lambda>st.
     bind_res (if ie_initf env then export_funct env (LCEC_MODULE_NAME @ ''.activate'') st else Inr st) (\<lambda>st.
     bind_res (export_funct env (LCEC_MODULE_NAME @ ''.read-all'') st)
       (export_funct env (LCEC_MODULE_NAME @ ''.write-all'')))))"

text \<open>Masters and their slaves are cleaned up backwards; only a requested master is released.\<close>

definition cleanup_master :: "nat \<Rightarrow> lcec_master \<Rightarrow> init_call list" where
  "cleanup_master k m =
     map (IProcCleanup k) (filter (\<lambda>i. sl_proc_cleanup (ma_slaves m ! i)) (rev [0..<length (ma_slaves m)])) @
     (if ma_master m then [IReleaseMaster k] else [])"

definition lcec_clear_config :: "lcec_master list \<Rightarrow> init_call list" where
  "lcec_clear_config ms = concat (map (\<lambda>k. cleanup_master k (ms ! k)) (rev [0..<length ms]))"

definition EINVAL :: int where "EINVAL = 22"

text \<open>
  The return value, the log and the masters; \<open>None\<close> is undefined behaviour. A configuration
  that does not load has been cleaned up before; no driver of it has been initialised.
\<close>

definition rtapi_app_main :: "init_env \<Rightarrow> load_env \<Rightarrow> conf_image \<Rightarrow> (int \<times> init_call list \<times> lcec_master list) option" where
  "rtapi_app_main env lenv im =
     (if \<not> ie_hal_init env then Some (- EINVAL, [IHalInit], [])
      else case lcec_parse_config lenv im of
        Inl (LoadError e) \<Rightarrow> Some (- EINVAL, [IHalInit, IHalExit], [])
      | Inl _ \<Rightarrow> None
      | Inr (ms, n) \<Rightarrow>
          (case init_all env \<lparr>is_masters = ms, is_objs = [], is_calls = [IHalInit]\<rparr> of
             Inl Crashed \<Rightarrow> None
           | Inl (Failed st) \<Rightarrow>
               Some (- EINVAL, is_calls st @ lcec_clear_config (is_masters st) @ [IHalExit], is_masters st)
           | Inr st \<Rightarrow> Some (0, is_calls st @ [IHalReady], is_masters st)))"

definition rtapi_app_exit :: "lcec_master list \<Rightarrow> init_call list" where
  "rtapi_app_exit ms = map IDeactivate [0..<length ms] @ lcec_clear_config ms @ [IHalExit]"

end
