(* ===== verification/InitSound.thy ===== *)
theory InitSound
  imports MasterInit
begin

text \<open>
  Facts about the start of the component: what a failing start cleans up, and what a
  successful one has registered. All steps but the request of a master keep the masters'
  handles and identity and make inner calls only; the proofs rest on this frame.
\<close>

section \<open>Outcomes\<close>

definition outcome :: "(init_state \<Rightarrow> bool) \<Rightarrow> init_stop + init_state \<Rightarrow> bool" where
  "outcome P r = (case r of Inr st \<Rightarrow> P st | Inl (Failed st) \<Rightarrow> P st | Inl Crashed \<Rightarrow> True)"

lemma outcome_simps [simp]:
  "outcome P (Inr st) = P st" "outcome P (Inl (Failed st)) = P st" "outcome P (Inl Crashed)"
  by (simp_all add: outcome_def)

lemma outcome_mono: "outcome P r \<Longrightarrow> (\<And>st. P st \<Longrightarrow> Q st) \<Longrightarrow> outcome Q r"
  by (auto simp: outcome_def split: sum.splits init_stop.splits)

lemma outcome_bind:
  assumes "outcome P r" and "\<And>st. r = Inr st \<Longrightarrow> P st \<Longrightarrow> outcome P (f st)"
  shows "outcome P (bind_res r f)"
  using assms by (cases r) (auto simp: outcome_def split: init_stop.splits)

lemma outcome_fold:
  assumes "P st" and "\<And>x st. x \<in> set xs \<Longrightarrow> P st \<Longrightarrow> outcome P (f x st)"
  shows "outcome P (fold_res f xs st)"
  using assms
proof (induction xs arbitrary: st)
  case (Cons x xs)
  then show ?case by (auto intro!: outcome_bind)
qed simp

lemma outcome_fail_unless [simp]: "outcome P (fail_unless b st) = P st"
  by (simp add: fail_unless_def)

section \<open>The frame of the steps\<close>

fun inner_call :: "init_call \<Rightarrow> bool" where
  "inner_call (IRequestMaster k i) = False"
| "inner_call (IReleaseMaster k) = False"
| "inner_call (IProcCleanup k i) = False"
| "inner_call (IDeactivate k) = False"
| "inner_call IHalReady = False"
| "inner_call IHalExit = False"
| "inner_call _ = True"

definition mview :: "lcec_master \<Rightarrow> bool \<times> int \<times> string \<times> u32 \<times> nat \<times> nat" where
  "mview m = (ma_master m, ma_index m, ma_name m, ma_app_time_period m, length (ma_slaves m), length (ma_sync_units m))"

definition keeps :: "init_state \<Rightarrow> init_state \<Rightarrow> bool" where
  "keeps st st' \<longleftrightarrow> map mview (is_masters st') = map mview (is_masters st) \<and>
     (\<exists>xs. is_calls st' = is_calls st @ xs \<and> list_all inner_call xs)"

lemma keeps_refl [simp]: "keeps st st"
  by (simp add: keeps_def)

lemma keeps_trans: "keeps a b \<Longrightarrow> keeps b c \<Longrightarrow> keeps a c"
  by (auto simp: keeps_def)

lemma keeps_emit: "inner_call c \<Longrightarrow> keeps st (emit c st)"
  by (simp add: keeps_def emit_def)

lemma keeps_objs [simp]: "keeps st (st'\<lparr>is_objs := os\<rparr>) = keeps st st'"
  by (simp add: keeps_def)

lemma map_update_same: "g (f (xs ! k)) = g (xs ! k) \<Longrightarrow> map g (xs[k := f (xs ! k)]) = map g xs"
  by (cases "k < length xs", rule nth_equalityI) (auto simp: nth_list_update list_update_beyond)

lemma keeps_set_master: "(\<And>m. mview (f m) = mview m) \<Longrightarrow> keeps st (set_master k f st)"
  by (simp add: keeps_def set_master_def map_update_same)

lemma keeps_set_slave [simp]: "keeps st (set_slave k i f st)"
  unfolding set_slave_def by (rule keeps_set_master) (simp add: mview_def)

lemma keeps_set_unit [simp]: "keeps st (set_unit k j f st)"
  unfolding set_unit_def by (rule keeps_set_master) (simp add: mview_def)

lemma keeps_calls: "list_all inner_call xs \<Longrightarrow> keeps st (st\<lparr>is_calls := is_calls st @ xs\<rparr>)"
  by (auto simp: keeps_def)

lemmas keeps_intros = keeps_emit keeps_set_slave keeps_set_unit keeps_set_master

text \<open>Two steps of the frame in a row.\<close>

lemma keeps_emit2: "keeps st st' \<Longrightarrow> inner_call c \<Longrightarrow> keeps st (emit c st')"
  by (rule keeps_trans [OF _ keeps_emit])

lemma keeps_slave2: "keeps st st' \<Longrightarrow> keeps st (set_slave k i f st')"
  by (rule keeps_trans [OF _ keeps_set_slave])

lemma keeps_unit2: "keeps st st' \<Longrightarrow> keeps st (set_unit k j f st')"
  by (rule keeps_trans [OF _ keeps_set_unit])

lemma keeps_master2: "keeps st st' \<Longrightarrow> (\<And>m. mview (f m) = mview m) \<Longrightarrow> keeps st (set_master k f st')"
  by (rule keeps_trans [OF _ keeps_set_master])

lemmas keeps_steps = keeps_emit2 keeps_slave2 keeps_unit2 keeps_master2

text \<open>A bind of two steps that keep the frame.\<close>

lemma frame_bind:
  assumes "outcome (keeps st) r" and "\<And>st'. outcome (keeps st') (f st')"
  shows "outcome (keeps st) (bind_res r f)"
  by (rule outcome_bind [OF assms(1)]) (use assms(2) keeps_trans outcome_mono in blast)

lemma keeps_fold:
  assumes "\<And>x st. outcome (keeps st) (f x st)"
  shows "outcome (keeps st) (fold_res f xs st)"
proof (induction xs arbitrary: st)
  case (Cons x xs)
  show ?case unfolding fold_res.simps by (rule frame_bind [OF assms Cons.IH])
qed simp

lemma init_domain_keeps: "outcome (keeps st) (init_domain env k j st)"
  by (auto simp: init_domain_def Let_def mview_def intro!: keeps_steps)

lemma init_driver_keeps: "outcome (keeps st) (init_driver env k i st)"
  by (auto simp: init_driver_def intro!: keeps_steps split: option.split)

lemma init_pdos_keeps: "outcome (keeps st) (init_pdos env k i st)"
  by (auto simp: init_pdos_def intro!: keeps_steps)

lemma init_slave_pins_keeps: "outcome (keeps st) (init_slave_pins env k i st)"
  by (auto simp: init_slave_pins_def split: option.split)

lemma count_regs_keeps: "outcome (keeps st) (count_regs k i st)"
  by (auto simp: count_regs_def split: option.split)

lemma init_dc_keeps: "keeps st st' \<Longrightarrow> keeps st (init_dc k i st')"
  by (auto simp: init_dc_def intro!: keeps_steps split: option.split)

lemma init_watchdog_keeps: "keeps st st' \<Longrightarrow> keeps st (init_watchdog k i st')"
  by (auto simp: init_watchdog_def intro!: keeps_steps split: option.split)

lemma init_slave_keeps: "outcome (keeps st) (init_slave env k i st)"
proof -
  let ?a = "set_slave k i (\<lambda>s. s\<lparr>sl_config := True\<rparr>) (emit (ISlaveConfig k i) st)"
  let ?b = "?a\<lparr>is_calls := is_calls ?a @ map (ISdo k i) (config_calls (ie_sdo env) (the_slave ?a k i))\<rparr>"
  have "keeps st ?a" by (intro keeps_steps) simp_all
  moreover have "keeps ?a ?b" by (rule keeps_calls) (simp add: list_all_iff)
  ultimately have b: "keeps st (set_slave k i f ?b)" for f using keeps_trans by (blast intro: keeps_steps)
  have t: "outcome (keeps s) (bind_res (init_pdos env k i (init_watchdog k i (init_dc k i s))) (\<lambda>st.
           bind_res (init_slave_pins env k i st) (count_regs k i)))" for s
  proof (rule frame_bind)
    show "outcome (keeps s) (init_pdos env k i (init_watchdog k i (init_dc k i s)))"
      by (rule outcome_mono [OF init_pdos_keeps]) (metis init_dc_keeps init_watchdog_keeps keeps_refl keeps_trans)
  qed (rule frame_bind [OF init_slave_pins_keeps count_regs_keeps])
  have d: "outcome (keeps s) (bind_res (init_driver env k i s) (\<lambda>st.
      bind_res (init_pdos env k i (init_watchdog k i (init_dc k i st))) (\<lambda>st.
           bind_res (init_slave_pins env k i st) (count_regs k i))))" for s
    by (rule frame_bind [OF init_driver_keeps t])
  show ?thesis
    unfolding init_slave_def Let_def using outcome_mono [OF d] keeps_trans [OF b] by (auto intro: keeps_emit)
qed

lemma init_register_keeps: "outcome (keeps st) (init_register env k j st)"
  by (auto simp: init_register_def intro!: keeps_steps split: sum.split regs_fail.split)

lemma init_master_pins_keeps: "outcome (keeps st) (init_master_pins env k st)"
  by (auto simp: init_master_pins_def mview_def intro!: keeps_steps split: option.split)

lemma activate_mview:
  "lcec_activate_master env m = (cs, ok, m') \<Longrightarrow> mview m' = mview m"
proof -
  have "length (fst (snd (activate_units env k us pd))) = length us" for k us pd
    by (induction env k us pd rule: activate_units.induct) (simp_all add: Let_def case_prod_unfold)
  then show "lcec_activate_master env m = (cs, ok, m') \<Longrightarrow> mview m' = mview m"
    by (auto simp: lcec_activate_master_def mview_def Let_def case_prod_unfold split: if_splits)
qed

lemma keeps_set_at: "mview m' = mview (is_masters st ! k) \<Longrightarrow> keeps st (set_master k (\<lambda>_. m') st)"
  using map_update_same [of mview "\<lambda>_. m'" "is_masters st" k] by (simp add: keeps_def set_master_def)

lemma init_legacy_activate_keeps: "outcome (keeps st) (init_legacy_activate env k st)"
proof -
  obtain cs ok m' where a: "lcec_activate_master (ie_rt env k) (the_master st k) = (cs, ok, m')" by (metis prod_cases3)
  have "keeps st (set_master k (\<lambda>_. m') (emit (IActivate k cs) st))"
    using activate_mview [OF a]
    by (intro keeps_trans [OF keeps_emit keeps_set_at]) (simp_all add: the_master_def emit_def)
  then show ?thesis by (simp add: init_legacy_activate_def a)
qed

lemma export_funct_keeps: "outcome (keeps st) (export_funct env s st)"
  by (simp add: export_funct_def Let_def keeps_emit)

lemma init_global_pins_keeps: "outcome (keeps st) (init_global_pins env st)"
  by (auto simp: init_global_pins_def split: option.split)

text \<open>Everything of a master behind its request.\<close>

definition init_rest :: "init_env \<Rightarrow> nat \<Rightarrow> init_state \<Rightarrow> init_state \<Rightarrow> init_stop + init_state" where
  "init_rest env k st0 st =
     bind_res (fold_res (init_domain env k) [0..<length (ma_sync_units (the_master st0 k))] st) (\<lambda>st.
     bind_res (fold_res (init_slave env k) [0..<length (ma_slaves (the_master st0 k))] st) (\<lambda>st.
     bind_res (fold_res (init_register env k) [0..<length (ma_sync_units (the_master st0 k))] st) (\<lambda>st.
     bind_res (init_master_pins env k st) (\<lambda>st.
     bind_res (init_legacy_activate env k st) (\<lambda>st.
     bind_res (export_funct env (LCEC_MODULE_NAME @ ''.'' @ ma_name (the_master st0 k) @ ''.read'') st)
       (export_funct env (LCEC_MODULE_NAME @ ''.'' @ ma_name (the_master st0 k) @ ''.write'')))))))"

lemma init_master_rest: "init_master env k st0 = bind_res (init_request env k st0) (init_rest env k st0)"
  by (simp add: init_master_def init_rest_def [abs_def])

lemma init_rest_keeps: "outcome (keeps st) (init_rest env k st0 st)"
  unfolding init_rest_def
  by (intro frame_bind keeps_fold init_domain_keeps init_slave_keeps init_register_keeps init_master_pins_keeps
      init_legacy_activate_keeps export_funct_keeps)

section \<open>Clean-up of a failed start\<close>

text \<open>The masters the log says have been obtained are exactly those that hold a handle.\<close>

definition acquired :: "init_env \<Rightarrow> init_call list \<Rightarrow> nat set" where
  "acquired env cs = {k. \<exists>i. IRequestMaster k i \<in> set cs \<and> ie_request env k i}"

definition is_release :: "init_call \<Rightarrow> bool" where
  "is_release c = (case c of IReleaseMaster k \<Rightarrow> True | _ \<Rightarrow> False)"

definition is_request :: "init_call \<Rightarrow> bool" where
  "is_request c = (case c of IRequestMaster k i \<Rightarrow> True | _ \<Rightarrow> False)"

definition owns :: "init_env \<Rightarrow> nat \<Rightarrow> init_state \<Rightarrow> bool" where
  "owns env n st \<longleftrightarrow> length (is_masters st) = n \<and> (\<forall>k < n. ma_master (is_masters st ! k) \<longleftrightarrow> k \<in> acquired env (is_calls st)) \<and>
     acquired env (is_calls st) \<subseteq> {..<n} \<and> list_all (\<lambda>c. inner_call c \<or> is_request c) (is_calls st)"

lemma acquired_append: "acquired env (xs @ ys) = acquired env xs \<union> acquired env ys"
  by (auto simp: acquired_def)

lemma acquired_inner: "list_all inner_call xs \<Longrightarrow> acquired env xs = {}"
  by (auto simp: acquired_def list_all_iff)

lemma keeps_masters:
  assumes "keeps st st'"
  shows "length (is_masters st') = length (is_masters st)"
    and "k < length (is_masters st) \<Longrightarrow> mview (is_masters st' ! k) = mview (is_masters st ! k)"
proof -
  have e: "map mview (is_masters st') = map mview (is_masters st)" using assms by (simp add: keeps_def)
  then show l: "length (is_masters st') = length (is_masters st)" by (metis length_map)
  show "k < length (is_masters st) \<Longrightarrow> mview (is_masters st' ! k) = mview (is_masters st ! k)"
    using e l by (metis nth_map)
qed

lemma owns_keeps: "owns env n st \<Longrightarrow> keeps st st' \<Longrightarrow> owns env n st'"
  using keeps_masters [of st st']
  by (auto simp: owns_def keeps_def acquired_append acquired_inner list_all_iff mview_def)

lemma owns_request: "owns env n st \<Longrightarrow> k < n \<Longrightarrow> outcome (owns env n) (init_request env k st)"
  by (auto simp: init_request_def owns_def emit_def set_master_def acquired_append nth_list_update Let_def is_request_def)
    (auto simp: acquired_def)

lemma owns_all:
  assumes "owns env n st"
  shows "outcome (owns env n) (init_all env st)"
proof -
  have k: "outcome (owns env n) (f s)" if "owns env n s" "\<And>s. outcome (keeps s) (f s)" for f s
    by (rule outcome_mono [OF that(2)]) (rule owns_keeps [OF that(1)])
  have m: "outcome (owns env n) (init_master env k s)" if "owns env n s" "k < n" for k s
    unfolding init_master_rest by (rule outcome_bind [OF owns_request [OF that]]) (rule k [OF _ init_rest_keeps])
  have len: "length (is_masters st) = n" using assms by (simp add: owns_def)
  show ?thesis
    unfolding init_all_def len
  proof (intro outcome_bind)
    show "outcome (owns env n) (init_global_pins env st)" by (rule k [OF assms init_global_pins_keeps])
    show "outcome (owns env n) (fold_res (init_master env) [0..<n] s)" if "owns env n s" for s
      by (rule outcome_fold [of "owns env n"]) (use that m in auto)
    show "outcome (owns env n) (if ie_initf env then export_funct env (LCEC_MODULE_NAME @ ''.activate'') s else Inr s)"
      if "owns env n s" for s using k [OF that, of "export_funct env (LCEC_MODULE_NAME @ ''.activate'')"] export_funct_keeps that
      by simp
  qed (rule k [OF _ export_funct_keeps], assumption)+
qed

lemma release_filter: "filter is_release (lcec_clear_config ms) = map IReleaseMaster (filter (\<lambda>k. ma_master (ms ! k)) (rev [0..<length ms]))"
proof -
  have "filter is_release (cleanup_master k m) = (if ma_master m then [IReleaseMaster k] else [])" for k m
    by (simp add: cleanup_master_def is_release_def filter_map comp_def)
  then have "filter is_release (concat (map (\<lambda>k. cleanup_master k (ms ! k)) xs)) =
      map IReleaseMaster (filter (\<lambda>k. ma_master (ms ! k)) xs)" for xs
    by (induction xs) simp_all
  then show ?thesis by (simp add: lcec_clear_config_def)
qed

lemma no_release: "list_all (\<lambda>c. inner_call c \<or> is_request c) cs \<Longrightarrow> filter is_release cs = []"
  by (induction cs) (auto simp: is_release_def is_request_def split: init_call.splits)

lemma acquired_cleanup: "acquired env (lcec_clear_config ms) = {}" "acquired env [IHalExit] = {}" "acquired env [IHalReady] = {}"
  by (auto simp: acquired_def lcec_clear_config_def cleanup_master_def)

lemma owns_release:
  assumes "owns env n st"
  shows "filter is_release (is_calls st @ lcec_clear_config (is_masters st) @ [IHalExit]) =
    map IReleaseMaster (filter (\<lambda>k. k \<in> acquired env (is_calls st)) (rev [0..<n]))"
proof -
  have "filter (\<lambda>k. ma_master (is_masters st ! k)) (rev [0..<n]) = filter (\<lambda>k. k \<in> acquired env (is_calls st)) (rev [0..<n])"
    using assms by (intro filter_cong) (auto simp: owns_def)
  then show ?thesis using assms no_release [of "is_calls st"]
    by (simp add: owns_def release_filter) (simp add: is_release_def)
qed

section \<open>What the loader hands over\<close>

definition fresh_master :: "lcec_master \<Rightarrow> bool" where
  "fresh_master m \<longleftrightarrow> \<not> ma_master m \<and> \<not> ma_activated m \<and> ma_domain m = None \<and>
     (\<forall>u\<in>set (ma_sync_units m). su_pdo_entry_count u = 0) \<and>
     (\<forall>s\<in>set (ma_slaves m). sl_sync_unit s < length (ma_sync_units m) \<and> \<not> sl_proc_cleanup s) \<and>
     (ma_slaves m \<noteq> [] \<longrightarrow> ma_app_time_period m \<noteq> 0)"

definition fresh :: "load_state \<Rightarrow> bool" where
  "fresh st \<longleftrightarrow> list_all fresh_master (ld_masters st)"

lemma fresh_fields [simp]:
  "fresh (st\<lparr>ld_slave := a\<rparr>) = fresh st" "fresh (st\<lparr>ld_slave_count := b\<rparr>) = fresh st"
  "fresh (st\<lparr>ld_pdo_entries := c\<rparr>) = fresh st" "fresh (st\<lparr>ld_pdos := c\<rparr>) = fresh st"
  "fresh (st\<lparr>ld_sms := c\<rparr>) = fresh st" "fresh (st\<lparr>ld_hal := c\<rparr>) = fresh st" "fresh (st\<lparr>ld_hal_dir := d\<rparr>) = fresh st"
  "fresh (st\<lparr>ld_sdo := e\<rparr>) = fresh st" "fresh (st\<lparr>ld_idn := e\<rparr>) = fresh st"
  "fresh (st\<lparr>ld_modparams := c\<rparr>) = fresh st" "fresh (st\<lparr>ld_pe := f\<rparr>) = fresh st"
  by (simp_all add: fresh_def)

lemma fresh_upd_master:
  assumes "list_all fresh_master ms" and "\<And>m. fresh_master m \<Longrightarrow> fresh_master (f m)"
  shows "list_all fresh_master (upd_master i f ms)"
  using assms by (auto simp: upd_master_def list_all_length nth_list_update)

lemma fresh_upd_slave:
  assumes "fresh st" and "\<And>s. sl_sync_unit (f s) = sl_sync_unit s" and "\<And>s. sl_proc_cleanup (f s) = sl_proc_cleanup s"
  shows "fresh (upd_cur_slave f st)"
proof -
  have "fresh_master (m\<lparr>ma_slaves := (ma_slaves m)[i := f (ma_slaves m ! i)]\<rparr>)"
    if fm: "fresh_master m" and i: "i < length (ma_slaves m)" for m i
  proof -
    have "\<forall>s\<in>set ((ma_slaves m)[i := f (ma_slaves m ! i)]). sl_sync_unit s < length (ma_sync_units m) \<and> \<not> sl_proc_cleanup s"
    proof
      fix s assume "s \<in> set ((ma_slaves m)[i := f (ma_slaves m ! i)])"
      then have "s = f (ma_slaves m ! i) \<or> s \<in> set (ma_slaves m)"
        using set_update_subset_insert [of "ma_slaves m" i "f (ma_slaves m ! i)"] by auto
      then show "sl_sync_unit s < length (ma_sync_units m) \<and> \<not> sl_proc_cleanup s"
        using fm nth_mem [OF i] assms(2,3) by (auto simp: fresh_master_def)
    qed
    then show ?thesis using fm by (simp add: fresh_master_def)
  qed
  then show ?thesis
    using assms(1) by (auto simp: upd_cur_slave_def fresh_def intro!: fresh_upd_master split: option.split)
qed

lemma fresh_load_slave:
  assumes "fresh st" and "load_slave reg c st = Inr st'"
  shows "fresh st'"
proof -
  have new: "sl_sync_unit (load_new_slave c ty u) = u" "\<not> sl_proc_cleanup (load_new_slave c ty u)" for ty u
    by (simp_all add: load_new_slave_def)
  have add: "fresh_master (m\<lparr>ma_sync_units := us, ma_slaves := list_append_item (ma_slaves m) (load_new_slave c ty u)\<rparr>)"
    if "fresh_master m" and g: "lcec_master_get_sync_unit (ma_app_time_period m) (ma_sync_units m) n cyc = Some (u, us)"
    for m ty u us n cyc
  proof -
    have p: "ma_app_time_period m \<noteq> 0" using g by (auto simp: lcec_master_get_sync_unit_def split: if_splits)
    have l: "length (ma_sync_units m) \<le> length us" "u < length us" "\<forall>x\<in>set us. su_pdo_entry_count x = 0"
      using g that(1) by (auto simp: lcec_master_get_sync_unit_def fresh_master_def make_sync_unit_def new_sync_unit_def
          split: if_splits option.splits dest: find_sync_unit_Some)
    then show ?thesis using that(1) p by (auto simp: fresh_master_def new dest: order_less_le_trans)
  qed
  define mi where "mi = length (ld_masters st) - 1"
  let ?m = "ld_masters st ! mi"
  show ?thesis
  proof (cases "ld_masters st = [] \<or> (\<not> strcmp_eq (cs_type_name c) ''generic'' \<and> lcec_findslavetype reg (cs_type_name c) = None)")
    case True
    then show ?thesis using assms by (auto simp: load_slave_def Let_def split: if_splits)
  next
    case False
    let ?ty = "if strcmp_eq (cs_type_name c) ''generic'' then None else lcec_findslavetype reg (cs_type_name c)"
    let ?get = "lcec_master_get_sync_unit (ma_app_time_period ?m) (ma_sync_units ?m) (conf_strncpy (cs_syncUnit c)) (cs_syncUnitCycle c)"
    have ne: "ld_masters st \<noteq> []" and ty: "\<not> (\<not> strcmp_eq (cs_type_name c) ''generic'' \<and> ?ty = None)"
      using False by auto
    obtain u us where g: "?get = Some (u, us)"
      using assms(2) ne ty by (cases ?get) (auto simp: load_slave_def Let_def mi_def simp del: split_paired_Ex)
    have l: "ld_masters st' = upd_master mi (\<lambda>m. m\<lparr>ma_sync_units := us,
          ma_slaves := list_append_item (ma_slaves m) (load_new_slave c ?ty u)\<rparr>) (ld_masters st)"
      using assms(2) ne ty g by (simp only: load_slave_def Let_def mi_def if_False option.case prod.case if_not_P) auto
    have mi: "mi < length (ld_masters st)" using False by (simp add: mi_def)
    have "fresh_master ?m" using assms(1) mi by (simp add: fresh_def list_all_length)
    from add [OF this g] assms(1) mi show ?thesis
      by (simp add: fresh_def l upd_master_def list_all_length nth_list_update)
  qed
qed

lemma fresh_store_pin:
  assumes "store_pin p st = Inr st'" and "fresh st"
  shows "fresh st'"
proof -
  have u: "fresh (upd_cur_slave (sl_hal_data_update f) st)" for f by (rule fresh_upd_slave [OF assms(2)]) simp_all
  show ?thesis using assms u by (auto simp: store_pin_def split: option.splits if_splits)
qed

lemma fresh_load_pdoentry:
  assumes "load_pdoentry c st = Inr st'" and "fresh st"
  shows "fresh st'"
proof -
  obtain es k where s: "store_pin (entry_pin c (ld_hal_dir st))
      ((upd_cur_slave (sl_generic_pdo_entries_update (\<lambda>_. es)) st)\<lparr>ld_pdo_entries := Some (Suc k), ld_pe := Some c\<rparr>) = Inr st'"
    using assms(1) by (auto simp: load_pdoentry_def split: option.splits if_splits)
  have "fresh (upd_cur_slave (sl_generic_pdo_entries_update (\<lambda>_. es)) st)" by (rule fresh_upd_slave [OF assms(2)]) simp_all
  then show ?thesis by (intro fresh_store_pin [OF s]) simp
qed

lemma fresh_load_complexentry:
  assumes "load_complexentry c st = Inr st'" and "fresh st"
  shows "fresh st'"
  using assms fresh_store_pin by (auto simp: load_complexentry_def split: option.splits)

lemma fresh_load_items:
  "load_items reg its st = Inr st' \<Longrightarrow> fresh st \<Longrightarrow> fresh st'"
proof (induction reg its st rule: load_items.induct)
  case (3 reg c rest st)
  have "fresh st1" if "load_master c st = Inr st1" for st1
    using that 3(3) by (auto simp: load_master_def fresh_def fresh_master_def list_append_item_def)
  with 3 show ?case by auto
next
  case (4 reg c rest st)
  then show ?case using fresh_load_slave by auto
next
  case (5 reg c rest st)
  have "fresh st1" if "load_dc c st = Inr st1" for st1
    using that 5(3) by (auto simp: load_dc_def intro!: fresh_upd_slave split: option.splits if_splits)
  with 5 show ?case by auto
next
  case (6 reg c rest st)
  have "fresh st1" if "load_watchdog c st = Inr st1" for st1
    using that 6(3) by (auto simp: load_watchdog_def intro!: fresh_upd_slave split: option.splits if_splits)
  with 6 show ?case by auto
next
  case (7 reg c rest st)
  have "fresh st1" if "load_syncmanager c st = Inr st1" for st1
    using that 7(3) by (auto simp: load_syncmanager_def intro!: fresh_upd_slave split: option.splits if_splits)
  with 7 show ?case by auto
next
  case (8 reg c rest st)
  have "fresh st1" if "load_pdo c st = Inr st1" for st1
    using that 8(3) by (auto simp: load_pdo_def intro!: fresh_upd_slave split: option.splits if_splits)
  with 8 show ?case by auto
next
  case (9 reg c rest st)
  then show ?case using fresh_load_pdoentry by auto
next
  case (10 reg c rest st)
  then show ?case using fresh_load_complexentry by auto
next
  case (11 reg c rest st)
  have "fresh st1" if "load_modparam c st = Inr st1" for st1
    using that 11(3) by (auto simp: load_modparam_def intro!: fresh_upd_slave split: option.splits if_splits)
  with 11 show ?case by auto
next
  case (12 reg c rest st)
  have "fresh st1" if "load_sdo c bs st = Inr st1" for st1 bs
    using that 12(3) by (auto simp: load_sdo_def Let_def intro!: fresh_upd_slave split: option.splits if_splits)
  with 12 show ?case by (auto split: option.splits)
next
  case (13 reg c rest st)
  have "fresh st1" if "load_idn c bs st = Inr st1" for st1 bs
    using that 13(3) by (auto simp: load_idn_def Let_def intro!: fresh_upd_slave split: option.splits if_splits)
  with 13 show ?case by (auto split: option.splits)
qed (auto split: if_splits)

lemma parse_config_fresh:
  assumes "lcec_parse_config lenv im = Inr (ms, n)"
  shows "list_all fresh_master ms"
proof -
  have "fresh load_init" by (simp add: fresh_def load_init_def)
  then show ?thesis
    using assms fresh_load_items by (auto simp: lcec_parse_config_def fresh_def split: if_splits)
qed

lemma owns_init:
  assumes "list_all fresh_master ms"
  shows "owns env (length ms) \<lparr>is_masters = ms, is_objs = [], is_calls = [IHalInit]\<rparr>"
  using assms by (auto simp: owns_def acquired_def list_all_length fresh_master_def)

section \<open>What every start keeps\<close>

text \<open>The sizes and the period of the masters never change, also over a request.\<close>

definition same_sizes :: "init_state \<Rightarrow> init_state \<Rightarrow> bool" where
  "same_sizes st st' \<longleftrightarrow> map (snd \<circ> mview) (is_masters st') = map (snd \<circ> mview) (is_masters st)"

lemma keeps_same_sizes: "same_sizes st s \<Longrightarrow> keeps s s' \<Longrightarrow> same_sizes st s'"
  unfolding same_sizes_def keeps_def by (metis list.map_comp)

lemma request_same_sizes: "same_sizes st s \<Longrightarrow> outcome (same_sizes st) (init_request env k s)"
proof -
  have "same_sizes st (set_master k (\<lambda>m. m\<lparr>ma_master := True\<rparr>) (emit c s))" if "same_sizes st s" for c
    using that map_update_same [of "snd \<circ> mview" "\<lambda>m. m\<lparr>ma_master := True\<rparr>" "is_masters s" k]
    by (simp add: same_sizes_def set_master_def emit_def mview_def)
  moreover have "same_sizes st (emit c s)" if "same_sizes st s" for c using that by (simp add: same_sizes_def emit_def)
  ultimately show "same_sizes st s \<Longrightarrow> outcome (same_sizes st) (init_request env k s)"
    by (simp add: init_request_def Let_def)
qed

lemma init_all_sizes: "outcome (same_sizes st) (init_all env st)"
proof -
  have k: "outcome (same_sizes st) (f s)" if "same_sizes st s" "\<And>s. outcome (keeps s) (f s)" for f s
    by (rule outcome_mono [OF that(2)]) (rule keeps_same_sizes [OF that(1)])
  have m: "outcome (same_sizes st) (init_master env k s)" if "same_sizes st s" for k s
    unfolding init_master_rest by (rule outcome_bind [OF request_same_sizes [OF that]]) (rule k [OF _ init_rest_keeps])
  show ?thesis
    unfolding init_all_def
  proof (intro outcome_bind)
    show "outcome (same_sizes st) (init_global_pins env st)"
      by (rule k [OF _ init_global_pins_keeps]) (simp add: same_sizes_def)
    show "outcome (same_sizes st) (fold_res (init_master env) [0..<length (is_masters st)] s)" if "same_sizes st s" for s
      by (rule outcome_fold [of "same_sizes st"]) (use that m in auto)
    show "outcome (same_sizes st) (if ie_initf env then export_funct env (LCEC_MODULE_NAME @ ''.activate'') s else Inr s)"
      if "same_sizes st s" for s using k [OF that, of "export_funct env (LCEC_MODULE_NAME @ ''.activate'')"] export_funct_keeps that
      by simp
  qed (rule k [OF _ export_funct_keeps], assumption)+
qed

lemma same_sizes_period:
  assumes "same_sizes st st'" and "k < length (is_masters st)"
  shows "length (is_masters st') = length (is_masters st)"
    and "ma_app_time_period (is_masters st' ! k) = ma_app_time_period (is_masters st ! k)"
    and "length (ma_slaves (is_masters st' ! k)) = length (ma_slaves (is_masters st ! k))"
proof -
  have e: "map (snd \<circ> mview) (is_masters st') = map (snd \<circ> mview) (is_masters st)" using assms(1) by (simp add: same_sizes_def)
  then show l: "length (is_masters st') = length (is_masters st)" by (metis length_map)
  have "map (snd \<circ> mview) (is_masters st') ! k = map (snd \<circ> mview) (is_masters st) ! k" by (simp only: e)
  then have "snd (mview (is_masters st' ! k)) = snd (mview (is_masters st ! k))"
    using l assms(2) by simp
  then show "ma_app_time_period (is_masters st' ! k) = ma_app_time_period (is_masters st ! k)"
    and "length (ma_slaves (is_masters st' ! k)) = length (ma_slaves (is_masters st ! k))"
    by (simp_all add: mview_def)
qed

lemma same_sizes_length: "same_sizes st st' \<Longrightarrow> length (is_masters st') = length (is_masters st)"
  unfolding same_sizes_def by (metis length_map)

lemma same_sizes_units:
  assumes "same_sizes st st'" and "k < length (is_masters st)"
  shows "length (ma_sync_units (is_masters st' ! k)) = length (ma_sync_units (is_masters st ! k))"
proof -
  have "map (snd \<circ> mview) (is_masters st') ! k = map (snd \<circ> mview) (is_masters st) ! k"
    using assms(1) by (simp only: same_sizes_def)
  then show ?thesis using same_sizes_length [OF assms(1)] assms(2) by (simp add: mview_def)
qed

text \<open>A start that succeeds has requested every master.\<close>

lemma keeps_acquired: "keeps st st' \<Longrightarrow> acquired env (is_calls st) \<subseteq> acquired env (is_calls st')"
  by (auto simp: keeps_def acquired_append)

lemma outcome_Inr: "outcome P r \<Longrightarrow> r = Inr st \<Longrightarrow> P st"
  by (simp add: outcome_def)

lemma init_master_acquired:
  assumes "init_master env k st = Inr st'"
  shows "insert k (acquired env (is_calls st)) \<subseteq> acquired env (is_calls st')"
proof -
  obtain s where s: "init_request env k st = Inr s" and r: "init_rest env k st s = Inr st'"
    using assms by (auto simp: init_master_rest)
  have "insert k (acquired env (is_calls st)) \<subseteq> acquired env (is_calls s)"
    using s by (auto simp: init_request_def Let_def emit_def set_master_def acquired_append split: if_splits)
      (auto simp: acquired_def)
  then show ?thesis using keeps_acquired [OF outcome_Inr [OF init_rest_keeps r]] by blast
qed

lemma init_masters_acquired:
  "fold_res (init_master env) ks st = Inr st' \<Longrightarrow> set ks \<union> acquired env (is_calls st) \<subseteq> acquired env (is_calls st')"
proof (induction ks arbitrary: st)
  case (Cons k ks)
  then obtain s where "init_master env k st = Inr s" "fold_res (init_master env) ks s = Inr st'" by auto
  then show ?case using Cons.IH [of s] init_master_acquired [of env k st s] by auto
qed simp

lemma init_all_acquired:
  assumes "init_all env st = Inr st'"
  shows "{..<length (is_masters st)} \<subseteq> acquired env (is_calls st')"
proof -
  obtain a b c d where b: "fold_res (init_master env) [0..<length (is_masters st)] a = Inr b"
    and c: "(if ie_initf env then export_funct env (LCEC_MODULE_NAME @ ''.activate'') b else Inr b) = Inr c"
    and d: "export_funct env (LCEC_MODULE_NAME @ ''.read-all'') c = Inr d"
    and e: "export_funct env (LCEC_MODULE_NAME @ ''.write-all'') d = Inr st'"
    using assms unfolding init_all_def by (elim bind_res_InrE)
  have "keeps b c"
    using c outcome_Inr [OF export_funct_keeps] by (cases "ie_initf env") auto
  moreover have "keeps c d" by (rule outcome_Inr [OF export_funct_keeps d])
  moreover have "keeps d st'" by (rule outcome_Inr [OF export_funct_keeps e])
  ultimately show ?thesis
    using init_masters_acquired [OF b] keeps_acquired [of b c env] keeps_acquired [of c d env] keeps_acquired [of d st' env]
    by (auto simp: atLeast0LessThan)
qed

end
