(* ===== verification/InitRegs.thy ===== *)
theory InitRegs
  imports InitSound
begin

text \<open>
  What a successful start registers: the entries of a Sync Unit that reach the EtherCAT
  master are the entries the drivers of its slaves have recorded, slave by slave, and the
  array that holds them is exactly large enough for them and the end mark.
\<close>

section \<open>Drivers\<close>

text \<open>What a driver's init function must leave alone: the Sync Unit and a sound array.\<close>

definition driver_keeps :: "lcec_slave \<Rightarrow> lcec_slave \<Rightarrow> bool" where
  "driver_keeps s s' \<longleftrightarrow> sl_sync_unit s' = sl_sync_unit s \<and>
     (\<forall>r. sl_regs s = Some r \<longrightarrow> regs_ok r \<longrightarrow> (\<exists>r'. sl_regs s' = Some r' \<and> regs_ok r'))"

definition drivers_ok :: "init_env \<Rightarrow> bool" where
  "drivers_ok env \<longleftrightarrow> (\<forall>name mname s objs e s' objs'.
     ie_proc_init env name mname s objs = Some (e, s', objs') \<longrightarrow> driver_keeps s s')"

lemma driver_keeps_refl [simp]: "driver_keeps s s"
  by (auto simp: driver_keeps_def)

lemma driver_keeps_trans: "driver_keeps a b \<Longrightarrow> driver_keeps b c \<Longrightarrow> driver_keeps a c"
  unfolding driver_keeps_def by metis

lemma pdo_init_keeps: "lcec_pdo_init s idx sidx os bp = Inr s' \<Longrightarrow> driver_keeps s s'"
  unfolding driver_keeps_def by (auto elim: pdo_init_Inr) (auto simp: lcec_pdo_init_def split: option.splits)

lemma generic_pins_keeps:
  "generic_init_pins env mname i ps s objs = Some (err, ps', s', objs') \<Longrightarrow> driver_keeps s s'"
proof (induction ps arbitrary: i s objs ps')
  case (Cons p ps)
  obtain s1 err1 p' objs1 where s1: "(case lcec_pdo_init s (gp_pdo_idx p) (ucast (gp_pdo_sidx p)) (Some i) (Some i) of
          Inr s' \<Rightarrow> Some s' | Inl RegsFull \<Rightarrow> Some s | Inl _ \<Rightarrow> None) = Some s1"
    and r: "(if err1 \<noteq> 0 then Some (err1, p' # ps, s1, objs1)
          else map_option (\<lambda>(err, ps', r). (err, p' # ps', r)) (generic_init_pins env mname (Suc i) ps s1 objs1))
       = Some (err, ps', s', objs')"
    using Cons.prems by (auto simp: bind_eq_Some_conv)
  have "driver_keeps s s1"
    using s1 pdo_init_keeps by (auto split: sum.splits regs_fail.splits)
  moreover have "driver_keeps s1 s'" using r Cons.IH by (auto split: if_splits)
  ultimately show ?case by (rule driver_keeps_trans)
qed simp

lemma generic_init_keeps:
  assumes "lcec_generic_init env mname s objs = Some (err, s', objs')"
  shows "driver_keeps s s'"
proof -
  obtain ps ps1 s1 where g: "generic_init_pins env mname 0 ps (s\<lparr>sl_proc_read := True, sl_proc_write := True\<rparr>) objs
      = Some (err, ps1, s1, objs')" and s': "sl_sync_unit s' = sl_sync_unit s1" "sl_regs s' = sl_regs s1"
    using assms by (auto simp: lcec_generic_init_def split: option.splits)
  show ?thesis using generic_pins_keeps [OF g] s' by (simp add: driver_keeps_def)
qed

lemma proc_init_keeps:
  "drivers_ok env \<Longrightarrow> call_proc_init env name mname s objs = Some (e, s', objs') \<Longrightarrow> driver_keeps s s'"
  unfolding call_proc_init_def drivers_ok_def by (metis generic_init_keeps)

section \<open>One slave\<close>

text \<open>The masters before and after, but for slave \<open>i\<close> of master \<open>k\<close>, which keeps its Sync Unit.\<close>

definition slave_step :: "nat \<Rightarrow> nat \<Rightarrow> init_state \<Rightarrow> init_state \<Rightarrow> bool" where
  "slave_step k i st st' \<longleftrightarrow> (\<exists>s'. driver_keeps (the_slave st k i) s' \<and>
     is_masters st' = is_masters (set_slave k i (\<lambda>_. s') st))"

lemma list_update_eta: "xs[i := xs ! i] = xs"
  by simp

lemma slave_step_same: "is_masters st' = is_masters st \<Longrightarrow> slave_step k i st st'"
  unfolding slave_step_def
  by (rule exI [of _ "the_slave st k i"]) (simp add: set_slave_def set_master_def the_slave_def)

lemma slave_step_set: "driver_keeps (the_slave st k i) (f (the_slave st k i)) \<Longrightarrow> slave_step k i st (set_slave k i f st)"
  unfolding slave_step_def
  by (rule exI [of _ "f (the_slave st k i)"]) (simp add: set_slave_def set_master_def the_slave_def)

lemma slave_step_trans: "slave_step k i a b \<Longrightarrow> slave_step k i b c \<Longrightarrow> slave_step k i a c"
proof -
  assume "slave_step k i a b" and "slave_step k i b c"
  then obtain s t where s: "driver_keeps (the_slave a k i) s" "is_masters b = is_masters (set_slave k i (\<lambda>_. s) a)"
    and t: "driver_keeps (the_slave b k i) t" "is_masters c = is_masters (set_slave k i (\<lambda>_. t) b)"
    by (auto simp: slave_step_def)
  show ?thesis
  proof (cases "k < length (is_masters a) \<and> i < length (ma_slaves (is_masters a ! k))")
    case True
    then have "the_slave b k i = s" using s(2) by (simp add: the_slave_def set_slave_def set_master_def)
    then have "driver_keeps (the_slave a k i) t" using s(1) t(1) driver_keeps_trans by metis
    moreover have "is_masters c = is_masters (set_slave k i (\<lambda>_. t) a)"
      using t(2) s(2) True by (simp add: set_slave_def set_master_def)
    ultimately show ?thesis by (auto simp: slave_step_def)
  next
    case False
    have out: "is_masters (set_slave k i f st) = is_masters st"
      if "\<not> (k < length (is_masters st) \<and> i < length (ma_slaves (is_masters st ! k)))" for f st
      using that by (cases "k < length (is_masters st)") (simp_all add: set_slave_def set_master_def list_update_beyond)
    have "is_masters b = is_masters a" using s(2) out [OF False] by simp
    then have "is_masters c = is_masters a" using t(2) out [of b] False by simp
    then show ?thesis by (rule slave_step_same)
  qed
qed

text \<open>The steps of a slave before its entries are counted.\<close>

lemma emit_masters [simp]: "is_masters (emit c st) = is_masters st"
  by (simp add: emit_def)

lemma masters_cong:
  "is_masters a = is_masters b \<Longrightarrow> the_slave a k i = the_slave b k i"
  "is_masters a = is_masters b \<Longrightarrow> is_masters (set_slave k i f a) = is_masters (set_slave k i f b)"
  by (simp_all add: the_slave_def set_slave_def set_master_def)

lemma slave_step_emit: "slave_step k i st st' \<Longrightarrow> slave_step k i st (emit c st')"
  by (simp add: slave_step_def)

lemma init_driver_step:
  assumes "drivers_ok env" and "init_driver env k i st = Inr st'"
  shows "slave_step k i st st'"
proof (cases "sl_proc_init (the_slave st k i)")
  case None
  then show ?thesis using assms(2) by (simp add: init_driver_def slave_step_same)
next
  case (Some name)
  then obtain s' objs' where c: "call_proc_init env name (ma_name (the_master st k)) (the_slave st k i) (is_objs st) = Some (0, s', objs')"
    and st': "st' = (set_slave k i (\<lambda>_. s') (emit (IProcInit k i) st))\<lparr>is_objs := objs'\<rparr>"
    using assms(2) by (auto simp: init_driver_def fail_unless_def split: option.splits if_splits)
  have "is_masters st' = is_masters (set_slave k i (\<lambda>_. s') st)" unfolding st' by (simp add: masters_cong(2) [OF emit_masters])
  with proc_init_keeps [OF assms(1) c] show ?thesis by (auto simp: slave_step_def)
qed

lemma init_pdos_masters: "init_pdos env k i st = Inr st' \<Longrightarrow> is_masters st' = is_masters st"
  by (auto simp: init_pdos_def fail_unless_def split: if_splits)

lemma init_conf_masters [simp]:
  "is_masters (init_dc k i st) = is_masters st" "is_masters (init_watchdog k i st) = is_masters st"
  by (simp_all add: init_dc_def init_watchdog_def split: option.split)

lemma init_slave_pins_step:
  assumes "init_slave_pins env k i st = Inr st'"
  shows "slave_step k i st st'"
proof -
  obtain h objs' where "st' = (set_slave k i (\<lambda>s. s\<lparr>sl_hal_state := Some h\<rparr>) st)\<lparr>is_objs := objs'\<rparr>"
    using assms by (auto simp: init_slave_pins_def split: option.splits)
  moreover have "slave_step k i st (set_slave k i (\<lambda>s. s\<lparr>sl_hal_state := Some h\<rparr>) st)"
    by (rule slave_step_set) (simp add: driver_keeps_def)
  ultimately show ?thesis by (simp add: slave_step_def)
qed

text \<open>Up to the count, a slave has got a sound array and nothing else of the masters has changed.\<close>

lemma init_slave_upto:
  assumes "drivers_ok env" and "init_slave env k i st = Inr st'"
    and "k < length (is_masters st)" and "i < length (ma_slaves (is_masters st ! k))"
  obtains s r where "sl_sync_unit s = sl_sync_unit (the_slave st k i)" and "sl_regs s = Some r" and "regs_ok r"
    and "is_masters st' = is_masters (set_unit k (sl_sync_unit s)
           (\<lambda>u. u\<lparr>su_pdo_entry_count := su_pdo_entry_count u + pr_current r\<rparr>) (set_slave k i (\<lambda>_. s) st))"
proof -
  let ?a = "set_slave k i (\<lambda>s. s\<lparr>sl_config := True\<rparr>) (emit (ISlaveConfig k i) st)"
  let ?b = "?a\<lparr>is_calls := is_calls ?a @ map (ISdo k i) (config_calls (ie_sdo env) (the_slave ?a k i))\<rparr>"
  let ?c = "set_slave k i (\<lambda>s. s\<lparr>sl_regs := Some (lcec_allocate_pdo_entry_reg LCEC_MAX_PDO_REG_COUNT)\<rparr>) ?b"
  obtain d e f where d: "init_driver env k i ?c = Inr d" and e: "init_pdos env k i (init_watchdog k i (init_dc k i d)) = Inr e"
    and f: "init_slave_pins env k i e = Inr f" and g: "count_regs k i f = Inr st'"
    using assms(2) unfolding init_slave_def Let_def by (auto split: if_splits)
  have em: "is_masters e = is_masters d" using init_pdos_masters [OF e] by simp
  have "slave_step k i ?c d" by (rule init_driver_step [OF assms(1) d])
  moreover have "slave_step k i d e" by (rule slave_step_same [OF em])
  moreover have "slave_step k i e f" by (rule init_slave_pins_step [OF f])
  ultimately have "slave_step k i ?c f" using slave_step_trans by blast
  then obtain s where s: "driver_keeps (the_slave ?c k i) s" and fm: "is_masters f = is_masters (set_slave k i (\<lambda>_. s) ?c)"
    by (auto simp: slave_step_def)
  have c0: "the_slave ?c k i = (the_slave st k i)\<lparr>sl_config := True, sl_regs := Some (lcec_allocate_pdo_entry_reg LCEC_MAX_PDO_REG_COUNT)\<rparr>"
    using assms(3,4) by (simp add: the_slave_def set_slave_def set_master_def)
  have fm2: "is_masters f = is_masters (set_slave k i (\<lambda>_. s) st)"
    unfolding fm using assms(3,4) by (simp add: set_slave_def set_master_def)
  have u: "sl_sync_unit s = sl_sync_unit (the_slave st k i)" using s by (simp add: c0 driver_keeps_def)
  obtain r where r: "sl_regs s = Some r" "regs_ok r" using s allocate_regs(1) by (auto simp: c0 driver_keeps_def)
  have fs: "the_slave f k i = s" using fm2 assms(3,4) by (simp add: the_slave_def set_slave_def set_master_def)
  have "is_masters st' = is_masters (set_unit k (sl_sync_unit s)
      (\<lambda>u. u\<lparr>su_pdo_entry_count := su_pdo_entry_count u + pr_current r\<rparr>) (set_slave k i (\<lambda>_. s) st))"
    using g fm2 by (auto simp: count_regs_def fs r lcec_pdo_entry_reg_len_def set_unit_def set_master_def)
  then show thesis using that u r by blast
qed

section \<open>All slaves of a master\<close>

definition slave_regs :: "lcec_slave \<Rightarrow> pdo_entry_reg list" where
  "slave_regs s = (case sl_regs s of None \<Rightarrow> [] | Some r \<Rightarrow> regs_content r)"

definition sound_slave :: "lcec_slave \<Rightarrow> bool" where
  "sound_slave s \<longleftrightarrow> (\<exists>r. sl_regs s = Some r \<and> regs_ok r)"

text \<open>What the slaves \<open>ss\<close> register for Sync Unit \<open>j\<close>.\<close>

definition unit_entries :: "nat \<Rightarrow> lcec_slave list \<Rightarrow> pdo_entry_reg list" where
  "unit_entries j ss = concat (map slave_regs (filter (\<lambda>s. sl_sync_unit s = j) ss))"

lemma unit_entries_simps [simp]:
  "unit_entries j [] = []" "unit_entries j (xs @ ys) = unit_entries j xs @ unit_entries j ys"
  "unit_entries j [s] = (if sl_sync_unit s = j then slave_regs s else [])"
  by (simp_all add: unit_entries_def)

text \<open>Master \<open>k\<close> with its first \<open>i\<close> slaves counted; the other masters are those of \<open>ms\<close>.\<close>

definition counted :: "lcec_master list \<Rightarrow> nat \<Rightarrow> nat \<Rightarrow> init_state \<Rightarrow> bool" where
  "counted ms k i st \<longleftrightarrow> (\<exists>m. is_masters st = ms[k := m] \<and> k < length ms \<and>
     length (ma_slaves m) = length (ma_slaves (ms ! k)) \<and> length (ma_sync_units m) = length (ma_sync_units (ms ! k)) \<and>
     (\<forall>s\<in>set (ma_slaves m). sl_sync_unit s < length (ma_sync_units m)) \<and>
     list_all sound_slave (take i (ma_slaves m)) \<and>
     (\<forall>j < length (ma_sync_units m).
        su_pdo_entry_count (ma_sync_units m ! j) = length (unit_entries j (take i (ma_slaves m)))))"

lemma counted_step:
  assumes "drivers_ok env" and "counted ms k i st" and "i < length (ma_slaves (ms ! k))" and "init_slave env k i st = Inr st'"
  shows "counted ms k (Suc i) st'"
proof -
  obtain m where m: "is_masters st = ms[k := m]" "k < length ms" "length (ma_slaves m) = length (ma_slaves (ms ! k))"
    "length (ma_sync_units m) = length (ma_sync_units (ms ! k))"
    "\<forall>s\<in>set (ma_slaves m). sl_sync_unit s < length (ma_sync_units m)" "list_all sound_slave (take i (ma_slaves m))"
    and cnt: "\<forall>j < length (ma_sync_units m).
        su_pdo_entry_count (ma_sync_units m ! j) = length (unit_entries j (take i (ma_slaves m)))"
    using assms(2) by (auto simp: counted_def)
  have mk: "is_masters st ! k = m" "k < length (is_masters st)" using m(1,2) by simp_all
  have i: "i < length (ma_slaves m)" using assms(3) m(3) by simp
  obtain s r where s: "sl_sync_unit s = sl_sync_unit (ma_slaves m ! i)" "sl_regs s = Some r" "regs_ok r"
    and st': "is_masters st' = is_masters (set_unit k (sl_sync_unit s)
           (\<lambda>u. u\<lparr>su_pdo_entry_count := su_pdo_entry_count u + pr_current r\<rparr>) (set_slave k i (\<lambda>_. s) st))"
    using init_slave_upto [OF assms(1,4) mk(2)] i mk(1) by (auto simp: the_slave_def)
  let ?u = "ma_sync_units m ! sl_sync_unit s"
  define m' where "m' = m\<lparr>ma_slaves := (ma_slaves m)[i := s],
      ma_sync_units := (ma_sync_units m)[sl_sync_unit s := ?u\<lparr>su_pdo_entry_count := su_pdo_entry_count ?u + pr_current r\<rparr>]\<rparr>"
  have e: "is_masters st' = ms[k := m']"
    using m(1,2) by (simp add: st' set_unit_def set_slave_def set_master_def m'_def)
  have t: "take (Suc i) (ma_slaves m') = take i (ma_slaves m) @ [s]"
    using i by (simp add: m'_def take_Suc_conv_app_nth)
  have "\<forall>s'\<in>set (ma_slaves m'). sl_sync_unit s' < length (ma_sync_units m')"
  proof
    fix s' assume "s' \<in> set (ma_slaves m')"
    then have "s' = s \<or> s' \<in> set (ma_slaves m)"
      using set_update_subset_insert [of "ma_slaves m" i s] by (auto simp: m'_def)
    then show "sl_sync_unit s' < length (ma_sync_units m')"
      using m(5) nth_mem [OF i] s(1) by (auto simp: m'_def)
  qed
  moreover have "su_pdo_entry_count (ma_sync_units m' ! j) = length (unit_entries j (take (Suc i) (ma_slaves m')))"
    if "j < length (ma_sync_units m')" for j
  proof (cases "j = sl_sync_unit s")
    case True
    then show ?thesis using that cnt s(2,3) unfolding t by (simp add: m'_def slave_regs_def)
  next
    case False
    then show ?thesis using that cnt unfolding t by (simp add: m'_def)
  qed
  moreover have "list_all sound_slave (take (Suc i) (ma_slaves m'))"
    unfolding t using m(6) s(2,3) by (simp add: sound_slave_def)
  ultimately show ?thesis using e m(2-4) unfolding counted_def by (intro exI [of _ m']) (simp add: m'_def)
qed

lemma counted_slaves:
  assumes "drivers_ok env" and "counted ms k 0 st"
    and "fold_res (init_slave env k) [0..<length (ma_slaves (ms ! k))] st = Inr st'"
  shows "counted ms k (length (ma_slaves (ms ! k))) st'"
proof -
  have "counted ms k n st'" if "n \<le> length (ma_slaves (ms ! k))" "fold_res (init_slave env k) [0..<n] st = Inr st'" for n st'
    using that
  proof (induction n arbitrary: st')
    case (Suc n)
    then obtain s where "fold_res (init_slave env k) [0..<n] st = Inr s" "init_slave env k n s = Inr st'"
      by (auto simp: fold_res_append)
    then show ?case using Suc counted_step [OF assms(1), of ms k n s st'] by simp
  qed (use assms(2) in simp)
  then show ?thesis using assms(3) by blast
qed

section \<open>The registration\<close>

lemma unit_regs_arrays:
  "list_all sound_slave ss \<Longrightarrow> unit_regs j ss d =
     fold_res (\<lambda>r d. lcec_append_pdo_entry_reg d r) (map (the \<circ> sl_regs) (filter (\<lambda>s. sl_sync_unit s = j) ss)) d"
proof (induction ss arbitrary: d)
  case (Cons s ss)
  have "unit_regs j ss = fold_res (\<lambda>r d. lcec_append_pdo_entry_reg d r) (map (the \<circ> sl_regs) (filter (\<lambda>s. sl_sync_unit s = j) ss))"
    by (rule ext, rule Cons.IH) (use Cons.prems in simp)
  moreover have "unit_regs j (s # ss) d = bind_res (if sl_sync_unit s = j
      then (case sl_regs s of None \<Rightarrow> Inl RegsNull | Some r \<Rightarrow> lcec_append_pdo_entry_reg d r) else Inr d) (unit_regs j ss)"
    by (simp add: unit_regs_def)
  ultimately show ?case using Cons.prems by (auto simp: sound_slave_def comp_def)
qed (simp add: unit_regs_def)

lemma unit_regs_fit:
  assumes "list_all sound_slave ss"
  obtains r where "unit_regs j ss (lcec_allocate_pdo_entry_reg (length (unit_entries j ss) + 1)) = Inr r"
    and "pr_entries r = unit_entries j ss @ [zero_reg]"
proof -
  let ?rs = "map (the \<circ> sl_regs) (filter (\<lambda>s. sl_sync_unit s = j) ss)"
  let ?d = "lcec_allocate_pdo_entry_reg (length (unit_entries j ss) + 1)"
  have ok: "\<forall>r\<in>set ?rs. regs_ok r" using assms by (auto simp: list_all_iff sound_slave_def)
  have e: "map regs_content ?rs = map slave_regs (filter (\<lambda>s. sl_sync_unit s = j) ss)"
    using assms by (auto simp: list_all_iff sound_slave_def slave_regs_def)
  then have c: "concat (map regs_content ?rs) = unit_entries j ss" by (simp only: unit_entries_def)
  have "(\<Sum>r\<leftarrow>?rs. length (regs_content r)) = length (unit_entries j ss)"
    using arg_cong [OF c, of length] by (simp only: length_concat map_map comp_def)
  then obtain r where r: "unit_regs j ss ?d = Inr r" "regs_ok r" "regs_content r = unit_entries j ss"
    "pr_max r = length (unit_entries j ss) + 1"
    using regs.append_all [OF allocate_regs(1) ok, of "length (unit_entries j ss) + 1"] c
    by (auto simp: unit_regs_arrays [OF assms])
  have "pr_current r = length (unit_entries j ss)" using regs_content_length [OF r(2)] r(3) by simp
  then have "pr_entries r = unit_entries j ss @ [zero_reg]" using regs_entries [OF r(2)] r(3,4) by simp
  with r(1) show thesis using that by blast
qed

text \<open>The registration of one Sync Unit: the array always fits, and the slaves stay.\<close>

lemma counted_all:
  assumes "counted ms k n st" and "n = length (ma_slaves (ms ! k))" and "init_register env k j st = Inr st'"
    and "j < length (ma_sync_units (ms ! k))"
  shows "counted ms k n st'" and "ma_slaves (the_master st' k) = ma_slaves (the_master st k)"
    and "IRegPdoEntries k j (unit_entries j (ma_slaves (the_master st k)) @ [zero_reg]) \<in> set (is_calls st')"
proof -
  obtain m where m: "is_masters st = ms[k := m]" "k < length ms" "length (ma_slaves m) = length (ma_slaves (ms ! k))"
    "length (ma_sync_units m) = length (ma_sync_units (ms ! k))"
    "\<forall>s\<in>set (ma_slaves m). sl_sync_unit s < length (ma_sync_units m)" "list_all sound_slave (take n (ma_slaves m))"
    and cnt: "\<forall>j < length (ma_sync_units m).
        su_pdo_entry_count (ma_sync_units m ! j) = length (unit_entries j (take n (ma_slaves m)))"
    using assms(1) by (auto simp: counted_def)
  have mk: "the_master st k = m" "k < length (is_masters st)" using m(1,2) by (simp_all add: the_master_def)
  have t: "take n (ma_slaves m) = ma_slaves m" using assms(2) m(3) by simp
  have c: "su_pdo_entry_count (the_unit st k j) = length (unit_entries j (ma_slaves m))"
    using cnt assms(4) m(4) mk t by (simp add: the_unit_def the_master_def)
  obtain r where r: "unit_regs j (ma_slaves m) (lcec_allocate_pdo_entry_reg (length (unit_entries j (ma_slaves m)) + 1)) = Inr r"
    "pr_entries r = unit_entries j (ma_slaves m) @ [zero_reg]"
    using unit_regs_fit [of "ma_slaves m" j] m(6) t by auto
  have st': "st' = emit (IRegPdoEntries k j (pr_entries r)) (set_unit k j (\<lambda>u. u\<lparr>su_regs := Some r\<rparr>) st)"
    using assms(3) r(1) by (auto simp: init_register_def mk c fail_unless_def split: if_splits)
  let ?m = "m\<lparr>ma_sync_units := (ma_sync_units m)[j := (ma_sync_units m ! j)\<lparr>su_regs := Some r\<rparr>]\<rparr>"
  have e: "is_masters st' = ms[k := ?m]" using m(1,2) by (simp add: st' set_unit_def set_master_def)
  show "counted ms k n st'"
    using e m cnt assms(4) unfolding counted_def by (intro exI [of _ ?m]) (auto simp: nth_list_update)
  show "ma_slaves (the_master st' k) = ma_slaves (the_master st k)" using e m(2) mk by (simp add: the_master_def)
  show "IRegPdoEntries k j (unit_entries j (ma_slaves (the_master st k)) @ [zero_reg]) \<in> set (is_calls st')"
    by (simp add: st' emit_def mk r(2))
qed

definition registered :: "nat \<Rightarrow> nat \<Rightarrow> init_state \<Rightarrow> bool" where
  "registered k us st \<longleftrightarrow>
     (\<forall>j < us. IRegPdoEntries k j (unit_entries j (ma_slaves (the_master st k)) @ [zero_reg]) \<in> set (is_calls st))"

lemma keeps_calls_mono: "keeps st st' \<Longrightarrow> set (is_calls st) \<subseteq> set (is_calls st')"
  by (auto simp: keeps_def)

lemma registered_mono:
  "registered k us st \<Longrightarrow> ma_slaves (the_master st' k) = ma_slaves (the_master st k) \<Longrightarrow>
   set (is_calls st) \<subseteq> set (is_calls st') \<Longrightarrow> registered k us st'"
  by (auto simp: registered_def)

lemma registered_units:
  assumes "counted ms k (length (ma_slaves (ms ! k))) st"
    and "fold_res (init_register env k) [0..<length (ma_sync_units (ms ! k))] st = Inr st'"
  shows "registered k (length (ma_sync_units (ms ! k))) st' \<and> counted ms k (length (ma_slaves (ms ! k))) st'"
proof -
  have "registered k n st' \<and> counted ms k (length (ma_slaves (ms ! k))) st'"
    if "n \<le> length (ma_sync_units (ms ! k))" "fold_res (init_register env k) [0..<n] st = Inr st'" for n st'
    using that
  proof (induction n arbitrary: st')
    case 0
    then show ?case using assms(1) by (simp add: registered_def)
  next
    case (Suc n)
    then obtain s where s: "fold_res (init_register env k) [0..<n] st = Inr s" "init_register env k n s = Inr st'"
      by (auto simp: fold_res_append)
    have ih: "registered k n s" "counted ms k (length (ma_slaves (ms ! k))) s" using Suc s(1) by simp_all
    have n: "n < length (ma_sync_units (ms ! k))" using Suc.prems(1) by simp
    note c = counted_all [OF ih(2) refl s(2) n]
    have "set (is_calls s) \<subseteq> set (is_calls st')"
      by (rule keeps_calls_mono [OF outcome_Inr [OF init_register_keeps s(2)]])
    then have "registered k n st'" using registered_mono ih(1) c(2) by blast
    then show ?case using c by (auto simp: registered_def less_Suc_eq)
  qed
  then show ?thesis using assms(2) by blast
qed

section \<open>A master, and all of them\<close>

text \<open>The steps that touch neither the slaves of a master nor the other masters.\<close>

definition settled :: "nat \<Rightarrow> init_state \<Rightarrow> init_state \<Rightarrow> bool" where
  "settled k st st' \<longleftrightarrow> (\<exists>m. is_masters st' = (is_masters st)[k := m] \<and> ma_slaves m = ma_slaves (is_masters st ! k))"

lemma settled_same: "is_masters st' = is_masters st \<Longrightarrow> settled k st st'"
  unfolding settled_def by (rule exI [of _ "is_masters st ! k"]) simp

lemma settled_set: "(\<And>m. ma_slaves (f m) = ma_slaves m) \<Longrightarrow> settled k st (set_master k f st)"
  unfolding settled_def by (rule exI [of _ "f (is_masters st ! k)"]) (simp add: set_master_def)

lemma settled_trans: "settled k a b \<Longrightarrow> settled k b c \<Longrightarrow> settled k a c"
proof -
  assume "settled k a b" and "settled k b c"
  then obtain m m' where m: "is_masters b = (is_masters a)[k := m]" "ma_slaves m = ma_slaves (is_masters a ! k)"
    and m': "is_masters c = (is_masters b)[k := m']" "ma_slaves m' = ma_slaves (is_masters b ! k)"
    by (auto simp: settled_def)
  show ?thesis
  proof (cases "k < length (is_masters a)")
    case True
    then show ?thesis using m m' unfolding settled_def by (intro exI [of _ m']) simp
  next
    case False
    then show ?thesis using m m' unfolding settled_def by (intro exI [of _ "is_masters a ! k"]) (simp add: list_update_beyond)
  qed
qed

lemma activate_slaves: "lcec_activate_master env m = (cs, ok, m') \<Longrightarrow> ma_slaves m' = ma_slaves m"
  by (auto simp: lcec_activate_master_def Let_def case_prod_unfold split: if_splits)

lemma init_legacy_settled:
  assumes "init_legacy_activate env k st = Inr st'"
  shows "settled k st st'"
proof (cases "ie_initf env")
  case True
  then show ?thesis using assms by (simp add: init_legacy_activate_def settled_same)
next
  case False
  obtain cs ok m' where a: "lcec_activate_master (ie_rt env k) (the_master st k) = (cs, ok, m')" by (metis prod_cases3)
  then have "st' = set_master k (\<lambda>_. m') (emit (IActivate k cs) st)"
    using assms False by (simp add: init_legacy_activate_def fail_unless_def split: if_splits)
  then show ?thesis
    using activate_slaves [OF a] unfolding settled_def
    by (intro exI [of _ m']) (simp add: set_master_def the_master_def)
qed

lemma init_master_pins_settled:
  assumes "init_master_pins env k st = Inr st'"
  shows "settled k st st'"
proof -
  obtain h objs' where e: "st' = (set_master k (\<lambda>m. m\<lparr>ma_hal := default_hal (ma_app_time_period m) h\<rparr>) st)\<lparr>is_objs := objs'\<rparr>"
    using assms by (auto simp: init_master_pins_def split: option.splits)
  have "settled k st (set_master k (\<lambda>m. m\<lparr>ma_hal := default_hal (ma_app_time_period m) h\<rparr>) st)"
    by (rule settled_set) simp
  then show ?thesis by (simp add: settled_def e)
qed

lemma export_settled: "export_funct env nm st = Inr st' \<Longrightarrow> is_masters st' = is_masters st"
  by (auto simp: export_funct_def Let_def fail_unless_def split: if_splits)

text \<open>Before the first slave nothing has been counted.\<close>

lemma request_counted:
  assumes "init_request env k st = Inr st'" and "k < length (is_masters st)" and "fresh_master (is_masters st ! k)"
  shows "counted (is_masters st) k 0 st'"
  using assms unfolding counted_def fresh_master_def
  by (intro exI [of _ "(is_masters st ! k)\<lparr>ma_master := True\<rparr>"])
    (auto simp: init_request_def Let_def set_master_def split: if_splits)

lemma init_domain_counted:
  assumes "init_domain env k j st = Inr st'" and "counted ms k 0 st"
  shows "counted ms k 0 st'"
proof -
  obtain m where m: "is_masters st = ms[k := m]" "k < length ms" "length (ma_slaves m) = length (ma_slaves (ms ! k))"
    "length (ma_sync_units m) = length (ma_sync_units (ms ! k))"
    "\<forall>s\<in>set (ma_slaves m). sl_sync_unit s < length (ma_sync_units m)"
    "\<forall>j < length (ma_sync_units m). su_pdo_entry_count (ma_sync_units m ! j) = 0"
    using assms(2) by (auto simp: counted_def)
  let ?m = "m\<lparr>ma_sync_units := (ma_sync_units m)[j := (ma_sync_units m ! j)\<lparr>su_domain := Some j\<rparr>],
      ma_domain := (if ma_domain m = None then Some j else ma_domain m)\<rparr>"
  have e: "is_masters st' = ms[k := ?m]"
    using assms(1) m(1,2) by (auto simp: init_domain_def Let_def set_unit_def set_master_def split: if_splits)
  have "su_pdo_entry_count (ma_sync_units ?m ! j') = 0" if "j' < length (ma_sync_units ?m)" for j'
    using that m(6) by (cases "j' = j") simp_all
  then show ?thesis using e m(2-5) unfolding counted_def by (intro exI [of _ ?m]) simp
qed

lemma init_master_registers:
  assumes "drivers_ok env" and "init_master env k st = Inr st'" and "k < length (is_masters st)"
    and "fresh_master (is_masters st ! k)"
  shows "registered k (length (ma_sync_units (is_masters st ! k))) st' \<and>
    (\<exists>m. is_masters st' = (is_masters st)[k := m])"
proof -
  let ?ms = "is_masters st"
  obtain a b c d e f g where a: "init_request env k st = Inr a"
    and b: "fold_res (init_domain env k) [0..<length (ma_sync_units (?ms ! k))] a = Inr b"
    and c: "fold_res (init_slave env k) [0..<length (ma_slaves (?ms ! k))] b = Inr c"
    and d: "fold_res (init_register env k) [0..<length (ma_sync_units (?ms ! k))] c = Inr d"
    and e: "init_master_pins env k d = Inr e" and f: "init_legacy_activate env k e = Inr f"
    and g: "export_funct env (LCEC_MODULE_NAME @ ''.'' @ ma_name (the_master st k) @ ''.read'') f = Inr g"
    and h: "export_funct env (LCEC_MODULE_NAME @ ''.'' @ ma_name (the_master st k) @ ''.write'') g = Inr st'"
    using assms(2) unfolding init_master_def the_master_def by (elim bind_res_InrE)
  have "counted ?ms k 0 b"
    by (rule fold_res_invariant [OF b, where P = "counted ?ms k 0", OF request_counted [OF a assms(3,4)]])
      (rule init_domain_counted)
  from registered_units [OF counted_slaves [OF assms(1) this c] d]
  have r: "registered k (length (ma_sync_units (?ms ! k))) d" "counted ?ms k (length (ma_slaves (?ms ! k))) d" by simp_all
  have s: "settled k d st'"
    using settled_trans [OF settled_trans [OF init_master_pins_settled [OF e] init_legacy_settled [OF f]]
        settled_same [of st' f k]] export_settled [OF g] export_settled [OF h] by simp
  obtain m where m: "is_masters d = ?ms[k := m]" using r(2) by (auto simp: counted_def)
  obtain m' where m': "is_masters st' = (is_masters d)[k := m']" "ma_slaves m' = ma_slaves (is_masters d ! k)"
    using s by (auto simp: settled_def)
  have "keeps d e" "keeps e f" "keeps f g" "keeps g st'"
    using outcome_Inr [OF init_master_pins_keeps e] outcome_Inr [OF init_legacy_activate_keeps f]
      outcome_Inr [OF export_funct_keeps g] outcome_Inr [OF export_funct_keeps h] by simp_all
  then have "set (is_calls d) \<subseteq> set (is_calls st')" using keeps_calls_mono by blast
  moreover have "ma_slaves (the_master st' k) = ma_slaves (the_master d k)"
    using m m' assms(3) by (simp add: the_master_def)
  ultimately have "registered k (length (ma_sync_units (?ms ! k))) st'" using registered_mono r(1) by blast
  then show ?thesis using m m' by auto
qed

lemma init_masters_register:
  assumes "drivers_ok env" and "fold_res (init_master env) [0..<n] st = Inr st'" and "n \<le> length (is_masters st)"
    and "list_all fresh_master (is_masters st)"
  shows "(\<forall>k < n. registered k (length (ma_sync_units (is_masters st ! k))) st') \<and>
    length (is_masters st') = length (is_masters st) \<and>
    (\<forall>k. n \<le> k \<longrightarrow> k < length (is_masters st) \<longrightarrow> is_masters st' ! k = is_masters st ! k)"
  using assms(2,3)
proof (induction n arbitrary: st')
  case (Suc n)
  then obtain s where s: "fold_res (init_master env) [0..<n] st = Inr s" "init_master env n s = Inr st'"
    by (auto simp: fold_res_append)
  have ih: "\<forall>k < n. registered k (length (ma_sync_units (is_masters st ! k))) s" "length (is_masters s) = length (is_masters st)"
    "\<forall>k. n \<le> k \<longrightarrow> k < length (is_masters st) \<longrightarrow> is_masters s ! k = is_masters st ! k"
    using Suc s(1) by simp_all
  have n: "n < length (is_masters s)" "is_masters s ! n = is_masters st ! n" using ih(2,3) Suc.prems(2) by simp_all
  have "fresh_master (is_masters s ! n)" using assms(4) n(2) Suc.prems(2) by (simp add: list_all_length)
  from init_master_registers [OF assms(1) s(2) n(1) this]
  obtain m where r: "registered n (length (ma_sync_units (is_masters st ! n))) st'" and m: "is_masters st' = (is_masters s)[n := m]"
    using n(2) by auto
  have cs: "set (is_calls s) \<subseteq> set (is_calls st')"
  proof -
    obtain a where a: "init_request env n s = Inr a" "init_rest env n s a = Inr st'" using s(2) by (auto simp: init_master_rest)
    have "set (is_calls s) \<subseteq> set (is_calls a)"
      using a(1) by (auto simp: init_request_def Let_def emit_def set_master_def split: if_splits)
    then show ?thesis using keeps_calls_mono [OF outcome_Inr [OF init_rest_keeps a(2)]] by blast
  qed
  have "registered k (length (ma_sync_units (is_masters st ! k))) st'" if "k < n" for k
  proof (rule registered_mono [OF _ _ cs])
    show "registered k (length (ma_sync_units (is_masters st ! k))) s" using ih(1) that by blast
    show "ma_slaves (the_master st' k) = ma_slaves (the_master s k)" using m that by (simp add: the_master_def)
  qed
  then show ?case using r ih(2,3) m by (auto simp: less_Suc_eq)
qed simp

lemma init_all_registers:
  assumes "drivers_ok env" and "list_all fresh_master (is_masters st)" and "init_all env st = Inr st'"
    and "k < length (is_masters st)"
  shows "registered k (length (ma_sync_units (is_masters st ! k))) st'"
proof -
  obtain a b c d where a: "init_global_pins env st = Inr a"
    and b: "fold_res (init_master env) [0..<length (is_masters st)] a = Inr b"
    and c: "(if ie_initf env then export_funct env (LCEC_MODULE_NAME @ ''.activate'') b else Inr b) = Inr c"
    and d: "export_funct env (LCEC_MODULE_NAME @ ''.read-all'') c = Inr d"
    and e: "export_funct env (LCEC_MODULE_NAME @ ''.write-all'') d = Inr st'"
    using assms(3) unfolding init_all_def by (elim bind_res_InrE)
  have am: "is_masters a = is_masters st" using a by (auto simp: init_global_pins_def split: option.splits)
  have r: "registered k (length (ma_sync_units (is_masters st ! k))) b"
    using init_masters_register [OF assms(1), of "length (is_masters st)" a b] b am assms(2,4) by simp
  have "keeps b c" using c outcome_Inr [OF export_funct_keeps] by (cases "ie_initf env") auto
  moreover have "is_masters c = is_masters b" using c export_settled by (cases "ie_initf env") auto
  moreover have "keeps c d" "keeps d st'" using outcome_Inr [OF export_funct_keeps d] outcome_Inr [OF export_funct_keeps e] .
  moreover have "is_masters st' = is_masters c" using export_settled [OF d] export_settled [OF e] by simp
  ultimately have "set (is_calls b) \<subseteq> set (is_calls st')" and "ma_slaves (the_master st' k) = ma_slaves (the_master b k)"
    using keeps_calls_mono [of b c] keeps_calls_mono [of c d] keeps_calls_mono [of d st'] by (auto simp: the_master_def)
  then show ?thesis by (intro registered_mono [OF r])
qed

end
