(* ===== verification/SamplesBus.thy ===== *)
theory SamplesBus
  imports Samples SyncsOrder InitRegs
begin

text \<open>
  Concrete inputs for the start of the component and for its helpers: the answers of a bus on
  which everything succeeds, a driver for the registered type of the sample configuration, a
  building sequence for sync managers, and pins of a generic slave.
\<close>

section \<open>A start\<close>

definition sample_sdo_env :: sdo_env where
  "sample_sdo_env =
     \<lparr>se_upload = (\<lambda>_ _ _ n. (0, replicate n 7, n)), se_download = (\<lambda>_ _ _ _. 0), se_config = (\<lambda>_ _ _ _. 0),
      se_config_complete = (\<lambda>_ _ _. 0), se_read_idn = (\<lambda>_ _ _ n. (0, replicate n 0, n)), se_config_idn = (\<lambda>_ _ _ _ _. 0)\<rparr>"

text \<open>The driver registers one entry; \<open>-5\<close> stands for any other error.\<close>

definition sample_driver :: "string \<Rightarrow> string \<Rightarrow> lcec_slave \<Rightarrow> hal_obj list \<Rightarrow> (int \<times> lcec_slave \<times> hal_obj list) option" where
  "sample_driver name mname s objs =
     (case lcec_pdo_init s 0x6000 1 (Some 0) (Some 0) of
        Inl e \<Rightarrow> Some (-5, s, objs)
      | Inr s' \<Rightarrow> Some (0, s'\<lparr>sl_proc_read := True\<rparr>, objs))"

definition sample_init_env :: init_env where
  "sample_init_env =
     \<lparr>ie_hal_init = True, ie_initf = True, ie_request = (\<lambda>_ _. True), ie_domain = (\<lambda>_ _. True),
      ie_slave_config = (\<lambda>_ _. True), ie_sdo = sample_sdo_env, ie_proc_init = sample_driver,
      ie_config_pdos = (\<lambda>_ _. 0), ie_reg_list = (\<lambda>_ _. 0),
      ie_hal = \<lparr>he_name_len = 47, he_new = (\<lambda>_ _ _ _. 0)\<rparr>, ie_rt = (\<lambda>_. sample_rt), ie_export = (\<lambda>_. 0)\<rparr>"

lemma sample_drivers_ok: "drivers_ok (sample_init_env\<lparr>ie_export := f, ie_request := g\<rparr>)"
proof -
  have "driver_keeps s s'" if "sample_driver name mname s objs = Some (e, s', objs')" for name mname s objs e s' objs'
    using that pdo_init_keeps by (fastforce simp: sample_driver_def driver_keeps_def split: sum.splits)
  then show ?thesis by (simp add: drivers_ok_def sample_init_env_def)
qed

section \<open>Sync managers\<close>

definition sample_calls :: "sync_call list" where
  "sample_calls =
     [AddSync EC_DIR_OUTPUT EC_WD_DEFAULT, AddPdo 0x1600, AddEntry 0x7000 1 16, AddEntry 0x7000 2 32,
      AddSync EC_DIR_INPUT EC_WD_DISABLE, AddPdo 0x1a00, AddEntry 0x6000 1 16, AddEntry 0x6000 2 16, AddEntry 0x6000 3 8]"

section \<open>Pins\<close>

definition sample_u32_pin :: generic_pin where
  "sample_u32_pin =
     zero_pin\<lparr>gp_type := HAL_U32, gp_dir := HAL_IN, gp_bitLength := 5, gp_bitOffset := 3, gp_pdo_os := 1,
              gp_pin := [HvU32 40]\<rparr>"

definition sample_s32_pin :: generic_pin where
  "sample_s32_pin = zero_pin\<lparr>gp_type := HAL_S32, gp_dir := HAL_IN, gp_bitLength := 8, gp_pin := [HvS32 (-3)]\<rparr>"

section \<open>What the starts do\<close>

definition sample_refusing_env :: init_env where
  "sample_refusing_env = sample_init_env\<lparr>ie_export := (\<lambda>_. 1)\<rparr>"

lemma sample_start:
  "case rtapi_app_main sample_init_env sample_load_env sample_image of
     Some (r, cs, ms) \<Rightarrow> r = 0 \<and> map (\<lambda>m. (length (ma_slaves m), length (ma_sync_units m))) ms = [(2, 2)] | None \<Rightarrow> False"
  by code_simp

lemma sample_failed_start:
  "case rtapi_app_main sample_refusing_env sample_load_env sample_image of
     Some (r, cs, ms) \<Rightarrow> r = - EINVAL \<and> length ms = 1 \<and> IRequestMaster 0 0 \<in> set cs | None \<Rightarrow> False"
  by code_simp

end
