(* ===== verification/EncDev.thy ===== *)
theory EncDev
  imports BusData HalExport
begin

text \<open>
  The library of encoder-like devices (\<open>devices/lcec_class_enc.c\<close>): the raw count of a device,
  of up to 32 bits, is extended to 64 bits, and positions, home flags, the index and the latch
  are derived from it. Floating-point values are real numbers, and every arithmetic result goes
  through the rounding \<open>rnd\<close>; \<open>None\<close> is a shift or a division C does not define.
\<close>

section \<open>State\<close>

record enc_data =
  en_raw_home :: u32
  en_raw_bits :: u32
  en_pprev_scale :: real
  en_raw :: int
  en_ext_lo :: u32
  en_ext_hi :: u32
  en_ref_lo :: u32
  en_ref_hi :: u32
  en_index_ena :: bool
  en_pos_reset :: bool
  en_pos_enc :: real
  en_pos_abs :: real
  en_pos :: real
  en_on_home_neg :: bool
  en_on_home_pos :: bool
  en_do_init :: bool
  en_raw_shift :: int
  en_raw_mask :: u32
  en_pprev_last :: u64
  en_index_sign :: int

definition enc_pins :: "pindesc list" where
  "enc_pins =
     [pin_row HAL_S32 HAL_OUT ''raw'' ''%s.%s.%s.%s-raw'',
      pin_row HAL_U32 HAL_IO ''ext_lo'' ''%s.%s.%s.%s-ext-lo'',
      pin_row HAL_U32 HAL_IO ''ext_hi'' ''%s.%s.%s.%s-ext-hi'',
      pin_row HAL_U32 HAL_OUT ''ref_lo'' ''%s.%s.%s.%s-ref-lo'',
      pin_row HAL_U32 HAL_OUT ''ref_hi'' ''%s.%s.%s.%s-ref-hi'',
      pin_row HAL_BIT HAL_IO ''index_ena'' ''%s.%s.%s.%s-index-ena'',
      pin_row HAL_BIT HAL_IN ''pos_reset'' ''%s.%s.%s.%s-pos-reset'',
      pin_row HAL_FLOAT HAL_OUT ''pos_enc'' ''%s.%s.%s.%s-pos-enc'',
      pin_row HAL_FLOAT HAL_OUT ''pos_abs'' ''%s.%s.%s.%s-pos-abs'',
      pin_row HAL_FLOAT HAL_OUT ''pos'' ''%s.%s.%s.%s-pos'',
      pin_row HAL_BIT HAL_OUT ''on_home_neg'' ''%s.%s.%s.%s-on-home-neg'',
      pin_row HAL_BIT HAL_OUT ''on_home_pos'' ''%s.%s.%s.%s-on-home-pos'',
      pin_end]"

definition enc_params :: "paramdesc list" where
  "enc_params =
     [param_row HAL_U32 HAL_RW ''raw_home'' ''%s.%s.%s.%s-raw-home'',
      param_row HAL_U32 HAL_RO ''raw_bits'' ''%s.%s.%s.%s-raw-bits'',
      param_row HAL_FLOAT HAL_RO ''pprev_scale'' ''%s.%s.%s.%s-pprev-scale'',
      param_row HAL_TYPE_UNSPECIFIED HAL_RO [] []]"

section \<open>Initialisation\<close>

definition enc_setup :: "int \<Rightarrow> enc_data \<Rightarrow> enc_data option" where
  "enc_setup raw_bits d =
     (let bits = (word_of_int raw_bits :: u32) in
      if unat bits < 63 then
        Some (d\<lparr>en_do_init := True, en_index_sign := 0, en_pprev_last := 0, en_pprev_scale := 1,
                en_raw_bits := bits, en_raw_shift := s32 (uint (32 - bits)),
                en_raw_mask := word_of_int (2 ^ unat bits - 1)\<rparr>)
      else None)"

definition class_enc_init ::
    "hal_env \<Rightarrow> string \<Rightarrow> string \<Rightarrow> int \<Rightarrow> string \<Rightarrow> enc_data \<Rightarrow> hal_obj list \<Rightarrow> (int \<times> enc_data \<times> hal_obj list) option" where
  "class_enc_init env mname sname raw_bits pfx d objs =
     (let as = [FStr LCEC_MODULE_NAME, FStr mname, FStr sname, FStr pfx] in
      Option.bind (lcec_pin_newf_list env enc_pins as objs) (\<lambda>(err, objs).
        if err \<noteq> 0 then Some (err, d, objs)
        else Option.bind (lcec_param_newf_list env enc_params as objs) (\<lambda>(err, objs).
          if err \<noteq> 0 then Some (err, d, objs)
          else map_option (\<lambda>d. (0, d, objs)) (enc_setup raw_bits d))))"

section \<open>Counts and references\<close>

text \<open>
  \<open>((int32_t)(a << shift) - (int32_t)(b << shift)) >> shift\<close>, with the difference wrapped as the
  compilers do.
\<close>

definition raw_diff :: "int \<Rightarrow> u32 \<Rightarrow> u32 \<Rightarrow> int option" where
  "raw_diff shift a b =
     (if 0 \<le> shift \<and> shift < 32 then
        Some (s32 (sint (push_bit (nat shift) a) - sint (push_bit (nat shift) b)) div 2 ^ nat shift)
      else None)"

text \<open>\<open>((long long)hi << 32) | lo\<close>, and the two halves of a 64-bit value.\<close>

definition ll_of :: "u32 \<Rightarrow> u32 \<Rightarrow> int" where
  "ll_of hi lo = s64 (uint hi * 4294967296 + uint lo)"

definition ll_hi :: "int \<Rightarrow> u32" where "ll_hi v = word_of_int (v div 4294967296)"
definition ll_lo :: "int \<Rightarrow> u32" where "ll_lo v = word_of_int v"

definition set_ref :: "int \<Rightarrow> enc_data \<Rightarrow> enc_data" where
  "set_ref ref d = d\<lparr>en_ref_hi := ll_hi ref, en_ref_lo := ll_lo ref\<rparr>"

text \<open>
  The operands of \<open>val % div\<close> are \<open>long long\<close> and \<open>unsigned long\<close>: where both have 64 bits, C takes
  the value as unsigned.
\<close>

definition lcec_mod_64 :: "int \<Rightarrow> u64 \<Rightarrow> int option" where
  "lcec_mod_64 val d = (if d = 0 then None else Some (s64 (val mod 18446744073709551616 mod uint d)))"

definition signed_mod_64 :: "int \<Rightarrow> u64 \<Rightarrow> int option" where
  "signed_mod_64 val d =
     map_option (\<lambda>rem.
         let rem = (if rem < 0 then s64 (rem + uint d) else rem) in
         if rem mod 18446744073709551616 > uint (drop_bit 1 d) then s64 (rem - uint d) else rem)
       (lcec_mod_64 val d)"

section \<open>The update\<close>

text \<open>The arguments of one call.\<close>

record enc_in =
  ei_pprev :: u64
  ei_scale :: real
  ei_raw :: u32
  ei_ext_latch_raw :: u32
  ei_ext_latch_ena :: bool

definition enc_pos_scale :: "(real \<Rightarrow> real) \<Rightarrow> enc_in \<Rightarrow> enc_data \<Rightarrow> real \<times> enc_data" where
  "enc_pos_scale rnd u d =
     (let (sc, d) =
        (if ei_pprev u > 0 then
           let d = (if en_do_init d \<or> en_pprev_last d \<noteq> ei_pprev u
                    then d\<lparr>en_pprev_scale := rnd (1 / rnd (real_of_int (uint (ei_pprev u)))), en_index_sign := 0\<rparr> else d)
           in (rnd (en_pprev_scale d * ei_scale u), d)
         else (ei_scale u, d))
      in (sc, d\<lparr>en_pprev_last := ei_pprev u\<rparr>))"

definition enc_float :: "(real \<Rightarrow> real) \<Rightarrow> real \<Rightarrow> int \<Rightarrow> real" where
  "enc_float rnd sc pos = rnd (rnd (real_of_int pos) * sc)"

definition enc_extrapolate :: "(real \<Rightarrow> real) \<Rightarrow> real \<Rightarrow> enc_in \<Rightarrow> enc_data \<Rightarrow> (int \<times> enc_data) option" where
  "enc_extrapolate rnd sc u d =
     (let d = (if en_do_init d then d\<lparr>en_raw := sint (en_ext_lo d AND en_raw_mask d)\<rparr> else d) in
      map_option (\<lambda>diff.
          let pos = s64 (ll_of (en_ext_hi d) (en_ext_lo d) + diff) in
          (pos, d\<lparr>en_raw := sint (ei_raw u), en_ext_hi := ll_hi pos, en_ext_lo := ll_lo pos,
                  en_pos_enc := enc_float rnd sc pos\<rparr>))
        (raw_diff (en_raw_shift d) (ei_raw u) (word_of_int (en_raw d))))"

definition enc_home :: "(real \<Rightarrow> real) \<Rightarrow> real \<Rightarrow> int \<Rightarrow> enc_data \<Rightarrow> (int \<times> enc_data) option" where
  "enc_home rnd sc pos d =
     map_option (\<lambda>diff.
         let pos = s64 (pos + diff) in
         (pos, d\<lparr>en_pos_abs := enc_float rnd sc pos, en_on_home_neg := pos \<le> 0, en_on_home_pos := 0 \<le> pos\<rparr>))
       (raw_diff (en_raw_shift d) 0 (en_raw_home d))"

definition enc_index_at :: "u32 \<Rightarrow> int \<Rightarrow> int \<Rightarrow> enc_data \<Rightarrow> enc_data" where
  "enc_index_at ovfl_win pos m d =
     (let sg = (if m \<ge> 0 then 1 else -1);
          d = (if en_index_sign d \<noteq> 0 \<and> sg \<noteq> en_index_sign d \<and> m \<le> uint ovfl_win
               then set_ref (s64 (pos - m)) (d\<lparr>en_index_ena := False\<rparr>) else d)
      in d\<lparr>en_index_sign := sg\<rparr>)"

definition enc_index :: "enc_in \<Rightarrow> int \<Rightarrow> enc_data \<Rightarrow> enc_data option" where
  "enc_index u pos d =
     (if en_index_ena d then
        let ovfl_win = ucast (drop_bit 2 (ei_pprev u)) in
        if ovfl_win = 0 \<or> ei_pprev u > 0xffffffff then Some (set_ref pos (d\<lparr>en_index_ena := False\<rparr>))
        else map_option (\<lambda>m. enc_index_at ovfl_win pos m d) (signed_mod_64 pos (ei_pprev u))
      else Some (d\<lparr>en_index_sign := 0\<rparr>))"

definition enc_latch :: "enc_in \<Rightarrow> int \<Rightarrow> enc_data \<Rightarrow> enc_data option" where
  "enc_latch u pos d =
     (if ei_ext_latch_ena u
      then map_option (\<lambda>diff. set_ref (s64 (pos + diff)) d) (raw_diff (en_raw_shift d) (ei_ext_latch_raw u) (ei_raw u))
      else Some d)"

definition enc_relative :: "(real \<Rightarrow> real) \<Rightarrow> real \<Rightarrow> int \<Rightarrow> enc_data \<Rightarrow> enc_data" where
  "enc_relative rnd sc pos d =
     (let d = (if en_do_init d \<or> en_pos_reset d then set_ref pos d else d)
      in d\<lparr>en_pos := enc_float rnd sc (s64 (pos - ll_of (en_ref_hi d) (en_ref_lo d))), en_do_init := False\<rparr>)"

definition class_enc_update :: "(real \<Rightarrow> real) \<Rightarrow> enc_in \<Rightarrow> enc_data \<Rightarrow> enc_data option" where
  "class_enc_update rnd u d =
     (let (sc, d) = enc_pos_scale rnd u d in
      Option.bind (enc_extrapolate rnd sc u d) (\<lambda>(pos, d).
      Option.bind (enc_home rnd sc pos d) (\<lambda>(pos, d).
      Option.bind (enc_index u pos d) (\<lambda>d.
      map_option (enc_relative rnd sc pos) (enc_latch u pos d)))))"

section \<open>Differences of counts\<close>

text \<open>The difference of two counts of \<open>b\<close> bits is taken around the circle, the short way.\<close>

definition centred :: "nat \<Rightarrow> int \<Rightarrow> bool" where
  "centred b k \<longleftrightarrow> - (2 ^ (b - 1)) \<le> k \<and> k < 2 ^ (b - 1)"

lemma centred_unique:
  assumes "0 < b" and "centred b j" and "centred b k" and "(2 ^ b) dvd (j - k)"
  shows "j = k"
proof -
  have e: "(2 :: int) ^ b = 2 * 2 ^ (b - 1)" using assms(1) by (simp flip: power_Suc)
  have "\<bar>j - k\<bar> < 2 ^ b" using assms(2,3) unfolding centred_def e by linarith
  then show ?thesis using assms(4) by (metis dvd_imp_le_int abs_ge_zero linorder_not_less abs_of_nonneg right_minus_eq zero_le_numeral zero_le_power)
qed

lemma sint_dvd: "(4294967296 :: int) dvd (sint (w :: u32) - uint w)"
proof -
  have "take_bit 32 (sint w) = take_bit 32 (uint w)" by (simp add: sint_uint take_bit_signed_take_bit)
  then have "sint w mod 4294967296 = uint w mod 4294967296" by (simp add: take_bit_eq_mod)
  then show ?thesis by (simp add: mod_eq_dvd_iff)
qed

lemma s32_dvd: "(4294967296 :: int) dvd (s32 i - i)"
  using s32_cong_mod [of i] by (simp add: mod_eq_dvd_iff)

lemma uint_push_dvd: "(4294967296 :: int) dvd (uint (push_bit s (w :: u32)) - uint w * 2 ^ s)"
proof -
  have "uint (push_bit s w) = (uint w * 2 ^ s) mod 4294967296"
    by (simp add: unsigned_push_bit_eq push_bit_eq_mult [where ?'a = int] take_bit_eq_mod)
  then show ?thesis by (simp flip: mod_eq_dvd_iff)
qed

lemma raw_diff_spec:
  assumes "0 < b" and "b \<le> 32"
  obtains k where "raw_diff (32 - int b) a c = Some k" and "centred b k" and "(2 ^ b) dvd (k - (uint a - uint c))"
proof -
  define s where "s = 32 - b"
  define D where "D = s32 (sint (push_bit s a) - sint (push_bit s c))"
  define k where "k = D div 2 ^ s"
  have sb: "(4294967296 :: int) = 2 ^ s * 2 ^ b" using assms by (simp add: s_def flip: power_add)
  have "(4294967296 :: int) dvd (D - (uint a - uint c) * 2 ^ s)"
  proof -
    have "D - (uint a - uint c) * 2 ^ s =
        (D - (sint (push_bit s a) - sint (push_bit s c)))
        + ((sint (push_bit s a) - uint (push_bit s a)) + (uint (push_bit s a) - uint a * 2 ^ s))
        - ((sint (push_bit s c) - uint (push_bit s c)) + (uint (push_bit s c) - uint c * 2 ^ s))"
      by (simp add: algebra_simps)
    then show ?thesis by (simp only: D_def) (intro dvd_add dvd_diff s32_dvd sint_dvd uint_push_dvd)
  qed
  then obtain q where q: "D - (uint a - uint c) * 2 ^ s = 2 ^ s * 2 ^ b * q" unfolding sb by (elim dvdE)
  then have D: "D = (uint a - uint c + 2 ^ b * q) * 2 ^ s" by (simp add: algebra_simps)
  then have k: "k = uint a - uint c + 2 ^ b * q" by (simp add: k_def)
  have rng: "- 2147483648 \<le> D" "D < 2147483648" using in_s32_s32 by (simp_all add: D_def in_s32_def)
  have h: "(2147483648 :: int) = 2 ^ (b - 1) * 2 ^ s" using assms by (simp add: s_def flip: power_add)
  have "- (2 ^ (b - 1)) * 2 ^ s \<le> k * 2 ^ s" "k * 2 ^ s < 2 ^ (b - 1) * 2 ^ s" using rng D k unfolding h by simp_all
  then have "centred b k" unfolding centred_def by (simp_all only: mult_le_cancel_right mult_less_cancel_right) simp_all
  moreover have "raw_diff (32 - int b) a c = Some k"
    using assms by (simp add: raw_diff_def k_def D_def s_def nat_diff_distrib)
  moreover have "(2 ^ b) dvd (k - (uint a - uint c))" unfolding k by simp
  ultimately show thesis using that by blast
qed

section \<open>The extended position\<close>

definition enc_ext :: "enc_data \<Rightarrow> int" where "enc_ext d = ll_of (en_ext_hi d) (en_ext_lo d)"
definition enc_ref :: "enc_data \<Rightarrow> int" where "enc_ref d = ll_of (en_ref_hi d) (en_ref_lo d)"

lemma s64_mod: "s64 i mod 18446744073709551616 = i mod 18446744073709551616"
  by (simp add: s64_def mod_diff_left_eq)

lemma s64_cong: "i mod 18446744073709551616 = j mod 18446744073709551616 \<Longrightarrow> s64 i = s64 j"
  by (metis (no_types, lifting) mod_add_left_eq s64_def)

lemma ll_halves [simp]: "ll_of (ll_hi v) (ll_lo v) = s64 v"
proof -
  have "v = v div 4294967296 * 4294967296 + v mod 4294967296" by simp
  moreover have "v div 4294967296 mod 4294967296 * 4294967296 + v mod 4294967296 = v mod 18446744073709551616"
    using mod_mult2_eq' [of v 4294967296 4294967296] by (simp add: mult.commute)
  ultimately show ?thesis unfolding ll_of_def ll_hi_def ll_lo_def
    by (intro s64_cong) (simp add: uint_word_of_int)
qed

lemma uint_ll_lo: "uint (ll_lo v) = v mod 4294967296"
  by (simp add: ll_lo_def uint_word_of_int)

lemma pow2_dvd: "b \<le> 32 \<Longrightarrow> (2 ^ b :: int) dvd 4294967296"
  using le_imp_power_dvd [of b 32 "2 :: int"] by simp

lemma ll_of_dvd: "(4294967296 :: int) dvd (ll_of hi lo - uint lo)"
proof -
  have "ll_of hi lo mod 18446744073709551616 = (uint hi * 4294967296 + uint lo) mod 18446744073709551616"
    by (simp add: ll_of_def s64_mod)
  then have "(18446744073709551616 :: int) dvd (ll_of hi lo - (uint hi * 4294967296 + uint lo))" by (simp add: mod_eq_dvd_iff)
  then have "(4294967296 :: int) dvd (ll_of hi lo - (uint hi * 4294967296 + uint lo))"
    by (rule dvd_trans [rotated]) simp
  then have "(4294967296 :: int) dvd (ll_of hi lo - (uint hi * 4294967296 + uint lo) + uint hi * 4294967296)"
    by (intro dvd_add) simp_all
  then show ?thesis by simp
qed

lemma s64_dvd: "(4294967296 :: int) dvd (s64 i - i)"
proof -
  have "(18446744073709551616 :: int) dvd (s64 i - i)" using s64_mod [of i] by (simp add: mod_eq_dvd_iff)
  then show ?thesis by (rule dvd_trans [rotated]) simp
qed

section \<open>What an update keeps\<close>

text \<open>
  The last count agrees with the extended position, and the cached factor is the one of the last
  number of counts per revolution.
\<close>

definition enc_scale1 :: "(real \<Rightarrow> real) \<Rightarrow> u64 \<Rightarrow> real" where
  "enc_scale1 rnd pprev = rnd (1 / rnd (real_of_int (uint pprev)))"

definition enc_scale :: "(real \<Rightarrow> real) \<Rightarrow> enc_in \<Rightarrow> real" where
  "enc_scale rnd u = (if ei_pprev u > 0 then rnd (enc_scale1 rnd (ei_pprev u) * ei_scale u) else ei_scale u)"

definition enc_ok :: "(real \<Rightarrow> real) \<Rightarrow> nat \<Rightarrow> enc_data \<Rightarrow> bool" where
  "enc_ok rnd b d \<longleftrightarrow> 0 < b \<and> b \<le> 32 \<and> en_raw_shift d = 32 - int b \<and> en_raw_mask d = mask b \<and>
     (en_do_init d \<or> (2 ^ b) dvd (en_raw d - enc_ext d) \<and>
        (en_pprev_last d \<noteq> 0 \<longrightarrow> en_pprev_scale d = enc_scale1 rnd (en_pprev_last d)))"

lemma enc_setup_ok:
  assumes "enc_setup (int b) d = Some d'" and "0 < b" and "b \<le> 32"
  shows "enc_ok rnd b d' \<and> en_do_init d' \<and> enc_ext d' = enc_ext d"
proof -
  have u: "uint (of_nat b :: u32) = int b" using assms(3) by (simp add: unsigned_of_nat take_bit_eq_mod)
  have "uint (32 - of_nat b :: u32) = 32 - int b" using assms(3) u by (simp add: uint_word_ariths)
  moreover have "unat (of_nat b :: u32) = b" using u by (simp add: unat_eq_nat_uint)
  ultimately show ?thesis using assms by (auto simp: enc_setup_def Let_def enc_ok_def enc_ext_def in_s32_def mask_eq_exp_minus_1)
qed

lemma class_enc_init_ok:
  assumes "class_enc_init env mname sname (int b) pfx d objs = Some (0, d', objs')" and "0 < b" and "b \<le> 32"
  shows "enc_ok rnd b d' \<and> en_do_init d' \<and> enc_ext d' = enc_ext d"
proof -
  have "enc_setup (int b) d = Some d'"
    using assms(1) by (auto simp: class_enc_init_def Let_def bind_eq_Some_conv split: if_splits)
  then show ?thesis using assms(2,3) by (rule enc_setup_ok)
qed

lemma enc_pos_scale_ok:
  assumes "enc_ok rnd b d"
  obtains d' where "enc_pos_scale rnd u d = (enc_scale rnd u, d')" and "enc_ok rnd b d'"
    and "enc_ext d' = enc_ext d" and "en_do_init d' = en_do_init d" and "en_raw_home d' = en_raw_home d"
    and "en_index_ena d' = en_index_ena d" and "enc_ref d' = enc_ref d" and "en_pos_reset d' = en_pos_reset d"
    and "en_pprev_last d' = ei_pprev u" and "ei_pprev u \<noteq> 0 \<Longrightarrow> en_pprev_scale d' = enc_scale1 rnd (ei_pprev u)"
    and "en_index_sign d' = (if ei_pprev u > 0 \<and> (en_do_init d \<or> en_pprev_last d \<noteq> ei_pprev u) then 0 else en_index_sign d)"
proof -
  define d' where "d' = snd (enc_pos_scale rnd u d)"
  show thesis
  proof (cases "ei_pprev u > 0 \<and> (en_do_init d \<or> en_pprev_last d \<noteq> ei_pprev u)")
    case True
    then have d': "d' = d\<lparr>en_pprev_scale := enc_scale1 rnd (ei_pprev u), en_index_sign := 0, en_pprev_last := ei_pprev u\<rparr>"
      and e: "enc_pos_scale rnd u d = (enc_scale rnd u, d')"
      by (auto simp: d'_def enc_pos_scale_def enc_scale_def enc_scale1_def)
    show thesis using True assms by (intro that [OF e]) (auto simp: d' enc_ok_def enc_ext_def enc_ref_def)
  next
    case False
    then have d': "d' = d\<lparr>en_pprev_last := ei_pprev u\<rparr>" by (auto simp: d'_def enc_pos_scale_def)
    have e: "enc_pos_scale rnd u d = (enc_scale rnd u, d')"
      using False assms by (auto simp: d' enc_pos_scale_def enc_scale_def enc_ok_def)
    show thesis using False assms by (intro that [OF e]) (auto simp: d' enc_ok_def enc_ext_def enc_ref_def word_neq_0_conv)
  qed
qed

lemma mod_pow2_dvd: "b \<le> 32 \<Longrightarrow> (4294967296 :: int) dvd (x - y) \<Longrightarrow> (2 ^ b) dvd (x - y)"
  by (rule dvd_trans [OF pow2_dvd])

text \<open>With an update the extended position moves by the short way from the last count to the new one.\<close>

lemma enc_extrapolate_ok:
  assumes ok: "enc_ok rnd b d"
  obtains k d' where "enc_extrapolate rnd sc u d = Some (s64 (enc_ext d + k), d')"
    and "centred b k" and "(2 ^ b) dvd (enc_ext d + k - uint (ei_raw u))"
    and "(2 ^ b) dvd (en_raw d' - enc_ext d')"
    and "d' = d\<lparr>en_raw := en_raw d', en_ext_hi := en_ext_hi d', en_ext_lo := en_ext_lo d',
                en_pos_enc := enc_float rnd sc (s64 (enc_ext d + k))\<rparr>"
    and "enc_ext d' = s64 (enc_ext d + k)"
proof -
  have b: "0 < b" "b \<le> 32" and sh: "en_raw_shift d = 32 - int b" and mask: "en_raw_mask d = mask b" using ok by (simp_all add: enc_ok_def)
  define e where "e = (if en_do_init d then d\<lparr>en_raw := sint (en_ext_lo d AND en_raw_mask d)\<rparr> else d)"
  have raw: "(2 ^ b) dvd (uint (word_of_int (en_raw e) :: u32) - enc_ext d)"
  proof (cases "en_do_init d")
    case True
    have m: "uint (word_of_int (en_raw e) :: u32) = uint (en_ext_lo d) mod 2 ^ b"
      using True b by (simp add: e_def mask flip: take_bit_eq_mask) (simp add: unsigned_take_bit_eq take_bit_eq_mod [where ?'a = int])
    have "(2 ^ b) dvd (uint (en_ext_lo d) mod 2 ^ b - uint (en_ext_lo d))" by (simp flip: mod_eq_dvd_iff)
    moreover have "(2 ^ b) dvd (uint (en_ext_lo d) - enc_ext d)"
      using mod_pow2_dvd [OF b(2) ll_of_dvd [of "en_ext_hi d" "en_ext_lo d"]] by (simp add: enc_ext_def dvd_diff_commute)
    ultimately have "(2 ^ b) dvd ((uint (en_ext_lo d) mod 2 ^ b - uint (en_ext_lo d)) + (uint (en_ext_lo d) - enc_ext d))"
      by (rule dvd_add)
    then show ?thesis by (simp add: m)
  next
    case False
    have "(4294967296 :: int) dvd (uint (word_of_int (en_raw d) :: u32) - en_raw d)" by (simp add: uint_word_of_int flip: mod_eq_dvd_iff)
    then have "(2 ^ b) dvd (uint (word_of_int (en_raw d) :: u32) - en_raw d)" by (rule mod_pow2_dvd [OF b(2)])
    moreover have "(2 ^ b) dvd (en_raw d - enc_ext d)" using ok False by (simp add: enc_ok_def)
    ultimately have "(2 ^ b) dvd ((uint (word_of_int (en_raw d) :: u32) - en_raw d) + (en_raw d - enc_ext d))" by (rule dvd_add)
    then show ?thesis using False by (simp add: e_def)
  qed
  obtain k where k: "raw_diff (32 - int b) (ei_raw u) (word_of_int (en_raw e)) = Some k" "centred b k"
    "(2 ^ b) dvd (k - (uint (ei_raw u) - uint (word_of_int (en_raw e) :: u32)))"
    using raw_diff_spec [OF b] by metis
  define p where "p = s64 (enc_ext d + k)"
  define d' where "d' = d\<lparr>en_raw := sint (ei_raw u), en_ext_hi := ll_hi p, en_ext_lo := ll_lo p, en_pos_enc := enc_float rnd sc p\<rparr>"
  have ext: "enc_ext d' = p" by (simp add: d'_def enc_ext_def) (simp add: p_def)
  have run: "enc_extrapolate rnd sc u d = Some (p, d')"
  proof -
    have "en_raw_shift e = 32 - int b" "en_ext_hi e = en_ext_hi d" "en_ext_lo e = en_ext_lo d" by (simp_all add: e_def sh)
    then have "enc_extrapolate rnd sc u d = Some (p, e\<lparr>en_raw := sint (ei_raw u), en_ext_hi := ll_hi p, en_ext_lo := ll_lo p,
                                                     en_pos_enc := enc_float rnd sc p\<rparr>)"
      by (simp add: enc_extrapolate_def k(1) p_def enc_ext_def Let_def flip: e_def)
    then show ?thesis by (simp add: d'_def e_def)
  qed
  have e1: "enc_ext d + k - uint (ei_raw u) = (k - (uint (ei_raw u) - uint (word_of_int (en_raw e) :: u32)))
      - (uint (word_of_int (en_raw e) :: u32) - enc_ext d)" by simp
  have pos: "(2 ^ b) dvd (enc_ext d + k - uint (ei_raw u))" unfolding e1 using k(3) raw by (rule dvd_diff)
  have e2: "en_raw d' - enc_ext d' = (sint (ei_raw u) - uint (ei_raw u)) - (s64 (enc_ext d + k) - (enc_ext d + k)) - (enc_ext d + k - uint (ei_raw u))"
    using ext by (simp add: d'_def p_def)
  have agree: "(2 ^ b) dvd (en_raw d' - enc_ext d')" unfolding e2
    by (intro dvd_diff pos mod_pow2_dvd [OF b(2) sint_dvd] mod_pow2_dvd [OF b(2) s64_dvd])
  show thesis
    by (rule that [OF run [unfolded p_def] k(2) pos agree _ ext [unfolded p_def]]) (simp add: d'_def p_def)
qed

text \<open>The other parts of an update leave the extended position alone, and none of them fails.\<close>

definition enc_same :: "enc_data \<Rightarrow> enc_data \<Rightarrow> bool" where
  "enc_same d d' \<longleftrightarrow> en_raw d' = en_raw d \<and> enc_ext d' = enc_ext d \<and> en_raw_shift d' = en_raw_shift d \<and>
     en_raw_mask d' = en_raw_mask d \<and> en_pprev_last d' = en_pprev_last d \<and> en_pprev_scale d' = en_pprev_scale d \<and>
     en_pos_enc d' = en_pos_enc d \<and> en_raw_home d' = en_raw_home d"

lemma enc_same_refl [simp]: "enc_same d d" by (simp add: enc_same_def)
lemma enc_same_trans [trans]: "enc_same d d1 \<Longrightarrow> enc_same d1 d2 \<Longrightarrow> enc_same d d2" by (simp add: enc_same_def)

lemma enc_same_set_ref [simp]: "enc_same d (set_ref r d') \<longleftrightarrow> enc_same d d'"
  by (simp add: enc_same_def set_ref_def enc_ext_def)

lemma enc_same_updates [simp]:
  "enc_same d (d'\<lparr>en_index_ena := i\<rparr>) \<longleftrightarrow> enc_same d d'"
  "enc_same d (d'\<lparr>en_index_sign := g\<rparr>) \<longleftrightarrow> enc_same d d'"
  "enc_same d (d'\<lparr>en_pos := x, en_do_init := y\<rparr>) \<longleftrightarrow> enc_same d d'"
  "enc_same d (d'\<lparr>en_pos_abs := x, en_on_home_neg := y, en_on_home_pos := z\<rparr>) \<longleftrightarrow> enc_same d d'"
  by (simp_all add: enc_same_def enc_ext_def)

lemma enc_do_init_updates [simp]: "en_do_init (set_ref r d) = en_do_init d"
  by (simp add: set_ref_def)

lemma enc_index_at_same: "enc_same d (enc_index_at w pos m d) \<and> en_do_init (enc_index_at w pos m d) = en_do_init d"
  by (simp add: enc_index_at_def Let_def)

lemma enc_index_total: "\<exists>d'. enc_index u pos d = Some d' \<and> enc_same d d' \<and> en_do_init d' = en_do_init d"
proof -
  have "\<exists>m. signed_mod_64 pos (ei_pprev u) = Some m" if "(ucast (drop_bit 2 (ei_pprev u)) :: u32) \<noteq> 0"
  proof -
    have "ei_pprev u \<noteq> 0" using that by auto
    then show ?thesis by (simp add: signed_mod_64_def lcec_mod_64_def)
  qed
  then obtain m where m: "(ucast (drop_bit 2 (ei_pprev u)) :: u32) \<noteq> 0 \<Longrightarrow> signed_mod_64 pos (ei_pprev u) = Some m" by blast
  consider "\<not> en_index_ena d" | "en_index_ena d" "(ucast (drop_bit 2 (ei_pprev u)) :: u32) = 0 \<or> ei_pprev u > 0xffffffff"
    | "en_index_ena d" "(ucast (drop_bit 2 (ei_pprev u)) :: u32) \<noteq> 0" "\<not> ei_pprev u > 0xffffffff" by blast
  then show ?thesis
  proof cases
    case 3
    then show ?thesis using enc_index_at_same by (simp add: enc_index_def Let_def m)
  qed (simp_all add: enc_index_def Let_def)
qed

lemma enc_latch_total:
  assumes "en_raw_shift d = 32 - int b" and "0 < b" and "b \<le> 32"
  shows "\<exists>d'. enc_latch u pos d = Some d' \<and> enc_same d d' \<and> en_do_init d' = en_do_init d"
proof -
  obtain k where "raw_diff (en_raw_shift d) (ei_ext_latch_raw u) (ei_raw u) = Some k"
    using raw_diff_spec assms by metis
  then show ?thesis by (simp add: enc_latch_def)
qed

lemma enc_relative_same: "enc_same d (enc_relative rnd sc pos d) \<and> \<not> en_do_init (enc_relative rnd sc pos d)"
  by (simp add: enc_relative_def Let_def)

definition enc_home_diff :: "nat \<Rightarrow> u32 \<Rightarrow> int" where
  "enc_home_diff b home = the (raw_diff (32 - int b) 0 home)"

definition enc_home_pos :: "nat \<Rightarrow> enc_data \<Rightarrow> int" where
  "enc_home_pos b d = s64 (enc_ext d + enc_home_diff b (en_raw_home d))"

lemma enc_home_ok:
  assumes "en_raw_shift d = 32 - int b" and "0 < b" and "b \<le> 32" and "pos = enc_ext d"
  obtains d' where "enc_home rnd sc pos d = Some (enc_home_pos b d, d')" and "enc_same d d'"
    and "d' = d\<lparr>en_pos_abs := en_pos_abs d', en_on_home_neg := enc_home_pos b d \<le> 0, en_on_home_pos := 0 \<le> enc_home_pos b d\<rparr>"
proof -
  obtain k where k: "raw_diff (32 - int b) 0 (en_raw_home d) = Some k" using raw_diff_spec assms(2,3) by metis
  have p: "s64 (pos + k) = enc_home_pos b d" using assms(4) k by (simp add: enc_home_pos_def enc_home_diff_def)
  show thesis
    by (rule that [of "d\<lparr>en_pos_abs := enc_float rnd sc (enc_home_pos b d), en_on_home_neg := enc_home_pos b d \<le> 0,
                         en_on_home_pos := 0 \<le> enc_home_pos b d\<rparr>"])
      (simp_all add: enc_home_def assms(1) k p Let_def)
qed

lemma class_enc_update_parts:
  assumes ok: "enc_ok rnd b d"
  obtains k d1 d2 d3 d4 where
    "enc_pos_scale rnd u d = (enc_scale rnd u, d1)" "enc_extrapolate rnd (enc_scale rnd u) u d1 = Some (enc_ext d2, d2)"
    "enc_home rnd (enc_scale rnd u) (enc_ext d2) d2 = Some (enc_home_pos b d2, d3)"
    "enc_index u (enc_home_pos b d2) d3 = Some d4" "\<exists>d5. enc_latch u (enc_home_pos b d2) d4 = Some d5 \<and> enc_same d2 d5
       \<and> class_enc_update rnd u d = Some (enc_relative rnd (enc_scale rnd u) (enc_home_pos b d2) d5)"
    "centred b k" "(2 ^ b) dvd (enc_ext d + k - uint (ei_raw u))" "enc_ext d2 = s64 (enc_ext d + k)"
    "enc_ok rnd b (d2\<lparr>en_do_init := False\<rparr>)" "en_pos_enc d2 = enc_float rnd (enc_scale rnd u) (enc_ext d2)"
    "d2 = d1\<lparr>en_raw := en_raw d2, en_ext_hi := en_ext_hi d2, en_ext_lo := en_ext_lo d2, en_pos_enc := en_pos_enc d2\<rparr>"
    "d3 = d2\<lparr>en_pos_abs := en_pos_abs d3, en_on_home_neg := enc_home_pos b d2 \<le> 0, en_on_home_pos := 0 \<le> enc_home_pos b d2\<rparr>"
proof -
  have b: "0 < b" "b \<le> 32" using ok by (simp_all add: enc_ok_def)
  obtain d1 where d1: "enc_pos_scale rnd u d = (enc_scale rnd u, d1)" "enc_ok rnd b d1" "enc_ext d1 = enc_ext d"
    "en_pprev_last d1 = ei_pprev u" "ei_pprev u \<noteq> 0 \<Longrightarrow> en_pprev_scale d1 = enc_scale1 rnd (ei_pprev u)"
    by (rule enc_pos_scale_ok [OF ok, of u]) blast
  obtain k d2 where d2: "enc_extrapolate rnd (enc_scale rnd u) u d1 = Some (s64 (enc_ext d1 + k), d2)"
    "centred b k" "(2 ^ b) dvd (enc_ext d1 + k - uint (ei_raw u))" "(2 ^ b) dvd (en_raw d2 - enc_ext d2)"
    "d2 = d1\<lparr>en_raw := en_raw d2, en_ext_hi := en_ext_hi d2, en_ext_lo := en_ext_lo d2,
              en_pos_enc := enc_float rnd (enc_scale rnd u) (s64 (enc_ext d1 + k))\<rparr>"
    "enc_ext d2 = s64 (enc_ext d1 + k)"
    by (rule enc_extrapolate_ok [OF d1(2), of "enc_scale rnd u" u])
  have f: "en_raw_shift d2 = 32 - int b" "en_raw_mask d2 = mask b" "en_pprev_last d2 = ei_pprev u" "en_pprev_scale d2 = en_pprev_scale d1"
    "en_pos_enc d2 = enc_float rnd (enc_scale rnd u) (s64 (enc_ext d1 + k))"
    using d1(2,4) by (subst d2(5); simp add: enc_ok_def)+
  obtain d3 where d3: "enc_home rnd (enc_scale rnd u) (enc_ext d2) d2 = Some (enc_home_pos b d2, d3)" "enc_same d2 d3"
    "d3 = d2\<lparr>en_pos_abs := en_pos_abs d3, en_on_home_neg := enc_home_pos b d2 \<le> 0, en_on_home_pos := 0 \<le> enc_home_pos b d2\<rparr>"
    by (rule enc_home_ok [OF f(1) b refl])
  obtain d4 where d4: "enc_index u (enc_home_pos b d2) d3 = Some d4" "enc_same d3 d4" using enc_index_total by blast
  have "en_raw_shift d4 = 32 - int b" using d3(2) d4(2) f(1) by (simp add: enc_same_def)
  then obtain d5 where d5: "enc_latch u (enc_home_pos b d2) d4 = Some d5" "enc_same d4 d5" using enc_latch_total b by blast
  have up: "class_enc_update rnd u d = Some (enc_relative rnd (enc_scale rnd u) (enc_home_pos b d2) d5)"
    by (simp add: class_enc_update_def d1(1) d2(1) d3(1) d4(1) d5(1) flip: d2(6))
  have s: "enc_same d2 d5" using d3(2) d4(2) d5(2) by (metis enc_same_trans)
  have inv: "enc_ok rnd b (d2\<lparr>en_do_init := False\<rparr>)"
    using f b d2(4) d1(5) by (simp add: enc_ok_def enc_ext_def)
  have e: "en_pos_enc d2 = enc_float rnd (enc_scale rnd u) (enc_ext d2)" using f(5) by (simp only: d2(6))
  have c: "d2 = d1\<lparr>en_raw := en_raw d2, en_ext_hi := en_ext_hi d2, en_ext_lo := en_ext_lo d2, en_pos_enc := en_pos_enc d2\<rparr>"
    using d2(5) f(5) by simp
  show thesis
    by (rule that [OF d1(1) d2(1) [folded d2(6)] d3(1) d4(1) _ d2(2) d2(3) [unfolded d1(3)] d2(6) [unfolded d1(3)] inv e c d3(3)])
      (use d5(1) s up in blast)
qed

lemma class_enc_update_ok:
  assumes ok: "enc_ok rnd b d"
  obtains k d' where "class_enc_update rnd u d = Some d'" and "centred b k" and "(2 ^ b) dvd (enc_ext d + k - uint (ei_raw u))"
    and "enc_ext d' = s64 (enc_ext d + k)" and "enc_ok rnd b d'" and "\<not> en_do_init d'"
    and "en_pos_enc d' = enc_float rnd (enc_scale rnd u) (enc_ext d')"
proof (rule class_enc_update_parts [OF ok, of u])
  fix k d1 d2 d3 d4
  assume a: "\<exists>d5. enc_latch u (enc_home_pos b d2) d4 = Some d5 \<and> enc_same d2 d5
       \<and> class_enc_update rnd u d = Some (enc_relative rnd (enc_scale rnd u) (enc_home_pos b d2) d5)"
    and k: "centred b k" "(2 ^ b) dvd (enc_ext d + k - uint (ei_raw u))" "enc_ext d2 = s64 (enc_ext d + k)"
    and i: "enc_ok rnd b (d2\<lparr>en_do_init := False\<rparr>)" and p: "en_pos_enc d2 = enc_float rnd (enc_scale rnd u) (enc_ext d2)"
  obtain d' where d': "class_enc_update rnd u d = Some d'" "enc_same d2 d'" "\<not> en_do_init d'"
    using a enc_relative_same enc_same_trans by metis
  have "enc_ok rnd b d'" using i d'(2,3) by (auto simp: enc_ok_def enc_same_def enc_ext_def)
  then show thesis using that d' k p by (simp add: enc_same_def)
qed

section \<open>Runs\<close>

text \<open>
  In a run, the other components write the input pins and the home parameter between two updates.
\<close>

definition enc_inputs :: "(enc_data \<Rightarrow> enc_data) \<Rightarrow> bool" where
  "enc_inputs f \<longleftrightarrow> (\<forall>d. \<exists>i r h. f d = d\<lparr>en_index_ena := i, en_pos_reset := r, en_raw_home := h\<rparr>)"

fun enc_run :: "(real \<Rightarrow> real) \<Rightarrow> ((enc_data \<Rightarrow> enc_data) \<times> enc_in) list \<Rightarrow> enc_data \<Rightarrow> enc_data option" where
  "enc_run rnd [] d = Some d"
| "enc_run rnd ((f, u) # cs) d = Option.bind (class_enc_update rnd u (f d)) (enc_run rnd cs)"

lemma enc_inputs_ok:
  assumes "enc_inputs f" and "enc_ok rnd b d"
  shows "enc_ok rnd b (f d) \<and> enc_ext (f d) = enc_ext d"
proof -
  obtain i r h where "f d = d\<lparr>en_index_ena := i, en_pos_reset := r, en_raw_home := h\<rparr>"
    using assms(1) unfolding enc_inputs_def by blast
  then show ?thesis using assms(2) by (simp add: enc_ok_def enc_ext_def)
qed

text \<open>True positions a sequence of counts comes from: each is within half a turn of the one before.\<close>

fun enc_true :: "nat \<Rightarrow> int \<Rightarrow> int list \<Rightarrow> u32 list \<Rightarrow> bool" where
  "enc_true b p [] [] \<longleftrightarrow> True"
| "enc_true b p (q # qs) (w # ws) \<longleftrightarrow>
     in_s64 q \<and> centred b (q - p) \<and> (2 ^ b) dvd (q - uint w) \<and> enc_true b q qs ws"
| "enc_true b p _ _ \<longleftrightarrow> False"

lemma class_enc_update_tracks:
  assumes ok: "enc_ok rnd b d" and q: "in_s64 q" "centred b (q - enc_ext d)" "(2 ^ b) dvd (q - uint (ei_raw u))"
  obtains d' where "class_enc_update rnd u d = Some d'" and "enc_ok rnd b d'" and "enc_ext d' = q"
    and "en_pos_enc d' = enc_float rnd (enc_scale rnd u) q"
proof (rule class_enc_update_ok [OF ok, of u])
  fix k d' assume up: "class_enc_update rnd u d = Some d'" "enc_ok rnd b d'" "enc_ext d' = s64 (enc_ext d + k)"
    "en_pos_enc d' = enc_float rnd (enc_scale rnd u) (enc_ext d')"
    and k: "centred b k" "(2 ^ b) dvd (enc_ext d + k - uint (ei_raw u))"
  have "(2 ^ b) dvd ((q - uint (ei_raw u)) - (enc_ext d + k - uint (ei_raw u)))" using q(3) k(2) by (rule dvd_diff)
  then have "(2 ^ b) dvd ((q - enc_ext d) - k)" by (simp add: algebra_simps)
  then have "q - enc_ext d = k" using ok centred_unique q(2) k(1) by (auto simp: enc_ok_def)
  then have "enc_ext d + k = q" by simp
  then have "enc_ext d' = q" using up(3) q(1) by simp
  then show thesis using that up by simp
qed

lemma enc_run_tracks:
  assumes "enc_ok rnd b d" and "\<forall>c\<in>set cs. enc_inputs (fst c)" and "enc_true b (enc_ext d) ps (map (\<lambda>c. ei_raw (snd c)) cs)"
  shows "\<exists>d'. enc_run rnd cs d = Some d' \<and> enc_ok rnd b d' \<and> enc_ext d' = last (enc_ext d # ps) \<and>
    (cs \<noteq> [] \<longrightarrow> en_pos_enc d' = enc_float rnd (enc_scale rnd (snd (last cs))) (last ps))"
  using assms
proof (induction cs arbitrary: d ps)
  case Nil
  then show ?case by (cases ps) simp_all
next
  case (Cons c cs)
  obtain f u where c: "c = (f, u)" by fastforce
  obtain q qs where ps: "ps = q # qs" using Cons.prems(3) by (cases ps) simp_all
  have f: "enc_ok rnd b (f d)" "enc_ext (f d) = enc_ext d" using enc_inputs_ok Cons.prems(1,2) c by auto
  have q: "in_s64 q" "centred b (q - enc_ext (f d))" "(2 ^ b) dvd (q - uint (ei_raw u))" "enc_true b q qs (map (\<lambda>c. ei_raw (snd c)) cs)"
    using Cons.prems(3) c ps f(2) by simp_all
  obtain d1 where d1: "class_enc_update rnd u (f d) = Some d1" "enc_ok rnd b d1" "enc_ext d1 = q"
    "en_pos_enc d1 = enc_float rnd (enc_scale rnd u) q"
    by (rule class_enc_update_tracks [OF f(1) q(1-3)])
  have empty: "qs = [] \<longleftrightarrow> cs = []" using q(4) by (cases qs; cases cs) simp_all
  obtain d' where d': "enc_run rnd cs d1 = Some d'" "enc_ok rnd b d'" "enc_ext d' = last (enc_ext d1 # qs)"
    "cs \<noteq> [] \<longrightarrow> en_pos_enc d' = enc_float rnd (enc_scale rnd (snd (last cs))) (last qs)"
    using Cons.IH [of d1 qs] Cons.prems(2) d1(2,3) q(4) by auto
  show ?case
  proof (cases cs)
    case Nil
    then show ?thesis using d1 d' c ps empty by simp
  next
    case (Cons c' cs')
    then show ?thesis using d1 d' c ps empty by simp
  qed
qed

text \<open>Whatever the counts are, no cycle leaves the invariant.\<close>

lemma enc_run_ok:
  assumes "enc_ok rnd b d" and "\<forall>c\<in>set cs. enc_inputs (fst c)" and "enc_run rnd cs d = Some d'"
  shows "enc_ok rnd b d' \<and> (cs \<noteq> [] \<longrightarrow> \<not> en_do_init d')"
  using assms
proof (induction cs arbitrary: d)
  case (Cons c cs)
  obtain f u where c: "c = (f, u)" by fastforce
  have "enc_ok rnd b (f d)" using enc_inputs_ok Cons.prems(1,2) c by auto
  then obtain d1 where d1: "class_enc_update rnd u (f d) = Some d1" "enc_ok rnd b d1" "\<not> en_do_init d1"
    by (metis class_enc_update_ok)
  then have r: "enc_run rnd cs d1 = Some d'" using Cons.prems(3) c by simp
  then show ?case using Cons.IH [OF d1(2) _ r] Cons.prems(2) d1(3) by (cases "cs = []") auto
qed simp

section \<open>The index\<close>

lemma uint_drop_bit_div: "uint (drop_bit n (w :: u64)) = uint w div 2 ^ n"
proof -
  have "uint w mod 18446744073709551616 = uint w" using uint_lt2p [of w] by simp
  then show ?thesis by (simp add: unsigned_drop_bit_eq drop_bit_eq_div [where ?'a = int] take_bit_eq_mod [where ?'a = int])
qed

lemma signed_mod_64_pos:
  assumes "0 \<le> v" and "v < 4611686018427387904" and "0 < uint P" and "uint P < 4294967296" and "signed_mod_64 v P = Some m"
  shows "uint P dvd (v - m) \<and> 2 * \<bar>m\<bar> \<le> uint P"
proof -
  define rem where "rem = v mod uint P"
  have r: "0 \<le> rem" "rem < uint P" using assms(3) by (simp_all add: rem_def)
  have P: "P \<noteq> 0" using assms(3) by auto
  have v: "v mod 18446744073709551616 = v" using assms(1,2) by simp
  have rem: "lcec_mod_64 v P = Some rem" using r assms(4) P v by (simp add: lcec_mod_64_def rem_def in_s64_def)
  have half: "uint (drop_bit 1 P) = uint P div 2" by (simp add: uint_drop_bit_div)
  have m: "m = (if rem > uint P div 2 then rem - uint P else rem)"
    using assms(5) rem r assms(4) half by (auto simp: signed_mod_64_def Let_def in_s64_def)
  have d: "uint P dvd (v - rem)" by (simp add: rem_def)
  have "uint P dvd (v - (rem - uint P))" using d by (metis (no_types, lifting) diff_diff_eq2 diff_add_eq dvd_add_triv_right_iff)
  then show ?thesis using m d r by auto
qed

text \<open>With an unsigned remainder, the residue of a negative position is that of \<open>2^64\<close> plus the position.\<close>

lemma signed_mod_64_negative: "signed_mod_64 (- 1) 1000 = Some (- 385)"
  by (simp add: signed_mod_64_def lcec_mod_64_def s64_def Let_def)

lemma enc_ref_set_ref [simp]: "enc_ref (set_ref r d) = s64 r"
  by (simp add: enc_ref_def set_ref_def)

lemma enc_ref_sign [simp]: "enc_ref (d\<lparr>en_index_sign := g\<rparr>) = enc_ref d"
  by (simp add: enc_ref_def)

text \<open>What the index does at the home-based position \<open>p\<close>, which is not negative.\<close>

definition index_done :: "u64 \<Rightarrow> int \<Rightarrow> enc_data \<Rightarrow> enc_data \<Rightarrow> bool" where
  "index_done P p d d' \<longleftrightarrow>
     (if en_index_ena d' then enc_ref d' = enc_ref d
      else uint P dvd enc_ref d' \<and> 2 * \<bar>p - enc_ref d'\<bar> \<le> uint P \<and> 4 * (p - enc_ref d') \<le> uint P \<and>
           en_index_sign d \<noteq> 0 \<and> en_index_sign d' \<noteq> en_index_sign d)"

lemma enc_index_done:
  assumes e: "enc_index u p d = Some d'" and i: "en_index_ena d" and P: "4 \<le> uint (ei_pprev u)" "uint (ei_pprev u) < 4294967296"
    and p: "0 \<le> p" "p < 4611686018427387904"
  shows "index_done (ei_pprev u) p d d'"
proof -
  let ?P = "ei_pprev u"
  define w :: u32 where "w = ucast (drop_bit 2 ?P)"
  have "uint (drop_bit 2 ?P) = uint ?P div 4" by (simp add: uint_drop_bit_div)
  moreover have "uint (ucast x :: u32) = uint x mod 4294967296" for x :: u64
    by (simp add: unsigned_ucast_eq take_bit_eq_mod)
  ultimately have w: "uint w = uint ?P div 4" using P by (simp add: w_def)
  then have w0: "w \<noteq> 0" using P(1) by auto
  have "\<not> ?P > 0xffffffff" using P(2) by (simp add: word_less_def)
  then obtain m where m: "signed_mod_64 p ?P = Some m" and d': "d' = enc_index_at w p m d"
    using e i w0 unfolding enc_index_def Let_def by (auto simp flip: w_def)
  have r: "uint ?P dvd (p - m)" "2 * \<bar>m\<bar> \<le> uint ?P" using signed_mod_64_pos [OF p _ P(2) m] P(1) by auto
  have "in_s64 (p - m)" using r(2) p P(2) by (auto simp: in_s64_def)
  then have s: "s64 (p - m) = p - m" by simp
  have sg: "en_index_sign d' = (if m \<ge> 0 then 1 else -1)" by (simp add: d' enc_index_at_def Let_def)
  show ?thesis
  proof (cases "en_index_sign d \<noteq> 0 \<and> (if m \<ge> 0 then 1 else -1) \<noteq> en_index_sign d \<and> m \<le> uint w")
    case True
    then have "enc_ref d' = p - m" "\<not> en_index_ena d'" unfolding d' enc_index_at_def Let_def by (simp_all add: s set_ref_def enc_ref_def)
    then show ?thesis using True r w sg by (simp add: index_done_def) linarith
  next
    case False
    then have "d' = d\<lparr>en_index_sign := (if m \<ge> 0 then 1 else -1)\<rparr>" unfolding d' enc_index_at_def Let_def by (simp only: if_False)
    then show ?thesis using i by (simp add: index_done_def)
  qed
qed

lemma class_enc_update_index:
  assumes ok: "enc_ok rnd b d" and up: "class_enc_update rnd u d = Some d'"
    and i: "en_index_ena d" "\<not> en_do_init d" "\<not> en_pos_reset d" "\<not> ei_ext_latch_ena u"
    and P: "4 \<le> uint (ei_pprev u)" "uint (ei_pprev u) < 4294967296"
    and p: "0 \<le> enc_home_pos b d'" "enc_home_pos b d' < 4611686018427387904"
  shows "index_done (ei_pprev u) (enc_home_pos b d') d d' \<and>
    en_pos d' = enc_float rnd (enc_scale rnd u) (s64 (enc_home_pos b d' - enc_ref d'))"
proof (rule class_enc_update_parts [OF ok, of u])
  fix k d1 d2 d3 d4
  assume d1: "enc_pos_scale rnd u d = (enc_scale rnd u, d1)"
    and d4: "enc_index u (enc_home_pos b d2) d3 = Some d4"
    and a: "\<exists>d5. enc_latch u (enc_home_pos b d2) d4 = Some d5 \<and> enc_same d2 d5
       \<and> class_enc_update rnd u d = Some (enc_relative rnd (enc_scale rnd u) (enc_home_pos b d2) d5)"
    and d2: "d2 = d1\<lparr>en_raw := en_raw d2, en_ext_hi := en_ext_hi d2, en_ext_lo := en_ext_lo d2, en_pos_enc := en_pos_enc d2\<rparr>"
    and d3: "d3 = d2\<lparr>en_pos_abs := en_pos_abs d3, en_on_home_neg := enc_home_pos b d2 \<le> 0, en_on_home_pos := 0 \<le> enc_home_pos b d2\<rparr>"
  let ?p = "enc_home_pos b d2"
  obtain d1' where "enc_pos_scale rnd u d = (enc_scale rnd u, d1')" "en_do_init d1' = en_do_init d" "en_index_ena d1' = en_index_ena d"
    "enc_ref d1' = enc_ref d" "en_pos_reset d1' = en_pos_reset d" "en_index_sign d1' = 0 \<or> en_index_sign d1' = en_index_sign d"
    by (rule enc_pos_scale_ok [OF ok, of u]) (metis)
  then have f1: "en_do_init d1 = en_do_init d" "en_index_ena d1 = en_index_ena d" "enc_ref d1 = enc_ref d" "en_pos_reset d1 = en_pos_reset d"
    "en_index_sign d1 = 0 \<or> en_index_sign d1 = en_index_sign d" using d1 by auto
  have f2: "en_do_init d2 = en_do_init d1" "en_index_ena d2 = en_index_ena d1" "enc_ref d2 = enc_ref d1" "en_pos_reset d2 = en_pos_reset d1"
    "en_index_sign d2 = en_index_sign d1" unfolding enc_ref_def by (subst d2; simp)+
  have f3: "en_do_init d3 = en_do_init d2" "en_index_ena d3 = en_index_ena d2" "enc_ref d3 = enc_ref d2" "en_pos_reset d3 = en_pos_reset d2"
    "en_index_sign d3 = en_index_sign d2" unfolding enc_ref_def by (subst d3; simp)+
  have lat: "enc_latch u ?p d4 = Some d4" using i(4) by (simp add: enc_latch_def)
  then have d': "d' = enc_relative rnd (enc_scale rnd u) ?p d4" and same: "enc_same d2 d4" using a up by auto
  have r4: "en_do_init d4 = en_do_init d3 \<and> en_pos_reset d4 = en_pos_reset d3"
    using d4 by (auto simp: enc_index_def enc_index_at_def set_ref_def Let_def split: if_splits)
  then have d'': "d' = d4\<lparr>en_pos := enc_float rnd (enc_scale rnd u) (s64 (?p - enc_ref d4)), en_do_init := False\<rparr>"
    using i f1 f2 f3 by (simp add: d' enc_relative_def enc_ref_def)
  have hp: "enc_home_pos b d' = ?p" using same by (simp add: d'' enc_home_pos_def enc_same_def enc_ext_def)
  have "index_done (ei_pprev u) ?p d3 d4" using enc_index_done [OF d4 _ P] p i(1) f1 f2 f3 hp by simp
  then have "index_done (ei_pprev u) ?p d d'" using f1 f2 f3 by (auto simp: index_done_def d'' enc_ref_def split: if_splits)
  then show ?thesis by (simp add: hp) (simp add: d'' enc_ref_def)
qed

text \<open>
  The window for the wrap-around tests \<open>mod <= ovfl_win\<close> without the absolute value: a move
  across the half turn from below is taken for an index.
\<close>

lemma index_fires_at_half_turn:
  "enc_index_at 250 501 (-499) (set_ref 0 (d\<lparr>en_index_ena := True, en_index_sign := 1\<rparr>)) =
   set_ref 1000 (d\<lparr>en_index_ena := False, en_index_sign := -1\<rparr>)"
  "signed_mod_64 501 1000 = Some (-499)"
  by (simp_all add: enc_index_at_def set_ref_def s64_def ll_hi_def ll_lo_def signed_mod_64_def lcec_mod_64_def Let_def)

end
