(* ===== verification/CiaTables.thy ===== *)
theory CiaTables
  imports HalExport ModParam
begin

text \<open>
  The objects of CiA 402 devices (\<open>devices/lcec_class_cia402_opt.h\<close>): one family of macros per
  property of an object, and the lists the code iterates over. The code pastes the name of an
  object behind the name of the family; here a family is a table, and pasting is the lookup.
\<close>

section \<open>The families\<close>

definition PDO_IDX_OFFSET :: "(string \<times> u16) list" where
  "PDO_IDX_OFFSET =
     [(''actual_current'', 0x78), (''actual_following_error'', 0xf4), (''actual_position'', 0x64),
      (''actual_torque'', 0x77), (''actual_velocity'', 0x6c), (''actual_velocity_sensor'', 0x69),
      (''actual_vl'', 0x44), (''actual_voltage'', 0x79), (''control_effort'', 0xfa), (''digital_input'', 0xfd),
      (''digital_output'', 0xfe), (''error_code'', 0x3f), (''following_error_timeout'', 0x66),
      (''following_error_window'', 0x65), (''home_accel'', 0x9a), (''home_method'', 0x98),
      (''home_velocity_fast'', 0x99), (''home_velocity_slow'', 0x99), (''interpolation_time_period'', 0xc2),
      (''maximum_acceleration'', 0xc5), (''maximum_current'', 0x73), (''maximum_deceleration'', 0xc6),
      (''maximum_motor_rpm'', 0x80), (''maximum_slippage'', 0xf8), (''maximum_torque'', 0x72),
      (''motion_profile'', 0x86), (''motor_rated_current'', 0x75), (''motor_rated_torque'', 0x76), (''opmode'', 0x60),
      (''opmode_display'', 0x61), (''polarity'', 0x7e), (''position_demand'', 0x62), (''positioning_time'', 0x68),
      (''positioning_window'', 0x67), (''probe_status'', 0xb9), (''profile_accel'', 0x83), (''profile_decel'', 0x84),
      (''profile_end_velocity'', 0x82), (''profile_max_velocity'', 0x7f), (''profile_velocity'', 0x81),
      (''target_position'', 0x7a), (''target_torque'', 0x71), (''target_velocity'', 0xff), (''target_vl'', 0x42),
      (''torque_demand'', 0x74), (''torque_profile_type'', 0x88), (''torque_slope'', 0x87),
      (''velocity_demand'', 0x6b), (''velocity_error_time'', 0x6e), (''velocity_error_window'', 0x6d),
      (''velocity_sensor_selector'', 0x6a), (''velocity_threshold_time'', 0x70), (''velocity_threshold_window'', 0x6f),
      (''vl_demand'', 0x43), (''vl_maximum'', 0x46), (''vl_minimum'', 0x46)]"

definition PDO_SIDX :: "(string \<times> u8) list" where
  "PDO_SIDX =
     [(''actual_current'', 0), (''actual_following_error'', 0), (''actual_position'', 0), (''actual_torque'', 0),
      (''actual_velocity'', 0), (''actual_velocity_sensor'', 0), (''actual_vl'', 0), (''actual_voltage'', 0),
      (''control_effort'', 0), (''digital_input'', 0), (''digital_output'', 1), (''error_code'', 0),
      (''following_error_timeout'', 0), (''following_error_window'', 0), (''home_accel'', 0), (''home_method'', 0),
      (''home_velocity_fast'', 1), (''home_velocity_slow'', 2), (''interpolation_time_period'', 1),
      (''maximum_acceleration'', 0), (''maximum_current'', 0), (''maximum_deceleration'', 0),
      (''maximum_motor_rpm'', 0), (''maximum_slippage'', 0), (''maximum_torque'', 0), (''motion_profile'', 0),
      (''motor_rated_current'', 0), (''motor_rated_torque'', 0), (''opmode'', 0), (''opmode_display'', 0),
      (''polarity'', 0), (''position_demand'', 0), (''positioning_time'', 0), (''positioning_window'', 0),
      (''probe_status'', 0), (''profile_accel'', 0), (''profile_decel'', 0), (''profile_end_velocity'', 0),
      (''profile_max_velocity'', 0), (''profile_velocity'', 0), (''target_position'', 0), (''target_torque'', 0),
      (''target_velocity'', 0), (''target_vl'', 0), (''torque_demand'', 0), (''torque_profile_type'', 0),
      (''torque_slope'', 0), (''velocity_demand'', 0), (''velocity_error_time'', 0), (''velocity_error_window'', 0),
      (''velocity_sensor_selector'', 0), (''velocity_threshold_time'', 0), (''velocity_threshold_window'', 0),
      (''vl_demand'', 0), (''vl_maximum'', 2), (''vl_minimum'', 1)]"

definition PDO_PIN_TYPE :: "(string \<times> hal_type) list" where
  "PDO_PIN_TYPE =
     [(''actual_current'', HAL_S32), (''actual_following_error'', HAL_U32), (''actual_position'', HAL_S32),
      (''actual_torque'', HAL_S32), (''actual_velocity'', HAL_S32), (''actual_velocity_sensor'', HAL_S32),
      (''actual_vl'', HAL_S32), (''actual_voltage'', HAL_U32), (''control_effort'', HAL_S32),
      (''error_code'', HAL_U32), (''following_error_timeout'', HAL_U32), (''following_error_window'', HAL_U32),
      (''home_accel'', HAL_U32), (''home_method'', HAL_S32), (''home_velocity_fast'', HAL_U32),
      (''home_velocity_slow'', HAL_U32), (''interpolation_time_period'', HAL_U32), (''maximum_acceleration'', HAL_U32),
      (''maximum_current'', HAL_U32), (''maximum_deceleration'', HAL_U32), (''maximum_motor_rpm'', HAL_U32),
      (''maximum_slippage'', HAL_S32), (''maximum_torque'', HAL_U32), (''motion_profile'', HAL_S32),
      (''motor_rated_current'', HAL_U32), (''motor_rated_torque'', HAL_U32), (''opmode'', HAL_S32),
      (''opmode_display'', HAL_S32), (''polarity'', HAL_U32), (''position_demand'', HAL_S32),
      (''positioning_time'', HAL_U32), (''positioning_window'', HAL_U32), (''probe_status'', HAL_U32),
      (''profile_accel'', HAL_U32), (''profile_decel'', HAL_U32), (''profile_end_velocity'', HAL_U32),
      (''profile_max_velocity'', HAL_U32), (''profile_velocity'', HAL_U32), (''target_position'', HAL_S32),
      (''target_torque'', HAL_S32), (''target_velocity'', HAL_S32), (''target_vl'', HAL_S32),
      (''torque_demand'', HAL_S32), (''torque_profile_type'', HAL_S32), (''torque_slope'', HAL_U32),
      (''velocity_demand'', HAL_S32), (''velocity_error_time'', HAL_U32), (''velocity_error_window'', HAL_U32),
      (''velocity_sensor_selector'', HAL_S32), (''velocity_threshold_time'', HAL_U32),
      (''velocity_threshold_window'', HAL_U32), (''vl_demand'', HAL_S32), (''vl_maximum'', HAL_U32),
      (''vl_minimum'', HAL_U32)]"

definition PDO_PIN_NAME :: "(string \<times> string) list" where
  "PDO_PIN_NAME =
     [(''actual_current'', ''actual-current''), (''actual_following_error'', ''actual-following-error''),
      (''actual_position'', ''actual-position''), (''actual_torque'', ''actual-torque''),
      (''actual_velocity'', ''actual-velocity''), (''actual_velocity_sensor'', ''actual-velocity-sensor''),
      (''actual_vl'', ''actual-vl''), (''actual_voltage'', ''actual-voltage''),
      (''control_effort'', ''control-effort''), (''error_code'', ''error-code''),
      (''following_error_timeout'', ''following-error-timeout''),
      (''following_error_window'', ''following-error-window''), (''home_accel'', ''home-accel''),
      (''home_method'', ''home-method''), (''home_velocity_fast'', ''home-velocity-fast''),
      (''home_velocity_slow'', ''home-velocity-slow''), (''interpolation_time_period'', ''interpolation-time-period''),
      (''maximum_acceleration'', ''maximum-acceleration''), (''maximum_current'', ''maximum-current''),
      (''maximum_deceleration'', ''maximum-deceleration''), (''maximum_motor_rpm'', ''maximum-motor-rpm''),
      (''maximum_slippage'', ''maximum-slippage''), (''maximum_torque'', ''torque-maximum''),
      (''motion_profile'', ''motion-profile''), (''motor_rated_current'', ''motor-rated-current''),
      (''motor_rated_torque'', ''motor-rated-torque''), (''opmode'', ''opmode''),
      (''opmode_display'', ''opmode-display''), (''polarity'', ''polarity''),
      (''position_demand'', ''position-demand''), (''positioning_time'', ''positioning-time''),
      (''positioning_window'', ''positioning-window''), (''probe_status'', ''probe-status''),
      (''profile_accel'', ''profile-accel''), (''profile_decel'', ''profile-decel''),
      (''profile_end_velocity'', ''profile-end-velocity''), (''profile_max_velocity'', ''profile-max-velocity''),
      (''profile_velocity'', ''profile-velocity''), (''target_position'', ''target-position''),
      (''target_torque'', ''target-torque''), (''target_velocity'', ''target-velocity''),
      (''target_vl'', ''target-vl''), (''torque_demand'', ''torque-demand''),
      (''torque_profile_type'', ''torque-profile-type''), (''torque_slope'', ''torque-slope''),
      (''velocity_demand'', ''velocity-demand''), (''velocity_error_time'', ''velocity-error-time''),
      (''velocity_error_window'', ''velocity-error-window''),
      (''velocity_sensor_selector'', ''velocity-sensor-selector''),
      (''velocity_threshold_time'', ''velocity-threshold-time''),
      (''velocity_threshold_window'', ''velocity-threshold-window''), (''vl_demand'', ''vl-demand''),
      (''vl_maximum'', ''vl-maximum''), (''vl_minimum'', ''vl-minimum'')]"

definition PDO_BITS :: "(string \<times> nat) list" where
  "PDO_BITS =
     [(''actual_current'', 16), (''actual_following_error'', 32), (''actual_position'', 32), (''actual_torque'', 16),
      (''actual_velocity'', 32), (''actual_velocity_sensor'', 32), (''actual_vl'', 16), (''actual_voltage'', 32),
      (''control_effort'', 32), (''digital_input'', 32), (''digital_output'', 32), (''error_code'', 16),
      (''following_error_timeout'', 16), (''following_error_window'', 32), (''home_accel'', 32), (''home_method'', 8),
      (''home_velocity_fast'', 32), (''home_velocity_slow'', 32), (''interpolation_time_period'', 8),
      (''maximum_acceleration'', 32), (''maximum_current'', 16), (''maximum_deceleration'', 32),
      (''maximum_motor_rpm'', 32), (''maximum_slippage'', 32), (''maximum_torque'', 16), (''motion_profile'', 16),
      (''motor_rated_current'', 32), (''motor_rated_torque'', 32), (''opmode'', 8), (''opmode_display'', 8),
      (''polarity'', 8), (''position_demand'', 32), (''positioning_time'', 16), (''positioning_window'', 32),
      (''probe_status'', 16), (''profile_accel'', 32), (''profile_decel'', 32), (''profile_end_velocity'', 32),
      (''profile_max_velocity'', 32), (''profile_velocity'', 32), (''target_position'', 32), (''target_torque'', 16),
      (''target_velocity'', 32), (''target_vl'', 16), (''torque_demand'', 16), (''torque_profile_type'', 16),
      (''torque_slope'', 32), (''velocity_demand'', 32), (''velocity_error_time'', 16),
      (''velocity_error_window'', 16), (''velocity_sensor_selector'', 16), (''velocity_threshold_time'', 16),
      (''velocity_threshold_window'', 16), (''vl_demand'', 16), (''vl_maximum'', 32), (''vl_minimum'', 32)]"

definition PDO_SIGN :: "(string \<times> bool) list" where
  "PDO_SIGN =
     [(''actual_current'', True), (''actual_following_error'', False), (''actual_position'', True),
      (''actual_torque'', True), (''actual_velocity'', True), (''actual_velocity_sensor'', True),
      (''actual_vl'', True), (''actual_voltage'', False), (''control_effort'', True), (''error_code'', False),
      (''following_error_timeout'', False), (''following_error_window'', False), (''home_accel'', False),
      (''home_method'', True), (''home_velocity_fast'', False), (''home_velocity_slow'', False),
      (''interpolation_time_period'', False), (''maximum_acceleration'', False), (''maximum_current'', False),
      (''maximum_deceleration'', False), (''maximum_motor_rpm'', False), (''maximum_slippage'', True),
      (''maximum_torque'', False), (''motion_profile'', True), (''motor_rated_current'', False),
      (''motor_rated_torque'', False), (''opmode'', True), (''opmode_display'', True), (''polarity'', False),
      (''position_demand'', True), (''positioning_time'', False), (''positioning_window'', False),
      (''probe_status'', False), (''profile_accel'', False), (''profile_decel'', False),
      (''profile_end_velocity'', False), (''profile_max_velocity'', False), (''profile_velocity'', False),
      (''target_position'', True), (''target_torque'', True), (''target_velocity'', True), (''target_vl'', True),
      (''torque_demand'', True), (''torque_profile_type'', True), (''torque_slope'', False),
      (''velocity_demand'', True), (''velocity_error_time'', False), (''velocity_error_window'', False),
      (''velocity_sensor_selector'', True), (''velocity_threshold_time'', False),
      (''velocity_threshold_window'', False), (''vl_demand'', True), (''vl_maximum'', False), (''vl_minimum'', False)]"

definition PDO_MP_NAME :: "(string \<times> string) list" where
  "PDO_MP_NAME =
     [(''actual_current'', ''enableActualCurrent''), (''actual_following_error'', ''enableActualFollowingError''),
      (''actual_torque'', ''enableActualTorque''), (''actual_velocity_sensor'', ''enableActualVelocitySensor''),
      (''actual_vl'', ''enableActualVL''), (''actual_voltage'', ''enableActualVoltage''),
      (''control_effort'', ''enableControlEffort''), (''csp'', ''enableCSP''), (''cst'', ''enableCST''),
      (''csv'', ''enableCSV''), (''digital_input'', ''enableDigitalInput''),
      (''digital_output'', ''enableDigitalOutput''), (''error_code'', ''enableErrorCode''),
      (''following_error_timeout'', ''enableFollowingErrorTimeout''),
      (''following_error_window'', ''enableFollowingErrorWindow''), (''hm'', ''enableHM''),
      (''home_accel'', ''enableHomeAccel''), (''interpolation_time_period'', ''enableInterpolationTimePeriod''),
      (''ip'', ''enableIP''), (''maximum_acceleration'', ''enableMaximumAcceleration''),
      (''maximum_current'', ''enableMaximumCurrent''), (''maximum_deceleration'', ''enableMaximumDeceleration''),
      (''maximum_motor_rpm'', ''enableMaximumMotorRPM''), (''maximum_slippage'', ''enableMaximumSlippage''),
      (''maximum_torque'', ''enableMaximumTorque''), (''motion_profile'', ''enableMotionProfile''),
      (''motor_rated_current'', ''enableMotorRatedCurrent''), (''motor_rated_torque'', ''enableMotorRatedTorque''),
      (''opmode'', ''enableOpmode''), (''polarity'', ''enablePolarity''),
      (''position_demand'', ''enablePositionDemand''), (''positioning_time'', ''enablePositioningTime''),
      (''positioning_window'', ''enablePositioningWindow''), (''pp'', ''enablePP''),
      (''probe_status'', ''enableProbeStatus''), (''profile_accel'', ''enableProfileAccel''),
      (''profile_decel'', ''enableProfileDecel''), (''profile_end_velocity'', ''enableProfileEndVelocity''),
      (''profile_max_velocity'', ''enableProfileMaxVelocity''), (''profile_velocity'', ''enableProfileVelocity''),
      (''pv'', ''enablePV''), (''target_torque'', ''enableTargetTorque''), (''target_vl'', ''enableTargetVL''),
      (''torque_demand'', ''enableTorqueDemand''), (''torque_profile_type'', ''enableTorqueProfileType''),
      (''torque_slope'', ''enableTorqueSlope''), (''tq'', ''enableTQ''),
      (''velocity_demand'', ''enableVelocityDemand''), (''velocity_error_time'', ''enableVelocityErrorTime''),
      (''velocity_error_window'', ''enableVelocityErrorWindow''),
      (''velocity_sensor_selector'', ''enableVelocitySensorSelector''),
      (''velocity_threshold_time'', ''enableVelocityThresholdTime''),
      (''velocity_threshold_window'', ''enableVelocityThresholdWindow''), (''vl'', ''enableVL''),
      (''vl_demand'', ''enableVLDemand''), (''vl_maximum'', ''enableVLMaximum''),
      (''vl_minimum'', ''enableVLMinimum''), (''target_position'', ''''), (''target_velocity'', ''''),
      (''actual_position'', ''''), (''actual_velocity'', ''''), (''opmode_display'', '''')]"

text \<open>A name without a macro does not compile.\<close>

definition paste :: "(string \<times> 'a) list \<Rightarrow> string \<Rightarrow> 'a" where
  "paste family n = the (map_of family n)"

section \<open>The lists\<close>

definition FOR_ALL_READ_PDOS :: "string list" where
  "FOR_ALL_READ_PDOS =
     [''actual_current'', ''actual_following_error'', ''actual_position'', ''actual_torque'', ''actual_velocity'',
      ''actual_velocity_sensor'', ''actual_vl'', ''actual_voltage'', ''control_effort'', ''error_code'',
      ''opmode_display'', ''position_demand'', ''probe_status'', ''torque_demand'', ''velocity_demand'',
      ''vl_demand'']"

definition FOR_ALL_WRITE_PDOS :: "string list" where
  "FOR_ALL_WRITE_PDOS =
     [''opmode'', ''profile_velocity'', ''target_position'', ''target_torque'', ''target_velocity'', ''target_vl'']"

definition FOR_ALL_WRITE_SDOS :: "string list" where
  "FOR_ALL_WRITE_SDOS =
     [''following_error_timeout'', ''following_error_window'', ''home_accel'', ''home_method'', ''home_velocity_fast'',
      ''home_velocity_slow'', ''interpolation_time_period'', ''maximum_acceleration'', ''maximum_current'',
      ''maximum_deceleration'', ''maximum_motor_rpm'', ''maximum_slippage'', ''maximum_torque'', ''motion_profile'',
      ''motor_rated_current'', ''motor_rated_torque'', ''polarity'', ''positioning_time'', ''positioning_window'',
      ''profile_accel'', ''profile_decel'', ''profile_end_velocity'', ''profile_max_velocity'',
      ''torque_profile_type'', ''torque_slope'', ''velocity_error_time'', ''velocity_error_window'',
      ''velocity_sensor_selector'', ''velocity_threshold_time'', ''velocity_threshold_window'', ''vl_maximum'',
      ''vl_minimum'']"

definition FOR_ALL_OPTS :: "string list" where
  "FOR_ALL_OPTS =
     [''actual_current'', ''actual_following_error'', ''actual_torque'', ''actual_velocity_sensor'', ''actual_vl'',
      ''actual_voltage'', ''csp'', ''cst'', ''csv'', ''digital_input'', ''digital_output'', ''error_code'',
      ''following_error_timeout'', ''following_error_window'', ''hm'', ''home_accel'', ''interpolation_time_period'',
      ''ip'', ''maximum_acceleration'', ''maximum_current'', ''maximum_deceleration'', ''maximum_motor_rpm'',
      ''maximum_torque'', ''motion_profile'', ''motor_rated_current'', ''motor_rated_torque'', ''opmode'',
      ''polarity'', ''pp'', ''profile_accel'', ''profile_decel'', ''profile_end_velocity'', ''profile_max_velocity'',
      ''profile_velocity'', ''pv'', ''target_torque'', ''target_vl'', ''torque_demand'', ''torque_profile_type'',
      ''torque_slope'', ''tq'', ''velocity_demand'', ''velocity_error_time'', ''velocity_error_window'',
      ''velocity_sensor_selector'', ''velocity_threshold_time'', ''velocity_threshold_window'', ''vl'', ''vl_demand'',
      ''vl_maximum'', ''vl_minimum'', ''positioning_window'', ''positioning_time'', ''maximum_slippage'',
      ''probe_status'', ''position_demand'', ''control_effort'']"

section \<open>The numbers of the enabling module parameters\<close>

definition CIA402_MP_ENABLE :: "(string \<times> int) list" where
  "CIA402_MP_ENABLE =
     [(''actual_current'', 0x22d0), (''actual_following_error'', 0x2100), (''actual_torque'', 0x2110),
      (''actual_velocity_sensor'', 0x2120), (''actual_vl'', 0x2330), (''actual_voltage'', 0x22e0),
      (''control_effort'', 0x2510), (''csp'', 0x2020), (''cst'', 0x2080), (''csv'', 0x2030),
      (''digital_input'', 0x2490), (''digital_output'', 0x24a0), (''error_code'', 0x2480),
      (''following_error_timeout'', 0x2130), (''following_error_window'', 0x2140), (''hm'', 0x2040),
      (''home_accel'', 0x2150), (''interpolation_time_period'', 0x2160), (''ip'', 0x2050),
      (''maximum_acceleration'', 0x2170), (''maximum_current'', 0x22a0), (''maximum_deceleration'', 0x2180),
      (''maximum_motor_rpm'', 0x2190), (''maximum_slippage'', 0x24e0), (''maximum_torque'', 0x21a0),
      (''motion_profile'', 0x21b0), (''motor_rated_current'', 0x22c0), (''motor_rated_torque'', 0x21c0),
      (''opmode'', 0x23b0), (''polarity'', 0x21d0), (''position_demand'', 0x2500), (''positioning_time'', 0x24d0),
      (''positioning_window'', 0x24c0), (''pp'', 0x2000), (''probe_status'', 0x24f0), (''profile_accel'', 0x21e0),
      (''profile_decel'', 0x21f0), (''profile_end_velocity'', 0x2200), (''profile_max_velocity'', 0x2210),
      (''profile_velocity'', 0x2220), (''pv'', 0x2010), (''target_torque'', 0x2290), (''target_vl'', 0x2310),
      (''torque_demand'', 0x22b0), (''torque_profile_type'', 0x2300), (''torque_slope'', 0x22f0), (''tq'', 0x2070),
      (''velocity_demand'', 0x2230), (''velocity_error_time'', 0x2240), (''velocity_error_window'', 0x2250),
      (''velocity_sensor_selector'', 0x2260), (''velocity_threshold_time'', 0x2270),
      (''velocity_threshold_window'', 0x2280), (''vl'', 0x2060), (''vl_demand'', 0x2320), (''vl_maximum'', 0x2350),
      (''vl_minimum'', 0x2340)]"

section \<open>The tables fit together\<close>

text \<open>The families name the same objects, and the pin of an object has the sign of its values.\<close>

lemma cia_families:
  "map fst PDO_SIDX = map fst PDO_IDX_OFFSET" "map fst PDO_BITS = map fst PDO_IDX_OFFSET"
  "map fst PDO_PIN_NAME = map fst PDO_PIN_TYPE"
  "PDO_PIN_TYPE = map (\<lambda>(n, s). (n, if s then HAL_S32 else HAL_U32)) PDO_SIGN"
  by (simp_all add: PDO_SIDX_def PDO_IDX_OFFSET_def PDO_BITS_def PDO_PIN_NAME_def PDO_PIN_TYPE_def PDO_SIGN_def)

lemma cia_bits: "list_all (\<lambda>(n, b). b \<in> {8, 16, 32}) PDO_BITS"
  by (simp add: PDO_BITS_def)

text \<open>The number of an enabling parameter is above the base and leaves its low three bits to the channel.\<close>

lemma cia_enable_ids: "list_all (\<lambda>(n, i). 4096 \<le> i \<and> i < 12288 \<and> i mod 8 = 0) CIA402_MP_ENABLE"
  by (simp add: CIA402_MP_ENABLE_def)

lemma paste_digital:
  "paste PDO_IDX_OFFSET ''digital_input'' = 0xfd" "paste PDO_SIDX ''digital_input'' = 0" "paste PDO_BITS ''digital_input'' = 32"
  "paste PDO_IDX_OFFSET ''digital_output'' = 0xfe" "paste PDO_SIDX ''digital_output'' = 1" "paste PDO_BITS ''digital_output'' = 32"
  by (simp_all add: paste_def PDO_IDX_OFFSET_def PDO_SIDX_def PDO_BITS_def)

end
