(* ===== verification/ChannelBits.thy ===== *)
theory ChannelBits
  imports BusRegs BusData HalExport
begin

text \<open>
  The libraries of digital channels (\<open>devices/lcec_class_din.c\<close>, \<open>devices/lcec_class_dout.c\<close>):
  one bit of the process data each, at the position of its entry or, for a packed channel, at
  a bit of the entry. The position is written by the EtherCAT master through the pointers of the
  registration; a pointer is the number of its channel. The bytes the allocation clears are the
  zero of the channel record.
\<close>

section \<open>Registration\<close>

text \<open>The result of \<open>lcec_pdo_init\<close> is not looked at: a full array leaves the position unset.\<close>

definition pdo_init_unchecked ::
    "lcec_slave \<Rightarrow> u16 \<Rightarrow> u16 \<Rightarrow> nat option \<Rightarrow> nat option \<Rightarrow> lcec_slave option" where
  "pdo_init_unchecked s idx sidx os bp =
     (case lcec_pdo_init s idx sidx os bp of Inr s' \<Rightarrow> Some s' | Inl RegsFull \<Rightarrow> Some s | Inl _ \<Rightarrow> None)"

definition chan_args :: "string \<Rightarrow> lcec_slave \<Rightarrow> string \<Rightarrow> fmt_arg list" where
  "chan_args mname s name = [FStr LCEC_MODULE_NAME, FStr mname, FStr (sl_name s), FStr name]"

text \<open>\<open>snprintf\<close> into a buffer of 32 bytes.\<close>

definition chan_name :: "string \<Rightarrow> int \<Rightarrow> string" where
  "chan_name pfx i = take 31 (pfx @ show_int i)"

section \<open>Digital inputs\<close>

record din_channel =
  di_name :: string
  di_in :: bool
  di_in_not :: bool
  di_pdo_os :: u32
  di_pdo_bp :: u32
  di_pdo_bp_packed :: u32

definition zero_din :: din_channel where
  "zero_din = \<lparr>di_name = [], di_in = False, di_in_not = False, di_pdo_os = 0, di_pdo_bp = 0, di_pdo_bp_packed = 0\<rparr>"

definition din_pins :: "pindesc list" where
  "din_pins =
     [pin_row HAL_BIT HAL_OUT ''in'' ''%s.%s.%s.%s'',
      pin_row HAL_BIT HAL_OUT ''in_not'' ''%s.%s.%s.%s-not'',
      pin_end]"

definition lcec_din_register_channel_named ::
    "hal_env \<Rightarrow> string \<Rightarrow> lcec_slave \<Rightarrow> u16 \<Rightarrow> u16 \<Rightarrow> string \<Rightarrow> nat \<Rightarrow> hal_obj list \<Rightarrow>
     (din_channel option \<times> lcec_slave \<times> hal_obj list) option" where
  "lcec_din_register_channel_named env mname s idx sidx name ch objs =
     (let d = zero_din\<lparr>di_name := name, di_pdo_bp_packed := 0xffff\<rparr> in
      Option.bind (pdo_init_unchecked s idx sidx (Some ch) (Some ch)) (\<lambda>s.
      map_option (\<lambda>(err, objs). (if err \<noteq> 0 then None else Some d, s, objs))
        (lcec_pin_newf_list env din_pins (chan_args mname s name) objs)))"

definition lcec_din_register_channel ::
    "hal_env \<Rightarrow> string \<Rightarrow> lcec_slave \<Rightarrow> int \<Rightarrow> u16 \<Rightarrow> u16 \<Rightarrow> nat \<Rightarrow> hal_obj list \<Rightarrow>
     (din_channel option \<times> lcec_slave \<times> hal_obj list) option" where
  "lcec_din_register_channel env mname s pid idx sidx ch objs =
     lcec_din_register_channel_named env mname s idx sidx (chan_name ''din-'' pid) ch objs"

definition lcec_din_register_channel_packed ::
    "hal_env \<Rightarrow> string \<Rightarrow> lcec_slave \<Rightarrow> u16 \<Rightarrow> u16 \<Rightarrow> int \<Rightarrow> string \<Rightarrow> nat \<Rightarrow> hal_obj list \<Rightarrow>
     (din_channel option \<times> lcec_slave \<times> hal_obj list) option" where
  "lcec_din_register_channel_packed env mname s idx sidx bt name ch objs =
     (let d = zero_din\<lparr>di_name := name\<rparr> in
      Option.bind (pdo_init_unchecked s idx sidx (Some ch) (Some ch)) (\<lambda>s.
      let d = d\<lparr>di_pdo_bp_packed := word_of_int bt\<rparr> in
      map_option (\<lambda>(err, objs). (if err \<noteq> 0 then None else Some d, s, objs))
        (lcec_pin_newf_list env din_pins (chan_args mname s name) objs)))"

text \<open>The byte and the bit of a channel; both are kept in an \<open>int\<close>.\<close>

definition chan_bit :: "u32 \<Rightarrow> u32 \<Rightarrow> u32 \<Rightarrow> int \<times> int" where
  "chan_bit os bp packed =
     (if packed \<noteq> 0xffff then (s32 (s32 (uint os) + uint (drop_bit 3 packed)), uint (packed AND 7))
      else (s32 (uint os), s32 (uint bp)))"

definition lcec_din_read :: "ec_macros \<Rightarrow> u8 list \<Rightarrow> din_channel \<Rightarrow> din_channel option" where
  "lcec_din_read ec pd d =
     (let (os, bp) = chan_bit (di_pdo_os d) (di_pdo_bp d) (di_pdo_bp_packed d) in
      if 0 \<le> os \<and> nat os < length pd then
        let b = EC_READ_BIT ec (pd ! nat os) (nat bp) in Some (d\<lparr>di_in := b, di_in_not := \<not> b\<rparr>)
      else None)"

text \<open>The array of channels; a channel whose registration failed is \<open>NULL\<close>.\<close>

fun lcec_din_read_all :: "ec_macros \<Rightarrow> u8 list \<Rightarrow> din_channel option list \<Rightarrow> din_channel option list option" where
  "lcec_din_read_all ec pd [] = Some []"
| "lcec_din_read_all ec pd (None # cs) = map_option ((#) None) (lcec_din_read_all ec pd cs)"
| "lcec_din_read_all ec pd (Some d # cs) =
     Option.bind (lcec_din_read ec pd d) (\<lambda>d'. map_option ((#) (Some d')) (lcec_din_read_all ec pd cs))"

definition lcec_din_allocate_channels :: "nat \<Rightarrow> din_channel option list" where
  "lcec_din_allocate_channels n = replicate n None"

section \<open>Digital outputs\<close>

record dout_channel =
  do_name :: "string option"
  do_out :: bool
  do_invert :: bool
  do_pdo_os :: u32
  do_pdo_bp :: u32
  do_pdo_bp_packed :: u32

definition zero_dout :: dout_channel where
  "zero_dout = \<lparr>do_name = None, do_out = False, do_invert = False, do_pdo_os = 0, do_pdo_bp = 0, do_pdo_bp_packed = 0\<rparr>"

definition dout_pins :: "pindesc list" where
  "dout_pins = [pin_row HAL_BIT HAL_IN ''out'' ''%s.%s.%s.%s'', pin_end]"

definition dout_params :: "paramdesc list" where
  "dout_params =
     [param_row HAL_BIT HAL_RW ''invert'' ''%s.%s.%s.%s-invert'', param_row HAL_TYPE_UNSPECIFIED HAL_RO [] []]"

definition lcec_dout_register_channel_named ::
    "hal_env \<Rightarrow> string \<Rightarrow> lcec_slave \<Rightarrow> u16 \<Rightarrow> u16 \<Rightarrow> string \<Rightarrow> nat \<Rightarrow> hal_obj list \<Rightarrow>
     (dout_channel option \<times> lcec_slave \<times> hal_obj list) option" where
  "lcec_dout_register_channel_named env mname s idx sidx name ch objs =
     (let d = zero_dout\<lparr>do_name := Some name, do_pdo_bp_packed := 0xffff\<rparr> in
      Option.bind (pdo_init_unchecked s idx sidx (Some ch) (Some ch)) (\<lambda>s.
      Option.bind (lcec_pin_newf_list env dout_pins (chan_args mname s name) objs) (\<lambda>(err, objs).
        if err \<noteq> 0 then Some (None, s, objs)
        else map_option (\<lambda>(err, objs). (if err \<noteq> 0 then None else Some d, s, objs))
               (lcec_param_newf_list env dout_params (chan_args mname s name) objs))))"

definition lcec_dout_register_channel ::
    "hal_env \<Rightarrow> string \<Rightarrow> lcec_slave \<Rightarrow> int \<Rightarrow> u16 \<Rightarrow> u16 \<Rightarrow> nat \<Rightarrow> hal_obj list \<Rightarrow>
     (dout_channel option \<times> lcec_slave \<times> hal_obj list) option" where
  "lcec_dout_register_channel env mname s pid idx sidx ch objs =
     lcec_dout_register_channel_named env mname s idx sidx (chan_name ''dout-'' pid) ch objs"

text \<open>A packed output exports its pin alone: the parameter that inverts it stays zero.\<close>

definition lcec_dout_register_channel_packed ::
    "hal_env \<Rightarrow> string \<Rightarrow> lcec_slave \<Rightarrow> u16 \<Rightarrow> u16 \<Rightarrow> int \<Rightarrow> string \<Rightarrow> nat \<Rightarrow> hal_obj list \<Rightarrow>
     (dout_channel option \<times> lcec_slave \<times> hal_obj list) option" where
  "lcec_dout_register_channel_packed env mname s idx sidx bt name ch objs =
     Option.bind (pdo_init_unchecked s idx sidx (Some ch) (Some ch)) (\<lambda>s.
     let d = zero_dout\<lparr>do_pdo_bp_packed := word_of_int bt\<rparr> in
     map_option (\<lambda>(err, objs). (if err \<noteq> 0 then None else Some d, s, objs))
       (lcec_pin_newf_list env dout_pins (chan_args mname s name) objs))"

definition lcec_dout_write :: "ec_macros \<Rightarrow> dout_channel \<Rightarrow> u8 list \<Rightarrow> u8 list option" where
  "lcec_dout_write ec d pd =
     (let (os, bp) = chan_bit (do_pdo_os d) (do_pdo_bp d) (do_pdo_bp_packed d);
          b = (if do_invert d then \<not> do_out d else do_out d) in
      if 0 \<le> os \<and> nat os < length pd then Some (pd[nat os := EC_WRITE_BIT ec (pd ! nat os) (nat bp) b]) else None)"

fun lcec_dout_write_all :: "ec_macros \<Rightarrow> dout_channel option list \<Rightarrow> u8 list \<Rightarrow> u8 list option" where
  "lcec_dout_write_all ec [] pd = Some pd"
| "lcec_dout_write_all ec (None # cs) pd = lcec_dout_write_all ec cs pd"
| "lcec_dout_write_all ec (Some d # cs) pd = Option.bind (lcec_dout_write ec d pd) (lcec_dout_write_all ec cs)"

definition lcec_dout_allocate_channels :: "nat \<Rightarrow> dout_channel option list" where
  "lcec_dout_allocate_channels n = replicate n None"

section \<open>The bit of a channel\<close>

definition chan_pos :: "u32 \<Rightarrow> u32 \<Rightarrow> u32 \<Rightarrow> nat" where
  "chan_pos os bp packed = 8 * unat os + (if packed \<noteq> 0xffff then unat packed else unat bp)"

definition chan_in :: "nat \<Rightarrow> u32 \<Rightarrow> u32 \<Rightarrow> u32 \<Rightarrow> bool" where
  "chan_in n os bp packed \<longleftrightarrow> chan_pos os bp packed < 8 * n \<and> n < 2147483648 \<and> (packed = 0xffff \<longrightarrow> unat bp < 8)"

lemma chan_bit_pos:
  assumes "chan_in n os bp packed"
  shows "chan_bit os bp packed = (int (chan_pos os bp packed) div 8, int (chan_pos os bp packed) mod 8)"
proof (cases "packed = 0xffff")
  case True
  have "unat os < 2147483648" "unat bp < 8" using assms True by (simp_all add: chan_in_def chan_pos_def)
  then have "uint os < 2147483648" "uint bp < 8" by (simp_all only: unat_eq_nat_uint nat_less_iff uint_ge_0)
  moreover have "- 2147483648 \<le> uint os" "- 2147483648 \<le> uint bp" using uint_ge_0 [of os] uint_ge_0 [of bp] by linarith+
  ultimately have "s32 (uint os) = uint os" "s32 (uint bp) = uint bp" by (simp_all add: in_s32_def)
  then show ?thesis using True \<open>uint bp < 8\<close> by (simp add: chan_bit_def chan_pos_def)
next
  case False
  have p: "int (chan_pos os bp packed) = 8 * uint os + uint packed" using False by (simp add: chan_pos_def)
  have d: "uint (drop_bit 3 packed) = uint packed div 8"
    using uint_lt2p [of packed] by (simp add: unsigned_drop_bit_eq drop_bit_eq_div [where ?'a = int] take_bit_eq_mod [where ?'a = int])
  have "packed AND 7 = take_bit 3 packed" by (simp add: take_bit_eq_mask mask_eq_exp_minus_1)
  then have m: "uint (packed AND 7) = uint packed mod 8" by (simp add: unsigned_take_bit_eq take_bit_eq_mod uint_mod)
  have q: "uint os + uint packed div 8 = int (chan_pos os bp packed) div 8" by (simp add: p)
  have "int (chan_pos os bp packed) < 8 * int n" "int n < 2147483648" using assms by (simp_all add: chan_in_def)
  then have "int (chan_pos os bp packed) div 8 < 2147483648" by linarith
  moreover have "0 \<le> uint os" "0 \<le> uint packed div 8" using uint_ge_0 [of packed] by (simp_all add: pos_imp_zdiv_nonneg_iff del: uint_ge_0)
  ultimately have "in_s32 (uint os)" "in_s32 (uint os + uint packed div 8)" unfolding in_s32_def q [symmetric] by linarith+
  then show ?thesis using False by (simp add: chan_bit_def d m) (simp add: p)
qed

lemma chan_bit_access:
  assumes "chan_in (length pd) os bp packed" and "chan_bit os bp packed = (o1, b1)"
  shows "0 \<le> o1 \<and> nat o1 < length pd"
    and "pd_read_bit ec pd (int (chan_pos os bp packed)) = Some (EC_READ_BIT ec (pd ! nat o1) (nat b1))"
    and "pd_write_bit ec pd (int (chan_pos os bp packed)) v = Some (pd[nat o1 := EC_WRITE_BIT ec (pd ! nat o1) (nat b1) v])"
proof -
  have "chan_pos os bp packed < 8 * length pd" using assms(1) by (simp add: chan_in_def)
  then have "nat (int (chan_pos os bp packed) div 8) < length pd" by linarith
  then show "0 \<le> o1 \<and> nat o1 < length pd"
    and "pd_read_bit ec pd (int (chan_pos os bp packed)) = Some (EC_READ_BIT ec (pd ! nat o1) (nat b1))"
    and "pd_write_bit ec pd (int (chan_pos os bp packed)) v = Some (pd[nat o1 := EC_WRITE_BIT ec (pd ! nat o1) (nat b1) v])"
    using assms(2) chan_bit_pos [OF assms(1)] by (auto simp: pd_read_bit_def pd_write_bit_def)
qed

definition din_pos :: "din_channel \<Rightarrow> nat" where
  "din_pos d = chan_pos (di_pdo_os d) (di_pdo_bp d) (di_pdo_bp_packed d)"

definition din_in :: "nat \<Rightarrow> din_channel \<Rightarrow> bool" where
  "din_in n d \<longleftrightarrow> chan_in n (di_pdo_os d) (di_pdo_bp d) (di_pdo_bp_packed d)"

definition dout_pos :: "dout_channel \<Rightarrow> nat" where
  "dout_pos d = chan_pos (do_pdo_os d) (do_pdo_bp d) (do_pdo_bp_packed d)"

definition dout_in :: "nat \<Rightarrow> dout_channel \<Rightarrow> bool" where
  "dout_in n d \<longleftrightarrow> chan_in n (do_pdo_os d) (do_pdo_bp d) (do_pdo_bp_packed d)"

lemma din_read_bit:
  assumes "ec_le ec" and "din_in (length pd) d"
  shows "lcec_din_read ec pd d = Some (d\<lparr>di_in := pd_bit pd (din_pos d), di_in_not := \<not> pd_bit pd (din_pos d)\<rparr>)"
proof -
  have c: "chan_in (length pd) (di_pdo_os d) (di_pdo_bp d) (di_pdo_bp_packed d)" using assms(2) by (simp add: din_in_def)
  have r: "pd_read_bit ec pd (int (din_pos d)) = Some (pd_bit pd (din_pos d))"
    using c by (intro pd_read_bit_nat [OF assms(1)]) (simp add: din_pos_def chan_in_def)
  obtain o1 b1 where b: "chan_bit (di_pdo_os d) (di_pdo_bp d) (di_pdo_bp_packed d) = (o1, b1)" by fastforce
  show ?thesis using r chan_bit_access [OF c b] by (simp add: lcec_din_read_def b Let_def din_pos_def)
qed

lemma dout_write_bit:
  assumes "ec_le ec" and "dout_in (length pd) d"
  shows "\<exists>pd'. lcec_dout_write ec d pd = Some pd' \<and> length pd' = length pd \<and>
    (\<forall>j < 8 * length pd. pd_bit pd' j = (if j = dout_pos d then do_out d \<noteq> do_invert d else pd_bit pd j))"
proof -
  have c: "chan_in (length pd) (do_pdo_os d) (do_pdo_bp d) (do_pdo_bp_packed d)" using assms(2) by (simp add: dout_in_def)
  obtain o1 b1 where b: "chan_bit (do_pdo_os d) (do_pdo_bp d) (do_pdo_bp_packed d) = (o1, b1)" by fastforce
  have "lcec_dout_write ec d pd = pd_write_bit ec pd (int (dout_pos d)) (do_out d \<noteq> do_invert d)"
    using chan_bit_access [OF c b] by (simp add: lcec_dout_write_def b Let_def dout_pos_def)
  then show ?thesis
    using pd_write_bit_nat [OF assms(1), of "dout_pos d" pd "do_out d \<noteq> do_invert d"] c by (simp add: dout_pos_def chan_in_def)
qed

section \<open>All channels\<close>

definition channels_of :: "'a option list \<Rightarrow> 'a list" where
  "channels_of cs = map the (filter (\<lambda>c. c \<noteq> None) cs)"

lemma channels_of_simps [simp]:
  "channels_of [] = []" "channels_of (None # cs) = channels_of cs" "channels_of (Some d # cs) = d # channels_of cs"
  by (simp_all add: channels_of_def)

lemma dout_write_all_bits:
  assumes "ec_le ec" and "\<forall>d\<in>set (channels_of cs). dout_in (length pd) d" and "distinct (map dout_pos (channels_of cs))"
  shows "\<exists>pd'. lcec_dout_write_all ec cs pd = Some pd' \<and> length pd' = length pd \<and>
    (\<forall>d\<in>set (channels_of cs). pd_bit pd' (dout_pos d) = (do_out d \<noteq> do_invert d)) \<and>
    (\<forall>k < 8 * length pd. k \<notin> dout_pos ` set (channels_of cs) \<longrightarrow> pd_bit pd' k = pd_bit pd k)"
  using assms(2,3)
proof (induction cs arbitrary: pd)
  case (Cons c cs)
  show ?case
  proof (cases c)
    case None
    then show ?thesis using Cons by simp
  next
    case (Some d)
    obtain pd1 where pd1: "lcec_dout_write ec d pd = Some pd1" "length pd1 = length pd"
      "\<forall>j < 8 * length pd. pd_bit pd1 j = (if j = dout_pos d then do_out d \<noteq> do_invert d else pd_bit pd j)"
      using dout_write_bit [OF assms(1), of pd d] Cons.prems(1) Some by auto
    obtain pd' where pd': "lcec_dout_write_all ec cs pd1 = Some pd'" "length pd' = length pd"
      "\<forall>d\<in>set (channels_of cs). pd_bit pd' (dout_pos d) = (do_out d \<noteq> do_invert d)"
      "\<forall>k < 8 * length pd. k \<notin> dout_pos ` set (channels_of cs) \<longrightarrow> pd_bit pd' k = pd_bit pd1 k"
      using Cons.IH [of pd1] Cons.prems Some pd1(2) by auto
    have "dout_pos d < 8 * length pd" using Cons.prems(1) Some by (simp add: dout_in_def chan_in_def dout_pos_def)
    moreover have "dout_pos d \<notin> dout_pos ` set (channels_of cs)" using Cons.prems(2) Some by simp
    ultimately have "pd_bit pd' (dout_pos d) = (do_out d \<noteq> do_invert d)" using pd1(3) pd'(4) by simp
    then show ?thesis using Some pd1 pd' by simp
  qed
qed simp

lemma din_read_all_bits:
  assumes "ec_le ec" and "\<forall>d\<in>set (channels_of cs). din_in (length pd) d"
  shows "lcec_din_read_all ec pd cs =
    Some (map (map_option (\<lambda>d. d\<lparr>di_in := pd_bit pd (din_pos d), di_in_not := \<not> pd_bit pd (din_pos d)\<rparr>)) cs)"
  using assms(2)
proof (induction cs)
  case (Cons c cs)
  then show ?case using din_read_bit [OF assms(1), of pd] by (cases c) simp_all
qed simp

end
