(* ===== verification/Cia402.thy ===== *)
theory Cia402
  imports CiaTables ChannelBits SyncsOrder Sdo GenericPins
begin

text \<open>
  The library of CiA 402 servo and stepper controllers (\<open>devices/lcec_class_cia402.c\<close>): the
  options of a device, the sync manager tables built from them, the registration of a channel
  (one axis) and its cyclic read and write. The flags \<open>enable_x\<close> of a structure are a function
  of the name \<open>x\<close>.
\<close>

section \<open>Options\<close>

definition CIA402_MAX_CHANNELS :: nat where "CIA402_MAX_CHANNELS = 8"

record cia_channel_options =
  cp_name_prefix :: "string option"
  cp_digital_in_channels :: int
  cp_digital_out_channels :: int
  cp_enable :: "string \<Rightarrow> bool"

record cia_options =
  cg_channels :: int
  cg_rxpdolimit :: int
  cg_txpdolimit :: int
  cg_pdo_increment :: int
  cg_pdo_autoflow :: bool
  cg_pdo_limit :: int
  cg_pdo_entry_limit :: int
  cg_zero_based_axis_names :: bool
  cg_channel :: "cia_channel_options list"

definition lcec_cia402_channel_options :: cia_channel_options where
  "lcec_cia402_channel_options =
     \<lparr>cp_name_prefix = None, cp_digital_in_channels = 16, cp_digital_out_channels = 16,
      cp_enable = (\<lambda>n. n = ''opmode'')\<rparr>"

definition lcec_cia402_options :: cia_options where
  "lcec_cia402_options =
     \<lparr>cg_channels = 1, cg_rxpdolimit = 0, cg_txpdolimit = 0, cg_pdo_increment = 1, cg_pdo_autoflow = False,
      cg_pdo_limit = 1024, cg_pdo_entry_limit = 1024, cg_zero_based_axis_names = False,
      cg_channel = replicate CIA402_MAX_CHANNELS lcec_cia402_channel_options\<rparr>"

text \<open>The names of a device with several axes; a channel behind the array is a fault.\<close>

fun rename_channels :: "int \<Rightarrow> nat list \<Rightarrow> cia_channel_options list \<Rightarrow> cia_channel_options list option" where
  "rename_channels off [] cs = Some cs"
| "rename_channels off (c # is) cs =
     (if c < length cs
      then rename_channels off is (cs[c := (cs ! c)\<lparr>cp_name_prefix := Some (take 15 (''srv-'' @ show_int (int c + off)))\<rparr>])
      else None)"

definition lcec_cia402_rename_multiaxis_channels :: "cia_options \<Rightarrow> cia_options option" where
  "lcec_cia402_rename_multiaxis_channels opt =
     map_option (\<lambda>cs. opt\<lparr>cg_channel := cs\<rparr>)
       (rename_channels (if cg_zero_based_axis_names opt then 0 else 1) [0..<nat (cg_channels opt)] (cg_channel opt))"

text \<open>The objects every mode needs, and the single objects.\<close>

definition mode_objects :: "(string \<times> string list) list" where
  "mode_objects =
     [(''opmode'', [''opmode'', ''opmode_display'']),
      (''pp'', [''actual_position'', ''target_position'']),
      (''pv'', [''actual_velocity'', ''target_velocity'']),
      (''csp'', [''actual_position'', ''actual_velocity'', ''target_position'']),
      (''csv'', [''actual_velocity'', ''target_velocity'']),
      (''hm'', [''hm'', ''home_method'', ''home_velocity_fast'', ''home_velocity_slow'']),
      (''ip'', []),
      (''vl'', [''target_vl'', ''actual_vl'', ''vl_demand'', ''vl_minimum'', ''vl_maximum'']),
      (''cst'', [])]"

definition lcec_cia402_enabled :: "cia_channel_options \<Rightarrow> string \<Rightarrow> bool" where
  "lcec_cia402_enabled opt n \<longleftrightarrow>
     list_ex (\<lambda>(mode, ns). cp_enable opt mode \<and> n \<in> set ns) mode_objects \<or> n \<in> set FOR_ALL_OPTS \<and> cp_enable opt n"

section \<open>Sync managers\<close>

definition lcec_cia402_init_sync :: "cia_options \<Rightarrow> sync_fault + syncs" where
  "lcec_cia402_init_sync opt =
     (let s = (if cg_pdo_autoflow opt
               then lcec_syncs_enable_autoflow (cg_pdo_limit opt) (cg_pdo_entry_limit opt) (cg_pdo_increment opt) lcec_syncs_init
               else lcec_syncs_init)
      in sync_build [AddSync EC_DIR_OUTPUT EC_WD_DEFAULT, AddSync EC_DIR_INPUT EC_WD_DEFAULT] s)"

definition cia_offset :: "nat \<Rightarrow> u16" where "cia_offset channel = word_of_int (0x6000 + 0x800 * int channel)"

definition cia_map_pdos :: "(string \<Rightarrow> bool) \<Rightarrow> u16 \<Rightarrow> string list \<Rightarrow> sync_call list" where
  "cia_map_pdos enabled offset ns =
     map (\<lambda>n. AddEntry (offset + paste PDO_IDX_OFFSET n) (paste PDO_SIDX n) (of_nat (paste PDO_BITS n))) (filter enabled ns)"

text \<open>The calls for one channel: its PDO, the control or status word, and what is enabled.\<close>

definition cia_output_calls :: "cia_options \<Rightarrow> nat \<Rightarrow> sync_call list" where
  "cia_output_calls opt channel =
     (let offset = cia_offset channel; channelbase = word_of_int (0x1600 + int channel * cg_pdo_increment opt) in
      AddPdo channelbase # AddEntry (offset + 0x40) 0x00 16 #
      cia_map_pdos (lcec_cia402_enabled (cg_channel opt ! channel)) offset (FOR_ALL_WRITE_PDOS @ [''digital_output'']))"

definition cia_input_calls :: "cia_options \<Rightarrow> nat \<Rightarrow> sync_call list" where
  "cia_input_calls opt channel =
     (let offset = cia_offset channel; channelbase = word_of_int (0x1a00 + int channel * cg_pdo_increment opt) in
      AddPdo channelbase # AddEntry (offset + 0x41) 0x00 16 #
      cia_map_pdos (lcec_cia402_enabled (cg_channel opt ! channel)) offset (FOR_ALL_READ_PDOS @ [''digital_input'']))"

text \<open>The loop over the channels; a limit that is set and exceeded ends it with -1.\<close>

fun cia_add_channels ::
    "(cia_options \<Rightarrow> nat \<Rightarrow> sync_call list) \<Rightarrow> int \<Rightarrow> cia_options \<Rightarrow> nat list \<Rightarrow> syncs \<Rightarrow> sync_fault + int \<times> syncs" where
  "cia_add_channels calls limit opt [] s = Inr (0, s)"
| "cia_add_channels calls limit opt (c # cs) s =
     (if c \<ge> length (cg_channel opt) then Inl SyncOverrun
      else bind_res (sync_build (calls opt c) s) (\<lambda>s'.
        if limit \<noteq> 0 \<and> int (sy_pdo_entry_count s') - int (sy_pdo_entry_count s) > limit then Inr (-1, s')
        else cia_add_channels calls limit opt cs s'))"

definition lcec_cia402_add_output_sync :: "cia_options \<Rightarrow> syncs \<Rightarrow> sync_fault + int \<times> syncs" where
  "lcec_cia402_add_output_sync opt s =
     bind_res (sync_build [AddSync EC_DIR_OUTPUT EC_WD_DEFAULT] s)
       (cia_add_channels cia_output_calls (cg_rxpdolimit opt) opt [0..<nat (cg_channels opt)])"

definition lcec_cia402_add_input_sync :: "cia_options \<Rightarrow> syncs \<Rightarrow> sync_fault + int \<times> syncs" where
  "lcec_cia402_add_input_sync opt s =
     bind_res (sync_build [AddSync EC_DIR_INPUT EC_WD_DEFAULT] s)
       (cia_add_channels cia_input_calls (cg_txpdolimit opt) opt [0..<nat (cg_channels opt)])"

section \<open>Channels\<close>

record cia_channel =
  cc_base_idx :: u16
  cc_options :: cia_channel_options
  cc_enabled :: "string \<Rightarrow> bool"
  cc_controlword :: u32
  cc_controlword_os :: u32
  cc_statusword :: u32
  cc_statusword_os :: u32
  cc_supported_modes :: u32
  cc_supports :: "string \<Rightarrow> bool"
  cc_pin :: "string \<Rightarrow> hal_val"
  cc_os :: "string \<Rightarrow> u32"
  cc_old :: "string \<Rightarrow> hal_val"
  cc_din :: "din_channel option list"
  cc_dout :: "dout_channel option list"

definition cia_pins_required :: "pindesc list" where
  "cia_pins_required =
     [pin_row HAL_U32 HAL_IN ''controlword'' ''%s.%s.%s.%s-cia-controlword'',
      pin_row HAL_U32 HAL_OUT ''statusword'' ''%s.%s.%s.%s-cia-statusword'',
      pin_row HAL_U32 HAL_OUT ''supported_modes'' ''%s.%s.%s.%s-supported-modes'',
      pin_row HAL_BIT HAL_OUT ''supports_mode_pp'' ''%s.%s.%s.%s-supports-mode-pp'',
      pin_row HAL_BIT HAL_OUT ''supports_mode_vl'' ''%s.%s.%s.%s-supports-mode-vl'',
      pin_row HAL_BIT HAL_OUT ''supports_mode_pv'' ''%s.%s.%s.%s-supports-mode-pv'',
      pin_row HAL_BIT HAL_OUT ''supports_mode_tq'' ''%s.%s.%s.%s-supports-mode-tq'',
      pin_row HAL_BIT HAL_OUT ''supports_mode_hm'' ''%s.%s.%s.%s-supports-mode-hm'',
      pin_row HAL_BIT HAL_OUT ''supports_mode_ip'' ''%s.%s.%s.%s-supports-mode-ip'',
      pin_row HAL_BIT HAL_OUT ''supports_mode_csp'' ''%s.%s.%s.%s-supports-mode-csp'',
      pin_row HAL_BIT HAL_OUT ''supports_mode_csv'' ''%s.%s.%s.%s-supports-mode-csv'',
      pin_row HAL_BIT HAL_OUT ''supports_mode_cst'' ''%s.%s.%s.%s-supports-mode-cst'',
      pin_end]"

text \<open>The table of one optional pin.\<close>

definition optional_pin :: "hal_pin_dir \<Rightarrow> string \<Rightarrow> pindesc list" where
  "optional_pin dir n = [pin_row (paste PDO_PIN_TYPE n) dir n (''%s.%s.%s.%s-'' @ paste PDO_PIN_NAME n), pin_end]"

definition zero_of :: "string \<Rightarrow> hal_val" where
  "zero_of n = (if paste PDO_SIGN n then HvS32 0 else HvU32 0)"

definition zero_cia_channel :: "u16 \<Rightarrow> cia_channel_options \<Rightarrow> cia_channel" where
  "zero_cia_channel base opt =
     \<lparr>cc_base_idx = base, cc_options = opt, cc_enabled = lcec_cia402_enabled opt, cc_controlword = 0, cc_controlword_os = 0,
      cc_statusword = 0, cc_statusword_os = 0, cc_supported_modes = 0, cc_supports = (\<lambda>_. False), cc_pin = zero_of,
      cc_os = (\<lambda>_. 0), cc_old = zero_of, cc_din = [], cc_dout = []\<rparr>"

section \<open>Registration\<close>

text \<open>
  The pointers to the positions in the channel's structure have numbers: \<open>loc n i\<close> is the one of
  object \<open>n\<close>, or of channel \<open>i\<close> of the digital inputs and outputs.
\<close>

type_synonym cia_loc = "string \<Rightarrow> nat \<Rightarrow> nat"

fun register_pdos :: "(u16 \<times> u16 \<times> nat) list \<Rightarrow> lcec_slave \<Rightarrow> lcec_slave option" where
  "register_pdos [] s = Some s"
| "register_pdos ((idx, sidx, p) # rs) s = Option.bind (pdo_init_unchecked s idx sidx (Some p) None) (register_pdos rs)"

definition cia_pdo_regs :: "(string \<Rightarrow> bool) \<Rightarrow> u16 \<Rightarrow> cia_loc \<Rightarrow> (u16 \<times> u16 \<times> nat) list" where
  "cia_pdo_regs enabled base loc =
     [(base + 0x40, 0, loc ''controlword'' 0), (base + 0x41, 0, loc ''statusword'' 0)] @
     map (\<lambda>n. (base + paste PDO_IDX_OFFSET n, ucast (paste PDO_SIDX n), loc n 0))
       (filter enabled (FOR_ALL_READ_PDOS @ FOR_ALL_WRITE_PDOS))"

text \<open>The digital inputs and outputs: name and bit of each; a failed registration leaves a \<open>NULL\<close>.\<close>

definition cia_din_list :: "string \<Rightarrow> int \<Rightarrow> (string \<times> int) list" where
  "cia_din_list prefix n =
     [(take 29 (prefix @ ''-din-negative-limit''), 0), (take 29 (prefix @ ''-din-positive-limit''), 1),
      (take 29 (prefix @ ''-din-home''), 2), (take 29 (prefix @ ''-din-interlock''), 3)] @
     map (\<lambda>c. (take 29 (prefix @ ''-din-'' @ show_int (int c)), 16 + int c)) [0..<nat n]"

definition cia_dout_list :: "string \<Rightarrow> int \<Rightarrow> (string \<times> int) list" where
  "cia_dout_list prefix n =
     (take 19 (prefix @ ''-dout-brake''), 0) #
     map (\<lambda>c. (take 19 (prefix @ ''-dout-'' @ show_int (int c)), 16 + int c)) [0..<nat n]"

fun cia_register_din ::
    "hal_env \<Rightarrow> string \<Rightarrow> u16 \<Rightarrow> cia_loc \<Rightarrow> nat \<Rightarrow> (string \<times> int) list \<Rightarrow> lcec_slave \<Rightarrow> hal_obj list \<Rightarrow>
     (din_channel option list \<times> lcec_slave \<times> hal_obj list) option" where
  "cia_register_din env mname base loc i [] s objs = Some ([], s, objs)"
| "cia_register_din env mname base loc i ((name, bt) # ds) s objs =
     Option.bind (lcec_din_register_channel_packed env mname s (base + 0xfd) 0 bt name (loc ''din'' i) objs) (\<lambda>(d, s, objs).
       map_option (\<lambda>(cs, r). (d # cs, r)) (cia_register_din env mname base loc (Suc i) ds s objs))"

fun cia_register_dout ::
    "hal_env \<Rightarrow> string \<Rightarrow> u16 \<Rightarrow> cia_loc \<Rightarrow> nat \<Rightarrow> (string \<times> int) list \<Rightarrow> lcec_slave \<Rightarrow> hal_obj list \<Rightarrow>
     (dout_channel option list \<times> lcec_slave \<times> hal_obj list) option" where
  "cia_register_dout env mname base loc i [] s objs = Some ([], s, objs)"
| "cia_register_dout env mname base loc i ((name, bt) # ds) s objs =
     Option.bind (lcec_dout_register_channel_packed env mname s (base + 0xfe) 1 bt name (loc ''dout'' i) objs) (\<lambda>(d, s, objs).
       map_option (\<lambda>(cs, r). (d # cs, r)) (cia_register_dout env mname base loc (Suc i) ds s objs))"

fun export_pins :: "hal_env \<Rightarrow> fmt_arg list \<Rightarrow> pindesc list list \<Rightarrow> hal_obj list \<Rightarrow> (int \<times> hal_obj list) option" where
  "export_pins env as [] objs = Some (0, objs)"
| "export_pins env as (t # ts) objs =
     Option.bind (lcec_pin_newf_list env t as objs) (\<lambda>(err, objs). if err \<noteq> 0 then Some (err, objs) else export_pins env as ts objs)"

text \<open>
  The current value of an object; what the stack held where the read fails is handed out.
\<close>

definition cia_read_default :: "ec_macros \<Rightarrow> sdo_env \<Rightarrow> u8 list \<Rightarrow> lcec_slave \<Rightarrow> u16 \<Rightarrow> string \<Rightarrow> hal_val" where
  "cia_read_default ec env junk s base n =
     (let idx = base + paste PDO_IDX_OFFSET n; sidx = paste PDO_SIDX n; bits = paste PDO_BITS n in
      if paste PDO_SIGN n then
        HvS32 (if bits = 8 then snd (lcec_read_sdo8_pin_S32 env (hd junk) s idx sidx)
               else if bits = 16 then snd (lcec_read_sdo16_pin_S32 ec env junk s idx sidx)
               else snd (lcec_read_sdo32_pin_S32 ec env junk s idx sidx))
      else
        HvU32 (if bits = 8 then snd (lcec_read_sdo8_pin_U32 env (hd junk) s idx sidx)
               else if bits = 16 then snd (lcec_read_sdo16_pin_U32 ec env junk s idx sidx)
               else snd (lcec_read_sdo32_pin_U32 ec env junk s idx sidx)))"

definition cia_modes :: "u32 \<Rightarrow> string \<Rightarrow> bool" where
  "cia_modes modes n =
     list_ex (\<lambda>(k, p). n = p \<and> bit modes k)
       [(0, ''pp''), (1, ''vl''), (2, ''pv''), (3, ''tq''), (5, ''hm''), (6, ''ip''), (7, ''csp''), (8, ''csv''), (9, ''cst'')]"

text \<open>The slave after all registrations, with the channel and the exported objects, or the error.\<close>

definition lcec_cia402_register_channel ::
    "ec_macros \<Rightarrow> hal_env \<Rightarrow> sdo_env \<Rightarrow> (string \<Rightarrow> u8 list) \<Rightarrow> string \<Rightarrow> lcec_slave \<Rightarrow> u16 \<Rightarrow> cia_channel_options option \<Rightarrow>
     cia_loc \<Rightarrow> hal_obj list \<Rightarrow> (cia_channel option \<times> lcec_slave \<times> hal_obj list) option" where
  "lcec_cia402_register_channel ec henv senv junk mname s base opt0 loc objs =
     (let opt = (case opt0 of Some opt \<Rightarrow> opt | None \<Rightarrow> lcec_cia402_channel_options);
          prefix = (case cp_name_prefix opt of Some p \<Rightarrow> p | None \<Rightarrow> ''srv'');
          data = zero_cia_channel base opt;
          enabled = cc_enabled data;
          as = chan_args mname s prefix
      in
      Option.bind (register_pdos (cia_pdo_regs enabled base loc) s) (\<lambda>s.
      Option.bind (lcec_pin_newf_list henv cia_pins_required as objs) (\<lambda>(err, objs).
      if err \<noteq> 0 then Some (None, s, objs)
      else
        Option.bind (cia_register_din henv mname base loc 0
          (if enabled ''digital_input'' then cia_din_list prefix (cp_digital_in_channels opt) else []) s objs) (\<lambda>(din, s, objs).
        Option.bind (cia_register_dout henv mname base loc 0
          (if enabled ''digital_output'' then cia_dout_list prefix (cp_digital_out_channels opt) else []) s objs) (\<lambda>(dout, s, objs).
        Option.bind (export_pins henv as
          (map (optional_pin HAL_OUT) (filter enabled FOR_ALL_READ_PDOS) @
           map (optional_pin HAL_IN) (filter enabled (FOR_ALL_WRITE_PDOS @ FOR_ALL_WRITE_SDOS))) objs) (\<lambda>(err, objs).
        if err \<noteq> 0 then Some (None, s, objs)
        else
          let modes = snd (lcec_read_sdo32 ec senv (junk ''modes'') s (base + 0x502) 0) in
          Some (Some (data\<lparr>cc_din := din, cc_dout := dout, cc_supported_modes := modes, cc_supports := cia_modes modes,
                           cc_pin := (\<lambda>n. if enabled n \<and> n \<in> set (FOR_ALL_WRITE_PDOS @ FOR_ALL_WRITE_SDOS)
                                          then cia_read_default ec senv (junk n) s base n else zero_of n)\<rparr>), s, objs)))))))"

section \<open>Cyclic read and write\<close>

definition cia_load :: "ec_macros \<Rightarrow> u8 list \<Rightarrow> nat \<Rightarrow> string \<Rightarrow> hal_val option" where
  "cia_load ec pd os n =
     (let bits = paste PDO_BITS n; s = paste PDO_SIGN n in
      if bits = 8 then map_option (\<lambda>bs. if s then HvS32 (sint (hd bs)) else HvU32 (ucast (hd bs))) (pd_load pd os 1)
      else if bits = 16 then
        map_option (\<lambda>bs. if s then HvS32 (sint (EC_READ_U16 ec bs)) else HvU32 (ucast (EC_READ_U16 ec bs))) (pd_load pd os 2)
      else map_option (\<lambda>bs. if s then HvS32 (sint (EC_READ_U32 ec bs)) else HvU32 (EC_READ_U32 ec bs)) (pd_load pd os 4))"

fun hv_int :: "hal_val \<Rightarrow> int" where
  "hv_int (HvS32 i) = i"
| "hv_int (HvU32 w) = uint w"
| "hv_int _ = 0"

definition cia_bytes :: "ec_macros \<Rightarrow> string \<Rightarrow> hal_val \<Rightarrow> u8 list" where
  "cia_bytes ec n v =
     (let bits = paste PDO_BITS n in
      if bits = 8 then [word_of_int (hv_int v)]
      else if bits = 16 then EC_WRITE_U16 ec (word_of_int (hv_int v))
      else EC_WRITE_U32 ec (word_of_int (hv_int v)))"

fun cia_read_pdos :: "ec_macros \<Rightarrow> u8 list \<Rightarrow> string list \<Rightarrow> cia_channel \<Rightarrow> cia_channel option" where
  "cia_read_pdos ec pd [] d = Some d"
| "cia_read_pdos ec pd (n # ns) d =
     (if cc_enabled d n then
        Option.bind (cia_load ec pd (unat (cc_os d n)) n) (\<lambda>v. cia_read_pdos ec pd ns (d\<lparr>cc_pin := (cc_pin d)(n := v)\<rparr>))
      else cia_read_pdos ec pd ns d)"

definition lcec_cia402_read :: "ec_macros \<Rightarrow> u8 list \<Rightarrow> cia_channel \<Rightarrow> cia_channel option" where
  "lcec_cia402_read ec pd d =
     Option.bind (pd_load pd (unat (cc_statusword_os d)) 2) (\<lambda>bs.
     Option.bind (cia_read_pdos ec pd FOR_ALL_READ_PDOS (d\<lparr>cc_statusword := ucast (EC_READ_U16 ec bs)\<rparr>)) (\<lambda>d.
     if cc_enabled d ''digital_input''
     then map_option (\<lambda>cs. d\<lparr>cc_din := cs\<rparr>) (lcec_din_read_all ec pd (cc_din d)) else Some d))"

definition lcec_cia402_read_all :: "ec_macros \<Rightarrow> u8 list \<Rightarrow> cia_channel list \<Rightarrow> cia_channel list option" where
  "lcec_cia402_read_all ec pd = map_res_opt (lcec_cia402_read ec pd)"

fun cia_write_pdos :: "ec_macros \<Rightarrow> cia_channel \<Rightarrow> string list \<Rightarrow> u8 list \<Rightarrow> u8 list option" where
  "cia_write_pdos ec d [] pd = Some pd"
| "cia_write_pdos ec d (n # ns) pd =
     (if cc_enabled d n
      then Option.bind (pd_store pd (unat (cc_os d n)) (cia_bytes ec n (cc_pin d n))) (cia_write_pdos ec d ns)
      else cia_write_pdos ec d ns pd)"

text \<open>
  A changed value of an object that is not mapped is put into its request and sent, unless the
  request is busy; the requests made are returned.
\<close>

fun cia_write_sdos ::
    "ec_macros \<Rightarrow> (string \<Rightarrow> bool) \<Rightarrow> string list \<Rightarrow> cia_channel \<Rightarrow> (string \<times> u8 list) list \<times> cia_channel" where
  "cia_write_sdos ec busy [] d = ([], d)"
| "cia_write_sdos ec busy (n # ns) d =
     (if cc_enabled d n \<and> cc_pin d n \<noteq> cc_old d n \<and> \<not> busy n then
        let d' = d\<lparr>cc_old := (cc_old d)(n := cc_pin d n)\<rparr>; (qs, d'') = cia_write_sdos ec busy ns d' in
        ((n, cia_bytes ec n (cc_old d' n)) # qs, d'')
      else cia_write_sdos ec busy ns d)"

definition lcec_cia402_write ::
    "ec_macros \<Rightarrow> (string \<Rightarrow> bool) \<Rightarrow> cia_channel \<Rightarrow> u8 list \<Rightarrow> ((string \<times> u8 list) list \<times> cia_channel \<times> u8 list) option" where
  "lcec_cia402_write ec busy d pd =
     Option.bind (pd_store pd (unat (cc_controlword_os d)) (EC_WRITE_U16 ec (ucast (cc_controlword d)))) (\<lambda>pd.
     Option.bind (cia_write_pdos ec d FOR_ALL_WRITE_PDOS pd) (\<lambda>pd.
     let (qs, d) = cia_write_sdos ec busy FOR_ALL_WRITE_SDOS d in
     map_option (\<lambda>pd. (qs, d, pd))
       (if cc_enabled d ''digital_output'' then lcec_dout_write_all ec (cc_dout d) pd else Some pd)))"

fun lcec_cia402_write_all ::
    "ec_macros \<Rightarrow> (nat \<Rightarrow> string \<Rightarrow> bool) \<Rightarrow> nat \<Rightarrow> cia_channel list \<Rightarrow> u8 list \<Rightarrow>
     ((string \<times> u8 list) list list \<times> cia_channel list \<times> u8 list) option" where
  "lcec_cia402_write_all ec busy i [] pd = Some ([], [], pd)"
| "lcec_cia402_write_all ec busy i (d # ds) pd =
     Option.bind (lcec_cia402_write ec (busy i) d pd) (\<lambda>(qs, d, pd).
       map_option (\<lambda>(qss, ds, pd). (qs # qss, d # ds, pd)) (lcec_cia402_write_all ec busy (Suc i) ds pd))"

end
