(* ===== verification/CiaMapped.thy ===== *)
theory CiaMapped
  imports Cia402
begin

text \<open>
  What a CiA 402 device registers is what it maps: the process data entries its channels ask
  positions for are entries of the sync manager tables it hands to the EtherCAT master.
\<close>

section \<open>Sequences of calls\<close>

lemma calls_fit_append:
  "calls_fit af (xs @ ys) L \<longleftrightarrow> calls_fit af xs L \<and> calls_fit af ys (layout_run af xs L)"
  by (induction xs arbitrary: L) (simp_all add: layout_run_def)

lemma layout_run_append: "layout_run af (xs @ ys) L = layout_run af ys (layout_run af xs L)"
  by (simp add: layout_run_def)

lemma sync_build_append: "sync_build (xs @ ys) s = bind_res (sync_build xs s) (sync_build ys)"
  by (simp add: sync_build_def fold_res_append)

text \<open>Calls of a driver that open no sync manager fit wherever a PDO is open.\<close>

definition no_sync :: "sync_call list \<Rightarrow> bool" where
  "no_sync cs \<longleftrightarrow> (\<forall>d w. AddSync d w \<notin> set cs)"

definition pdo_open :: "sync_layout \<Rightarrow> bool" where
  "pdo_open L \<longleftrightarrow> L \<noteq> [] \<and> snd (last L) \<noteq> []"

lemma pdo_open_step:
  assumes "L \<noteq> []" and "c \<noteq> AddSync d w" and "pdo_open L \<or> (\<exists>i. c = AddPdo i)" and "\<forall>d w. c \<noteq> AddSync d w"
  shows "call_fits c L \<and> pdo_open (layout_step af c L)"
proof (cases c)
  case (AddPdo i)
  obtain M h ps where "L = M @ [(h, ps)]" using assms(1) by (metis append_butlast_last_id surj_pair)
  then show ?thesis using AddPdo by (simp add: pdo_open_def)
next
  case (AddEntry i si l)
  then have f: "call_fits c L" using assms(3) by (simp add: pdo_open_def)
  then obtain M h qs j es where L: "L = M @ [(h, qs @ [(j, es)])]" using call_fitsD(2) AddEntry by blast
  show ?thesis
  proof (cases af)
    case (Some p)
    then show ?thesis using f AddEntry by (cases p) (simp add: L pdo_open_def)
  qed (use f AddEntry in \<open>simp add: L pdo_open_def layout_overflow_def\<close>)
qed (use assms(4) in simp)

lemma no_sync_fits: "no_sync cs \<Longrightarrow> pdo_open L \<Longrightarrow> calls_fit af cs L \<and> pdo_open (layout_run af cs L)"
proof (induction cs arbitrary: L)
  case (Cons c cs)
  have "L \<noteq> []" "\<forall>d w. c \<noteq> AddSync d w" "no_sync cs" using Cons.prems by (auto simp: pdo_open_def no_sync_def)
  then show ?case using Cons.IH [of "layout_step af c L"] pdo_open_step Cons.prems(2) by (simp add: layout_run_def)
qed (simp add: layout_run_def)

lemma pdo_first_fits:
  assumes "L \<noteq> []" and "no_sync cs"
  shows "calls_fit af (AddPdo i # cs) L \<and> pdo_open (layout_run af (AddPdo i # cs) L)"
proof -
  have "call_fits (AddPdo i) L \<and> pdo_open (layout_step af (AddPdo i) L)" using pdo_open_step [OF assms(1), of "AddPdo i"] by auto
  then show ?thesis using no_sync_fits [OF assms(2), of "layout_step af (AddPdo i) L" af] by (simp add: layout_run_def)
qed

section \<open>The calls of the library\<close>

lemma no_sync_map_pdos: "no_sync (AddEntry i si l # cia_map_pdos en off ns)"
  by (auto simp: no_sync_def cia_map_pdos_def)

text \<open>A block of calls that starts with a PDO and opens no sync manager.\<close>

definition pdo_block :: "sync_call list \<Rightarrow> bool" where
  "pdo_block cs \<longleftrightarrow> (\<exists>i ds. cs = AddPdo i # ds \<and> no_sync ds)"

lemma cia_calls_block: "pdo_block (cia_output_calls opt c)" "pdo_block (cia_input_calls opt c)"
  by (simp_all add: cia_output_calls_def cia_input_calls_def pdo_block_def Let_def no_sync_map_pdos)

lemma blocks_fit:
  assumes "L \<noteq> []" and "\<forall>cs\<in>set bs. pdo_block cs" and "bs \<noteq> []"
  shows "calls_fit af (concat bs) L \<and> pdo_open (layout_run af (concat bs) L)"
  using assms
proof (induction bs arbitrary: L)
  case (Cons b bs)
  obtain i ds where b: "b = AddPdo i # ds" "no_sync ds" using Cons.prems(2) by (auto simp: pdo_block_def)
  have f: "calls_fit af b L" "pdo_open (layout_run af b L)" using pdo_first_fits [OF Cons.prems(1) b(2)] b(1) by auto
  show ?case
  proof (cases "bs = []")
    case False
    have "layout_run af b L \<noteq> []" using f(2) by (simp add: pdo_open_def)
    then show ?thesis using Cons.IH [OF _ _ False] Cons.prems(2) f(1) by (simp add: calls_fit_append layout_run_append)
  qed (use f in simp)
qed simp

lemma add_channels_build:
  "cia_add_channels calls limit opt cs s = Inr (0, s') \<Longrightarrow>
   sync_build (concat (map (calls opt) cs)) s = Inr s' \<and> (\<forall>c\<in>set cs. c < length (cg_channel opt))"
proof (induction cs arbitrary: s)
  case (Cons c cs)
  have c: "c < length (cg_channel opt)" using Cons.prems by (auto split: if_splits)
  obtain s1 where s1: "sync_build (calls opt c) s = Inr s1" using Cons.prems c by (cases "sync_build (calls opt c) s") auto
  then have "cia_add_channels calls limit opt cs s1 = Inr (0, s')" using Cons.prems c by (auto split: if_splits)
  then show ?case using Cons.IH s1 c by (simp add: sync_build_append)
qed (simp add: sync_build_def)

text \<open>The whole sequence, with the calls of the driver behind the two parts of the library.\<close>

definition cia_flow :: "cia_options \<Rightarrow> (int \<times> int \<times> int) option" where
  "cia_flow opt = (if cg_pdo_autoflow opt then Some (cg_pdo_limit opt, cg_pdo_entry_limit opt, cg_pdo_increment opt) else None)"

definition cia_sequence :: "cia_options \<Rightarrow> sync_call list \<Rightarrow> sync_call list \<Rightarrow> sync_call list" where
  "cia_sequence opt own1 own2 =
     ([AddSync EC_DIR_OUTPUT EC_WD_DEFAULT, AddSync EC_DIR_INPUT EC_WD_DEFAULT, AddSync EC_DIR_OUTPUT EC_WD_DEFAULT] @
      concat (map (cia_output_calls opt) [0..<nat (cg_channels opt)]) @ own1) @
     [AddSync EC_DIR_INPUT EC_WD_DEFAULT] @ concat (map (cia_input_calls opt) [0..<nat (cg_channels opt)]) @ own2"

lemma cia_sequence_build:
  assumes "lcec_cia402_init_sync opt = Inr s0" and "lcec_cia402_add_output_sync opt s0 = Inr (0, s1)"
    and "sync_build own1 s1 = Inr s2" and "lcec_cia402_add_input_sync opt s2 = Inr (0, s3)" and "sync_build own2 s3 = Inr s4"
  shows "sync_build (cia_sequence opt own1 own2) (syncs_start (cia_flow opt)) = Inr s4"
proof -
  have i: "sync_build [AddSync EC_DIR_OUTPUT EC_WD_DEFAULT, AddSync EC_DIR_INPUT EC_WD_DEFAULT] (syncs_start (cia_flow opt)) = Inr s0"
    using assms(1) by (cases "cg_pdo_autoflow opt") (simp_all add: lcec_cia402_init_sync_def cia_flow_def syncs_start_def Let_def)
  obtain a where a: "sync_build [AddSync EC_DIR_OUTPUT EC_WD_DEFAULT] s0 = Inr a"
    "sync_build (concat (map (cia_output_calls opt) [0..<nat (cg_channels opt)])) a = Inr s1"
    using assms(2) add_channels_build unfolding lcec_cia402_add_output_sync_def by blast
  obtain b where b: "sync_build [AddSync EC_DIR_INPUT EC_WD_DEFAULT] s2 = Inr b"
    "sync_build (concat (map (cia_input_calls opt) [0..<nat (cg_channels opt)])) b = Inr s3"
    using assms(4) add_channels_build unfolding lcec_cia402_add_input_sync_def by blast
  have "[AddSync EC_DIR_OUTPUT EC_WD_DEFAULT, AddSync EC_DIR_INPUT EC_WD_DEFAULT, AddSync EC_DIR_OUTPUT EC_WD_DEFAULT] =
      [AddSync EC_DIR_OUTPUT EC_WD_DEFAULT, AddSync EC_DIR_INPUT EC_WD_DEFAULT] @ [AddSync EC_DIR_OUTPUT EC_WD_DEFAULT]" by simp
  then show ?thesis unfolding cia_sequence_def by (simp only: sync_build_append i a b assms(3,5) bind_res.simps)
qed

lemma cia_sequence_fits:
  assumes "0 < cg_channels opt" and "no_sync own1" and "no_sync own2"
  shows "calls_fit af (cia_sequence opt own1 own2) []"
proof -
  have blocks: "[0..<nat (cg_channels opt)] \<noteq> []" using assms(1) by simp
  define L1 where "L1 = layout_run af [AddSync EC_DIR_OUTPUT EC_WD_DEFAULT, AddSync EC_DIR_INPUT EC_WD_DEFAULT, AddSync EC_DIR_OUTPUT EC_WD_DEFAULT] []"
  let ?o = "concat (map (cia_output_calls opt) [0..<nat (cg_channels opt)])" and ?i = "concat (map (cia_input_calls opt) [0..<nat (cg_channels opt)])"
  have "L1 \<noteq> []" by (simp add: L1_def layout_run_def)
  then have o: "calls_fit af ?o L1" "pdo_open (layout_run af ?o L1)" using blocks_fit cia_calls_block(1) blocks by auto
  have w1: "calls_fit af own1 (layout_run af ?o L1)" "pdo_open (layout_run af own1 (layout_run af ?o L1))"
    using no_sync_fits [OF assms(2) o(2)] by auto
  define L2 where "L2 = layout_run af [AddSync EC_DIR_INPUT EC_WD_DEFAULT] (layout_run af own1 (layout_run af ?o L1))"
  have "L2 \<noteq> []" by (simp add: L2_def layout_run_def)
  then have i: "calls_fit af ?i L2" "pdo_open (layout_run af ?i L2)" using blocks_fit cia_calls_block(2) blocks by auto
  have w2: "calls_fit af own2 (layout_run af ?i L2)" using no_sync_fits [OF assms(3) i(2)] by auto
  have s: "calls_fit af [AddSync a b] L" "calls_fit af [AddSync a b, AddSync c d, AddSync e f] L" for a b c d e f L by simp_all
  show ?thesis
    unfolding cia_sequence_def calls_fit_append layout_run_append
    using o w1 i w2 s unfolding L1_def L2_def by simp
qed

section \<open>What a channel registers\<close>

definition regs_grow :: "(u16 \<Rightarrow> u16 \<Rightarrow> bool) \<Rightarrow> lcec_slave \<Rightarrow> lcec_slave \<Rightarrow> bool" where
  "regs_grow P s s' \<longleftrightarrow> (\<forall>g. sl_regs s = Some g \<longrightarrow> regs_ok g \<longrightarrow>
     (\<exists>g' new. sl_regs s' = Some g' \<and> regs_ok g' \<and> regs_content g' = regs_content g @ new \<and>
        (\<forall>e\<in>set new. P (er_index e) (er_subindex e))))"

lemma regs_grow_refl [simp]: "regs_grow P s s"
  by (auto simp: regs_grow_def)

lemma regs_grow_trans: "regs_grow P s s1 \<Longrightarrow> regs_grow P s1 s2 \<Longrightarrow> regs_grow P s s2"
  unfolding regs_grow_def by (metis (no_types, opaque_lifting) UnE append.assoc set_append)

lemma pdo_init_grow:
  assumes "pdo_init_unchecked s idx sidx os bp = Some s'" and "P idx sidx"
  shows "regs_grow P s s'"
proof -
  consider "s' = s" | "lcec_pdo_init s idx sidx os bp = Inr s'"
    using assms(1) by (auto simp: pdo_init_unchecked_def split: sum.splits regs_fail.splits)
  then show ?thesis
  proof cases
    case 2
    show ?thesis unfolding regs_grow_def
    proof (intro allI impI)
      fix g assume g: "sl_regs s = Some g" "regs_ok g"
      show "\<exists>g' new. sl_regs s' = Some g' \<and> regs_ok g' \<and> regs_content g' = regs_content g @ new \<and> (\<forall>e\<in>set new. P (er_index e) (er_subindex e))"
        by (rule pdo_init_Inr [OF 2 g]) (use assms(2) in auto)
    qed
  qed simp
qed

lemma register_pdos_grow:
  "register_pdos rs s = Some s' \<Longrightarrow> \<forall>(i, si, p)\<in>set rs. P i si \<Longrightarrow> regs_grow P s s'"
proof (induction rs arbitrary: s)
  case (Cons r rs)
  obtain i si p where r: "r = (i, si, p)" by (cases r)
  obtain s1 where s1: "pdo_init_unchecked s i si (Some p) None = Some s1" "register_pdos rs s1 = Some s'"
    using Cons.prems(1) r by (auto simp: bind_eq_Some_conv)
  have "regs_grow P s s1" using pdo_init_grow [OF s1(1)] Cons.prems(2) r by simp
  then show ?case using Cons.IH [OF s1(2)] Cons.prems(2) regs_grow_trans by auto
qed simp

lemma din_packed_grow:
  assumes "lcec_din_register_channel_packed env mname s idx sidx bt name p objs = Some (d, s', objs')" and "P idx sidx"
  shows "regs_grow P s s'"
  using assms pdo_init_grow by (fastforce simp: lcec_din_register_channel_packed_def Let_def bind_eq_Some_conv)

lemma dout_packed_grow:
  assumes "lcec_dout_register_channel_packed env mname s idx sidx bt name p objs = Some (d, s', objs')" and "P idx sidx"
  shows "regs_grow P s s'"
  using assms pdo_init_grow by (fastforce simp: lcec_dout_register_channel_packed_def Let_def bind_eq_Some_conv)

lemma register_din_grow:
  "cia_register_din env mname base loc i ds s objs = Some (cs, s', objs') \<Longrightarrow> ds \<noteq> [] \<longrightarrow> P (base + 0xfd) 0 \<Longrightarrow> regs_grow P s s'"
proof (induction ds arbitrary: i s objs cs)
  case (Cons e ds)
  obtain name bt where e: "e = (name, bt)" by (cases e)
  obtain d s1 objs1 cs1 where s1: "lcec_din_register_channel_packed env mname s (base + 0xfd) 0 bt name (loc ''din'' i) objs = Some (d, s1, objs1)"
    "cia_register_din env mname base loc (Suc i) ds s1 objs1 = Some (cs1, s', objs')"
    using Cons.prems(1) e by (auto simp: bind_eq_Some_conv)
  show ?case using din_packed_grow [OF s1(1), of P] Cons.IH [OF s1(2)] Cons.prems(2) regs_grow_trans by blast
qed simp

lemma register_dout_grow:
  "cia_register_dout env mname base loc i ds s objs = Some (cs, s', objs') \<Longrightarrow> ds \<noteq> [] \<longrightarrow> P (base + 0xfe) 1 \<Longrightarrow> regs_grow P s s'"
proof (induction ds arbitrary: i s objs cs)
  case (Cons e ds)
  obtain name bt where e: "e = (name, bt)" by (cases e)
  obtain d s1 objs1 cs1 where s1: "lcec_dout_register_channel_packed env mname s (base + 0xfe) 1 bt name (loc ''dout'' i) objs = Some (d, s1, objs1)"
    "cia_register_dout env mname base loc (Suc i) ds s1 objs1 = Some (cs1, s', objs')"
    using Cons.prems(1) e by (auto simp: bind_eq_Some_conv)
  show ?case using dout_packed_grow [OF s1(1), of P] Cons.IH [OF s1(2)] Cons.prems(2) regs_grow_trans by blast
qed simp

text \<open>The addresses of a channel: the two words and the enabled objects.\<close>

definition cia_address :: "(string \<Rightarrow> bool) \<Rightarrow> u16 \<Rightarrow> u16 \<Rightarrow> u8 \<Rightarrow> bool" where
  "cia_address en base i si \<longleftrightarrow> (i, si) = (base + 0x40, 0) \<or> (i, si) = (base + 0x41, 0) \<or>
     (\<exists>n\<in>set ((FOR_ALL_WRITE_PDOS @ [''digital_output'']) @ FOR_ALL_READ_PDOS @ [''digital_input'']). en n \<and>
        (i, si) = (base + paste PDO_IDX_OFFSET n, paste PDO_SIDX n))"

lemma cia_address_object:
  "n \<in> set ((FOR_ALL_WRITE_PDOS @ [''digital_output'']) @ FOR_ALL_READ_PDOS @ [''digital_input'']) \<Longrightarrow> en n \<Longrightarrow>
   cia_address en base (base + paste PDO_IDX_OFFSET n) (paste PDO_SIDX n)"
  unfolding cia_address_def by blast

lemma register_channel_grow:
  assumes "lcec_cia402_register_channel ec henv senv junk mname s base (Some opt) loc objs = Some (r, s', objs')"
  shows "regs_grow (\<lambda>i si. \<exists>k. cia_address (lcec_cia402_enabled opt) base i k \<and> si = ucast k) s s'"
proof -
  let ?en = "lcec_cia402_enabled opt"
  let ?P = "\<lambda>i si. \<exists>k. cia_address ?en base i k \<and> si = (ucast k :: u16)"
  obtain s1 where s1: "register_pdos (cia_pdo_regs ?en base loc) s = Some s1"
    and cases: "s' = s1 \<or> (\<exists>din s2 objs1 objs2 dout objs3 pre.
      cia_register_din henv mname base loc 0 (if ?en ''digital_input'' then cia_din_list pre (cp_digital_in_channels opt) else []) s1 objs1 = Some (din, s2, objs2) \<and>
      cia_register_dout henv mname base loc 0 (if ?en ''digital_output'' then cia_dout_list pre (cp_digital_out_channels opt) else []) s2 objs2 = Some (dout, s', objs3))"
    using assms unfolding lcec_cia402_register_channel_def
    by (auto simp: Let_def bind_eq_Some_conv zero_cia_channel_def split: if_splits) blast+
  have words: "?P (base + 0x40) 0" "?P (base + 0x41) 0"
    by (intro exI [of _ 0]; simp add: cia_address_def)+
  have "\<forall>(i, si, p)\<in>set (cia_pdo_regs ?en base loc). ?P i si"
    using words cia_address_object [where en = ?en and base = base] by (fastforce simp: cia_pdo_regs_def)
  then have g1: "regs_grow ?P s s1" using register_pdos_grow [OF s1, of ?P] by blast
  have di: "?P (base + 0xfd) 0" if "?en ''digital_input''"
    using cia_address_object [of "''digital_input''" ?en base] that by (intro exI [of _ 0]) (simp add: paste_digital)
  have do: "?P (base + 0xfe) 1" if "?en ''digital_output''"
    using cia_address_object [of "''digital_output''" ?en base] that by (intro exI [of _ 1]) (simp add: paste_digital)
  from cases show ?thesis
  proof
    assume "s' = s1"
    then show ?thesis using g1 by simp
  next
    assume "\<exists>din s2 objs1 objs2 dout objs3 pre.
      cia_register_din henv mname base loc 0 (if ?en ''digital_input'' then cia_din_list pre (cp_digital_in_channels opt) else []) s1 objs1 = Some (din, s2, objs2) \<and>
      cia_register_dout henv mname base loc 0 (if ?en ''digital_output'' then cia_dout_list pre (cp_digital_out_channels opt) else []) s2 objs2 = Some (dout, s', objs3)"
    then obtain din s2 objs1 objs2 dout objs3 pre where
      d: "cia_register_din henv mname base loc 0 (if ?en ''digital_input'' then cia_din_list pre (cp_digital_in_channels opt) else []) s1 objs1 = Some (din, s2, objs2)"
      and o: "cia_register_dout henv mname base loc 0 (if ?en ''digital_output'' then cia_dout_list pre (cp_digital_out_channels opt) else []) s2 objs2 = Some (dout, s', objs3)" by blast
    have "regs_grow ?P s1 s2" by (rule register_din_grow [OF d]) (use di in simp)
    moreover have "regs_grow ?P s2 s'" by (rule register_dout_grow [OF o]) (use do in simp)
    ultimately show ?thesis using g1 regs_grow_trans by blast
  qed
qed

section \<open>What is mapped\<close>

text \<open>The entries as the EtherCAT master reads them from the tables.\<close>

definition mapped_entries :: "syncs \<Rightarrow> pdo_entry_info list" where
  "mapped_entries s = all_entries (all_pdos (read_syncs s))"

definition is_mapped :: "syncs \<Rightarrow> u16 \<Rightarrow> u8 \<Rightarrow> bool" where
  "is_mapped s i si \<longleftrightarrow> (\<exists>e\<in>set (mapped_entries s). ei_index e = i \<and> ei_subindex e = si)"

lemma cia_mapped_entries:
  assumes fit: "0 < cg_channels opt" "no_sync own1" "no_sync own2"
    and build: "sync_build (cia_sequence opt own1 own2) (syncs_start (cia_flow opt)) = Inr s" and ok: "\<not> sy_error s"
  shows "mapped_entries s = concat (map call_entries (cia_sequence opt own1 own2))"
proof -
  let ?af = "start_flow (cia_flow opt)"
  have f: "calls_fit ?af (cia_sequence opt own1 own2) []" by (rule cia_sequence_fits [OF fit])
  have "syncs_rel s (layout_run ?af (cia_sequence opt own1 own2) [])"
    using sync_build_rel [OF syncs_start_facts(2) _ build ok] f by (simp add: syncs_start_facts(3))
  then have "read_syncs s = layout_run ?af (cia_sequence opt own1 own2) []"
    using layout_run_nonempty [OF f] by (intro read_syncs_rel) (simp_all add: cia_sequence_def)
  then show ?thesis using layout_run_entries_from [OF f] by (simp add: mapped_entries_def)
qed

lemma map_pdos_entry:
  assumes "n \<in> set ns" and "en n"
  shows "AddEntry (off + paste PDO_IDX_OFFSET n) (paste PDO_SIDX n) (of_nat (paste PDO_BITS n)) \<in> set (cia_map_pdos en off ns)"
  using assms by (auto simp: cia_map_pdos_def)

lemma cia_calls_entry:
  assumes "cia_address (lcec_cia402_enabled (cg_channel opt ! c)) (cia_offset c) i si"
  shows "\<exists>l. AddEntry i si l \<in> set (cia_output_calls opt c) \<union> set (cia_input_calls opt c)"
proof -
  let ?en = "lcec_cia402_enabled (cg_channel opt ! c)"
  consider "(i, si) = (cia_offset c + 0x40, 0)" | "(i, si) = (cia_offset c + 0x41, 0)"
    | n where "n \<in> set (FOR_ALL_WRITE_PDOS @ [''digital_output''])" "?en n" "(i, si) = (cia_offset c + paste PDO_IDX_OFFSET n, paste PDO_SIDX n)"
    | n where "n \<in> set (FOR_ALL_READ_PDOS @ [''digital_input''])" "?en n" "(i, si) = (cia_offset c + paste PDO_IDX_OFFSET n, paste PDO_SIDX n)"
    using assms unfolding cia_address_def set_append [of "FOR_ALL_WRITE_PDOS @ _"] by blast
  then show ?thesis
  proof cases
    case 3
    then show ?thesis using map_pdos_entry [of n "FOR_ALL_WRITE_PDOS @ [''digital_output'']" ?en "cia_offset c"]
      by (auto simp: cia_output_calls_def Let_def)
  next
    case 4
    then show ?thesis using map_pdos_entry [of n "FOR_ALL_READ_PDOS @ [''digital_input'']" ?en "cia_offset c"]
      by (auto simp: cia_input_calls_def Let_def)
  qed (auto simp: cia_output_calls_def cia_input_calls_def Let_def)
qed

lemma cia_address_mapped:
  assumes m: "mapped_entries s = concat (map call_entries (cia_sequence opt own1 own2))" and c: "c < nat (cg_channels opt)"
    and a: "cia_address (lcec_cia402_enabled (cg_channel opt ! c)) (cia_offset c) i si"
  shows "is_mapped s i si"
proof -
  obtain l where l: "AddEntry i si l \<in> set (cia_output_calls opt c) \<union> set (cia_input_calls opt c)" using cia_calls_entry [OF a] by blast
  have "c \<in> set [0..<nat (cg_channels opt)]" using c by simp
  then have "AddEntry i si l \<in> set (concat (map (cia_output_calls opt) [0..<nat (cg_channels opt)])) \<union>
      set (concat (map (cia_input_calls opt) [0..<nat (cg_channels opt)]))" using l by (simp only: set_concat set_map) blast
  then have "AddEntry i si l \<in> set (cia_sequence opt own1 own2)" unfolding cia_sequence_def set_append by blast
  moreover have "call_entries (AddEntry i si l) = [\<lparr>ei_index = i, ei_subindex = si, ei_bit_length = l\<rparr>]" by (simp add: call_entries_def)
  ultimately have "\<lparr>ei_index = i, ei_subindex = si, ei_bit_length = l\<rparr> \<in> set (concat (map call_entries (cia_sequence opt own1 own2)))"
    by (simp only: set_concat set_map) force
  then show ?thesis unfolding is_mapped_def m by force
qed

section \<open>Requests for objects that are not mapped\<close>

text \<open>One request for every enabled object whose value has changed and whose request is idle.\<close>

lemma cia_write_sdos_result:
  assumes "distinct ns"
  shows "fst (cia_write_sdos ec busy ns d) =
      map (\<lambda>n. (n, cia_bytes ec n (cc_pin d n))) (filter (\<lambda>n. cc_enabled d n \<and> cc_pin d n \<noteq> cc_old d n \<and> \<not> busy n) ns) \<and>
    snd (cia_write_sdos ec busy ns d) =
      d\<lparr>cc_old := (\<lambda>n. if n \<in> set ns \<and> cc_enabled d n \<and> \<not> busy n then cc_pin d n else cc_old d n)\<rparr>"
  using assms
proof (induction ns arbitrary: d)
  case (Cons n ns)
  show ?case
  proof (cases "cc_enabled d n \<and> cc_pin d n \<noteq> cc_old d n \<and> \<not> busy n")
    case True
    let ?d = "d\<lparr>cc_old := (cc_old d)(n := cc_pin d n)\<rparr>"
    have f: "filter (\<lambda>m. cc_enabled ?d m \<and> cc_pin ?d m \<noteq> cc_old ?d m \<and> \<not> busy m) ns =
        filter (\<lambda>m. cc_enabled d m \<and> cc_pin d m \<noteq> cc_old d m \<and> \<not> busy m) ns"
      using Cons.prems by (intro filter_cong) auto
    obtain qs d' where r: "cia_write_sdos ec busy ns ?d = (qs, d')" by fastforce
    have d': "d' = ?d\<lparr>cc_old := (\<lambda>m. if m \<in> set ns \<and> cc_enabled ?d m \<and> \<not> busy m then cc_pin ?d m else cc_old ?d m)\<rparr>"
      and qs: "qs = map (\<lambda>n. (n, cia_bytes ec n (cc_pin d n))) (filter (\<lambda>m. cc_enabled d m \<and> cc_pin d m \<noteq> cc_old d m \<and> \<not> busy m) ns)"
      using Cons.IH [of ?d] Cons.prems r f by simp_all
    have "d' = d\<lparr>cc_old := (\<lambda>m. if m \<in> set (n # ns) \<and> cc_enabled d m \<and> \<not> busy m then cc_pin d m else cc_old d m)\<rparr>"
      unfolding d' using True by (simp add: fun_eq_iff)
    then show ?thesis using True qs r by (simp add: Let_def)
  next
    case False
    then have "(\<lambda>m. if m \<in> set ns \<and> cc_enabled d m \<and> \<not> busy m then cc_pin d m else cc_old d m) =
        (\<lambda>m. if m \<in> set (n # ns) \<and> cc_enabled d m \<and> \<not> busy m then cc_pin d m else cc_old d m)"
      by (auto simp: fun_eq_iff)
    moreover have "cia_write_sdos ec busy (n # ns) d = cia_write_sdos ec busy ns d"
      by (simp only: cia_write_sdos.simps False if_False)
    moreover have "filter (\<lambda>m. cc_enabled d m \<and> cc_pin d m \<noteq> cc_old d m \<and> \<not> busy m) (n # ns) =
        filter (\<lambda>m. cc_enabled d m \<and> cc_pin d m \<noteq> cc_old d m \<and> \<not> busy m) ns"
      by (simp only: filter.simps False if_False)
    ultimately show ?thesis using Cons.IH [of d] Cons.prems by (simp only: distinct.simps simp_thms)
  qed
qed simp

text \<open>The first value compared is 0, not the one the device has: a pin set to 0 from the start is never sent.\<close>

lemma zero_not_sent: "cc_old d n = zero_of n \<Longrightarrow> cc_pin d n = zero_of n \<Longrightarrow> cia_write_sdos ec busy [n] d = ([], d)"
  by simp

end
