(* ===== verification/ChannelAnalog.thy ===== *)
theory ChannelAnalog
  imports ChannelBits GenericPins
begin

text \<open>
  The libraries of analog channels (\<open>devices/lcec_class_ain.c\<close>, \<open>devices/lcec_class_aout.c\<close>):
  16-bit values scaled to and from floating point. Arithmetic results go through the rounding
  \<open>rnd\<close> of the machine; an \<open>int\<close> is exact in a \<open>double\<close>. A \<open>None\<close> in a pin is a \<open>NULL\<close> pointer.
\<close>

section \<open>Analog inputs\<close>

record ain_options =
  ao_name_prefix :: "string option"
  ao_has_sync :: bool
  ao_valueonly :: bool
  ao_is_temperature :: bool
  ao_is_pressure :: bool
  ao_is_unsigned :: bool
  ao_max_value :: int
  ao_default_scale :: real
  ao_default_bias :: real
  ao_value_idx :: u16
  ao_value_sidx :: u16
  ao_underrange_idx :: u16
  ao_underrange_sidx :: u16
  ao_overrange_idx :: u16
  ao_overrange_sidx :: u16
  ao_error_idx :: u16
  ao_error_sidx :: u16
  ao_syncerror_idx :: u16
  ao_syncerror_sidx :: u16

definition lcec_ain_options :: ain_options where
  "lcec_ain_options =
     \<lparr>ao_name_prefix = None, ao_has_sync = False, ao_valueonly = False, ao_is_temperature = False, ao_is_pressure = False,
      ao_is_unsigned = False, ao_max_value = 0, ao_default_scale = 0, ao_default_bias = 0, ao_value_idx = 0,
      ao_value_sidx = 0, ao_underrange_idx = 0, ao_underrange_sidx = 0, ao_overrange_idx = 0, ao_overrange_sidx = 0,
      ao_error_idx = 0, ao_error_sidx = 0, ao_syncerror_idx = 0, ao_syncerror_sidx = 0\<rparr>"

record ain_channel =
  ai_overrange :: bool
  ai_underrange :: bool
  ai_error :: bool
  ai_sync_err :: bool
  ai_raw_val :: int
  ai_scale :: real
  ai_bias :: "real option"
  ai_val :: real
  ai_ovr_pdo_os :: u32
  ai_ovr_pdo_bp :: u32
  ai_udr_pdo_os :: u32
  ai_udr_pdo_bp :: u32
  ai_error_pdo_os :: u32
  ai_error_pdo_bp :: u32
  ai_sync_err_pdo_os :: u32
  ai_sync_err_pdo_bp :: u32
  ai_val_pdo_os :: u32
  ai_is_unsigned :: bool
  ai_options :: ain_options

definition ain_pins_basic :: "pindesc list" where
  "ain_pins_basic =
     [pin_row HAL_S32 HAL_OUT ''raw_val'' ''%s.%s.%s.%s-%d-raw'',
      pin_row HAL_FLOAT HAL_OUT ''val'' ''%s.%s.%s.%s-%d-val'',
      pin_row HAL_FLOAT HAL_IO ''scale'' ''%s.%s.%s.%s-%d-scale'',
      pin_row HAL_FLOAT HAL_IO ''bias'' ''%s.%s.%s.%s-%d-bias'',
      pin_end]"

definition ain_pins_temperature :: "pindesc list" where
  "ain_pins_temperature =
     [pin_row HAL_S32 HAL_OUT ''raw_val'' ''%s.%s.%s.%s-%d-raw'',
      pin_row HAL_FLOAT HAL_OUT ''val'' ''%s.%s.%s.%s-%d-temperature'',
      pin_row HAL_FLOAT HAL_IO ''scale'' ''%s.%s.%s.%s-%d-scale'',
      pin_end]"

definition ain_pins_sync :: "pindesc list" where
  "ain_pins_sync = [pin_row HAL_BIT HAL_OUT ''sync_err'' ''%s.%s.%s.%s-%d-sync-err'', pin_end]"

definition ain_pins_pressure :: "pindesc list" where
  "ain_pins_pressure =
     [pin_row HAL_S32 HAL_OUT ''raw_val'' ''%s.%s.%s.press-%d-raw'',
      pin_row HAL_FLOAT HAL_OUT ''val'' ''%s.%s.%s.press-%d-pressure'',
      pin_row HAL_FLOAT HAL_IO ''scale'' ''%s.%s.%s.press-%d-scale'',
      pin_row HAL_FLOAT HAL_IO ''bias'' ''%s.%s.%s.press-%d-bias'',
      pin_end]"

definition ain_pins_status :: "pindesc list" where
  "ain_pins_status =
     [pin_row HAL_BIT HAL_OUT ''error'' ''%s.%s.%s.%s-%d-error'',
      pin_row HAL_BIT HAL_OUT ''overrange'' ''%s.%s.%s.%s-%d-overrange'',
      pin_row HAL_BIT HAL_OUT ''underrange'' ''%s.%s.%s.%s-%d-underrange'',
      pin_end]"

text \<open>An option that is not zero replaces the default; no options are options of zeros.\<close>

definition or_default :: "'a::zero \<Rightarrow> 'a \<Rightarrow> 'a" where
  "or_default v dflt = (if v \<noteq> 0 then v else dflt)"

definition ain_prefix :: "ain_options \<Rightarrow> string" where
  "ain_prefix opt =
     (case ao_name_prefix opt of Some p \<Rightarrow> p
      | None \<Rightarrow> if ao_is_pressure opt then ''pressure'' else if ao_is_temperature opt then ''temp'' else ''ain'')"

definition ain_data :: "ain_options option \<Rightarrow> ain_channel" where
  "ain_data opt0 =
     (let opt = (case opt0 of Some opt \<Rightarrow> opt | None \<Rightarrow> lcec_ain_options);
          stored = opt\<lparr>ao_name_prefix := Some (ain_prefix opt), ao_max_value := or_default (ao_max_value opt) 0x7fff\<rparr>
      in \<lparr>ai_overrange = False, ai_underrange = False, ai_error = False, ai_sync_err = False, ai_raw_val = 0,
          ai_scale = 0, ai_bias = (if ao_is_temperature opt then None else Some 0), ai_val = 0,
          ai_ovr_pdo_os = 0, ai_ovr_pdo_bp = 0, ai_udr_pdo_os = 0, ai_udr_pdo_bp = 0, ai_error_pdo_os = 0,
          ai_error_pdo_bp = 0, ai_sync_err_pdo_os = 0, ai_sync_err_pdo_bp = 0, ai_val_pdo_os = 0,
          ai_is_unsigned = ao_is_unsigned opt, ai_options = stored\<rparr>)"

text \<open>The five positions of channel \<open>ch\<close> have the numbers from \<open>5 * ch\<close>.\<close>

definition ain_register_pdos :: "u16 \<Rightarrow> ain_options \<Rightarrow> nat \<Rightarrow> lcec_slave \<Rightarrow> lcec_slave option" where
  "ain_register_pdos idx opt ch s =
     Option.bind (pdo_init_unchecked s (or_default (ao_value_idx opt) idx) (or_default (ao_value_sidx opt) 0x11) (Some (5 * ch)) None) (\<lambda>s.
     Option.bind
       (if ao_has_sync opt
        then pdo_init_unchecked s (or_default (ao_syncerror_idx opt) idx) (or_default (ao_syncerror_sidx opt) 0x0e)
               (Some (5 * ch + 1)) (Some (5 * ch + 1))
        else Some s) (\<lambda>s.
     if ao_valueonly opt then Some s
     else
       Option.bind (pdo_init_unchecked s (or_default (ao_underrange_idx opt) idx) (or_default (ao_underrange_sidx opt) 0x01)
                      (Some (5 * ch + 2)) (Some (5 * ch + 2))) (\<lambda>s.
       Option.bind (pdo_init_unchecked s (or_default (ao_overrange_idx opt) idx) (or_default (ao_overrange_sidx opt) 0x02)
                      (Some (5 * ch + 3)) (Some (5 * ch + 3))) (\<lambda>s.
       pdo_init_unchecked s (or_default (ao_error_idx opt) idx) (or_default (ao_error_sidx opt) 0x07)
         (Some (5 * ch + 4)) (Some (5 * ch + 4))))))"

definition ain_export ::
    "hal_env \<Rightarrow> ain_options \<Rightarrow> fmt_arg list \<Rightarrow> hal_obj list \<Rightarrow> (int \<times> hal_obj list) option" where
  "ain_export env opt as objs =
     Option.bind
       (lcec_pin_newf_list env
          (if ao_is_temperature opt then ain_pins_temperature
           else if ao_is_pressure opt then ain_pins_pressure else ain_pins_basic) as objs) (\<lambda>(err, objs).
     if err \<noteq> 0 then Some (err, objs)
     else Option.bind (if ao_has_sync opt then lcec_pin_newf_list env ain_pins_sync as objs else Some (0, objs)) (\<lambda>(err, objs).
       if err \<noteq> 0 then Some (err, objs)
       else if ao_valueonly opt then Some (0, objs) else lcec_pin_newf_list env ain_pins_status as objs))"

definition ain_defaults :: "(real \<Rightarrow> real) \<Rightarrow> ain_channel \<Rightarrow> ain_channel option" where
  "ain_defaults rnd d =
     (let opt = ai_options d;
          scale = (if ao_default_scale opt \<noteq> 0 then ao_default_scale opt
                   else if ao_is_temperature opt then rnd (1 / 10) else 1);
          d = d\<lparr>ai_scale := scale\<rparr> in
      if ao_default_bias opt = 0 then Some d
      else case ai_bias d of None \<Rightarrow> None | Some _ \<Rightarrow> Some (d\<lparr>ai_bias := Some (ao_default_bias opt)\<rparr>))"

definition lcec_ain_register_channel ::
    "hal_env \<Rightarrow> (real \<Rightarrow> real) \<Rightarrow> string \<Rightarrow> lcec_slave \<Rightarrow> int \<Rightarrow> u16 \<Rightarrow> ain_options option \<Rightarrow> nat \<Rightarrow> hal_obj list \<Rightarrow>
     (ain_channel option \<times> lcec_slave \<times> hal_obj list) option" where
  "lcec_ain_register_channel env rnd mname s pid idx opt ch objs =
     (let d = ain_data opt; o1 = ai_options d in
      Option.bind (ain_register_pdos idx o1 ch s) (\<lambda>s.
      Option.bind (ain_export env o1 (chan_args mname s (ain_prefix o1) @ [FInt pid]) objs) (\<lambda>(err, objs).
        if err \<noteq> 0 then Some (None, s, objs)
        else map_option (\<lambda>d. (Some d, s, objs)) (ain_defaults rnd d))))"

text \<open>One status bit.\<close>

definition ain_bit :: "ec_macros \<Rightarrow> u8 list \<Rightarrow> u32 \<Rightarrow> u32 \<Rightarrow> bool option" where
  "ain_bit ec pd os bp =
     (if unat os < length pd then Some (EC_READ_BIT ec (pd ! unat os) (unat bp)) else None)"

definition ain_status :: "ec_macros \<Rightarrow> u8 list \<Rightarrow> ain_channel \<Rightarrow> ain_channel option" where
  "ain_status ec pd d =
     Option.bind
       (if ao_valueonly (ai_options d) then Some d
        else
          Option.bind (ain_bit ec pd (ai_ovr_pdo_os d) (ai_ovr_pdo_bp d)) (\<lambda>ovr.
          Option.bind (ain_bit ec pd (ai_udr_pdo_os d) (ai_udr_pdo_bp d)) (\<lambda>udr.
          map_option (\<lambda>er. d\<lparr>ai_overrange := ovr, ai_underrange := udr, ai_error := er\<rparr>)
            (ain_bit ec pd (ai_error_pdo_os d) (ai_error_pdo_bp d))))) (\<lambda>d.
     if ao_has_sync (ai_options d)
     then map_option (\<lambda>b. d\<lparr>ai_sync_err := b\<rparr>) (ain_bit ec pd (ai_sync_err_pdo_os d) (ai_sync_err_pdo_bp d))
     else Some d)"

definition ain_value :: "(real \<Rightarrow> real) \<Rightarrow> ain_channel \<Rightarrow> int \<Rightarrow> real option" where
  "ain_value rnd d v =
     (if ao_is_temperature (ai_options d) then Some (rnd (ai_scale d * real_of_int v))
      else map_option
             (\<lambda>b. rnd (b + rnd (rnd (ai_scale d * real_of_int v) * rnd (1 / real_of_int (ao_max_value (ai_options d))))))
             (ai_bias d))"

definition lcec_ain_read :: "ec_macros \<Rightarrow> (real \<Rightarrow> real) \<Rightarrow> u8 list \<Rightarrow> ain_channel \<Rightarrow> ain_channel option" where
  "lcec_ain_read ec rnd pd d =
     Option.bind (ain_status ec pd d) (\<lambda>d.
     Option.bind (pd_load pd (unat (ai_val_pdo_os d)) 2) (\<lambda>bs.
     let v = (if ai_is_unsigned d then uint (EC_READ_U16 ec bs) else sint (EC_READ_U16 ec bs)) in
     map_option (\<lambda>x. d\<lparr>ai_raw_val := v, ai_val := x\<rparr>) (ain_value rnd d v)))"

fun lcec_ain_read_all ::
    "ec_macros \<Rightarrow> (real \<Rightarrow> real) \<Rightarrow> u8 list \<Rightarrow> ain_channel option list \<Rightarrow> ain_channel option list option" where
  "lcec_ain_read_all ec rnd pd [] = Some []"
| "lcec_ain_read_all ec rnd pd (None # cs) = map_option ((#) None) (lcec_ain_read_all ec rnd pd cs)"
| "lcec_ain_read_all ec rnd pd (Some d # cs) =
     Option.bind (lcec_ain_read ec rnd pd d) (\<lambda>d'. map_option ((#) (Some d')) (lcec_ain_read_all ec rnd pd cs))"

definition lcec_ain_allocate_channels :: "nat \<Rightarrow> ain_channel option list" where
  "lcec_ain_allocate_channels n = replicate n None"

text \<open>
  The names of the pressure pins take one string less than the call passes: the number is taken
  from a pointer.
\<close>

lemma pressure_channel_undefined:
  assumes "ao_is_pressure opt" and "\<not> ao_is_temperature opt"
  shows "lcec_ain_register_channel env rnd mname s pid idx (Some opt) ch objs = None"
proof -
  have f: "c_format ''%s.%s.%s.press-%d-raw'' (chan_args mname s' nm @ [FInt pid]) = None" for s' nm
    by (simp add: chan_args_def)
  have "ain_export env (ai_options (ain_data (Some opt))) (chan_args mname s' nm @ [FInt pid]) objs = None" for s' nm
    using assms f by (simp add: ain_export_def ain_data_def ain_pins_pressure_def pin_row_def lcec_pin_newf_def hal_newfv_def Let_def)
  then show ?thesis by (simp add: lcec_ain_register_channel_def Let_def bind_eq_None_conv)
qed

section \<open>Analog outputs\<close>

record aout_options =
  at_name_prefix :: "string option"
  at_max_value :: int
  at_default_scale :: real
  at_default_offset :: real
  at_value_idx :: u16
  at_value_sidx :: u16

definition lcec_aout_options :: aout_options where
  "lcec_aout_options = \<lparr>at_name_prefix = None, at_max_value = 0, at_default_scale = 0, at_default_offset = 0,
                        at_value_idx = 0, at_value_sidx = 0\<rparr>"

record aout_channel =
  ax_pos :: bool
  ax_neg :: bool
  ax_enable :: bool
  ax_absmode :: bool
  ax_value :: real
  ax_scale :: real
  ax_offset :: real
  ax_old_scale :: real
  ax_scale_recip :: real
  ax_min_dc :: real
  ax_max_dc :: real
  ax_curr_dc :: real
  ax_raw_val :: int
  ax_val_pdo_os :: u32
  ax_options :: aout_options

definition aout_pins_basic :: "pindesc list" where
  "aout_pins_basic =
     [pin_row HAL_FLOAT HAL_IO ''scale'' ''%s.%s.%s.%s-%d-scale'',
      pin_row HAL_FLOAT HAL_IO ''offset'' ''%s.%s.%s.%s-%d-offset'',
      pin_row HAL_FLOAT HAL_IO ''min_dc'' ''%s.%s.%s.%s-%d-min-dc'',
      pin_row HAL_FLOAT HAL_IO ''max_dc'' ''%s.%s.%s.%s-%d-max-dc'',
      pin_row HAL_FLOAT HAL_OUT ''curr_dc'' ''%s.%s.%s.%s-%d-curr-dc'',
      pin_row HAL_BIT HAL_IN ''enable'' ''%s.%s.%s.%s-%d-enable'',
      pin_row HAL_BIT HAL_IN ''absmode'' ''%s.%s.%s.%s-%d-absmode'',
      pin_row HAL_FLOAT HAL_IN ''value'' ''%s.%s.%s.%s-%d-value'',
      pin_row HAL_S32 HAL_OUT ''raw_val'' ''%s.%s.%s.%s-%d-raw'',
      pin_row HAL_BIT HAL_OUT ''pos'' ''%s.%s.%s.%s-%d-pos'',
      pin_row HAL_BIT HAL_OUT ''neg'' ''%s.%s.%s.%s-%d-neg'',
      pin_end]"

definition aout_data :: "(real \<Rightarrow> real) \<Rightarrow> aout_options option \<Rightarrow> aout_channel" where
  "aout_data rnd opt0 =
     (let opt = (case opt0 of Some opt \<Rightarrow> opt | None \<Rightarrow> lcec_aout_options);
          prefix = (case at_name_prefix opt of Some p \<Rightarrow> p | None \<Rightarrow> ''aout'');
          scale = or_default (at_default_scale opt) 1
      in \<lparr>ax_pos = False, ax_neg = False, ax_enable = False, ax_absmode = False, ax_value = 0, ax_scale = scale,
          ax_offset = at_default_offset opt, ax_old_scale = rnd (scale + 1), ax_scale_recip = rnd (1 / scale),
          ax_min_dc = -1, ax_max_dc = 1, ax_curr_dc = 0, ax_raw_val = 0, ax_val_pdo_os = 0,
          ax_options = opt\<lparr>at_name_prefix := Some prefix, at_max_value := or_default (at_max_value opt) 0x7fff\<rparr>\<rparr>)"

definition lcec_aout_register_channel ::
    "hal_env \<Rightarrow> (real \<Rightarrow> real) \<Rightarrow> string \<Rightarrow> lcec_slave \<Rightarrow> int \<Rightarrow> u16 \<Rightarrow> aout_options option \<Rightarrow> nat \<Rightarrow> hal_obj list \<Rightarrow>
     (aout_channel option \<times> lcec_slave \<times> hal_obj list) option" where
  "lcec_aout_register_channel env rnd mname s pid idx opt ch objs =
     (let d = aout_data rnd opt; o1 = ax_options d in
      Option.bind (pdo_init_unchecked s (or_default (at_value_idx o1) idx) (or_default (at_value_sidx o1) 0x1) (Some ch) None) (\<lambda>s.
      map_option (\<lambda>(err, objs). (if err \<noteq> 0 then None else Some d, s, objs))
        (lcec_pin_newf_list env aout_pins_basic (chan_args mname s (the (at_name_prefix o1)) @ [FInt pid]) objs)))"

text \<open>The parts of a write: the limits, the scale, the duty cycle and the output.\<close>

definition aout_limits :: "aout_channel \<Rightarrow> aout_channel" where
  "aout_limits d =
     (let d = (if ax_max_dc d > 1 then d\<lparr>ax_max_dc := 1\<rparr> else d);
          d = (if ax_min_dc d > ax_max_dc d then d\<lparr>ax_min_dc := ax_max_dc d\<rparr> else d);
          d = (if ax_min_dc d < -1 then d\<lparr>ax_min_dc := -1\<rparr> else d)
      in if ax_max_dc d < ax_min_dc d then d\<lparr>ax_max_dc := ax_min_dc d\<rparr> else d)"

definition aout_rescale :: "(real \<Rightarrow> real) \<Rightarrow> aout_channel \<Rightarrow> aout_channel" where
  "aout_rescale rnd d =
     (if ax_scale d \<noteq> ax_old_scale d then
        let tiny = rnd (1 / 10 ^ 20);
            d = (if ax_scale d < tiny \<and> ax_scale d > - tiny then d\<lparr>ax_scale := 1\<rparr> else d)
        in d\<lparr>ax_old_scale := ax_scale d, ax_scale_recip := rnd (1 / ax_scale d)\<rparr>
      else d)"

definition aout_duty :: "(real \<Rightarrow> real) \<Rightarrow> aout_channel \<Rightarrow> real" where
  "aout_duty rnd d =
     (let v = (if ax_absmode d \<and> ax_value d < 0 then - ax_value d else ax_value d);
          dc = rnd (rnd (v * ax_scale_recip d) + ax_offset d);
          dc = (if dc < ax_min_dc d then ax_min_dc d else dc)
      in if dc > ax_max_dc d then ax_max_dc d else dc)"

definition aout_output :: "(real \<Rightarrow> real) \<Rightarrow> real \<Rightarrow> aout_channel \<Rightarrow> real \<times> aout_channel" where
  "aout_output rnd dc d =
     (if \<not> ax_enable d then (0, d\<lparr>ax_pos := False, ax_neg := False, ax_curr_dc := 0\<rparr>)
      else
        let m = real_of_int (at_max_value (ax_options d));
            raw = rnd (m * dc);
            raw = (if raw > m then m else raw);
            raw = (if raw < - m then - m else raw)
        in (raw, d\<lparr>ax_pos := ax_value d > 0, ax_neg := ax_value d < 0, ax_curr_dc := dc\<rparr>))"

definition c_s16_of :: "real \<Rightarrow> int option" where
  "c_s16_of x = (if - 32768 \<le> c_trunc x \<and> c_trunc x < 32768 then Some (c_trunc x) else None)"

definition lcec_aout_write :: "ec_macros \<Rightarrow> (real \<Rightarrow> real) \<Rightarrow> aout_channel \<Rightarrow> u8 list \<Rightarrow> (aout_channel \<times> u8 list) option" where
  "lcec_aout_write ec rnd d pd =
     (let d = aout_rescale rnd (aout_limits d);
          (raw, d) = aout_output rnd (aout_duty rnd d) d
      in Option.bind (c_s16_of raw) (\<lambda>v.
         Option.bind (pd_store pd (unat (ax_val_pdo_os d)) (EC_WRITE_U16 ec (word_of_int v))) (\<lambda>pd.
         map_option (\<lambda>r. (d\<lparr>ax_raw_val := r\<rparr>, pd)) (c_s32_of raw))))"

fun lcec_aout_write_all ::
    "ec_macros \<Rightarrow> (real \<Rightarrow> real) \<Rightarrow> aout_channel option list \<Rightarrow> u8 list \<Rightarrow> (aout_channel option list \<times> u8 list) option" where
  "lcec_aout_write_all ec rnd [] pd = Some ([], pd)"
| "lcec_aout_write_all ec rnd (None # cs) pd =
     map_option (\<lambda>(cs, pd). (None # cs, pd)) (lcec_aout_write_all ec rnd cs pd)"
| "lcec_aout_write_all ec rnd (Some d # cs) pd =
     Option.bind (lcec_aout_write ec rnd d pd) (\<lambda>(d', pd).
       map_option (\<lambda>(cs, pd). (Some d' # cs, pd)) (lcec_aout_write_all ec rnd cs pd))"

definition lcec_aout_allocate_channels :: "nat \<Rightarrow> aout_channel option list" where
  "lcec_aout_allocate_channels n = replicate n None"

section \<open>What a write guarantees\<close>

text \<open>The rounding of the machine: monotone, and exact on integers a \<open>double\<close> holds.\<close>

definition ieee_rnd :: "(real \<Rightarrow> real) \<Rightarrow> bool" where
  "ieee_rnd rnd \<longleftrightarrow> mono rnd \<and> (\<forall>i :: int. \<bar>i\<bar> \<le> 2 ^ 53 \<longrightarrow> rnd (real_of_int i) = real_of_int i)"

lemma aout_limits_ok:
  "-1 \<le> ax_min_dc (aout_limits d) \<and> ax_min_dc (aout_limits d) \<le> ax_max_dc (aout_limits d) \<and> ax_max_dc (aout_limits d) \<le> 1"
  by (simp add: aout_limits_def Let_def)

lemma aout_limits_id:
  assumes "-1 \<le> ax_min_dc d" and "ax_min_dc d \<le> ax_max_dc d" and "ax_max_dc d \<le> 1"
  shows "aout_limits d = d"
  using assms by (simp add: aout_limits_def)

lemma aout_limits_same [simp]:
  "ax_enable (aout_limits d) = ax_enable d" "ax_options (aout_limits d) = ax_options d"
  "ax_val_pdo_os (aout_limits d) = ax_val_pdo_os d" "ax_value (aout_limits d) = ax_value d"
  by (simp_all add: aout_limits_def Let_def)

lemma aout_rescale_same [simp]:
  "ax_enable (aout_rescale rnd d) = ax_enable d" "ax_options (aout_rescale rnd d) = ax_options d"
  "ax_val_pdo_os (aout_rescale rnd d) = ax_val_pdo_os d" "ax_value (aout_rescale rnd d) = ax_value d"
  "ax_min_dc (aout_rescale rnd d) = ax_min_dc d" "ax_max_dc (aout_rescale rnd d) = ax_max_dc d"
  by (simp_all add: aout_rescale_def Let_def)

lemma aout_duty_ok: "ax_min_dc d \<le> ax_max_dc d \<Longrightarrow> ax_min_dc d \<le> aout_duty rnd d \<and> aout_duty rnd d \<le> ax_max_dc d"
  by (simp add: aout_duty_def Let_def)

lemma aout_output_ok:
  assumes m: "0 \<le> at_max_value (ax_options d)" "at_max_value (ax_options d) \<le> 32767"
    and e: "aout_output rnd dc d = (raw, d')"
  shows "\<bar>c_trunc raw\<bar> \<le> at_max_value (ax_options d)"
proof -
  let ?m = "at_max_value (ax_options d)"
  have "\<bar>raw\<bar> \<le> real_of_int ?m" using e m(1) by (auto simp: aout_output_def Let_def split: if_splits)
  then have "raw \<le> real_of_int ?m" "real_of_int (- ?m) \<le> raw" by simp_all
  then show ?thesis using m(1) by (simp add: c_trunc_def abs_le_iff floor_le_iff le_floor_iff ceiling_le_iff le_ceiling_iff) linarith
qed

lemma aout_output_exact:
  assumes r: "ieee_rnd rnd" and m: "0 \<le> at_max_value (ax_options d)" "at_max_value (ax_options d) \<le> 32767"
    and dc: "-1 \<le> dc" "dc \<le> 1" and e: "aout_output rnd dc d = (raw, d')" and en: "ax_enable d"
  shows "raw = rnd (real_of_int (at_max_value (ax_options d)) * dc)"
proof -
  let ?m = "at_max_value (ax_options d)"
  have m0: "0 \<le> real_of_int ?m" using m(1) by simp
  have b: "real_of_int (- ?m) \<le> real_of_int ?m * dc" "real_of_int ?m * dc \<le> real_of_int ?m"
    using mult_left_mono [OF dc(1) m0] mult_left_mono [OF dc(2) m0] by simp_all
  have "rnd (real_of_int (- ?m)) \<le> rnd (real_of_int ?m * dc)" "rnd (real_of_int ?m * dc) \<le> rnd (real_of_int ?m)"
    using r b unfolding ieee_rnd_def mono_def by blast+
  moreover have "rnd (real_of_int (- ?m)) = real_of_int (- ?m)" "rnd (real_of_int ?m) = real_of_int ?m"
    using r m unfolding ieee_rnd_def by (simp_all add: del: of_int_minus)
  ultimately show ?thesis using e en by (auto simp: aout_output_def Let_def split: if_splits)
qed

text \<open>The result of a write, in terms of the channel before.\<close>

definition aout_written :: "(real \<Rightarrow> real) \<Rightarrow> aout_channel \<Rightarrow> aout_channel \<Rightarrow> bool" where
  "aout_written rnd d d' \<longleftrightarrow>
     -1 \<le> ax_min_dc d' \<and> ax_min_dc d' \<le> ax_max_dc d' \<and> ax_max_dc d' \<le> 1 \<and>
     \<bar>ax_raw_val d'\<bar> \<le> at_max_value (ax_options d) \<and>
     (if ax_enable d
      then ax_min_dc d' \<le> ax_curr_dc d' \<and> ax_curr_dc d' \<le> ax_max_dc d' \<and>
           (ieee_rnd rnd \<longrightarrow> ax_raw_val d' = c_trunc (rnd (real_of_int (at_max_value (ax_options d)) * ax_curr_dc d'))) \<and>
           (ax_pos d' \<longleftrightarrow> ax_value d > 0) \<and> (ax_neg d' \<longleftrightarrow> ax_value d < 0)
      else ax_raw_val d' = 0 \<and> ax_curr_dc d' = 0 \<and> \<not> ax_pos d' \<and> \<not> ax_neg d')"

definition aout_in :: "nat \<Rightarrow> aout_channel \<Rightarrow> bool" where
  "aout_in n d \<longleftrightarrow> unat (ax_val_pdo_os d) + 2 \<le> n \<and> 0 \<le> at_max_value (ax_options d) \<and> at_max_value (ax_options d) \<le> 32767"

lemma aout_write_ok:
  assumes ec: "ec_le ec" and i: "aout_in (length pd) d"
  shows "\<exists>d' pd'. lcec_aout_write ec rnd d pd = Some (d', pd') \<and> aout_written rnd d d' \<and> ax_val_pdo_os d' = ax_val_pdo_os d \<and>
    pd' = take (unat (ax_val_pdo_os d)) pd @ le_bytes 2 (word_of_int (ax_raw_val d') :: u16) @ drop (unat (ax_val_pdo_os d) + 2) pd"
proof -
  define e where "e = aout_rescale rnd (aout_limits d)"
  define dc where "dc = aout_duty rnd e"
  obtain raw d2 where out: "aout_output rnd dc e = (raw, d2)" by fastforce
  have e: "ax_enable e = ax_enable d" "ax_options e = ax_options d" "ax_val_pdo_os e = ax_val_pdo_os d" "ax_value e = ax_value d"
    by (simp_all add: e_def)
  have lim: "-1 \<le> ax_min_dc e" "ax_min_dc e \<le> ax_max_dc e" "ax_max_dc e \<le> 1" using aout_limits_ok [of d] by (simp_all add: e_def)
  have m: "0 \<le> at_max_value (ax_options e)" "at_max_value (ax_options e) \<le> 32767" using i by (simp_all add: aout_in_def e)
  have tr: "\<bar>c_trunc raw\<bar> \<le> at_max_value (ax_options d)" using aout_output_ok [OF m out] by (simp add: e)
  then have "- 32768 \<le> c_trunc raw" "c_trunc raw < 32768" using m unfolding e by linarith+
  then have c: "c_s16_of raw = Some (c_trunc raw)" "c_s32_of raw = Some (c_trunc raw)"
    by (simp_all add: c_s16_of_def c_s32_of_def in_s32_def)
  have d2: "ax_val_pdo_os d2 = ax_val_pdo_os d" "ax_min_dc d2 = ax_min_dc e" "ax_max_dc d2 = ax_max_dc e"
    using out e by (auto simp: aout_output_def Let_def split: if_splits)
  have st: "pd_store pd (unat (ax_val_pdo_os d2)) (EC_WRITE_U16 ec (word_of_int (c_trunc raw))) =
      Some (take (unat (ax_val_pdo_os d)) pd @ le_bytes 2 (word_of_int (c_trunc raw) :: u16) @ drop (unat (ax_val_pdo_os d) + 2) pd)"
    using ec i by (simp add: pd_store_def ec_le_def aout_in_def d2)
  have run: "lcec_aout_write ec rnd d pd = Some (d2\<lparr>ax_raw_val := c_trunc raw\<rparr>,
      take (unat (ax_val_pdo_os d)) pd @ le_bytes 2 (word_of_int (c_trunc raw) :: u16) @ drop (unat (ax_val_pdo_os d) + 2) pd)"
    using c st out unfolding lcec_aout_write_def Let_def e_def [symmetric] dc_def [symmetric] by simp
  have "aout_written rnd d (d2\<lparr>ax_raw_val := c_trunc raw\<rparr>)"
  proof (cases "ax_enable d")
    case True
    have dcb: "ax_min_dc e \<le> dc" "dc \<le> ax_max_dc e" using aout_duty_ok [OF lim(2)] by (simp_all add: dc_def)
    have "ieee_rnd rnd \<Longrightarrow> raw = rnd (real_of_int (at_max_value (ax_options e)) * dc)"
      using aout_output_exact [OF _ m _ _ out] lim dcb True e by simp
    moreover have "ax_curr_dc d2 = dc" "ax_pos d2 \<longleftrightarrow> ax_value d > 0" "ax_neg d2 \<longleftrightarrow> ax_value d < 0"
      using out True e by (auto simp: aout_output_def Let_def split: if_splits)
    ultimately show ?thesis using True lim dcb tr d2 e by (simp add: aout_written_def)
  next
    case False
    then have "raw = 0" "ax_curr_dc d2 = 0" "\<not> ax_pos d2" "\<not> ax_neg d2" using out e by (auto simp: aout_output_def)
    then show ?thesis using False lim tr d2 by (simp add: aout_written_def c_trunc_def)
  qed
  then show ?thesis using run d2(1) by simp
qed

text \<open>All outputs of a device, whose values do not overlap, keep what the others wrote.\<close>

definition aout_bytes :: "aout_channel \<Rightarrow> nat set" where
  "aout_bytes d = {unat (ax_val_pdo_os d), Suc (unat (ax_val_pdo_os d))}"

lemma splice_other: "n + 2 \<le> length pd \<Longrightarrow> length bs = 2 \<Longrightarrow> k < length pd \<Longrightarrow> k \<noteq> n \<Longrightarrow> k \<noteq> Suc n \<Longrightarrow>
    (take n pd @ bs @ drop (n + 2) pd) ! k = pd ! k"
proof -
  assume a: "n + 2 \<le> length pd" "length bs = 2" "k < length pd" "k \<noteq> n" "k \<noteq> Suc n"
  show ?thesis
  proof (cases "k < n")
    case False
    then have "n + 2 \<le> k" using a by linarith
    then obtain j where "k = n + 2 + j" using le_Suc_ex by blast
    then show ?thesis using a by (simp add: nth_append)
  qed (use a in \<open>simp add: nth_append\<close>)
qed

lemma splice_same: "n + 2 \<le> length pd \<Longrightarrow> length bs = 2 \<Longrightarrow> take 2 (drop n (take n pd @ bs @ drop (n + 2) pd)) = bs"
  by (simp add: min_def)

lemma aout_write_bytes:
  assumes ec: "ec_le ec" and i: "aout_in (length pd) d"
  obtains d' pd' where "lcec_aout_write ec rnd d pd = Some (d', pd')" and "aout_written rnd d d'" and "length pd' = length pd"
    and "take 2 (drop (unat (ax_val_pdo_os d)) pd') = le_bytes 2 (word_of_int (ax_raw_val d') :: u16)"
    and "\<And>k. k < length pd \<Longrightarrow> k \<notin> aout_bytes d \<Longrightarrow> pd' ! k = pd ! k"
proof -
  let ?n = "unat (ax_val_pdo_os d)"
  have n: "?n + 2 \<le> length pd" using i by (simp add: aout_in_def)
  obtain d' pd' where w: "lcec_aout_write ec rnd d pd = Some (d', pd')" "aout_written rnd d d'"
    "pd' = take ?n pd @ le_bytes 2 (word_of_int (ax_raw_val d') :: u16) @ drop (?n + 2) pd"
    using aout_write_ok [OF assms] by blast
  have "length pd' = length pd" using n by (simp add: w(3))
  then show thesis using that [OF w(1,2)] splice_same [OF n] splice_other [OF n] by (simp add: w(3) aout_bytes_def)
qed

lemma two_bytes_same:
  assumes "length pd' = length pd" and "n + 2 \<le> length pd" and "pd' ! n = pd ! n" and "pd' ! Suc n = pd ! Suc n"
  shows "take 2 (drop n pd') = take 2 (drop n pd)"
proof (rule nth_equalityI)
  fix i assume "i < length (take 2 (drop n pd'))"
  then have "i = 0 \<or> i = 1" by auto
  then show "take 2 (drop n pd') ! i = take 2 (drop n pd) ! i" using assms by auto
qed (use assms in simp)

definition aout_holds :: "u8 list \<Rightarrow> aout_channel \<Rightarrow> aout_channel \<Rightarrow> bool" where
  "aout_holds pd d d' \<longleftrightarrow> take 2 (drop (unat (ax_val_pdo_os d)) pd) = le_bytes 2 (word_of_int (ax_raw_val d') :: u16)"

lemma aout_write_all_bytes:
  assumes ec: "ec_le ec" and "\<forall>d\<in>set (channels_of cs). aout_in (length pd) d"
    and "sorted_wrt (\<lambda>d e. aout_bytes d \<inter> aout_bytes e = {}) (channels_of cs)"
  shows "\<exists>cs' pd'. lcec_aout_write_all ec rnd cs pd = Some (cs', pd') \<and> length pd' = length pd \<and>
    list_all2 (\<lambda>d d'. aout_written rnd d d' \<and> aout_holds pd' d d') (channels_of cs) (channels_of cs') \<and>
    (\<forall>k < length pd. (\<forall>d\<in>set (channels_of cs). k \<notin> aout_bytes d) \<longrightarrow> pd' ! k = pd ! k)"
  using assms(2,3)
proof (induction cs arbitrary: pd)
  case (Cons c cs)
  show ?case
  proof (cases c)
    case None
    then obtain cs' pd' where w: "lcec_aout_write_all ec rnd cs pd = Some (cs', pd')" "length pd' = length pd"
      "list_all2 (\<lambda>d d'. aout_written rnd d d' \<and> aout_holds pd' d d') (channels_of cs) (channels_of cs')"
      "\<forall>k < length pd. (\<forall>d\<in>set (channels_of cs). k \<notin> aout_bytes d) \<longrightarrow> pd' ! k = pd ! k"
      using Cons.IH [of pd] Cons.prems by auto
    show ?thesis by (rule exI [of _ "None # cs'"], rule exI [of _ pd']) (simp add: None w)
  next
    case (Some d)
    have i: "aout_in (length pd) d" using Cons.prems(1) Some by simp
    obtain d' pd1 where w: "lcec_aout_write ec rnd d pd = Some (d', pd1)" "aout_written rnd d d'" "length pd1 = length pd"
      "take 2 (drop (unat (ax_val_pdo_os d)) pd1) = le_bytes 2 (word_of_int (ax_raw_val d') :: u16)"
      "\<And>k. k < length pd \<Longrightarrow> k \<notin> aout_bytes d \<Longrightarrow> pd1 ! k = pd ! k"
      by (rule aout_write_bytes [OF ec i]) blast
    obtain cs' pd' where ws: "lcec_aout_write_all ec rnd cs pd1 = Some (cs', pd')" "length pd' = length pd"
      "list_all2 (\<lambda>d d'. aout_written rnd d d' \<and> aout_holds pd' d d') (channels_of cs) (channels_of cs')"
      "\<forall>k < length pd. (\<forall>d\<in>set (channels_of cs). k \<notin> aout_bytes d) \<longrightarrow> pd' ! k = pd1 ! k"
      using Cons.IH [of pd1] Cons.prems Some w(3) by auto
    let ?n = "unat (ax_val_pdo_os d)"
    have n: "?n + 2 \<le> length pd1" using i w(3) by (simp add: aout_in_def)
    have dis: "\<forall>e\<in>set (channels_of cs). aout_bytes d \<inter> aout_bytes e = {}" using Cons.prems(2) Some by simp
    then have "\<forall>e\<in>set (channels_of cs). ?n \<notin> aout_bytes e \<and> Suc ?n \<notin> aout_bytes e" by (auto simp: aout_bytes_def)
    then have "pd' ! ?n = pd1 ! ?n" "pd' ! Suc ?n = pd1 ! Suc ?n" using ws(4) n w(3) by simp_all
    then have "aout_holds pd' d d'" using two_bytes_same [of pd' pd1 ?n] n ws(2) w(3,4) by (simp add: aout_holds_def)
    moreover have "\<forall>k < length pd. (\<forall>e\<in>set (channels_of (c # cs)). k \<notin> aout_bytes e) \<longrightarrow> pd' ! k = pd ! k"
      using ws(4) w(5) Some by simp
    ultimately show ?thesis
      by (intro exI [of _ "Some d' # cs'"] exI [of _ pd']) (simp add: Some w(1,2) ws(1,2,3))
  qed
qed simp

text \<open>
  What a read leaves: the raw value is in the range of 16 bits and comes from the two bytes at the
  position of the channel, and a status bit from its own position.
\<close>

lemma ain_read_raw:
  assumes "ec_le ec" and "lcec_ain_read ec rnd pd d = Some d'"
  shows "unat (ai_val_pdo_os d) + 2 \<le> length pd \<and>
    ai_raw_val d' = (let w = le_word (take 2 (drop (unat (ai_val_pdo_os d)) pd)) :: u16 in if ai_is_unsigned d then uint w else sint w) \<and>
    ain_value rnd d (ai_raw_val d') = Some (ai_val d')"
proof -
  obtain d1 bs x where s: "ain_status ec pd d = Some d1" and bs: "pd_load pd (unat (ai_val_pdo_os d1)) 2 = Some bs"
    and x: "ain_value rnd d1 (if ai_is_unsigned d1 then uint (EC_READ_U16 ec bs) else sint (EC_READ_U16 ec bs)) = Some x"
    and d': "d' = d1\<lparr>ai_raw_val := (if ai_is_unsigned d1 then uint (EC_READ_U16 ec bs) else sint (EC_READ_U16 ec bs)), ai_val := x\<rparr>"
    using assms(2) by (auto simp: lcec_ain_read_def bind_eq_Some_conv Let_def)
  have d1: "ai_val_pdo_os d1 = ai_val_pdo_os d" "ai_is_unsigned d1 = ai_is_unsigned d" "ai_options d1 = ai_options d"
    "ai_scale d1 = ai_scale d" "ai_bias d1 = ai_bias d"
    using s by (auto simp: ain_status_def bind_eq_Some_conv split: if_splits)
  have l: "unat (ai_val_pdo_os d) + 2 \<le> length pd" "bs = take 2 (drop (unat (ai_val_pdo_os d)) pd)"
    using bs d1 by (auto simp: pd_load_def split: if_splits)
  then have "EC_READ_U16 ec bs = le_word bs" using assms(1) by (simp add: ec_le_def)
  moreover have "ain_value rnd d1 v = ain_value rnd d v" for v by (simp add: ain_value_def d1)
  ultimately show ?thesis using x l(1) by (auto simp: d' Let_def d1(2) l(2))
qed

end
