(* ===== verification/CiaRatio.thy ===== *)
theory CiaRatio
  imports CString ChannelAnalog
begin

text \<open>
  The ratios of the CiA 402 module parameters (\<open>lcec_cia402_decode_ratio_modparam\<close> of
  \<open>devices/lcec_class_cia402.c\<close>): two integers, or a floating point number that is approximated
  by its continued fraction. The loop is a partial function: \<open>None\<close> would be a loop that does not
  end, and a left value is arithmetic C leaves undefined.
\<close>

section \<open>The decoder\<close>

datatype ratio_fault =
    IntOverflow     \<comment> \<open>a product or sum of the matrix does not fit an \<open>int\<close>\<close>
  | FloatRange      \<comment> \<open>a \<open>double\<close> outside \<open>int\<close> is converted to it\<close>

text \<open>
  The matrix is \<open>a b / c d\<close>, and \<open>e\<close> is the integral part of \<open>x\<close>. A difference of two different
  doubles is not zero; where the rounding makes it zero, the reciprocal is infinite.
\<close>

partial_function (option) ratio_loop ::
    "(real \<Rightarrow> real) \<Rightarrow> int \<Rightarrow> int \<Rightarrow> int \<Rightarrow> int \<Rightarrow> int \<Rightarrow> real \<Rightarrow> int \<Rightarrow> (ratio_fault + int \<times> int) option" where
  "ratio_loop rnd mx a b c d x e =
     (if \<not> in_s32 (c * e) \<or> \<not> in_s32 (c * e + d) then Some (Inl IntOverflow)
      else if c * e + d \<le> mx then
        (if \<not> in_s32 (a * e) \<or> \<not> in_s32 (a * e + b) then Some (Inl IntOverflow)
         else if x = real_of_int e then Some (Inr (a * e + b, c * e + d))
         else if rnd (x - real_of_int e) = 0 \<or> rnd (1 / rnd (x - real_of_int e)) > 2147483647
         then Some (Inr (a * e + b, c * e + d))
         else case c_s32_of (rnd (1 / rnd (x - real_of_int e))) of
             None \<Rightarrow> Some (Inl FloatRange)
           | Some e' \<Rightarrow> ratio_loop rnd mx (a * e + b) a (c * e + d) c (rnd (1 / rnd (x - real_of_int e))) e')
      else Some (Inr (a, c)))"

definition find_char :: "char \<Rightarrow> string \<Rightarrow> string" where
  "find_char k s = dropWhile (\<lambda>c. c \<noteq> k) s"

definition lcec_cia402_decode_ratio_modparam ::
    "(real \<Rightarrow> real) \<Rightarrow> string \<Rightarrow> int \<Rightarrow> (ratio_fault + int \<times> u32) option" where
  "lcec_cia402_decode_ratio_modparam rnd value mx =
     (let slash = find_char (CHR ''/'') value;
          slash = (if slash = [] then find_char (CHR '':'') value else slash) in
      if slash \<noteq> [] then
        Some (Inr (s32 (fst (strtol 10 value)), word_of_int (fst (strtoul 10 (tl slash)))))
      else
        let x = rnd (atof value) in
        case c_s32_of x of
          None \<Rightarrow> Some (Inl FloatRange)
        | Some e \<Rightarrow> map_option (map_sum id (\<lambda>(n, q). (n, word_of_int q))) (ratio_loop rnd mx 1 0 0 1 x e))"

section \<open>Steps of the continued fraction\<close>

lemma ieee_rnd_const [simp]: "ieee_rnd rnd \<Longrightarrow> rnd 0 = 0" "ieee_rnd rnd \<Longrightarrow> rnd 1 = 1"
  by (metis (mono_tags, opaque_lifting) abs_zero ieee_rnd_def of_int_0 zero_le_numeral zero_le_power)
    (metis (mono_tags, opaque_lifting) abs_one ieee_rnd_def of_int_1 one_le_numeral one_le_power)

lemma recip_ge_1:
  assumes r: "ieee_rnd rnd" and z: "0 \<le> z" "z \<le> 1" and n: "rnd z \<noteq> 0"
  shows "1 \<le> rnd (1 / rnd z)"
proof -
  have "rnd 0 \<le> rnd z" "rnd z \<le> rnd 1" using r z unfolding ieee_rnd_def mono_def by blast+
  then have "0 < rnd z" "rnd z \<le> 1" using r n by simp_all
  then have "1 \<le> 1 / rnd z" by simp
  then have "rnd 1 \<le> rnd (1 / rnd z)" using r unfolding ieee_rnd_def mono_def by blast
  then show ?thesis using r by simp
qed

lemma c_s32_of_pos: "0 \<le> x \<Longrightarrow> x \<le> 2147483647 \<Longrightarrow> c_s32_of x = Some \<lfloor>x\<rfloor>"
  by (simp add: c_s32_of_def c_trunc_def in_s32_def le_floor_iff floor_less_iff)

definition unimodular :: "int \<Rightarrow> int \<Rightarrow> int \<Rightarrow> int \<Rightarrow> bool" where
  "unimodular a b c d \<longleftrightarrow> a * d - b * c = 1 \<or> a * d - b * c = -1"

lemma unimodular_step: "unimodular a b c d \<Longrightarrow> unimodular (a * e + b) a (c * e + d) c"
  by (auto simp: unimodular_def algebra_simps)

lemma unimodular_coprime:
  assumes "unimodular a b c d"
  shows "coprime a c"
proof (rule coprimeI)
  fix k assume "k dvd a" "k dvd c"
  then have "k dvd a * d - b * c" by (intro dvd_diff dvd_mult2 dvd_mult)
  then show "is_unit k" using assms by (auto simp: unimodular_def)
qed

lemma convergent_error:
  assumes u: "unimodular a b c d" and c: "0 < c" and d: "0 \<le> d" and x: "1 \<le> x"
    and e: "x0 * (real_of_int c * x + real_of_int d) = real_of_int a * x + real_of_int b"
  shows "\<bar>x0 - real_of_int a / real_of_int c\<bar> \<le> 1 / (real_of_int c)\<^sup>2"
proof -
  let ?c = "real_of_int c" and ?D = "real_of_int c * x + real_of_int d"
  have c1: "0 < ?c" using c by simp
  have D: "?c \<le> ?D" using c1 d x by (simp add: add_increasing2 mult_left_mono [of 1 x, simplified])
  then have D0: "0 < ?D" using c1 by linarith
  have "(x0 - real_of_int a / ?c) * (?c * ?D) = ?c * (x0 * ?D) - (real_of_int a / ?c * ?c) * ?D" by (simp add: algebra_simps)
  also have "\<dots> = ?c * (real_of_int a * x + real_of_int b) - real_of_int a * ?D" using c1 by (simp only: e) simp
  also have "\<dots> = real_of_int b * ?c - real_of_int a * real_of_int d" by (simp add: algebra_simps)
  finally have "x0 - real_of_int a / ?c = (real_of_int b * ?c - real_of_int a * real_of_int d) / (?c * ?D)"
    using c1 D0 by (simp add: eq_divide_eq)
  moreover have "real_of_int (a * d - b * c) = 1 \<or> real_of_int (a * d - b * c) = -1" using u unfolding unimodular_def by (metis of_int_1 of_int_minus)
  then have "\<bar>real_of_int b * ?c - real_of_int a * real_of_int d\<bar> = 1" by auto
  ultimately have "\<bar>x0 - real_of_int a / ?c\<bar> = 1 / (?c * ?D)" using c1 D0 by (simp add: abs_mult)
  also have "\<dots> \<le> 1 / (?c * ?c)" using c1 D D0 by (intro divide_left_mono mult_left_mono mult_pos_pos) simp_all
  finally show ?thesis by (simp add: power2_eq_square)
qed

section \<open>The loop ends with a good approximation\<close>

definition ratio_good :: "(real \<Rightarrow> real) \<Rightarrow> int \<Rightarrow> real \<Rightarrow> int \<Rightarrow> int \<Rightarrow> bool" where
  "ratio_good rnd mx x0 n q \<longleftrightarrow> coprime n q \<and> 1 \<le> q \<and> q \<le> mx \<and> 0 \<le> n \<and>
     ((\<forall>z. rnd z = z) \<longrightarrow> \<bar>x0 - real_of_int n / real_of_int q\<bar> \<le> 1 / (real_of_int q)\<^sup>2)"

definition ratio_inv :: "(real \<Rightarrow> real) \<Rightarrow> real \<Rightarrow> int \<Rightarrow> int \<Rightarrow> int \<Rightarrow> int \<Rightarrow> real \<Rightarrow> bool" where
  "ratio_inv rnd x0 a b c d x \<longleftrightarrow> unimodular a b c d \<and> 0 \<le> a \<and> 0 \<le> b \<and> 0 \<le> d \<and>
     ((\<forall>z. rnd z = z) \<longrightarrow> x0 * (real_of_int c * x + real_of_int d) = real_of_int a * x + real_of_int b)"

lemma ratio_inv_step:
  assumes i: "ratio_inv rnd x0 a b c d x" and c: "0 \<le> c" and e: "0 \<le> e" and y: "(\<forall>z. rnd z = z) \<longrightarrow> x' = 1 / (x - real_of_int e) \<and> x \<noteq> real_of_int e"
  shows "ratio_inv rnd x0 (a * e + b) a (c * e + d) c x'"
proof -
  have "x0 * (real_of_int (c * e + d) * x' + real_of_int c) = real_of_int (a * e + b) * x' + real_of_int a" if id: "\<forall>z. rnd z = z"
  proof -
    let ?y = "x - real_of_int e"
    have y0: "?y \<noteq> 0" and x': "x' = 1 / ?y" using y id by simp_all
    have m: "(real_of_int (p * e + q) * x' + real_of_int p) * ?y = real_of_int p * x + real_of_int q" for p q
    proof -
      have xy: "x' * ?y = 1" using y0 by (simp add: x')
      have "(real_of_int (p * e + q) * x' + real_of_int p) * ?y = real_of_int (p * e + q) * (x' * ?y) + real_of_int p * ?y"
        by (simp only: distrib_right mult.assoc)
      also have "\<dots> = real_of_int p * x + real_of_int q" unfolding xy by (simp add: algebra_simps)
      finally show ?thesis .
    qed
    have "(x0 * (real_of_int (c * e + d) * x' + real_of_int c)) * ?y = x0 * (real_of_int c * x + real_of_int d)"
      using m [of c d] by (simp only: mult.assoc)
    also have "\<dots> = (real_of_int (a * e + b) * x' + real_of_int a) * ?y"
      using i id m [of a b] by (simp only: ratio_inv_def) simp
    finally show ?thesis using y0 by simp
  qed
  then show ?thesis using i c e unimodular_step by (simp add: ratio_inv_def)
qed

lemma ratio_inv_good:
  assumes "ratio_inv rnd x0 a b c d x" and "0 < c" and "c \<le> mx" and "(\<forall>z. rnd z = z) \<longrightarrow> 1 \<le> x"
  shows "ratio_good rnd mx x0 a c"
  using assms convergent_error [of a b c d x x0] unimodular_coprime [of a b c d]
  by (simp add: ratio_inv_def ratio_good_def)

lemma ratio_exact_good:
  assumes i: "ratio_inv rnd x0 a b c d x" and x: "x = real_of_int e" and e: "0 \<le> e" and q: "0 < c * e + d" "c * e + d \<le> mx"
  shows "ratio_good rnd mx x0 (a * e + b) (c * e + d)"
proof -
  have "x0 = real_of_int (a * e + b) / real_of_int (c * e + d)" if "\<forall>z. rnd z = z"
  proof -
    have "x0 * real_of_int (c * e + d) = real_of_int (a * e + b)" using i that x by (simp add: ratio_inv_def)
    moreover have "real_of_int (c * e + d) \<noteq> 0" using q(1) by (simp only: of_int_eq_0_iff)
    ultimately show ?thesis by (metis nonzero_eq_divide_eq)
  qed
  moreover have "coprime (a * e + b) (c * e + d)" using unimodular_coprime [OF unimodular_step] i by (simp add: ratio_inv_def)
  moreover have "0 \<le> a * e + b" using i e by (simp add: ratio_inv_def)
  ultimately show ?thesis using q by (simp add: ratio_good_def)
qed

text \<open>One turn of the loop: it ends, or goes on with the next matrix and a number that is at least 1.\<close>

lemma ratio_turn:
  assumes r: "ieee_rnd rnd" and i: "ratio_inv rnd x0 a b c d x" and x: "0 \<le> x" "x \<le> 2147483647" "e = \<lfloor>x\<rfloor>"
    and c: "0 \<le> c" and q: "0 < c * e + d"
    and over: "\<not> c * e + d \<le> mx \<Longrightarrow> ratio_good rnd mx x0 a c"
  shows "(\<exists>r. ratio_loop rnd mx a b c d x e = Some r \<and> (\<forall>n q. r = Inr (n, q) \<longrightarrow> ratio_good rnd mx x0 n q)) \<or>
    (\<exists>x'. ratio_loop rnd mx a b c d x e = ratio_loop rnd mx (a * e + b) a (c * e + d) c x' \<lfloor>x'\<rfloor> \<and> c * e + d \<le> mx \<and>
       ratio_inv rnd x0 (a * e + b) a (c * e + d) c x' \<and> 1 \<le> x' \<and> x' \<le> 2147483647)"
proof -
  have e: "0 \<le> e" "real_of_int e \<le> x" "x - real_of_int e \<le> 1" using x by (simp_all add: le_floor_iff) linarith
  let ?y = "rnd (x - real_of_int e)" let ?L = "ratio_loop rnd mx a b c d x e"
  consider "\<not> in_s32 (c * e) \<or> \<not> in_s32 (c * e + d)"
    | "in_s32 (c * e)" "in_s32 (c * e + d)" "\<not> c * e + d \<le> mx"
    | "in_s32 (c * e)" "in_s32 (c * e + d)" "c * e + d \<le> mx" "\<not> in_s32 (a * e) \<or> \<not> in_s32 (a * e + b)"
    | "in_s32 (c * e)" "in_s32 (c * e + d)" "c * e + d \<le> mx" "in_s32 (a * e)" "in_s32 (a * e + b)" by blast
  then show ?thesis
  proof cases
    case 2
    then have "?L = Some (Inr (a, c))" by (subst ratio_loop.simps) simp
    then show ?thesis using over 2 by simp
  next
    case 4
    consider "x = real_of_int e" | "x \<noteq> real_of_int e" "?y = 0 \<or> rnd (1 / ?y) > 2147483647"
      | "x \<noteq> real_of_int e" "?y \<noteq> 0" "rnd (1 / ?y) \<le> 2147483647" by linarith
    then show ?thesis
    proof cases
      case 1
      then have "?L = Some (Inr (a * e + b, c * e + d))" using 4 by (subst ratio_loop.simps) simp
      then show ?thesis using ratio_exact_good [OF i 1 e(1) q 4(3)] by simp
    next
      case 2
      then have L: "?L = Some (Inr (a * e + b, c * e + d))" using 4 by (subst ratio_loop.simps) simp
      have "ratio_inv rnd x0 (a * e + b) a (c * e + d) c (1 / (x - real_of_int e))"
        by (rule ratio_inv_step [OF i c e(1)]) (use 2(1) in simp)
      moreover have "1 \<le> 1 / (x - real_of_int e)" using e 2(1) by simp
      ultimately have "ratio_good rnd mx x0 (a * e + b) (c * e + d)" using ratio_inv_good [OF _ q 4(3)] by blast
      then show ?thesis using L by simp
    next
      case 3
      have y1: "1 \<le> rnd (1 / ?y)" using recip_ge_1 [OF r _ e(3) 3(2)] e(2) by simp
      have "?L = ratio_loop rnd mx (a * e + b) a (c * e + d) c (rnd (1 / ?y)) \<lfloor>rnd (1 / ?y)\<rfloor>"
        using 4 3 y1 c_s32_of_pos [of "rnd (1 / ?y)"] by (subst ratio_loop.simps) simp
      moreover have "ratio_inv rnd x0 (a * e + b) a (c * e + d) c (rnd (1 / ?y))"
        by (rule ratio_inv_step [OF i c e(1)]) (use 3(1) in simp)
      ultimately show ?thesis using y1 3(3) 4(3) by blast
    qed
  qed (simp_all add: ratio_loop.simps [of rnd mx a b c d x e])
qed

lemma ratio_loop_ends:
  assumes r: "ieee_rnd rnd" and "ratio_inv rnd x0 a b c d x" and "1 \<le> x" and "x \<le> 2147483647"
    and "1 \<le> c" and "c \<le> mx"
  shows "\<exists>r. ratio_loop rnd mx a b c d x \<lfloor>x\<rfloor> = Some r \<and> (\<forall>n q. r = Inr (n, q) \<longrightarrow> ratio_good rnd mx x0 n q)"
  using assms(2-)
proof (induction "nat (mx - c) + (if d = 0 then 1 else 0)" arbitrary: a b c d x rule: less_induct)
  case less
  let ?e = "\<lfloor>x\<rfloor>"
  have e: "1 \<le> ?e" using less.prems(2) by (simp add: le_floor_iff)
  have d: "0 \<le> d" using less.prems(1) by (simp add: ratio_inv_def)
  have "c * 1 \<le> c * ?e" using e less.prems(4) by (intro mult_left_mono) simp_all
  then have grow: "c + d \<le> c * ?e + d" by simp
  have "ratio_good rnd mx x0 a c" using ratio_inv_good [OF less.prems(1) _ less.prems(5)] less.prems(2,4) by simp
  then consider "\<exists>r. ratio_loop rnd mx a b c d x ?e = Some r \<and> (\<forall>n q. r = Inr (n, q) \<longrightarrow> ratio_good rnd mx x0 n q)"
    | x' where "ratio_loop rnd mx a b c d x ?e = ratio_loop rnd mx (a * ?e + b) a (c * ?e + d) c x' \<lfloor>x'\<rfloor>"
      "c * ?e + d \<le> mx" "ratio_inv rnd x0 (a * ?e + b) a (c * ?e + d) c x'" "1 \<le> x'" "x' \<le> 2147483647"
    using ratio_turn [OF r less.prems(1) _ less.prems(3) refl] less.prems(2,4) grow d by force
  then show ?case
  proof cases
    case 2
    have "nat (mx - q) + (if c = 0 then 1 else 0) < nat (mx - c) + (if d = 0 then 1 else 0)" if "c + d \<le> q" "q \<le> mx" for q
      using that d less.prems(4,5) by (cases "d = 0") auto
    moreover have "1 \<le> c * ?e + d" using grow d less.prems(4) by linarith
    ultimately have "\<exists>r. ratio_loop rnd mx (a * ?e + b) a (c * ?e + d) c x' \<lfloor>x'\<rfloor> = Some r \<and> (\<forall>n q. r = Inr (n, q) \<longrightarrow> ratio_good rnd mx x0 n q)"
      using less.hyps [OF _ 2(3-5) _ 2(2)] grow 2(2) by blast
    then show ?thesis by (simp only: 2(1))
  qed
qed

lemma ratio_loop_result:
  assumes r: "ieee_rnd rnd" and x: "0 \<le> x" "x \<le> 2147483647" and mx: "1 \<le> mx"
  shows "\<exists>r. ratio_loop rnd mx 1 0 0 1 x \<lfloor>x\<rfloor> = Some r \<and> (\<forall>n q. r = Inr (n, q) \<longrightarrow> ratio_good rnd mx x n q)"
proof -
  have i: "ratio_inv rnd x 1 0 0 1 x" by (simp add: ratio_inv_def unimodular_def)
  have q: "(0 :: int) < 0 * \<lfloor>x\<rfloor> + 1" "\<not> 0 * \<lfloor>x\<rfloor> + 1 \<le> mx \<Longrightarrow> ratio_good rnd mx x 1 0" using mx by simp_all
  consider "\<exists>r. ratio_loop rnd mx 1 0 0 1 x \<lfloor>x\<rfloor> = Some r \<and> (\<forall>n q. r = Inr (n, q) \<longrightarrow> ratio_good rnd mx x n q)"
    | x' where "ratio_loop rnd mx 1 0 0 1 x \<lfloor>x\<rfloor> = ratio_loop rnd mx (1 * \<lfloor>x\<rfloor> + 0) 1 (0 * \<lfloor>x\<rfloor> + 1) 0 x' \<lfloor>x'\<rfloor>"
      "0 * \<lfloor>x\<rfloor> + 1 \<le> mx" "ratio_inv rnd x (1 * \<lfloor>x\<rfloor> + 0) 1 (0 * \<lfloor>x\<rfloor> + 1) 0 x'" "1 \<le> x'" "x' \<le> 2147483647"
    using ratio_turn [OF r i x refl order.refl q] by blast
  then show ?thesis
  proof cases
    case 2
    show ?thesis unfolding 2(1) by (rule ratio_loop_ends [OF r 2(3,4,5) _ 2(2)]) simp
  qed
qed

text \<open>
  Products of the matrix can leave the range of an \<open>int\<close>: here the coefficient 1666666666 meets
  a denominator of 3.
\<close>

lemma ratio_overflows:
  "lcec_cia402_decode_ratio_modparam (\<lambda>x. x) ''0.6666666666'' 1073741824 = Some (Inl IntOverflow)"
proof -
  have "atof ''0.6666666666'' = 6666666666 / 10000000000" by code_simp
  then have a: "atof ''0.6666666666'' = 3333333333 / 5000000000" by simp
  have f: "\<lfloor>(3333333333 / 5000000000 :: real)\<rfloor> = 0" "\<lfloor>(5000000000 / 3333333333 :: real)\<rfloor> = 1"
    "\<lfloor>(3333333333 / 1666666667 :: real)\<rfloor> = 1" "\<lfloor>(1666666667 / 1666666666 :: real)\<rfloor> = 1" by (simp_all add: floor_eq_iff)
  show ?thesis
    by (simp add: lcec_cia402_decode_ratio_modparam_def find_char_def a c_s32_of_pos f ratio_loop.simps in_s32_def)
qed

text \<open>A negative number gets a negative denominator, which the unsigned field of the result takes modulo \<open>2^32\<close>.\<close>

lemma ratio_negative:
  "lcec_cia402_decode_ratio_modparam (\<lambda>x. x) ''-2.5'' 16384 = Some (Inr (5, 4294967294))"
proof -
  have "atof ''-2.5'' = - 25 / 10" by code_simp
  then have a: "atof ''-2.5'' = - 5 / 2" by simp
  have f: "\<lceil>(- 5 / 2 :: real)\<rceil> = -2" by (simp add: ceiling_eq_iff)
  show ?thesis
    by (simp add: lcec_cia402_decode_ratio_modparam_def find_char_def a c_s32_of_def c_trunc_def f ratio_loop.simps in_s32_def)
qed

end
