(* ===== verification/CiaParams.thy ===== *)
theory CiaParams
  imports Cia402 CiaRatio
begin

text \<open>
  The module parameters of CiA 402 devices (\<open>devices/lcec_class_cia402.c\<close>): the table of a
  device's parameters, one version per channel with the channel in the low three bits of the
  number, and the handler that takes the number apart again and writes SDOs or sets options.
\<close>

section \<open>The tables\<close>

definition mp_row :: "string \<Rightarrow> int \<Rightarrow> modparam_type \<Rightarrow> modparam_desc" where
  "mp_row name i ty = \<lparr>md_name = name, md_id = i, md_type = ty, md_config_value = None, md_config_comment = None\<rparr>"

definition CIA402_MP_BASE :: int where "CIA402_MP_BASE = 0x1000"

definition CIA402_MP_ZERO_BASED_AXIS_NAMES :: int where "CIA402_MP_ZERO_BASED_AXIS_NAMES = 0x3000"

definition config_modparams :: "modparam_desc list" where
  "config_modparams =
     [mp_row ''positionLimitMin'' 0x1000 MODPARAM_TYPE_S32,
      mp_row ''positionLimitMax'' 0x1010 MODPARAM_TYPE_S32,
      mp_row ''swPositionLimitMin'' 0x1020 MODPARAM_TYPE_S32,
      mp_row ''swPositionLimitMax'' 0x1030 MODPARAM_TYPE_S32,
      mp_row ''homeOffset'' 0x1040 MODPARAM_TYPE_S32,
      mp_row ''homeMethod'' 0x1280 MODPARAM_TYPE_S32,
      mp_row ''quickDecel'' 0x10b0 MODPARAM_TYPE_U32,
      mp_row ''quickStopOptionCode'' 0x10c0 MODPARAM_TYPE_S32,
      mp_row ''positioningOptionCode'' 0x1240 MODPARAM_TYPE_S32,
      mp_row ''connectionOptionCode'' 0x1250 MODPARAM_TYPE_S32,
      mp_row ''shutdownOptionCode'' 0x10d0 MODPARAM_TYPE_S32,
      mp_row ''disableOptionCode'' 0x10e0 MODPARAM_TYPE_S32,
      mp_row ''haltOptionCode'' 0x10f0 MODPARAM_TYPE_S32,
      mp_row ''faultOptionCode'' 0x1100 MODPARAM_TYPE_S32,
      mp_row ''probeFunction'' 0x1150 MODPARAM_TYPE_U32,
      mp_row ''probe1Positive'' 0x1160 MODPARAM_TYPE_S32,
      mp_row ''probe1Negative'' 0x1170 MODPARAM_TYPE_S32,
      mp_row ''probe2Positive'' 0x1180 MODPARAM_TYPE_S32,
      mp_row ''probe2Negative'' 0x1190 MODPARAM_TYPE_S32,
      mp_row ''digitalInChannels'' 0x11a0 MODPARAM_TYPE_U32,
      mp_row ''digitalOutChannels'' 0x11b0 MODPARAM_TYPE_U32,
      mp_row ''vlQuickStopRatio'' 0x11c0 MODPARAM_TYPE_STRING,
      mp_row ''vlSetPoint'' 0x11d0 MODPARAM_TYPE_STRING,
      mp_row ''vlDimensionFactor'' 0x11e0 MODPARAM_TYPE_STRING,
      mp_row ''encoderRatio'' 0x11f0 MODPARAM_TYPE_STRING,
      mp_row ''velEncoderRatio'' 0x1200 MODPARAM_TYPE_STRING,
      mp_row ''gearRatio'' 0x1210 MODPARAM_TYPE_STRING,
      mp_row ''feedRatio'' 0x1220 MODPARAM_TYPE_STRING,
      mp_row ''eGearRatio'' 0x1230 MODPARAM_TYPE_STRING,
      mp_row ''vlAccel'' 0x1260 MODPARAM_TYPE_STRING,
      mp_row ''vlDecel'' 0x1270 MODPARAM_TYPE_STRING]"

definition per_channel_modparams :: "modparam_desc list" where
  "per_channel_modparams =
     config_modparams @
     map (\<lambda>n. mp_row (paste PDO_MP_NAME n) (paste CIA402_MP_ENABLE n) MODPARAM_TYPE_BIT) FOR_ALL_OPTS"

definition cia402_base_modparams :: "modparam_desc list" where
  "cia402_base_modparams = [mp_row ''zeroBasedAxisNames'' CIA402_MP_ZERO_BASED_AXIS_NAMES MODPARAM_TYPE_BIT]"

text \<open>
  Every row of the table gives a row of its own and one per channel, or one of the two: the
  array is filled row by row, which the list has in the same order.
\<close>

definition channel_row :: "modparam_desc \<Rightarrow> nat \<Rightarrow> modparam_desc" where
  "channel_row m i = m\<lparr>md_name := ''ch'' @ show_int (int i + 1) @ md_name m, md_id := md_id m + int i\<rparr>"

definition lcec_cia402_channelized_modparams :: "modparam_desc list \<Rightarrow> nat \<Rightarrow> modparam_desc list" where
  "lcec_cia402_channelized_modparams orig count =
     (let (originals, duplicates) =
            (if count = 1 then (True, 0) else if count < CIA402_MAX_CHANNELS then (False, count) else (True, count))
      in concat (map (\<lambda>m. (if originals then [m] else []) @ map (channel_row m) [0..<duplicates]) orig))"

definition lcec_cia402_modparams ::
    "nat \<Rightarrow> modparam_desc list option \<Rightarrow> modparam_desc list option \<Rightarrow> modparam_doc list option \<Rightarrow> modparam_doc list option \<Rightarrow>
     modparam_error + modparam_desc list" where
  "lcec_cia402_modparams channels device_channelized device_base channelized_docs base_docs =
     bind_res (lcec_modparam_desc_concat (Some per_channel_modparams) device_channelized) (\<lambda>pre.
     let channelized = lcec_cia402_channelized_modparams (lcec_modparam_desc_merge_docs (Some pre) channelized_docs) channels in
     bind_res (lcec_modparam_desc_concat (Some channelized) (Some cia402_base_modparams)) (\<lambda>with_base.
     bind_res (lcec_modparam_desc_concat (Some with_base) device_base) (\<lambda>all_mps.
       Inr (lcec_modparam_desc_merge_docs (Some all_mps) base_docs))))"

section \<open>The handler\<close>

datatype cia_sdo_kind = S8 | S16 | U16 | S32 | U32

text \<open>The parameters that are written as they are: number, kind, offset and subindex.\<close>

definition sdo_modparams :: "(int \<times> cia_sdo_kind \<times> int \<times> u8) list" where
  "sdo_modparams =
     [(0x1000, S32, 0x7b, 1), (0x1010, S32, 0x7b, 2), (0x1020, S32, 0x7d, 1), (0x1030, S32, 0x7d, 2),
      (0x1040, S32, 0x7c, 0), (0x1280, S8, 0x98, 0), (0x10b0, U32, 0x85, 0), (0x10c0, S16, 0x5a, 0),
      (0x10d0, S16, 0x5b, 0), (0x10e0, S16, 0x5c, 0), (0x10f0, S16, 0x5d, 0), (0x1100, S16, 0x5e, 0),
      (0x1240, S16, 0xf2, 0), (0x1250, S16, 0x7, 0), (0x1150, U16, 0xb8, 0), (0x1160, U32, 0xba, 0),
      (0x1170, U32, 0xbb, 0), (0x1180, U32, 0xbc, 0), (0x1190, U32, 0xbd, 0)]"

text \<open>The ratios: number, offset, largest denominator, and the widths of the two halves.\<close>

definition ratio_modparams :: "(int \<times> int \<times> int \<times> nat \<times> nat) list" where
  "ratio_modparams =
     [(0x11c0, 0x4a, 2 ^ 14, 32, 16), (0x11d0, 0x4b, 2 ^ 14, 16, 16), (0x11e0, 0x4c, 2 ^ 30, 32, 32),
      (0x11f0, 0x8f, 2 ^ 30, 32, 32), (0x1200, 0x90, 2 ^ 30, 32, 32), (0x1210, 0x91, 2 ^ 30, 32, 32),
      (0x1220, 0x92, 2 ^ 30, 32, 32), (0x1230, 0x93, 2 ^ 30, 32, 32), (0x1260, 0x48, 2 ^ 30, 32, 16),
      (0x1270, 0x49, 2 ^ 30, 32, 16)]"

text \<open>The union of a parameter's value, read as one of its members.\<close>

fun mp_s32 :: "modparam_val \<Rightarrow> int" where
  "mp_s32 (MpS32 i) = i"
| "mp_s32 (MpU32 w) = sint w"
| "mp_s32 _ = 0"

fun mp_bit :: "modparam_val \<Rightarrow> bool" where "mp_bit (MpBit b) = b" | "mp_bit _ = False"
fun mp_str :: "modparam_val \<Rightarrow> string" where "mp_str (MpStr s) = s" | "mp_str _ = []"

definition write_sdo_modparam ::
    "ec_macros \<Rightarrow> sdo_env \<Rightarrow> lcec_slave \<Rightarrow> nat \<Rightarrow> int \<Rightarrow> u8 \<Rightarrow> int \<Rightarrow> sdo_call list \<times> int" where
  "write_sdo_modparam ec env s width index sidx v =
     (if width = 8 then lcec_write_sdo8_modparam env s (word_of_int index) sidx (word_of_int v)
      else if width = 16 then lcec_write_sdo16_modparam ec env s (word_of_int index) sidx (word_of_int v)
      else lcec_write_sdo32_modparam ec env s (word_of_int index) sidx (word_of_int v))"

fun sdo_width :: "cia_sdo_kind \<Rightarrow> nat" where
  "sdo_width S8 = 8" | "sdo_width S16 = 16" | "sdo_width U16 = 16" | "sdo_width S32 = 32" | "sdo_width U32 = 32"

definition set_channel :: "nat \<Rightarrow> (cia_channel_options \<Rightarrow> cia_channel_options) \<Rightarrow> cia_options \<Rightarrow> cia_options" where
  "set_channel c f opt = opt\<lparr>cg_channel := (cg_channel opt)[c := f (cg_channel opt ! c)]\<rparr>"

text \<open>
  The calls made, the return value and the options. What is undefined inside the decoder of
  ratios makes the whole undefined.
\<close>

definition lcec_cia402_handle_modparam ::
    "ec_macros \<Rightarrow> sdo_env \<Rightarrow> (real \<Rightarrow> real) \<Rightarrow> lcec_slave \<Rightarrow> slave_modparam \<Rightarrow> cia_options \<Rightarrow>
     (sdo_call list \<times> int \<times> cia_options) option" where
  "lcec_cia402_handle_modparam ec env rnd s p opt =
     (if smp_id p < CIA402_MP_BASE then Some ([], 0, opt)
      else if smp_id p = CIA402_MP_ZERO_BASED_AXIS_NAMES
      then Some ([], 0, opt\<lparr>cg_zero_based_axis_names := mp_bit (smp_value p)\<rparr>)
      else
        let channel = nat (smp_id p mod 8); i = smp_id p - smp_id p mod 8; base = 0x6000 + 0x800 * int channel in
        case map_of sdo_modparams i of
          Some (k, off, sidx) \<Rightarrow>
            (case write_sdo_modparam ec env s (sdo_width k) (base + off) sidx (mp_s32 (smp_value p)) of
               (cs, r) \<Rightarrow> Some (cs, r, opt))
        | None \<Rightarrow>
            (case find (\<lambda>(n, k). k = i) CIA402_MP_ENABLE of
               Some (n, _) \<Rightarrow>
                 Some ([], 0, set_channel channel (\<lambda>c. c\<lparr>cp_enable := (cp_enable c)(n := mp_bit (smp_value p))\<rparr>) opt)
             | None \<Rightarrow>
                 if i = 0x11a0 then
                   Some ([], 0, set_channel channel (\<lambda>c. c\<lparr>cp_digital_in_channels := mp_s32 (smp_value p)\<rparr>) opt)
                 else if i = 0x11b0 then
                   Some ([], 0, set_channel channel (\<lambda>c. c\<lparr>cp_digital_out_channels := mp_s32 (smp_value p)\<rparr>) opt)
                 else
                   case map_of ratio_modparams i of
                     None \<Rightarrow> Some ([], 1, opt)
                   | Some (off, mx, wn, wd) \<Rightarrow>
                       (case lcec_cia402_decode_ratio_modparam rnd (mp_str (smp_value p)) mx of
                          Some (Inr (num, den)) \<Rightarrow>
                            let (cs1, _) = write_sdo_modparam ec env s wn (base + off) 1 num;
                                (cs2, _) = write_sdo_modparam ec env s wd (base + off) 2 (uint den)
                            in Some (cs1 @ cs2, 0, opt)
                        | _ \<Rightarrow> None)))"

section \<open>Names and numbers agree\<close>

text \<open>A number with the channel in its low bits is taken apart into the original and the channel.\<close>

lemma id_parts:
  assumes "m mod 8 = 0" and "i < 8"
  shows "nat ((m + int i) mod 8) = i \<and> (m + int i) - (m + int i) mod 8 = m"
proof -
  have "(m + int i) mod 8 = (m mod 8 + int i) mod 8" by (simp add: mod_add_left_eq)
  then have "(m + int i) mod 8 = int i" using assms by simp
  then show ?thesis by simp
qed

lemma config_ids: "list_all (\<lambda>m. md_id m mod 8 = 0 \<and> 4096 \<le> md_id m \<and> md_id m < 12288) config_modparams"
  by (simp add: config_modparams_def mp_row_def)

lemma opts_ids: "set FOR_ALL_OPTS \<subseteq> fst ` set CIA402_MP_ENABLE"
  by (simp only: FOR_ALL_OPTS_def CIA402_MP_ENABLE_def list.set image_insert image_empty fst_conv insert_subset empty_subsetI simp_thms)
    (intro conjI; (rule insertI1 | rule insertI2)+)

lemma per_channel_ids: "m \<in> set per_channel_modparams \<Longrightarrow> md_id m mod 8 = 0 \<and> 4096 \<le> md_id m \<and> md_id m < 12288"
proof -
  assume m: "m \<in> set per_channel_modparams"
  have "md_id m mod 8 = 0 \<and> 4096 \<le> md_id m \<and> md_id m < 12288" if n: "n \<in> set FOR_ALL_OPTS" "m = mp_row (paste PDO_MP_NAME n) (paste CIA402_MP_ENABLE n) MODPARAM_TYPE_BIT" for n
  proof -
    have "n \<in> fst ` set CIA402_MP_ENABLE" using opts_ids n(1) by (rule subsetD)
    then obtain i where i: "map_of CIA402_MP_ENABLE n = Some i" by (metis map_of_eq_None_iff not_Some_eq)
    then have "(n, i) \<in> set CIA402_MP_ENABLE" by (rule map_of_SomeD)
    then have "4096 \<le> i \<and> i < 12288 \<and> i mod 8 = 0" using cia_enable_ids by (auto simp: list_all_iff)
    then show ?thesis using i n(2) by (simp add: mp_row_def paste_def)
  qed
  then show ?thesis using m config_ids by (auto simp: per_channel_modparams_def list_all_iff)
qed

text \<open>
  A row of the table for several channels stands for one original parameter of one channel, and
  its number is taken apart into the two.
\<close>

lemma channelized_row:
  assumes "r \<in> set (lcec_cia402_channelized_modparams orig count)" and "count \<le> 8" and "\<forall>m\<in>set orig. md_id m mod 8 = 0"
  shows "\<exists>m\<in>set orig. \<exists>c < max 1 count. (md_name r = md_name m \<and> c = 0 \<or> md_name r = ''ch'' @ show_int (int c + 1) @ md_name m) \<and>
    nat (md_id r mod 8) = c \<and> md_id r - md_id r mod 8 = md_id m"
proof -
  obtain originals duplicates m where
    od: "(originals, duplicates) = (if count = 1 then (True, 0) else if count < CIA402_MAX_CHANNELS then (False, count) else (True, count))"
    and m: "m \<in> set orig" and r': "r \<in> set ((if originals then [m] else []) @ map (channel_row m) [0..<duplicates])"
    using assms(1) unfolding lcec_cia402_channelized_modparams_def Let_def by (auto split: if_splits)
  have "duplicates \<le> count" using od by (simp split: if_splits)
  moreover have "r = m \<or> (\<exists>i < duplicates. r = channel_row m i)" using r' by (cases originals) auto
  ultimately have r: "r = m \<or> (\<exists>i < count. r = channel_row m i)" using less_le_trans by blast
  from r show ?thesis
  proof
    assume "r = m"
    then have "md_name r = md_name m \<and> nat (md_id r mod 8) = 0 \<and> md_id r - md_id r mod 8 = md_id m" using m assms(3) by simp
    then show ?thesis using m by (intro bexI [of _ m] exI [of _ 0]) auto
  next
    assume "\<exists>i < count. r = channel_row m i"
    then obtain i where i: "i < count" "r = channel_row m i" by blast
    have "nat (md_id r mod 8) = i \<and> md_id r - md_id r mod 8 = md_id m"
      using id_parts [of "md_id m" i] m assms(2,3) i by (simp add: channel_row_def)
    then show ?thesis using m i by (intro bexI [of _ m] exI [of _ i]) (auto simp: channel_row_def)
  qed
qed

end
