(* ===== verification/SamplesDev.thy ===== *)
theory SamplesDev
  imports SamplesBus EncDev CiaMapped CiaParams
begin

text \<open>Inputs for the device classes: an encoder, digital and analog channels, a CiA 402 drive.\<close>

section \<open>Encoder\<close>

definition sample_hal :: hal_env where
  "sample_hal = \<lparr>he_name_len = 47, he_new = (\<lambda>_ _ _ _. 0)\<rparr>"

definition sample_enc :: enc_data where
  "sample_enc =
     \<lparr>en_raw_home = 0, en_raw_bits = 0, en_pprev_scale = 0, en_raw = 0, en_ext_lo = 1020, en_ext_hi = 0, en_ref_lo = 0,
      en_ref_hi = 0, en_index_ena = False, en_pos_reset = False, en_pos_enc = 0, en_pos_abs = 0, en_pos = 0,
      en_on_home_neg = False, en_on_home_pos = False, en_do_init = False, en_raw_shift = 0, en_raw_mask = 0,
      en_pprev_last = 0, en_index_sign = 0\<rparr>"

text \<open>A cycle of an encoder with 1000 counts per revolution, whose index the user asks for.\<close>

definition sample_count :: "u32 \<Rightarrow> (enc_data \<Rightarrow> enc_data) \<times> enc_in" where
  "sample_count w = (\<lambda>d. d\<lparr>en_index_ena := True\<rparr>,
     \<lparr>ei_pprev = 1000, ei_scale = 2, ei_raw = w, ei_ext_latch_raw = 0, ei_ext_latch_ena = False\<rparr>)"

lemma sample_count_inputs [simp]: "enc_inputs (fst (sample_count w))"
proof -
  have "d\<lparr>en_index_ena := True\<rparr> = d\<lparr>en_index_ena := True, en_pos_reset := en_pos_reset d, en_raw_home := en_raw_home d\<rparr>" for d :: enc_data
    by simp
  then show ?thesis unfolding enc_inputs_def sample_count_def fst_conv by blast
qed

lemma sample_count_raw [simp]: "ei_raw (snd (sample_count w)) = w" "snd (sample_count w) =
     \<lparr>ei_pprev = 1000, ei_scale = 2, ei_raw = w, ei_ext_latch_raw = 0, ei_ext_latch_ena = False\<rparr>"
  by (simp_all add: sample_count_def)

lemma sample_enc_init:
  "\<exists>d objs. class_enc_init sample_hal ''0'' ''enc'' (int 8) ''enc'' sample_enc [] = Some (0, d, objs)"
proof -
  have "case class_enc_init sample_hal ''0'' ''enc'' 8 ''enc'' sample_enc [] of Some (e, d, objs) \<Rightarrow> e = 0 | None \<Rightarrow> False"
    by code_simp
  then show ?thesis by (auto split: option.splits)
qed

text \<open>Two cycles that cross a multiple of 1000 from above: the second finds the index.\<close>

definition sample_enc_start :: enc_data where
  "sample_enc_start = (case class_enc_init sample_hal ''0'' ''enc'' 8 ''enc'' sample_enc [] of Some (e, d, objs) \<Rightarrow> d)"

lemma sample_enc_start: "\<exists>objs. class_enc_init sample_hal ''0'' ''enc'' (int 8) ''enc'' sample_enc [] = Some (0, sample_enc_start, objs)"
  using sample_enc_init by (auto simp: sample_enc_start_def)

lemma sample_enc_cycles:
  "case enc_run (\<lambda>x. x) [sample_count 252] sample_enc_start of None \<Rightarrow> False
   | Some d \<Rightarrow> en_index_ena d \<and> \<not> en_pos_reset d \<and>
     (case class_enc_update (\<lambda>x. x) (snd (sample_count 222)) d of None \<Rightarrow> False
      | Some d' \<Rightarrow> enc_home_pos 8 d' = 990 \<and> \<not> en_index_ena d')"
  by code_simp

section \<open>Digital and analog channels\<close>

definition sample_dout :: "nat \<Rightarrow> bool \<Rightarrow> bool \<Rightarrow> dout_channel option" where
  "sample_dout k v i = Some (zero_dout\<lparr>do_out := v, do_invert := i, do_pdo_os := 1, do_pdo_bp_packed := of_nat k\<rparr>)"

definition sample_din :: "nat \<Rightarrow> din_channel option" where
  "sample_din k = Some (zero_din\<lparr>di_pdo_os := 1, di_pdo_bp_packed := of_nat k\<rparr>)"

definition sample_aout :: "nat \<Rightarrow> real \<Rightarrow> aout_channel option" where
  "sample_aout os v = Some ((aout_data (\<lambda>x. x) None)\<lparr>ax_enable := True, ax_value := v, ax_val_pdo_os := of_nat os\<rparr>)"

section \<open>A drive with the default options\<close>

lemma sample_cia_enabled: "lcec_cia402_enabled lcec_cia402_channel_options n \<longleftrightarrow> n = ''opmode'' \<or> n = ''opmode_display''"
proof -
  have e: "cp_enable lcec_cia402_channel_options = (\<lambda>n. n = ''opmode'')" by (simp add: lcec_cia402_channel_options_def)
  have "list_ex (\<lambda>(mode, ns). mode = ''opmode'' \<and> n \<in> set ns) mode_objects \<longleftrightarrow> n = ''opmode'' \<or> n = ''opmode_display''"
    by (simp add: mode_objects_def)
  then show ?thesis by (auto simp: lcec_cia402_enabled_def e)
qed

lemma sample_cia_objects:
  "filter (lcec_cia402_enabled lcec_cia402_channel_options) (FOR_ALL_WRITE_PDOS @ [''digital_output'']) = [''opmode'']"
  "filter (lcec_cia402_enabled lcec_cia402_channel_options) (FOR_ALL_READ_PDOS @ [''digital_input'']) = [''opmode_display'']"
  "filter (lcec_cia402_enabled lcec_cia402_channel_options) (FOR_ALL_WRITE_PDOS @ FOR_ALL_WRITE_SDOS) = [''opmode'']"
  "filter (lcec_cia402_enabled lcec_cia402_channel_options) FOR_ALL_READ_PDOS = [''opmode_display'']"
  "filter (lcec_cia402_enabled lcec_cia402_channel_options) (FOR_ALL_READ_PDOS @ FOR_ALL_WRITE_PDOS) = [''opmode_display'', ''opmode'']"
  by (simp_all add: sample_cia_enabled FOR_ALL_WRITE_PDOS_def FOR_ALL_READ_PDOS_def FOR_ALL_WRITE_SDOS_def)

lemma sample_cia_paste:
  "paste PDO_IDX_OFFSET ''opmode'' = 0x60" "paste PDO_SIDX ''opmode'' = 0" "paste PDO_BITS ''opmode'' = 8"
  "paste PDO_IDX_OFFSET ''opmode_display'' = 0x61" "paste PDO_SIDX ''opmode_display'' = 0" "paste PDO_BITS ''opmode_display'' = 8"
  by (simp_all add: paste_def PDO_IDX_OFFSET_def PDO_SIDX_def PDO_BITS_def)

lemma sample_cia_options:
  "cg_channels lcec_cia402_options = 1" "cg_channel lcec_cia402_options ! 0 = lcec_cia402_channel_options"
  "cg_pdo_increment lcec_cia402_options = 1" "cg_rxpdolimit lcec_cia402_options = 0" "cg_txpdolimit lcec_cia402_options = 0"
  "\<not> cg_pdo_autoflow lcec_cia402_options" "length (cg_channel lcec_cia402_options) = 8"
  by (simp_all add: lcec_cia402_options_def CIA402_MAX_CHANNELS_def)

lemma sample_cia_calls:
  "cia_output_calls lcec_cia402_options 0 = [AddPdo 0x1600, AddEntry 0x6040 0 16, AddEntry 0x6060 0 8]"
  "cia_input_calls lcec_cia402_options 0 = [AddPdo 0x1a00, AddEntry 0x6041 0 16, AddEntry 0x6061 0 8]"
  by (simp_all add: cia_output_calls_def cia_input_calls_def cia_map_pdos_def sample_cia_options sample_cia_objects sample_cia_paste cia_offset_def Let_def
        del: filter_append)

definition sample_cia_sequence :: "sync_call list list" where
  "sample_cia_sequence =
     [[AddSync EC_DIR_OUTPUT EC_WD_DEFAULT, AddSync EC_DIR_INPUT EC_WD_DEFAULT], [AddSync EC_DIR_OUTPUT EC_WD_DEFAULT],
      [AddPdo 0x1600, AddEntry 0x6040 0 16, AddEntry 0x6060 0 8], [AddEntry 0x2000 1 32], [AddSync EC_DIR_INPUT EC_WD_DEFAULT],
      [AddPdo 0x1a00, AddEntry 0x6041 0 16, AddEntry 0x6061 0 8]]"

lemma sample_cia_build:
  "case sync_build (concat sample_cia_sequence) lcec_syncs_init of Inl e \<Rightarrow> False | Inr s \<Rightarrow> \<not> sy_error s"
  by code_simp

lemma sync_build_nil: "sync_build [] s = Inr s"
  by (simp add: sync_build_def)

lemma sample_cia_syncs:
  "\<exists>s0 s1 s2 s3. lcec_cia402_init_sync lcec_cia402_options = Inr s0 \<and> lcec_cia402_add_output_sync lcec_cia402_options s0 = Inr (0, s1) \<and>
     sync_build [AddEntry 0x2000 1 32] s1 = Inr s2 \<and> lcec_cia402_add_input_sync lcec_cia402_options s2 = Inr (0, s3) \<and> \<not> sy_error s3"
proof -
  obtain s where s: "sync_build (concat sample_cia_sequence) lcec_syncs_init = Inr s" "\<not> sy_error s"
    using sample_cia_build by (auto split: sum.splits)
  have r: "[0..<nat (cg_channels lcec_cia402_options)] = [0]" by (simp add: sample_cia_options)
  show ?thesis
    using s unfolding sample_cia_sequence_def concat.simps sync_build_append lcec_cia402_init_sync_def lcec_cia402_add_output_sync_def
      lcec_cia402_add_input_sync_def r
    by (auto simp: sample_cia_options sample_cia_calls sync_build_nil elim!: bind_res_InrE)
qed

definition sample_drive :: lcec_slave where
  "sample_drive = sample_slave\<lparr>sl_name := ''x1'', sl_regs := Some (lcec_allocate_pdo_entry_reg LCEC_MAX_PDO_REG_COUNT)\<rparr>"

definition sample_loc :: cia_loc where "sample_loc n i = length n + i"

lemma sample_cia_regs:
  "cia_pdo_regs (lcec_cia402_enabled lcec_cia402_channel_options) 0x6000 sample_loc =
     [(0x6040, 0, 11), (0x6041, 0, 10), (0x6061, 0, 14), (0x6060, 0, 6)]"
  by (simp add: cia_pdo_regs_def sample_cia_objects sample_cia_paste sample_loc_def del: filter_append)

lemma sample_drive_regs: "sl_regs sample_drive = Some (lcec_allocate_pdo_entry_reg LCEC_MAX_PDO_REG_COUNT)"
  by (simp add: sample_drive_def)

definition sample_cia_pdos :: "(u16 \<times> u16 \<times> nat) list" where
  "sample_cia_pdos = [(0x6040, 0, 11), (0x6041, 0, 10), (0x6061, 0, 14), (0x6060, 0, 6)]"

definition sample_cia_args :: "fmt_arg list" where
  "sample_cia_args = [FStr ''lcec'', FStr ''0'', FStr ''x1'', FStr ''srv'']"

definition sample_cia_tables :: "pindesc list list" where
  "sample_cia_tables =
     [[pin_row HAL_S32 HAL_OUT ''opmode_display'' ''%s.%s.%s.%s-opmode-display'', pin_end],
      [pin_row HAL_S32 HAL_IN ''opmode'' ''%s.%s.%s.%s-opmode'', pin_end]]"

lemma sample_cia_tables: "[optional_pin HAL_OUT ''opmode_display'', optional_pin HAL_IN ''opmode''] = sample_cia_tables"
  by (simp add: sample_cia_tables_def optional_pin_def paste_def PDO_PIN_TYPE_def PDO_PIN_NAME_def)

lemma sample_cia_parts:
  "case register_pdos sample_cia_pdos sample_drive of None \<Rightarrow> False | Some s \<Rightarrow> sl_name s = ''x1''"
  "case lcec_pin_newf_list sample_hal cia_pins_required sample_cia_args [] of None \<Rightarrow> False
   | Some (e, objs) \<Rightarrow> e = 0 \<and> (case export_pins sample_hal sample_cia_args sample_cia_tables objs of Some (e, objs) \<Rightarrow> e = 0 | None \<Rightarrow> False)"
  by code_simp+

lemma sample_cia_channel:
  "\<exists>d s objs. lcec_cia402_register_channel le_macros sample_hal sample_sdo_env (\<lambda>_. []) ''0'' sample_drive 0x6000
     (Some lcec_cia402_channel_options) sample_loc [] = Some (Some d, s, objs)"
proof -
  obtain s1 objs1 objs2 where p: "register_pdos sample_cia_pdos sample_drive = Some s1"
    "lcec_pin_newf_list sample_hal cia_pins_required sample_cia_args [] = Some (0, objs1)"
    "export_pins sample_hal sample_cia_args sample_cia_tables objs1 = Some (0, objs2)"
    using sample_cia_parts by (auto split: option.splits prod.splits)
  have a: "chan_args ''0'' sample_drive ''srv'' = sample_cia_args"
    by (simp add: chan_args_def sample_drive_def sample_cia_args_def LCEC_MODULE_NAME_def)
  have n: "cp_name_prefix lcec_cia402_channel_options = None" by (simp add: lcec_cia402_channel_options_def)
  have d: "cc_enabled (zero_cia_channel 0x6000 lcec_cia402_channel_options) = lcec_cia402_enabled lcec_cia402_channel_options"
    by (simp add: zero_cia_channel_def)
  have dig: "\<not> lcec_cia402_enabled lcec_cia402_channel_options ''digital_input''" "\<not> lcec_cia402_enabled lcec_cia402_channel_options ''digital_output''"
    by (simp_all add: sample_cia_enabled)
  have t: "map (optional_pin HAL_OUT) (filter (lcec_cia402_enabled lcec_cia402_channel_options) FOR_ALL_READ_PDOS) @
      map (optional_pin HAL_IN) (filter (lcec_cia402_enabled lcec_cia402_channel_options) (FOR_ALL_WRITE_PDOS @ FOR_ALL_WRITE_SDOS)) = sample_cia_tables"
    unfolding sample_cia_objects sample_cia_tables [symmetric] by simp
  show ?thesis
    unfolding lcec_cia402_register_channel_def option.case n d a t Let_def sample_cia_regs sample_cia_pdos_def [symmetric] if_not_P [OF dig(1)] if_not_P [OF dig(2)]
    by (simp add: p a)
qed

end
