(* ===== verification/DriverBase.thy ===== *)
theory DriverBase
  imports ChannelAnalog "HOL-Library.Monad_Syntax"
begin

text \<open>
  What the device drivers share: the static tables of sync managers a driver hands to the
  EtherCAT master, the list of entries its init function registers, and the access to the
  process data at the positions of the entries. The member of a driver's structure that holds a
  position is a number; channel \<open>i\<close> of a driver has the numbers from \<open>64 * i\<close>.
\<close>

definition EIO :: int where "EIO = 5"

section \<open>Static tables\<close>

text \<open>
  A table has the counts the code writes and the arrays they belong to; the list of sync
  managers ends at the index 255.
\<close>

record static_pdo =
  tp_index :: u16
  tp_n_entries :: nat
  tp_entries :: "pdo_entry_info list"

record static_sync =
  ts_index :: u8
  ts_dir :: ec_direction
  ts_n_pdos :: nat
  ts_pdos :: "static_pdo list"

definition entry :: "u16 \<Rightarrow> u8 \<Rightarrow> u8 \<Rightarrow> pdo_entry_info" where
  "entry idx sidx bits = \<lparr>ei_index = idx, ei_subindex = sidx, ei_bit_length = bits\<rparr>"

definition spdo :: "u16 \<Rightarrow> nat \<Rightarrow> pdo_entry_info list \<Rightarrow> static_pdo" where
  "spdo idx n es = \<lparr>tp_index = idx, tp_n_entries = n, tp_entries = es\<rparr>"

definition ssync :: "u8 \<Rightarrow> ec_direction \<Rightarrow> nat \<Rightarrow> static_pdo list \<Rightarrow> static_sync" where
  "ssync idx dir n ps = \<lparr>ts_index = idx, ts_dir = dir, ts_n_pdos = n, ts_pdos = ps\<rparr>"

definition ssync_end :: static_sync where "ssync_end = ssync 0xff EC_DIR_OUTPUT 0 []"

text \<open>The sync managers before the end; \<open>None\<close> when the array has no end.\<close>

fun used_syncs :: "static_sync list \<Rightarrow> static_sync list option" where
  "used_syncs [] = None"
| "used_syncs (s # ss) = (if ts_index s = 0xff then Some [] else map_option ((#) s) (used_syncs ss))"

text \<open>No count is larger than its array, so whoever reads the table stays inside the arrays.\<close>

definition table_ok :: "static_sync list \<Rightarrow> bool" where
  "table_ok ss \<longleftrightarrow>
     (case used_syncs ss of None \<Rightarrow> False
      | Some us \<Rightarrow> list_all (\<lambda>s. ts_n_pdos s = length (ts_pdos s) \<and>
                     list_all (\<lambda>p. tp_n_entries p = length (tp_entries p)) (ts_pdos s)) us)"

text \<open>
  The entries of the PDOs of a sync manager follow each other bit by bit. An entry's place is the
  index of its sync manager, the direction, its first bit in the data of the sync manager, and
  its length; its key is made of index and subindex, and entries with index 0 are gaps.
\<close>

fun find_key :: "(nat \<times> 'a) list \<Rightarrow> nat \<Rightarrow> 'a option" where
  "find_key [] k = None"
| "find_key ((j, v) # xs) k = (if k = j then Some v else find_key xs k)"

lemma find_key_SomeD: "find_key xs k = Some v \<Longrightarrow> (k, v) \<in> set xs"
  by (induction xs k rule: find_key.induct) (auto split: if_splits)

text \<open>A congruence rule that keeps the simplifier out of the list, so that a lookup costs its comparisons.\<close>

lemma find_key_cong: "k = k' \<Longrightarrow> find_key xs k = find_key xs k'"
  by simp

definition entry_key :: "u16 \<Rightarrow> u8 \<Rightarrow> nat" where
  "entry_key idx sidx = 256 * unat idx + unat sidx"

type_synonym place = "u8 \<times> ec_direction \<times> nat \<times> nat"

fun entry_places :: "u8 \<Rightarrow> ec_direction \<Rightarrow> nat \<Rightarrow> pdo_entry_info list \<Rightarrow> (nat \<times> place) list" where
  "entry_places sm dir off [] = []"
| "entry_places sm dir off (e # es) =
     (entry_key (ei_index e) (ei_subindex e), (sm, dir, off, unat (ei_bit_length e))) # entry_places sm dir (off + unat (ei_bit_length e)) es"

definition sync_places :: "static_sync \<Rightarrow> (nat \<times> place) list" where
  "sync_places s =
     filter (\<lambda>(key, _). 256 \<le> key)
       (entry_places (ts_index s) (ts_dir s) 0
          (concat (map (\<lambda>p. take (tp_n_entries p) (tp_entries p)) (take (ts_n_pdos s) (ts_pdos s)))))"

definition table_places :: "static_sync list \<Rightarrow> (nat \<times> place) list" where
  "table_places ss = (case used_syncs ss of None \<Rightarrow> [] | Some us \<Rightarrow> concat (map sync_places us))"

section \<open>Registration\<close>

text \<open>
  One call of \<open>lcec_pdo_init\<close>: the entry, the member for its byte offset, and the member for its
  bit position or \<open>None\<close> for a \<open>NULL\<close>.
\<close>

type_synonym pdo_row = "(u16 \<times> u8) \<times> nat \<times> nat option"

definition row_key :: "pdo_row \<Rightarrow> nat" where "row_key r = entry_key (fst (fst r)) (snd (fst r))"

definition bit_row :: "u16 \<Rightarrow> u8 \<Rightarrow> nat \<Rightarrow> pdo_row" where "bit_row idx sidx k = ((idx, sidx), k, Some k)"
definition word_row :: "u16 \<Rightarrow> u8 \<Rightarrow> nat \<Rightarrow> pdo_row" where "word_row idx sidx k = ((idx, sidx), k, None)"

fun pdo_init_rows :: "pdo_row list \<Rightarrow> lcec_slave \<Rightarrow> lcec_slave option" where
  "pdo_init_rows [] s = Some s"
| "pdo_init_rows (((idx, sidx), os, bp) # rs) s =
     Option.bind (pdo_init_unchecked s idx (ucast sidx) (Some os) bp) (pdo_init_rows rs)"

text \<open>
  What the EtherCAT master asks of a registration: the entry is mapped, and without a member
  for the bit position it starts at a whole byte. What the driver asks: an entry it accesses by
  its bit is one bit, the others are whole bytes.
\<close>

definition member_ok :: "nat \<times> place option \<times> nat option \<Rightarrow> bool" where
  "member_ok m \<longleftrightarrow>
     (case fst (snd m) of None \<Rightarrow> False
      | Some (sm, dir, off, bits) \<Rightarrow>
          (case snd (snd m) of Some _ \<Rightarrow> bits = 1 | None \<Rightarrow> off mod 8 = 0 \<and> bits mod 8 = 0 \<and> 0 < bits))"

definition row_reg :: "lcec_slave \<Rightarrow> pdo_row \<Rightarrow> pdo_entry_reg" where
  "row_reg s r =
     \<lparr>er_position = sl_index s, er_vendor_id = sl_vid s, er_product_code = sl_pid s, er_index = fst (fst r),
      er_subindex = ucast (snd (fst r)), er_offset = Some (fst (snd r)), er_bit_position = snd (snd r)\<rparr>"

lemma row_reg_update [simp]: "row_reg (s\<lparr>sl_regs := r\<rparr>) = row_reg s"
  by (rule ext) (simp add: row_reg_def)

lemma pdo_init_rows_append: "pdo_init_rows (rs @ qs) s = Option.bind (pdo_init_rows rs s) (pdo_init_rows qs)"
proof (induction rs arbitrary: s)
  case (Cons r rs)
  obtain idx sidx os bp where r: "r = ((idx, sidx), os, bp)" by (metis surj_pair)
  show ?case by (cases "pdo_init_unchecked s idx (ucast sidx) (Some os) bp") (simp_all add: r Cons.IH)
qed simp

text \<open>With room for all of them, the rows are registered in their order, and nothing else changes.\<close>

lemma pdo_init_rows_ok:
  assumes "sl_regs s = Some r" and "regs_ok r" and "length (regs_content r) + length rs \<le> pr_max r"
  obtains r' where "pdo_init_rows rs s = Some (s\<lparr>sl_regs := Some r'\<rparr>)" and "regs_ok r'" and "pr_max r' = pr_max r"
    and "regs_content r' = regs_content r @ map (row_reg s) rs"
  using assms
proof (induction rs arbitrary: s r thesis)
  case Nil
  have "s\<lparr>sl_regs := Some r\<rparr> = s" using Nil.prems(2) by (cases s) simp
  then show ?case using Nil.prems(1) [of r] Nil.prems(3) by simp
next
  case (Cons x rs)
  obtain idx sidx os bp where x: "x = ((idx, sidx), os, bp)" by (metis surj_pair)
  have "length (regs_content r) < pr_max r" using Cons.prems(4) by simp
  then obtain r1 where r1: "regs_push r (row_reg s x) = Inr r1" "regs_ok r1" "regs_content r1 = regs_content r @ [row_reg s x]" "pr_max r1 = pr_max r"
    using regs.push_fits [OF Cons.prems(3), of "row_reg s x"] by blast
  have i: "pdo_init_unchecked s idx (ucast sidx) (Some os) bp = Some (s\<lparr>sl_regs := Some r1\<rparr>)"
    using Cons.prems(2) r1(1) by (simp add: pdo_init_unchecked_def lcec_pdo_init_def x row_reg_def)
  obtain r' where "pdo_init_rows rs (s\<lparr>sl_regs := Some r1\<rparr>) = Some (s\<lparr>sl_regs := Some r1\<rparr>\<lparr>sl_regs := Some r'\<rparr>)" "regs_ok r'"
    "pr_max r' = pr_max r1" "regs_content r' = regs_content r1 @ map (row_reg (s\<lparr>sl_regs := Some r1\<rparr>)) rs"
  proof (rule Cons.IH [of "s\<lparr>sl_regs := Some r1\<rparr>" r1])
    show "length (regs_content r1) + length rs \<le> pr_max r1" using Cons.prems(4) r1(3,4) by simp
  qed (simp_all add: r1(2))
  then show ?case using Cons.prems(1) [of r'] i r1(3,4) by (simp add: x)
qed

section \<open>Process data at the positions\<close>

record positions =
  ps_os :: "nat \<Rightarrow> u32"
  ps_bp :: "nat \<Rightarrow> u32"

definition rd_bit :: "ec_macros \<Rightarrow> u8 list \<Rightarrow> positions \<Rightarrow> nat \<Rightarrow> bool option" where
  "rd_bit ec pd P k =
     (if unat (ps_os P k) < length pd then Some (EC_READ_BIT ec (pd ! unat (ps_os P k)) (unat (ps_bp P k))) else None)"

definition rd_u8 :: "u8 list \<Rightarrow> positions \<Rightarrow> nat \<Rightarrow> u8 option" where
  "rd_u8 pd P k = (if unat (ps_os P k) < length pd then Some (pd ! unat (ps_os P k)) else None)"

definition rd_u16 :: "ec_macros \<Rightarrow> u8 list \<Rightarrow> positions \<Rightarrow> nat \<Rightarrow> u16 option" where
  "rd_u16 ec pd P k = map_option (EC_READ_U16 ec) (pd_load pd (unat (ps_os P k)) 2)"

definition rd_u32 :: "ec_macros \<Rightarrow> u8 list \<Rightarrow> positions \<Rightarrow> nat \<Rightarrow> u32 option" where
  "rd_u32 ec pd P k = map_option (EC_READ_U32 ec) (pd_load pd (unat (ps_os P k)) 4)"

text \<open>The signed macros read the same bytes as a signed integer.\<close>

definition rd_s16 :: "ec_macros \<Rightarrow> u8 list \<Rightarrow> positions \<Rightarrow> nat \<Rightarrow> int option" where
  "rd_s16 ec pd P k = map_option sint (rd_u16 ec pd P k)"

definition rd_s32 :: "ec_macros \<Rightarrow> u8 list \<Rightarrow> positions \<Rightarrow> nat \<Rightarrow> int option" where
  "rd_s32 ec pd P k = map_option sint (rd_u32 ec pd P k)"

definition wr_bit :: "ec_macros \<Rightarrow> positions \<Rightarrow> nat \<Rightarrow> bool \<Rightarrow> u8 list \<Rightarrow> u8 list option" where
  "wr_bit ec P k v pd =
     (let o1 = unat (ps_os P k) in
      if o1 < length pd then Some (pd[o1 := EC_WRITE_BIT ec (pd ! o1) (unat (ps_bp P k)) v]) else None)"

definition wr_u8 :: "positions \<Rightarrow> nat \<Rightarrow> u8 \<Rightarrow> u8 list \<Rightarrow> u8 list option" where
  "wr_u8 P k v pd = (if unat (ps_os P k) < length pd then Some (pd[unat (ps_os P k) := v]) else None)"

text \<open>A value is converted to the width of the macro first.\<close>

definition wr_16 :: "ec_macros \<Rightarrow> positions \<Rightarrow> nat \<Rightarrow> int \<Rightarrow> u8 list \<Rightarrow> u8 list option" where
  "wr_16 ec P k v pd = pd_store pd (unat (ps_os P k)) (EC_WRITE_U16 ec (word_of_int v))"

definition wr_32 :: "ec_macros \<Rightarrow> positions \<Rightarrow> nat \<Rightarrow> int \<Rightarrow> u8 list \<Rightarrow> u8 list option" where
  "wr_32 ec P k v pd = pd_store pd (unat (ps_os P k)) (EC_WRITE_U32 ec (word_of_int v))"

text \<open>Where the entries are on the bus, and what that means for the positions.\<close>

definition placed :: "static_sync list \<Rightarrow> pdo_row list \<Rightarrow> (u8 \<Rightarrow> nat) \<Rightarrow> positions \<Rightarrow> nat \<Rightarrow> bool" where
  "placed ss rs base P n \<longleftrightarrow>
     (\<forall>((idx, sidx), k, bp)\<in>set rs.
        (case find_key (table_places ss) (entry_key idx sidx) of None \<Rightarrow> False
         | Some (sm, dir, off, bits) \<Rightarrow>
             unat (ps_os P k) = base sm + off div 8 \<and> 8 * base sm + off + bits \<le> 8 * n \<and>
             (case bp of None \<Rightarrow> True | Some b \<Rightarrow> unat (ps_bp P b) = off mod 8)))"

definition bits_in :: "nat \<Rightarrow> positions \<Rightarrow> nat list \<Rightarrow> bool" where
  "bits_in n P ks \<longleftrightarrow> (\<forall>k\<in>set ks. unat (ps_os P k) < n)"

definition bytes_in :: "nat \<Rightarrow> positions \<Rightarrow> (nat \<times> nat) list \<Rightarrow> bool" where
  "bytes_in n P ks \<longleftrightarrow> (\<forall>(k, w)\<in>set ks. unat (ps_os P k) + w \<le> n)"

definition bit_at :: "ec_macros \<Rightarrow> u8 list \<Rightarrow> positions \<Rightarrow> nat \<Rightarrow> bool" where
  "bit_at ec pd P k = EC_READ_BIT ec (pd ! unat (ps_os P k)) (unat (ps_bp P k))"

definition bytes_at :: "u8 list \<Rightarrow> positions \<Rightarrow> nat \<Rightarrow> nat \<Rightarrow> u8 list" where
  "bytes_at pd P k w = take w (drop (unat (ps_os P k)) pd)"

named_theorems rd_simps "accesses at positions inside the process data"

lemma rd_bit_in [rd_simps]: "unat (ps_os P k) < length pd \<Longrightarrow> rd_bit ec pd P k = Some (bit_at ec pd P k)"
  by (simp add: rd_bit_def bit_at_def)

lemma rd_u8_in [rd_simps]: "unat (ps_os P k) < length pd \<Longrightarrow> rd_u8 pd P k = Some (pd ! unat (ps_os P k))"
  by (simp add: rd_u8_def)

lemma rd_u16_in [rd_simps]: "unat (ps_os P k) + 2 \<le> length pd \<Longrightarrow> rd_u16 ec pd P k = Some (EC_READ_U16 ec (bytes_at pd P k 2))"
  by (simp add: rd_u16_def pd_load_def bytes_at_def)

lemma rd_u32_in [rd_simps]: "unat (ps_os P k) + 4 \<le> length pd \<Longrightarrow> rd_u32 ec pd P k = Some (EC_READ_U32 ec (bytes_at pd P k 4))"
  by (simp add: rd_u32_def pd_load_def bytes_at_def)

lemma rd_s16_in [rd_simps]: "unat (ps_os P k) + 2 \<le> length pd \<Longrightarrow> rd_s16 ec pd P k = Some (sint (EC_READ_U16 ec (bytes_at pd P k 2)))"
  by (simp add: rd_s16_def rd_u16_in)

lemma rd_s32_in [rd_simps]: "unat (ps_os P k) + 4 \<le> length pd \<Longrightarrow> rd_s32 ec pd P k = Some (sint (EC_READ_U32 ec (bytes_at pd P k 4)))"
  by (simp add: rd_s32_def rd_u32_in)

section \<open>Writing\<close>

text \<open>
  A write function ends with a sequence of \<^verbatim>\<open>EC_WRITE_\<close> calls: the member with the
  position, and the width and value.
\<close>

datatype out_val = OutBit bool | Out8 u8 | Out16 int | Out32 int

fun wr_out :: "ec_macros \<Rightarrow> positions \<Rightarrow> nat \<times> out_val \<Rightarrow> u8 list \<Rightarrow> u8 list option" where
  "wr_out ec P (k, OutBit v) pd = wr_bit ec P k v pd"
| "wr_out ec P (k, Out8 v) pd = wr_u8 P k v pd"
| "wr_out ec P (k, Out16 v) pd = wr_16 ec P k v pd"
| "wr_out ec P (k, Out32 v) pd = wr_32 ec P k v pd"

fun wr_all :: "ec_macros \<Rightarrow> positions \<Rightarrow> (nat \<times> out_val) list \<Rightarrow> u8 list \<Rightarrow> u8 list option" where
  "wr_all ec P [] pd = Some pd"
| "wr_all ec P (w # ws) pd = Option.bind (wr_out ec P w pd) (wr_all ec P ws)"

lemma wr_all_append: "wr_all ec P (vs @ ws) pd = Option.bind (wr_all ec P vs pd) (wr_all ec P ws)"
proof (induction vs arbitrary: pd)
  case (Cons v vs)
  show ?case by (cases "wr_out ec P v pd") (simp_all add: Cons.IH)
qed simp

text \<open>The bits a write covers, and what it puts there.\<close>

fun out_len :: "out_val \<Rightarrow> nat" where
  "out_len (OutBit v) = 1" | "out_len (Out8 v) = 8" | "out_len (Out16 v) = 16" | "out_len (Out32 v) = 32"

fun out_bit :: "out_val \<Rightarrow> nat \<Rightarrow> bool" where
  "out_bit (OutBit v) j = v"
| "out_bit (Out8 v) j = bit v j"
| "out_bit (Out16 v) j = bit (word_of_int v :: u16) j"
| "out_bit (Out32 v) j = bit (word_of_int v :: u32) j"

fun out_start :: "positions \<Rightarrow> nat \<times> out_val \<Rightarrow> nat" where
  "out_start P (k, OutBit v) = 8 * unat (ps_os P k) + unat (ps_bp P k)"
| "out_start P (k, v) = 8 * unat (ps_os P k)"

fun out_fits :: "positions \<Rightarrow> nat \<Rightarrow> nat \<times> out_val \<Rightarrow> bool" where
  "out_fits P n (k, OutBit v) \<longleftrightarrow> unat (ps_os P k) < n \<and> unat (ps_bp P k) < 8"
| "out_fits P n (k, v) \<longleftrightarrow> unat (ps_os P k) + out_len v div 8 \<le> n"

definition out_covers :: "positions \<Rightarrow> nat \<times> out_val \<Rightarrow> nat \<Rightarrow> bool" where
  "out_covers P w j \<longleftrightarrow> out_start P w \<le> j \<and> j < out_start P w + out_len (snd w)"

definition out_disjoint :: "positions \<Rightarrow> nat \<times> out_val \<Rightarrow> nat \<times> out_val \<Rightarrow> bool" where
  "out_disjoint P v w \<longleftrightarrow> out_start P v + out_len (snd v) \<le> out_start P w \<or> out_start P w + out_len (snd w) \<le> out_start P v"

text \<open>Every write is on the bus afterwards, and nothing else has changed.\<close>

definition on_bus :: "positions \<Rightarrow> (nat \<times> out_val) list \<Rightarrow> u8 list \<Rightarrow> u8 list \<Rightarrow> bool" where
  "on_bus P ws pd pd' \<longleftrightarrow> length pd' = length pd \<and>
     (\<forall>w\<in>set ws. \<forall>j < out_len (snd w). pd_bit pd' (out_start P w + j) = out_bit (snd w) j) \<and>
     (\<forall>j < 8 * length pd. (\<forall>w\<in>set ws. \<not> out_covers P w j) \<longrightarrow> pd_bit pd' j = pd_bit pd j)"

lemma wr_out_spec:
  assumes "ec_le ec" and "out_fits P (length pd) w"
  shows "\<exists>pd'. wr_out ec P w pd = Some pd' \<and> length pd' = length pd \<and>
    (\<forall>j < 8 * length pd. pd_bit pd' j = (if out_covers P w j then out_bit (snd w) (j - out_start P w) else pd_bit pd j))"
proof -
  obtain k v where w: "w = (k, v)" by fastforce
  let ?o = "unat (ps_os P k)"
  show ?thesis
  proof (cases v)
    case (OutBit b)
    have o: "?o < length pd" "unat (ps_bp P k) < 8" using assms(2) by (simp_all add: w OutBit)
    define q where "q = 8 * ?o + unat (ps_bp P k)"
    have q: "q div 8 = ?o" "q mod 8 = unat (ps_bp P k)" using o(2) by (simp_all add: q_def)
    then have "int q div 8 = int ?o" "int q mod 8 = int (unat (ps_bp P k))" by (metis zdiv_int zmod_int of_nat_numeral)+
    then have e: "wr_bit ec P k b pd = pd_write_bit ec pd (int q) b"
      using o(1) by (simp only: wr_bit_def pd_write_bit_def Let_def nat_int) simp
    have l: "q < 8 * length pd" using o by (simp add: q_def)
    have c: "out_start P w = q" "snd w = OutBit b" by (simp_all add: w OutBit q_def)
    have "out_covers P w j = (j = q)" for j by (auto simp: out_covers_def c)
    moreover obtain pd' where "pd_write_bit ec pd (int q) b = Some pd'" "length pd' = length pd"
      "\<forall>j < 8 * length pd. pd_bit pd' j = (if j = q then b else pd_bit pd j)"
      using pd_write_bit_nat [OF assms(1) l, of b] by blast
    ultimately show ?thesis using l by (auto simp: w OutBit e)
  next
    case (Out8 b)
    have o: "?o < length pd" using assms(2) by (simp add: w Out8)
    have e: "wr_u8 P k b pd = pd_store pd ?o (le_bytes 1 b)"
      using o by (simp add: wr_u8_def pd_store_def le_bytes_def upd_conv_take_nth_drop)
    have "?o + 1 \<le> length pd" using o by simp
    then obtain pd' where "pd_store pd ?o (le_bytes 1 b) = Some pd'" "length pd' = length pd"
      "\<forall>j < 8 * length pd. pd_bit pd' j = (if 8 * ?o \<le> j \<and> j < 8 * ?o + 8 * 1 then bit b (j - 8 * ?o) else pd_bit pd j)"
      using pd_store_spec [of ?o 1 pd b] by blast
    then show ?thesis using o by (auto simp: w Out8 e out_covers_def)
  next
    case (Out16 i)
    have "EC_WRITE_U16 ec (word_of_int i) = le_bytes 2 (word_of_int i :: u16)" using assms(1) by (simp add: ec_le_def)
    moreover have o: "?o + 2 \<le> length pd" using assms(2) by (simp add: w Out16)
    moreover obtain pd' where "pd_store pd ?o (le_bytes 2 (word_of_int i :: u16)) = Some pd'" "length pd' = length pd"
      "\<forall>j < 8 * length pd. pd_bit pd' j = (if 8 * ?o \<le> j \<and> j < 8 * ?o + 8 * 2 then bit (word_of_int i :: u16) (j - 8 * ?o) else pd_bit pd j)"
      using pd_store_spec [OF o, of "word_of_int i :: u16"] by blast
    ultimately show ?thesis by (auto simp: w Out16 wr_16_def out_covers_def)
  next
    case (Out32 i)
    have "EC_WRITE_U32 ec (word_of_int i) = le_bytes 4 (word_of_int i :: u32)" using assms(1) by (simp add: ec_le_def)
    moreover have o: "?o + 4 \<le> length pd" using assms(2) by (simp add: w Out32)
    moreover obtain pd' where "pd_store pd ?o (le_bytes 4 (word_of_int i :: u32)) = Some pd'" "length pd' = length pd"
      "\<forall>j < 8 * length pd. pd_bit pd' j = (if 8 * ?o \<le> j \<and> j < 8 * ?o + 8 * 4 then bit (word_of_int i :: u32) (j - 8 * ?o) else pd_bit pd j)"
      using pd_store_spec [OF o, of "word_of_int i :: u32"] by blast
    ultimately show ?thesis by (auto simp: w Out32 wr_32_def out_covers_def)
  qed
qed

lemma out_fits_end: "out_fits P n w \<Longrightarrow> out_start P w + out_len (snd w) \<le> 8 * n"
  by (cases w; cases "snd w") auto

lemma wr_all_on_bus:
  assumes "ec_le ec" and "\<forall>w\<in>set ws. out_fits P (length pd) w" and "sorted_wrt (out_disjoint P) ws"
  shows "\<exists>pd'. wr_all ec P ws pd = Some pd' \<and> on_bus P ws pd pd'"
  using assms(2,3)
proof (induction ws arbitrary: pd)
  case Nil
  then show ?case by (simp add: on_bus_def)
next
  case (Cons w ws)
  obtain p1 where p1: "wr_out ec P w pd = Some p1" "length p1 = length pd"
    "\<forall>j < 8 * length pd. pd_bit p1 j = (if out_covers P w j then out_bit (snd w) (j - out_start P w) else pd_bit pd j)"
    using wr_out_spec [OF assms(1), of P pd w] Cons.prems(1) by auto
  obtain p2 where p2: "wr_all ec P ws p1 = Some p2" "on_bus P ws p1 p2"
    using Cons.IH [of p1] Cons.prems p1(2) by auto
  have "pd_bit p2 (out_start P w + j) = out_bit (snd w) j" if "j < out_len (snd w)" for j
  proof -
    have c: "out_start P w + j < 8 * length pd" using out_fits_end [of P "length pd" w] Cons.prems(1) that by simp
    have "\<not> out_covers P v (out_start P w + j)" if "v \<in> set ws" for v
      using Cons.prems(2) that \<open>j < out_len (snd w)\<close> by (auto simp: out_disjoint_def out_covers_def)
    then have "pd_bit p2 (out_start P w + j) = pd_bit p1 (out_start P w + j)" using p2(2) p1(2) c by (simp add: on_bus_def)
    then show ?thesis using p1(3) c that by (simp add: out_covers_def)
  qed
  then show ?case using p1 p2 by (auto simp: on_bus_def)
qed

section \<open>Places of the members\<close>

text \<open>The place of the entry whose registration has a member for its byte offset, and the other member.\<close>

type_synonym member_table = "(nat \<times> place option \<times> nat option) list"

definition row_keys :: "pdo_row list \<Rightarrow> (nat \<times> nat \<times> nat option) list" where
  "row_keys rs = map (\<lambda>r. (row_key r, snd r)) rs"

fun members_at :: "(nat \<times> place) list \<Rightarrow> (nat \<times> nat \<times> nat option) list \<Rightarrow> member_table" where
  "members_at pl [] = []"
| "members_at pl ((key, k, bp) # rs) = (k, find_key pl key, bp) # members_at pl rs"

lemma members_at_cong: "rs = rs' \<Longrightarrow> members_at pl rs = members_at pl rs'"
  by simp

definition member_table :: "static_sync list \<Rightarrow> pdo_row list \<Rightarrow> member_table" where
  "member_table ss rs = members_at (table_places ss) (row_keys rs)"

lemma set_member_table:
  "set (member_table ss rs) = (\<lambda>r. (fst (snd r), find_key (table_places ss) (row_key r), snd (snd r))) ` set rs"
proof -
  have "members_at pl (row_keys rs) = map (\<lambda>r. (fst (snd r), find_key pl (row_key r), snd (snd r))) rs" for pl
  proof (induction rs)
    case (Cons r rs)
    then show ?case by (cases r) (simp add: row_keys_def)
  qed (simp add: row_keys_def)
  then show ?thesis by (simp add: member_table_def)
qed

definition driver_tables_ok :: "static_sync list \<Rightarrow> pdo_row list \<Rightarrow> bool" where
  "driver_tables_ok ss rs \<longleftrightarrow> table_ok ss \<and> list_all member_ok (member_table ss rs) \<and>
     length (member_table ss rs) \<le> LCEC_MAX_PDO_REG_COUNT \<and> distinct (map fst (member_table ss rs))"

definition member_place :: "member_table \<Rightarrow> nat \<Rightarrow> (u8 \<times> nat \<times> nat \<times> nat option) option" where
  "member_place mt k =
     (case find_key mt k of Some (Some (sm, dir, off, bits), bp) \<Rightarrow> Some (sm, off, bits, bp) | _ \<Rightarrow> None)"

lemma placed_member:
  assumes "placed ss rs base P n" and "member_place (member_table ss rs) k = Some (sm, off, bits, bp)"
  shows "unat (ps_os P k) = base sm + off div 8" and "8 * base sm + off + bits \<le> 8 * n"
    and "bp = Some b \<Longrightarrow> unat (ps_bp P b) = off mod 8"
proof -
  obtain dir where "find_key (member_table ss rs) k = Some (Some (sm, dir, off, bits), bp)"
    using assms(2) by (auto simp: member_place_def split: option.splits)
  then have "(k, Some (sm, dir, off, bits), bp) \<in> set (member_table ss rs)" by (rule find_key_SomeD)
  then obtain r where r: "r \<in> set rs" "fst (snd r) = k" "find_key (table_places ss) (row_key r) = Some (sm, dir, off, bits)" "snd (snd r) = bp"
    by (auto simp: set_member_table)
  obtain idx sidx where e: "r = ((idx, sidx), k, bp)" using r(2,4) by (cases r) auto
  have "unat (ps_os P k) = base sm + off div 8 \<and> 8 * base sm + off + bits \<le> 8 * n \<and>
      (case bp of None \<Rightarrow> True | Some b \<Rightarrow> unat (ps_bp P b) = off mod 8)"
    using assms(1) r(1,3) unfolding placed_def e by (auto simp: row_key_def dest!: bspec)
  then show "unat (ps_os P k) = base sm + off div 8" and "8 * base sm + off + bits \<le> 8 * n"
    and "bp = Some b \<Longrightarrow> unat (ps_bp P b) = off mod 8" by auto
qed

text \<open>Checks of the members a read or a write function uses, with the widths it uses them with.\<close>

definition reads_check :: "member_table \<Rightarrow> nat list \<Rightarrow> (nat \<times> nat) list \<Rightarrow> bool" where
  "reads_check mt bs ws \<longleftrightarrow>
     list_all (\<lambda>k. case member_place mt k of None \<Rightarrow> False | Some (sm, off, bits, bp) \<Rightarrow> bits = 1) bs \<and>
     list_all (\<lambda>(k, w). case member_place mt k of None \<Rightarrow> False
                        | Some (sm, off, bits, bp) \<Rightarrow> bits = 8 * w \<and> off mod 8 = 0) ws"

definition reads_ok :: "static_sync list \<Rightarrow> pdo_row list \<Rightarrow> nat list \<Rightarrow> (nat \<times> nat) list \<Rightarrow> bool" where
  "reads_ok ss rs bs ws \<longleftrightarrow> reads_check (member_table ss rs) bs ws"

lemma placed_reads:
  assumes "placed ss rs base P n" and "reads_ok ss rs bs ws"
  shows "bits_in n P bs" and "bytes_in n P ws"
proof -
  have "unat (ps_os P k) < n" if k: "k \<in> set bs" for k
  proof -
    obtain sm off bp where m: "member_place (member_table ss rs) k = Some (sm, off, 1, bp)"
      using assms(2) k by (auto simp: reads_ok_def reads_check_def list_all_iff split: option.splits)
    show ?thesis using placed_member(1,2) [OF assms(1) m] by linarith
  qed
  then show "bits_in n P bs" by (simp add: bits_in_def)
  have "unat (ps_os P k) + w \<le> n" if k: "(k, w) \<in> set ws" for k w
  proof -
    obtain sm off bp where m: "member_place (member_table ss rs) k = Some (sm, off, 8 * w, bp)" "off mod 8 = 0"
      using assms(2) k by (fastforce simp: reads_ok_def reads_check_def list_all_iff split: option.splits)
    have "8 * (off div 8) = off" using m(2) by presburger
    then show ?thesis using placed_member(1,2) [OF assms(1) m(1)] by linarith
  qed
  then show "bytes_in n P ws" by (auto simp: bytes_in_def)
qed

definition places_apart :: "member_table \<Rightarrow> nat \<times> nat \<Rightarrow> nat \<times> nat \<Rightarrow> bool" where
  "places_apart mt x y \<longleftrightarrow>
     (case (member_place mt (fst x), member_place mt (fst y)) of
        (Some (sm, off, _), Some (sm', off', _)) \<Rightarrow> sm = sm' \<and> (off + snd x \<le> off' \<or> off' + snd y \<le> off)
      | _ \<Rightarrow> False)"

definition outs_check :: "member_table \<Rightarrow> (nat \<times> nat) list \<Rightarrow> bool" where
  "outs_check mt kls \<longleftrightarrow>
     list_all (\<lambda>(k, l). case member_place mt k of None \<Rightarrow> False
                 | Some (sm, off, bits, bp) \<Rightarrow> bits = l \<and> (if l = 1 then bp = Some k else off mod 8 = 0)) kls \<and>
     sorted_wrt (places_apart mt) kls"

definition outs_ok :: "static_sync list \<Rightarrow> pdo_row list \<Rightarrow> (nat \<times> nat) list \<Rightarrow> bool" where
  "outs_ok ss rs kls \<longleftrightarrow> outs_check (member_table ss rs) kls"

definition out_shape :: "(nat \<times> out_val) list \<Rightarrow> (nat \<times> nat) list" where
  "out_shape ws = map (\<lambda>(k, v). (k, out_len v)) ws"

lemma out_len_bit: "out_len v = 1 \<longleftrightarrow> (\<exists>b. v = OutBit b)"
  by (cases v) auto

lemma placed_out:
  assumes "placed ss rs base P n" and "member_place (member_table ss rs) k = Some (sm, off, bits, bp)" and "bits = out_len v"
    and "if out_len v = 1 then bp = Some k else off mod 8 = 0"
  shows "out_start P (k, v) = 8 * base sm + off" and "out_fits P n (k, v)"
proof -
  note m = placed_member [OF assms(1,2)]
  have "out_start P (k, v) = 8 * base sm + off \<and> out_fits P n (k, v)"
  proof (cases "out_len v = 1")
    case True
    then obtain b where v: "v = OutBit b" using out_len_bit by blast
    have b: "unat (ps_bp P k) = off mod 8" using m(3) [of k] assms(4) True by simp
    have "8 * (off div 8) + off mod 8 = off" by simp
    moreover have "off div 8 + base sm < n" using m(2) assms(3) v by simp
    ultimately show ?thesis by (simp add: v m(1) b)
  next
    case False
    have o: "8 * (off div 8) = off" using assms(4) False by presburger
    show ?thesis
    proof (cases v)
      case (OutBit b)
      then show ?thesis using False by simp
    qed (use m(1,2) assms(3) o in simp_all)
  qed
  then show "out_start P (k, v) = 8 * base sm + off" and "out_fits P n (k, v)" by blast+
qed

lemma placed_outs:
  assumes "placed ss rs base P n" and "outs_ok ss rs (out_shape ws)"
  shows "\<forall>w\<in>set ws. out_fits P n w" and "sorted_wrt (out_disjoint P) ws"
proof -
  have m: "\<exists>sm off bits bp. member_place (member_table ss rs) k = Some (sm, off, bits, bp) \<and> bits = out_len v \<and>
      (if out_len v = 1 then bp = Some k else off mod 8 = 0)" if "(k, v) \<in> set ws" for k v
    using assms(2) that by (fastforce simp: outs_ok_def outs_check_def out_shape_def list_all_iff split: option.splits)
  then show "\<forall>w\<in>set ws. out_fits P n w" using placed_out(2) [OF assms(1)] by (metis surj_pair)
  define R where "R = (\<lambda>w w'. places_apart (member_table ss rs) (fst w, out_len (snd w)) (fst w', out_len (snd w')))"
  have s: "sorted_wrt R ws"
    using assms(2) by (simp add: outs_ok_def outs_check_def out_shape_def sorted_wrt_map case_prod_beta R_def)
  show "sorted_wrt (out_disjoint P) ws"
  proof (rule sorted_wrt_mono_rel [OF _ s])
    fix w w' assume w: "w \<in> set ws" "w' \<in> set ws" and r: "R w w'"
    obtain k v k' v' where k: "w = (k, v)" "w' = (k', v')" by fastforce
    obtain sm off bp where p: "member_place (member_table ss rs) k = Some (sm, off, out_len v, bp)" "if out_len v = 1 then bp = Some k else off mod 8 = 0"
      using m [of k v] w k by auto
    obtain sm' off' bp' where p': "member_place (member_table ss rs) k' = Some (sm', off', out_len v', bp')"
      "if out_len v' = 1 then bp' = Some k' else off' mod 8 = 0"
      using m [of k' v'] w k by auto
    show "out_disjoint P w w'"
      using r placed_out(1) [OF assms(1) p(1) refl p(2)] placed_out(1) [OF assms(1) p'(1) refl p'(2)] p(1) p'(1)
      by (auto simp: R_def places_apart_def out_disjoint_def k)
  qed
qed

text \<open>A write function whose members pass the check puts all its values on the bus.\<close>

lemma wr_all_placed:
  assumes "ec_le ec" and "placed ss rs base P (length pd)" and "outs_ok ss rs (out_shape ws)"
  shows "\<exists>pd'. wr_all ec P ws pd = Some pd' \<and> on_bus P ws pd pd'"
  by (rule wr_all_on_bus [OF assms(1) placed_outs [OF assms(2,3)]])

section \<open>Drivers with several channels\<close>

definition chan_positions :: "nat \<Rightarrow> positions \<Rightarrow> positions" where
  "chan_positions i P = \<lparr>ps_os = (\<lambda>k. ps_os P (64 * i + k)), ps_bp = (\<lambda>k. ps_bp P (64 * i + k))\<rparr>"

definition shift_row :: "nat \<Rightarrow> pdo_row \<Rightarrow> pdo_row" where
  "shift_row i r = (fst r, 64 * i + fst (snd r), map_option (\<lambda>k. 64 * i + k) (snd (snd r)))"

definition shift_outs :: "nat \<Rightarrow> (nat \<times> out_val) list \<Rightarrow> (nat \<times> out_val) list" where
  "shift_outs i ws = map (\<lambda>(k, v). (64 * i + k, v)) ws"

lemma wr_out_shift: "wr_out ec (chan_positions i P) (k, v) pd = wr_out ec P (64 * i + k, v) pd"
  by (cases v) (simp_all add: chan_positions_def wr_bit_def wr_u8_def wr_16_def wr_32_def Let_def)

lemma wr_all_shift: "wr_all ec (chan_positions i P) ws pd = wr_all ec P (shift_outs i ws) pd"
proof (induction ws arbitrary: pd)
  case (Cons w ws)
  obtain k v where w: "w = (k, v)" by fastforce
  show ?case using Cons.IH by (cases "wr_out ec P (64 * i + k, v) pd") (simp_all add: w shift_outs_def wr_out_shift)
qed (simp add: shift_outs_def)

lemma shift_members:
  "bits_in n (chan_positions i P) ks \<longleftrightarrow> bits_in n P (map ((+) (64 * i)) ks)"
  "bytes_in n (chan_positions i P) kws \<longleftrightarrow> bytes_in n P (map (\<lambda>(k, w). (64 * i + k, w)) kws)"
  by (auto simp: bits_in_def bytes_in_def chan_positions_def)

text \<open>The loops over the channels, from channel \<open>i\<close> on.\<close>

fun read_chans :: "(nat \<Rightarrow> 'c \<Rightarrow> 'c option) \<Rightarrow> nat \<Rightarrow> 'c list \<Rightarrow> 'c list option" where
  "read_chans f i [] = Some []"
| "read_chans f i (c # cs) = Option.bind (f i c) (\<lambda>c'. map_option ((#) c') (read_chans f (Suc i) cs))"

lemma read_chans_nth:
  assumes "\<And>j. j < length cs \<Longrightarrow> f (i + j) (cs ! j) \<noteq> None"
  shows "\<exists>cs'. read_chans f i cs = Some cs' \<and> length cs' = length cs \<and> (\<forall>j < length cs. f (i + j) (cs ! j) = Some (cs' ! j))"
  using assms
proof (induction cs arbitrary: i)
  case (Cons c cs)
  obtain c' where c': "f i c = Some c'" using Cons.prems [of 0] by auto
  obtain cs' where cs': "read_chans f (Suc i) cs = Some cs'" "length cs' = length cs"
    "\<forall>j < length cs. f (Suc i + j) (cs ! j) = Some (cs' ! j)"
    using Cons.IH [of "Suc i"] Cons.prems [of "Suc j" for j] by auto
  show ?case using c' cs' by (auto simp: nth_Cons split: nat.splits)
qed simp

fun write_chans :: "(nat \<Rightarrow> 'c \<Rightarrow> u8 list \<Rightarrow> ('c \<times> u8 list) option) \<Rightarrow> nat \<Rightarrow> 'c list \<Rightarrow> u8 list \<Rightarrow> ('c list \<times> u8 list) option" where
  "write_chans f i [] pd = Some ([], pd)"
| "write_chans f i (c # cs) pd =
     Option.bind (f i c pd) (\<lambda>(c', pd). map_option (\<lambda>(cs', pd). (c' # cs', pd)) (write_chans f (Suc i) cs pd))"

text \<open>A loop whose bodies each write the values of their channel writes them all, in order.\<close>

lemma write_chans_all:
  assumes "\<And>j c pd. c \<in> set cs \<Longrightarrow> f j c pd = map_option (Pair (g c)) (wr_all ec (chan_positions j P) (outs (g c)) pd)"
  shows "write_chans f i cs pd =
    map_option (Pair (map g cs)) (wr_all ec P (concat (map (\<lambda>(j, c). shift_outs j (outs (g c))) (zip [i..<i + length cs] cs))) pd)"
  using assms
proof (induction cs arbitrary: i pd)
  case (Cons c cs)
  have u: "[i..<Suc (i + length cs)] = i # [Suc i..<Suc (i + length cs)]" by (rule upt_conv_Cons) simp
  show ?case
    using Cons.IH [of "Suc i"] Cons.prems
    by (cases "wr_all ec P (shift_outs i (outs (g c))) pd")
      (simp_all add: u wr_all_append wr_all_shift option.map_comp comp_def del: upt_Suc)
qed simp

text \<open>The definitions that evaluate the tables of a driver, and the checks on its members.\<close>

lemmas table_simps = entry_def spdo_def ssync_def ssync_end_def bit_row_def word_row_def shift_row_def entry_key_def row_key_def
  table_ok_def table_places_def sync_places_def row_keys_def

lemmas member_simps = member_ok_def LCEC_MAX_PDO_REG_COUNT_def member_place_def reads_check_def outs_check_def places_apart_def

end
