(* ===== verification/DevCounter.thy ===== *)
theory DevCounter
  imports DriverBase EncDev
begin

text \<open>
  The counter inputs of the encoder drivers (\<open>devices/lcec_el5101.c\<close>, \<open>lcec_el5151.c\<close>,
  \<open>lcec_el5152.c\<close>, \<open>lcec_el7041.c\<close>, \<open>lcec_el7342.c\<close>): the members their structures share and
  the steps their read functions are made of, in which a count of 16 or 32 bits is extended to the
  32 bits of a pin. The contract of a counter, that it follows a position over all wraps of the
  hardware count, is a locale; the drivers' theories interpret it.
\<close>

section \<open>Members\<close>

text \<open>The numbers of the members of the drivers' structures that hold positions.\<close>

abbreviation (input) status_pdo :: nat where "status_pdo \<equiv> 0"
abbreviation (input) value_pdo :: nat where "value_pdo \<equiv> 1"
abbreviation (input) latch_pdo :: nat where "latch_pdo \<equiv> 2"
abbreviation (input) frequency_pdo :: nat where "frequency_pdo \<equiv> 3"
abbreviation (input) period_pdo :: nat where "period_pdo \<equiv> 4"
abbreviation (input) window_pdo :: nat where "window_pdo \<equiv> 5"
abbreviation (input) control_pdo :: nat where "control_pdo \<equiv> 6"
abbreviation (input) setval_pdo :: nat where "setval_pdo \<equiv> 7"
abbreviation (input) ena_latch_c_pdo :: nat where "ena_latch_c_pdo \<equiv> 8"
abbreviation (input) ena_latch_ext_pos_pdo :: nat where "ena_latch_ext_pos_pdo \<equiv> 9"
abbreviation (input) ena_latch_ext_neg_pdo :: nat where "ena_latch_ext_neg_pdo \<equiv> 10"
abbreviation (input) set_count_pdo :: nat where "set_count_pdo \<equiv> 11"
abbreviation (input) set_count_val_pdo :: nat where "set_count_val_pdo \<equiv> 12"
abbreviation (input) set_count_done_pdo :: nat where "set_count_done_pdo \<equiv> 13"
abbreviation (input) latch_c_valid_pdo :: nat where "latch_c_valid_pdo \<equiv> 14"
abbreviation (input) latch_ext_valid_pdo :: nat where "latch_ext_valid_pdo \<equiv> 15"
abbreviation (input) expol_stall_pdo :: nat where "expol_stall_pdo \<equiv> 16"
abbreviation (input) ina_pdo :: nat where "ina_pdo \<equiv> 17"
abbreviation (input) inb_pdo :: nat where "inb_pdo \<equiv> 18"
abbreviation (input) inc_pdo :: nat where "inc_pdo \<equiv> 19"
abbreviation (input) inext_pdo :: nat where "inext_pdo \<equiv> 20"
abbreviation (input) sync_err_pdo :: nat where "sync_err_pdo \<equiv> 21"
abbreviation (input) tx_toggle_pdo :: nat where "tx_toggle_pdo \<equiv> 22"
abbreviation (input) count_pdo :: nat where "count_pdo \<equiv> 23"
abbreviation (input) count_overflow_pdo :: nat where "count_overflow_pdo \<equiv> 24"
abbreviation (input) count_underflow_pdo :: nat where "count_underflow_pdo \<equiv> 25"

section \<open>State\<close>

record counter =
  k_reset :: bool
  k_set_raw_count :: bool
  k_set_raw_count_val :: int
  k_raw_count :: int
  k_count :: int
  k_pos_scale :: real
  k_pos :: real
  k_do_init :: bool
  k_last_count :: int
  k_old_scale :: real
  k_scale :: real

definition s16 :: "int \<Rightarrow> int" where
  [c_int_simps]: "s16 i = (i + 32768) mod 65536 - 32768"

text \<open>The values the init functions set, over zeroed memory.\<close>

definition counter_start :: "(real \<Rightarrow> real) \<Rightarrow> 'a \<Rightarrow> 'a counter_scheme" where
  "counter_start rnd rest =
     \<lparr>k_reset = False, k_set_raw_count = False, k_set_raw_count_val = 0, k_raw_count = 0, k_count = 0, k_pos_scale = 1,
      k_pos = 0, k_do_init = True, k_last_count = 0, k_old_scale = rnd (1 + 1), k_scale = 1, \<dots> = rest\<rparr>"

section \<open>Steps\<close>

text \<open>A change of the scale pin; \<open>1e-20\<close> is not a binary fraction.\<close>

definition tiny :: "(real \<Rightarrow> real) \<Rightarrow> real" where "tiny rnd = rnd (1 / 10 ^ 20)"

definition counter_scale :: "(real \<Rightarrow> real) \<Rightarrow> 'a counter_scheme \<Rightarrow> 'a counter_scheme" where
  "counter_scale rnd d =
     (if k_pos_scale d \<noteq> k_old_scale d then
        let d = (if k_pos_scale d < tiny rnd \<and> k_pos_scale d > - tiny rnd then d\<lparr>k_pos_scale := 1\<rparr> else d)
        in d\<lparr>k_old_scale := k_pos_scale d, k_scale := rnd (1 / k_pos_scale d)\<rparr>
      else d)"

text \<open>The first cycle of an operational slave, and the acknowledgement of a count that was set.\<close>

definition counter_operational :: "bool \<Rightarrow> int \<Rightarrow> 'a counter_scheme \<Rightarrow> 'a counter_scheme" where
  "counter_operational last_op raw d = (if \<not> last_op then d\<lparr>k_last_count := raw\<rparr> else d)"

definition counter_set_done :: "bool \<Rightarrow> int \<Rightarrow> 'a counter_scheme \<Rightarrow> 'a counter_scheme" where
  "counter_set_done ack raw d = (if ack then d\<lparr>k_last_count := raw, k_set_raw_count := False\<rparr> else d)"

definition counter_raw :: "int \<Rightarrow> 'a counter_scheme \<Rightarrow> 'a counter_scheme" where
  "counter_raw raw d = (if \<not> k_set_raw_count d then d\<lparr>k_raw_count := raw\<rparr> else d)"

definition counter_init :: "int \<Rightarrow> 'a counter_scheme \<Rightarrow> 'a counter_scheme" where
  "counter_init raw d =
     (if k_do_init d \<or> k_reset d then d\<lparr>k_do_init := False, k_last_count := raw, k_count := 0\<rparr> else d)"

text \<open>The net count, wrapped as compilers do, and the scaled position.\<close>

definition counter_net :: "(int \<Rightarrow> int) \<Rightarrow> (real \<Rightarrow> real) \<Rightarrow> int \<Rightarrow> 'a counter_scheme \<Rightarrow> 'a counter_scheme" where
  "counter_net wrap rnd raw d =
     (let d = d\<lparr>k_last_count := raw, k_count := s32 (k_count d + wrap (raw - k_last_count d))\<rparr>
      in d\<lparr>k_pos := rnd (real_of_int (k_count d) * k_scale d)\<rparr>)"

named_theorems counter_simps "the members a step of a counter keeps"

lemma counter_scale_keeps [counter_simps]:
  "k_count (counter_scale rnd d) = k_count d" "k_last_count (counter_scale rnd d) = k_last_count d"
  "k_do_init (counter_scale rnd d) = k_do_init d" "k_reset (counter_scale rnd d) = k_reset d"
  "k_set_raw_count (counter_scale rnd d) = k_set_raw_count d" "counter.more (counter_scale rnd d) = counter.more d"
  by (simp_all add: counter_scale_def Let_def)

lemma counter_quiet [counter_simps]:
  "counter_operational True raw d = d" "counter_set_done False raw d = d"
  "\<not> k_do_init d \<Longrightarrow> \<not> k_reset d \<Longrightarrow> counter_init raw d = d"
  by (simp_all add: counter_operational_def counter_set_done_def counter_init_def)

lemma counter_raw_keeps [counter_simps]:
  "k_count (counter_raw raw d) = k_count d" "k_last_count (counter_raw raw d) = k_last_count d"
  "k_do_init (counter_raw raw d) = k_do_init d" "k_reset (counter_raw raw d) = k_reset d"
  "k_set_raw_count (counter_raw raw d) = k_set_raw_count d" "counter.more (counter_raw raw d) = counter.more d" "k_scale (counter_raw raw d) = k_scale d"
  by (simp_all add: counter_raw_def)

lemma counter_net_values [counter_simps]:
  "k_count (counter_net wrap rnd raw d) = s32 (k_count d + wrap (raw - k_last_count d))"
  "k_last_count (counter_net wrap rnd raw d) = raw"
  "k_do_init (counter_net wrap rnd raw d) = k_do_init d" "k_reset (counter_net wrap rnd raw d) = k_reset d"
  "k_set_raw_count (counter_net wrap rnd raw d) = k_set_raw_count d"
  "k_pos (counter_net wrap rnd raw d) = rnd (real_of_int (s32 (k_count d + wrap (raw - k_last_count d))) * k_scale d)"
  "counter.more (counter_net wrap rnd raw d) = counter.more d"
  by (simp_all add: counter_net_def Let_def)

text \<open>
  What a cycle of a driver counts from: a latched value with a new count of zero, the current
  value with a new count of zero, the current value with the old count, or the last value.
\<close>

definition counter_base :: "bool \<Rightarrow> int \<Rightarrow> bool \<Rightarrow> int \<Rightarrow> 'a counter_scheme \<Rightarrow> int \<times> int" where
  "counter_base latched latch fresh raw d =
     (if latched then (0, latch) else if k_do_init d \<or> k_reset d then (0, raw)
      else (k_count d, if fresh then raw else k_last_count d))"

definition counts_from :: "(int \<Rightarrow> int) \<Rightarrow> bool \<Rightarrow> int \<Rightarrow> bool \<Rightarrow> int \<Rightarrow> 'a counter_scheme \<Rightarrow> 'a counter_scheme \<Rightarrow> bool" where
  "counts_from wrap latched latch fresh raw d d' \<longleftrightarrow> k_last_count d' = raw \<and> \<not> k_do_init d' \<and>
     k_count d' = s32 (fst (counter_base latched latch fresh raw d) + wrap (raw - snd (counter_base latched latch fresh raw d)))"

lemma counts_from_quiet:
  "counts_from wrap False latch False raw d d' \<Longrightarrow> \<not> k_do_init d \<Longrightarrow> \<not> k_reset d \<Longrightarrow>
     k_last_count d' = raw \<and> \<not> k_do_init d' \<and> k_count d' = s32 (k_count d + wrap (raw - k_last_count d))"
  by (simp add: counts_from_def counter_base_def)

lemma counts_from_init:
  "counts_from wrap False latch fresh raw d d' \<Longrightarrow> k_do_init d \<or> k_reset d \<Longrightarrow> wrap 0 = 0 \<Longrightarrow>
     k_last_count d' = raw \<and> \<not> k_do_init d' \<and> k_count d' = 0"
  by (simp add: counts_from_def counter_base_def in_s32_def)

text \<open>After any scale, the factor is the reciprocal of a scale that is not tiny.\<close>

definition scale_ok :: "(real \<Rightarrow> real) \<Rightarrow> 'a counter_scheme \<Rightarrow> bool" where
  "scale_ok rnd d \<longleftrightarrow> k_pos_scale d = k_old_scale d \<longrightarrow> k_scale d = rnd (1 / k_pos_scale d) \<and> tiny rnd \<le> \<bar>k_pos_scale d\<bar>"

lemma counter_scale_ok:
  assumes "scale_ok rnd d" and "tiny rnd \<le> 1"
  shows "k_pos_scale (counter_scale rnd d) = k_old_scale (counter_scale rnd d)" and "scale_ok rnd (counter_scale rnd d)"
    and "k_scale (counter_scale rnd d) = rnd (1 / k_pos_scale (counter_scale rnd d))"
    and "tiny rnd \<le> \<bar>k_pos_scale (counter_scale rnd d)\<bar>"
  using assms by (auto simp: scale_ok_def counter_scale_def Let_def)

text \<open>Pins a component may write: all inputs, but not the counts or what the driver keeps to itself.\<close>

definition counter_user :: "('a counter_scheme \<Rightarrow> 'a counter_scheme) \<Rightarrow> bool" where
  "counter_user f \<longleftrightarrow> (\<forall>d. k_count (f d) = k_count d \<and> k_last_count (f d) = k_last_count d \<and> k_do_init (f d) = k_do_init d \<and> \<not> k_reset (f d))"

section \<open>Wraps\<close>

lemma s16_wraps: "centred 16 (s16 i)" "(2 ^ 16) dvd (s16 i - i)"
proof -
  have "0 \<le> (i + 32768) mod 65536" "(i + 32768) mod 65536 < 65536" by simp_all
  then show "centred 16 (s16 i)" by (simp add: centred_def s16_def)
  have "s16 i mod 65536 = i mod 65536" by (simp add: s16_def mod_diff_left_eq)
  then show "(2 ^ 16) dvd (s16 i - i)" by (simp add: mod_eq_dvd_iff)
qed

lemma s32_wraps: "centred 32 (s32 i)" "(2 ^ 32) dvd (s32 i - i)"
  using in_s32_s32 [of i] s32_dvd [of i] by (simp_all add: centred_def in_s32_def)

lemma s32_add: "s32 (s32 i + j) = s32 (i + j)"
proof -
  have "(s32 i + j + 2147483648) mod 4294967296 = ((i + 2147483648) mod 4294967296 + j) mod 4294967296" by (simp add: s32_def)
  also have "\<dots> = (i + 2147483648 + j) mod 4294967296" by (rule mod_add_left_eq)
  finally show ?thesis unfolding s32_def [of "s32 i + j"] s32_def [of "i + j"] by (simp add: algebra_simps)
qed

lemma s32_add_right: "s32 (i + s32 j) = s32 (i + j)"
  using s32_add [of j i] by (simp add: add.commute)

lemma in_s32_0: "in_s32 0"
  by (simp add: in_s32_def)

section \<open>The contract\<close>

fun run_cycles :: "('i \<Rightarrow> 's \<Rightarrow> 's option) \<Rightarrow> 'i list \<Rightarrow> 's \<Rightarrow> 's option" where
  "run_cycles step [] s = Some s"
| "run_cycles step (i # is) s = Option.bind (step i s) (run_cycles step is)"

text \<open>
  Positions that give a sequence of counts of \<open>b\<close> bits: each agrees with its count and is less
  than half a turn of the counter away from the one before.
\<close>

fun count_true :: "nat \<Rightarrow> int \<Rightarrow> int list \<Rightarrow> int list \<Rightarrow> bool" where
  "count_true b p [] [] \<longleftrightarrow> True"
| "count_true b p (q # qs) (w # ws) \<longleftrightarrow> centred b (q - p) \<and> (2 ^ b) dvd (q - w) \<and> count_true b q qs ws"
| "count_true b p _ _ \<longleftrightarrow> False"

text \<open>
  A counter has a count and the last hardware count, and steps with inputs that carry a new one.
  A live state and a quiet input (nothing asks for a reset, a latch or a preset) give a live state,
  in which the count has moved by the wrapped difference.
\<close>

locale hw_counter =
  fixes step :: "'i \<Rightarrow> 's \<Rightarrow> 's option" and live :: "'s \<Rightarrow> bool" and quiet :: "'i \<Rightarrow> bool"
    and raw :: "'i \<Rightarrow> int" and cnt :: "'s \<Rightarrow> int" and lst :: "'s \<Rightarrow> int" and wrap :: "int \<Rightarrow> int" and width :: nat
  assumes width_pos: "0 < width"
    and wrap_centred: "centred width (wrap i)"
    and wrap_dvd: "(2 ^ width) dvd (wrap i - i)"
    and step_quiet: "live s \<Longrightarrow> quiet x \<Longrightarrow>
      \<exists>s'. step x s = Some s' \<and> live s' \<and> lst s' = raw x \<and> cnt s' = s32 (cnt s + wrap (raw x - lst s))"
begin

lemma wrap_true:
  assumes "centred width (q - p)" and "(2 ^ width) dvd (q - w)" and "(2 ^ width) dvd (p - l)"
  shows "wrap (w - l) = q - p"
proof -
  have "(2 ^ width) dvd ((wrap (w - l) - (w - l)) - ((q - w) - (p - l)))"
    by (intro dvd_diff wrap_dvd assms(2,3))
  then have "(2 ^ width) dvd (wrap (w - l) - (q - p))" by (simp add: algebra_simps)
  then show ?thesis using centred_unique [OF width_pos wrap_centred assms(1)] by blast
qed

lemma tracks:
  assumes "live s" and "in_s32 (cnt s)" and "(2 ^ width) dvd (p - lst s)" and "\<forall>x\<in>set xs. quiet x"
    and "count_true width p qs (map raw xs)"
  shows "\<exists>s'. run_cycles step xs s = Some s' \<and> live s' \<and> cnt s' = s32 (cnt s + (last (p # qs) - p)) \<and>
    (2 ^ width) dvd (last (p # qs) - lst s')"
  using assms
proof (induction xs arbitrary: s p qs)
  case Nil
  then show ?case by (cases qs) simp_all
next
  case (Cons x xs)
  obtain q qs' where qs: "qs = q # qs'" using Cons.prems(5) by (cases qs) simp_all
  obtain s1 where s1: "step x s = Some s1" "live s1" "lst s1 = raw x" "cnt s1 = s32 (cnt s + wrap (raw x - lst s))"
    using step_quiet [of s x] Cons.prems(1,4) by auto
  have q: "centred width (q - p)" "(2 ^ width) dvd (q - raw x)" "count_true width q qs' (map raw xs)"
    using Cons.prems(5) by (simp_all add: qs)
  have w: "wrap (raw x - lst s) = q - p" by (rule wrap_true [OF q(1,2) Cons.prems(3)])
  obtain s' where s': "run_cycles step xs s1 = Some s'" "live s'" "cnt s' = s32 (cnt s1 + (last (q # qs') - q))"
    "(2 ^ width) dvd (last (q # qs') - lst s')"
    using Cons.IH [of s1 q qs'] Cons.prems(4) s1 q by auto
  have "s32 (s32 (cnt s + (q - p)) + (last (q # qs') - q)) = s32 (cnt s + (last (q # qs') - p))"
    by (simp only: s32_add) (simp add: algebra_simps)
  then show ?case using s1 s' by (simp add: qs w)
qed

end

end
