(* ===== verification/DevEl5101.thy ===== *)
theory DevEl5101
  imports DevCounter
begin

text \<open>
  The driver of the EL5101 encoder interface (\<open>devices/lcec_el5101.c\<close>): a count of 16 bits with a
  status and a control byte, latches, frequency, period and window.
\<close>

section \<open>State and tables\<close>

record el5101 = counter +
  e1_ena_latch_c :: bool
  e1_ena_latch_ext_pos :: bool
  e1_ena_latch_ext_neg :: bool
  e1_inext :: bool
  e1_overflow :: bool
  e1_underflow :: bool
  e1_latch_c_valid :: bool
  e1_latch_ext_valid :: bool
  e1_raw_latch :: int
  e1_raw_frequency :: u32
  e1_raw_period :: u32
  e1_raw_window :: u32
  e1_period :: real
  e1_frequency :: real
  e1_frequency_scale :: real
  e1_last_operational :: bool

definition el5101_pins :: "pindesc list" where
  "el5101_pins =
     [pin_row HAL_BIT HAL_IO ''ena_latch_c'' ''%s.%s.%s.enc-index-c-enable'',
      pin_row HAL_BIT HAL_IO ''ena_latch_ext_pos'' ''%s.%s.%s.enc-index-ext-pos-enable'',
      pin_row HAL_BIT HAL_IO ''ena_latch_ext_neg'' ''%s.%s.%s.enc-index-ext-neg-enable'',
      pin_row HAL_BIT HAL_IN ''reset'' ''%s.%s.%s.enc-reset'',
      pin_row HAL_BIT HAL_OUT ''inext'' ''%s.%s.%s.enc-inext'',
      pin_row HAL_BIT HAL_OUT ''overflow'' ''%s.%s.%s.enc-overflow'',
      pin_row HAL_BIT HAL_OUT ''underflow'' ''%s.%s.%s.enc-underflow'',
      pin_row HAL_BIT HAL_OUT ''latch_c_valid'' ''%s.%s.%s.enc-latch-c-valid'',
      pin_row HAL_BIT HAL_OUT ''latch_ext_valid'' ''%s.%s.%s.enc-latch-ext-valid'',
      pin_row HAL_BIT HAL_IO ''set_raw_count'' ''%s.%s.%s.enc-set-raw-count'',
      pin_row HAL_S32 HAL_IN ''set_raw_count_val'' ''%s.%s.%s.enc-set-raw-count-val'',
      pin_row HAL_S32 HAL_OUT ''raw_count'' ''%s.%s.%s.enc-raw-count'',
      pin_row HAL_S32 HAL_OUT ''count'' ''%s.%s.%s.enc-count'',
      pin_row HAL_S32 HAL_OUT ''raw_latch'' ''%s.%s.%s.enc-raw-latch'',
      pin_row HAL_U32 HAL_OUT ''raw_frequency'' ''%s.%s.%s.enc-raw-freq'',
      pin_row HAL_U32 HAL_OUT ''raw_period'' ''%s.%s.%s.enc-raw-period'',
      pin_row HAL_U32 HAL_OUT ''raw_window'' ''%s.%s.%s.enc-raw-window'',
      pin_row HAL_FLOAT HAL_OUT ''pos'' ''%s.%s.%s.enc-pos'',
      pin_row HAL_FLOAT HAL_OUT ''period'' ''%s.%s.%s.enc-period'',
      pin_row HAL_FLOAT HAL_OUT ''frequency'' ''%s.%s.%s.enc-frequency'',
      pin_row HAL_FLOAT HAL_IO ''frequency_scale'' ''%s.%s.%s.enc-frequency-scale'',
      pin_row HAL_FLOAT HAL_IO ''pos_scale'' ''%s.%s.%s.enc-pos-scale'',
      pin_end]"

definition el5101_in :: "pdo_entry_info list" where
  "el5101_in = [entry 0x6000 0x01 8, entry 0x6000 0x02 16, entry 0x6000 0x03 16]"

definition el5101_period :: "pdo_entry_info list" where
  "el5101_period = [entry 0x6000 0x04 32, entry 0x6000 0x05 16, entry 0x6000 0x06 16]"

definition el5101_out :: "pdo_entry_info list" where
  "el5101_out = [entry 0x7000 0x01 8, entry 0x7000 0x02 16]"

definition el5101_syncs :: "static_sync list" where
  "el5101_syncs =
     [ssync 0 EC_DIR_OUTPUT 0 [], ssync 1 EC_DIR_INPUT 0 [],
      ssync 2 EC_DIR_OUTPUT 1 [spdo 0x1600 2 el5101_out],
      ssync 3 EC_DIR_INPUT 2 [spdo 0x1A00 3 el5101_in, spdo 0x1A02 3 el5101_period],
      ssync_end]"

definition el5101_rows :: "pdo_row list" where
  "el5101_rows =
     [word_row 0x6000 0x01 status_pdo, word_row 0x6000 0x02 value_pdo, word_row 0x6000 0x03 latch_pdo,
      word_row 0x6000 0x04 frequency_pdo, word_row 0x6000 0x05 period_pdo, word_row 0x6000 0x06 window_pdo,
      word_row 0x7000 0x01 control_pdo, word_row 0x7000 0x02 setval_pdo]"

section \<open>Operations\<close>

definition el5101_start :: "(real \<Rightarrow> real) \<Rightarrow> el5101" where
  "el5101_start rnd =
     counter_start rnd
       \<lparr>e1_ena_latch_c = False, e1_ena_latch_ext_pos = False, e1_ena_latch_ext_neg = False, e1_inext = False,
        e1_overflow = False, e1_underflow = False, e1_latch_c_valid = False, e1_latch_ext_valid = False, e1_raw_latch = 0,
        e1_raw_frequency = 0, e1_raw_period = 0, e1_raw_window = 0, e1_period = 0, e1_frequency = 0,
        e1_frequency_scale = rnd (5 / 100), e1_last_operational = False\<rparr>"

text \<open>The structure is left as it is when the pins cannot be exported; the caller then fails.\<close>

definition lcec_el5101_init ::
    "hal_env \<Rightarrow> (real \<Rightarrow> real) \<Rightarrow> string \<Rightarrow> lcec_slave \<Rightarrow> hal_obj list \<Rightarrow> (int \<times> el5101 option \<times> lcec_slave \<times> hal_obj list) option" where
  "lcec_el5101_init env rnd mname s objs =
     do {
       let s = s\<lparr>sl_proc_read := True, sl_proc_write := True, sl_sync_info := True\<rparr>;
       s \<leftarrow> pdo_init_rows el5101_rows s;
       (err, objs) \<leftarrow> lcec_pin_newf_list env el5101_pins [FStr LCEC_MODULE_NAME, FStr mname, FStr (sl_name s)] objs;
       if err \<noteq> 0 then Some (err, None, s, objs) else Some (0, Some (el5101_start rnd), s, objs)
     }"

text \<open>What a cycle reads from the process data.\<close>

record el5101_raw =
  r1_status :: u8
  r1_count :: int
  r1_latch :: int
  r1_frequency :: u32
  r1_period :: u16
  r1_window :: u16

definition el5101_status :: "u8 \<Rightarrow> el5101 \<Rightarrow> el5101" where
  "el5101_status st d =
     d\<lparr>e1_inext := st AND 32 \<noteq> 0, e1_overflow := st AND 16 \<noteq> 0, e1_underflow := st AND 8 \<noteq> 0,
       e1_latch_ext_valid := st AND 2 \<noteq> 0, e1_latch_c_valid := st AND 1 \<noteq> 0\<rparr>"

definition el5101_values :: "el5101_raw \<Rightarrow> el5101 \<Rightarrow> el5101" where
  "el5101_values r d =
     (if \<not> k_set_raw_count d
      then d\<lparr>k_raw_count := r1_count r, e1_raw_frequency := r1_frequency r, e1_raw_period := ucast (r1_period r),
             e1_raw_window := ucast (r1_window r)\<rparr>
      else d)"

definition el5101_latch :: "int \<Rightarrow> el5101 \<Rightarrow> el5101" where
  "el5101_latch latch d =
     (let d = (if e1_latch_ext_valid d
               then d\<lparr>e1_raw_latch := latch, k_last_count := latch, k_count := 0, e1_ena_latch_ext_pos := False,
                      e1_ena_latch_ext_neg := False\<rparr> else d)
      in if e1_latch_c_valid d
         then d\<lparr>e1_raw_latch := latch, k_last_count := latch, k_count := 0, e1_ena_latch_c := False\<rparr> else d)"

definition el5101_update :: "(real \<Rightarrow> real) \<Rightarrow> el5101_raw \<Rightarrow> el5101 \<Rightarrow> el5101" where
  "el5101_update rnd r d =
     (let d = el5101_status (r1_status r) d;
          d = counter_operational (e1_last_operational d) (r1_count r) d;
          d = counter_set_done (r1_status r AND 4 \<noteq> 0) (r1_count r) d;
          d = el5101_values r d;
          d = counter_init (r1_count r) d;
          d = el5101_latch (r1_latch r) d;
          d = counter_net s16 rnd (r1_count r) d
      in d\<lparr>e1_frequency := rnd (real_of_int (uint (e1_raw_frequency d)) * e1_frequency_scale d),
           e1_period := rnd (real_of_int (uint (e1_raw_period d)) * rnd (500 / 10 ^ 9)),
           e1_last_operational := True\<rparr>)"

definition el5101_load :: "ec_macros \<Rightarrow> u8 list \<Rightarrow> positions \<Rightarrow> el5101_raw option" where
  "el5101_load ec pd P =
     do {
       st \<leftarrow> rd_u8 pd P status_pdo;
       cnt \<leftarrow> rd_s16 ec pd P value_pdo;
       latch \<leftarrow> rd_s16 ec pd P latch_pdo;
       fr \<leftarrow> rd_u32 ec pd P frequency_pdo;
       per \<leftarrow> rd_u16 ec pd P period_pdo;
       win \<leftarrow> rd_u16 ec pd P window_pdo;
       Some \<lparr>r1_status = st, r1_count = cnt, r1_latch = latch, r1_frequency = fr, r1_period = per, r1_window = win\<rparr>
     }"

definition lcec_el5101_read ::
    "ec_macros \<Rightarrow> (real \<Rightarrow> real) \<Rightarrow> positions \<Rightarrow> bool \<Rightarrow> u8 list \<Rightarrow> el5101 \<Rightarrow> el5101 option" where
  "lcec_el5101_read ec rnd P operational pd d =
     (if \<not> operational then Some (d\<lparr>e1_last_operational := False\<rparr>)
      else map_option (\<lambda>r. el5101_update rnd r (counter_scale rnd d)) (el5101_load ec pd P))"

definition el5101_control :: "el5101 \<Rightarrow> u8" where
  "el5101_control d =
     (if e1_ena_latch_ext_neg d then 8 else 0) OR (if k_set_raw_count d then 4 else 0) OR
     (if e1_ena_latch_ext_pos d then 2 else 0) OR (if e1_ena_latch_c d then 1 else 0)"

definition el5101_outs :: "el5101 \<Rightarrow> (nat \<times> out_val) list" where
  "el5101_outs d = [(control_pdo, Out8 (el5101_control d)), (setval_pdo, Out16 (k_set_raw_count_val d))]"

definition lcec_el5101_write :: "ec_macros \<Rightarrow> positions \<Rightarrow> el5101 \<Rightarrow> u8 list \<Rightarrow> u8 list option" where
  "lcec_el5101_write ec P d pd = wr_all ec P (el5101_outs d) pd"

section \<open>Tables and positions\<close>

text \<open>The tables evaluated: where the entries are, what is registered, and where the members are.\<close>

lemmas el5101_table_defs = el5101_syncs_def el5101_in_def el5101_period_def el5101_out_def

lemma el5101_places: "table_places el5101_syncs =
     [(7340033, 2, EC_DIR_OUTPUT, 0, 8), (7340034, 2, EC_DIR_OUTPUT, 8, 16), (6291457, 3, EC_DIR_INPUT, 0, 8),
      (6291458, 3, EC_DIR_INPUT, 8, 16), (6291459, 3, EC_DIR_INPUT, 24, 16), (6291460, 3, EC_DIR_INPUT, 40, 32),
      (6291461, 3, EC_DIR_INPUT, 72, 16), (6291462, 3, EC_DIR_INPUT, 88, 16)]"
  by (simp add: table_simps el5101_table_defs)

lemma el5101_keys: "row_keys el5101_rows =
     [(6291457, 0, None), (6291458, 1, None), (6291459, 2, None), (6291460, 3, None), (6291461, 4, None), (6291462, 5, None),
      (7340033, 6, None), (7340034, 7, None)]"
  by (simp add: table_simps el5101_rows_def)

lemma el5101_members: "member_table el5101_syncs el5101_rows =
     [(0, Some (3, EC_DIR_INPUT, 0, 8), None), (1, Some (3, EC_DIR_INPUT, 8, 16), None),
      (2, Some (3, EC_DIR_INPUT, 24, 16), None), (3, Some (3, EC_DIR_INPUT, 40, 32), None),
      (4, Some (3, EC_DIR_INPUT, 72, 16), None), (5, Some (3, EC_DIR_INPUT, 88, 16), None),
      (6, Some (2, EC_DIR_OUTPUT, 0, 8), None), (7, Some (2, EC_DIR_OUTPUT, 8, 16), None)]"
  unfolding member_table_def el5101_places el5101_keys by (simp cong: find_key_cong members_at_cong)

lemma el5101_tables: "driver_tables_ok el5101_syncs el5101_rows"
  unfolding driver_tables_ok_def el5101_members by (simp add: member_simps table_simps el5101_table_defs)

lemma el5101_members_ok:
  "reads_ok el5101_syncs el5101_rows []
     [(status_pdo, 1), (value_pdo, 2), (latch_pdo, 2), (frequency_pdo, 4), (period_pdo, 2), (window_pdo, 2)]"
  "outs_ok el5101_syncs el5101_rows [(control_pdo, 8), (setval_pdo, 16)]"
  unfolding reads_ok_def outs_ok_def el5101_members by (simp_all add: member_simps cong: find_key_cong)

lemma el5101_write_on_bus:
  assumes "ec_le ec" and "placed el5101_syncs el5101_rows base P (length pd)"
  shows "\<exists>pd'. lcec_el5101_write ec P d pd = Some pd' \<and> on_bus P (el5101_outs d) pd pd'"
  using wr_all_placed [OF assms, of "el5101_outs d"] el5101_members_ok(2)
  by (simp add: lcec_el5101_write_def el5101_outs_def out_shape_def)

lemma el5101_control_bits:
  "bit (el5101_control d) 0 = e1_ena_latch_c d" "bit (el5101_control d) 1 = e1_ena_latch_ext_pos d"
  "bit (el5101_control d) 2 = k_set_raw_count d" "bit (el5101_control d) 3 = e1_ena_latch_ext_neg d"
  by (simp_all add: el5101_control_def bit_or_iff)

section \<open>The counter\<close>

text \<open>The positions are inside the process data.\<close>

definition el5101_in_pd :: "nat \<Rightarrow> positions \<Rightarrow> bool" where
  "el5101_in_pd n P \<longleftrightarrow>
     bytes_in n P [(status_pdo, 1), (value_pdo, 2), (latch_pdo, 2), (frequency_pdo, 4), (period_pdo, 2), (window_pdo, 2)]"

definition el5101_count :: "ec_macros \<Rightarrow> positions \<Rightarrow> u8 list \<Rightarrow> int" where
  "el5101_count ec P pd = sint (EC_READ_U16 ec (bytes_at pd P value_pdo 2))"

text \<open>
  A cycle: another component changes pins, then the driver reads. Quiet are cycles without a
  reset, with an operational slave, and with no latch and no preset reported by it.
\<close>

type_synonym el5101_cycle = "(el5101 \<Rightarrow> el5101) \<times> bool \<times> u8 list"

definition el5101_step :: "ec_macros \<Rightarrow> (real \<Rightarrow> real) \<Rightarrow> positions \<Rightarrow> el5101_cycle \<Rightarrow> el5101 \<Rightarrow> el5101 option" where
  "el5101_step ec rnd P c d = (case c of (user, operational, pd) \<Rightarrow> lcec_el5101_read ec rnd P operational pd (user d))"

definition el5101_quiet :: "ec_macros \<Rightarrow> positions \<Rightarrow> el5101_cycle \<Rightarrow> bool" where
  "el5101_quiet ec P c \<longleftrightarrow>
     (case c of (user, operational, pd) \<Rightarrow>
        counter_user user \<and> (\<forall>d. e1_last_operational (user d) = e1_last_operational d) \<and> operational \<and>
        el5101_in_pd (length pd) P \<and> (pd ! unat (ps_os P status_pdo)) AND 7 = 0)"

definition el5101_live :: "el5101 \<Rightarrow> bool" where
  "el5101_live d \<longleftrightarrow> e1_last_operational d \<and> \<not> k_do_init d"

lemma el5101_load_in:
  assumes "el5101_in_pd (length pd) P"
  obtains r where "el5101_load ec pd P = Some r" and "r1_status r = pd ! unat (ps_os P status_pdo)"
    and "r1_count r = el5101_count ec P pd"
    and "r1_latch r = sint (EC_READ_U16 ec (bytes_at pd P latch_pdo 2))"
  using assms by (simp add: el5101_in_pd_def bytes_in_def el5101_load_def el5101_count_def rd_simps)

lemma el5101_placed_in: "placed el5101_syncs el5101_rows base P n \<Longrightarrow> el5101_in_pd n P"
  using placed_reads(2) [OF _ el5101_members_ok(1)] by (simp add: el5101_in_pd_def)

lemma status_bits:
  assumes "(st :: u8) AND 7 = 0"
  shows "st AND 4 = 0" and "st AND 2 = 0" and "st AND 1 = 0"
proof -
  have "st AND m = (st AND 7) AND m" if "7 AND m = m" for m using that by (simp add: and.assoc)
  then show "st AND 4 = 0" and "st AND 2 = 0" and "st AND 1 = 0" using assms by simp_all
qed

lemma el5101_update_count:
  "counts_from s16 (r1_status r AND 2 \<noteq> 0 \<or> r1_status r AND 1 \<noteq> 0) (r1_latch r)
     (\<not> e1_last_operational d \<or> r1_status r AND 4 \<noteq> 0) (r1_count r) d (el5101_update rnd r d)"
proof -
  define d1 where "d1 = counter_set_done (r1_status r AND 4 \<noteq> 0) (r1_count r)
    (counter_operational (e1_last_operational d) (r1_count r) (el5101_status (r1_status r) d))"
  have d1: "k_do_init d1 = k_do_init d" "k_reset d1 = k_reset d" "k_count d1 = k_count d"
    "k_last_count d1 = (if \<not> e1_last_operational d \<or> r1_status r AND 4 \<noteq> 0 then r1_count r else k_last_count d)"
    "e1_latch_ext_valid d1 = (r1_status r AND 2 \<noteq> 0)" "e1_latch_c_valid d1 = (r1_status r AND 1 \<noteq> 0)"
    by (simp_all add: d1_def counter_set_done_def counter_operational_def el5101_status_def)
  define d2 where "d2 = counter_init (r1_count r) (el5101_values r d1)"
  have d2: "\<not> k_do_init d2" "k_count d2 = (if k_do_init d \<or> k_reset d then 0 else k_count d)"
    "k_last_count d2 = (if k_do_init d \<or> k_reset d then r1_count r else k_last_count d1)"
    "e1_latch_ext_valid d2 = (r1_status r AND 2 \<noteq> 0)" "e1_latch_c_valid d2 = (r1_status r AND 1 \<noteq> 0)"
    by (auto simp: d2_def counter_init_def el5101_values_def d1)
  define d3 where "d3 = el5101_latch (r1_latch r) d2"
  have "k_do_init d3 = k_do_init d2" by (simp add: d3_def el5101_latch_def Let_def)
  moreover have "fst (counter_base (r1_status r AND 2 \<noteq> 0 \<or> r1_status r AND 1 \<noteq> 0) (r1_latch r)
      (\<not> e1_last_operational d \<or> r1_status r AND 4 \<noteq> 0) (r1_count r) d) = k_count d3"
    and "snd (counter_base (r1_status r AND 2 \<noteq> 0 \<or> r1_status r AND 1 \<noteq> 0) (r1_latch r)
      (\<not> e1_last_operational d \<or> r1_status r AND 4 \<noteq> 0) (r1_count r) d) = k_last_count d3"
    by (simp_all add: d3_def el5101_latch_def Let_def d2 d1(4) counter_base_def)
  moreover have "el5101_update rnd r d = (let d = counter_net s16 rnd (r1_count r) d3 in
      d\<lparr>e1_frequency := rnd (real_of_int (uint (e1_raw_frequency d)) * e1_frequency_scale d),
        e1_period := rnd (real_of_int (uint (e1_raw_period d)) * rnd (500 / 10 ^ 9)), e1_last_operational := True\<rparr>)"
    unfolding d3_def d2_def d1_def el5101_update_def Let_def by (simp add: el5101_status_def)
  ultimately show ?thesis using d2(1) by (simp add: counts_from_def Let_def counter_simps)
qed

lemma el5101_update_operational [simp]: "e1_last_operational (el5101_update rnd r d)"
  by (simp add: el5101_update_def Let_def)

interpretation el5101: hw_counter "el5101_step ec rnd P" el5101_live "el5101_quiet ec P"
  "\<lambda>c. el5101_count ec P (snd (snd c))" k_count k_last_count s16 16
proof (unfold_locales)
  fix d c assume l: "el5101_live d" and q: "el5101_quiet ec P c"
  obtain user operational pd where c: "c = (user, operational, pd)" by (metis prod_cases3)
  have q': "counter_user user" "e1_last_operational (user d) = e1_last_operational d" "operational" "el5101_in_pd (length pd) P"
    "(pd ! unat (ps_os P status_pdo)) AND 7 = 0" using q by (simp_all add: c el5101_quiet_def)
  obtain r where r: "el5101_load ec pd P = Some r" "r1_status r = pd ! unat (ps_os P status_pdo)" "r1_count r = el5101_count ec P pd"
    by (rule el5101_load_in [OF q'(4)])
  let ?d = "counter_scale rnd (user d)"
  have m: "e1_last_operational ?d = e1_last_operational (user d)" by (simp add: counter_scale_def Let_def)
  have d: "el5101_live ?d" "\<not> k_reset ?d" "k_count ?d = k_count d" "k_last_count ?d = k_last_count d"
    using l q'(1,2) m by (simp_all add: el5101_live_def counter_user_def counter_simps)
  have "r1_status r AND 7 = 0" using q'(5) r(2) by simp
  then show "\<exists>s'. el5101_step ec rnd P c d = Some s' \<and> el5101_live s' \<and> k_last_count s' = el5101_count ec P (snd (snd c)) \<and>
      k_count s' = s32 (k_count d + s16 (el5101_count ec P (snd (snd c)) - k_last_count d))"
    using counts_from_quiet [of s16 _ _ ?d "el5101_update rnd r ?d"] el5101_update_count [of r ?d rnd] status_bits [of "r1_status r"]
      q'(3) r d by (simp add: el5101_step_def c lcec_el5101_read_def el5101_live_def)
qed (simp, rule s16_wraps, rule s16_wraps)

text \<open>Cycles of an operational slave that reports no latch and no preset, with the driver's process data.\<close>

definition el5101_running :: "positions \<Rightarrow> nat \<Rightarrow> el5101_cycle \<Rightarrow> bool" where
  "el5101_running P n c \<longleftrightarrow>
     (case c of (user, operational, pd) \<Rightarrow>
        counter_user user \<and> (\<forall>d. e1_last_operational (user d) = e1_last_operational d) \<and> operational \<and> length pd = n \<and>
        (pd ! unat (ps_os P status_pdo)) AND 7 = 0)"

lemma el5101_running_quiet: "el5101_in_pd n P \<Longrightarrow> el5101_running P n c \<Longrightarrow> el5101_quiet ec P c"
  by (auto simp: el5101_running_def el5101_quiet_def)

lemma el5101_first_cycle:
  assumes "el5101_in_pd n P" and "el5101_running P n c" and "k_do_init d"
  shows "\<exists>d'. el5101_step ec rnd P c d = Some d' \<and> el5101_live d' \<and> k_count d' = 0 \<and>
    k_last_count d' = el5101_count ec P (snd (snd c))"
proof -
  obtain user operational pd where c: "c = (user, operational, pd)" by (metis prod_cases3)
  have q: "counter_user user" operational "el5101_in_pd (length pd) P" "(pd ! unat (ps_os P status_pdo)) AND 7 = 0"
    using assms(1,2) by (auto simp: c el5101_running_def)
  obtain r where r: "el5101_load ec pd P = Some r" "r1_status r = pd ! unat (ps_os P status_pdo)" "r1_count r = el5101_count ec P pd"
    by (rule el5101_load_in [OF q(3)])
  let ?d = "counter_scale rnd (user d)"
  have "k_do_init ?d" using assms(3) q(1) by (simp add: counter_user_def counter_simps)
  moreover have "r1_status r AND 7 = 0" using q(4) r(2) by simp
  ultimately show ?thesis
    using counts_from_init [of s16 _ _ _ ?d "el5101_update rnd r ?d"] el5101_update_count [of r ?d rnd] status_bits [of "r1_status r"] q(2) r
    by (simp add: el5101_step_def c lcec_el5101_read_def el5101_live_def s16_def)
qed

lemma el5101_from_start:
  assumes "el5101_in_pd n P" and "\<forall>x\<in>set (c # cs). el5101_running P n x"
    and "(2 ^ 16) dvd (p - el5101_count ec P (snd (snd c)))"
    and "count_true 16 p qs (map (\<lambda>x. el5101_count ec P (snd (snd x))) cs)"
  shows "\<exists>d. run_cycles (el5101_step ec rnd P) (c # cs) (el5101_start rnd) = Some d \<and> k_count d = s32 (last (p # qs) - p)"
proof -
  have i: "k_do_init (el5101_start rnd)" by (simp add: el5101_start_def counter_start_def)
  obtain d1 where d1: "el5101_step ec rnd P c (el5101_start rnd) = Some d1" "el5101_live d1" "k_count d1 = 0"
    "k_last_count d1 = el5101_count ec P (snd (snd c))"
    using el5101_first_cycle [OF assms(1) _ i, of c ec rnd] assms(2) by auto
  have "\<forall>x\<in>set cs. el5101_quiet ec P x" using assms(1,2) el5101_running_quiet by auto
  then show ?thesis using el5101.tracks [OF d1(2), of p cs ec P qs rnd] d1 assms(3,4) by (auto simp: in_s32_def)
qed

end
