(* ===== verification/DevEl5151.thy ===== *)
theory DevEl5151
  imports DevCounter
begin

text \<open>
  The driver of the EL5151 encoder interface (\<open>devices/lcec_el5151.c\<close>): a count of 32 bits with
  latches on the zero and the external input, and the period of the signal.
\<close>

section \<open>State and tables\<close>

record el5151 = counter +
  e2_ena_latch_c :: bool
  e2_ena_latch_ext_pos :: bool
  e2_ena_latch_ext_neg :: bool
  e2_ina :: bool
  e2_inb :: bool
  e2_inc :: bool
  e2_inext :: bool
  e2_expol_stall :: bool
  e2_sync_err :: bool
  e2_latch_c_valid :: bool
  e2_latch_ext_valid :: bool
  e2_tx_toggle :: bool
  e2_raw_latch :: int
  e2_raw_period :: u32
  e2_period :: real
  e2_last_operational :: bool

definition el5151_pins :: "pindesc list" where
  "el5151_pins =
     [pin_row HAL_BIT HAL_IO ''ena_latch_c'' ''%s.%s.%s.enc-index-c-enable'',
      pin_row HAL_BIT HAL_IO ''ena_latch_ext_pos'' ''%s.%s.%s.enc-index-ext-pos-enable'',
      pin_row HAL_BIT HAL_IO ''ena_latch_ext_neg'' ''%s.%s.%s.enc-index-ext-neg-enable'',
      pin_row HAL_BIT HAL_IN ''reset'' ''%s.%s.%s.enc-reset'',
      pin_row HAL_BIT HAL_OUT ''ina'' ''%s.%s.%s.enc-ina'',
      pin_row HAL_BIT HAL_OUT ''inb'' ''%s.%s.%s.enc-inb'',
      pin_row HAL_BIT HAL_OUT ''inc'' ''%s.%s.%s.enc-inc'',
      pin_row HAL_BIT HAL_OUT ''inext'' ''%s.%s.%s.enc-inext'',
      pin_row HAL_BIT HAL_OUT ''expol_stall'' ''%s.%s.%s.enc-expol-stall'',
      pin_row HAL_BIT HAL_OUT ''sync_err'' ''%s.%s.%s.enc-sync-error'',
      pin_row HAL_BIT HAL_OUT ''latch_c_valid'' ''%s.%s.%s.enc-latch-c-valid'',
      pin_row HAL_BIT HAL_OUT ''latch_ext_valid'' ''%s.%s.%s.enc-latch-ext-valid'',
      pin_row HAL_BIT HAL_OUT ''tx_toggle'' ''%s.%s.%s.enc-tx-toggle'',
      pin_row HAL_BIT HAL_IO ''set_raw_count'' ''%s.%s.%s.enc-set-raw-count'',
      pin_row HAL_S32 HAL_IN ''set_raw_count_val'' ''%s.%s.%s.enc-set-raw-count-val'',
      pin_row HAL_S32 HAL_OUT ''raw_count'' ''%s.%s.%s.enc-raw-count'',
      pin_row HAL_S32 HAL_OUT ''count'' ''%s.%s.%s.enc-count'',
      pin_row HAL_S32 HAL_OUT ''raw_latch'' ''%s.%s.%s.enc-raw-latch'',
      pin_row HAL_U32 HAL_OUT ''raw_period'' ''%s.%s.%s.enc-raw-period'',
      pin_row HAL_FLOAT HAL_OUT ''pos'' ''%s.%s.%s.enc-pos'',
      pin_row HAL_FLOAT HAL_OUT ''period'' ''%s.%s.%s.enc-period'',
      pin_row HAL_FLOAT HAL_IO ''pos_scale'' ''%s.%s.%s.enc-pos-scale'',
      pin_end]"

definition el5151_in :: "pdo_entry_info list" where
  "el5151_in =
     [entry 0x6000 0x01 1, entry 0x6000 0x02 1, entry 0x6000 0x03 1, entry 0 0 4, entry 0x6000 0x08 1,
      entry 0x6000 0x09 1, entry 0x6000 0x0a 1, entry 0x6000 0x0b 1, entry 0 0 1, entry 0x6000 0x0d 1,
      entry 0x1c32 0x20 1, entry 0 0 1, entry 0x1800 0x09 1, entry 0x6000 0x11 32, entry 0x6000 0x12 32]"

definition el5151_period :: "pdo_entry_info list" where
  "el5151_period = [entry 0x6000 0x14 32]"

definition el5151_out :: "pdo_entry_info list" where
  "el5151_out =
     [entry 0x7000 0x01 1, entry 0x7000 0x02 1, entry 0x7000 0x03 1, entry 0x7000 0x04 1, entry 0 0 4, entry 0 0 8,
      entry 0x7000 0x11 32]"

definition el5151_syncs :: "static_sync list" where
  "el5151_syncs =
     [ssync 0 EC_DIR_OUTPUT 0 [], ssync 1 EC_DIR_INPUT 0 [],
      ssync 2 EC_DIR_OUTPUT 1 [spdo 0x1600 7 el5151_out],
      ssync 3 EC_DIR_INPUT 2 [spdo 0x1A00 15 el5151_in, spdo 0x1A02 1 el5151_period],
      ssync_end]"

definition el5151_rows :: "pdo_row list" where
  "el5151_rows =
     [bit_row 0x6000 0x01 latch_c_valid_pdo, bit_row 0x6000 0x02 latch_ext_valid_pdo, bit_row 0x6000 0x03 set_count_done_pdo,
      bit_row 0x6000 0x08 expol_stall_pdo, bit_row 0x6000 0x09 ina_pdo, bit_row 0x6000 0x0a inb_pdo,
      bit_row 0x6000 0x0b inc_pdo, bit_row 0x6000 0x0d inext_pdo, bit_row 0x1c32 0x20 sync_err_pdo,
      bit_row 0x1800 0x09 tx_toggle_pdo, word_row 0x6000 0x11 count_pdo, word_row 0x6000 0x12 latch_pdo,
      word_row 0x6000 0x14 period_pdo, bit_row 0x7000 0x01 ena_latch_c_pdo, bit_row 0x7000 0x02 ena_latch_ext_pos_pdo,
      bit_row 0x7000 0x03 set_count_pdo, bit_row 0x7000 0x04 ena_latch_ext_neg_pdo, word_row 0x7000 0x11 set_count_val_pdo]"

section \<open>Operations\<close>

definition el5151_start :: "(real \<Rightarrow> real) \<Rightarrow> el5151" where
  "el5151_start rnd =
     counter_start rnd
       \<lparr>e2_ena_latch_c = False, e2_ena_latch_ext_pos = False, e2_ena_latch_ext_neg = False, e2_ina = False, e2_inb = False,
        e2_inc = False, e2_inext = False, e2_expol_stall = False, e2_sync_err = False, e2_latch_c_valid = False,
        e2_latch_ext_valid = False, e2_tx_toggle = False, e2_raw_latch = 0, e2_raw_period = 0, e2_period = 0,
        e2_last_operational = False\<rparr>"

definition lcec_el5151_init ::
    "hal_env \<Rightarrow> (real \<Rightarrow> real) \<Rightarrow> string \<Rightarrow> lcec_slave \<Rightarrow> hal_obj list \<Rightarrow> (int \<times> el5151 option \<times> lcec_slave \<times> hal_obj list) option" where
  "lcec_el5151_init env rnd mname s objs =
     do {
       let s = s\<lparr>sl_proc_read := True, sl_proc_write := True, sl_sync_info := True\<rparr>;
       s \<leftarrow> pdo_init_rows el5151_rows s;
       (err, objs) \<leftarrow> lcec_pin_newf_list env el5151_pins [FStr LCEC_MODULE_NAME, FStr mname, FStr (sl_name s)] objs;
       if err \<noteq> 0 then Some (err, None, s, objs) else Some (0, Some (el5151_start rnd), s, objs)
     }"

definition el5151_bits :: "ec_macros \<Rightarrow> u8 list \<Rightarrow> positions \<Rightarrow> el5151 \<Rightarrow> el5151 option" where
  "el5151_bits ec pd P d =
     do {
       ina \<leftarrow> rd_bit ec pd P ina_pdo;
       inb \<leftarrow> rd_bit ec pd P inb_pdo;
       inc \<leftarrow> rd_bit ec pd P inc_pdo;
       inext \<leftarrow> rd_bit ec pd P inext_pdo;
       stall \<leftarrow> rd_bit ec pd P expol_stall_pdo;
       sync_err \<leftarrow> rd_bit ec pd P sync_err_pdo;
       c_valid \<leftarrow> rd_bit ec pd P latch_c_valid_pdo;
       ext_valid \<leftarrow> rd_bit ec pd P latch_ext_valid_pdo;
       toggle \<leftarrow> rd_bit ec pd P tx_toggle_pdo;
       Some (d\<lparr>e2_ina := ina, e2_inb := inb, e2_inc := inc, e2_inext := inext, e2_expol_stall := stall, e2_sync_err := sync_err,
               e2_latch_c_valid := c_valid, e2_latch_ext_valid := ext_valid, e2_tx_toggle := toggle\<rparr>)
     }"

definition el5151_values :: "int \<Rightarrow> u32 \<Rightarrow> el5151 \<Rightarrow> el5151" where
  "el5151_values raw per d = (if \<not> k_set_raw_count d then d\<lparr>k_raw_count := raw, e2_raw_period := per\<rparr> else d)"

definition el5151_latch :: "int \<Rightarrow> el5151 \<Rightarrow> el5151" where
  "el5151_latch latch d =
     (let d = (if e2_latch_ext_valid d
               then d\<lparr>e2_raw_latch := latch, k_last_count := latch, k_count := 0, e2_ena_latch_ext_pos := False,
                      e2_ena_latch_ext_neg := False\<rparr> else d)
      in if e2_latch_c_valid d
         then d\<lparr>e2_raw_latch := latch, k_last_count := latch, k_count := 0, e2_ena_latch_c := False\<rparr> else d)"

definition el5151_update :: "(real \<Rightarrow> real) \<Rightarrow> int \<Rightarrow> int \<Rightarrow> u32 \<Rightarrow> bool \<Rightarrow> el5151 \<Rightarrow> el5151" where
  "el5151_update rnd raw latch per ack d =
     (let d = counter_operational (e2_last_operational d) raw d;
          d = counter_set_done ack raw d;
          d = el5151_values raw per d;
          d = counter_init raw d;
          d = el5151_latch latch d;
          d = counter_net s32 rnd raw d
      in d\<lparr>e2_period := rnd (real_of_int (uint (e2_raw_period d)) * rnd (1 / 10 ^ 7)), e2_last_operational := True\<rparr>)"

definition lcec_el5151_read ::
    "ec_macros \<Rightarrow> (real \<Rightarrow> real) \<Rightarrow> positions \<Rightarrow> bool \<Rightarrow> u8 list \<Rightarrow> el5151 \<Rightarrow> el5151 option" where
  "lcec_el5151_read ec rnd P operational pd d =
     (if \<not> operational then Some (d\<lparr>e2_last_operational := False\<rparr>)
      else do {
        d \<leftarrow> el5151_bits ec pd P (counter_scale rnd d);
        raw \<leftarrow> rd_s32 ec pd P count_pdo;
        latch \<leftarrow> rd_s32 ec pd P latch_pdo;
        per \<leftarrow> rd_u32 ec pd P period_pdo;
        ack \<leftarrow> rd_bit ec pd P set_count_done_pdo;
        Some (el5151_update rnd raw latch per ack d)
      })"

definition el5151_outs :: "el5151 \<Rightarrow> (nat \<times> out_val) list" where
  "el5151_outs d =
     [(set_count_pdo, OutBit (k_set_raw_count d)), (ena_latch_c_pdo, OutBit (e2_ena_latch_c d)),
      (ena_latch_ext_pos_pdo, OutBit (e2_ena_latch_ext_pos d)), (ena_latch_ext_neg_pdo, OutBit (e2_ena_latch_ext_neg d)),
      (set_count_val_pdo, Out32 (k_set_raw_count_val d))]"

definition lcec_el5151_write :: "ec_macros \<Rightarrow> positions \<Rightarrow> el5151 \<Rightarrow> u8 list \<Rightarrow> u8 list option" where
  "lcec_el5151_write ec P d pd = wr_all ec P (el5151_outs d) pd"

section \<open>Tables and positions\<close>

definition el5151_read_bits :: "nat list" where
  "el5151_read_bits =
     [ina_pdo, inb_pdo, inc_pdo, inext_pdo, expol_stall_pdo, sync_err_pdo, latch_c_valid_pdo, latch_ext_valid_pdo,
      tx_toggle_pdo, set_count_done_pdo]"

text \<open>The tables evaluated: where the entries are, what is registered, and where the members are.\<close>

lemmas el5151_table_defs = el5151_syncs_def el5151_in_def el5151_period_def el5151_out_def

lemma el5151_places: "table_places el5151_syncs =
     [(7340033, 2, EC_DIR_OUTPUT, 0, 1), (7340034, 2, EC_DIR_OUTPUT, 1, 1), (7340035, 2, EC_DIR_OUTPUT, 2, 1),
      (7340036, 2, EC_DIR_OUTPUT, 3, 1), (7340049, 2, EC_DIR_OUTPUT, 16, 32), (6291457, 3, EC_DIR_INPUT, 0, 1),
      (6291458, 3, EC_DIR_INPUT, 1, 1), (6291459, 3, EC_DIR_INPUT, 2, 1), (6291464, 3, EC_DIR_INPUT, 7, 1),
      (6291465, 3, EC_DIR_INPUT, 8, 1), (6291466, 3, EC_DIR_INPUT, 9, 1), (6291467, 3, EC_DIR_INPUT, 10, 1),
      (6291469, 3, EC_DIR_INPUT, 12, 1), (1847840, 3, EC_DIR_INPUT, 13, 1), (1572873, 3, EC_DIR_INPUT, 15, 1),
      (6291473, 3, EC_DIR_INPUT, 16, 32), (6291474, 3, EC_DIR_INPUT, 48, 32), (6291476, 3, EC_DIR_INPUT, 80, 32)]"
  by (simp add: table_simps el5151_table_defs)

lemma el5151_keys: "row_keys el5151_rows =
     [(6291457, 14, Some 14), (6291458, 15, Some 15), (6291459, 13, Some 13), (6291464, 16, Some 16), (6291465, 17, Some 17),
      (6291466, 18, Some 18), (6291467, 19, Some 19), (6291469, 20, Some 20), (1847840, 21, Some 21), (1572873, 22, Some 22),
      (6291473, 23, None), (6291474, 2, None), (6291476, 4, None), (7340033, 8, Some 8), (7340034, 9, Some 9),
      (7340035, 11, Some 11), (7340036, 10, Some 10), (7340049, 12, None)]"
  by (simp add: table_simps el5151_rows_def)

lemma el5151_members: "member_table el5151_syncs el5151_rows =
     [(14, Some (3, EC_DIR_INPUT, 0, 1), Some 14), (15, Some (3, EC_DIR_INPUT, 1, 1), Some 15),
      (13, Some (3, EC_DIR_INPUT, 2, 1), Some 13), (16, Some (3, EC_DIR_INPUT, 7, 1), Some 16),
      (17, Some (3, EC_DIR_INPUT, 8, 1), Some 17), (18, Some (3, EC_DIR_INPUT, 9, 1), Some 18),
      (19, Some (3, EC_DIR_INPUT, 10, 1), Some 19), (20, Some (3, EC_DIR_INPUT, 12, 1), Some 20),
      (21, Some (3, EC_DIR_INPUT, 13, 1), Some 21), (22, Some (3, EC_DIR_INPUT, 15, 1), Some 22),
      (23, Some (3, EC_DIR_INPUT, 16, 32), None), (2, Some (3, EC_DIR_INPUT, 48, 32), None),
      (4, Some (3, EC_DIR_INPUT, 80, 32), None), (8, Some (2, EC_DIR_OUTPUT, 0, 1), Some 8),
      (9, Some (2, EC_DIR_OUTPUT, 1, 1), Some 9), (11, Some (2, EC_DIR_OUTPUT, 2, 1), Some 11),
      (10, Some (2, EC_DIR_OUTPUT, 3, 1), Some 10), (12, Some (2, EC_DIR_OUTPUT, 16, 32), None)]"
  unfolding member_table_def el5151_places el5151_keys by (simp cong: find_key_cong members_at_cong)

lemma el5151_tables: "driver_tables_ok el5151_syncs el5151_rows"
  unfolding driver_tables_ok_def el5151_members by (simp add: member_simps table_simps el5151_table_defs)

lemma el5151_members_ok:
  "reads_ok el5151_syncs el5151_rows el5151_read_bits [(count_pdo, 4), (latch_pdo, 4), (period_pdo, 4)]"
  "outs_ok el5151_syncs el5151_rows
     [(set_count_pdo, 1), (ena_latch_c_pdo, 1), (ena_latch_ext_pos_pdo, 1), (ena_latch_ext_neg_pdo, 1), (set_count_val_pdo, 32)]"
  unfolding reads_ok_def outs_ok_def el5151_members
  by (simp_all add: member_simps el5151_read_bits_def cong: find_key_cong)

lemma el5151_write_on_bus:
  assumes "ec_le ec" and "placed el5151_syncs el5151_rows base P (length pd)"
  shows "\<exists>pd'. lcec_el5151_write ec P d pd = Some pd' \<and> on_bus P (el5151_outs d) pd pd'"
  using wr_all_placed [OF assms, of "el5151_outs d"] el5151_members_ok(2)
  by (simp add: lcec_el5151_write_def el5151_outs_def out_shape_def)

section \<open>The counter\<close>

definition el5151_in_pd :: "nat \<Rightarrow> positions \<Rightarrow> bool" where
  "el5151_in_pd n P \<longleftrightarrow> bits_in n P el5151_read_bits \<and> bytes_in n P [(count_pdo, 4), (latch_pdo, 4), (period_pdo, 4)]"

lemma el5151_placed_in: "placed el5151_syncs el5151_rows base P n \<Longrightarrow> el5151_in_pd n P"
  using placed_reads [OF _ el5151_members_ok(1)] by (simp add: el5151_in_pd_def)

definition el5151_count :: "ec_macros \<Rightarrow> positions \<Rightarrow> u8 list \<Rightarrow> int" where
  "el5151_count ec P pd = sint (EC_READ_U32 ec (bytes_at pd P count_pdo 4))"

type_synonym el5151_cycle = "(el5151 \<Rightarrow> el5151) \<times> bool \<times> u8 list"

definition el5151_step :: "ec_macros \<Rightarrow> (real \<Rightarrow> real) \<Rightarrow> positions \<Rightarrow> el5151_cycle \<Rightarrow> el5151 \<Rightarrow> el5151 option" where
  "el5151_step ec rnd P c d = (case c of (user, operational, pd) \<Rightarrow> lcec_el5151_read ec rnd P operational pd (user d))"

definition el5151_quiet :: "ec_macros \<Rightarrow> positions \<Rightarrow> el5151_cycle \<Rightarrow> bool" where
  "el5151_quiet ec P c \<longleftrightarrow>
     (case c of (user, operational, pd) \<Rightarrow>
        counter_user user \<and> (\<forall>d. e2_last_operational (user d) = e2_last_operational d) \<and> operational \<and>
        el5151_in_pd (length pd) P \<and> \<not> bit_at ec pd P set_count_done_pdo \<and>
        \<not> bit_at ec pd P latch_c_valid_pdo \<and> \<not> bit_at ec pd P latch_ext_valid_pdo)"

definition el5151_live :: "el5151 \<Rightarrow> bool" where
  "el5151_live d \<longleftrightarrow> e2_last_operational d \<and> \<not> k_do_init d"

lemma el5151_bits_in:
  assumes "el5151_in_pd (length pd) P"
  obtains d' where "el5151_bits ec pd P d = Some d'" and "e2_latch_c_valid d' = bit_at ec pd P latch_c_valid_pdo"
    and "e2_latch_ext_valid d' = bit_at ec pd P latch_ext_valid_pdo" and "e2_last_operational d' = e2_last_operational d"
    and "k_count d' = k_count d" and "k_last_count d' = k_last_count d" and "k_do_init d' = k_do_init d" and "k_reset d' = k_reset d"
    and "e2_ena_latch_ext_pos d' = e2_ena_latch_ext_pos d" and "e2_ena_latch_ext_neg d' = e2_ena_latch_ext_neg d"
    and "e2_ena_latch_c d' = e2_ena_latch_c d"
  using assms by (simp add: el5151_in_pd_def bits_in_def el5151_read_bits_def el5151_bits_def rd_simps)

lemma el5151_update_count:
  "counts_from s32 (e2_latch_ext_valid d \<or> e2_latch_c_valid d) latch (\<not> e2_last_operational d \<or> ack) raw d
     (el5151_update rnd raw latch per ack d)"
proof -
  define d1 where "d1 = counter_set_done ack raw (counter_operational (e2_last_operational d) raw d)"
  have d1: "k_do_init d1 = k_do_init d" "k_reset d1 = k_reset d" "k_count d1 = k_count d"
    "k_last_count d1 = (if \<not> e2_last_operational d \<or> ack then raw else k_last_count d)"
    "e2_latch_ext_valid d1 = e2_latch_ext_valid d" "e2_latch_c_valid d1 = e2_latch_c_valid d"
    by (simp_all add: d1_def counter_set_done_def counter_operational_def)
  define d2 where "d2 = counter_init raw (el5151_values raw per d1)"
  have d2: "\<not> k_do_init d2" "k_count d2 = (if k_do_init d \<or> k_reset d then 0 else k_count d)"
    "k_last_count d2 = (if k_do_init d \<or> k_reset d then raw else k_last_count d1)"
    "e2_latch_ext_valid d2 = e2_latch_ext_valid d" "e2_latch_c_valid d2 = e2_latch_c_valid d"
    by (auto simp: d2_def counter_init_def el5151_values_def d1)
  define d3 where "d3 = el5151_latch latch d2"
  have "k_do_init d3 = k_do_init d2" by (simp add: d3_def el5151_latch_def Let_def)
  moreover have "fst (counter_base (e2_latch_ext_valid d \<or> e2_latch_c_valid d) latch (\<not> e2_last_operational d \<or> ack) raw d) = k_count d3"
    and "snd (counter_base (e2_latch_ext_valid d \<or> e2_latch_c_valid d) latch (\<not> e2_last_operational d \<or> ack) raw d) = k_last_count d3"
    by (simp_all add: d3_def el5151_latch_def Let_def d2 d1(4) counter_base_def)
  moreover have "el5151_update rnd raw latch per ack d = (let d = counter_net s32 rnd raw d3 in
      d\<lparr>e2_period := rnd (real_of_int (uint (e2_raw_period d)) * rnd (1 / 10 ^ 7)), e2_last_operational := True\<rparr>)"
    unfolding d3_def d2_def d1_def el5151_update_def Let_def by simp
  ultimately show ?thesis using d2(1) by (simp add: counts_from_def Let_def counter_simps)
qed

lemma el5151_update_operational [simp]: "e2_last_operational (el5151_update rnd raw latch per ack d)"
  by (simp add: el5151_update_def Let_def)

interpretation el5151: hw_counter "el5151_step ec rnd P" el5151_live "el5151_quiet ec P"
  "\<lambda>c. el5151_count ec P (snd (snd c))" k_count k_last_count s32 32
proof (unfold_locales)
  fix d c assume l: "el5151_live d" and q: "el5151_quiet ec P c"
  obtain user operational pd where c: "c = (user, operational, pd)" by (metis prod_cases3)
  have q': "counter_user user" "e2_last_operational (user d) = e2_last_operational d" "operational" "el5151_in_pd (length pd) P"
    "\<not> bit_at ec pd P set_count_done_pdo" "\<not> bit_at ec pd P latch_c_valid_pdo" "\<not> bit_at ec pd P latch_ext_valid_pdo"
    using q by (simp_all add: c el5151_quiet_def)
  let ?d = "counter_scale rnd (user d)"
  have m: "e2_last_operational ?d = e2_last_operational (user d)" by (simp add: counter_scale_def Let_def)
  obtain d1 where d1: "el5151_bits ec pd P ?d = Some d1" "\<not> e2_latch_c_valid d1" "\<not> e2_latch_ext_valid d1" "e2_last_operational d1"
    "k_count d1 = k_count d" "k_last_count d1 = k_last_count d" "\<not> k_do_init d1" "\<not> k_reset d1"
    using el5151_bits_in [OF q'(4), of ec ?d] q' l m by (auto simp: el5151_live_def counter_user_def counter_simps)
  obtain latch per where r: "lcec_el5151_read ec rnd P operational pd (user d) = Some (el5151_update rnd (el5151_count ec P pd) latch per False d1)"
    using q'(3-5) d1(1) by (auto simp: lcec_el5151_read_def el5151_in_pd_def bits_in_def bytes_in_def el5151_read_bits_def rd_simps el5151_count_def)
  then show "\<exists>s'. el5151_step ec rnd P c d = Some s' \<and> el5151_live s' \<and> k_last_count s' = el5151_count ec P (snd (snd c)) \<and>
      k_count s' = s32 (k_count d + s32 (el5151_count ec P (snd (snd c)) - k_last_count d))"
    using counts_from_quiet [of s32 latch _ d1 "el5151_update rnd (el5151_count ec P pd) latch per False d1"]
      el5151_update_count [of d1 latch False "el5151_count ec P pd" rnd per] d1(2-8)
    by (simp add: el5151_step_def c el5151_live_def)
qed (simp, rule s32_wraps, rule s32_wraps)

section \<open>Every branch of the read\<close>

definition el5151_latched :: "ec_macros \<Rightarrow> positions \<Rightarrow> u8 list \<Rightarrow> int" where
  "el5151_latched ec P pd = sint (EC_READ_U32 ec (bytes_at pd P latch_pdo 4))"

lemma el5151_update_latch:
  "e2_ena_latch_ext_pos (el5151_update rnd raw latch per ack d) = (e2_ena_latch_ext_pos d \<and> \<not> e2_latch_ext_valid d)"
  "e2_ena_latch_ext_neg (el5151_update rnd raw latch per ack d) = (e2_ena_latch_ext_neg d \<and> \<not> e2_latch_ext_valid d)"
  "e2_ena_latch_c (el5151_update rnd raw latch per ack d) = (e2_ena_latch_c d \<and> \<not> e2_latch_c_valid d)"
  by (simp_all add: el5151_update_def Let_def el5151_latch_def counter_net_def counter_init_def el5151_values_def
      counter_set_done_def counter_operational_def)

lemma el5151_read_branches:
  fixes d :: el5151
  assumes "el5151_in_pd (length pd) P" and "in_s32 (k_count d)"
  shows "\<exists>d'. lcec_el5151_read ec rnd P True pd d = Some d' \<and>
    k_last_count d' = el5151_count ec P pd \<and> \<not> k_do_init d' \<and> in_s32 (k_count d') \<and>
    k_count d' =
      (if bit_at ec pd P latch_ext_valid_pdo \<or> bit_at ec pd P latch_c_valid_pdo then s32 (el5151_count ec P pd - el5151_latched ec P pd)
       else if k_do_init d \<or> k_reset d then 0
       else if \<not> e2_last_operational d \<or> bit_at ec pd P set_count_done_pdo then k_count d
       else s32 (k_count d + (el5151_count ec P pd - k_last_count d))) \<and>
    (if bit_at ec pd P latch_ext_valid_pdo then \<not> e2_ena_latch_ext_pos d' \<and> \<not> e2_ena_latch_ext_neg d'
     else e2_ena_latch_ext_pos d' = e2_ena_latch_ext_pos d \<and> e2_ena_latch_ext_neg d' = e2_ena_latch_ext_neg d) \<and>
    (if bit_at ec pd P latch_c_valid_pdo then \<not> e2_ena_latch_c d' else e2_ena_latch_c d' = e2_ena_latch_c d)"
proof -
  let ?c = "bit_at ec pd P latch_c_valid_pdo" and ?e = "bit_at ec pd P latch_ext_valid_pdo" and ?a = "bit_at ec pd P set_count_done_pdo"
  let ?raw = "el5151_count ec P pd" and ?l = "el5151_latched ec P pd" and ?p = "EC_READ_U32 ec (bytes_at pd P period_pdo 4)"
  obtain d1 where d1: "el5151_bits ec pd P (counter_scale rnd d) = Some d1" "e2_latch_c_valid d1 = ?c" "e2_latch_ext_valid d1 = ?e"
    "e2_last_operational d1 = e2_last_operational (counter_scale rnd d)" "k_count d1 = k_count (counter_scale rnd d)"
    "k_last_count d1 = k_last_count (counter_scale rnd d)" "k_do_init d1 = k_do_init (counter_scale rnd d)" "k_reset d1 = k_reset (counter_scale rnd d)"
    "e2_ena_latch_ext_pos d1 = e2_ena_latch_ext_pos (counter_scale rnd d)" "e2_ena_latch_ext_neg d1 = e2_ena_latch_ext_neg (counter_scale rnd d)"
    "e2_ena_latch_c d1 = e2_ena_latch_c (counter_scale rnd d)"
    by (rule el5151_bits_in [OF assms(1)])
  have o: "e2_last_operational (counter_scale rnd d) = e2_last_operational d"
    "e2_ena_latch_ext_pos (counter_scale rnd d) = e2_ena_latch_ext_pos d" "e2_ena_latch_ext_neg (counter_scale rnd d) = e2_ena_latch_ext_neg d"
    "e2_ena_latch_c (counter_scale rnd d) = e2_ena_latch_c d"
    by (simp_all add: counter_scale_def Let_def)
  let ?d' = "el5151_update rnd ?raw ?l ?p ?a d1"
  have "lcec_el5151_read ec rnd P True pd d = Some ?d'"
    using assms(1) d1(1)
    by (simp add: lcec_el5151_read_def el5151_in_pd_def bits_in_def bytes_in_def el5151_read_bits_def rd_simps el5151_count_def el5151_latched_def)
  moreover have "counts_from s32 (?e \<or> ?c) ?l (\<not> e2_last_operational d \<or> ?a) ?raw d ?d'"
    using el5151_update_count [of d1 ?l ?a ?raw rnd ?p] d1(2-8) o by (simp add: counts_from_def counter_base_def counter_simps)
  ultimately show ?thesis
    using el5151_update_latch [of rnd ?raw ?l ?p ?a d1] d1(2,3,9-11) o(2-4) assms(2) in_s32_0
    by (auto simp: counts_from_def counter_base_def s32_add_right)
qed

end
