(* ===== verification/DevEl5152.thy ===== *)
theory DevEl5152
  imports DevCounter
begin

text \<open>
  The driver of the EL5152 encoder interface (\<open>devices/lcec_el5152.c\<close>): two channels with a count
  of 32 bits. The index is a pin other components set; the driver looks for its rising edge.
\<close>

section \<open>State and tables\<close>

definition LCEC_EL5152_CHANS :: nat where "LCEC_EL5152_CHANS = 2"

record el5152_chan = counter +
  e3_index :: bool
  e3_index_ena :: bool
  e3_ina :: bool
  e3_inb :: bool
  e3_expol_stall :: bool
  e3_tx_toggle :: bool
  e3_raw_period :: u32
  e3_period :: real
  e3_last_index :: bool

record el5152 =
  e3_chans :: "el5152_chan list"
  e3_last_operational :: bool

definition el5152_pins :: "pindesc list" where
  "el5152_pins =
     [pin_row HAL_BIT HAL_IN ''index'' ''%s.%s.%s.enc-%d-index'',
      pin_row HAL_BIT HAL_IO ''index_ena'' ''%s.%s.%s.enc-%d-index-enable'',
      pin_row HAL_BIT HAL_IN ''reset'' ''%s.%s.%s.enc-%d-reset'',
      pin_row HAL_BIT HAL_OUT ''ina'' ''%s.%s.%s.enc-%d-ina'',
      pin_row HAL_BIT HAL_OUT ''inb'' ''%s.%s.%s.enc-%d-inb'',
      pin_row HAL_BIT HAL_OUT ''expol_stall'' ''%s.%s.%s.enc-%d-expol-stall'',
      pin_row HAL_BIT HAL_OUT ''tx_toggle'' ''%s.%s.%s.enc-%d-tx-toggle'',
      pin_row HAL_BIT HAL_IO ''set_raw_count'' ''%s.%s.%s.enc-%d-set-raw-count'',
      pin_row HAL_S32 HAL_IN ''set_raw_count_val'' ''%s.%s.%s.enc-%d-set-raw-count-val'',
      pin_row HAL_S32 HAL_OUT ''raw_count'' ''%s.%s.%s.enc-%d-raw-count'',
      pin_row HAL_S32 HAL_OUT ''count'' ''%s.%s.%s.enc-%d-count'',
      pin_row HAL_U32 HAL_OUT ''raw_period'' ''%s.%s.%s.enc-%d-raw-period'',
      pin_row HAL_FLOAT HAL_OUT ''pos'' ''%s.%s.%s.enc-%d-pos'',
      pin_row HAL_FLOAT HAL_OUT ''period'' ''%s.%s.%s.enc-%d-period'',
      pin_row HAL_FLOAT HAL_IO ''pos_scale'' ''%s.%s.%s.enc-%d-pos-scale'',
      pin_end]"

definition el5152_channel1_in :: "pdo_entry_info list" where
  "el5152_channel1_in =
     [entry 0 0 2, entry 0x6000 0x03 1, entry 0 0 4, entry 0x6000 0x08 1, entry 0x6000 0x09 1, entry 0x6000 0x0a 1,
      entry 0 0 3, entry 0x1c32 0x20 1, entry 0 0 1, entry 0x1800 0x09 1, entry 0x6000 0x11 32]"

definition el5152_channel2_in :: "pdo_entry_info list" where
  "el5152_channel2_in =
     [entry 0 0 2, entry 0x6010 0x03 1, entry 0 0 4, entry 0x6010 0x08 1, entry 0x6010 0x09 1, entry 0x6010 0x0a 1,
      entry 0 0 3, entry 0x1c32 0x20 1, entry 0 0 1, entry 0x1804 0x09 1, entry 0x6010 0x11 32]"

definition el5152_channel1_period :: "pdo_entry_info list" where "el5152_channel1_period = [entry 0x6000 0x14 32]"
definition el5152_channel2_period :: "pdo_entry_info list" where "el5152_channel2_period = [entry 0x6010 0x14 32]"

definition el5152_channel1_out :: "pdo_entry_info list" where
  "el5152_channel1_out =
     [entry 0 0 1, entry 0 0 1, entry 0x7000 0x03 1, entry 0 0 1, entry 0 0 4, entry 0 0 8, entry 0x7000 0x11 32]"

definition el5152_channel2_out :: "pdo_entry_info list" where
  "el5152_channel2_out =
     [entry 0 0 1, entry 0 0 1, entry 0x7010 0x03 1, entry 0 0 1, entry 0 0 4, entry 0 0 8, entry 0x7010 0x11 32]"

definition el5152_syncs :: "static_sync list" where
  "el5152_syncs =
     [ssync 0 EC_DIR_OUTPUT 0 [], ssync 1 EC_DIR_INPUT 0 [],
      ssync 2 EC_DIR_OUTPUT 2 [spdo 0x1600 7 el5152_channel1_out, spdo 0x1602 7 el5152_channel2_out],
      ssync 3 EC_DIR_INPUT 4
        [spdo 0x1A00 11 el5152_channel1_in, spdo 0x1A02 1 el5152_channel1_period,
         spdo 0x1A04 11 el5152_channel2_in, spdo 0x1A06 1 el5152_channel2_period],
      ssync_end]"

text \<open>The registrations of channel \<open>i\<close>, before the numbers of its members are counted on.\<close>

definition el5152_chan_rows :: "nat \<Rightarrow> pdo_row list" where
  "el5152_chan_rows i =
     (let a = push_bit 4 (of_nat i :: u16); b = push_bit 2 (of_nat i :: u16) in
      [bit_row (0x6000 + a) 0x03 set_count_done_pdo, bit_row (0x6000 + a) 0x08 expol_stall_pdo,
       bit_row (0x6000 + a) 0x09 ina_pdo, bit_row (0x6000 + a) 0x0a inb_pdo, bit_row (0x1800 + b) 0x09 tx_toggle_pdo,
       word_row (0x6000 + a) 0x11 count_pdo, word_row (0x6000 + a) 0x14 period_pdo,
       bit_row (0x7000 + a) 0x03 set_count_pdo, word_row (0x7000 + a) 0x11 set_count_val_pdo])"

definition el5152_rows :: "pdo_row list" where
  "el5152_rows = concat (map (\<lambda>i. map (shift_row i) (el5152_chan_rows i)) [0..<LCEC_EL5152_CHANS])"

section \<open>Operations\<close>

definition el5152_chan_start :: "(real \<Rightarrow> real) \<Rightarrow> el5152_chan" where
  "el5152_chan_start rnd =
     counter_start rnd
       \<lparr>e3_index = False, e3_index_ena = False, e3_ina = False, e3_inb = False, e3_expol_stall = False, e3_tx_toggle = False,
        e3_raw_period = 0, e3_period = 0, e3_last_index = False\<rparr>"

text \<open>The loop over the channels; the ones set up before a failure are the first component.\<close>

fun el5152_init_chans ::
    "hal_env \<Rightarrow> (real \<Rightarrow> real) \<Rightarrow> string \<Rightarrow> nat list \<Rightarrow> lcec_slave \<Rightarrow> hal_obj list \<Rightarrow>
     (int \<times> el5152_chan list \<times> lcec_slave \<times> hal_obj list) option" where
  "el5152_init_chans env rnd mname [] s objs = Some (0, [], s, objs)"
| "el5152_init_chans env rnd mname (i # is) s objs =
     do {
       s \<leftarrow> pdo_init_rows (map (shift_row i) (el5152_chan_rows i)) s;
       (err, objs) \<leftarrow> lcec_pin_newf_list env el5152_pins
                        [FStr LCEC_MODULE_NAME, FStr mname, FStr (sl_name s), FInt (int i)] objs;
       if err \<noteq> 0 then Some (err, [], s, objs)
       else do {
         (err, cs, s, objs) \<leftarrow> el5152_init_chans env rnd mname is s objs;
         Some (err, el5152_chan_start rnd # cs, s, objs)
       }
     }"

definition lcec_el5152_init ::
    "hal_env \<Rightarrow> (real \<Rightarrow> real) \<Rightarrow> string \<Rightarrow> lcec_slave \<Rightarrow> hal_obj list \<Rightarrow> (int \<times> el5152 option \<times> lcec_slave \<times> hal_obj list) option" where
  "lcec_el5152_init env rnd mname s objs =
     do {
       let s = s\<lparr>sl_proc_read := True, sl_proc_write := True, sl_sync_info := True\<rparr>;
       (err, cs, s, objs) \<leftarrow> el5152_init_chans env rnd mname [0..<LCEC_EL5152_CHANS] s objs;
       Some (err, if err \<noteq> 0 then None else Some \<lparr>e3_chans = cs, e3_last_operational = False\<rparr>, s, objs)
     }"

definition el5152_values :: "int \<Rightarrow> u32 \<Rightarrow> el5152_chan \<Rightarrow> el5152_chan" where
  "el5152_values raw per d = (if \<not> k_set_raw_count d then d\<lparr>k_raw_count := raw, e3_raw_period := per\<rparr> else d)"

text \<open>
  The edge of the index, an initialisation or a reset, which drops the edge, and the restart of the
  count at the edge where the index is enabled.
\<close>

definition el5152_index :: "int \<Rightarrow> el5152_chan \<Rightarrow> el5152_chan" where
  "el5152_index raw d =
     (let idx_flag = e3_index d \<and> \<not> e3_last_index d;
          idx_count = (if idx_flag then raw else 0);
          d = d\<lparr>e3_last_index := e3_index d\<rparr>;
          idx_flag = (if k_do_init d \<or> k_reset d then False else idx_flag);
          d = counter_init raw d
      in if idx_flag \<and> e3_index_ena d then d\<lparr>k_last_count := idx_count, k_count := 0, e3_index_ena := False\<rparr> else d)"

definition el5152_chan_update :: "(real \<Rightarrow> real) \<Rightarrow> bool \<Rightarrow> int \<Rightarrow> u32 \<Rightarrow> bool \<Rightarrow> el5152_chan \<Rightarrow> el5152_chan" where
  "el5152_chan_update rnd last_op raw per ack d =
     (let d = counter_operational last_op raw d;
          d = counter_set_done ack raw d;
          d = el5152_values raw per d;
          d = el5152_index raw d;
          d = counter_net s32 rnd raw d
      in d\<lparr>e3_period := rnd (real_of_int (uint (e3_raw_period d)) * rnd (1 / 10 ^ 7))\<rparr>)"

definition el5152_chan_read ::
    "ec_macros \<Rightarrow> (real \<Rightarrow> real) \<Rightarrow> positions \<Rightarrow> bool \<Rightarrow> u8 list \<Rightarrow> el5152_chan \<Rightarrow> el5152_chan option" where
  "el5152_chan_read ec rnd P last_op pd d =
     do {
       let d = counter_scale rnd d;
       ina \<leftarrow> rd_bit ec pd P ina_pdo;
       inb \<leftarrow> rd_bit ec pd P inb_pdo;
       stall \<leftarrow> rd_bit ec pd P expol_stall_pdo;
       toggle \<leftarrow> rd_bit ec pd P tx_toggle_pdo;
       raw \<leftarrow> rd_s32 ec pd P count_pdo;
       per \<leftarrow> rd_u32 ec pd P period_pdo;
       ack \<leftarrow> rd_bit ec pd P set_count_done_pdo;
       Some (el5152_chan_update rnd last_op raw per ack
               (d\<lparr>e3_ina := ina, e3_inb := inb, e3_expol_stall := stall, e3_tx_toggle := toggle\<rparr>))
     }"

definition lcec_el5152_read ::
    "ec_macros \<Rightarrow> (real \<Rightarrow> real) \<Rightarrow> positions \<Rightarrow> bool \<Rightarrow> u8 list \<Rightarrow> el5152 \<Rightarrow> el5152 option" where
  "lcec_el5152_read ec rnd P operational pd d =
     (if \<not> operational then Some (d\<lparr>e3_last_operational := False\<rparr>)
      else map_option (\<lambda>cs. d\<lparr>e3_chans := cs, e3_last_operational := True\<rparr>)
             (read_chans (\<lambda>i. el5152_chan_read ec rnd (chan_positions i P) (e3_last_operational d) pd) 0 (e3_chans d)))"

definition el5152_outs :: "el5152_chan \<Rightarrow> (nat \<times> out_val) list" where
  "el5152_outs d = [(set_count_pdo, OutBit (k_set_raw_count d)), (set_count_val_pdo, Out32 (k_set_raw_count_val d))]"

definition lcec_el5152_write :: "ec_macros \<Rightarrow> positions \<Rightarrow> el5152 \<Rightarrow> u8 list \<Rightarrow> u8 list option" where
  "lcec_el5152_write ec P d pd =
     map_option snd (write_chans (\<lambda>i c pd. map_option (Pair c) (wr_all ec (chan_positions i P) (el5152_outs c) pd)) 0 (e3_chans d) pd)"

section \<open>Tables and positions\<close>

definition el5152_read_bits :: "nat list" where
  "el5152_read_bits = [ina_pdo, inb_pdo, expol_stall_pdo, tx_toggle_pdo, set_count_done_pdo]"

text \<open>The tables evaluated: where the entries are, what is registered, and where the members are.\<close>

lemmas el5152_table_defs = el5152_syncs_def el5152_channel1_in_def el5152_channel2_in_def el5152_channel1_period_def el5152_channel2_period_def
  el5152_channel1_out_def el5152_channel2_out_def

lemma el5152_places: "table_places el5152_syncs =
     [(7340035, 2, EC_DIR_OUTPUT, 2, 1), (7340049, 2, EC_DIR_OUTPUT, 16, 32), (7344131, 2, EC_DIR_OUTPUT, 50, 1),
      (7344145, 2, EC_DIR_OUTPUT, 64, 32), (6291459, 3, EC_DIR_INPUT, 2, 1), (6291464, 3, EC_DIR_INPUT, 7, 1),
      (6291465, 3, EC_DIR_INPUT, 8, 1), (6291466, 3, EC_DIR_INPUT, 9, 1), (1847840, 3, EC_DIR_INPUT, 13, 1),
      (1572873, 3, EC_DIR_INPUT, 15, 1), (6291473, 3, EC_DIR_INPUT, 16, 32), (6291476, 3, EC_DIR_INPUT, 48, 32),
      (6295555, 3, EC_DIR_INPUT, 82, 1), (6295560, 3, EC_DIR_INPUT, 87, 1), (6295561, 3, EC_DIR_INPUT, 88, 1),
      (6295562, 3, EC_DIR_INPUT, 89, 1), (1847840, 3, EC_DIR_INPUT, 93, 1), (1573897, 3, EC_DIR_INPUT, 95, 1),
      (6295569, 3, EC_DIR_INPUT, 96, 32), (6295572, 3, EC_DIR_INPUT, 128, 32)]"
  by (simp add: table_simps el5152_table_defs)

lemma el5152_keys: "row_keys el5152_rows =
     [(6291459, 13, Some 13), (6291464, 16, Some 16), (6291465, 17, Some 17), (6291466, 18, Some 18), (1572873, 22, Some 22),
      (6291473, 23, None), (6291476, 4, None), (7340035, 11, Some 11), (7340049, 12, None), (6295555, 77, Some 77),
      (6295560, 80, Some 80), (6295561, 81, Some 81), (6295562, 82, Some 82), (1573897, 86, Some 86), (6295569, 87, None),
      (6295572, 68, None), (7344131, 75, Some 75), (7344145, 76, None)]"
  by (simp add: table_simps el5152_rows_def el5152_chan_rows_def LCEC_EL5152_CHANS_def Let_def upt_rec)

lemma el5152_members: "member_table el5152_syncs el5152_rows =
     [(13, Some (3, EC_DIR_INPUT, 2, 1), Some 13), (16, Some (3, EC_DIR_INPUT, 7, 1), Some 16),
      (17, Some (3, EC_DIR_INPUT, 8, 1), Some 17), (18, Some (3, EC_DIR_INPUT, 9, 1), Some 18),
      (22, Some (3, EC_DIR_INPUT, 15, 1), Some 22), (23, Some (3, EC_DIR_INPUT, 16, 32), None),
      (4, Some (3, EC_DIR_INPUT, 48, 32), None), (11, Some (2, EC_DIR_OUTPUT, 2, 1), Some 11),
      (12, Some (2, EC_DIR_OUTPUT, 16, 32), None), (77, Some (3, EC_DIR_INPUT, 82, 1), Some 77),
      (80, Some (3, EC_DIR_INPUT, 87, 1), Some 80), (81, Some (3, EC_DIR_INPUT, 88, 1), Some 81),
      (82, Some (3, EC_DIR_INPUT, 89, 1), Some 82), (86, Some (3, EC_DIR_INPUT, 95, 1), Some 86),
      (87, Some (3, EC_DIR_INPUT, 96, 32), None), (68, Some (3, EC_DIR_INPUT, 128, 32), None),
      (75, Some (2, EC_DIR_OUTPUT, 50, 1), Some 75), (76, Some (2, EC_DIR_OUTPUT, 64, 32), None)]"
  unfolding member_table_def el5152_places el5152_keys by (simp cong: find_key_cong members_at_cong)

lemma el5152_tables: "driver_tables_ok el5152_syncs el5152_rows"
  unfolding driver_tables_ok_def el5152_members by (simp add: member_simps table_simps el5152_table_defs)

lemma el5152_members_ok:
  "list_all (\<lambda>i. reads_ok el5152_syncs el5152_rows (map ((+) (64 * i)) el5152_read_bits)
     (map (\<lambda>(k, w). (64 * i + k, w)) [(count_pdo, 4), (period_pdo, 4)])) [0..<LCEC_EL5152_CHANS]"
  "outs_ok el5152_syncs el5152_rows [(set_count_pdo, 1), (set_count_val_pdo, 32), (64 + set_count_pdo, 1), (64 + set_count_val_pdo, 32)]"
  unfolding reads_ok_def outs_ok_def el5152_members
  by (simp_all add: member_simps el5152_read_bits_def LCEC_EL5152_CHANS_def upt_rec cong: find_key_cong)

lemma el5152_write_on_bus:
  assumes "ec_le ec" and "placed el5152_syncs el5152_rows base P (length pd)" and "e3_chans d = [c0, c1]"
  shows "\<exists>pd'. lcec_el5152_write ec P d pd = Some pd' \<and> on_bus P (el5152_outs c0 @ shift_outs 1 (el5152_outs c1)) pd pd'"
proof -
  let ?ws = "el5152_outs c0 @ shift_outs 1 (el5152_outs c1)"
  have "write_chans (\<lambda>i c pd. map_option (Pair c) (wr_all ec (chan_positions i P) (el5152_outs c) pd)) 0 [c0, c1] pd =
      map_option (Pair (map (\<lambda>c. c) [c0, c1]))
        (wr_all ec P (concat (map (\<lambda>(j, c). shift_outs j (el5152_outs c)) (zip [0..<0 + length [c0, c1]] [c0, c1]))) pd)"
    by (rule write_chans_all) simp
  moreover have "concat (map (\<lambda>(j, c). shift_outs j (el5152_outs c)) (zip [0..<0 + length [c0, c1]] [c0, c1])) = ?ws"
    by (simp add: upt_rec [of 0] upt_rec [of 1] shift_outs_def case_prod_beta)
  ultimately have "lcec_el5152_write ec P d pd = wr_all ec P ?ws pd"
    by (simp add: lcec_el5152_write_def assms(3) option.map_comp comp_def option.map_ident)
  then show ?thesis
    using wr_all_placed [OF assms(1,2), of ?ws] el5152_members_ok(2) by (simp add: el5152_outs_def shift_outs_def out_shape_def)
qed

section \<open>The counter of a channel\<close>

definition el5152_in_pd :: "nat \<Rightarrow> positions \<Rightarrow> bool" where
  "el5152_in_pd n P \<longleftrightarrow> bits_in n P el5152_read_bits \<and> bytes_in n P [(count_pdo, 4), (period_pdo, 4)]"

lemma el5152_placed_in:
  assumes "placed el5152_syncs el5152_rows base P n" and "i < LCEC_EL5152_CHANS"
  shows "el5152_in_pd n (chan_positions i P)"
proof -
  have "reads_ok el5152_syncs el5152_rows (map ((+) (64 * i)) el5152_read_bits)
      (map (\<lambda>(k, w). (64 * i + k, w)) [(count_pdo, 4), (period_pdo, 4)])"
    using el5152_members_ok(1) assms(2) unfolding list_all_iff by (auto simp del: upt_Suc)
  from placed_reads [OF assms(1) this] show ?thesis unfolding el5152_in_pd_def shift_members by blast
qed

definition el5152_count :: "ec_macros \<Rightarrow> positions \<Rightarrow> u8 list \<Rightarrow> int" where
  "el5152_count ec P pd = sint (EC_READ_U32 ec (bytes_at pd P count_pdo 4))"

definition el5152_edge :: "el5152_chan \<Rightarrow> bool" where
  "el5152_edge d \<longleftrightarrow> e3_index d \<and> \<not> e3_last_index d \<and> e3_index_ena d \<and> \<not> k_do_init d \<and> \<not> k_reset d"

lemma el5152_chan_update_count:
  "counts_from s32 (el5152_edge d) raw (\<not> last_op \<or> ack) raw d (el5152_chan_update rnd last_op raw per ack d)"
proof -
  define d1 where "d1 = el5152_values raw per (counter_set_done ack raw (counter_operational last_op raw d))"
  have d1: "k_do_init d1 = k_do_init d" "k_reset d1 = k_reset d" "k_count d1 = k_count d"
    "k_last_count d1 = (if \<not> last_op \<or> ack then raw else k_last_count d)" "e3_index d1 = e3_index d" "e3_last_index d1 = e3_last_index d"
    "e3_index_ena d1 = e3_index_ena d"
    by (auto simp: d1_def counter_set_done_def counter_operational_def el5152_values_def)
  define d2 where "d2 = el5152_index raw d1"
  have d2: "\<not> k_do_init d2"
    "fst (counter_base (el5152_edge d) raw (\<not> last_op \<or> ack) raw d) = k_count d2"
    "snd (counter_base (el5152_edge d) raw (\<not> last_op \<or> ack) raw d) = k_last_count d2"
    by (auto simp: d2_def el5152_index_def Let_def counter_init_def d1 counter_base_def el5152_edge_def)
  moreover have "el5152_chan_update rnd last_op raw per ack d = (let d = counter_net s32 rnd raw d2 in
      d\<lparr>e3_period := rnd (real_of_int (uint (e3_raw_period d)) * rnd (1 / 10 ^ 7))\<rparr>)"
    unfolding d2_def d1_def el5152_chan_update_def Let_def by simp
  ultimately show ?thesis by (simp add: counts_from_def Let_def counter_simps)
qed

lemma el5152_chan_read_in:
  assumes "el5152_in_pd (length pd) P"
  obtains per d1 where "el5152_chan_read ec rnd P last_op pd d =
      Some (el5152_chan_update rnd last_op (el5152_count ec P pd) per (bit_at ec pd P set_count_done_pdo) d1)"
    and "k_count d1 = k_count d" and "k_last_count d1 = k_last_count d" and "k_do_init d1 = k_do_init d" and "k_reset d1 = k_reset d"
    and "el5152_edge d1 = el5152_edge d"
proof -
  let ?d = "counter_scale rnd d\<lparr>e3_ina := bit_at ec pd P ina_pdo, e3_inb := bit_at ec pd P inb_pdo,
    e3_expol_stall := bit_at ec pd P expol_stall_pdo, e3_tx_toggle := bit_at ec pd P tx_toggle_pdo\<rparr>"
  have "el5152_edge ?d = el5152_edge d" by (simp add: el5152_edge_def counter_scale_def Let_def)
  moreover have "el5152_chan_read ec rnd P last_op pd d = Some (el5152_chan_update rnd last_op (el5152_count ec P pd)
      (EC_READ_U32 ec (bytes_at pd P period_pdo 4)) (bit_at ec pd P set_count_done_pdo) ?d)"
    using assms by (simp add: el5152_in_pd_def bits_in_def bytes_in_def el5152_read_bits_def el5152_chan_read_def rd_simps el5152_count_def)
  ultimately show thesis using that [of _ ?d] by (simp add: counter_simps)
qed

lemma el5152_chan_quiet:
  assumes "el5152_in_pd (length pd) P" and "\<not> bit_at ec pd P set_count_done_pdo" and "\<not> k_do_init d" and "\<not> k_reset d"
    and "\<not> el5152_edge d"
  shows "\<exists>d'. el5152_chan_read ec rnd P True pd d = Some d' \<and> k_last_count d' = el5152_count ec P pd \<and> \<not> k_do_init d' \<and>
    k_count d' = s32 (k_count d + s32 (el5152_count ec P pd - k_last_count d))"
proof -
  obtain per d1 where d1: "el5152_chan_read ec rnd P True pd d =
      Some (el5152_chan_update rnd True (el5152_count ec P pd) per (bit_at ec pd P set_count_done_pdo) d1)"
    "k_count d1 = k_count d" "k_last_count d1 = k_last_count d" "k_do_init d1 = k_do_init d" "k_reset d1 = k_reset d"
    "el5152_edge d1 = el5152_edge d"
    using el5152_chan_read_in [OF assms(1)] .
  have "counts_from s32 False (el5152_count ec P pd) False (el5152_count ec P pd) d1
      (el5152_chan_update rnd True (el5152_count ec P pd) per False d1)"
    using el5152_chan_update_count [of d1 "el5152_count ec P pd" True False rnd per] d1(6) assms(5) by simp
  from counts_from_quiet [OF this] show ?thesis using d1 assms(2-4) by simp
qed

text \<open>A cycle of channel \<open>i\<close>: all channels are read, and the others may do anything.\<close>

type_synonym el5152_cycle = "(el5152 \<Rightarrow> el5152) \<times> bool \<times> u8 list"

definition el5152_step :: "ec_macros \<Rightarrow> (real \<Rightarrow> real) \<Rightarrow> positions \<Rightarrow> el5152_cycle \<Rightarrow> el5152 \<Rightarrow> el5152 option" where
  "el5152_step ec rnd P c d = (case c of (user, operational, pd) \<Rightarrow> lcec_el5152_read ec rnd P operational pd (user d))"

definition el5152_user :: "nat \<Rightarrow> (el5152 \<Rightarrow> el5152) \<Rightarrow> bool" where
  "el5152_user i f \<longleftrightarrow>
     (\<forall>d. e3_last_operational (f d) = e3_last_operational d \<and> length (e3_chans (f d)) = length (e3_chans d) \<and>
        k_count (e3_chans (f d) ! i) = k_count (e3_chans d ! i) \<and> k_last_count (e3_chans (f d) ! i) = k_last_count (e3_chans d ! i) \<and>
        k_do_init (e3_chans (f d) ! i) = k_do_init (e3_chans d ! i) \<and> \<not> k_reset (e3_chans (f d) ! i) \<and>
        \<not> el5152_edge (e3_chans (f d) ! i))"

definition el5152_quiet :: "ec_macros \<Rightarrow> positions \<Rightarrow> nat \<Rightarrow> el5152_cycle \<Rightarrow> bool" where
  "el5152_quiet ec P i c \<longleftrightarrow>
     (case c of (user, operational, pd) \<Rightarrow>
        el5152_user i user \<and> operational \<and> (\<forall>j < LCEC_EL5152_CHANS. el5152_in_pd (length pd) (chan_positions j P)) \<and>
        \<not> bit_at ec pd (chan_positions i P) set_count_done_pdo)"

definition el5152_live :: "nat \<Rightarrow> el5152 \<Rightarrow> bool" where
  "el5152_live i d \<longleftrightarrow> i < length (e3_chans d) \<and> length (e3_chans d) = LCEC_EL5152_CHANS \<and> e3_last_operational d \<and>
     \<not> k_do_init (e3_chans d ! i)"

lemma el5152_read_chans:
  assumes "length cs = LCEC_EL5152_CHANS" and "\<forall>j < LCEC_EL5152_CHANS. el5152_in_pd (length pd) (chan_positions j P)"
  obtains cs' where "read_chans (\<lambda>i. el5152_chan_read ec rnd (chan_positions i P) last_op pd) 0 cs = Some cs'"
    and "length cs' = length cs"
    and "\<And>j. j < length cs \<Longrightarrow> el5152_chan_read ec rnd (chan_positions j P) last_op pd (cs ! j) = Some (cs' ! j)"
proof -
  have "el5152_chan_read ec rnd (chan_positions (0 + j) P) last_op pd (cs ! j) \<noteq> None" if "j < length cs" for j
  proof -
    have "el5152_in_pd (length pd) (chan_positions (0 + j) P)" using assms that by simp
    then show ?thesis by (rule el5152_chan_read_in [of pd _ ec rnd last_op "cs ! j"]) simp
  qed
  then show thesis
    using that read_chans_nth [of cs "\<lambda>i. el5152_chan_read ec rnd (chan_positions i P) last_op pd" 0] by auto
qed

interpretation el5152: hw_counter "el5152_step ec rnd P" "el5152_live i" "el5152_quiet ec P i"
  "\<lambda>c. el5152_count ec (chan_positions i P) (snd (snd c))" "\<lambda>d. k_count (e3_chans d ! i)" "\<lambda>d. k_last_count (e3_chans d ! i)" s32 32
proof (unfold_locales)
  fix d c assume l: "el5152_live i d" and q: "el5152_quiet ec P i c"
  obtain user operational pd where c: "c = (user, operational, pd)" by (metis prod_cases3)
  have u: "el5152_user i user" "operational" "\<forall>j < LCEC_EL5152_CHANS. el5152_in_pd (length pd) (chan_positions j P)"
    "\<not> bit_at ec pd (chan_positions i P) set_count_done_pdo" using q by (simp_all add: c el5152_quiet_def)
  define e where "e = user d"
  have e: "i < length (e3_chans e)" "length (e3_chans e) = LCEC_EL5152_CHANS" "e3_last_operational e" "\<not> k_do_init (e3_chans e ! i)"
    "\<not> k_reset (e3_chans e ! i)" "\<not> el5152_edge (e3_chans e ! i)" "k_count (e3_chans e ! i) = k_count (e3_chans d ! i)"
    "k_last_count (e3_chans e ! i) = k_last_count (e3_chans d ! i)"
    using l u(1) by (simp_all add: e_def el5152_live_def el5152_user_def)
  obtain cs where cs: "read_chans (\<lambda>i. el5152_chan_read ec rnd (chan_positions i P) True pd) 0 (e3_chans e) = Some cs"
    "length cs = length (e3_chans e)"
    "el5152_chan_read ec rnd (chan_positions i P) True pd (e3_chans e ! i) = Some (cs ! i)"
    using el5152_read_chans [OF e(2) u(3), of ec rnd True] e(1) by metis
  have "el5152_in_pd (length pd) (chan_positions i P)" using u(3) e(1,2) by simp
  note r = el5152_chan_quiet [OF this u(4) e(4-6), of rnd]
  have "el5152_step ec rnd P c d = Some (e\<lparr>e3_chans := cs, e3_last_operational := True\<rparr>)"
    using cs(1) u(2) e(3) by (simp add: el5152_step_def c lcec_el5152_read_def flip: e_def)
  then show "\<exists>s'. el5152_step ec rnd P c d = Some s' \<and> el5152_live i s' \<and>
      k_last_count (e3_chans s' ! i) = el5152_count ec (chan_positions i P) (snd (snd c)) \<and>
      k_count (e3_chans s' ! i) = s32 (k_count (e3_chans d ! i) + s32 (el5152_count ec (chan_positions i P) (snd (snd c)) - k_last_count (e3_chans d ! i)))"
    using r cs(2,3) e by (simp add: c el5152_live_def)
qed (simp, rule s32_wraps, rule s32_wraps)

end
