(* ===== verification/DevDrive.thy ===== *)
theory DevDrive
  imports DevCounter
begin

text \<open>
  What the drivers of the motor terminals EL7342 and EL7041 (\<open>devices/lcec_el7342.c\<close>,
  \<open>devices/lcec_el7041.c\<close>) have in common: an encoder of 16 bits with an external latch, and the
  output of a duty cycle between limits. The part after the counter in the two structures is the
  same member by member, and so are the statements this theory models.
\<close>

section \<open>Members and state\<close>

abbreviation (input) dcm_ena_pdo :: nat where "dcm_ena_pdo \<equiv> 26"
abbreviation (input) dcm_reset_pdo :: nat where "dcm_reset_pdo \<equiv> 27"
abbreviation (input) dcm_reduce_torque_pdo :: nat where "dcm_reduce_torque_pdo \<equiv> 28"
abbreviation (input) dcm_velo_pdo :: nat where "dcm_velo_pdo \<equiv> 29"
abbreviation (input) dcm_ready_to_enable_pdo :: nat where "dcm_ready_to_enable_pdo \<equiv> 30"
abbreviation (input) dcm_ready_pdo :: nat where "dcm_ready_pdo \<equiv> 31"
abbreviation (input) dcm_warning_pdo :: nat where "dcm_warning_pdo \<equiv> 32"
abbreviation (input) dcm_error_pdo :: nat where "dcm_error_pdo \<equiv> 33"
abbreviation (input) dcm_move_pos_pdo :: nat where "dcm_move_pos_pdo \<equiv> 34"
abbreviation (input) dcm_move_neg_pdo :: nat where "dcm_move_neg_pdo \<equiv> 35"
abbreviation (input) dcm_torque_reduced_pdo :: nat where "dcm_torque_reduced_pdo \<equiv> 36"
abbreviation (input) dcm_din1_pdo :: nat where "dcm_din1_pdo \<equiv> 37"
abbreviation (input) dcm_din2_pdo :: nat where "dcm_din2_pdo \<equiv> 38"
abbreviation (input) dcm_sync_err_pdo :: nat where "dcm_sync_err_pdo \<equiv> 39"
abbreviation (input) dcm_tx_toggle_pdo :: nat where "dcm_tx_toggle_pdo \<equiv> 40"
abbreviation (input) dcm_info1_pdo :: nat where "dcm_info1_pdo \<equiv> 41"
abbreviation (input) dcm_info2_pdo :: nat where "dcm_info2_pdo \<equiv> 42"

record drive_enc = counter +
  k_ina :: bool
  k_inb :: bool
  k_inext :: bool
  k_sync_err :: bool
  k_expol_stall :: bool
  k_count_overflow :: bool
  k_count_underflow :: bool
  k_tx_toggle :: bool
  k_latch_ext_valid :: bool
  k_ena_latch_ext_pos :: bool
  k_ena_latch_ext_neg :: bool
  k_raw_latch :: int

record drive = drive_enc +
  dc_reset :: bool
  dc_reduce_torque :: bool
  dc_enable :: bool
  dc_absmode :: bool
  dc_value :: real
  dc_scale :: real
  dc_offset :: real
  dc_min_dc :: real
  dc_max_dc :: real
  dc_curr_dc :: real
  dc_raw_val :: int
  dc_ready_to_enable :: bool
  dc_ready :: bool
  dc_warning :: bool
  dc_error :: bool
  dc_move_pos :: bool
  dc_move_neg :: bool
  dc_torque_reduced :: bool
  dc_din1 :: bool
  dc_din2 :: bool
  dc_sync_err :: bool
  dc_tx_toggle :: bool
  dc_old_scale :: real
  dc_scale_recip :: real

definition drive_enc_start :: "(real \<Rightarrow> real) \<Rightarrow> 'a \<Rightarrow> 'a drive_enc_scheme" where
  "drive_enc_start rnd rest =
     counter_start rnd
       \<lparr>k_ina = False, k_inb = False, k_inext = False, k_sync_err = False, k_expol_stall = False, k_count_overflow = False,
        k_count_underflow = False, k_tx_toggle = False, k_latch_ext_valid = False, k_ena_latch_ext_pos = False,
        k_ena_latch_ext_neg = False, k_raw_latch = 0, \<dots> = rest\<rparr>"

definition drive_start :: "(real \<Rightarrow> real) \<Rightarrow> 'a \<Rightarrow> 'a drive_scheme" where
  "drive_start rnd rest =
     drive_enc_start rnd
       \<lparr>dc_reset = False, dc_reduce_torque = False, dc_enable = False, dc_absmode = False, dc_value = 0, dc_scale = 1,
        dc_offset = 0, dc_min_dc = -1, dc_max_dc = 1, dc_curr_dc = 0, dc_raw_val = 0, dc_ready_to_enable = False,
        dc_ready = False, dc_warning = False, dc_error = False, dc_move_pos = False, dc_move_neg = False,
        dc_torque_reduced = False, dc_din1 = False, dc_din2 = False, dc_sync_err = False, dc_tx_toggle = False,
        dc_old_scale = rnd (1 + 1), dc_scale_recip = 1, \<dots> = rest\<rparr>"

section \<open>Reading\<close>

definition drive_enc_bits :: "ec_macros \<Rightarrow> u8 list \<Rightarrow> positions \<Rightarrow> 'a drive_enc_scheme \<Rightarrow> 'a drive_enc_scheme option" where
  "drive_enc_bits ec pd P d =
     do {
       ina \<leftarrow> rd_bit ec pd P ina_pdo;
       inb \<leftarrow> rd_bit ec pd P inb_pdo;
       inext \<leftarrow> rd_bit ec pd P inext_pdo;
       sync_err \<leftarrow> rd_bit ec pd P sync_err_pdo;
       stall \<leftarrow> rd_bit ec pd P expol_stall_pdo;
       toggle \<leftarrow> rd_bit ec pd P tx_toggle_pdo;
       ovf \<leftarrow> rd_bit ec pd P count_overflow_pdo;
       unf \<leftarrow> rd_bit ec pd P count_underflow_pdo;
       ext_valid \<leftarrow> rd_bit ec pd P latch_ext_valid_pdo;
       Some (d\<lparr>k_ina := ina, k_inb := inb, k_inext := inext, k_sync_err := sync_err, k_expol_stall := stall,
               k_tx_toggle := toggle, k_count_overflow := ovf, k_count_underflow := unf, k_latch_ext_valid := ext_valid\<rparr>)
     }"

definition drive_dcm_bits :: "ec_macros \<Rightarrow> u8 list \<Rightarrow> positions \<Rightarrow> 'a drive_scheme \<Rightarrow> 'a drive_scheme option" where
  "drive_dcm_bits ec pd P d =
     do {
       rte \<leftarrow> rd_bit ec pd P dcm_ready_to_enable_pdo;
       rdy \<leftarrow> rd_bit ec pd P dcm_ready_pdo;
       wrn \<leftarrow> rd_bit ec pd P dcm_warning_pdo;
       er \<leftarrow> rd_bit ec pd P dcm_error_pdo;
       mpos \<leftarrow> rd_bit ec pd P dcm_move_pos_pdo;
       mneg \<leftarrow> rd_bit ec pd P dcm_move_neg_pdo;
       trq \<leftarrow> rd_bit ec pd P dcm_torque_reduced_pdo;
       d1 \<leftarrow> rd_bit ec pd P dcm_din1_pdo;
       d2 \<leftarrow> rd_bit ec pd P dcm_din2_pdo;
       sync_err \<leftarrow> rd_bit ec pd P dcm_sync_err_pdo;
       toggle \<leftarrow> rd_bit ec pd P dcm_tx_toggle_pdo;
       Some (d\<lparr>dc_ready_to_enable := rte, dc_ready := rdy, dc_warning := wrn, dc_error := er, dc_move_pos := mpos,
               dc_move_neg := mneg, dc_torque_reduced := trq, dc_din1 := d1, dc_din2 := d2, dc_sync_err := sync_err,
               dc_tx_toggle := toggle\<rparr>)
     }"

definition drive_latch :: "int \<Rightarrow> 'a drive_enc_scheme \<Rightarrow> 'a drive_enc_scheme" where
  "drive_latch latch d =
     (if k_latch_ext_valid d
      then d\<lparr>k_raw_latch := latch, k_last_count := latch, k_count := 0, k_ena_latch_ext_pos := False, k_ena_latch_ext_neg := False\<rparr>
      else d)"

text \<open>The steps of a counter up to the latch.\<close>

definition drive_before_latch :: "bool \<Rightarrow> int \<Rightarrow> bool \<Rightarrow> 'a counter_scheme \<Rightarrow> 'a counter_scheme" where
  "drive_before_latch last_op raw ack d =
     (let d = counter_operational last_op raw d;
          d = counter_set_done ack raw d;
          d = counter_raw raw d
      in counter_init raw d)"

definition drive_after_latch :: "(real \<Rightarrow> real) \<Rightarrow> int \<Rightarrow> int \<Rightarrow> 'a drive_enc_scheme \<Rightarrow> 'a drive_enc_scheme" where
  "drive_after_latch rnd raw latch d = counter_net s16 rnd raw (drive_latch latch d)"

lemma drive_before_latch_values [counter_simps]:
  "\<not> k_do_init (drive_before_latch last_op raw ack d)"
  "k_count (drive_before_latch last_op raw ack d) = (if k_do_init d \<or> k_reset d then 0 else k_count d)"
  "k_last_count (drive_before_latch last_op raw ack d) =
     (if k_do_init d \<or> k_reset d \<or> \<not> last_op \<or> ack then raw else k_last_count d)"
  "k_reset (drive_before_latch last_op raw ack d) = k_reset d"
  by (auto simp: drive_before_latch_def Let_def counter_operational_def counter_set_done_def counter_raw_def counter_init_def)

lemma drive_before_latch_more [simp]: "counter.more (drive_before_latch last_op raw ack d) = counter.more d"
  by (simp add: drive_before_latch_def Let_def counter_operational_def counter_set_done_def counter_raw_def counter_init_def)

lemma drive_enc_more:
  fixes d e :: "'a drive_enc_scheme"
  assumes "counter.more e = counter.more d"
  shows "k_latch_ext_valid e = k_latch_ext_valid d" and "k_ena_latch_ext_pos e = k_ena_latch_ext_pos d" and "drive_enc.more e = drive_enc.more d"
  using assms by (cases d; cases e; simp)+

lemma drive_counts_from:
  fixes d :: "'a drive_enc_scheme"
  shows "counts_from s16 (k_latch_ext_valid d) latch (\<not> last_op \<or> ack) raw d
     (drive_after_latch rnd raw latch (drive_before_latch last_op raw ack d))"
proof -
  let ?e = "drive_before_latch last_op raw ack d"
  have v: "k_latch_ext_valid ?e = k_latch_ext_valid d" by (rule drive_enc_more) simp
  show ?thesis
    by (auto simp: counts_from_def counter_base_def drive_after_latch_def drive_latch_def counter_simps v)
qed

section \<open>Writing\<close>

definition drive_limits :: "'a drive_scheme \<Rightarrow> 'a drive_scheme" where
  "drive_limits d =
     (let d = (if dc_max_dc d > 1 then d\<lparr>dc_max_dc := 1\<rparr> else d);
          d = (if dc_min_dc d > dc_max_dc d then d\<lparr>dc_min_dc := dc_max_dc d\<rparr> else d);
          d = (if dc_min_dc d < -1 then d\<lparr>dc_min_dc := -1\<rparr> else d)
      in if dc_max_dc d < dc_min_dc d then d\<lparr>dc_max_dc := dc_min_dc d\<rparr> else d)"

definition drive_rescale :: "(real \<Rightarrow> real) \<Rightarrow> 'a drive_scheme \<Rightarrow> 'a drive_scheme" where
  "drive_rescale rnd d =
     (if dc_scale d \<noteq> dc_old_scale d then
        let d = (if dc_scale d < tiny rnd \<and> dc_scale d > - tiny rnd then d\<lparr>dc_scale := 1\<rparr> else d)
        in d\<lparr>dc_old_scale := dc_scale d, dc_scale_recip := rnd (1 / dc_scale d)\<rparr>
      else d)"

definition drive_duty :: "(real \<Rightarrow> real) \<Rightarrow> 'a drive_scheme \<Rightarrow> real" where
  "drive_duty rnd d =
     (let v = (if dc_absmode d \<and> dc_value d < 0 then - dc_value d else dc_value d);
          dc = rnd (rnd (v * dc_scale_recip d) + dc_offset d);
          dc = (if dc < dc_min_dc d then dc_min_dc d else dc)
      in if dc > dc_max_dc d then dc_max_dc d else dc)"

definition drive_output :: "(real \<Rightarrow> real) \<Rightarrow> 'a drive_scheme \<Rightarrow> real \<times> 'a drive_scheme" where
  "drive_output rnd d =
     (let dc = drive_duty rnd d in
      if \<not> dc_enable d then (0, d\<lparr>dc_curr_dc := 0\<rparr>)
      else
        let raw = rnd (32767 * dc);
            raw = (if raw > 32767 then 32767 else raw);
            raw = (if raw < - 32767 then - 32767 else raw)
        in (raw, d\<lparr>dc_curr_dc := dc\<rparr>))"

text \<open>The pin with the raw value and the 16 bits for the bus; both conversions must be in range.\<close>

definition drive_command :: "(real \<Rightarrow> real) \<Rightarrow> 'a drive_scheme \<Rightarrow> (int \<times> 'a drive_scheme) option" where
  "drive_command rnd d =
     (let (raw, d) = drive_output rnd (drive_rescale rnd (drive_limits d)) in
      do {
        v32 \<leftarrow> c_s32_of raw;
        v16 \<leftarrow> c_s16_of raw;
        Some (v16, d\<lparr>dc_raw_val := v32\<rparr>)
      })"

text \<open>What the output of a duty cycle guarantees.\<close>

definition drive_commanded :: "(real \<Rightarrow> real) \<Rightarrow> 'a drive_scheme \<Rightarrow> 'a drive_scheme \<Rightarrow> int \<Rightarrow> bool" where
  "drive_commanded rnd d d' v \<longleftrightarrow>
     -1 \<le> dc_min_dc d' \<and> dc_min_dc d' \<le> dc_max_dc d' \<and> dc_max_dc d' \<le> 1 \<and> dc_raw_val d' = v \<and> \<bar>v\<bar> \<le> 32767 \<and>
     (if dc_enable d
      then dc_min_dc d' \<le> dc_curr_dc d' \<and> dc_curr_dc d' \<le> dc_max_dc d' \<and> (ieee_rnd rnd \<longrightarrow> v = c_trunc (rnd (32767 * dc_curr_dc d')))
      else v = 0 \<and> dc_curr_dc d' = 0)"

lemma drive_limits_ok:
  "-1 \<le> dc_min_dc (drive_limits d)" "dc_min_dc (drive_limits d) \<le> dc_max_dc (drive_limits d)" "dc_max_dc (drive_limits d) \<le> 1"
  by (simp_all add: drive_limits_def Let_def)

lemma drive_rescale_same [simp]:
  "dc_enable (drive_rescale rnd d) = dc_enable d" "dc_min_dc (drive_rescale rnd d) = dc_min_dc d" "dc_max_dc (drive_rescale rnd d) = dc_max_dc d"
  by (simp_all add: drive_rescale_def Let_def)

lemma drive_limits_same [simp]: "dc_enable (drive_limits d) = dc_enable d"
  by (simp add: drive_limits_def Let_def)

lemma drive_duty_ok: "dc_min_dc d \<le> dc_max_dc d \<Longrightarrow> dc_min_dc d \<le> drive_duty rnd d \<and> drive_duty rnd d \<le> dc_max_dc d"
  by (simp add: drive_duty_def Let_def)

lemma clamp_exact:
  assumes r: "ieee_rnd rnd" and dc: "-1 \<le> dc" "dc \<le> 1"
  shows "- 32767 \<le> rnd (32767 * dc) \<and> rnd (32767 * dc) \<le> 32767"
proof -
  have "rnd (real_of_int (- 32767)) \<le> rnd (32767 * dc)" "rnd (32767 * dc) \<le> rnd (real_of_int 32767)"
    using r dc unfolding ieee_rnd_def mono_def by auto
  moreover have "rnd (real_of_int (- 32767)) = - 32767" "rnd (real_of_int 32767) = 32767"
    using r unfolding ieee_rnd_def by (auto dest: spec [of _ "- 32767"] spec [of _ "32767"])
  ultimately show ?thesis by simp
qed

lemma drive_command_ok:
  fixes d :: "'a drive_scheme"
  obtains v d' where "drive_command rnd d = Some (v, d')" and "drive_commanded rnd d d' v"
    and "d' = drive_rescale rnd (drive_limits d)\<lparr>dc_curr_dc := dc_curr_dc d', dc_raw_val := v\<rparr>"
proof -
  define e where "e = drive_rescale rnd (drive_limits d)"
  define dc where "dc = drive_duty rnd e"
  have lim: "-1 \<le> dc_min_dc e" "dc_min_dc e \<le> dc_max_dc e" "dc_max_dc e \<le> 1" using drive_limits_ok [of d] by (simp_all add: e_def)
  have dcb: "dc_min_dc e \<le> dc" "dc \<le> dc_max_dc e" using drive_duty_ok [OF lim(2)] by (simp_all add: dc_def)
  obtain raw d2 where out: "drive_output rnd e = (raw, d2)" by fastforce
  have d2: "d2 = e\<lparr>dc_curr_dc := if dc_enable d then dc else 0\<rparr>"
    using out by (auto simp: drive_output_def Let_def dc_def e_def split: if_splits)
  have b: "\<bar>raw\<bar> \<le> 32767" using out by (auto simp: drive_output_def Let_def split: if_splits)
  then have t: "\<bar>c_trunc raw\<bar> \<le> 32767"
    by (simp add: c_trunc_def abs_le_iff floor_le_iff le_floor_iff ceiling_le_iff le_ceiling_iff) linarith
  then have c: "c_s16_of raw = Some (c_trunc raw)" "c_s32_of raw = Some (c_trunc raw)"
    by (simp_all add: c_s16_of_def c_s32_of_def in_s32_def abs_le_iff)
  have x: "raw = rnd (32767 * dc)" if "dc_enable d" "ieee_rnd rnd"
    using out clamp_exact [OF that(2), of dc] lim dcb that(1) by (auto simp: drive_output_def Let_def dc_def e_def split: if_splits)
  have z: "raw = 0" if "\<not> dc_enable d" using out that by (simp add: drive_output_def e_def)
  show thesis
  proof (rule that [of "c_trunc raw" "d2\<lparr>dc_raw_val := c_trunc raw\<rparr>"])
    show "drive_command rnd d = Some (c_trunc raw, d2\<lparr>dc_raw_val := c_trunc raw\<rparr>)"
      using c out by (simp add: drive_command_def Let_def e_def)
    show "drive_commanded rnd d (d2\<lparr>dc_raw_val := c_trunc raw\<rparr>) (c_trunc raw)"
      using lim dcb t x z by (simp add: drive_commanded_def d2 c_trunc_def)
  qed (simp add: d2 e_def)
qed

text \<open>A limited duty cycle and a limited raw value are the same thing.\<close>

lemma drive_limits_id:
  assumes "-1 \<le> dc_min_dc d" and "dc_min_dc d \<le> dc_max_dc d" and "dc_max_dc d \<le> 1"
  shows "drive_limits d = d"
  using assms by (simp add: drive_limits_def)

end
