(* ===== verification/DevEl7342.thy ===== *)
theory DevEl7342
  imports DevDrive Sdo
begin

text \<open>
  The driver of the EL7342 DC motor terminal (\<open>devices/lcec_el7342.c\<close>): two channels, each with
  an encoder, the output of a duty cycle, and two information values whose meaning the terminal
  says in its configuration. A pin for such a value exists only if it is selected.
\<close>

section \<open>State and tables\<close>

definition LCEC_EL7342_CHANS :: nat where "LCEC_EL7342_CHANS = 2"
definition INFO_SEL_MOTOR_CURR :: u32 where "INFO_SEL_MOTOR_CURR = 2"
definition INFO_SEL_MOTOR_VELO :: u32 where "INFO_SEL_MOTOR_VELO = 7"

record el7342_chan = drive +
  e7_raw_info1 :: int
  e7_raw_info2 :: int
  e7_sel_info1 :: u32
  e7_sel_info2 :: u32
  e7_velo_fb :: "real option"
  e7_current_fb :: "real option"

record el7342 =
  e7_chans :: "el7342_chan list"
  e7_last_operational :: bool

definition el7342_pins :: "pindesc list" where
  "el7342_pins =
     [pin_row HAL_BIT HAL_IN ''reset'' ''%s.%s.%s.enc-%d-reset'',
      pin_row HAL_BIT HAL_OUT ''ina'' ''%s.%s.%s.enc-%d-ina'',
      pin_row HAL_BIT HAL_OUT ''inb'' ''%s.%s.%s.enc-%d-inb'',
      pin_row HAL_BIT HAL_OUT ''inext'' ''%s.%s.%s.enc-%d-inext'',
      pin_row HAL_BIT HAL_OUT ''sync_err'' ''%s.%s.%s.enc-%d-sync-error'',
      pin_row HAL_BIT HAL_OUT ''expol_stall'' ''%s.%s.%s.enc-%d-expol-stall'',
      pin_row HAL_BIT HAL_OUT ''tx_toggle'' ''%s.%s.%s.enc-%d-tx-toggle'',
      pin_row HAL_BIT HAL_OUT ''count_overflow'' ''%s.%s.%s.enc-%d-count-overflow'',
      pin_row HAL_BIT HAL_OUT ''count_underflow'' ''%s.%s.%s.enc-%d-count-underflow'',
      pin_row HAL_BIT HAL_OUT ''latch_ext_valid'' ''%s.%s.%s.enc-%d-latch-ext-valid'',
      pin_row HAL_BIT HAL_IO ''set_raw_count'' ''%s.%s.%s.enc-%d-set-raw-count'',
      pin_row HAL_BIT HAL_IO ''ena_latch_ext_pos'' ''%s.%s.%s.enc-%d-index-ext-pos-enable'',
      pin_row HAL_BIT HAL_IO ''ena_latch_ext_neg'' ''%s.%s.%s.enc-%d-index-ext-neg-enable'',
      pin_row HAL_S32 HAL_IN ''set_raw_count_val'' ''%s.%s.%s.enc-%d-set-raw-count-val'',
      pin_row HAL_S32 HAL_OUT ''raw_count'' ''%s.%s.%s.enc-%d-raw-count'',
      pin_row HAL_S32 HAL_OUT ''count'' ''%s.%s.%s.enc-%d-count'',
      pin_row HAL_S32 HAL_OUT ''raw_latch'' ''%s.%s.%s.enc-%d-raw-latch'',
      pin_row HAL_FLOAT HAL_OUT ''pos'' ''%s.%s.%s.enc-%d-pos'',
      pin_row HAL_FLOAT HAL_IO ''pos_scale'' ''%s.%s.%s.enc-%d-pos-scale'',
      pin_row HAL_FLOAT HAL_IO ''dcm_scale'' ''%s.%s.%s.srv-%d-scale'',
      pin_row HAL_FLOAT HAL_IO ''dcm_offset'' ''%s.%s.%s.srv-%d-offset'',
      pin_row HAL_FLOAT HAL_IO ''dcm_min_dc'' ''%s.%s.%s.srv-%d-min-dc'',
      pin_row HAL_FLOAT HAL_IO ''dcm_max_dc'' ''%s.%s.%s.srv-%d-max-dc'',
      pin_row HAL_FLOAT HAL_OUT ''dcm_curr_dc'' ''%s.%s.%s.srv-%d-curr-dc'',
      pin_row HAL_BIT HAL_IN ''dcm_enable'' ''%s.%s.%s.srv-%d-enable'',
      pin_row HAL_BIT HAL_IN ''dcm_absmode'' ''%s.%s.%s.srv-%d-absmode'',
      pin_row HAL_FLOAT HAL_IN ''dcm_value'' ''%s.%s.%s.srv-%d-cmd'',
      pin_row HAL_S32 HAL_OUT ''dcm_raw_val'' ''%s.%s.%s.srv-%d-raw-cmd'',
      pin_row HAL_BIT HAL_IN ''dcm_reset'' ''%s.%s.%s.srv-%d-reset'',
      pin_row HAL_BIT HAL_IN ''dcm_reduce_torque'' ''%s.%s.%s.srv-%d-reduce-torque'',
      pin_row HAL_BIT HAL_OUT ''dcm_ready_to_enable'' ''%s.%s.%s.srv-%d-ready-to-enable'',
      pin_row HAL_BIT HAL_OUT ''dcm_ready'' ''%s.%s.%s.srv-%d-ready'',
      pin_row HAL_BIT HAL_OUT ''dcm_warning'' ''%s.%s.%s.srv-%d-warning'',
      pin_row HAL_BIT HAL_OUT ''dcm_error'' ''%s.%s.%s.srv-%d-error'',
      pin_row HAL_BIT HAL_OUT ''dcm_move_pos'' ''%s.%s.%s.srv-%d-move-pos'',
      pin_row HAL_BIT HAL_OUT ''dcm_move_neg'' ''%s.%s.%s.srv-%d-move-neg'',
      pin_row HAL_BIT HAL_OUT ''dcm_torque_reduced'' ''%s.%s.%s.srv-%d-torque-reduced'',
      pin_row HAL_BIT HAL_OUT ''dcm_din1'' ''%s.%s.%s.srv-%d-din1'',
      pin_row HAL_BIT HAL_OUT ''dcm_din2'' ''%s.%s.%s.srv-%d-din2'',
      pin_row HAL_BIT HAL_OUT ''dcm_sync_err'' ''%s.%s.%s.srv-%d-sync-error'',
      pin_row HAL_BIT HAL_OUT ''dcm_tx_toggle'' ''%s.%s.%s.srv-%d-tx-toggle'',
      pin_row HAL_S32 HAL_OUT ''dcm_raw_info1'' ''%s.%s.%s.srv-%d-raw-info1'',
      pin_row HAL_S32 HAL_OUT ''dcm_raw_info2'' ''%s.%s.%s.srv-%d-raw-info2'',
      pin_row HAL_U32 HAL_OUT ''dcm_sel_info1'' ''%s.%s.%s.srv-%d-sel-info1'',
      pin_row HAL_U32 HAL_OUT ''dcm_sel_info2'' ''%s.%s.%s.srv-%d-sel-info2'',
      pin_end]"

definition el7342_channel1_enc_out :: "pdo_entry_info list" where
  "el7342_channel1_enc_out =
     [entry 0 0 1, entry 0x7000 0x02 1, entry 0x7000 0x03 1, entry 0x7000 0x04 1, entry 0 0 4, entry 0 0 8,
      entry 0x7000 0x11 16]"

definition el7342_channel2_enc_out :: "pdo_entry_info list" where
  "el7342_channel2_enc_out =
     [entry 0 0 1, entry 0x7010 0x02 1, entry 0x7010 0x03 1, entry 0x7010 0x04 1, entry 0 0 4, entry 0 0 8,
      entry 0x7010 0x11 16]"

definition el7342_channel1_dcm_out :: "pdo_entry_info list" where
  "el7342_channel1_dcm_out =
     [entry 0x7020 0x01 1, entry 0x7020 0x02 1, entry 0x7020 0x03 1, entry 0 0 5, entry 0 0 8]"

definition el7342_channel1_vel_out :: "pdo_entry_info list" where
  "el7342_channel1_vel_out =
     [entry 0x7020 0x21 16]"

definition el7342_channel2_dcm_out :: "pdo_entry_info list" where
  "el7342_channel2_dcm_out =
     [entry 0x7030 0x01 1, entry 0x7030 0x02 1, entry 0x7030 0x03 1, entry 0 0 5, entry 0 0 8]"

definition el7342_channel2_vel_out :: "pdo_entry_info list" where
  "el7342_channel2_vel_out =
     [entry 0x7030 0x21 16]"

definition el7342_channel1_enc_in :: "pdo_entry_info list" where
  "el7342_channel1_enc_in =
     [entry 0 0 1, entry 0x6000 0x02 1, entry 0x6000 0x03 1, entry 0x6000 0x04 1, entry 0x6000 0x05 1, entry 0 0 2,
      entry 0x6000 0x08 1, entry 0x6000 0x09 1, entry 0x6000 0x0a 1, entry 0 0 1, entry 0 0 1, entry 0x6000 0x0d 1,
      entry 0x1c32 0x20 1, entry 0 0 1, entry 0x1800 0x09 1, entry 0x6000 0x11 16, entry 0x6000 0x12 16]"

definition el7342_channel2_enc_in :: "pdo_entry_info list" where
  "el7342_channel2_enc_in =
     [entry 0 0 1, entry 0x6010 0x02 1, entry 0x6010 0x03 1, entry 0x6010 0x04 1, entry 0x6010 0x05 1, entry 0 0 2,
      entry 0x6010 0x08 1, entry 0x6010 0x09 1, entry 0x6010 0x0a 1, entry 0 0 1, entry 0 0 1, entry 0x6010 0x0d 1,
      entry 0x1c32 0x20 1, entry 0 0 1, entry 0x1803 0x09 1, entry 0x6010 0x11 16, entry 0x6010 0x12 16]"

definition el7342_channel1_dcm_in :: "pdo_entry_info list" where
  "el7342_channel1_dcm_in =
     [entry 0x6020 0x01 1, entry 0x6020 0x02 1, entry 0x6020 0x03 1, entry 0x6020 0x04 1, entry 0x6020 0x05 1,
      entry 0x6020 0x06 1, entry 0x6020 0x07 1, entry 0 0 1, entry 0 0 3, entry 0x6020 0x0c 1, entry 0x6020 0x0d 1,
      entry 0x1c32 0x20 1, entry 0 0 1, entry 0x1806 0x09 1]"

definition el7342_channel1_dcm_sync_info :: "pdo_entry_info list" where
  "el7342_channel1_dcm_sync_info =
     [entry 0x6020 0x11 16, entry 0x6020 0x12 16]"

definition el7342_channel2_dcm_in :: "pdo_entry_info list" where
  "el7342_channel2_dcm_in =
     [entry 0x6030 0x01 1, entry 0x6030 0x02 1, entry 0x6030 0x03 1, entry 0x6030 0x04 1, entry 0x6030 0x05 1,
      entry 0x6030 0x06 1, entry 0x6030 0x07 1, entry 0 0 1, entry 0 0 3, entry 0x6030 0x0c 1, entry 0x6030 0x0d 1,
      entry 0x1c32 0x20 1, entry 0 0 1, entry 0x1808 0x09 1]"

definition el7342_channel2_dcm_sync_info :: "pdo_entry_info list" where
  "el7342_channel2_dcm_sync_info =
     [entry 0x6030 0x11 16, entry 0x6030 0x12 16]"
definition el7342_syncs :: "static_sync list" where
  "el7342_syncs =
     [ssync 0 EC_DIR_OUTPUT 0 [], ssync 1 EC_DIR_INPUT 0 [],
      ssync 2 EC_DIR_OUTPUT 6
        [spdo 0x1600 7 el7342_channel1_enc_out, spdo 0x1602 7 el7342_channel2_enc_out,
         spdo 0x1604 5 el7342_channel1_dcm_out, spdo 0x1606 1 el7342_channel1_vel_out,
         spdo 0x1607 5 el7342_channel2_dcm_out, spdo 0x1609 1 el7342_channel2_vel_out],
      ssync 3 EC_DIR_INPUT 6
        [spdo 0x1a00 17 el7342_channel1_enc_in, spdo 0x1a03 17 el7342_channel2_enc_in,
         spdo 0x1a06 14 el7342_channel1_dcm_in, spdo 0x1a07 2 el7342_channel1_dcm_sync_info,
         spdo 0x1a08 14 el7342_channel2_dcm_in, spdo 0x1a09 2 el7342_channel2_dcm_sync_info],
      ssync_end]"

definition el7342_chan_rows :: "nat \<Rightarrow> pdo_row list" where
  "el7342_chan_rows i =
     (let a = push_bit 4 (of_nat i :: u16); b = (of_nat (3 * i) :: u16); c = push_bit 1 (of_nat i :: u16) in
      [bit_row (0x6000 + a) 0x02 latch_ext_valid_pdo, bit_row (0x6000 + a) 0x03 set_count_done_pdo,
       bit_row (0x6000 + a) 0x04 count_underflow_pdo, bit_row (0x6000 + a) 0x05 count_overflow_pdo,
       bit_row (0x6000 + a) 0x08 expol_stall_pdo, bit_row (0x6000 + a) 0x09 ina_pdo, bit_row (0x6000 + a) 0x0a inb_pdo,
       bit_row (0x6000 + a) 0x0d inext_pdo, bit_row 0x1c32 0x20 sync_err_pdo, bit_row (0x1800 + b) 0x09 tx_toggle_pdo,
       word_row (0x6000 + a) 0x11 count_pdo, word_row (0x6000 + a) 0x12 latch_pdo,
       bit_row (0x7000 + a) 0x02 ena_latch_ext_pos_pdo, bit_row (0x7000 + a) 0x03 set_count_pdo,
       bit_row (0x7000 + a) 0x04 ena_latch_ext_neg_pdo, word_row (0x7000 + a) 0x11 set_count_val_pdo,
       bit_row (0x6020 + a) 0x01 dcm_ready_to_enable_pdo, bit_row (0x6020 + a) 0x02 dcm_ready_pdo,
       bit_row (0x6020 + a) 0x03 dcm_warning_pdo, bit_row (0x6020 + a) 0x04 dcm_error_pdo,
       bit_row (0x6020 + a) 0x05 dcm_move_pos_pdo, bit_row (0x6020 + a) 0x06 dcm_move_neg_pdo,
       bit_row (0x6020 + a) 0x07 dcm_torque_reduced_pdo, bit_row (0x6020 + a) 0x0c dcm_din1_pdo,
       bit_row (0x6020 + a) 0x0d dcm_din2_pdo, bit_row 0x1c32 0x20 dcm_sync_err_pdo,
       bit_row (0x1806 + c) 0x09 dcm_tx_toggle_pdo, word_row (0x6020 + a) 0x11 dcm_info1_pdo,
       word_row (0x6020 + a) 0x12 dcm_info2_pdo, bit_row (0x7020 + a) 0x01 dcm_ena_pdo,
       bit_row (0x7020 + a) 0x02 dcm_reset_pdo, bit_row (0x7020 + a) 0x03 dcm_reduce_torque_pdo,
       word_row (0x7020 + a) 0x21 dcm_velo_pdo])"

definition el7342_rows :: "pdo_row list" where
  "el7342_rows = concat (map (\<lambda>i. map (shift_row i) (el7342_chan_rows i)) [0..<LCEC_EL7342_CHANS])"

section \<open>Initialisation\<close>

definition el7342_chan_start :: "(real \<Rightarrow> real) \<Rightarrow> u32 \<Rightarrow> u32 \<Rightarrow> el7342_chan" where
  "el7342_chan_start rnd info1 info2 =
     drive_start rnd
       \<lparr>e7_raw_info1 = 0, e7_raw_info2 = 0, e7_sel_info1 = info1, e7_sel_info2 = info2,
        e7_velo_fb = (if info1 = INFO_SEL_MOTOR_VELO \<or> info2 = INFO_SEL_MOTOR_VELO then Some 0 else None),
        e7_current_fb = (if info1 = INFO_SEL_MOTOR_CURR \<or> info2 = INFO_SEL_MOTOR_CURR then Some 0 else None)\<rparr>"

text \<open>The pins of a channel: the table, and the two pins that depend on the selection.\<close>

definition el7342_export ::
    "hal_env \<Rightarrow> u32 \<Rightarrow> u32 \<Rightarrow> fmt_arg list \<Rightarrow> hal_obj list \<Rightarrow> (int \<times> hal_obj list) option" where
  "el7342_export env info1 info2 as objs =
     do {
       (err, objs) \<leftarrow> lcec_pin_newf_list env el7342_pins as objs;
       if err \<noteq> 0 then Some (err, objs)
       else do {
         (err, objs) \<leftarrow> (if info1 = INFO_SEL_MOTOR_VELO \<or> info2 = INFO_SEL_MOTOR_VELO
           then lcec_pin_newf env HAL_FLOAT HAL_OUT ''dcm_velo_fb'' ''%s.%s.%s.srv-%d-velo-fb'' as objs
           else Some (0, objs));
         if err \<noteq> 0 then Some (err, objs)
         else if info1 = INFO_SEL_MOTOR_CURR \<or> info2 = INFO_SEL_MOTOR_CURR
         then lcec_pin_newf env HAL_FLOAT HAL_OUT ''dcm_current_fb'' ''%s.%s.%s.srv-%d-current-fb'' as objs
         else Some (0, objs)
       }
     }"

fun el7342_init_chans ::
    "hal_env \<Rightarrow> sdo_env \<Rightarrow> u8 \<Rightarrow> (real \<Rightarrow> real) \<Rightarrow> string \<Rightarrow> nat list \<Rightarrow> lcec_slave \<Rightarrow> hal_obj list \<Rightarrow>
     (int \<times> el7342_chan list \<times> lcec_slave \<times> hal_obj list) option" where
  "el7342_init_chans env senv junk rnd mname [] s objs = Some (0, [], s, objs)"
| "el7342_init_chans env senv junk rnd mname (i # is) s objs =
     (let sel = 0x8022 + push_bit 4 (of_nat i :: u16);
          (err1, info1) = lcec_read_sdo8 senv s sel 0x11 junk;
          (err2, info2) = lcec_read_sdo8 senv s sel 0x19 junk in
      if err1 \<noteq> 0 then Some (- EIO, [], s, objs)
      else if err2 \<noteq> 0 then Some (- EIO, [], s, objs)
      else do {
        s \<leftarrow> pdo_init_rows (map (shift_row i) (el7342_chan_rows i)) s;
        (err, objs) \<leftarrow> el7342_export env (ucast info1) (ucast info2)
                         [FStr LCEC_MODULE_NAME, FStr mname, FStr (sl_name s), FInt (int i)] objs;
        if err \<noteq> 0 then Some (err, [], s, objs)
        else do {
          (err, cs, s, objs) \<leftarrow> el7342_init_chans env senv junk rnd mname is s objs;
          Some (err, el7342_chan_start rnd (ucast info1) (ucast info2) # cs, s, objs)
        }
      })"

definition lcec_el7342_init ::
    "hal_env \<Rightarrow> sdo_env \<Rightarrow> u8 \<Rightarrow> (real \<Rightarrow> real) \<Rightarrow> string \<Rightarrow> lcec_slave \<Rightarrow> hal_obj list \<Rightarrow>
     (int \<times> el7342 option \<times> lcec_slave \<times> hal_obj list) option" where
  "lcec_el7342_init env senv junk rnd mname s objs =
     do {
       let s = s\<lparr>sl_proc_read := True, sl_proc_write := True, sl_sync_info := True\<rparr>;
       (err, cs, s, objs) \<leftarrow> el7342_init_chans env senv junk rnd mname [0..<LCEC_EL7342_CHANS] s objs;
       Some (err, if err \<noteq> 0 then None else Some \<lparr>e7_chans = cs, e7_last_operational = False\<rparr>, s, objs)
     }"

section \<open>Cycles\<close>

text \<open>A value for a pin that does not exist is a store through a null pointer.\<close>

definition lcec_el7342_set_info :: "(real \<Rightarrow> real) \<Rightarrow> int \<Rightarrow> u32 \<Rightarrow> el7342_chan \<Rightarrow> el7342_chan option" where
  "lcec_el7342_set_info rnd raw sel d =
     (if sel = INFO_SEL_MOTOR_VELO then
        (case e7_velo_fb d of None \<Rightarrow> None
         | Some _ \<Rightarrow> Some (d\<lparr>e7_velo_fb := Some (rnd (rnd (real_of_int raw * rnd (1 / 10 ^ 4)) * dc_old_scale d))\<rparr>))
      else if sel = INFO_SEL_MOTOR_CURR then
        (case e7_current_fb d of None \<Rightarrow> None
         | Some _ \<Rightarrow> Some (d\<lparr>e7_current_fb := Some (rnd (real_of_int raw * rnd (1 / 10 ^ 3)))\<rparr>))
      else Some d)"

definition el7342_chan_read ::
    "ec_macros \<Rightarrow> (real \<Rightarrow> real) \<Rightarrow> positions \<Rightarrow> bool \<Rightarrow> u8 list \<Rightarrow> el7342_chan \<Rightarrow> el7342_chan option" where
  "el7342_chan_read ec rnd P last_op pd d =
     do {
       d \<leftarrow> drive_enc_bits ec pd P (counter_scale rnd d);
       d \<leftarrow> drive_dcm_bits ec pd P d;
       raw \<leftarrow> rd_s16 ec pd P count_pdo;
       latch \<leftarrow> rd_s16 ec pd P latch_pdo;
       info1 \<leftarrow> rd_s16 ec pd P dcm_info1_pdo;
       info2 \<leftarrow> rd_s16 ec pd P dcm_info2_pdo;
       let d = d\<lparr>e7_raw_info1 := info1, e7_raw_info2 := info2\<rparr>;
       d \<leftarrow> lcec_el7342_set_info rnd (e7_raw_info1 d) (e7_sel_info1 d) d;
       d \<leftarrow> lcec_el7342_set_info rnd (e7_raw_info2 d) (e7_sel_info2 d) d;
       ack \<leftarrow> rd_bit ec pd P set_count_done_pdo;
       Some (drive_after_latch rnd raw latch (drive_before_latch last_op raw ack d))
     }"

definition lcec_el7342_read ::
    "ec_macros \<Rightarrow> (real \<Rightarrow> real) \<Rightarrow> positions \<Rightarrow> bool \<Rightarrow> u8 list \<Rightarrow> el7342 \<Rightarrow> el7342 option" where
  "lcec_el7342_read ec rnd P operational pd d =
     (if \<not> operational then Some (d\<lparr>e7_last_operational := False\<rparr>)
      else map_option (\<lambda>cs. d\<lparr>e7_chans := cs, e7_last_operational := True\<rparr>)
             (read_chans (\<lambda>i. el7342_chan_read ec rnd (chan_positions i P) (e7_last_operational d) pd) 0 (e7_chans d)))"

definition el7342_outs :: "int \<Rightarrow> el7342_chan \<Rightarrow> (nat \<times> out_val) list" where
  "el7342_outs v d =
     [(set_count_pdo, OutBit (k_set_raw_count d)), (ena_latch_ext_pos_pdo, OutBit (k_ena_latch_ext_pos d)),
      (ena_latch_ext_neg_pdo, OutBit (k_ena_latch_ext_neg d)), (set_count_val_pdo, Out16 (k_set_raw_count_val d)),
      (dcm_ena_pdo, OutBit (dc_enable d)), (dcm_reset_pdo, OutBit (dc_reset d)),
      (dcm_reduce_torque_pdo, OutBit (dc_reduce_torque d)), (dcm_velo_pdo, Out16 v)]"

definition el7342_chan_write ::
    "ec_macros \<Rightarrow> (real \<Rightarrow> real) \<Rightarrow> positions \<Rightarrow> el7342_chan \<Rightarrow> u8 list \<Rightarrow> (el7342_chan \<times> u8 list) option" where
  "el7342_chan_write ec rnd P d pd =
     do {
       (v, d) \<leftarrow> drive_command rnd d;
       pd \<leftarrow> wr_all ec P (el7342_outs v d) pd;
       Some (d, pd)
     }"

definition lcec_el7342_write ::
    "ec_macros \<Rightarrow> (real \<Rightarrow> real) \<Rightarrow> positions \<Rightarrow> el7342 \<Rightarrow> u8 list \<Rightarrow> (el7342 \<times> u8 list) option" where
  "lcec_el7342_write ec rnd P d pd =
     map_option (map_prod (\<lambda>cs. d\<lparr>e7_chans := cs\<rparr>) id)
       (write_chans (\<lambda>i. el7342_chan_write ec rnd (chan_positions i P)) 0 (e7_chans d) pd)"

section \<open>Tables and positions\<close>

definition el7342_read_bits :: "nat list" where
  "el7342_read_bits =
     [ina_pdo, inb_pdo, inext_pdo, sync_err_pdo, expol_stall_pdo, tx_toggle_pdo, count_overflow_pdo, count_underflow_pdo,
      latch_ext_valid_pdo, set_count_done_pdo, dcm_ready_to_enable_pdo, dcm_ready_pdo, dcm_warning_pdo, dcm_error_pdo,
      dcm_move_pos_pdo, dcm_move_neg_pdo, dcm_torque_reduced_pdo, dcm_din1_pdo, dcm_din2_pdo, dcm_sync_err_pdo,
      dcm_tx_toggle_pdo]"

definition el7342_read_words :: "(nat \<times> nat) list" where
  "el7342_read_words = [(count_pdo, 2), (latch_pdo, 2), (dcm_info1_pdo, 2), (dcm_info2_pdo, 2)]"

definition el7342_out_shape :: "(nat \<times> nat) list" where
  "el7342_out_shape =
     [(set_count_pdo, 1), (ena_latch_ext_pos_pdo, 1), (ena_latch_ext_neg_pdo, 1), (set_count_val_pdo, 16),
      (dcm_ena_pdo, 1), (dcm_reset_pdo, 1), (dcm_reduce_torque_pdo, 1), (dcm_velo_pdo, 16)]"

text \<open>The tables evaluated: where the entries are, what is registered, and where the members are.\<close>

lemmas el7342_table_defs = el7342_syncs_def el7342_channel1_enc_out_def el7342_channel2_enc_out_def el7342_channel1_dcm_out_def
  el7342_channel1_vel_out_def el7342_channel2_dcm_out_def el7342_channel2_vel_out_def el7342_channel1_enc_in_def
  el7342_channel2_enc_in_def el7342_channel1_dcm_in_def el7342_channel1_dcm_sync_info_def el7342_channel2_dcm_in_def
  el7342_channel2_dcm_sync_info_def

lemma el7342_places: "table_places el7342_syncs =
     [(7340034, 2, EC_DIR_OUTPUT, 1, 1), (7340035, 2, EC_DIR_OUTPUT, 2, 1), (7340036, 2, EC_DIR_OUTPUT, 3, 1),
      (7340049, 2, EC_DIR_OUTPUT, 16, 16), (7344130, 2, EC_DIR_OUTPUT, 33, 1), (7344131, 2, EC_DIR_OUTPUT, 34, 1),
      (7344132, 2, EC_DIR_OUTPUT, 35, 1), (7344145, 2, EC_DIR_OUTPUT, 48, 16), (7348225, 2, EC_DIR_OUTPUT, 64, 1),
      (7348226, 2, EC_DIR_OUTPUT, 65, 1), (7348227, 2, EC_DIR_OUTPUT, 66, 1), (7348257, 2, EC_DIR_OUTPUT, 80, 16),
      (7352321, 2, EC_DIR_OUTPUT, 96, 1), (7352322, 2, EC_DIR_OUTPUT, 97, 1), (7352323, 2, EC_DIR_OUTPUT, 98, 1),
      (7352353, 2, EC_DIR_OUTPUT, 112, 16), (6291458, 3, EC_DIR_INPUT, 1, 1), (6291459, 3, EC_DIR_INPUT, 2, 1),
      (6291460, 3, EC_DIR_INPUT, 3, 1), (6291461, 3, EC_DIR_INPUT, 4, 1), (6291464, 3, EC_DIR_INPUT, 7, 1),
      (6291465, 3, EC_DIR_INPUT, 8, 1), (6291466, 3, EC_DIR_INPUT, 9, 1), (6291469, 3, EC_DIR_INPUT, 12, 1),
      (1847840, 3, EC_DIR_INPUT, 13, 1), (1572873, 3, EC_DIR_INPUT, 15, 1), (6291473, 3, EC_DIR_INPUT, 16, 16),
      (6291474, 3, EC_DIR_INPUT, 32, 16), (6295554, 3, EC_DIR_INPUT, 49, 1), (6295555, 3, EC_DIR_INPUT, 50, 1),
      (6295556, 3, EC_DIR_INPUT, 51, 1), (6295557, 3, EC_DIR_INPUT, 52, 1), (6295560, 3, EC_DIR_INPUT, 55, 1),
      (6295561, 3, EC_DIR_INPUT, 56, 1), (6295562, 3, EC_DIR_INPUT, 57, 1), (6295565, 3, EC_DIR_INPUT, 60, 1),
      (1847840, 3, EC_DIR_INPUT, 61, 1), (1573641, 3, EC_DIR_INPUT, 63, 1), (6295569, 3, EC_DIR_INPUT, 64, 16),
      (6295570, 3, EC_DIR_INPUT, 80, 16), (6299649, 3, EC_DIR_INPUT, 96, 1), (6299650, 3, EC_DIR_INPUT, 97, 1),
      (6299651, 3, EC_DIR_INPUT, 98, 1), (6299652, 3, EC_DIR_INPUT, 99, 1), (6299653, 3, EC_DIR_INPUT, 100, 1),
      (6299654, 3, EC_DIR_INPUT, 101, 1), (6299655, 3, EC_DIR_INPUT, 102, 1), (6299660, 3, EC_DIR_INPUT, 107, 1),
      (6299661, 3, EC_DIR_INPUT, 108, 1), (1847840, 3, EC_DIR_INPUT, 109, 1), (1574409, 3, EC_DIR_INPUT, 111, 1),
      (6299665, 3, EC_DIR_INPUT, 112, 16), (6299666, 3, EC_DIR_INPUT, 128, 16), (6303745, 3, EC_DIR_INPUT, 144, 1),
      (6303746, 3, EC_DIR_INPUT, 145, 1), (6303747, 3, EC_DIR_INPUT, 146, 1), (6303748, 3, EC_DIR_INPUT, 147, 1),
      (6303749, 3, EC_DIR_INPUT, 148, 1), (6303750, 3, EC_DIR_INPUT, 149, 1), (6303751, 3, EC_DIR_INPUT, 150, 1),
      (6303756, 3, EC_DIR_INPUT, 155, 1), (6303757, 3, EC_DIR_INPUT, 156, 1), (1847840, 3, EC_DIR_INPUT, 157, 1),
      (1574921, 3, EC_DIR_INPUT, 159, 1), (6303761, 3, EC_DIR_INPUT, 160, 16), (6303762, 3, EC_DIR_INPUT, 176, 16)]"
  by (simp add: table_simps el7342_table_defs)

lemma el7342_keys: "row_keys el7342_rows =
     [(6291458, 15, Some 15), (6291459, 13, Some 13), (6291460, 25, Some 25), (6291461, 24, Some 24), (6291464, 16, Some 16),
      (6291465, 17, Some 17), (6291466, 18, Some 18), (6291469, 20, Some 20), (1847840, 21, Some 21), (1572873, 22, Some 22),
      (6291473, 23, None), (6291474, 2, None), (7340034, 9, Some 9), (7340035, 11, Some 11), (7340036, 10, Some 10),
      (7340049, 12, None), (6299649, 30, Some 30), (6299650, 31, Some 31), (6299651, 32, Some 32), (6299652, 33, Some 33),
      (6299653, 34, Some 34), (6299654, 35, Some 35), (6299655, 36, Some 36), (6299660, 37, Some 37), (6299661, 38, Some 38),
      (1847840, 39, Some 39), (1574409, 40, Some 40), (6299665, 41, None), (6299666, 42, None), (7348225, 26, Some 26),
      (7348226, 27, Some 27), (7348227, 28, Some 28), (7348257, 29, None), (6295554, 79, Some 79), (6295555, 77, Some 77),
      (6295556, 89, Some 89), (6295557, 88, Some 88), (6295560, 80, Some 80), (6295561, 81, Some 81), (6295562, 82, Some 82),
      (6295565, 84, Some 84), (1847840, 85, Some 85), (1573641, 86, Some 86), (6295569, 87, None), (6295570, 66, None),
      (7344130, 73, Some 73), (7344131, 75, Some 75), (7344132, 74, Some 74), (7344145, 76, None), (6303745, 94, Some 94),
      (6303746, 95, Some 95), (6303747, 96, Some 96), (6303748, 97, Some 97), (6303749, 98, Some 98), (6303750, 99, Some 99),
      (6303751, 100, Some 100), (6303756, 101, Some 101), (6303757, 102, Some 102), (1847840, 103, Some 103),
      (1574921, 104, Some 104), (6303761, 105, None), (6303762, 106, None), (7352321, 90, Some 90), (7352322, 91, Some 91),
      (7352323, 92, Some 92), (7352353, 93, None)]"
  by (simp add: table_simps el7342_rows_def el7342_chan_rows_def LCEC_EL7342_CHANS_def Let_def upt_rec)

lemma el7342_members: "member_table el7342_syncs el7342_rows =
     [(15, Some (3, EC_DIR_INPUT, 1, 1), Some 15), (13, Some (3, EC_DIR_INPUT, 2, 1), Some 13),
      (25, Some (3, EC_DIR_INPUT, 3, 1), Some 25), (24, Some (3, EC_DIR_INPUT, 4, 1), Some 24),
      (16, Some (3, EC_DIR_INPUT, 7, 1), Some 16), (17, Some (3, EC_DIR_INPUT, 8, 1), Some 17),
      (18, Some (3, EC_DIR_INPUT, 9, 1), Some 18), (20, Some (3, EC_DIR_INPUT, 12, 1), Some 20),
      (21, Some (3, EC_DIR_INPUT, 13, 1), Some 21), (22, Some (3, EC_DIR_INPUT, 15, 1), Some 22),
      (23, Some (3, EC_DIR_INPUT, 16, 16), None), (2, Some (3, EC_DIR_INPUT, 32, 16), None),
      (9, Some (2, EC_DIR_OUTPUT, 1, 1), Some 9), (11, Some (2, EC_DIR_OUTPUT, 2, 1), Some 11),
      (10, Some (2, EC_DIR_OUTPUT, 3, 1), Some 10), (12, Some (2, EC_DIR_OUTPUT, 16, 16), None),
      (30, Some (3, EC_DIR_INPUT, 96, 1), Some 30), (31, Some (3, EC_DIR_INPUT, 97, 1), Some 31),
      (32, Some (3, EC_DIR_INPUT, 98, 1), Some 32), (33, Some (3, EC_DIR_INPUT, 99, 1), Some 33),
      (34, Some (3, EC_DIR_INPUT, 100, 1), Some 34), (35, Some (3, EC_DIR_INPUT, 101, 1), Some 35),
      (36, Some (3, EC_DIR_INPUT, 102, 1), Some 36), (37, Some (3, EC_DIR_INPUT, 107, 1), Some 37),
      (38, Some (3, EC_DIR_INPUT, 108, 1), Some 38), (39, Some (3, EC_DIR_INPUT, 13, 1), Some 39),
      (40, Some (3, EC_DIR_INPUT, 111, 1), Some 40), (41, Some (3, EC_DIR_INPUT, 112, 16), None),
      (42, Some (3, EC_DIR_INPUT, 128, 16), None), (26, Some (2, EC_DIR_OUTPUT, 64, 1), Some 26),
      (27, Some (2, EC_DIR_OUTPUT, 65, 1), Some 27), (28, Some (2, EC_DIR_OUTPUT, 66, 1), Some 28),
      (29, Some (2, EC_DIR_OUTPUT, 80, 16), None), (79, Some (3, EC_DIR_INPUT, 49, 1), Some 79),
      (77, Some (3, EC_DIR_INPUT, 50, 1), Some 77), (89, Some (3, EC_DIR_INPUT, 51, 1), Some 89),
      (88, Some (3, EC_DIR_INPUT, 52, 1), Some 88), (80, Some (3, EC_DIR_INPUT, 55, 1), Some 80),
      (81, Some (3, EC_DIR_INPUT, 56, 1), Some 81), (82, Some (3, EC_DIR_INPUT, 57, 1), Some 82),
      (84, Some (3, EC_DIR_INPUT, 60, 1), Some 84), (85, Some (3, EC_DIR_INPUT, 13, 1), Some 85),
      (86, Some (3, EC_DIR_INPUT, 63, 1), Some 86), (87, Some (3, EC_DIR_INPUT, 64, 16), None),
      (66, Some (3, EC_DIR_INPUT, 80, 16), None), (73, Some (2, EC_DIR_OUTPUT, 33, 1), Some 73),
      (75, Some (2, EC_DIR_OUTPUT, 34, 1), Some 75), (74, Some (2, EC_DIR_OUTPUT, 35, 1), Some 74),
      (76, Some (2, EC_DIR_OUTPUT, 48, 16), None), (94, Some (3, EC_DIR_INPUT, 144, 1), Some 94),
      (95, Some (3, EC_DIR_INPUT, 145, 1), Some 95), (96, Some (3, EC_DIR_INPUT, 146, 1), Some 96),
      (97, Some (3, EC_DIR_INPUT, 147, 1), Some 97), (98, Some (3, EC_DIR_INPUT, 148, 1), Some 98),
      (99, Some (3, EC_DIR_INPUT, 149, 1), Some 99), (100, Some (3, EC_DIR_INPUT, 150, 1), Some 100),
      (101, Some (3, EC_DIR_INPUT, 155, 1), Some 101), (102, Some (3, EC_DIR_INPUT, 156, 1), Some 102),
      (103, Some (3, EC_DIR_INPUT, 13, 1), Some 103), (104, Some (3, EC_DIR_INPUT, 159, 1), Some 104),
      (105, Some (3, EC_DIR_INPUT, 160, 16), None), (106, Some (3, EC_DIR_INPUT, 176, 16), None),
      (90, Some (2, EC_DIR_OUTPUT, 96, 1), Some 90), (91, Some (2, EC_DIR_OUTPUT, 97, 1), Some 91),
      (92, Some (2, EC_DIR_OUTPUT, 98, 1), Some 92), (93, Some (2, EC_DIR_OUTPUT, 112, 16), None)]"
  unfolding member_table_def el7342_places el7342_keys by (simp cong: find_key_cong members_at_cong)

lemma el7342_tables: "driver_tables_ok el7342_syncs el7342_rows"
  unfolding driver_tables_ok_def el7342_members by (simp add: member_simps table_simps el7342_table_defs)

lemma el7342_reads_ok:
  "list_all (\<lambda>i. reads_ok el7342_syncs el7342_rows (map ((+) (64 * i)) el7342_read_bits)
     (map (\<lambda>(k, w). (64 * i + k, w)) el7342_read_words)) [0..<LCEC_EL7342_CHANS]"
  unfolding reads_ok_def el7342_members
  by (simp add: member_simps el7342_read_bits_def el7342_read_words_def LCEC_EL7342_CHANS_def upt_rec cong: find_key_cong)

lemma el7342_outs_ok:
  "outs_ok el7342_syncs el7342_rows (el7342_out_shape @ map (\<lambda>(k, l). (64 + k, l)) el7342_out_shape)"
  unfolding outs_ok_def el7342_members by (simp add: member_simps el7342_out_shape_def cong: find_key_cong)

section \<open>Cycles do not fault\<close>

definition el7342_in_pd :: "nat \<Rightarrow> positions \<Rightarrow> bool" where
  "el7342_in_pd n P \<longleftrightarrow> bits_in n P el7342_read_bits \<and> bytes_in n P el7342_read_words"

lemma el7342_placed_in:
  assumes "placed el7342_syncs el7342_rows base P n" and "i < LCEC_EL7342_CHANS"
  shows "el7342_in_pd n (chan_positions i P)"
proof -
  have "reads_ok el7342_syncs el7342_rows (map ((+) (64 * i)) el7342_read_bits) (map (\<lambda>(k, w). (64 * i + k, w)) el7342_read_words)"
    using el7342_reads_ok assms(2) unfolding list_all_iff by (auto simp del: upt_Suc)
  from placed_reads [OF assms(1) this] show ?thesis unfolding el7342_in_pd_def shift_members by blast
qed

text \<open>A pin the selection asks for exists.\<close>

definition el7342_ok :: "el7342_chan \<Rightarrow> bool" where
  "el7342_ok d \<longleftrightarrow>
     (e7_sel_info1 d = INFO_SEL_MOTOR_VELO \<or> e7_sel_info2 d = INFO_SEL_MOTOR_VELO \<longrightarrow> e7_velo_fb d \<noteq> None) \<and>
     (e7_sel_info1 d = INFO_SEL_MOTOR_CURR \<or> e7_sel_info2 d = INFO_SEL_MOTOR_CURR \<longrightarrow> e7_current_fb d \<noteq> None)"

lemma el7342_start_ok: "el7342_ok (el7342_chan_start rnd info1 info2)"
  by (simp add: el7342_ok_def el7342_chan_start_def drive_start_def drive_enc_start_def counter_start_def)

lemma el7342_init_chans_ok:
  assumes "el7342_init_chans env senv junk rnd mname is s objs = Some (0, cs, s', objs')"
  shows "length cs = length is \<and> (\<forall>c\<in>set cs. el7342_ok c \<and> k_do_init c)"
  using assms
proof (induction "is" arbitrary: s objs cs)
  case (Cons i "is")
  obtain info1 info2 s1 objs1 cs1 where r: "cs = el7342_chan_start rnd info1 info2 # cs1"
    "el7342_init_chans env senv junk rnd mname is s1 objs1 = Some (0, cs1, s', objs')"
    using Cons.prems by (auto simp: Let_def EIO_def bind_eq_Some_conv split: if_splits prod.splits)
  have "k_do_init (el7342_chan_start rnd info1 info2)"
    by (simp add: el7342_chan_start_def drive_start_def drive_enc_start_def counter_start_def)
  then show ?case using Cons.IH [OF r(2)] r(1) el7342_start_ok by auto
qed simp

text \<open>What the reads keep on the way to the counter.\<close>

definition el7342_same :: "el7342_chan \<Rightarrow> el7342_chan \<Rightarrow> bool" where
  "el7342_same d d' \<longleftrightarrow>
     k_count d' = k_count d \<and> k_last_count d' = k_last_count d \<and> k_do_init d' = k_do_init d \<and> k_reset d' = k_reset d \<and>
     k_latch_ext_valid d' = k_latch_ext_valid d \<and> e7_sel_info1 d' = e7_sel_info1 d \<and> e7_sel_info2 d' = e7_sel_info2 d"

lemma el7342_set_info_ok:
  assumes "el7342_ok d" and "sel = e7_sel_info1 d \<or> sel = e7_sel_info2 d"
  shows "\<exists>d'. lcec_el7342_set_info rnd raw sel d = Some d' \<and> el7342_ok d' \<and> el7342_same d d'"
proof -
  consider "sel = INFO_SEL_MOTOR_VELO" | "sel = INFO_SEL_MOTOR_CURR" | "sel \<noteq> INFO_SEL_MOTOR_VELO" "sel \<noteq> INFO_SEL_MOTOR_CURR" by blast
  then show ?thesis
  proof cases
    case 1
    then obtain v where "e7_velo_fb d = Some v" using assms by (auto simp: el7342_ok_def)
    then show ?thesis using 1 assms(1) by (simp add: lcec_el7342_set_info_def el7342_ok_def el7342_same_def)
  next
    case 2
    then obtain v where "e7_current_fb d = Some v" using assms by (auto simp: el7342_ok_def)
    then show ?thesis using 2 assms(1)
      by (simp add: lcec_el7342_set_info_def el7342_ok_def el7342_same_def INFO_SEL_MOTOR_CURR_def INFO_SEL_MOTOR_VELO_def)
  next
    case 3
    then show ?thesis using assms(1) by (simp add: lcec_el7342_set_info_def el7342_same_def)
  qed
qed

definition el7342_count :: "ec_macros \<Rightarrow> positions \<Rightarrow> u8 list \<Rightarrow> int" where
  "el7342_count ec P pd = sint (EC_READ_U16 ec (bytes_at pd P count_pdo 2))"

lemma el7342_bits_in:
  fixes d :: el7342_chan
  assumes "el7342_in_pd (length pd) P"
  obtains d1 d2 where "drive_enc_bits ec pd P d = Some d1" and "drive_dcm_bits ec pd P d1 = Some d2"
    and "k_latch_ext_valid d2 = bit_at ec pd P latch_ext_valid_pdo" and "k_count d2 = k_count d" and "k_last_count d2 = k_last_count d"
    and "k_do_init d2 = k_do_init d" and "k_reset d2 = k_reset d" and "drive.more d2 = drive.more d"
  using assms
  by (simp add: el7342_in_pd_def bits_in_def el7342_read_bits_def drive_enc_bits_def drive_dcm_bits_def rd_simps)

lemma el7342_ok_more:
  assumes "drive.more d' = drive.more d"
  shows "el7342_ok d' = el7342_ok d" and "e7_sel_info1 d' = e7_sel_info1 d" and "e7_sel_info2 d' = e7_sel_info2 d"
  using assms by (cases d; cases d'; simp add: el7342_ok_def)+

lemma drive_final_more:
  fixes d :: el7342_chan
  shows "drive.more (drive_after_latch rnd raw latch (drive_before_latch last_op raw ack d)) = drive.more d"
  by (simp add: drive_after_latch_def counter_net_def Let_def drive_latch_def drive_before_latch_def counter_operational_def
      counter_set_done_def counter_raw_def counter_init_def)

lemma el7342_scale_more:
  fixes d :: el7342_chan
  shows "drive.more (counter_scale rnd d) = drive.more d"
  by (simp add: counter_scale_def Let_def)

lemma el7342_chan_read_ok:
  assumes "el7342_in_pd (length pd) P" and "el7342_ok d"
  shows "\<exists>d' latch. el7342_chan_read ec rnd P last_op pd d = Some d' \<and> el7342_ok d' \<and>
    counts_from s16 (bit_at ec pd P latch_ext_valid_pdo) latch (\<not> last_op \<or> bit_at ec pd P set_count_done_pdo) (el7342_count ec P pd) d d'"
proof -
  obtain d1 d2 where d2: "drive_enc_bits ec pd P (counter_scale rnd d) = Some d1" "drive_dcm_bits ec pd P d1 = Some d2"
    "k_latch_ext_valid d2 = bit_at ec pd P latch_ext_valid_pdo" "k_count d2 = k_count d" "k_last_count d2 = k_last_count d"
    "k_do_init d2 = k_do_init d" "k_reset d2 = k_reset d" "drive.more d2 = drive.more d"
    using el7342_bits_in [OF assms(1), of ec "counter_scale rnd d"] by (metis counter_scale_keeps(1-4) el7342_scale_more)
  define d3 where "d3 = d2\<lparr>e7_raw_info1 := sint (EC_READ_U16 ec (bytes_at pd P dcm_info1_pdo 2)),
    e7_raw_info2 := sint (EC_READ_U16 ec (bytes_at pd P dcm_info2_pdo 2))\<rparr>"
  have d3: "el7342_ok d3" using el7342_ok_more(1) [OF d2(8)] assms(2) by (simp add: d3_def el7342_ok_def)
  obtain d4 where d4: "lcec_el7342_set_info rnd (e7_raw_info1 d3) (e7_sel_info1 d3) d3 = Some d4" "el7342_ok d4" "el7342_same d3 d4"
    using el7342_set_info_ok [OF d3] by blast
  obtain d5 where d5: "lcec_el7342_set_info rnd (e7_raw_info2 d4) (e7_sel_info2 d4) d4 = Some d5" "el7342_ok d5" "el7342_same d4 d5"
    using el7342_set_info_ok [OF d4(2)] by blast
  define latch where "latch = sint (EC_READ_U16 ec (bytes_at pd P latch_pdo 2))"
  let ?raw = "el7342_count ec P pd" and ?ack = "bit_at ec pd P set_count_done_pdo"
  let ?e = "drive_after_latch rnd ?raw latch (drive_before_latch last_op ?raw ?ack d5)"
  have run: "el7342_chan_read ec rnd P last_op pd d = Some ?e"
    using assms(1) d2(1,2) d4(1) d5(1)
    by (simp add: el7342_chan_read_def el7342_in_pd_def bits_in_def bytes_in_def el7342_read_bits_def el7342_read_words_def rd_simps
        latch_def el7342_count_def d3_def)
  have ok: "el7342_ok ?e" using el7342_ok_more(1) [OF drive_final_more] d5(2) by blast
  have same: "k_count d5 = k_count d" "k_last_count d5 = k_last_count d" "k_do_init d5 = k_do_init d" "k_reset d5 = k_reset d"
    "k_latch_ext_valid d5 = bit_at ec pd P latch_ext_valid_pdo"
    using d2(3-7) d4(3) d5(3) by (simp_all add: el7342_same_def d3_def)
  have "counts_from s16 (k_latch_ext_valid d5) latch (\<not> last_op \<or> ?ack) ?raw d5 ?e" by (rule drive_counts_from)
  then have "counts_from s16 (bit_at ec pd P latch_ext_valid_pdo) latch (\<not> last_op \<or> ?ack) ?raw d ?e"
    by (simp add: counts_from_def counter_base_def same)
  then show ?thesis using run ok by blast
qed

definition el7342_all_ok :: "el7342 \<Rightarrow> bool" where
  "el7342_all_ok d \<longleftrightarrow> length (e7_chans d) = LCEC_EL7342_CHANS \<and> (\<forall>c\<in>set (e7_chans d). el7342_ok c)"

lemma el7342_read_ok:
  assumes "placed el7342_syncs el7342_rows base P (length pd)" and "el7342_all_ok d"
  shows "\<exists>d'. lcec_el7342_read ec rnd P operational pd d = Some d' \<and> el7342_all_ok d' \<and> e7_last_operational d' = operational"
proof (cases operational)
  case True
  let ?f = "\<lambda>i. el7342_chan_read ec rnd (chan_positions i P) (e7_last_operational d) pd"
  have f: "\<exists>c'. ?f j (e7_chans d ! j) = Some c' \<and> el7342_ok c'" if "j < length (e7_chans d)" for j
  proof -
    have "el7342_in_pd (length pd) (chan_positions j P)" using el7342_placed_in [OF assms(1)] that assms(2) by (simp add: el7342_all_ok_def)
    moreover have "el7342_ok (e7_chans d ! j)" using that assms(2) by (simp add: el7342_all_ok_def)
    ultimately show ?thesis using el7342_chan_read_ok by blast
  qed
  then obtain cs where cs: "read_chans ?f 0 (e7_chans d) = Some cs" "length cs = length (e7_chans d)"
    "\<forall>j < length (e7_chans d). ?f j (e7_chans d ! j) = Some (cs ! j)"
    using read_chans_nth [of "e7_chans d" ?f 0] by fastforce
  have "el7342_ok (cs ! j)" if "j < length cs" for j using f [of j] cs(2,3) that by auto
  then have "\<forall>c\<in>set cs. el7342_ok c" by (metis in_set_conv_nth)
  then show ?thesis using cs(1,2) True assms(2) by (simp add: lcec_el7342_read_def el7342_all_ok_def)
qed (use assms(2) in \<open>simp add: lcec_el7342_read_def el7342_all_ok_def\<close>)

section \<open>Writing\<close>

text \<open>The channel after its command has been computed.\<close>

definition el7342_commanded :: "(real \<Rightarrow> real) \<Rightarrow> el7342_chan \<Rightarrow> el7342_chan" where
  "el7342_commanded rnd d = snd (the (drive_command rnd d))"

lemma el7342_commanded_ok:
  "drive_command rnd d = Some (dc_raw_val (el7342_commanded rnd d), el7342_commanded rnd d)"
  "drive_commanded rnd d (el7342_commanded rnd d) (dc_raw_val (el7342_commanded rnd d))"
proof -
  obtain v d' where d': "drive_command rnd d = Some (v, d')" "drive_commanded rnd d d' v" by (rule drive_command_ok)
  then have "el7342_commanded rnd d = d'" "v = dc_raw_val d'" by (simp_all add: el7342_commanded_def drive_commanded_def)
  then show "drive_command rnd d = Some (dc_raw_val (el7342_commanded rnd d), el7342_commanded rnd d)"
    and "drive_commanded rnd d (el7342_commanded rnd d) (dc_raw_val (el7342_commanded rnd d))" using d' by simp_all
qed

lemma el7342_write_chans:
  assumes "ec_le ec" and "placed el7342_syncs el7342_rows base P (length pd)" and "e7_chans d = [c0, c1]"
  shows "\<exists>pd'. lcec_el7342_write ec rnd P d pd = Some (d\<lparr>e7_chans := [el7342_commanded rnd c0, el7342_commanded rnd c1]\<rparr>, pd') \<and>
    on_bus P (el7342_outs (dc_raw_val (el7342_commanded rnd c0)) (el7342_commanded rnd c0) @
      shift_outs 1 (el7342_outs (dc_raw_val (el7342_commanded rnd c1)) (el7342_commanded rnd c1))) pd pd'"
proof -
  let ?g = "el7342_commanded rnd"
  let ?o = "\<lambda>c. el7342_outs (dc_raw_val c) c"
  let ?ws = "?o (?g c0) @ shift_outs 1 (?o (?g c1))"
  have w: "el7342_chan_write ec rnd (chan_positions j P) c p = map_option (Pair (?g c)) (wr_all ec (chan_positions j P) (?o (?g c)) p)" for j c p
    by (cases "wr_all ec (chan_positions j P) (?o (?g c)) p") (simp_all add: el7342_chan_write_def el7342_commanded_ok(1))
  have "write_chans (\<lambda>i. el7342_chan_write ec rnd (chan_positions i P)) 0 [c0, c1] pd =
      map_option (Pair (map ?g [c0, c1]))
        (wr_all ec P (concat (map (\<lambda>(j, c). shift_outs j (?o (?g c))) (zip [0..<0 + length [c0, c1]] [c0, c1]))) pd)"
    by (rule write_chans_all) (rule w)
  moreover have "concat (map (\<lambda>(j, c). shift_outs j (?o (?g c))) (zip [0..<0 + length [c0, c1]] [c0, c1])) = ?ws"
    by (simp add: upt_rec [of 0] upt_rec [of 1] shift_outs_def case_prod_beta)
  moreover obtain pd' where "wr_all ec P ?ws pd = Some pd'" "on_bus P ?ws pd pd'"
    using wr_all_placed [OF assms(1,2), of ?ws] el7342_outs_ok
    by (auto simp: el7342_outs_def shift_outs_def out_shape_def el7342_out_shape_def)
  ultimately show ?thesis by (auto simp: lcec_el7342_write_def assms(3))
qed

lemma el7342_commanded_outs: "el7342_outs v (el7342_commanded rnd d) = el7342_outs v d"
proof -
  obtain w d' where d': "drive_command rnd d = Some (w, d')"
    "d' = drive_rescale rnd (drive_limits d)\<lparr>dc_curr_dc := dc_curr_dc d', dc_raw_val := w\<rparr>"
    by (rule drive_command_ok [of rnd d])
  have "el7342_outs v (e\<lparr>dc_curr_dc := x, dc_raw_val := w\<rparr>) = el7342_outs v e" for e :: el7342_chan and x by (simp add: el7342_outs_def)
  moreover have "el7342_outs v (drive_rescale rnd (drive_limits d)) = el7342_outs v d"
    by (simp add: el7342_outs_def drive_rescale_def drive_limits_def Let_def)
  ultimately show ?thesis using d' by (metis el7342_commanded_def option.sel snd_conv)
qed

lemma el7342_write_ok:
  assumes "ec_le ec" and "placed el7342_syncs el7342_rows base P (length pd)" and "e7_chans d = [c0, c1]"
  shows "\<exists>pd' d0 d1. lcec_el7342_write ec rnd P d pd = Some (d\<lparr>e7_chans := [d0, d1]\<rparr>, pd') \<and>
    drive_commanded rnd c0 d0 (dc_raw_val d0) \<and> drive_commanded rnd c1 d1 (dc_raw_val d1) \<and>
    on_bus P (el7342_outs (dc_raw_val d0) c0 @ shift_outs 1 (el7342_outs (dc_raw_val d1) c1)) pd pd'"
  using el7342_write_chans [OF assms, of rnd] el7342_commanded_ok(2) unfolding el7342_commanded_outs by blast

section \<open>The counter of a channel\<close>

type_synonym el7342_cycle = "(el7342_chan \<Rightarrow> el7342_chan) \<times> u8 list"

definition el7342_step :: "ec_macros \<Rightarrow> (real \<Rightarrow> real) \<Rightarrow> positions \<Rightarrow> el7342_cycle \<Rightarrow> el7342_chan \<Rightarrow> el7342_chan option" where
  "el7342_step ec rnd P c d = (case c of (user, pd) \<Rightarrow> el7342_chan_read ec rnd P True pd (user d))"

definition el7342_quiet :: "ec_macros \<Rightarrow> positions \<Rightarrow> el7342_cycle \<Rightarrow> bool" where
  "el7342_quiet ec P c \<longleftrightarrow>
     (case c of (user, pd) \<Rightarrow>
        counter_user user \<and> (\<forall>d. el7342_ok (user d) = el7342_ok d) \<and> el7342_in_pd (length pd) P \<and>
        \<not> bit_at ec pd P set_count_done_pdo \<and> \<not> bit_at ec pd P latch_ext_valid_pdo)"

definition el7342_live :: "el7342_chan \<Rightarrow> bool" where
  "el7342_live d \<longleftrightarrow> el7342_ok d \<and> \<not> k_do_init d"

interpretation el7342: hw_counter "el7342_step ec rnd P" el7342_live "el7342_quiet ec P"
  "\<lambda>c. el7342_count ec P (snd c)" k_count k_last_count s16 16
proof (unfold_locales)
  fix d c assume l: "el7342_live d" and q: "el7342_quiet ec P c"
  obtain user pd where c: "c = (user, pd)" by fastforce
  have u: "counter_user user" "el7342_ok (user d)" "el7342_in_pd (length pd) P" "\<not> bit_at ec pd P set_count_done_pdo"
    "\<not> bit_at ec pd P latch_ext_valid_pdo" using q l by (simp_all add: c el7342_quiet_def el7342_live_def)
  have k: "k_count (user d) = k_count d" "k_last_count (user d) = k_last_count d" "\<not> k_do_init (user d)" "\<not> k_reset (user d)"
    using u(1) l by (simp_all add: counter_user_def el7342_live_def)
  obtain d' latch where d': "el7342_chan_read ec rnd P True pd (user d) = Some d'" "el7342_ok d'"
    "counts_from s16 False latch False (el7342_count ec P pd) (user d) d'"
    using el7342_chan_read_ok [OF u(3,2), of ec rnd True] u(4,5) by auto
  show "\<exists>s'. el7342_step ec rnd P c d = Some s' \<and> el7342_live s' \<and> k_last_count s' = el7342_count ec P (snd c) \<and>
      k_count s' = s32 (k_count d + s16 (el7342_count ec P (snd c) - k_last_count d))"
    using counts_from_quiet [OF d'(3) k(3,4)] d'(1,2) k(1,2) by (simp add: el7342_step_def c el7342_live_def)
qed (simp, rule s16_wraps, rule s16_wraps)

section \<open>Runs\<close>

text \<open>
  A cycle as the component drives it: the driver reads, other components change pins, the driver
  writes. They may do what they like, but not take away a pin of the driver.
\<close>

type_synonym el7342_visit = "(el7342 \<Rightarrow> el7342) \<times> bool \<times> u8 list"

definition el7342_turn :: "ec_macros \<Rightarrow> (real \<Rightarrow> real) \<Rightarrow> positions \<Rightarrow> el7342_visit \<Rightarrow> el7342 \<Rightarrow> (el7342 \<times> u8 list) option" where
  "el7342_turn ec rnd P c d =
     (case c of (user, operational, pd) \<Rightarrow>
        do {
          d \<leftarrow> lcec_el7342_read ec rnd P operational pd d;
          lcec_el7342_write ec rnd P (user d) pd
        })"

definition el7342_user :: "(el7342 \<Rightarrow> el7342) \<Rightarrow> bool" where
  "el7342_user f \<longleftrightarrow> (\<forall>d. el7342_all_ok d \<longrightarrow> el7342_all_ok (f d))"

lemma el7342_init_ok:
  assumes "lcec_el7342_init env senv junk rnd mname s objs = Some (0, Some d, s', objs')"
  shows "el7342_all_ok d" and "\<not> e7_last_operational d"
proof -
  obtain cs s1 where c: "el7342_init_chans env senv junk rnd mname [0..<LCEC_EL7342_CHANS] s1 objs = Some (0, cs, s', objs')"
    "d = \<lparr>e7_chans = cs, e7_last_operational = False\<rparr>"
    using assms by (auto simp: lcec_el7342_init_def bind_eq_Some_conv Let_def split: prod.splits if_splits)
  show "el7342_all_ok d" using el7342_init_chans_ok [OF c(1)] by (simp add: el7342_all_ok_def c(2))
  show "\<not> e7_last_operational d" by (simp add: c(2))
qed

lemma el7342_commanded_more: "el7342_ok (el7342_commanded rnd d) = el7342_ok d"
proof -
  obtain v d' where "drive_command rnd d = Some (v, d')"
    "d' = drive_rescale rnd (drive_limits d)\<lparr>dc_curr_dc := dc_curr_dc d', dc_raw_val := v\<rparr>"
    by (rule drive_command_ok [of rnd d])
  moreover have "drive.more (drive_rescale rnd (drive_limits d)) = drive.more d"
    by (simp add: drive_rescale_def drive_limits_def Let_def)
  ultimately show ?thesis
    by (intro el7342_ok_more(1)) (simp add: el7342_commanded_def, metis drive.select_convs drive.surjective drive.update_convs(10,11))
qed

lemma el7342_two_channels:
  assumes "el7342_all_ok d"
  obtains c0 c1 where "e7_chans d = [c0, c1]" and "el7342_ok c0" and "el7342_ok c1"
proof -
  obtain c0 c1 where "e7_chans d = [c0, c1]"
    using assms by (auto simp: el7342_all_ok_def LCEC_EL7342_CHANS_def numeral_2_eq_2 length_Suc_conv)
  then show thesis using that assms by (simp add: el7342_all_ok_def)
qed

lemma el7342_turn_ok:
  assumes "ec_le ec" and "placed el7342_syncs el7342_rows base P (length pd)" and "el7342_all_ok d" and "el7342_user user"
  shows "\<exists>d' pd'. el7342_turn ec rnd P (user, operational, pd) d = Some (d', pd') \<and> el7342_all_ok d' \<and> length pd' = length pd"
proof -
  obtain d1 where d1: "lcec_el7342_read ec rnd P operational pd d = Some d1" "el7342_all_ok d1"
    using el7342_read_ok [OF assms(2,3)] by blast
  have "el7342_all_ok (user d1)" using assms(4) d1(2) by (simp add: el7342_user_def)
  then obtain c0 c1 where c: "e7_chans (user d1) = [c0, c1]" "el7342_ok c0" "el7342_ok c1" by (rule el7342_two_channels)
  obtain pd' where pd': "lcec_el7342_write ec rnd P (user d1) pd =
      Some (user d1\<lparr>e7_chans := [el7342_commanded rnd c0, el7342_commanded rnd c1]\<rparr>, pd')" "length pd' = length pd"
    using el7342_write_chans [OF assms(1,2) c(1), of rnd] by (auto simp: on_bus_def)
  then show ?thesis
    using d1(1) c(2,3) by (simp add: el7342_turn_def el7342_all_ok_def LCEC_EL7342_CHANS_def el7342_commanded_more)
qed

lemma el7342_turns_ok:
  assumes "ec_le ec" and "placed el7342_syncs el7342_rows base P n" and "el7342_all_ok d"
    and "\<forall>(user, operational, pd)\<in>set cs. el7342_user user \<and> length pd = n"
  shows "\<exists>d'. run_cycles (\<lambda>c d. map_option fst (el7342_turn ec rnd P c d)) cs d = Some d' \<and> el7342_all_ok d'"
  using assms(3,4)
proof (induction cs arbitrary: d)
  case (Cons c cs)
  obtain user operational pd where c: "c = (user, operational, pd)" by (metis prod_cases3)
  have u: "el7342_user user" "length pd = n" using Cons.prems(2) by (simp_all add: c)
  have "placed el7342_syncs el7342_rows base P (length pd)" using assms(2) u(2) by simp
  from el7342_turn_ok [OF assms(1) this Cons.prems(1) u(1), of rnd operational]
  obtain d1 pd1 where "el7342_turn ec rnd P c d = Some (d1, pd1)" "el7342_all_ok d1" by (auto simp: c)
  then show ?case using Cons.IH [of d1] Cons.prems(2) by simp
qed simp

end
