(* ===== verification/SamplesDrivers.thy ===== *)
theory SamplesDrivers
  imports SamplesDev DevEl5101 DevEl5151 DevEl5152 DevEl7342
begin

text \<open>
  Positions for the members of a driver that follow from its tables and the first byte of each
  sync manager, and process data for the drivers of the samples.
\<close>

section \<open>Positions\<close>

definition sample_pos :: "member_table \<Rightarrow> (u8 \<Rightarrow> nat) \<Rightarrow> positions" where
  "sample_pos mt base =
     \<lparr>ps_os = (\<lambda>k. case find_key mt k of Some (Some (sm, dir, off, bits), bp) \<Rightarrow> of_nat (base sm + off div 8) | _ \<Rightarrow> 0),
      ps_bp = (\<lambda>k. case find_key mt k of Some (Some (sm, dir, off, bits), bp) \<Rightarrow> of_nat (off mod 8) | _ \<Rightarrow> 0)\<rparr>"

definition sample_fits :: "member_table \<Rightarrow> (u8 \<Rightarrow> nat) \<Rightarrow> nat \<Rightarrow> bool" where
  "sample_fits mt base n \<longleftrightarrow> n < 2 ^ 16 \<and> distinct (map fst mt) \<and>
     list_all (\<lambda>(k, pl, bp). case pl of None \<Rightarrow> False
                 | Some (sm, dir, off, bits) \<Rightarrow> 8 * base sm + off + bits \<le> 8 * n \<and> (bp = None \<or> bp = Some k)) mt"

lemma find_key_distinct: "distinct (map fst xs) \<Longrightarrow> (k, v) \<in> set xs \<Longrightarrow> find_key xs k = Some v"
  by (induction xs k rule: find_key.induct) (force split: if_splits)+

lemma sample_placed:
  assumes "sample_fits (member_table ss rs) base n"
  shows "placed ss rs base (sample_pos (member_table ss rs) base) n"
proof -
  have "case find_key (table_places ss) (entry_key idx sidx) of None \<Rightarrow> False
      | Some (sm, dir, off, bits) \<Rightarrow> unat (ps_os (sample_pos (member_table ss rs) base) k) = base sm + off div 8 \<and>
          8 * base sm + off + bits \<le> 8 * n \<and>
          (case bp of None \<Rightarrow> True | Some b \<Rightarrow> unat (ps_bp (sample_pos (member_table ss rs) base) b) = off mod 8)"
    if r: "((idx, sidx), k, bp) \<in> set rs" for idx sidx k bp
  proof -
    let ?pl = "find_key (table_places ss) (entry_key idx sidx)"
    have m: "(k, ?pl, bp) \<in> set (member_table ss rs)" using r by (force simp: set_member_table row_key_def)
    then obtain sm dir off bits where p: "?pl = Some (sm, dir, off, bits)" "8 * base sm + off + bits \<le> 8 * n" "bp = None \<or> bp = Some k"
      using assms unfolding sample_fits_def list_all_iff by (fastforce split: option.splits)
    have f: "find_key (member_table ss rs) k = Some (?pl, bp)"
      using m assms by (intro find_key_distinct) (simp_all add: sample_fits_def)
    have "base sm + off div 8 \<le> n" using p(2) by linarith
    then have "base sm + off div 8 < 2 ^ 32" using assms by (simp add: sample_fits_def)
    then have "unat (of_nat (base sm + off div 8) :: u32) = base sm + off div 8" by (simp add: unat_of_nat del: of_nat_add)
    moreover have "unat (of_nat (off mod 8) :: u32) = off mod 8" by (simp add: unat_of_nat)
    ultimately show ?thesis using p f by (auto simp: sample_pos_def)
  qed
  then show ?thesis unfolding placed_def by fast
qed

text \<open>The outputs come first, then the inputs.\<close>

definition sample_base :: "nat \<Rightarrow> u8 \<Rightarrow> nat" where "sample_base n sm = (if sm = 3 then n else 0)"

section \<open>EL5101\<close>

abbreviation el5101_pos :: positions where
  "el5101_pos \<equiv> sample_pos (member_table el5101_syncs el5101_rows) (sample_base 3)"

lemma el5101_sample: "placed el5101_syncs el5101_rows (sample_base 3) el5101_pos 16"
  by (rule sample_placed) (simp add: sample_fits_def el5101_members sample_base_def)

definition el5101_data :: "u8 \<Rightarrow> u8 \<Rightarrow> el5101_cycle" where
  "el5101_data hi lo = (\<lambda>d. d\<lparr>k_reset := False\<rparr>, True, [0, 0, 0, 0, lo, hi] @ replicate 10 0)"

lemma el5101_data_status: "unat (ps_os el5101_pos status_pdo) = 3"
  by (simp add: sample_pos_def el5101_members sample_base_def)

lemma el5101_data_value: "unat (ps_os el5101_pos value_pdo) = 4"
  by (simp add: sample_pos_def el5101_members sample_base_def)

lemma el5101_data_running: "el5101_running el5101_pos 16 (el5101_data hi lo)"
  unfolding el5101_running_def el5101_data_def by (simp add: el5101_data_status counter_user_def)

lemma el5101_data_count: "el5101_count le_macros el5101_pos (snd (snd (el5101_data hi lo))) = sint (le_word [lo, hi] :: u16)"
  unfolding el5101_count_def el5101_data_def bytes_at_def el5101_data_value by (simp add: le_macros_def)

section \<open>EL5151\<close>

abbreviation el5151_pos :: positions where
  "el5151_pos \<equiv> sample_pos (member_table el5151_syncs el5151_rows) (sample_base 6)"

lemma el5151_sample: "placed el5151_syncs el5151_rows (sample_base 6) el5151_pos 20"
  by (rule sample_placed) (simp add: sample_fits_def el5151_members sample_base_def)

text \<open>The C input has latched 0x1000, and the count is 0x1010.\<close>

definition el5151_latch_data :: "u8 list" where
  "el5151_latch_data = [0, 0, 0, 0, 0, 0, 1, 0, 0x10, 0x10, 0, 0, 0x00, 0x10, 0, 0, 0, 0, 0, 0]"

lemma el5151_data_length: "length el5151_latch_data = 20"
  by (simp add: el5151_latch_data_def)

lemma el5151_latch_sample:
  "bit_at le_macros el5151_latch_data el5151_pos latch_c_valid_pdo"
  "\<not> bit_at le_macros el5151_latch_data el5151_pos latch_ext_valid_pdo"
  "el5151_count le_macros el5151_pos el5151_latch_data = 4112" "el5151_latched le_macros el5151_pos el5151_latch_data = 4096"
proof -
  have p: "unat (ps_os el5151_pos latch_c_valid_pdo) = 6" "unat (ps_os el5151_pos latch_ext_valid_pdo) = 6"
    "unat (ps_bp el5151_pos latch_c_valid_pdo) = 0" "unat (ps_bp el5151_pos latch_ext_valid_pdo) = 1"
    "unat (ps_os el5151_pos count_pdo) = 8" "unat (ps_os el5151_pos latch_pdo) = 12"
    by (simp_all add: sample_pos_def el5151_members sample_base_def)
  show "bit_at le_macros el5151_latch_data el5151_pos latch_c_valid_pdo"
    "\<not> bit_at le_macros el5151_latch_data el5151_pos latch_ext_valid_pdo"
    unfolding bit_at_def p by (simp_all add: le_macros_def el5151_latch_data_def)
  show "el5151_count le_macros el5151_pos el5151_latch_data = 4112" "el5151_latched le_macros el5151_pos el5151_latch_data = 4096"
    unfolding el5151_count_def el5151_latched_def bytes_at_def p by (simp_all add: le_macros_def el5151_latch_data_def)
qed

section \<open>EL7342\<close>

abbreviation el7342_pos :: positions where
  "el7342_pos \<equiv> sample_pos (member_table el7342_syncs el7342_rows) (sample_base 16)"

lemma el7342_sample: "placed el7342_syncs el7342_rows (sample_base 16) el7342_pos 64"
  by (rule sample_placed) (simp add: sample_fits_def el7342_members sample_base_def)

text \<open>A channel that is enabled with a command of 3, and one that is not enabled.\<close>

definition el7342_idle :: el7342_chan where
  "el7342_idle = el7342_chan_start (\<lambda>x. x) INFO_SEL_MOTOR_VELO INFO_SEL_MOTOR_CURR"

definition el7342_fast :: el7342_chan where
  "el7342_fast = el7342_idle\<lparr>dc_enable := True, dc_value := 3\<rparr>"

lemma el7342_idle_off: "\<not> dc_enable el7342_idle"
  by (simp add: el7342_idle_def el7342_chan_start_def drive_start_def drive_enc_start_def counter_start_def)

lemma el7342_enable_places:
  "out_start el7342_pos (dcm_ena_pdo, OutBit b) = 64" "out_start el7342_pos (64 + dcm_ena_pdo, OutBit b) = 96"
  by (simp_all add: sample_pos_def el7342_members sample_base_def)

lemma on_bus_bit:
  assumes "on_bus P ws pd pd'" and "(k, OutBit b) \<in> set ws"
  shows "pd_bit pd' (out_start P (k, OutBit b)) = b"
  using assms by (force simp: on_bus_def)

lemma el7342_init_sample:
  "case lcec_el7342_init sample_hal sample_sdo_env 0 (\<lambda>x. x) ''0'' sample_drive [] of None \<Rightarrow> False
   | Some (e, d, s, objs) \<Rightarrow> e = 0 \<and> (case d of None \<Rightarrow> False | Some d \<Rightarrow> True)"
  by code_simp

end
