(* ===== verification/ConfGen.thy ===== *)
theory ConfGen
  imports ConfParse "HOL-Library.Monad_Syntax"
begin

text \<open>
  The configuration generator \<open>lcec_configgen.c\<close>: it calls the command line tool of the EtherCAT
  master, takes its output apart with regular expressions, and prints an XML configuration for the
  slaves it found. The tool is an argument: for a command line, the lines it prints, or \<open>None\<close> when
  it cannot be started. \<open>GenNull\<close> is a null pointer given to a C library function or followed, and
  \<open>GenExit\<close> the end of the program with an exit code. A string pointer that may be \<open>NULL\<close> is an
  option.
\<close>

unbundle bit_operations_syntax

section \<open>Data model\<close>

datatype gen_fail = GenNull | GenExit int

record gen_env =
  ge_run :: "string \<Rightarrow> string list option"
  ge_types :: registry

record cli_modparam =
  cmp_name :: string
  cmp_value :: string
  cmp_applied :: nat

record gen_flags =
  flag_typedb :: bool
  flag_extra_cia_modparams :: bool
  flag_generic_pdos :: bool
  cli_modparams :: "cli_modparam list"

record ec_slave =
  es_master :: "string option"
  es_slave :: "string option"
  es_vendor_id :: "string option"
  es_product_id :: "string option"
  es_revision_no :: "string option"
  es_device_name :: "string option"
  es_sdos :: "(string \<times> string) list"

definition no_slave :: ec_slave where
  "no_slave = \<lparr>es_master = None, es_slave = None, es_vendor_id = None, es_product_id = None, es_revision_no = None,
     es_device_name = None, es_sdos = []\<rparr>"

text \<open>The type an index has in the list of objects of the slave, or the empty string.\<close>

fun sdo_lookup :: "(string \<times> string) list \<Rightarrow> string \<Rightarrow> string" where
  "sdo_lookup [] idx = []"
| "sdo_lookup ((i, t) # ss) idx = (if strcmp_eq i idx then t else sdo_lookup ss idx)"

definition sdo_get :: "ec_slave \<Rightarrow> string \<Rightarrow> string" where
  "sdo_get s idx = sdo_lookup (es_sdos s) idx"

definition sdo_put :: "ec_slave \<Rightarrow> string \<Rightarrow> string \<Rightarrow> ec_slave" where
  "sdo_put s idx ty = s\<lparr>es_sdos := es_sdos s @ [(idx, ty)]\<rparr>"

datatype gen_modparam = MpParam string string | MpComment string | MpBlank

record gen_entry =
  ge_idx :: string
  ge_subidx :: string
  ge_bitlen :: string
  ge_halpin :: string
  ge_haltype :: string

record gen_pdo =
  gd_idx :: string
  gd_comment :: string
  gd_entries :: "gen_entry list"

record gen_sm =
  gs_idx :: string
  gs_dir :: string
  gs_pdos :: "gen_pdo list"

record gen_slave =
  gl_idx :: string
  gl_type :: string
  gl_vid :: string
  gl_pid :: string
  gl_name :: string
  gl_comment :: "string option"
  gl_modparams :: "gen_modparam list"
  gl_sms :: "gen_sm list"

record gen_master =
  gm_idx :: string
  gm_slaves :: "gen_slave list"

section \<open>Strings and regular expressions\<close>

definition rtrim :: "string \<Rightarrow> string" where
  "rtrim s = rev (dropWhile (\<lambda>c. c = CHR 0x0A \<or> c = CHR 0x0D \<or> c = CHR '' '' \<or> c = CHR 0x09) (rev s))"

definition in_class :: "int \<Rightarrow> int \<Rightarrow> char \<Rightarrow> bool" where
  "in_class a b c \<longleftrightarrow> a \<le> char_code c \<and> char_code c \<le> b"

definition re_digit :: "char \<Rightarrow> bool" where "re_digit c \<longleftrightarrow> in_class 48 57 c"
definition re_lower_hex :: "char \<Rightarrow> bool" where "re_lower_hex c \<longleftrightarrow> re_digit c \<or> in_class 97 102 c"
definition re_hex :: "char \<Rightarrow> bool" where "re_hex c \<longleftrightarrow> re_lower_hex c \<or> in_class 65 70 c"

text \<open>
  The parts the patterns are made of: a literal, one or more of a class, a number of characters of a
  class, and anything up to the last occurrence of a character. In none of the patterns can a
  repetition give back a character that the part behind it needs.
\<close>

definition re_lit :: "string \<Rightarrow> string \<Rightarrow> string option" where
  "re_lit p s = (if take (length p) s = p then Some (drop (length p) s) else None)"

definition re_plus :: "(char \<Rightarrow> bool) \<Rightarrow> string \<Rightarrow> (string \<times> string) option" where
  "re_plus cl s = (if takeWhile cl s = [] then None else Some (takeWhile cl s, dropWhile cl s))"

definition re_times :: "nat \<Rightarrow> (char \<Rightarrow> bool) \<Rightarrow> string \<Rightarrow> (string \<times> string) option" where
  "re_times n cl s = (if length (take n s) = n \<and> list_all cl (take n s) then Some (take n s, drop n s) else None)"

definition re_upto_last :: "char \<Rightarrow> string \<Rightarrow> string option" where
  "re_upto_last c s = (if c \<in> set s then Some (rev (tl (dropWhile (\<lambda>d. d \<noteq> c) (rev s)))) else None)"

definition re_slave_master :: "string \<Rightarrow> (string \<times> string) option" where
  "re_slave_master line =
     do {
       s \<leftarrow> re_lit ''=== Master '' line;
       (m, s) \<leftarrow> re_plus re_digit s;
       s \<leftarrow> re_lit '', Slave '' s;
       (k, s) \<leftarrow> re_plus re_digit s;
       if s = '' ==='' then Some (m, k) else None
     }"

definition re_hex_field :: "string \<Rightarrow> string \<Rightarrow> string option" where
  "re_hex_field label line =
     do {
       s \<leftarrow> re_lit label line;
       (_, s) \<leftarrow> re_plus (\<lambda>c. c = CHR '' '') s;
       s \<leftarrow> re_lit ''0x'' s;
       (h, s) \<leftarrow> re_plus re_hex s;
       Some (''0x'' @ h)
     }"

definition re_slave_vendor :: "string \<Rightarrow> string option" where
  "re_slave_vendor = re_hex_field ''  Vendor Id:''"

definition re_slave_product :: "string \<Rightarrow> string option" where
  "re_slave_product = re_hex_field ''  Product code:''"

definition re_slave_revision :: "string \<Rightarrow> string option" where
  "re_slave_revision = re_hex_field ''  Revision number:''"

definition re_slave_devname :: "string \<Rightarrow> string option" where
  "re_slave_devname = re_lit ''  Device name: ''"

definition re_sdo :: "string \<Rightarrow> (string \<times> string) option" where
  "re_sdo line =
     do {
       s \<leftarrow> re_lit ''  0x'' line;
       (a, s) \<leftarrow> re_times 4 re_hex s;
       s \<leftarrow> re_lit '':'' s;
       (b, s) \<leftarrow> re_times 2 re_hex s;
       s \<leftarrow> re_lit '', '' s;
       (_, s) \<leftarrow> re_plus (\<lambda>c. c = CHR ''r'' \<or> c = CHR ''w'' \<or> c = CHR ''-'') s;
       s \<leftarrow> re_lit '', '' s;
       (ty, s) \<leftarrow> re_plus (\<lambda>c. c \<noteq> CHR '','') s;
       s \<leftarrow> re_lit '','' s;
       Some (''0x'' @ a @ '':'' @ b, ty)
     }"

definition re_pdo_sm :: "string \<Rightarrow> string option" where
  "re_pdo_sm line =
     do {
       s \<leftarrow> re_lit ''SM'' line;
       (n, s) \<leftarrow> re_plus re_digit s;
       s \<leftarrow> re_lit '': PhysAddr 0x'' s;
       (_, s) \<leftarrow> re_plus re_lower_hex s;
       Some n
     }"

definition re_pdo_pdo :: "string \<Rightarrow> (string \<times> string \<times> string) option" where
  "re_pdo_pdo line =
     do {
       s \<leftarrow> re_lit ''  '' line;
       (k, s) \<leftarrow> re_times 1 (\<lambda>c. c = CHR ''R'' \<or> c = CHR ''T'') s;
       s \<leftarrow> re_lit ''xPDO 0x'' s;
       (h, s) \<leftarrow> re_plus re_lower_hex s;
       s \<leftarrow> re_lit [CHR '' '', CHR 0x22] s;
       c \<leftarrow> re_upto_last (CHR 0x22) s;
       Some (k @ ''xPDO'', ''0x'' @ h, c)
     }"

definition re_pdo_entry :: "string \<Rightarrow> (string \<times> string \<times> string \<times> string) option" where
  "re_pdo_entry line =
     do {
       s \<leftarrow> re_lit ''    PDO entry 0x'' line;
       (h, s) \<leftarrow> re_plus re_lower_hex s;
       s \<leftarrow> re_lit '':'' s;
       (b, s) \<leftarrow> re_plus re_lower_hex s;
       s \<leftarrow> re_lit '','' s;
       (_, s) \<leftarrow> re_plus (\<lambda>c. c = CHR '' '') s;
       (n, s) \<leftarrow> re_plus re_digit s;
       s \<leftarrow> re_lit ('' bit, '' @ [CHR 0x22]) s;
       c \<leftarrow> re_upto_last (CHR 0x22) s;
       Some (''0x'' @ h, b, n, c)
     }"

section \<open>Reading the bus\<close>

definition run_ethercat :: "gen_env \<Rightarrow> string \<Rightarrow> gen_fail + string list" where
  "run_ethercat env args = (case ge_run env (''ethercat '' @ args) of None \<Rightarrow> Inl (GenExit 1) | Some ls \<Rightarrow> Inr ls)"

text \<open>The slave being read and the slaves that are complete.\<close>

definition read_slaves_line :: "string \<Rightarrow> ec_slave \<times> ec_slave list \<Rightarrow> ec_slave \<times> ec_slave list" where
  "read_slaves_line raw = (\<lambda>(cur, arr).
     let line = rtrim raw in
     case re_slave_master line of
       Some (m, k) \<Rightarrow>
         (let (cur, arr) = (if es_slave cur \<noteq> None then (no_slave, arr @ [cur]) else (cur, arr))
          in (cur\<lparr>es_master := Some m, es_slave := Some k\<rparr>, arr))
     | None \<Rightarrow>
         (case re_slave_vendor line of Some v \<Rightarrow> (cur\<lparr>es_vendor_id := Some v\<rparr>, arr)
          | None \<Rightarrow>
              (case re_slave_product line of Some p \<Rightarrow> (cur\<lparr>es_product_id := Some p\<rparr>, arr)
               | None \<Rightarrow>
                   (case re_slave_revision line of Some r \<Rightarrow> (cur\<lparr>es_revision_no := Some r\<rparr>, arr)
                    | None \<Rightarrow>
                        (case re_slave_devname line of Some d \<Rightarrow> (no_slave, arr @ [cur\<lparr>es_device_name := Some d\<rparr>])
                         | None \<Rightarrow> (cur, arr))))))"

definition slaves_of_lines :: "string list \<Rightarrow> ec_slave list" where
  "slaves_of_lines ls = snd (fold read_slaves_line ls (no_slave, []))"

definition gen_read_slaves :: "gen_env \<Rightarrow> gen_fail + ec_slave list" where
  "gen_read_slaves env = bind_res (run_ethercat env ''-v slaves'') (\<lambda>ls. Inr (slaves_of_lines ls))"

definition read_sdos_line :: "string \<Rightarrow> ec_slave \<Rightarrow> ec_slave" where
  "read_sdos_line raw s = (case re_sdo (rtrim raw) of Some (i, t) \<Rightarrow> sdo_put s i t | None \<Rightarrow> s)"

text \<open>Position and master are printed into the command line.\<close>

definition slave_args :: "ec_slave \<Rightarrow> string \<Rightarrow> gen_fail + string" where
  "slave_args s cmd =
     (case (es_master s, es_slave s) of
        (Some m, Some k) \<Rightarrow> Inr (''-m '' @ m @ '' '' @ cmd @ '' -p '' @ k)
      | _ \<Rightarrow> Inl GenNull)"

definition read_sdos :: "gen_env \<Rightarrow> ec_slave \<Rightarrow> gen_fail + ec_slave" where
  "read_sdos env s =
     bind_res (slave_args s ''sdos'') (\<lambda>args.
     bind_res (run_ethercat env args) (\<lambda>ls. Inr (fold read_sdos_line ls s)))"

definition show_hex :: "nat \<Rightarrow> int \<Rightarrow> string" where "show_hex n v = ''0x'' @ hex_digits n v"

text \<open>The first 255 characters of the first line, as a number.\<close>

definition read_sdo_int :: "gen_env \<Rightarrow> ec_slave \<Rightarrow> int \<Rightarrow> int \<Rightarrow> gen_fail + int" where
  "read_sdo_int env s idx sub =
     bind_res (slave_args s ''upload'') (\<lambda>args.
     bind_res (run_ethercat env (args @ '' '' @ show_hex 4 idx @ '' '' @ show_hex 2 sub)) (\<lambda>ls.
     case ls of [] \<Rightarrow> Inr (-1) | l # _ \<Rightarrow> Inr (fst (strtol 0 (take 255 l)))))"

section \<open>CiA 402 devices\<close>

definition is_cia402 :: "ec_slave \<Rightarrow> bool" where
  "is_cia402 s \<longleftrightarrow> sdo_get s ''0x6040:00'' \<noteq> [] \<and> sdo_get s ''0x6041:00'' \<noteq> [] \<and> sdo_get s ''0x6502:00'' \<noteq> []"

definition cia_probes :: "string list" where
  "cia_probes = [''0x6502:00'', ''0x6d02:00'', ''0x7502:00'', ''0x7d02:00'', ''0x8502:00'', ''0x8d02:00'', ''0x9502:00'', ''0x9d02:00'']"

definition cia_channels :: "ec_slave \<Rightarrow> nat" where
  "cia_channels s = length (takeWhile (\<lambda>p. sdo_get s p \<noteq> []) cia_probes)"

text \<open>The subindex is printed with \<^verbatim>\<open>%02d\<close>: two decimal digits.\<close>

definition show_dec2 :: "nat \<Rightarrow> string" where
  "show_dec2 e = [digit_char (int e div 10), digit_char (int e mod 10)]"

fun cia_pdo_entries_from :: "ec_slave \<Rightarrow> int \<Rightarrow> nat \<Rightarrow> nat" where
  "cia_pdo_entries_from s base 0 = 8"
| "cia_pdo_entries_from s base (Suc k) =
     (if sdo_get s (show_hex 4 base @ '':'' @ show_dec2 (8 + Suc k)) \<noteq> [] then 8 + Suc k else cia_pdo_entries_from s base k)"

definition cia_pdo_entries :: "ec_slave \<Rightarrow> int \<Rightarrow> nat" where
  "cia_pdo_entries s base = cia_pdo_entries_from s base 24"

definition cia402_type_keys :: "(u32 \<times> string) list" where
  "cia402_type_keys =
     [(0x603f00, ''uint16''), (0x604000, ''uint16''), (0x604100, ''uint16''), (0x604200, ''int16''), (0x604300, ''int16''),
      (0x604400, ''int16''), (0x604d00, ''uint8''), (0x605a00, ''int16''), (0x605b00, ''int16''), (0x605c00, ''int16''),
      (0x605d00, ''int16''), (0x605e00, ''int16''), (0x606000, ''int8''), (0x606100, ''int8''), (0x606200, ''int32''),
      (0x606300, ''int32''), (0x606400, ''int32''), (0x606500, ''uint32''), (0x606600, ''uint16''), (0x606700, ''uint32''),
      (0x606800, ''uint16''), (0x606900, ''int32''), (0x606a00, ''int16''), (0x606b00, ''int32''), (0x606c00, ''int32''),
      (0x606d00, ''uint16''), (0x606e00, ''uint16''), (0x606f00, ''uint16''), (0x607000, ''uint16''), (0x607100, ''int16''),
      (0x607200, ''uint16''), (0x607300, ''uint16''), (0x607400, ''int16''), (0x607500, ''uint32''), (0x607600, ''uint32''),
      (0x607700, ''int16''), (0x607800, ''int16''), (0x607900, ''uint32''), (0x607a00, ''int32''), (0x607c00, ''int32''),
      (0x607e00, ''uint8''), (0x607f00, ''uint32''), (0x608000, ''uint32''), (0x608100, ''uint32''), (0x608200, ''uint32''),
      (0x608300, ''uint32''), (0x608400, ''uint32''), (0x608500, ''uint32''), (0x608600, ''int16''), (0x608700, ''uint32''),
      (0x608800, ''int16''), (0x609800, ''int8''), (0x609a00, ''uint32''), (0x60b000, ''int32''), (0x60b100, ''int32''),
      (0x60b200, ''int16''), (0x60b800, ''uint16''), (0x60b900, ''uint16''), (0x60ba00, ''int32''), (0x60bb00, ''int32''),
      (0x60bc00, ''int32''), (0x60bd00, ''int32''), (0x60be00, ''int32''), (0x60bf00, ''int32''), (0x60c000, ''int16''),
      (0x60c100, ''int32''), (0x60c500, ''uint32''), (0x60c600, ''uint32''), (0x60d000, ''int16''), (0x60d500, ''uint16''),
      (0x60d600, ''uint16''), (0x60d700, ''uint16''), (0x60d800, ''uint16''), (0x60e000, ''uint16''), (0x60e100, ''uint16''),
      (0x60f200, ''uint16''), (0x60f400, ''int32''), (0x60fd00, ''uint32''), (0x60ff00, ''int32''), (0x650200, ''uint32'')]"

definition cia402_type_subs :: "(int \<times> int \<times> string) list" where
  "cia402_type_subs =
     [(0x6046, 1, ''uint32''), (0x6046, 2, ''uint32''), (0x6048, 1, ''uint32''), (0x6048, 2, ''uint16''),
      (0x6049, 1, ''uint32''), (0x6049, 2, ''uint16''), (0x604a, 1, ''uint32''), (0x604a, 2, ''uint16''),
      (0x604b, 1, ''int16''), (0x604b, 2, ''int16''), (0x604c, 1, ''int32''), (0x604c, 2, ''int32''), (0x607b, 1, ''int32''),
      (0x607b, 2, ''int32''), (0x607d, 1, ''int32''), (0x607d, 2, ''int32''), (0x608f, 1, ''uint32''), (0x608f, 2, ''uint32''),
      (0x6090, 1, ''uint32''), (0x6090, 2, ''uint32''), (0x6091, 1, ''uint32''), (0x6091, 2, ''uint32''),
      (0x6092, 1, ''uint32''), (0x6092, 2, ''uint32''), (0x6093, 1, ''uint32''), (0x6093, 2, ''uint32''),
      (0x6094, 1, ''uint32''), (0x6094, 2, ''uint32''), (0x6095, 1, ''uint32''), (0x6095, 2, ''uint32''),
      (0x6096, 1, ''uint32''), (0x6096, 2, ''uint32''), (0x6097, 1, ''uint32''), (0x6097, 2, ''uint32''),
      (0x6099, 1, ''uint32''), (0x6099, 2, ''uint32''), (0x60c2, 1, ''uint8''), (0x60c2, 2, ''uint8''),
      (0x60fe, 1, ''uint32''), (0x60fe, 2, ''uint32'')]"

definition cia402_name_keys :: "(u32 \<times> string) list" where
  "cia402_name_keys =
     [(0x603f00, ''error-code''), (0x604000, ''controlword''), (0x604100, ''statusword''), (0x604200, ''vl-target-velocity''),
      (0x604300, ''vl-velocity-demand''), (0x604400, ''vl-velocity-actual''), (0x604d00, ''vl-pole-number''),
      (0x605a00, ''quick-stop-option-code''), (0x605b00, ''shutdown-option-code''),
      (0x605c00, ''disable-operation-option-code''), (0x605d00, ''halt-option-code''),
      (0x605e00, ''fault-reaction-option-code''), (0x606000, ''mode-of-operation''), (0x606100, ''mode-of-operation-display''),
      (0x606200, ''position-demand''), (0x606300, ''position-actual-internal''), (0x606400, ''position-actual''),
      (0x606500, ''following-error-window''), (0x606600, ''following-error-timeout''), (0x606700, ''position-window''),
      (0x606800, ''position-window-time''), (0x606900, ''velocity-sensor-actual''), (0x606a00, ''sensor-selection-code''),
      (0x606b00, ''velocity-demand''), (0x606c00, ''velocity-actual''), (0x606d00, ''velocity-window''),
      (0x606e00, ''velocity-window-time''), (0x606f00, ''velocity-threshold''), (0x607000, ''velocity-threshold-time''),
      (0x607100, ''target-torque''), (0x607200, ''max-torque''), (0x607300, ''max-current''), (0x607400, ''torque-demand''),
      (0x607500, ''motor-rated-current''), (0x607600, ''motor-rated-torque''), (0x607700, ''torque-actual''),
      (0x607800, ''current-actual''), (0x607900, ''dc-link-voltage''), (0x607a00, ''target-position''),
      (0x607c00, ''home-offset''), (0x607e00, ''polarity''), (0x607f00, ''max-profile-velocity''),
      (0x608000, ''max-motor-speed''), (0x608100, ''profile-velocity''), (0x608200, ''end-velocity''),
      (0x608300, ''profile-acceleration''), (0x608400, ''profile-deceleration''), (0x608500, ''quick-stop-deceleration''),
      (0x608600, ''motion-profile-type''), (0x608700, ''torque-slope''), (0x608800, ''torque-profile-type''),
      (0x609800, ''homing-method''), (0x609a00, ''homing-acceleration''), (0x60b000, ''position-offset''),
      (0x60b100, ''velocity-offset''), (0x60b200, ''torque-offset''), (0x60b800, ''touch-probe-function''),
      (0x60b900, ''touch-probe-status''), (0x60ba00, ''touch-probe-pos1-pos-value''),
      (0x60bb00, ''touch-probe-pos1-neg-value''), (0x60bc00, ''touch-probe-pos2-pos-value''),
      (0x60bd00, ''touch-probe-pos2-neg-value''), (0x60be00, ''touch-probe-3-pos-value''),
      (0x60bf00, ''touch-probe-3-neg-value''), (0x60c000, ''interpolation-sub-mode-select''),
      (0x60c100, ''interpolation-data-record''), (0x60c500, ''max-acceleration''), (0x60c600, ''max-deceleration''),
      (0x60d000, ''touch-probe-source''), (0x60d500, ''touch-probe-pos1-pos-counter''),
      (0x60d600, ''touch-probe-pos1-neg-counter''), (0x60d700, ''touch-probe-pos2-pos-counter''),
      (0x60d800, ''touch-probe-pos2-neg-counter''), (0x60e000, ''positive-torque-limit''),
      (0x60e100, ''negative-torque-limit''), (0x60f200, ''positioning-option-code''), (0x60f400, ''following-error-actual''),
      (0x60fd00, ''digital-inputs''), (0x60ff00, ''target-velocity''), (0x650200, ''supported-drive-modes'')]"

definition cia402_name_subs :: "(int \<times> int \<times> string) list" where
  "cia402_name_subs =
     [(0x6046, 1, ''vl-velocity-min-amount''), (0x6046, 2, ''vl-velocity-max-amount''), (0x6048, 1, ''vl-accel-delta-speed''),
      (0x6048, 2, ''vl-accel-delta-time''), (0x6049, 1, ''vl-decel-delta-speed''), (0x6049, 2, ''vl-decel-delta-time''),
      (0x604a, 1, ''vl-quick-stop-delta-speed''), (0x604a, 2, ''vl-quick-stop-delta-time''),
      (0x607b, 1, ''position-range-limit-min''), (0x607b, 2, ''position-range-limit-max''),
      (0x607d, 1, ''software-position-limit-min''), (0x607d, 2, ''software-position-limit-max''),
      (0x6099, 1, ''homing-speed-switch''), (0x6099, 2, ''homing-speed-zero''), (0x60fe, 1, ''digital-outputs''),
      (0x60fe, 2, ''digital-outputs-bitmask'')]"

definition enable_sdos :: "(string \<times> int \<times> int) list" where
  "enable_sdos =
     [(''enableActualCurrent'', 0x78, 0), (''enableActualFollowingError'', 0xf4, 0), (''enableActualTorque'', 0x77, 0),
      (''enableActualVelocitySensor'', 0x69, 0), (''enableActualVoltage'', 0x79, 0), (''enableControlEffort'', 0xfa, 0),
      (''enableDigitalInput'', 0xfd, 0), (''enableDigitalOutput'', 0xfe, 1), (''enableErrorCode'', 0x3f, 0),
      (''enableFollowingErrorTimeout'', 0x66, 0), (''enableFollowingErrorWindow'', 0x65, 0), (''enableHomeAccel'', 0x9a, 0),
      (''enableInterpolationTimePeriod'', 0xc2, 1), (''enableMaximumAcceleration'', 0xc6, 0),
      (''enableMaximumCurrent'', 0x73, 0), (''enableMaximumDeceleration'', 0xc6, 0), (''enableMaximumMotorRPM'', 0x80, 0),
      (''enableMaximumSlippage'', 0xf8, 0), (''enableMaximumTorque'', 0x72, 0), (''enableMotorRatedCurrent'', 0x75, 0),
      (''enableMotorRatedTorque'', 0x76, 0), (''enablePolarity'', 0x7e, 0), (''enablePositionDemand'', 0x62, 0),
      (''enablePositioningTime'', 0x68, 0), (''enablePositioningWindow'', 0x67, 0), (''enableProbeStatus'', 0xb9, 0),
      (''enableProfileAccel'', 0x83, 0), (''enableProfileDecel'', 0x84, 0), (''enableProfileEndVelocity'', 0x82, 0),
      (''enableProfileMaxVelocity'', 0x7f, 0), (''enableProfileVelocity'', 0x81, 0), (''enableTargetTorque'', 0x71, 0),
      (''enableTargetVL'', 0x42, 0), (''enableTorqueDemand'', 0x74, 0), (''enableTorqueProfileType'', 0x88, 0),
      (''enableTorqueSlope'', 0x87, 0), (''enableVLAccel'', 0x48, 0), (''enableVLDecel'', 0x49, 0),
      (''enableVLDemand'', 0x43, 0), (''enableVLMaximum'', 0x46, 2), (''enableVLMinimum'', 0x46, 1),
      (''enableVelocityDemand'', 0x6b, 0), (''enableVelocityErrorTime'', 0x6e, 0), (''enableVelocityErrorWindow'', 0x6d, 0),
      (''enableVelocitySensorSelector'', 0x6a, 0), (''enableVelocityThresholdTime'', 0x70, 0),
      (''enableVelocityThresholdWindow'', 0x6f, 0)]"

definition cia_abilities :: "(nat \<times> string \<times> string) list" where
  "cia_abilities =
     [(0, ''enablePP'', ''true''), (1, ''enableVL'', ''true''), (2, ''enablePV'', ''true''), (3, ''enableTQ'', ''true''),
      (5, ''enableHM'', ''true''), (6, ''enableIP'', ''disabled''), (7, ''enableCSP'', ''true''), (8, ''enableCSV'', ''true''),
      (9, ''enableCST'', ''true'')]"

definition ability_params :: "string \<Rightarrow> int \<Rightarrow> gen_modparam list" where
  "ability_params pfx ab =
     map (\<lambda>(b, n, v). MpParam (pfx @ n) v) (filter (\<lambda>(b, n, v). bit ab b) cia_abilities)"

definition enable_params :: "ec_slave \<Rightarrow> string \<Rightarrow> int \<Rightarrow> gen_modparam list" where
  "enable_params s pfx base =
     concat (map (\<lambda>(n, off, sub).
       (if sdo_get s (show_hex 4 (off + base) @ '':'' @ hex_digits 2 sub) \<noteq> [] then [MpParam (pfx @ n) ''true''] else []) @
       (if strcmp_eq n ''enableDigitalInput'' then [MpParam (pfx @ ''digitalInChannels'') ''16''] else []) @
       (if strcmp_eq n ''enableDigitalOutput'' then [MpParam (pfx @ ''digitalOutChannels'') ''16''] else [])) enable_sdos)"

fun cia_channel_params :: "gen_env \<Rightarrow> ec_slave \<Rightarrow> nat \<Rightarrow> nat list \<Rightarrow> gen_fail + gen_modparam list" where
  "cia_channel_params env s channels [] = Inr []"
| "cia_channel_params env s channels (ch # chs) =
     (let pfx = (if channels > 1 then ''ch'' @ show_int (int ch + 1) else []);
          base = 0x6000 + 0x800 * int ch in
      bind_res (read_sdo_int env s (base + 0x502) 0) (\<lambda>ab.
      bind_res (cia_channel_params env s channels chs) (\<lambda>ps.
      Inr (ability_params pfx ab @ enable_params s pfx base @ ps))))"

definition cia_enable_modparams :: "gen_env \<Rightarrow> ec_slave \<Rightarrow> gen_fail + gen_modparam list" where
  "cia_enable_modparams env s =
     (let channels = cia_channels s in
      bind_res (cia_channel_params env s channels [0..<(if channels > 0 then channels else 1)]) (\<lambda>ps.
      Inr ((if channels > 1 then [MpParam ''ciaChannels'' (show_int (int channels))] else []) @
           [MpParam ''ciaRxPDOEntryLimit'' (show_int (int (cia_pdo_entries s 0x1600))),
            MpParam ''ciaTxPDOEntryLimit'' (show_int (int (cia_pdo_entries s 0x1a00)))] @ ps)))"

end
