(* ===== verification/ConfGenOut.thy ===== *)
theory ConfGenOut
  imports ConfGen
begin

text \<open>
  The second half of \<open>lcec_configgen.c\<close>: the choice of a driver, the process data of generic slaves,
  the names of their pins, the text of the configuration, and \<open>main\<close>.
\<close>

section \<open>Drivers\<close>

definition find_driver :: "registry \<Rightarrow> string option \<Rightarrow> string option \<Rightarrow> gen_fail + slave_type option" where
  "find_driver reg vid_str pid_str =
     (case (vid_str, pid_str) of
        (Some v, Some p) \<Rightarrow>
          (let vid = word_of_int (fst (strtoul 0 v)) :: u32; pid = word_of_int (fst (strtoul 0 p)) :: u32 in
           Inr (List.find (\<lambda>t. ty_vid t = vid \<and> ty_pid t = pid) reg))
      | _ \<Rightarrow> Inl GenNull)"

definition find_driver_by_name :: "registry \<Rightarrow> string \<Rightarrow> slave_type option" where
  "find_driver_by_name reg name = List.find (\<lambda>t. strcmp_eq (ty_name t) name) reg"

definition driver_supports_modparam :: "slave_type option \<Rightarrow> string \<Rightarrow> bool" where
  "driver_supports_modparam t name =
     (case t of None \<Rightarrow> False
      | Some t \<Rightarrow> (case ty_modparams t of None \<Rightarrow> False | Some ms \<Rightarrow> list_ex (\<lambda>m. strcasecmp_eq (md_name m) name) ms))"

definition infer_type :: "gen_env \<Rightarrow> gen_flags \<Rightarrow> ec_slave \<Rightarrow> gen_fail + string" where
  "infer_type env fl s =
     (let other = (if is_cia402 s then ''basic_cia402'' else ''generic'') in
      if flag_typedb fl then
        bind_res (find_driver (ge_types env) (es_vendor_id s) (es_product_id s)) (\<lambda>t.
        Inr (case t of Some t \<Rightarrow> ty_name t | None \<Rightarrow> other))
      else Inr other)"

definition driver_modparams :: "modparam_desc \<Rightarrow> gen_modparam list" where
  "driver_modparams m =
     (case md_config_comment m of None \<Rightarrow> [] | Some c \<Rightarrow> [MpComment c]) @
     (case md_config_value m of None \<Rightarrow> [] | Some v \<Rightarrow> [MpParam (md_name m) v, MpBlank])"

definition config_modparams_from_driver :: "gen_env \<Rightarrow> ec_slave \<Rightarrow> gen_fail + gen_modparam list" where
  "config_modparams_from_driver env s =
     bind_res (find_driver (ge_types env) (es_vendor_id s) (es_product_id s)) (\<lambda>t.
     Inr (case t of None \<Rightarrow> []
          | Some t \<Rightarrow> (case ty_modparams t of None \<Rightarrow> [] | Some ms \<Rightarrow> concat (map driver_modparams ms))))"

section \<open>Process data\<close>

definition xml_format_hex :: "string \<Rightarrow> string" where
  "xml_format_hex s = (if take 2 s = ''0x'' then drop 2 s else s)"

definition pin_char :: "char \<Rightarrow> bool" where
  "pin_char c \<longleftrightarrow> in_class 97 122 c \<or> re_digit c"

text \<open>A run of other characters becomes one minus; the flag says that the last one written is such a minus.\<close>

fun pin_chars :: "bool \<Rightarrow> string \<Rightarrow> string" where
  "pin_chars prev_dash [] = []"
| "pin_chars prev_dash (c # cs) =
     (if pin_char c then c # pin_chars False cs
      else if prev_dash then pin_chars True cs else CHR ''-'' # pin_chars True cs)"

definition pin_format_comment :: "string \<Rightarrow> string" where
  "pin_format_comment s = pin_chars False (map c_tolower s)"

text \<open>Keys are computed in 32 bits; indexes with several subindexes are compared in full.\<close>

definition cia402_find :: "(u32 \<times> string) list \<Rightarrow> (int \<times> int \<times> string) list \<Rightarrow> string \<Rightarrow> string \<Rightarrow> string option" where
  "cia402_find keys subs idx subidx =
     (let i = fst (strtoul 16 idx); s = fst (strtoul 16 subidx);
          key = push_bit 8 (word_of_int i :: u32) OR (word_of_int s AND 0xff) in
      case map_of keys key of Some v \<Rightarrow> Some v
      | None \<Rightarrow> map_option (\<lambda>(_, _, v). v) (List.find (\<lambda>(j, r, _). i = j \<and> s = r) subs))"

definition cia402_default_type :: "string \<Rightarrow> string \<Rightarrow> string option" where
  "cia402_default_type = cia402_find cia402_type_keys cia402_type_subs"

definition cia402_default_name :: "string \<Rightarrow> string \<Rightarrow> string option" where
  "cia402_default_name = cia402_find cia402_name_keys cia402_name_subs"

text \<open>An unknown type is printed between exclamation marks, into 64 bytes.\<close>

definition infer_haltype :: "string \<Rightarrow> int \<Rightarrow> string" where
  "infer_haltype ty bits =
     (if bits < 8 then ''bit''
      else if ty = ''uint8'' \<or> ty = ''uint16'' \<or> ty = ''uint32'' then ''u32''
      else if ty = ''int8'' \<or> ty = ''int16'' \<or> ty = ''int32'' then ''s32''
      else if ty = ''bool'' then (if bits = 1 then ''bit'' else ''u32'')
      else if ty = ''uint64'' then ''u64''
      else if ty = ''int64'' then ''s64''
      else if ty = ''float'' \<or> ty = ''double'' then (if bits = 32 then ''float-ieee'' else ''float-double-ieee'')
      else if ty = [] then ''BLANK''
      else take 63 (''!!'' @ ty @ ''!!''))"

definition entry_type :: "ec_slave \<Rightarrow> string \<Rightarrow> string \<Rightarrow> string" where
  "entry_type s idx subidx =
     (let sdotype = sdo_get s (take 31 (''0x'' @ idx @ '':'' @ subidx)) in
      if sdotype = [] then (case cia402_default_type idx subidx of None \<Rightarrow> [] | Some t \<Rightarrow> t) else sdotype)"

definition make_entry :: "ec_slave \<Rightarrow> string \<Rightarrow> string \<Rightarrow> string \<Rightarrow> string \<Rightarrow> gen_entry" where
  "make_entry s idx subidx bits cmt =
     \<lparr>ge_idx = idx, ge_subidx = subidx, ge_bitlen = bits,
      ge_halpin = (if cmt \<noteq> [] then pin_format_comment cmt
                   else case cia402_default_name idx subidx of Some n \<Rightarrow> n | None \<Rightarrow> ''pin-'' @ idx @ ''-'' @ subidx),
      ge_haltype = infer_haltype (entry_type s idx subidx) (fst (strtoul 10 bits))\<rparr>"

text \<open>
  The current sync manager is the last one, and the current PDO its last one; before the first, the
  pointers are \<open>NULL\<close>.
\<close>

fun upd_last :: "('a \<Rightarrow> 'a) \<Rightarrow> 'a list \<Rightarrow> 'a list" where
  "upd_last f [] = []"
| "upd_last f (x # xs) = (if xs = [] then [f x] else x # upd_last f xs)"

definition add_pdo :: "string \<Rightarrow> string \<Rightarrow> string \<Rightarrow> gen_sm \<Rightarrow> gen_sm" where
  "add_pdo kind idx cmt sm =
     sm\<lparr>gs_pdos := gs_pdos sm @ [\<lparr>gd_idx = xml_format_hex idx, gd_comment = cmt, gd_entries = []\<rparr>],
        gs_dir := (if kind = ''RxPDO'' then ''out'' else if kind = ''TxPDO'' then ''in'' else gs_dir sm)\<rparr>"

definition build_pdos_line :: "ec_slave \<Rightarrow> string \<Rightarrow> gen_sm list \<Rightarrow> gen_fail + gen_sm list" where
  "build_pdos_line s raw sms =
     (let line = rtrim raw in
      case re_pdo_sm line of
        Some n \<Rightarrow>
          Inr (sms @ [\<lparr>gs_idx = n, gs_dir = (if n = ''0'' then ''in'' else if n = ''1'' then ''out'' else []), gs_pdos = []\<rparr>])
      | None \<Rightarrow>
          (case re_pdo_pdo line of
             Some (kind, idx, cmt) \<Rightarrow> if sms = [] then Inl GenNull else Inr (upd_last (add_pdo kind idx cmt) sms)
           | None \<Rightarrow>
               (case re_pdo_entry line of
                  Some (i, sub, bits, cmt) \<Rightarrow>
                    (let idx = xml_format_hex i in
                     if idx = ''0000'' then Inr sms
                     else if sms = [] \<or> gs_pdos (last sms) = [] then Inl GenNull
                     else Inr (upd_last (gs_pdos_update (upd_last
                            (gd_entries_update (\<lambda>es. es @ [make_entry s idx sub bits cmt])))) sms))
                | None \<Rightarrow> Inr sms)))"

definition build_pdos :: "gen_env \<Rightarrow> ec_slave \<Rightarrow> gen_fail + gen_sm list" where
  "build_pdos env s =
     bind_res (slave_args s ''pdos'') (\<lambda>args.
     bind_res (run_ethercat env args) (\<lambda>ls. fold_res (build_pdos_line s) ls []))"

text \<open>The names of all pins of a slave, and the prefix of those that occur more than once.\<close>

definition sm_pins :: "gen_sm list \<Rightarrow> string list" where
  "sm_pins sms = concat (map (\<lambda>sm. concat (map (\<lambda>p. map ge_halpin (gd_entries p)) (gs_pdos sm))) sms)"

definition pin_prefix :: "gen_sm \<Rightarrow> gen_pdo \<Rightarrow> string" where
  "pin_prefix sm p =
     (if CHR '' '' \<in> set (gd_comment p) then rev (takeWhile (\<lambda>c. c \<noteq> CHR '' '') (rev (gd_comment p))) else gs_dir sm)"

definition fixup_entry :: "string list \<Rightarrow> string \<Rightarrow> gen_entry \<Rightarrow> gen_entry" where
  "fixup_entry names pfx e =
     (if count_list names (ge_halpin e) > 1 then e\<lparr>ge_halpin := pin_format_comment (pfx @ '' '' @ ge_halpin e)\<rparr> else e)"

definition fixup_pin_names :: "gen_sm list \<Rightarrow> gen_sm list" where
  "fixup_pin_names sms =
     map (\<lambda>sm. sm\<lparr>gs_pdos := map (\<lambda>p. p\<lparr>gd_entries := map (fixup_entry (sm_pins sms) (pin_prefix sm p)) (gd_entries p)\<rparr>) (gs_pdos sm)\<rparr>) sms"

section \<open>The text\<close>

definition nl :: string where "nl = [CHR 0x0A]"
definition quote :: string where "quote = [CHR 0x22]"

definition emit_attr :: "string \<Rightarrow> string \<Rightarrow> string" where
  "emit_attr name value = '' '' @ name @ ''='' @ quote @ value @ quote"

definition slave_has_children :: "gen_slave \<Rightarrow> bool" where
  "slave_has_children sc \<longleftrightarrow>
     (case gl_comment sc of None \<Rightarrow> False | Some c \<Rightarrow> c \<noteq> []) \<or> gl_modparams sc \<noteq> [] \<or> gl_sms sc \<noteq> []"

fun emit_modparam :: "gen_modparam \<Rightarrow> string" where
  "emit_modparam (MpParam n v) = ''      <modParam'' @ emit_attr ''name'' n @ emit_attr ''value'' v @ ''/>'' @ nl"
| "emit_modparam (MpComment c) = ''      <!-- '' @ c @ '' -->'' @ nl"
| "emit_modparam MpBlank = ''      '' @ nl"

definition emit_entry :: "gen_entry \<Rightarrow> string" where
  "emit_entry e =
     ''          <pdoEntry'' @ emit_attr ''idx'' (ge_idx e) @ emit_attr ''subIdx'' (ge_subidx e) @ emit_attr ''bitLen'' (ge_bitlen e) @
     emit_attr ''halPin'' (ge_halpin e) @ emit_attr ''halType'' (ge_haltype e) @ ''/>'' @ nl"

definition emit_pdo :: "gen_pdo \<Rightarrow> string" where
  "emit_pdo p =
     ''        <pdo'' @ emit_attr ''idx'' (gd_idx p) @ ''>'' @ nl @
     (if gd_comment p \<noteq> [] then ''          <!--'' @ gd_comment p @ ''-->'' @ nl else []) @
     concat (map emit_entry (gd_entries p)) @ ''        </pdo>'' @ nl"

definition emit_sm :: "gen_sm \<Rightarrow> string" where
  "emit_sm sm =
     ''      <syncManager'' @ emit_attr ''idx'' (gs_idx sm) @ emit_attr ''dir'' (gs_dir sm) @
     (if gs_pdos sm = [] then ''/>'' @ nl
      else ''>'' @ nl @ concat (map emit_pdo (gs_pdos sm)) @ ''      </syncManager>'' @ nl)"

definition emit_slave :: "gen_slave \<Rightarrow> string" where
  "emit_slave sc =
     ''    <slave'' @ emit_attr ''idx'' (gl_idx sc) @ emit_attr ''type'' (gl_type sc) @
     (if gl_vid sc \<noteq> [] then emit_attr ''vid'' (gl_vid sc) else []) @
     (if gl_pid sc \<noteq> [] then emit_attr ''pid'' (gl_pid sc) else []) @ emit_attr ''name'' (gl_name sc) @
     (if \<not> slave_has_children sc then ''/>'' @ nl
      else ''>'' @ nl @
        (case gl_comment sc of None \<Rightarrow> [] | Some c \<Rightarrow> if c \<noteq> [] then ''      <!--'' @ c @ ''-->'' @ nl else []) @
        concat (map emit_sm (gl_sms sc)) @ concat (map emit_modparam (gl_modparams sc)) @ ''    </slave>'' @ nl)"

definition emit_master :: "gen_master \<Rightarrow> string" where
  "emit_master m =
     ''  <master'' @ emit_attr ''idx'' (gm_idx m) @ ''>'' @ nl @ concat (map emit_slave (gm_slaves m)) @ ''  </master>'' @ nl"

definition emit_masters :: "gen_master list \<Rightarrow> string" where
  "emit_masters ms = ''<masters>'' @ nl @ concat (map emit_master ms) @ ''</masters>'' @ nl"

section \<open>main\<close>

text \<open>\<open>None\<close> is a \<open>NULL\<close> value.\<close>

definition gen_parse_bool :: "string option \<Rightarrow> bool" where
  "gen_parse_bool v =
     (case v of None \<Rightarrow> True
      | Some s \<Rightarrow> s = [] \<or> strcasecmp_eq s ''1'' \<or> strcasecmp_eq s ''true'' \<or> strcasecmp_eq s ''t'' \<or> strcasecmp_eq s ''yes'')"

text \<open>The text before the first equals sign, and the text behind it.\<close>

definition split_eq :: "string \<Rightarrow> string \<times> string option" where
  "split_eq s =
     (let n = takeWhile (\<lambda>c. c \<noteq> CHR ''='') s in (n, if n = s then None else Some (drop (Suc (length n)) s)))"

definition default_flags :: gen_flags where
  "default_flags = \<lparr>flag_typedb = True, flag_extra_cia_modparams = False, flag_generic_pdos = True, cli_modparams = []\<rparr>"

definition flag_text :: "string \<Rightarrow> string option" where
  "flag_text a =
     (case a of c # r \<Rightarrow> if c = CHR ''-'' then Some (if take 1 r = ''-'' then drop 1 r else r) else None | [] \<Rightarrow> None)"

fun parse_args :: "string list \<Rightarrow> gen_flags \<Rightarrow> gen_fail + gen_flags" where
  "parse_args [] fl = Inr fl"
| "parse_args (a # as) fl =
     (case flag_text a of
        None \<Rightarrow> Inl (GenExit 1)
      | Some f \<Rightarrow>
          (case split_eq f of (name, val) \<Rightarrow>
             if strcmp_eq name ''typedb'' then parse_args as (fl\<lparr>flag_typedb := gen_parse_bool val\<rparr>)
             else if strcmp_eq name ''extra_cia_modparams'' then parse_args as (fl\<lparr>flag_extra_cia_modparams := gen_parse_bool val\<rparr>)
             else if strcmp_eq name ''generic_pdos'' then parse_args as (fl\<lparr>flag_generic_pdos := gen_parse_bool val\<rparr>)
             else if strcmp_eq name ''modparam'' then
               (if val \<noteq> None then Inl (GenExit 1)
                else case as of
                    [] \<Rightarrow> Inl (GenExit 1)
                  | kv # as' \<Rightarrow>
                      (case split_eq kv of
                         (n, Some v) \<Rightarrow>
                           if n = [] then Inl (GenExit 1)
                           else parse_args as' (fl\<lparr>cli_modparams := cli_modparams fl @ [\<lparr>cmp_name = n, cmp_value = v, cmp_applied = 0\<rparr>]\<rparr>)
                       | (n, None) \<Rightarrow> Inl (GenExit 1)))
             else if strcmp_eq name ''h'' \<or> strcmp_eq name ''help'' then Inl (GenExit 0)
             else Inl (GenExit 1)))"

text \<open>The modparams of the command line that the driver of a slave knows, and the count of their uses.\<close>

definition apply_cli :: "slave_type option \<Rightarrow> cli_modparam list \<Rightarrow> gen_modparam list \<times> cli_modparam list" where
  "apply_cli driver cms =
     (concat (map (\<lambda>c. if driver_supports_modparam driver (cmp_name c) then [MpParam (cmp_name c) (cmp_value c)] else []) cms),
      map (\<lambda>c. if driver_supports_modparam driver (cmp_name c) then c\<lparr>cmp_applied := Suc (cmp_applied c)\<rparr> else c) cms)"

definition cli_params :: "gen_env \<Rightarrow> ec_slave \<Rightarrow> string \<Rightarrow> cli_modparam list \<Rightarrow> gen_fail + gen_modparam list \<times> cli_modparam list" where
  "cli_params env s ty cms =
     (if cms = [] then Inr ([], [])
      else bind_res (find_driver (ge_types env) (es_vendor_id s) (es_product_id s)) (\<lambda>d.
        Inr (apply_cli (if d = None \<and> strcmp_eq ty ''basic_cia402'' then find_driver_by_name (ge_types env) ''basic_cia402'' else d) cms)))"

text \<open>The configuration of the slave with number \<open>seq\<close>.\<close>

definition make_slave :: "gen_env \<Rightarrow> gen_flags \<Rightarrow> nat \<Rightarrow> cli_modparam list \<Rightarrow> ec_slave \<Rightarrow> gen_fail + gen_slave \<times> cli_modparam list" where
  "make_slave env fl seq cms s0 =
     bind_res (read_sdos env s0) (\<lambda>s.
     bind_res (infer_type env fl s) (\<lambda>ty.
     bind_res (config_modparams_from_driver env s) (\<lambda>mps.
     bind_res (if strcmp_eq ty ''basic_cia402'' \<or> flag_extra_cia_modparams fl \<and> is_cia402 s then cia_enable_modparams env s else Inr []) (\<lambda>cia.
     bind_res (if strcmp_eq ty ''generic'' \<and> flag_generic_pdos fl then build_pdos env s else Inr []) (\<lambda>sms.
     bind_res (cli_params env s ty cms) (\<lambda>(cps, cms').
     let plain = strcmp_eq ty ''generic'' \<or> strcmp_eq ty ''basic_cia402'' in
     Inr (\<lparr>gl_idx = the (es_slave s), gl_type = ty,
           gl_vid = (if plain then the (es_vendor_id s) else []), gl_pid = (if plain then the (es_product_id s) else []),
           gl_name = ''D'' @ show_int (int seq), gl_comment = (if plain then es_device_name s else Some []),
           gl_modparams = mps @ cia @ cps, gl_sms = fixup_pin_names sms\<rparr>, cms')))))))"

definition add_to_master :: "string \<Rightarrow> gen_slave \<Rightarrow> gen_master list \<Rightarrow> gen_master list" where
  "add_to_master idx sc ms =
     (if list_ex (\<lambda>m. strcmp_eq (gm_idx m) idx) ms
      then map (\<lambda>m. if strcmp_eq (gm_idx m) idx then m\<lparr>gm_slaves := gm_slaves m @ [sc]\<rparr> else m) ms
      else ms @ [\<lparr>gm_idx = idx, gm_slaves = [sc]\<rparr>])"

fun make_slaves :: "gen_env \<Rightarrow> gen_flags \<Rightarrow> nat \<Rightarrow> ec_slave list \<Rightarrow> cli_modparam list \<Rightarrow> gen_master list \<Rightarrow>
    gen_fail + gen_master list \<times> cli_modparam list" where
  "make_slaves env fl seq [] cms ms = Inr (ms, cms)"
| "make_slaves env fl seq (s # ss) cms ms =
     bind_res (make_slave env fl (Suc seq) cms s) (\<lambda>(sc, cms').
       make_slaves env fl (Suc seq) ss cms' (add_to_master (the (es_master s)) sc ms))"

text \<open>\<open>strcmp\<close> compares the bytes as unsigned numbers.\<close>

fun strcmp_le :: "string \<Rightarrow> string \<Rightarrow> bool" where
  "strcmp_le [] t = True"
| "strcmp_le (c # s) [] = False"
| "strcmp_le (c # s) (d # t) = (if c = d then strcmp_le s t else char_code c < char_code d)"

fun master_insert :: "gen_master \<Rightarrow> gen_master list \<Rightarrow> gen_master list" where
  "master_insert m [] = [m]"
| "master_insert m (k # ks) = (if strcmp_le (gm_idx m) (gm_idx k) then m # k # ks else k # master_insert m ks)"

definition master_sort :: "gen_master list \<Rightarrow> gen_master list" where
  "master_sort ms = foldr master_insert ms []"

text \<open>The masters in their order, and the modparams a warning is printed for.\<close>

definition gen_config :: "gen_env \<Rightarrow> string list \<Rightarrow> gen_fail + gen_master list \<times> cli_modparam list" where
  "gen_config env argv =
     bind_res (parse_args argv default_flags) (\<lambda>fl.
     bind_res (gen_read_slaves env) (\<lambda>ss.
     bind_res (make_slaves env fl 0 ss (cli_modparams fl) []) (\<lambda>(ms, cms).
     Inr (master_sort ms, filter (\<lambda>c. cmp_applied c = 0) cms))))"

definition gen_main :: "gen_env \<Rightarrow> string list \<Rightarrow> gen_fail + string" where
  "gen_main env argv = bind_res (gen_config env argv) (\<lambda>(ms, cms). Inr (emit_masters ms))"

end
