(* ===== verification/ConfGenXml.thy ===== *)
theory ConfGenXml
  imports ConfGenOut
begin

text \<open>
  What the text of the generator means to the program that reads it, \<open>lcec_conf\<close>: the relation
  \<open>xml_reads\<close> says which calls of its handlers the XML parser makes for a text. It has the part
  of XML the generator uses: elements, empty elements, attributes between double quotes, comments and
  blanks. White space between elements gives no call, as \<open>lcec_conf\<close> has no handler for it.
\<close>

section \<open>XML text\<close>

definition xml_char :: "char \<Rightarrow> bool" where
  "xml_char c \<longleftrightarrow> in_class 32 126 c"

definition xml_name_ok :: "string \<Rightarrow> bool" where
  "xml_name_ok n \<longleftrightarrow> n \<noteq> [] \<and> list_all (\<lambda>c. in_class 97 122 c \<or> in_class 65 90 c) n"

text \<open>No markup in a value, and no two minus signs or a minus sign at the end in a comment.\<close>

definition value_char :: "char \<Rightarrow> bool" where
  "value_char c \<longleftrightarrow> xml_char c \<and> c \<noteq> CHR 0x22 \<and> c \<noteq> CHR ''<'' \<and> c \<noteq> CHR ''&''"

definition value_ok :: "string \<Rightarrow> bool" where
  "value_ok v \<longleftrightarrow> list_all value_char v"

fun no_dashes :: "string \<Rightarrow> bool" where
  "no_dashes [] \<longleftrightarrow> True"
| "no_dashes (c # s) \<longleftrightarrow> \<not> (c = CHR ''-'' \<and> (s = [] \<or> hd s = CHR ''-'')) \<and> no_dashes s"

definition comment_ok :: "string \<Rightarrow> bool" where
  "comment_ok s \<longleftrightarrow> list_all xml_char s \<and> no_dashes s"

definition attrs_ok :: "attrs \<Rightarrow> bool" where
  "attrs_ok ats \<longleftrightarrow> list_all (\<lambda>(n, v). xml_name_ok n \<and> value_ok v) ats \<and> distinct (map fst ats)"

definition attrs_text :: "attrs \<Rightarrow> string" where
  "attrs_text ats = concat (map (\<lambda>(n, v). emit_attr n v) ats)"

inductive xml_reads :: "string \<Rightarrow> xml_event list \<Rightarrow> bool" where
  xml_end: "xml_reads [] []"
| xml_blank: "xml_reads t evs \<Longrightarrow> c = CHR '' '' \<or> c = CHR 0x0A \<Longrightarrow> xml_reads (c # t) evs"
| xml_comment: "xml_reads t evs \<Longrightarrow> comment_ok c \<Longrightarrow> xml_reads (''<!--'' @ c @ ''-->'' @ t) evs"
| xml_open: "xml_reads t evs \<Longrightarrow> xml_name_ok n \<Longrightarrow> attrs_ok ats \<Longrightarrow>
    xml_reads (''<'' @ n @ attrs_text ats @ ''>'' @ t) (StartEl n ats # evs)"
| xml_empty: "xml_reads t evs \<Longrightarrow> xml_name_ok n \<Longrightarrow> attrs_ok ats \<Longrightarrow>
    xml_reads (''<'' @ n @ attrs_text ats @ ''/>'' @ t) (StartEl n ats # EndEl n # evs)"
| xml_close: "xml_reads t evs \<Longrightarrow> xml_name_ok n \<Longrightarrow> xml_reads (''</'' @ n @ ''>'' @ t) (EndEl n # evs)"

inductive_cases xml_reads_NilE: "xml_reads [] evs"

lemma xml_blanks: "xml_reads t evs \<Longrightarrow> set b \<subseteq> {CHR '' '', CHR 0x0A} \<Longrightarrow> xml_reads (b @ t) evs"
  by (induction b) (auto intro: xml_blank)

section \<open>The events of a configuration\<close>

definition entry_attrs :: "gen_entry \<Rightarrow> attrs" where
  "entry_attrs e =
     [(''idx'', ge_idx e), (''subIdx'', ge_subidx e), (''bitLen'', ge_bitlen e), (''halPin'', ge_halpin e), (''halType'', ge_haltype e)]"

definition entry_events :: "gen_entry \<Rightarrow> xml_event list" where
  "entry_events e = [StartEl ''pdoEntry'' (entry_attrs e), EndEl ''pdoEntry'']"

definition pdo_events :: "gen_pdo \<Rightarrow> xml_event list" where
  "pdo_events p = StartEl ''pdo'' [(''idx'', gd_idx p)] # concat (map entry_events (gd_entries p)) @ [EndEl ''pdo'']"

definition sm_events :: "gen_sm \<Rightarrow> xml_event list" where
  "sm_events sm =
     StartEl ''syncManager'' [(''idx'', gs_idx sm), (''dir'', gs_dir sm)] # concat (map pdo_events (gs_pdos sm)) @ [EndEl ''syncManager'']"

fun modparam_events :: "gen_modparam \<Rightarrow> xml_event list" where
  "modparam_events (MpParam n v) = [StartEl ''modParam'' [(''name'', n), (''value'', v)], EndEl ''modParam'']"
| "modparam_events _ = []"

definition slave_attrs :: "gen_slave \<Rightarrow> attrs" where
  "slave_attrs sc =
     [(''idx'', gl_idx sc), (''type'', gl_type sc)] @ (if gl_vid sc \<noteq> [] then [(''vid'', gl_vid sc)] else []) @
     (if gl_pid sc \<noteq> [] then [(''pid'', gl_pid sc)] else []) @ [(''name'', gl_name sc)]"

definition slave_events :: "gen_slave \<Rightarrow> xml_event list" where
  "slave_events sc =
     StartEl ''slave'' (slave_attrs sc) # concat (map sm_events (gl_sms sc)) @ concat (map modparam_events (gl_modparams sc)) @
     [EndEl ''slave'']"

definition master_events :: "gen_master \<Rightarrow> xml_event list" where
  "master_events m = StartEl ''master'' [(''idx'', gm_idx m)] # concat (map slave_events (gm_slaves m)) @ [EndEl ''master'']"

definition masters_events :: "gen_master list \<Rightarrow> xml_event list" where
  "masters_events ms = StartEl ''masters'' [] # concat (map master_events ms) @ [EndEl ''masters'']"

section \<open>Clean configurations\<close>

text \<open>The texts that come from outside as they are.\<close>

fun free_modparam_ok :: "gen_modparam \<Rightarrow> bool" where
  "free_modparam_ok (MpParam n v) \<longleftrightarrow> value_ok n \<and> value_ok v"
| "free_modparam_ok (MpComment c) \<longleftrightarrow> comment_ok ('' '' @ c @ '' '')"
| "free_modparam_ok MpBlank \<longleftrightarrow> True"

definition free_sms_ok :: "gen_sm list \<Rightarrow> bool" where
  "free_sms_ok sms \<longleftrightarrow>
     list_all (\<lambda>sm. list_all (\<lambda>p. comment_ok (gd_comment p) \<and> list_all (\<lambda>e. value_ok (ge_haltype e)) (gd_entries p)) (gs_pdos sm)) sms"

definition free_slave_ok :: "gen_slave \<Rightarrow> bool" where
  "free_slave_ok sc \<longleftrightarrow>
     value_ok (gl_type sc) \<and> (case gl_comment sc of None \<Rightarrow> True | Some c \<Rightarrow> comment_ok c) \<and>
     list_all free_modparam_ok (gl_modparams sc) \<and> free_sms_ok (gl_sms sc)"

text \<open>The texts the generator makes or takes out of the lines by class.\<close>

definition made_entry_ok :: "gen_entry \<Rightarrow> bool" where
  "made_entry_ok e \<longleftrightarrow> value_ok (ge_idx e) \<and> value_ok (ge_subidx e) \<and> value_ok (ge_bitlen e) \<and> value_ok (ge_halpin e)"

definition made_sms_ok :: "gen_sm list \<Rightarrow> bool" where
  "made_sms_ok sms \<longleftrightarrow>
     list_all (\<lambda>sm. value_ok (gs_idx sm) \<and> value_ok (gs_dir sm) \<and>
       list_all (\<lambda>p. value_ok (gd_idx p) \<and> list_all made_entry_ok (gd_entries p)) (gs_pdos sm)) sms"

definition made_slave_ok :: "gen_slave \<Rightarrow> bool" where
  "made_slave_ok sc \<longleftrightarrow>
     value_ok (gl_idx sc) \<and> value_ok (gl_vid sc) \<and> value_ok (gl_pid sc) \<and> value_ok (gl_name sc) \<and> made_sms_ok (gl_sms sc)"

section \<open>Reading back\<close>

lemma xml_concat:
  assumes "\<And>x t evs. x \<in> set xs \<Longrightarrow> xml_reads t evs \<Longrightarrow> xml_reads (f x @ t) (g x @ evs)" and "xml_reads t evs"
  shows "xml_reads (concat (map f xs) @ t) (concat (map g xs) @ evs)"
  using assms
proof (induction xs)
  case (Cons x xs)
  then have "xml_reads (concat (map f xs) @ t) (concat (map g xs) @ evs)" by simp
  then show ?case using Cons.prems(1) [of x] by simp
qed simp

lemma xml_nl: "xml_reads t evs \<Longrightarrow> xml_reads (nl @ t) evs"
  by (rule xml_blanks) (simp_all add: nl_def)

lemma attrs_text_simps: "attrs_text [] = []" "attrs_text ((n, v) # ats) = emit_attr n v @ attrs_text ats"
  "attrs_text (as @ bs) = attrs_text as @ attrs_text bs"
  by (simp_all add: attrs_text_def)

lemma element_names:
  "xml_name_ok ''masters''" "xml_name_ok ''master''" "xml_name_ok ''slave''" "xml_name_ok ''syncManager''" "xml_name_ok ''pdo''"
  "xml_name_ok ''pdoEntry''" "xml_name_ok ''modParam''"
  by code_simp+

lemma attr_names:
  "xml_name_ok ''idx''" "xml_name_ok ''subIdx''" "xml_name_ok ''bitLen''" "xml_name_ok ''halPin''" "xml_name_ok ''halType''"
  "xml_name_ok ''dir''" "xml_name_ok ''name''" "xml_name_ok ''value''" "xml_name_ok ''type''" "xml_name_ok ''vid''" "xml_name_ok ''pid''"
  by code_simp+


lemma xml_open_line:
  assumes "xml_reads t evs" and "xml_name_ok n" and "attrs_ok ats" and "set b \<subseteq> {CHR '' ''}"
  shows "xml_reads (b @ ''<'' @ n @ attrs_text ats @ ''>'' @ nl @ t) (StartEl n ats # evs)"
proof -
  have "xml_reads (''<'' @ n @ attrs_text ats @ ''>'' @ (nl @ t)) (StartEl n ats # evs)"
    by (rule xml_open [OF xml_nl [OF assms(1)] assms(2,3)])
  from xml_blanks [OF this, of b] assms(4) show ?thesis by auto
qed

lemma xml_empty_line:
  assumes "xml_reads t evs" and "xml_name_ok n" and "attrs_ok ats" and "set b \<subseteq> {CHR '' ''}"
  shows "xml_reads (b @ ''<'' @ n @ attrs_text ats @ ''/>'' @ nl @ t) (StartEl n ats # EndEl n # evs)"
proof -
  have "xml_reads (''<'' @ n @ attrs_text ats @ ''/>'' @ (nl @ t)) (StartEl n ats # EndEl n # evs)"
    by (rule xml_empty [OF xml_nl [OF assms(1)] assms(2,3)])
  from xml_blanks [OF this, of b] assms(4) show ?thesis by auto
qed

lemma xml_close_line:
  assumes "xml_reads t evs" and "xml_name_ok n" and "set b \<subseteq> {CHR '' ''}"
  shows "xml_reads (b @ ''</'' @ n @ ''>'' @ nl @ t) (EndEl n # evs)"
proof -
  have "xml_reads (''</'' @ n @ ''>'' @ (nl @ t)) (EndEl n # evs)" by (rule xml_close [OF xml_nl [OF assms(1)] assms(2)])
  from xml_blanks [OF this, of b] assms(3) show ?thesis by auto
qed

lemma xml_comment_line:
  assumes "xml_reads t evs" and "comment_ok c" and "set b \<subseteq> {CHR '' ''}"
  shows "xml_reads (b @ ''<!--'' @ c @ ''-->'' @ nl @ t) evs"
proof -
  have "xml_reads (''<!--'' @ c @ ''-->'' @ (nl @ t)) evs" by (rule xml_comment [OF xml_nl [OF assms(1)] assms(2)])
  from xml_blanks [OF this, of b] assms(3) show ?thesis by auto
qed

text \<open>The printed lines in the form of these rules.\<close>

lemma emit_entry_line:
  "emit_entry e @ t = ''          '' @ ''<'' @ ''pdoEntry'' @ attrs_text (entry_attrs e) @ ''/>'' @ nl @ t"
  by (simp add: emit_entry_def entry_attrs_def attrs_text_simps)

lemma emit_entry_reads:
  assumes "xml_reads t evs" and "made_entry_ok e" and "value_ok (ge_haltype e)"
  shows "xml_reads (emit_entry e @ t) (entry_events e @ evs)"
proof -
  have "attrs_ok (entry_attrs e)" using assms(2,3) by (simp add: attrs_ok_def entry_attrs_def attr_names made_entry_ok_def)
  from xml_empty_line [OF assms(1) element_names(6) this, of "''          ''"]
  show ?thesis unfolding emit_entry_line entry_events_def by simp
qed

lemma emit_pdo_lines:
  "emit_pdo p @ t = ''        '' @ ''<'' @ ''pdo'' @ attrs_text [(''idx'', gd_idx p)] @ ''>'' @ nl @
     (if gd_comment p \<noteq> [] then ''          '' @ ''<!--'' @ gd_comment p @ ''-->'' @ nl else []) @
     concat (map emit_entry (gd_entries p)) @ ''        '' @ ''</'' @ ''pdo'' @ ''>'' @ nl @ t"
  by (simp add: emit_pdo_def attrs_text_simps)

lemma emit_pdo_reads:
  assumes "xml_reads t evs" and "value_ok (gd_idx p)" and "comment_ok (gd_comment p)"
    and "\<forall>e\<in>set (gd_entries p). made_entry_ok e \<and> value_ok (ge_haltype e)"
  shows "xml_reads (emit_pdo p @ t) (pdo_events p @ evs)"
proof -
  have "xml_reads (''        '' @ ''</'' @ ''pdo'' @ ''>'' @ nl @ t) (EndEl ''pdo'' # evs)"
    by (rule xml_close_line [OF assms(1) element_names(5)]) simp
  then have "xml_reads (concat (map emit_entry (gd_entries p)) @ ''        '' @ ''</'' @ ''pdo'' @ ''>'' @ nl @ t)
      (concat (map entry_events (gd_entries p)) @ EndEl ''pdo'' # evs)"
    by (intro xml_concat) (use assms(4) emit_entry_reads in auto)
  then have "xml_reads ((if gd_comment p \<noteq> [] then ''          '' @ ''<!--'' @ gd_comment p @ ''-->'' @ nl else []) @
      concat (map emit_entry (gd_entries p)) @ ''        '' @ ''</'' @ ''pdo'' @ ''>'' @ nl @ t)
      (concat (map entry_events (gd_entries p)) @ EndEl ''pdo'' # evs)" (is "xml_reads ?t ?e")
    using xml_comment_line [OF _ assms(3), of _ _ "''          ''"] by simp
  from xml_open_line [OF this element_names(5), of "[(''idx'', gd_idx p)]" "''        ''"]
  show ?thesis unfolding emit_pdo_lines pdo_events_def using assms(2) by (simp add: attrs_ok_def attr_names)
qed

lemma emit_sm_lines:
  "emit_sm sm @ t =
     (if gs_pdos sm = [] then ''      '' @ ''<'' @ ''syncManager'' @ attrs_text [(''idx'', gs_idx sm), (''dir'', gs_dir sm)] @ ''/>'' @ nl @ t
      else ''      '' @ ''<'' @ ''syncManager'' @ attrs_text [(''idx'', gs_idx sm), (''dir'', gs_dir sm)] @ ''>'' @ nl @
        concat (map emit_pdo (gs_pdos sm)) @ ''      '' @ ''</'' @ ''syncManager'' @ ''>'' @ nl @ t)"
  by (simp add: emit_sm_def attrs_text_simps)

lemma emit_sm_reads:
  assumes "xml_reads t evs" and "made_sms_ok [sm]" and "free_sms_ok [sm]"
  shows "xml_reads (emit_sm sm @ t) (sm_events sm @ evs)"
proof -
  let ?a = "[(''idx'', gs_idx sm), (''dir'', gs_dir sm)]"
  have a: "attrs_ok ?a" using assms(2) by (simp add: attrs_ok_def attr_names made_sms_ok_def)
  have "xml_reads (emit_pdo p @ t') (pdo_events p @ evs')" if "p \<in> set (gs_pdos sm)" "xml_reads t' evs'" for p t' evs'
    using assms(2,3) that by (intro emit_pdo_reads) (auto simp: made_sms_ok_def free_sms_ok_def list_all_iff)
  moreover have "xml_reads (''      '' @ ''</'' @ ''syncManager'' @ ''>'' @ nl @ t) (EndEl ''syncManager'' # evs)"
    by (rule xml_close_line [OF assms(1) element_names(4)]) simp
  ultimately have "xml_reads (concat (map emit_pdo (gs_pdos sm)) @ ''      '' @ ''</'' @ ''syncManager'' @ ''>'' @ nl @ t)
      (concat (map pdo_events (gs_pdos sm)) @ EndEl ''syncManager'' # evs)"
    by (intro xml_concat) auto
  from xml_open_line [OF this element_names(4) a, of "''      ''"] xml_empty_line [OF assms(1) element_names(4) a, of "''      ''"]
  show ?thesis unfolding emit_sm_lines sm_events_def by simp
qed

lemma emit_modparam_lines:
  "emit_modparam (MpParam n v) @ t = ''      '' @ ''<'' @ ''modParam'' @ attrs_text [(''name'', n), (''value'', v)] @ ''/>'' @ nl @ t"
  "emit_modparam (MpComment c) @ t = ''      '' @ ''<!--'' @ ('' '' @ c @ '' '') @ ''-->'' @ nl @ t"
  "emit_modparam MpBlank @ t = ''      '' @ nl @ t"
  by (simp_all add: attrs_text_simps)

lemma emit_modparam_reads:
  assumes "xml_reads t evs" and "free_modparam_ok m"
  shows "xml_reads (emit_modparam m @ t) (modparam_events m @ evs)"
proof (cases m)
  case (MpParam n v)
  have "attrs_ok [(''name'', n), (''value'', v)]" using assms(2) by (simp add: MpParam attrs_ok_def attr_names)
  from xml_empty_line [OF assms(1) element_names(7) this, of "''      ''"]
  show ?thesis unfolding MpParam emit_modparam_lines by simp
next
  case (MpComment c)
  have "comment_ok ('' '' @ c @ '' '')" using assms(2) by (simp add: MpComment)
  from xml_comment_line [OF assms(1) this, of "''      ''"] show ?thesis unfolding MpComment emit_modparam_lines by simp
next
  case MpBlank
  from xml_blanks [OF xml_nl [OF assms(1)], of "''      ''"] show ?thesis unfolding MpBlank emit_modparam_lines by simp
qed

lemma emit_slave_lines:
  "emit_slave sc @ t =
     (if \<not> slave_has_children sc then ''    '' @ ''<'' @ ''slave'' @ attrs_text (slave_attrs sc) @ ''/>'' @ nl @ t
      else ''    '' @ ''<'' @ ''slave'' @ attrs_text (slave_attrs sc) @ ''>'' @ nl @
        (case gl_comment sc of None \<Rightarrow> [] | Some c \<Rightarrow> if c \<noteq> [] then ''      '' @ ''<!--'' @ c @ ''-->'' @ nl else []) @
        concat (map emit_sm (gl_sms sc)) @ concat (map emit_modparam (gl_modparams sc)) @ ''    '' @ ''</'' @ ''slave'' @ ''>'' @ nl @ t)"
  by (simp add: emit_slave_def slave_attrs_def attrs_text_simps split: option.splits)

lemma emit_slave_reads:
  assumes "xml_reads t evs" and "made_slave_ok sc" and "free_slave_ok sc"
  shows "xml_reads (emit_slave sc @ t) (slave_events sc @ evs)"
proof -
  have a: "attrs_ok (slave_attrs sc)" using assms(2,3)
    by (auto simp: attrs_ok_def slave_attrs_def attr_names made_slave_ok_def free_slave_ok_def)
  let ?c = "''    '' @ ''</'' @ ''slave'' @ ''>'' @ nl @ t"
  have "xml_reads ?c (EndEl ''slave'' # evs)" by (rule xml_close_line [OF assms(1) element_names(3)]) simp
  then have q: "xml_reads (concat (map emit_modparam (gl_modparams sc)) @ ?c) (concat (map modparam_events (gl_modparams sc)) @ EndEl ''slave'' # evs)"
    by (intro xml_concat) (use assms(3) emit_modparam_reads in \<open>auto simp: free_slave_ok_def list_all_iff\<close>)
  have "xml_reads (emit_sm sm @ t') (sm_events sm @ evs')" if "sm \<in> set (gl_sms sc)" "xml_reads t' evs'" for sm t' evs'
    using assms(2,3) that by (intro emit_sm_reads) (auto simp: made_slave_ok_def free_slave_ok_def made_sms_ok_def free_sms_ok_def list_all_iff)
  then have r: "xml_reads (concat (map emit_sm (gl_sms sc)) @ concat (map emit_modparam (gl_modparams sc)) @ ?c)
      (concat (map sm_events (gl_sms sc)) @ concat (map modparam_events (gl_modparams sc)) @ EndEl ''slave'' # evs)"
    by (rule xml_concat [OF _ q])
  have "xml_reads ((case gl_comment sc of None \<Rightarrow> [] | Some c \<Rightarrow> if c \<noteq> [] then ''      '' @ ''<!--'' @ c @ ''-->'' @ nl else []) @
      concat (map emit_sm (gl_sms sc)) @ concat (map emit_modparam (gl_modparams sc)) @ ?c)
      (concat (map sm_events (gl_sms sc)) @ concat (map modparam_events (gl_modparams sc)) @ EndEl ''slave'' # evs)"
    using r xml_comment_line [OF r, of _ "''      ''"] assms(3) by (auto simp: free_slave_ok_def split: option.splits)
  note o = xml_open_line [OF this element_names(3) a, of "''    ''"]
  have e: "slave_events sc = [StartEl ''slave'' (slave_attrs sc), EndEl ''slave'']" if "\<not> slave_has_children sc"
    using that by (simp add: slave_has_children_def slave_events_def)
  show ?thesis
  proof (cases "slave_has_children sc")
    case True
    then show ?thesis unfolding emit_slave_lines slave_events_def using o by simp
  next
    case False
    then show ?thesis unfolding emit_slave_lines e [OF False] using xml_empty_line [OF assms(1) element_names(3) a, of "''    ''"] by simp
  qed
qed

definition clean_masters :: "gen_master list \<Rightarrow> bool" where
  "clean_masters ms \<longleftrightarrow> list_all (\<lambda>m. value_ok (gm_idx m) \<and> list_all (\<lambda>sc. made_slave_ok sc \<and> free_slave_ok sc) (gm_slaves m)) ms"

lemma emit_master_lines:
  "emit_master m @ t = ''  '' @ ''<'' @ ''master'' @ attrs_text [(''idx'', gm_idx m)] @ ''>'' @ nl @
     concat (map emit_slave (gm_slaves m)) @ ''  '' @ ''</'' @ ''master'' @ ''>'' @ nl @ t"
  by (simp add: emit_master_def attrs_text_simps)

lemma emit_master_reads:
  assumes "xml_reads t evs" and "clean_masters [m]"
  shows "xml_reads (emit_master m @ t) (master_events m @ evs)"
proof -
  have "xml_reads (''  '' @ ''</'' @ ''master'' @ ''>'' @ nl @ t) (EndEl ''master'' # evs)"
    by (rule xml_close_line [OF assms(1) element_names(2)]) simp
  then have "xml_reads (concat (map emit_slave (gm_slaves m)) @ ''  '' @ ''</'' @ ''master'' @ ''>'' @ nl @ t)
      (concat (map slave_events (gm_slaves m)) @ EndEl ''master'' # evs)"
    by (intro xml_concat) (use assms(2) emit_slave_reads in \<open>auto simp: clean_masters_def list_all_iff\<close>)
  from xml_open_line [OF this element_names(2), of "[(''idx'', gm_idx m)]" "''  ''"]
  show ?thesis unfolding emit_master_lines master_events_def using assms(2) by (simp add: attrs_ok_def attr_names clean_masters_def)
qed

lemma emit_masters_lines:
  "emit_masters ms = [] @ ''<'' @ ''masters'' @ attrs_text [] @ ''>'' @ nl @
     concat (map emit_master ms) @ [] @ ''</'' @ ''masters'' @ ''>'' @ nl @ []"
  by (simp add: emit_masters_def attrs_text_simps)

lemma emit_masters_reads:
  assumes "clean_masters ms"
  shows "xml_reads (emit_masters ms) (masters_events ms)"
proof -
  have "xml_reads ([] @ ''</'' @ ''masters'' @ ''>'' @ nl @ []) [EndEl ''masters'']"
    by (rule xml_close_line [OF xml_end element_names(1)]) simp
  then have "xml_reads (concat (map emit_master ms) @ [] @ ''</'' @ ''masters'' @ ''>'' @ nl @ [])
      (concat (map master_events ms) @ [EndEl ''masters''])"
    by (intro xml_concat) (use assms emit_master_reads in \<open>auto simp: clean_masters_def list_all_iff\<close>)
  from xml_open_line [OF this element_names(1), of "[]" "[]"]
  show ?thesis unfolding emit_masters_lines masters_events_def by (simp add: attrs_ok_def)
qed

section \<open>One reading\<close>

text \<open>A text has at most one reading: names end at a character that is no letter, values at a quote, comments at two minus signs.\<close>

definition name_char :: "char \<Rightarrow> bool" where
  "name_char c \<longleftrightarrow> in_class 97 122 c \<or> in_class 65 90 c"

lemma xml_name_chars: "xml_name_ok n \<longleftrightarrow> n \<noteq> [] \<and> list_all name_char n"
  by (simp add: xml_name_ok_def name_char_def list_all_iff)

lemma span_unique:
  assumes "a @ r = b @ s" and "list_all P a" and "list_all P b" and "r = [] \<or> \<not> P (hd r)" and "s = [] \<or> \<not> P (hd s)"
  shows "a = b \<and> r = s"
proof -
  have t: "takeWhile P (x @ y) = x" if "list_all P x" "y = [] \<or> \<not> P (hd y)" for x y
    using that by (cases y) (auto simp: list_all_iff takeWhile_append)
  have "a = takeWhile P (a @ r)" by (rule t [OF assms(2,4), symmetric])
  also have "\<dots> = takeWhile P (b @ s)" by (simp only: assms(1))
  also have "\<dots> = b" by (rule t [OF assms(3,5)])
  finally have "a = b" .
  then show ?thesis using assms(1) by simp
qed

lemma not_name_chars: "\<not> name_char (CHR '' '')" "\<not> name_char (CHR 0x0A)" "\<not> name_char (CHR ''!'')" "\<not> name_char (CHR ''/'')"
  "\<not> name_char (CHR ''>'')" "\<not> name_char (CHR ''='')"
  by code_simp+

lemma value_no_quote: "value_ok v \<Longrightarrow> list_all (\<lambda>c. c \<noteq> CHR 0x22) v"
  by (auto simp: value_ok_def value_char_def list_all_iff)

definition tag_end :: "string \<Rightarrow> bool" where
  "tag_end r \<longleftrightarrow> (\<exists>c t. r = c # t \<and> (c = CHR ''>'' \<or> c = CHR ''/''))"

lemma attrs_unique:
  assumes "attrs_text as @ r = attrs_text bs @ s" and "tag_end r" and "tag_end s"
    and "list_all (\<lambda>(n, v). xml_name_ok n \<and> value_ok v) as" and "list_all (\<lambda>(n, v). xml_name_ok n \<and> value_ok v) bs"
  shows "as = bs \<and> r = s"
  using assms
proof (induction as arbitrary: bs)
  case Nil
  then show ?case by (cases bs) (auto simp: attrs_text_def emit_attr_def tag_end_def)
next
  case (Cons a as)
  obtain n v where a: "a = (n, v)" by fastforce
  obtain b bs' where bs: "bs = b # bs'" using Cons.prems(1-3) by (cases bs) (auto simp: a attrs_text_def emit_attr_def tag_end_def)
  obtain m w where b: "b = (m, w)" by fastforce
  have e: "n @ (CHR ''='' # CHR 0x22 # v @ CHR 0x22 # attrs_text as @ r) = m @ (CHR ''='' # CHR 0x22 # w @ CHR 0x22 # attrs_text bs' @ s)"
    using Cons.prems(1) by (simp add: a bs b attrs_text_simps emit_attr_def quote_def)
  have ok: "list_all name_char n" "list_all name_char m" "value_ok v" "value_ok w"
    using Cons.prems(4,5) by (simp_all add: a bs b xml_name_chars)
  have "n = m \<and> CHR ''='' # CHR 0x22 # v @ CHR 0x22 # attrs_text as @ r = CHR ''='' # CHR 0x22 # w @ CHR 0x22 # attrs_text bs' @ s"
    by (rule span_unique [OF e ok(1,2)]) (simp_all add: not_name_chars)
  then have nm: "n = m" and f: "v @ (CHR 0x22 # attrs_text as @ r) = w @ (CHR 0x22 # attrs_text bs' @ s)" by simp_all
  have "v = w \<and> CHR 0x22 # attrs_text as @ r = CHR 0x22 # attrs_text bs' @ s"
    by (rule span_unique [OF f value_no_quote [OF ok(3)] value_no_quote [OF ok(4)]]) simp_all
  then have vw: "v = w" and g: "attrs_text as @ r = attrs_text bs' @ s" by simp_all
  have "as = bs' \<and> r = s" by (rule Cons.IH [OF g Cons.prems(2,3)]) (use Cons.prems(4,5) bs in auto)
  then show ?case using nm vw by (simp add: a bs b)
qed

lemma tag_unique:
  assumes "n @ attrs_text as @ r = m @ attrs_text bs @ s" and "tag_end r" and "tag_end s"
    and "xml_name_ok n" and "xml_name_ok m" and "attrs_ok as" and "attrs_ok bs"
  shows "n = m \<and> as = bs \<and> r = s"
proof -
  have h: "attrs_text as @ r = [] \<or> \<not> name_char (hd (attrs_text as @ r))" if "tag_end r" for as r
    using that by (cases as) (auto simp: attrs_text_def emit_attr_def tag_end_def not_name_chars)
  have "n = m \<and> attrs_text as @ r = attrs_text bs @ s"
    by (rule span_unique [OF assms(1) _ _ h [OF assms(2)] h [OF assms(3)]]) (use assms(4,5) in \<open>simp_all add: xml_name_chars\<close>)
  moreover from this have "as = bs \<and> r = s" using assms by (intro attrs_unique) (simp_all add: attrs_ok_def)
  ultimately show ?thesis by simp
qed

lemma comment_unique:
  "no_dashes c \<Longrightarrow> no_dashes d \<Longrightarrow> c @ ''-->'' @ t = d @ ''-->'' @ u \<Longrightarrow> c = d \<and> t = u"
proof (induction c arbitrary: d)
  case Nil
  then show ?case by (cases d rule: no_dashes.cases; cases "tl d") auto
next
  case (Cons x c)
  show ?case
  proof (cases d)
    case Nil
    then show ?thesis using Cons.prems by (cases c) auto
  next
    case (Cons y d')
    then show ?thesis using Cons.IH [of d'] Cons.prems by auto
  qed
qed

lemma name_start: "xml_name_ok n \<Longrightarrow> \<exists>c s. n = c # s \<and> c \<noteq> CHR ''!'' \<and> c \<noteq> CHR ''/''"
  using not_name_chars by (cases n) (auto simp: xml_name_chars)

lemma xml_reads_blankD: "xml_reads (c # t) evs \<Longrightarrow> c = CHR '' '' \<or> c = CHR 0x0A \<Longrightarrow> xml_reads t evs"
  by (erule xml_reads.cases) auto

lemma xml_reads_commentD:
  assumes "xml_reads (''<!--'' @ c @ ''-->'' @ t) evs" and "comment_ok c"
  shows "xml_reads t evs"
  using assms(1)
proof (cases rule: xml_reads.cases)
  case (xml_comment u d)
  then show ?thesis using comment_unique [of c d t u] assms(2) by (simp add: comment_ok_def)
qed (auto dest!: name_start)

lemma xml_reads_openD:
  assumes "xml_reads (''<'' @ n @ attrs_text ats @ ''>'' @ t) evs" and "xml_name_ok n" and "attrs_ok ats"
  shows "\<exists>evs'. evs = StartEl n ats # evs' \<and> xml_reads t evs'"
  using assms(1)
proof (cases rule: xml_reads.cases)
  case (xml_open u evs' m bs)
  then show ?thesis using tag_unique [of n ats "''>'' @ t" m bs "''>'' @ u"] assms(2,3) by (simp add: tag_end_def)
next
  case (xml_empty u evs' m bs)
  then show ?thesis using tag_unique [of n ats "''>'' @ t" m bs "''/>'' @ u"] assms(2,3) by (simp add: tag_end_def)
qed (use name_start [OF assms(2)] in auto)

lemma xml_reads_emptyD:
  assumes "xml_reads (''<'' @ n @ attrs_text ats @ ''/>'' @ t) evs" and "xml_name_ok n" and "attrs_ok ats"
  shows "\<exists>evs'. evs = StartEl n ats # EndEl n # evs' \<and> xml_reads t evs'"
  using assms(1)
proof (cases rule: xml_reads.cases)
  case (xml_open u evs' m bs)
  then show ?thesis using tag_unique [of n ats "''/>'' @ t" m bs "''>'' @ u"] assms(2,3) by (simp add: tag_end_def)
next
  case (xml_empty u evs' m bs)
  then show ?thesis using tag_unique [of n ats "''/>'' @ t" m bs "''/>'' @ u"] assms(2,3) by (simp add: tag_end_def)
qed (use name_start [OF assms(2)] in auto)

lemma xml_reads_closeD:
  assumes "xml_reads (''</'' @ n @ ''>'' @ t) evs" and "xml_name_ok n"
  shows "\<exists>evs'. evs = EndEl n # evs' \<and> xml_reads t evs'"
  using assms(1)
proof (cases rule: xml_reads.cases)
  case (xml_close u evs' m)
  have e: "n @ CHR ''>'' # t = m @ CHR ''>'' # u" using xml_close by simp
  have "n = m \<and> CHR ''>'' # t = CHR ''>'' # u"
    using assms(2) xml_close by (intro span_unique [OF e, of name_char]) (simp_all add: xml_name_chars not_name_chars)
  then show ?thesis using xml_close by simp
qed (auto dest!: name_start)

lemma xml_reads_unique: "xml_reads t evs \<Longrightarrow> xml_reads t evs' \<Longrightarrow> evs' = evs"
proof (induction arbitrary: evs' rule: xml_reads.induct)
  case xml_end
  then show ?case by (auto elim: xml_reads_NilE)
next
  case (xml_blank t evs c)
  show ?case by (rule xml_blank.IH [OF xml_reads_blankD [OF xml_blank.prems xml_blank.hyps(2)]])
next
  case (xml_comment t evs c)
  show ?case by (rule xml_comment.IH [OF xml_reads_commentD [OF xml_comment.prems xml_comment.hyps(2)]])
next
  case (xml_open t evs n ats)
  obtain es where e: "evs' = StartEl n ats # es" "xml_reads t es"
    using xml_reads_openD [OF xml_open.prems xml_open.hyps(2,3)] by (elim exE conjE)
  show ?case unfolding e(1) by (simp only: xml_open.IH [OF e(2)])
next
  case (xml_empty t evs n ats)
  obtain es where e: "evs' = StartEl n ats # EndEl n # es" "xml_reads t es"
    using xml_reads_emptyD [OF xml_empty.prems xml_empty.hyps(2,3)] by (elim exE conjE)
  show ?case unfolding e(1) by (simp only: xml_empty.IH [OF e(2)])
next
  case (xml_close t evs n)
  obtain es where e: "evs' = EndEl n # es" "xml_reads t es"
    using xml_reads_closeD [OF xml_close.prems xml_close.hyps(2)] by (elim exE conjE)
  show ?case unfolding e(1) by (simp only: xml_close.IH [OF e(2)])
qed

end
