(* ===== verification/ConfGenSound.thy ===== *)
theory ConfGenSound
  imports ConfGenXml "HOL-Library.Multiset"
begin

text \<open>
  What the generator guarantees of the configuration it prints: which of its texts are safe to put
  into XML and to use as names, and how the slaves of the bus appear in it.
\<close>

section \<open>Character classes\<close>

named_theorems class_simps "what the character classes of the patterns are part of"

lemma class_value [class_simps]: "pin_char c \<Longrightarrow> value_char c" "re_hex c \<Longrightarrow> value_char c" "value_char (CHR ''-'')"
  by (auto simp: value_char_def xml_char_def pin_char_def re_hex_def re_lower_hex_def re_digit_def in_class_def char_code_def)

lemma class_hex [class_simps]: "re_digit c \<Longrightarrow> re_hex c" "re_lower_hex c \<Longrightarrow> re_hex c" "re_digit c \<Longrightarrow> pin_char c"
  "re_lower_hex c \<Longrightarrow> pin_char c"
  by (auto simp: re_hex_def re_lower_hex_def pin_char_def in_class_def)

lemma value_ok_class:
  "list_all re_digit s \<Longrightarrow> value_ok s" "list_all re_lower_hex s \<Longrightarrow> value_ok s" "list_all re_hex s \<Longrightarrow> value_ok s"
  by (auto simp: value_ok_def class_simps elim!: list.pred_mono_strong)

lemma value_ok_append: "value_ok (s @ t) \<longleftrightarrow> value_ok s \<and> value_ok t"
  by (simp add: value_ok_def)

lemma value_ok_0x: "value_ok (''0x'' @ s) \<longleftrightarrow> value_ok s"
  by (simp add: value_ok_def value_char_def xml_char_def in_class_def char_code_def)

section \<open>What the patterns capture\<close>

lemma re_litD: "re_lit p s = Some r \<Longrightarrow> s = p @ r"
  by (auto simp: re_lit_def split: if_splits) (metis append_take_drop_id)

lemma re_plusD: "re_plus cl s = Some (t, r) \<Longrightarrow> s = t @ r \<and> t \<noteq> [] \<and> list_all cl t"
  by (auto simp: re_plus_def list_all_iff dest: set_takeWhileD split: if_splits)

lemma re_slave_masterD: "re_slave_master line = Some (m, k) \<Longrightarrow> list_all re_digit m \<and> list_all re_digit k"
  by (auto simp: re_slave_master_def bind_eq_Some_conv dest!: re_plusD split: if_splits)

lemma re_hex_fieldD: "re_hex_field l line = Some h \<Longrightarrow> value_ok h"
  by (auto simp del: append_Cons simp: re_hex_field_def bind_eq_Some_conv value_ok_0x value_ok_class(3) dest!: re_plusD)

lemma re_pdo_smD: "re_pdo_sm line = Some n \<Longrightarrow> list_all re_digit n"
  by (auto simp: re_pdo_sm_def bind_eq_Some_conv dest!: re_plusD)

lemma re_pdo_pdoD: "re_pdo_pdo line = Some (kind, i, c) \<Longrightarrow> \<exists>h. i = ''0x'' @ h \<and> list_all re_lower_hex h"
  by (auto simp: re_pdo_pdo_def bind_eq_Some_conv dest!: re_plusD)

lemma re_pdo_entryD:
  "re_pdo_entry line = Some (i, b, n, c) \<Longrightarrow>
     \<exists>h. i = ''0x'' @ h \<and> h \<noteq> [] \<and> list_all re_lower_hex h \<and> b \<noteq> [] \<and> list_all re_lower_hex b \<and> n \<noteq> [] \<and> list_all re_digit n"
  by (auto simp: re_pdo_entry_def bind_eq_Some_conv dest!: re_plusD)

section \<open>Pin names\<close>

fun single_dashes :: "string \<Rightarrow> bool" where
  "single_dashes [] \<longleftrightarrow> True"
| "single_dashes (c # s) \<longleftrightarrow> (c = CHR ''-'' \<longrightarrow> s = [] \<or> hd s \<noteq> CHR ''-'') \<and> single_dashes s"

definition pin_ok :: "string \<Rightarrow> bool" where
  "pin_ok s \<longleftrightarrow> s \<noteq> [] \<and> list_all (\<lambda>c. pin_char c \<or> c = CHR ''-'') s \<and> single_dashes s"

lemma pin_char_dash [simp]: "\<not> pin_char (CHR ''-'')"
  by code_simp

lemma pin_chars_ok:
  "list_all (\<lambda>c. pin_char c \<or> c = CHR ''-'') (pin_chars b s) \<and> single_dashes (pin_chars b s) \<and>
   (b \<longrightarrow> pin_chars b s = [] \<or> hd (pin_chars b s) \<noteq> CHR ''-'') \<and> (\<not> b \<longrightarrow> s \<noteq> [] \<longrightarrow> pin_chars b s \<noteq> [])"
  by (induction b s rule: pin_chars.induct) auto

lemma pin_format_ok: "s \<noteq> [] \<Longrightarrow> pin_ok (pin_format_comment s)"
  using pin_chars_ok [of False "map c_tolower s"] by (simp add: pin_ok_def pin_format_comment_def)

lemma single_dashes_pin: "list_all pin_char s \<Longrightarrow> single_dashes s"
  by (induction s) auto

lemma single_dashes_append:
  "list_all pin_char s \<Longrightarrow> single_dashes (s @ CHR ''-'' # t) \<longleftrightarrow> single_dashes (CHR ''-'' # t)"
  by (induction s) auto

lemma pin_placeholder_ok:
  assumes "list_all re_lower_hex i" and "list_all re_lower_hex b" and "i \<noteq> []" and "b \<noteq> []"
  shows "pin_ok (''pin-'' @ i @ ''-'' @ b)"
proof -
  have p: "list_all pin_char i" "list_all pin_char b" using assms by (auto simp: class_simps elim!: list.pred_mono_strong)
  have "list_all pin_char ''pin''" by code_simp
  moreover have "hd i \<noteq> CHR ''-''" "hd b \<noteq> CHR ''-''" using p assms(3,4) by (cases i; cases b; auto)+
  ultimately have "single_dashes (''pin'' @ CHR ''-'' # (i @ CHR ''-'' # b))"
    using p assms(3,4) by (simp only: single_dashes_append) (simp add: single_dashes_append single_dashes_pin hd_append)
  moreover have "list_all (\<lambda>c. pin_char c \<or> c = CHR ''-'') (''pin-'' @ i @ ''-'' @ b)"
    using p by (auto simp: list_all_iff) code_simp+
  ultimately show ?thesis by (simp add: pin_ok_def)
qed

lemma pin_letters:
  "pin_char (CHR ''a'')" "pin_char (CHR ''b'')" "pin_char (CHR ''c'')" "pin_char (CHR ''d'')" "pin_char (CHR ''e'')"
  "pin_char (CHR ''f'')" "pin_char (CHR ''g'')" "pin_char (CHR ''h'')" "pin_char (CHR ''i'')" "pin_char (CHR ''j'')"
  "pin_char (CHR ''k'')" "pin_char (CHR ''l'')" "pin_char (CHR ''m'')" "pin_char (CHR ''n'')" "pin_char (CHR ''o'')"
  "pin_char (CHR ''p'')" "pin_char (CHR ''q'')" "pin_char (CHR ''r'')" "pin_char (CHR ''s'')" "pin_char (CHR ''t'')"
  "pin_char (CHR ''u'')" "pin_char (CHR ''v'')" "pin_char (CHR ''w'')" "pin_char (CHR ''x'')" "pin_char (CHR ''y'')"
  "pin_char (CHR ''z'')" "pin_char (CHR ''0'')" "pin_char (CHR ''1'')" "pin_char (CHR ''2'')" "pin_char (CHR ''3'')"
  "pin_char (CHR ''4'')" "pin_char (CHR ''5'')" "pin_char (CHR ''6'')" "pin_char (CHR ''7'')" "pin_char (CHR ''8'')"
  "pin_char (CHR ''9'')"
  by (simp_all add: pin_char_def re_digit_def in_class_def char_code_def)

lemma cia402_names_ok: "list_all (\<lambda>(k, v). pin_ok v) cia402_name_keys" "list_all (\<lambda>(i, s, v). pin_ok v) cia402_name_subs"
  by (simp_all add: cia402_name_keys_def cia402_name_subs_def pin_ok_def pin_letters)

lemma cia402_name_ok: "cia402_default_name i b = Some n \<Longrightarrow> pin_ok n"
  using cia402_names_ok
  by (auto simp: cia402_default_name_def cia402_find_def Let_def list_all_iff split: option.splits dest!: map_of_SomeD find_SomeD)

lemma pin_ok_value: "pin_ok s \<Longrightarrow> value_ok s"
  by (auto simp: pin_ok_def value_ok_def list_all_iff class_simps)


section \<open>Process data\<close>

lemma make_entry_ok:
  assumes "list_all re_lower_hex i" and "i \<noteq> []" and "list_all re_lower_hex b" and "b \<noteq> []" and "list_all re_digit n"
  shows "made_entry_ok (make_entry s i b n c) \<and> pin_ok (ge_halpin (make_entry s i b n c))"
proof -
  have "pin_ok (ge_halpin (make_entry s i b n c))"
    using pin_format_ok [of c] cia402_name_ok [of i b] pin_placeholder_ok [OF assms(1,3,2,4)]
    by (auto simp: make_entry_def split: option.splits)
  then show ?thesis using assms pin_ok_value value_ok_class by (simp add: made_entry_ok_def) (simp add: make_entry_def)
qed

text \<open>What every line keeps of the sync managers.\<close>

definition sms_inv :: "gen_sm list \<Rightarrow> bool" where
  "sms_inv sms \<longleftrightarrow> made_sms_ok sms \<and> (\<forall>n\<in>set (sm_pins sms). pin_ok n)"

definition gen_entry_inv :: "gen_entry \<Rightarrow> bool" where
  "gen_entry_inv e \<longleftrightarrow> made_entry_ok e \<and> pin_ok (ge_halpin e)"

definition gen_pdo_inv :: "gen_pdo \<Rightarrow> bool" where
  "gen_pdo_inv p \<longleftrightarrow> value_ok (gd_idx p) \<and> (\<forall>e\<in>set (gd_entries p). gen_entry_inv e)"

definition gen_sm_inv :: "gen_sm \<Rightarrow> bool" where
  "gen_sm_inv sm \<longleftrightarrow> value_ok (gs_idx sm) \<and> value_ok (gs_dir sm) \<and> (\<forall>p\<in>set (gs_pdos sm). gen_pdo_inv p)"

lemma sms_inv_iff: "sms_inv sms \<longleftrightarrow> (\<forall>sm\<in>set sms. gen_sm_inv sm)"
  by (auto simp: sms_inv_def made_sms_ok_def sm_pins_def gen_sm_inv_def gen_pdo_inv_def gen_entry_inv_def list_all_iff)

lemma upd_last_inv: "\<forall>x\<in>set xs. P x \<Longrightarrow> (\<And>x. P x \<Longrightarrow> P (f x)) \<Longrightarrow> \<forall>x\<in>set (upd_last f xs). P x"
  by (induction xs) auto

lemma dirs_ok: "value_ok []" "value_ok ''in''" "value_ok ''out''"
  by code_simp+

lemma format_hex_0x: "xml_format_hex (''0x'' @ h) = h"
  by (simp add: xml_format_hex_def)

lemma build_pdos_line_cases:
  assumes "build_pdos_line s raw sms = Inr sms'"
  obtains (same) "sms' = sms"
    | (sm) n dir where "re_pdo_sm (rtrim raw) = Some n" and "dir \<in> {[], ''in'', ''out''}"
        and "sms' = sms @ [\<lparr>gs_idx = n, gs_dir = dir, gs_pdos = []\<rparr>]"
    | (pdo) kind i c where "re_pdo_pdo (rtrim raw) = Some (kind, i, c)" and "sms \<noteq> []" and "sms' = upd_last (add_pdo kind i c) sms"
    | (entry) i b n c where "re_pdo_entry (rtrim raw) = Some (i, b, n, c)" and "xml_format_hex i \<noteq> ''0000''" and "sms \<noteq> []"
        and "gs_pdos (last sms) \<noteq> []"
        and "sms' = upd_last (gs_pdos_update (upd_last (gd_entries_update (\<lambda>es. es @ [make_entry s (xml_format_hex i) b n c])))) sms"
proof (cases "re_pdo_sm (rtrim raw)")
  case (Some n)
  then show thesis using assms sm [of n "if n = ''0'' then ''in'' else if n = ''1'' then ''out'' else []"]
    by (simp add: build_pdos_line_def Let_def)
next
  case no_sm: None
  show thesis
  proof (cases "re_pdo_pdo (rtrim raw)")
    case (Some p)
    obtain kind i c where p: "p = (kind, i, c)" by (metis prod_cases3)
    show thesis using assms no_sm Some pdo [of kind i c] by (simp add: build_pdos_line_def Let_def p split: if_split_asm)
  next
    case no_pdo: None
    show thesis
    proof (cases "re_pdo_entry (rtrim raw)")
      case (Some e)
      obtain i b n c where e: "e = (i, b, n, c)" by (metis prod_cases4)
      show thesis using assms no_sm no_pdo Some same entry [of i b n c] by (simp add: build_pdos_line_def Let_def e split: if_split_asm)
    qed (use assms no_sm no_pdo same in \<open>simp add: build_pdos_line_def Let_def\<close>)
  qed
qed

lemma build_pdos_line_inv:
  assumes "build_pdos_line s raw sms = Inr sms'" and "sms_inv sms"
  shows "sms_inv sms'"
proof -
  have old: "\<forall>sm\<in>set sms. gen_sm_inv sm" using assms(2) by (simp add: sms_inv_iff)
  show ?thesis
    using assms(1)
  proof (cases rule: build_pdos_line_cases)
    case (sm n dir)
    have "value_ok n" using re_pdo_smD [OF sm(1)] value_ok_class(1) by blast
    moreover have "value_ok dir" using sm(2) dirs_ok by blast
    ultimately show ?thesis using old by (simp add: sm(3) sms_inv_iff gen_sm_inv_def)
  next
    case (pdo kind i c)
    obtain h where h: "i = ''0x'' @ h" "list_all re_lower_hex h" using re_pdo_pdoD [OF pdo(1)] by blast
    have v: "value_ok (xml_format_hex i)" unfolding h(1) format_hex_0x by (rule value_ok_class(2) [OF h(2)])
    have "gen_sm_inv (add_pdo kind i c sm)" if "gen_sm_inv sm" for sm using that v dirs_ok by (simp add: gen_sm_inv_def add_pdo_def gen_pdo_inv_def)
    then show ?thesis unfolding pdo(3) sms_inv_iff by (rule upd_last_inv [OF old])
  next
    case (entry i b n c)
    obtain h where h: "i = ''0x'' @ h" "h \<noteq> []" "list_all re_lower_hex h" "b \<noteq> []" "list_all re_lower_hex b" "list_all re_digit n"
      using re_pdo_entryD [OF entry(1)] by blast
    let ?e = "make_entry s (xml_format_hex i) b n c"
    have e: "gen_entry_inv ?e" using make_entry_ok [OF h(3,2,5,4,6), of s c] unfolding gen_entry_inv_def h(1) format_hex_0x .
    have p: "gen_pdo_inv (gd_entries_update (\<lambda>es. es @ [?e]) p)" if "gen_pdo_inv p" for p using that e by (simp add: gen_pdo_inv_def)
    have "gen_sm_inv (gs_pdos_update (upd_last (gd_entries_update (\<lambda>es. es @ [?e]))) sm)" if "gen_sm_inv sm" for sm
      using that upd_last_inv [of "gs_pdos sm" gen_pdo_inv, OF _ p] by (simp add: gen_sm_inv_def)
    then show ?thesis unfolding entry(5) sms_inv_iff by (rule upd_last_inv [OF old])
  qed (use assms(2) in simp)
qed

lemma build_pdos_inv:
  assumes "build_pdos env s = Inr sms"
  shows "sms_inv sms"
proof -
  obtain ls where "fold_res (build_pdos_line s) ls [] = Inr sms" using assms by (auto simp: build_pdos_def bind_res_eq_Inr)
  then show ?thesis by (rule fold_res_invariant [where P = sms_inv]) (simp add: sms_inv_iff, rule build_pdos_line_inv)
qed

lemma fixup_inv:
  assumes "sms_inv sms"
  shows "sms_inv (fixup_pin_names sms)"
proof -
  have "gen_entry_inv (fixup_entry ns pfx e)" if "gen_entry_inv e" for ns pfx e
  proof -
    have "pin_ok (pin_format_comment (pfx @ '' '' @ ge_halpin e))" by (rule pin_format_ok) simp
    then show ?thesis using that pin_ok_value by (simp add: gen_entry_inv_def fixup_entry_def made_entry_ok_def)
  qed
  then show ?thesis using assms by (auto simp: sms_inv_iff fixup_pin_names_def gen_sm_inv_def gen_pdo_inv_def)
qed

section \<open>Slaves\<close>

text \<open>What the lines say about a slave is made of digits, or is a hexadecimal number.\<close>

definition opt_ok :: "(string \<Rightarrow> bool) \<Rightarrow> string option \<Rightarrow> bool" where
  "opt_ok P v \<longleftrightarrow> (case v of None \<Rightarrow> True | Some t \<Rightarrow> P t)"

lemma opt_ok_simps [simp]: "opt_ok P None" "opt_ok P (Some t) \<longleftrightarrow> P t"
  by (simp_all add: opt_ok_def)

definition bus_slave_inv :: "ec_slave \<Rightarrow> bool" where
  "bus_slave_inv s \<longleftrightarrow>
     opt_ok (list_all re_digit) (es_master s) \<and> opt_ok (list_all re_digit) (es_slave s) \<and> opt_ok value_ok (es_vendor_id s) \<and>
     opt_ok value_ok (es_product_id s)"

lemma no_slave_inv: "bus_slave_inv no_slave"
  by (simp add: bus_slave_inv_def no_slave_def)

lemma bus_slave_inv_update:
  "bus_slave_inv s \<Longrightarrow> list_all re_digit m \<Longrightarrow> list_all re_digit k \<Longrightarrow> bus_slave_inv (s\<lparr>es_master := Some m, es_slave := Some k\<rparr>)"
  "bus_slave_inv s \<Longrightarrow> value_ok v \<Longrightarrow> bus_slave_inv (s\<lparr>es_vendor_id := Some v\<rparr>)"
  "bus_slave_inv s \<Longrightarrow> value_ok v \<Longrightarrow> bus_slave_inv (s\<lparr>es_product_id := Some v\<rparr>)"
  "bus_slave_inv s \<Longrightarrow> bus_slave_inv (s\<lparr>es_revision_no := r\<rparr>)" "bus_slave_inv s \<Longrightarrow> bus_slave_inv (s\<lparr>es_device_name := r\<rparr>)"
  by (simp_all add: bus_slave_inv_def)

lemma read_slaves_line_inv:
  assumes "bus_slave_inv cur" and "\<forall>s\<in>set arr. bus_slave_inv s"
  shows "bus_slave_inv (fst (read_slaves_line raw (cur, arr))) \<and> (\<forall>s\<in>set (snd (read_slaves_line raw (cur, arr))). bus_slave_inv s)"
proof (cases "re_slave_master (rtrim raw)")
  case (Some mk)
  obtain m k where mk: "mk = (m, k)" by fastforce
  show ?thesis using assms bus_slave_inv_update(1) no_slave_inv re_slave_masterD [of "rtrim raw" m k] Some
    by (simp add: read_slaves_line_def mk)
next
  case no_master: None
  show ?thesis
  proof (cases "re_slave_vendor (rtrim raw)")
    case (Some v)
    then have "value_ok v" using re_hex_fieldD unfolding re_slave_vendor_def by blast
    then show ?thesis using assms bus_slave_inv_update(2) no_master Some by (simp add: read_slaves_line_def)
  next
    case no_vendor: None
    show ?thesis
    proof (cases "re_slave_product (rtrim raw)")
      case (Some v)
      then have "value_ok v" using re_hex_fieldD unfolding re_slave_product_def by blast
      then show ?thesis using assms bus_slave_inv_update(3) no_master no_vendor Some by (simp add: read_slaves_line_def)
    next
      case None
      then show ?thesis using assms bus_slave_inv_update(4,5) no_slave_inv no_master no_vendor
        by (simp add: read_slaves_line_def Let_def split: option.split)
    qed
  qed
qed

lemma slaves_of_lines_inv:
  assumes "s \<in> set (slaves_of_lines ls)"
  shows "bus_slave_inv s"
proof -
  let ?P = "\<lambda>st. bus_slave_inv (fst st) \<and> (\<forall>s\<in>set (snd st). bus_slave_inv s)"
  have "?P (fold read_slaves_line ls (no_slave, []))"
  proof (rule fold_invariant [where Q = "\<lambda>_. True"])
    show "?P (no_slave, [])" using no_slave_inv by simp
    show "?P (read_slaves_line l st)" if "?P st" for l st using read_slaves_line_inv [of "fst st" "snd st" l] that by (cases st) simp
  qed simp
  then show ?thesis using assms by (simp add: slaves_of_lines_def)
qed

lemma read_sdos_same:
  assumes "read_sdos env s = Inr s'"
  shows "es_master s' = es_master s" "es_slave s' = es_slave s" "es_vendor_id s' = es_vendor_id s" "es_product_id s' = es_product_id s"
    "es_device_name s' = es_device_name s" "es_master s \<noteq> None" "es_slave s \<noteq> None"
proof -
  obtain args ls where r: "slave_args s ''sdos'' = Inr args" "s' = fold read_sdos_line ls s"
    using assms by (auto simp: read_sdos_def bind_res_eq_Inr)
  have "es_master (fold read_sdos_line ls t) = es_master t \<and> es_slave (fold read_sdos_line ls t) = es_slave t \<and>
      es_vendor_id (fold read_sdos_line ls t) = es_vendor_id t \<and> es_product_id (fold read_sdos_line ls t) = es_product_id t \<and>
      es_device_name (fold read_sdos_line ls t) = es_device_name t" for t
  proof (induction ls arbitrary: t)
    case (Cons l ls)
    then show ?case by (simp add: read_sdos_line_def sdo_put_def split: option.split)
  qed simp
  then show "es_master s' = es_master s" "es_slave s' = es_slave s" "es_vendor_id s' = es_vendor_id s" "es_product_id s' = es_product_id s"
    "es_device_name s' = es_device_name s" using r(2) by simp_all
  show "es_master s \<noteq> None" "es_slave s \<noteq> None" using r(1) by (auto simp: slave_args_def split: option.splits)
qed

lemma find_driver_set: "find_driver reg v p = Inr t \<Longrightarrow> v \<noteq> None \<and> p \<noteq> None"
  by (auto simp: find_driver_def split: option.splits)

lemma make_slave_fields:
  assumes "make_slave env fl seq cms s0 = Inr (sc, cms')"
  shows "es_master s0 \<noteq> None" and "es_slave s0 \<noteq> None" and "gl_idx sc = the (es_slave s0)" and "gl_name sc = ''D'' @ show_int (int seq)"
    and "\<exists>v p. es_vendor_id s0 = Some v \<and> es_product_id s0 = Some p \<and> gl_vid sc \<in> {v, []} \<and> gl_pid sc \<in> {p, []}"
    and "\<exists>sms. gl_sms sc = fixup_pin_names sms \<and> sms_inv sms"
proof -
  obtain s where s: "read_sdos env s0 = Inr s" using assms by (auto simp: make_slave_def)
  note same = read_sdos_same [OF s]
  show "es_master s0 \<noteq> None" "es_slave s0 \<noteq> None" by (rule same)+
  show "gl_idx sc = the (es_slave s0)" "gl_name sc = ''D'' @ show_int (int seq)"
    using assms same(2) by (auto simp: make_slave_def Let_def s)
  have "es_vendor_id s0 \<noteq> None \<and> es_product_id s0 \<noteq> None"
    using assms same(3,4) by (auto simp: make_slave_def s config_modparams_from_driver_def dest: find_driver_set)
  moreover have "gl_vid sc \<in> {the (es_vendor_id s0), []} \<and> gl_pid sc \<in> {the (es_product_id s0), []}"
    using assms same(3,4) by (auto simp: make_slave_def Let_def s)
  ultimately show "\<exists>v p. es_vendor_id s0 = Some v \<and> es_product_id s0 = Some p \<and> gl_vid sc \<in> {v, []} \<and> gl_pid sc \<in> {p, []}" by auto
  have "gl_sms sc \<in> fixup_pin_names ` {sms. build_pdos env s = Inr sms \<or> sms = []}"
    using assms by (auto simp: make_slave_def Let_def s split: if_split_asm)
  then show "\<exists>sms. gl_sms sc = fixup_pin_names sms \<and> sms_inv sms" using build_pdos_inv by (auto simp: sms_inv_iff)
qed

lemma re_digit_is_digit: "is_digit 10 c \<Longrightarrow> re_digit c"
  by (auto simp: is_digit_def digit_val_def re_digit_def in_class_def split: if_splits)

lemma show_int_digits: "0 \<le> i \<Longrightarrow> list_all re_digit (show_int i)"
  by (auto simp: show_int_def list_all_iff intro: re_digit_is_digit show_dec_digits)

lemma name_ok: "value_ok (''D'' @ show_int (int n))"
proof -
  have "value_ok ''D''" by code_simp
  then show ?thesis using value_ok_class(1) [OF show_int_digits [of "int n"]] by (simp only: value_ok_append)
qed

lemma made_slave:
  assumes "make_slave env fl seq cms s0 = Inr (sc, cms')" and "bus_slave_inv s0"
  shows "made_slave_ok sc"
proof -
  note f = make_slave_fields [OF assms(1)]
  obtain v p where v: "es_vendor_id s0 = Some v" "es_product_id s0 = Some p" "gl_vid sc \<in> {v, []}" "gl_pid sc \<in> {p, []}" using f(5) by blast
  obtain sms where sms: "gl_sms sc = fixup_pin_names sms" "sms_inv sms" using f(6) by blast
  have "value_ok (the (es_slave s0))" "value_ok v" "value_ok p" using assms(2) f(2) v(1,2) value_ok_class(1) by (auto simp: bus_slave_inv_def)
  moreover have "made_sms_ok (gl_sms sc)" using fixup_inv [OF sms(2)] by (simp add: sms(1) sms_inv_def)
  ultimately show ?thesis using f(3,4) v(3,4) name_ok dirs_ok(1) by (auto simp: made_slave_ok_def)
qed

section \<open>The slaves of a configuration\<close>

text \<open>
  The masters are an association list from the number of a master to its slaves; a slave is put
  behind the slaves of its master.
\<close>

definition slaves_of :: "string \<Rightarrow> gen_master list \<Rightarrow> gen_slave list" where
  "slaves_of idx ms = concat (map gm_slaves (filter (\<lambda>m. gm_idx m = idx) ms))"

lemma slaves_of_absent: "idx \<notin> gm_idx ` set ms \<Longrightarrow> slaves_of idx ms = []"
  by (force simp: slaves_of_def)

lemma slaves_of_Cons: "slaves_of idx (m # ms) = (if gm_idx m = idx then gm_slaves m else []) @ slaves_of idx ms"
  by (simp add: slaves_of_def)

lemma slaves_of_append: "slaves_of idx (ms @ ks) = slaves_of idx ms @ slaves_of idx ks"
  by (simp add: slaves_of_def)

lemma slaves_of_master: "distinct (map gm_idx ms) \<Longrightarrow> m \<in> set ms \<Longrightarrow> slaves_of (gm_idx m) ms = gm_slaves m"
proof (induction ms)
  case (Cons k ks)
  have "slaves_of (gm_idx k) ks = []" by (rule slaves_of_absent) (use Cons.prems(1) in simp)
  then show ?case using Cons by (auto simp: slaves_of_Cons)
qed simp

lemma add_to_master_spec:
  assumes "distinct (map gm_idx ms)"
  shows "distinct (map gm_idx (add_to_master idx sc ms)) \<and>
    gm_idx ` set (add_to_master idx sc ms) = insert idx (gm_idx ` set ms) \<and>
    slaves_of j (add_to_master idx sc ms) = slaves_of j ms @ (if j = idx then [sc] else [])"
proof (cases "idx \<in> gm_idx ` set ms")
  case True
  let ?f = "\<lambda>m. if gm_idx m = idx then m\<lparr>gm_slaves := gm_slaves m @ [sc]\<rparr> else m"
  have a: "add_to_master idx sc ms = map ?f ms" using True by (auto simp: add_to_master_def list_ex_iff)
  have i: "map gm_idx (map ?f ms) = map gm_idx ms" by (simp add: comp_def)
  obtain m ks ls where ms: "ms = ks @ m # ls" "gm_idx m = idx" using True by (metis imageE split_list)
  have n: "idx \<notin> gm_idx ` set ks" "idx \<notin> gm_idx ` set ls" using assms ms by auto
  have k: "map ?f ks = ks" "map ?f ls = ls" using n by (auto intro!: map_idI)
  have "slaves_of j (map ?f ms) = slaves_of j ms @ (if j = idx then [sc] else [])"
    using n slaves_of_absent [of idx ks] slaves_of_absent [of idx ls] ms(2)
    by (auto simp: ms(1) k slaves_of_append slaves_of_Cons)
  then show ?thesis using assms i True unfolding a by (metis insert_absorb list.set_map)
next
  case False
  then show ?thesis using assms slaves_of_absent [OF False]
    by (auto simp: add_to_master_def list_ex_iff slaves_of_append slaves_of_def)
qed

text \<open>What the configuration says of slave number \<open>n\<close>, and the slaves of a master with their numbers.\<close>

definition slave_entry :: "nat \<Rightarrow> ec_slave \<Rightarrow> string \<times> string" where
  "slave_entry n s = (the (es_slave s), ''D'' @ show_int (int n))"

fun master_entries :: "string \<Rightarrow> nat \<Rightarrow> ec_slave list \<Rightarrow> (string \<times> string) list" where
  "master_entries idx n [] = []"
| "master_entries idx n (s # ss) =
     (if es_master s = Some idx then [slave_entry (Suc n) s] else []) @ master_entries idx (Suc n) ss"

definition listed :: "gen_slave list \<Rightarrow> (string \<times> string) list" where
  "listed scs = map (\<lambda>sc. (gl_idx sc, gl_name sc)) scs"

lemma make_slaves_spec:
  assumes "make_slaves env fl n ss cms ms = Inr (ms', cms')" and "distinct (map gm_idx ms)"
  shows "distinct (map gm_idx ms') \<and> gm_idx ` set ms' = gm_idx ` set ms \<union> (the \<circ> es_master) ` set ss \<and>
    (\<forall>s\<in>set ss. es_master s \<noteq> None \<and> es_slave s \<noteq> None) \<and>
    (\<forall>idx. listed (slaves_of idx ms') = listed (slaves_of idx ms) @ master_entries idx n ss)"
  using assms
proof (induction ss arbitrary: n cms ms)
  case (Cons s ss)
  obtain sc cms1 where r: "make_slave env fl (Suc n) cms s = Inr (sc, cms1)"
    "make_slaves env fl (Suc n) ss cms1 (add_to_master (the (es_master s)) sc ms) = Inr (ms', cms')"
    using Cons.prems(1) by auto
  note f = make_slave_fields [OF r(1)]
  note a = add_to_master_spec [OF Cons.prems(2), of "the (es_master s)" sc]
  have d: "distinct (map gm_idx (add_to_master (the (es_master s)) sc ms))" using a by blast
  have e: "listed (slaves_of idx (add_to_master (the (es_master s)) sc ms)) =
      listed (slaves_of idx ms) @ (if es_master s = Some idx then [slave_entry (Suc n) s] else [])" for idx
    using a [of idx] f(1-4) by (auto simp: listed_def slave_entry_def)
  have i: "gm_idx ` set (add_to_master (the (es_master s)) sc ms) = insert (the (es_master s)) (gm_idx ` set ms)" using a by blast
  show ?case using Cons.IH [OF r(2) d] f(1,2) by (auto simp: e i)
qed simp

lemma make_slaves_inv:
  assumes "make_slaves env fl n ss cms ms = Inr (ms', cms')" and "\<forall>s\<in>set ss. bus_slave_inv s"
    and "\<And>n cms s sc cms'. make_slave env fl n cms s = Inr (sc, cms') \<Longrightarrow> bus_slave_inv s \<Longrightarrow> P sc"
    and "\<forall>m\<in>set ms. value_ok (gm_idx m) \<and> (\<forall>sc\<in>set (gm_slaves m). P sc)"
  shows "\<forall>m\<in>set ms'. value_ok (gm_idx m) \<and> (\<forall>sc\<in>set (gm_slaves m). P sc)"
  using assms(1,2,4)
proof (induction ss arbitrary: n cms ms)
  case (Cons s ss)
  obtain sc cms1 where r: "make_slave env fl (Suc n) cms s = Inr (sc, cms1)"
    "make_slaves env fl (Suc n) ss cms1 (add_to_master (the (es_master s)) sc ms) = Inr (ms', cms')"
    using Cons.prems(1) by auto
  have "P sc" using assms(3) [OF r(1)] Cons.prems(2) by simp
  moreover have "value_ok (the (es_master s))"
    using Cons.prems(2) make_slave_fields(1) [OF r(1)] value_ok_class(1) by (auto simp: bus_slave_inv_def)
  ultimately have "\<forall>m\<in>set (add_to_master (the (es_master s)) sc ms). value_ok (gm_idx m) \<and> (\<forall>sc\<in>set (gm_slaves m). P sc)"
    using Cons.prems(3) by (auto simp: add_to_master_def)
  then show ?case using Cons.IH [OF r(2)] Cons.prems(2) by simp
qed simp

section \<open>Order\<close>

lemma strcmp_le_total: "strcmp_le s t \<or> strcmp_le t s"
proof (induction s t rule: strcmp_le.induct)
  case (3 c s d t)
  have "char_code c = char_code d \<Longrightarrow> c = d" by (simp add: char_code_def)
  then show ?case using 3 by (cases "c = d") (auto simp: not_less order.strict_iff_order)
qed simp_all

lemma strcmp_le_trans: "strcmp_le s t \<Longrightarrow> strcmp_le t u \<Longrightarrow> strcmp_le s u"
proof (induction s t arbitrary: u rule: strcmp_le.induct)
  case (3 c s d t)
  then show ?case by (cases u) (auto split: if_splits)
qed auto

lemma master_insert_spec:
  "mset (master_insert m ks) = add_mset m (mset ks)"
  "sorted_wrt (\<lambda>a b. strcmp_le (gm_idx a) (gm_idx b)) ks \<Longrightarrow> sorted_wrt (\<lambda>a b. strcmp_le (gm_idx a) (gm_idx b)) (master_insert m ks)"
proof (induction ks)
  case (Cons k ks)
  have s: "set (master_insert m ks) = insert m (set ks)" for ks by (induction ks) auto
  { case 1 then show ?case using Cons.IH(1) by simp }
  { case 2
    then show ?case using Cons.IH(2) strcmp_le_total [of "gm_idx m" "gm_idx k"] by (auto simp: s intro: strcmp_le_trans) }
qed simp_all

lemma master_sort_spec:
  "mset (master_sort ms) = mset ms" "sorted_wrt (\<lambda>a b. strcmp_le (gm_idx a) (gm_idx b)) (master_sort ms)"
  by (induction ms) (simp_all add: master_sort_def master_insert_spec)

section \<open>The whole program\<close>

lemma gen_config_run:
  assumes "gen_config env argv = Inr (ms, w)"
  obtains fl ls ms0 cms where "parse_args argv default_flags = Inr fl" and "run_ethercat env ''-v slaves'' = Inr ls"
    and "make_slaves env fl 0 (slaves_of_lines ls) (cli_modparams fl) [] = Inr (ms0, cms)" and "ms = master_sort ms0"
  using assms by (auto simp: gen_config_def gen_read_slaves_def)

lemma set_master_sort: "set (master_sort ms) = set ms"
  by (metis master_sort_spec(1) set_mset_mset)

lemma gen_config_slaves:
  assumes "gen_config env argv = Inr (ms, w)"
    and "\<And>fl n cms s sc cms'. make_slave env fl n cms s = Inr (sc, cms') \<Longrightarrow> bus_slave_inv s \<Longrightarrow> P sc"
  shows "\<forall>m\<in>set ms. value_ok (gm_idx m) \<and> (\<forall>sc\<in>set (gm_slaves m). P sc)"
proof -
  obtain fl ls ms0 cms where r: "make_slaves env fl 0 (slaves_of_lines ls) (cli_modparams fl) [] = Inr (ms0, cms)" "ms = master_sort ms0"
    using gen_config_run [OF assms(1)] .
  have "\<forall>m\<in>set ms0. value_ok (gm_idx m) \<and> (\<forall>sc\<in>set (gm_slaves m). P sc)"
    by (rule make_slaves_inv [OF r(1)]) (use slaves_of_lines_inv assms(2) in auto)
  then show ?thesis by (simp add: r(2) set_master_sort)
qed

lemma gen_config_clean:
  assumes "gen_config env argv = Inr (ms, w)" and "\<forall>m\<in>set ms. \<forall>sc\<in>set (gm_slaves m). free_slave_ok sc"
  shows "clean_masters ms"
  using gen_config_slaves [OF assms(1), of made_slave_ok] made_slave assms(2) by (simp add: clean_masters_def list_all_iff)

lemma gen_config_pin_names:
  assumes "gen_config env argv = Inr (ms, w)"
  shows "\<forall>m\<in>set ms. \<forall>sc\<in>set (gm_slaves m). \<forall>n\<in>set (sm_pins (gl_sms sc)). pin_ok n"
proof -
  have "\<forall>n\<in>set (sm_pins (gl_sms sc)). pin_ok n" if "make_slave env fl n cms s = Inr (sc, cms')" for fl n cms s sc cms'
    using make_slave_fields(6) [OF that] fixup_inv by (auto simp: sms_inv_def)
  then show ?thesis using gen_config_slaves [OF assms, of "\<lambda>sc. \<forall>n\<in>set (sm_pins (gl_sms sc)). pin_ok n"] by blast
qed

lemma gen_config_structure:
  assumes "gen_config env argv = Inr (ms, w)" and "gen_read_slaves env = Inr ss"
  shows "sorted_wrt strcmp_le (map gm_idx ms)" and "distinct (map gm_idx ms)" and "set (map gm_idx ms) = (the \<circ> es_master) ` set ss"
    and "m \<in> set ms \<Longrightarrow> listed (gm_slaves m) = master_entries (gm_idx m) 0 ss"
proof -
  obtain fl ms0 cms where r: "make_slaves env fl 0 ss (cli_modparams fl) [] = Inr (ms0, cms)" "ms = master_sort ms0"
    using assms by (auto simp: gen_config_def)
  have e: "distinct (map gm_idx [])" by simp
  note s = make_slaves_spec [OF r(1) e]
  have d0: "distinct (map gm_idx ms0)" using s by simp
  have m: "mset (map gm_idx ms) = mset (map gm_idx ms0)" by (simp add: r(2) master_sort_spec)
  then show d: "distinct (map gm_idx ms)" using d0 by (metis mset_eq_imp_distinct_iff)
  show "sorted_wrt strcmp_le (map gm_idx ms)" using master_sort_spec(2) [of ms0] by (simp add: r(2) sorted_wrt_map)
  show "set (map gm_idx ms) = (the \<circ> es_master) ` set ss" using s by (simp add: r(2) set_master_sort)
  show "listed (gm_slaves m) = master_entries (gm_idx m) 0 ss" if "m \<in> set ms"
  proof -
    have "m \<in> set ms0" using that by (simp add: r(2) set_master_sort)
    then have "slaves_of (gm_idx m) ms0 = gm_slaves m" by (rule slaves_of_master [OF d0])
    moreover have "listed (slaves_of (gm_idx m) ms0) = listed (slaves_of (gm_idx m) []) @ master_entries (gm_idx m) 0 ss"
      using s by blast
    ultimately show ?thesis by (simp add: slaves_of_absent) (simp add: listed_def)
  qed
qed

end
