(* ===== verification/ConfGenAccept.thy ===== *)
theory ConfGenAccept
  imports ConfGenSound
begin

text \<open>
  The generator between its two neighbours: how the list of slaves is read out of the lines of the
  command line tool, and which of the process data entries it prints \<open>lcec_conf\<close> accepts.
\<close>

section \<open>Blocks of lines\<close>

text \<open>
  The tool prints one block of lines per slave: a header, lines with numbers, and in most cases a
  line with the name of the device and further lines.
\<close>

definition is_header :: "string \<Rightarrow> bool" where
  "is_header raw \<longleftrightarrow> re_slave_master (rtrim raw) \<noteq> None"

definition field_line :: "string \<Rightarrow> ec_slave \<Rightarrow> ec_slave" where
  "field_line raw s =
     (case re_slave_vendor (rtrim raw) of Some v \<Rightarrow> s\<lparr>es_vendor_id := Some v\<rparr>
      | None \<Rightarrow>
          (case re_slave_product (rtrim raw) of Some p \<Rightarrow> s\<lparr>es_product_id := Some p\<rparr>
           | None \<Rightarrow> (case re_slave_revision (rtrim raw) of Some r \<Rightarrow> s\<lparr>es_revision_no := Some r\<rparr> | None \<Rightarrow> s)))"

definition is_field :: "string \<Rightarrow> bool" where
  "is_field raw \<longleftrightarrow>
     re_slave_vendor (rtrim raw) \<noteq> None \<or> re_slave_product (rtrim raw) \<noteq> None \<or> re_slave_revision (rtrim raw) \<noteq> None"

definition is_name :: "string \<Rightarrow> bool" where
  "is_name raw \<longleftrightarrow> \<not> is_field raw \<and> re_slave_devname (rtrim raw) \<noteq> None"

record bus_block =
  bb_header :: string
  bb_fields :: "string list"
  bb_name :: "(string \<times> string list) option"

definition block_ok :: "bus_block \<Rightarrow> bool" where
  "block_ok b \<longleftrightarrow>
     is_header (bb_header b) \<and> list_all (\<lambda>l. \<not> is_header l \<and> \<not> is_name l) (bb_fields b) \<and>
     (case bb_name b of None \<Rightarrow> True
      | Some (d, ls) \<Rightarrow> \<not> is_header d \<and> is_name d \<and> list_all (\<lambda>l. \<not> is_header l \<and> \<not> is_field l \<and> \<not> is_name l) ls)"

definition block_lines :: "bus_block \<Rightarrow> string list" where
  "block_lines b = bb_header b # bb_fields b @ (case bb_name b of None \<Rightarrow> [] | Some (d, ls) \<Rightarrow> d # ls)"

definition block_slave :: "bus_block \<Rightarrow> ec_slave" where
  "block_slave b =
     (let (m, k) = the (re_slave_master (rtrim (bb_header b)));
          s = fold field_line (bb_fields b) (no_slave\<lparr>es_master := Some m, es_slave := Some k\<rparr>)
      in case bb_name b of None \<Rightarrow> s | Some (d, ls) \<Rightarrow> s\<lparr>es_device_name := re_slave_devname (rtrim d)\<rparr>)"

text \<open>A line is a header, a field, a name or nothing.\<close>

lemma not_header: "\<not> is_header l \<Longrightarrow> re_slave_master (rtrim l) = None"
  by (simp add: is_header_def del: not_None_eq)

lemma not_field:
  "\<not> is_field l \<Longrightarrow> re_slave_vendor (rtrim l) = None \<and> re_slave_product (rtrim l) = None \<and> re_slave_revision (rtrim l) = None"
  by (simp add: is_field_def del: not_None_eq)

lemma line_field:
  assumes "\<not> is_header l" and "\<not> is_name l"
  shows "read_slaves_line l (cur, arr) = (field_line l cur, arr)"
proof (cases "is_field l")
  case True
  then show ?thesis using not_header [OF assms(1)]
    by (auto simp: is_field_def read_slaves_line_def field_line_def Let_def split: option.split)
next
  case False
  then have "re_slave_devname (rtrim l) = None" using assms(2) by (simp add: is_name_def del: not_None_eq)
  then show ?thesis using not_header [OF assms(1)] not_field [OF False] by (simp add: read_slaves_line_def field_line_def Let_def)
qed

lemma line_other: "\<not> is_header l \<Longrightarrow> \<not> is_field l \<Longrightarrow> \<not> is_name l \<Longrightarrow> read_slaves_line l st = st"
  using not_field [of l] by (cases st) (simp add: line_field field_line_def)

lemma line_name:
  "\<not> is_header l \<Longrightarrow> is_name l \<Longrightarrow>
     read_slaves_line l (cur, arr) = (no_slave, arr @ [cur\<lparr>es_device_name := re_slave_devname (rtrim l)\<rparr>])"
  using not_header [of l] not_field [of l] by (auto simp: is_name_def read_slaves_line_def Let_def)

lemma line_header:
  "re_slave_master (rtrim l) = Some (m, k) \<Longrightarrow>
     read_slaves_line l (cur, arr) =
       ((if es_slave cur \<noteq> None then no_slave else cur)\<lparr>es_master := Some m, es_slave := Some k\<rparr>,
        if es_slave cur \<noteq> None then arr @ [cur] else arr)"
  by (simp add: read_slaves_line_def)

lemma lines_fields: "list_all (\<lambda>l. \<not> is_header l \<and> \<not> is_name l) ls \<Longrightarrow> fold read_slaves_line ls (cur, arr) = (fold field_line ls cur, arr)"
  by (induction ls arbitrary: cur) (auto simp: line_field)

lemma lines_others: "list_all (\<lambda>l. \<not> is_header l \<and> \<not> is_field l \<and> \<not> is_name l) ls \<Longrightarrow> fold read_slaves_line ls st = st"
  by (induction ls) (auto simp: line_other)

lemma field_line_slave: "es_slave (field_line l s) = es_slave s"
  by (simp add: field_line_def split: option.split)

lemma fold_field_line_slave: "es_slave (fold field_line ls s) = es_slave s"
  by (induction ls arbitrary: s) (simp_all add: field_line_slave)

text \<open>
  Between two blocks the slave being read is either empty or the one of the last block, which had no
  name; \<open>bus_state\<close> is the state after blocks.
\<close>

fun pending :: "bus_block list \<Rightarrow> ec_slave" where
  "pending [] = no_slave"
| "pending (b # bs) = (if bs \<noteq> [] then pending bs else if bb_name b = None then block_slave b else no_slave)"

definition complete :: "bus_block list \<Rightarrow> bus_block list" where
  "complete bs = (if bs \<noteq> [] \<and> bb_name (last bs) = None then butlast bs else bs)"

lemma pending_snoc: "pending (bs @ [b]) = (if bb_name b = None then block_slave b else no_slave)"
  by (induction bs) auto

lemma pending_slave: "es_slave (block_slave b) \<noteq> None"
  by (simp add: block_slave_def Let_def fold_field_line_slave split: prod.split option.split)

lemma read_block:
  assumes "block_ok b" and "cur = no_slave \<or> es_slave cur \<noteq> None"
  shows "fold read_slaves_line (block_lines b) (cur, arr) =
    (let arr' = (if cur = no_slave then arr else arr @ [cur]) in
     if bb_name b = None then (block_slave b, arr') else (no_slave, arr' @ [block_slave b]))"
proof -
  obtain m k where h: "re_slave_master (rtrim (bb_header b)) = Some (m, k)"
    using assms(1) by (auto simp: block_ok_def is_header_def)
  have n: "es_slave no_slave = None" by (simp add: no_slave_def)
  have f: "list_all (\<lambda>l. \<not> is_header l \<and> \<not> is_name l) (bb_fields b)" using assms(1) by (simp add: block_ok_def)
  note s = line_header [OF h] lines_fields [OF f]
  show ?thesis
  proof (cases "bb_name b")
    case None
    then show ?thesis using assms(2) n by (auto simp: block_lines_def block_slave_def s h)
  next
    case (Some dl)
    obtain d ls where dl: "dl = (d, ls)" by fastforce
    have "\<not> is_header d" "is_name d" "list_all (\<lambda>l. \<not> is_header l \<and> \<not> is_field l \<and> \<not> is_name l) ls"
      using assms(1) by (simp_all add: block_ok_def Some dl)
    then show ?thesis using assms(2) n by (auto simp: block_lines_def block_slave_def s h Some dl line_name lines_others)
  qed
qed

lemma read_blocks:
  assumes "list_all block_ok bs"
  shows "fold read_slaves_line (concat (map block_lines bs)) (no_slave, []) = (pending bs, map block_slave (complete bs))"
  using assms
proof (induction bs rule: rev_induct)
  case Nil
  then show ?case by (simp add: complete_def)
next
  case (snoc b bs)
  have b: "block_ok b" using snoc.prems by simp
  have n: "block_slave c \<noteq> no_slave" for c using pending_slave [of c] by (auto simp: no_slave_def)
  have p: "pending bs = no_slave \<or> es_slave (pending bs) \<noteq> None" using pending_slave by (induction bs) auto
  have "map block_slave (complete bs) @ (if pending bs = no_slave then [] else [pending bs]) = map block_slave bs"
  proof (cases bs rule: rev_cases)
    case (snoc cs c)
    then show ?thesis using n by (simp add: complete_def pending_snoc)
  qed (simp add: complete_def)
  then have arr: "(if pending bs = no_slave then map block_slave (complete bs) else map block_slave (complete bs) @ [pending bs]) = map block_slave bs"
    by (simp split: if_splits)
  have "fold read_slaves_line (concat (map block_lines (bs @ [b]))) (no_slave, []) =
      fold read_slaves_line (block_lines b) (pending bs, map block_slave (complete bs))"
    using snoc by simp
  also have "\<dots> = (if bb_name b = None then (block_slave b, map block_slave bs) else (no_slave, map block_slave bs @ [block_slave b]))"
    using read_block [OF b p] by (simp only: arr Let_def)
  finally show ?case by (simp add: pending_snoc complete_def)
qed

lemma slaves_of_blocks: "list_all block_ok bs \<Longrightarrow> slaves_of_lines (concat (map block_lines bs)) = map block_slave (complete bs)"
  by (simp add: slaves_of_lines_def read_blocks)

section \<open>Numbers of a process data entry\<close>

lemma digit_val_hex: "re_lower_hex c \<Longrightarrow> 0 \<le> digit_val c \<and> digit_val c < 16"
  by (auto simp: re_lower_hex_def re_digit_def in_class_def digit_val_def)

lemma digit_val_dec: "re_digit c \<Longrightarrow> 0 \<le> digit_val c \<and> digit_val c < 10"
  by (auto simp: re_digit_def in_class_def digit_val_def)

lemma digits_val_bound:
  "list_all (\<lambda>c. 0 \<le> digit_val c \<and> digit_val c < b) s \<Longrightarrow> 0 \<le> digits_val b s \<and> digits_val b s < b ^ length s"
proof (induction s rule: rev_induct)
  case (snoc c s)
  then have "0 \<le> digits_val b s" "digits_val b s \<le> b ^ length s - 1" "0 \<le> digit_val c" "digit_val c < b" by auto
  moreover from this have "digits_val b s * b \<le> (b ^ length s - 1) * b" by (simp add: mult_right_mono)
  ultimately show ?case by (simp add: digits_val_snoc algebra_simps)
qed (simp add: digits_val_def)

lemma scan_hex:
  assumes "list_all re_lower_hex s" and "s \<noteq> []"
  shows "scan_int 16 s = Some (False, digits_val 16 s, [])"
proof -
  obtain c r where s: "s = c # r" using assms(2) by (cases s) auto
  have c: "re_lower_hex c" using assms(1) by (simp add: s)
  have "\<not> c_isspace c" "c \<noteq> CHR ''-''" "c \<noteq> CHR ''+''"
    using c by (auto simp: c_isspace_def re_lower_hex_def re_digit_def in_class_def char_code_def)
  then have "dropWhile c_isspace s = s" "read_sign s = (False, s)" by (simp_all add: s read_sign_def)
  moreover have "\<not> has_hex_prefix s"
    using assms(1) by (auto simp: s has_hex_prefix_def re_lower_hex_def re_digit_def in_class_def char_code_def split: list.splits)
  moreover have tw: "takeWhile (is_digit 16) s = s"
    using assms(1) by (intro takeWhile_all) (auto simp: list_all_iff is_digit_def dest: digit_val_hex)
  ultimately show ?thesis using assms(2) by (simp add: scan_int_def Let_def tw)
qed

lemma strtol_hex:
  assumes "list_all re_lower_hex s" and "s \<noteq> []" and "length s \<le> 7"
  shows "s32 (fst (strtol 16 s)) = digits_val 16 s \<and> 0 \<le> digits_val 16 s"
proof -
  have "0 \<le> digits_val 16 s \<and> digits_val 16 s < 16 ^ length s"
    by (rule digits_val_bound) (use assms(1) in \<open>auto simp: list_all_iff dest: digit_val_hex\<close>)
  moreover have "(16::int) ^ length s \<le> 16 ^ 7" using assms(3) by (intro power_increasing) auto
  ultimately have v: "0 \<le> digits_val 16 s" "digits_val 16 s < 268435456" by simp_all
  then show ?thesis by (simp add: strtol_def scan_hex [OF assms(1,2)] clamp_s64_def in_s32_def)
qed

lemma scan_dec: "list_all re_digit s \<Longrightarrow> s \<noteq> [] \<Longrightarrow> scan_int 10 s = Some (False, digits_val 10 s, [])"
  by (rule scan_int_digits) (auto simp: list_all_iff is_digit_def dest: digit_val_dec)

lemma dec_numbers:
  assumes "list_all re_digit s" and "s \<noteq> []" and "length s \<le> 9"
  shows "atoi s = digits_val 10 s" "fst (strtoul 10 s) = digits_val 10 s" "0 \<le> digits_val 10 s"
proof -
  have "0 \<le> digits_val 10 s \<and> digits_val 10 s < 10 ^ length s"
    by (rule digits_val_bound) (use assms(1) in \<open>auto simp: list_all_iff dest: digit_val_dec\<close>)
  moreover have "(10::int) ^ length s \<le> 10 ^ 9" using assms(3) by (intro power_increasing) auto
  ultimately have v: "0 \<le> digits_val 10 s" "digits_val 10 s < 1000000000" by simp_all
  then show "atoi s = digits_val 10 s" "fst (strtoul 10 s) = digits_val 10 s" "0 \<le> digits_val 10 s"
    by (simp_all add: atoi_def strtol_def strtoul_def scan_dec [OF assms(1,2)] clamp_s64_def in_s32_def)
qed

section \<open>Entries that are accepted\<close>

text \<open>The types of objects the generator has a pin type for that \<open>lcec_conf\<close> knows.\<close>

definition known_types :: "string list" where
  "known_types = [''uint8'', ''uint16'', ''uint32'', ''int8'', ''int16'', ''int32'', ''bool'', ''float'', ''double'']"

definition read_haltype :: "string \<Rightarrow> int \<Rightarrow> hal_type \<times> pdoent_type" where
  "read_haltype ty bits =
     (if bits < 8 \<or> ty = ''bool'' \<and> bits = 1 then (HAL_BIT, lcecPdoEntTypeSimple)
      else if ty = ''int8'' \<or> ty = ''int16'' \<or> ty = ''int32'' then (HAL_S32, lcecPdoEntTypeSimple)
      else if ty = ''float'' \<or> ty = ''double'' then (HAL_FLOAT, if bits = 32 then lcecPdoEntTypeFloatIeee else lcecPdoEntTypeFloatDoubleIeee)
      else (HAL_U32, lcecPdoEntTypeSimple))"

definition haltype_known :: "string \<Rightarrow> int \<Rightarrow> bool" where
  "haltype_known ty bits \<longleftrightarrow> bits < 8 \<or> ty \<in> set known_types"

text \<open>The names of the pin types as the comparison sees them.\<close>

lemma lower_names:
  "map c_tolower ''bit'' = ''bit''" "map c_tolower ''s32'' = ''s32''" "map c_tolower ''u32'' = ''u32''"
  "map c_tolower ''float'' = ''float''" "map c_tolower ''float-unsigned'' = ''float-unsigned''" "map c_tolower ''complex'' = ''complex''"
  "map c_tolower ''float-ieee'' = ''float-ieee''" "map c_tolower ''float-double-ieee'' = ''float-double-ieee''"
  "map c_tolower ''u64'' = ''u64''" "map c_tolower ''s64'' = ''s64''" "map c_tolower ''BLANK'' = ''blank''"
  by code_simp+

lemma lower_bang: "map c_tolower (CHR ''!'' # s) = CHR ''!'' # map c_tolower s"
  by simp code_simp

lemma haltype_names:
  "pdoentry_haltype ''bit'' p = Inr (p\<lparr>pe_halType := HAL_BIT\<rparr>)"
  "pdoentry_haltype ''s32'' p = Inr (p\<lparr>pe_subType := lcecPdoEntTypeSimple, pe_halType := HAL_S32\<rparr>)"
  "pdoentry_haltype ''u32'' p = Inr (p\<lparr>pe_subType := lcecPdoEntTypeSimple, pe_halType := HAL_U32\<rparr>)"
  "pdoentry_haltype ''float-ieee'' p = Inr (p\<lparr>pe_subType := lcecPdoEntTypeFloatIeee, pe_halType := HAL_FLOAT\<rparr>)"
  "pdoentry_haltype ''float-double-ieee'' p = Inr (p\<lparr>pe_subType := lcecPdoEntTypeFloatDoubleIeee, pe_halType := HAL_FLOAT\<rparr>)"
  "pdoentry_haltype ''u64'' p = Inl (Stop ''Invalid pdoEntry halType'')" "pdoentry_haltype ''s64'' p = Inl (Stop ''Invalid pdoEntry halType'')"
  "pdoentry_haltype ''BLANK'' p = Inl (Stop ''Invalid pdoEntry halType'')"
  "pdoentry_haltype (CHR ''!'' # s) p = Inl (Stop ''Invalid pdoEntry halType'')"
  by (simp_all del: list.map add: pdoentry_haltype_def strcasecmp_eq_def lower_names lower_bang)

lemma pdoentry_haltype_known:
  assumes "haltype_known ty bits" and "pe_subType p = lcecPdoEntTypeSimple"
  shows "pdoentry_haltype (infer_haltype ty bits) p =
    Inr (p\<lparr>pe_subType := snd (read_haltype ty bits), pe_halType := fst (read_haltype ty bits)\<rparr>)"
proof -
  have "p\<lparr>pe_subType := lcecPdoEntTypeSimple\<rparr> = p" using assms(2) by simp
  then have b: "pdoentry_haltype ''bit'' p = Inr (p\<lparr>pe_subType := lcecPdoEntTypeSimple, pe_halType := HAL_BIT\<rparr>)"
    by (simp only: haltype_names)
  show ?thesis
  proof (cases "bits < 8")
    case True
    then show ?thesis by (simp add: infer_haltype_def read_haltype_def b)
  next
    case False
    then have "ty \<in> set known_types" using assms(1) by (simp add: haltype_known_def)
    then show ?thesis using False
      by (auto simp: known_types_def infer_haltype_def read_haltype_def b haltype_names)
  qed
qed

lemma pdoentry_haltype_unknown:
  assumes "\<not> haltype_known ty bits"
  shows "pdoentry_haltype (infer_haltype ty bits) p = Inl (Stop ''Invalid pdoEntry halType'')"
proof -
  have "take 63 (''!!'' @ ty @ ''!!'') = CHR ''!'' # take 62 (CHR ''!'' # ty @ ''!!'')" by simp
  then have "infer_haltype ty bits \<in> {''u64'', ''s64'', ''BLANK'', CHR ''!'' # take 62 (CHR ''!'' # ty @ ''!!'')}"
    using assms by (simp only: haltype_known_def known_types_def infer_haltype_def) simp
  then show ?thesis by (elim insertE emptyE) (simp_all only: haltype_names)
qed

text \<open>What the attributes the generator prints do to the token.\<close>

lemma pdoentry_attrs:
  "pdoentry_attr (''idx'', v) (fr, p) =
     (if s32 (fst (strtol 16 v)) < 0 \<or> s32 (fst (strtol 16 v)) \<ge> 65535 then Inl (Stop ''Invalid pdoEntry idx'')
      else Inr (fr, p\<lparr>pe_index := word_of_int (s32 (fst (strtol 16 v)))\<rparr>))"
  "pdoentry_attr (''subIdx'', v) (fr, p) =
     (if s32 (fst (strtol 16 v)) < 0 \<or> s32 (fst (strtol 16 v)) \<ge> 255 then Inl (Stop ''Invalid pdoEntry subIdx'')
      else Inr (fr, p\<lparr>pe_subindex := word_of_int (s32 (fst (strtol 16 v)))\<rparr>))"
  "pdoentry_attr (''bitLen'', v) (fr, p) =
     (if atoi v \<le> 0 \<or> atoi v > 255 then Inl (Stop ''Invalid pdoEntry bitLen'') else Inr (fr, p\<lparr>pe_bitLength := word_of_int (atoi v)\<rparr>))"
  "pdoentry_attr (''halType'', v) (fr, p) = bind_res (pdoentry_haltype v p) (\<lambda>p'. Inr (fr, p'))"
  "pdoentry_attr (''halPin'', v) (fr, p) = Inr (fr, p\<lparr>pe_halPin := conf_strncpy v\<rparr>)"
  by (simp_all add: pdoentry_attr_def Let_def LCEC_CONF_GENERIC_MAX_BITLEN_def)

definition read_entry :: "attrs \<Rightarrow> conf_fail + conf_pdoentry" where
  "read_entry ats = bind_res (fold_res pdoentry_attr ats (False, new_pdoentry)) (\<lambda>(fr, p). pdoentry_check fr p)"

lemma parsePdoEntryAttrs_read:
  "parsePdoEntryAttrs env ats st =
     bind_res (read_entry ats) (\<lambda>p.
     bind_res (add_item env (ItPdoEntry p) st) (\<lambda>st'.
     bind_res (conf_upd_slave (slave_add_pdoentry (pe_halPin p \<noteq> []))
                 (st'\<lparr>cf_currPdoEntry := Some (length (cf_items st)), cf_currComplexBitOffset := 0\<rparr>))
       (conf_upd_pdo (cp_pdoEntryCount_update Suc))))"
  by (cases "fold_res pdoentry_attr ats (False, new_pdoentry)") (auto simp: parsePdoEntryAttrs_def read_entry_def)

definition numbers_ok :: "gen_entry \<Rightarrow> bool" where
  "numbers_ok e \<longleftrightarrow>
     digits_val 16 (ge_idx e) < 65535 \<and> digits_val 16 (ge_subidx e) < 255 \<and>
     0 < digits_val 10 (ge_bitlen e) \<and> digits_val 10 (ge_bitlen e) \<le> 255"

definition entry_token :: "gen_entry \<Rightarrow> string \<Rightarrow> conf_pdoentry" where
  "entry_token e ty =
     new_pdoentry\<lparr>pe_index := word_of_int (digits_val 16 (ge_idx e)), pe_subindex := word_of_int (digits_val 16 (ge_subidx e)),
       pe_bitLength := word_of_int (digits_val 10 (ge_bitlen e)), pe_halPin := conf_strncpy (ge_halpin e),
       pe_subType := snd (read_haltype ty (digits_val 10 (ge_bitlen e))), pe_halType := fst (read_haltype ty (digits_val 10 (ge_bitlen e)))\<rparr>"

lemma word_neq:
  "0 \<le> i \<Longrightarrow> i < 65535 \<Longrightarrow> (word_of_int i :: u16) \<noteq> 65535" "0 \<le> i \<Longrightarrow> i < 255 \<Longrightarrow> (word_of_int i :: u8) \<noteq> 255"
  "0 < i \<Longrightarrow> i \<le> 255 \<Longrightarrow> (word_of_int i :: u8) \<noteq> 0"
  by (auto dest!: arg_cong [of _ _ uint] simp: uint_word_of_int)

lemma read_entry_iff:
  assumes h: "list_all re_lower_hex (ge_idx e)" "ge_idx e \<noteq> []" "length (ge_idx e) \<le> 7"
    and b: "list_all re_lower_hex (ge_subidx e)" "ge_subidx e \<noteq> []" "length (ge_subidx e) \<le> 7"
    and n: "list_all re_digit (ge_bitlen e)" "ge_bitlen e \<noteq> []" "length (ge_bitlen e) \<le> 9"
    and t: "ge_haltype e = infer_haltype ty (fst (strtoul 10 (ge_bitlen e)))"
  shows "read_entry (entry_attrs e) = Inr p \<longleftrightarrow>
    numbers_ok e \<and> haltype_known ty (digits_val 10 (ge_bitlen e)) \<and> p = entry_token e ty"
proof (cases "numbers_ok e")
  case False
  then show ?thesis using strtol_hex [OF h] strtol_hex [OF b] dec_numbers [OF n]
    by (auto simp: read_entry_def entry_attrs_def numbers_ok_def pdoentry_attrs)
next
  case True
  let ?p = "new_pdoentry\<lparr>pe_index := word_of_int (digits_val 16 (ge_idx e)), pe_subindex := word_of_int (digits_val 16 (ge_subidx e)),
       pe_bitLength := word_of_int (digits_val 10 (ge_bitlen e)), pe_halPin := conf_strncpy (ge_halpin e)\<rparr>"
  let ?t = "infer_haltype ty (digits_val 10 (ge_bitlen e))"
  have r: "read_entry (entry_attrs e) = bind_res (pdoentry_haltype ?t ?p) (pdoentry_check False)"
    using True strtol_hex [OF h] strtol_hex [OF b] dec_numbers [OF n]
    by (cases "pdoentry_haltype ?t ?p") (simp_all add: read_entry_def entry_attrs_def numbers_ok_def pdoentry_attrs t)
  have c: "pdoentry_check False (entry_token e ty) = Inr (entry_token e ty)"
    using True strtol_hex [OF h] strtol_hex [OF b] word_neq
    by (auto simp: pdoentry_check_def entry_token_def numbers_ok_def read_haltype_def)
  show ?thesis
  proof (cases "haltype_known ty (digits_val 10 (ge_bitlen e))")
    case known: True
    have "pdoentry_haltype ?t ?p = Inr (entry_token e ty)"
      by (subst pdoentry_haltype_known [OF known]) (simp_all add: new_pdoentry_def entry_token_def)
    then show ?thesis using r c True known by auto
  next
    case False
    then show ?thesis using r pdoentry_haltype_unknown by simp
  qed
qed

end
