(* ===== verification/SamplesGen.thy ===== *)
theory SamplesGen
  imports ConfGenAccept Samples
begin

text \<open>A bus with two masters for the configuration generator: what the tool prints for each command.\<close>

definition sample_bus_a :: bus_block where
  "sample_bus_a = \<lparr>bb_header = ''=== Master 2, Slave 0 ==='',
     bb_fields = [''Device: Main'', ''  Vendor Id:       0x00000099'', ''  Product code:    0x00000010''],
     bb_name = Some (''  Device name: Box'', [''  Flags:''])\<rparr>"

definition sample_bus_b :: bus_block where
  "sample_bus_b = \<lparr>bb_header = ''=== Master 10, Slave 0 ==='',
     bb_fields = [''  Vendor Id:       0x00000002'', ''  Product code:    0x00000009''],
     bb_name = Some (''  Device name: Drive'', [])\<rparr>"

definition sample_bus_c :: bus_block where
  "sample_bus_c = \<lparr>bb_header = ''=== Master 2, Slave 1 ==='', bb_fields = [''  Vendor Id:       0x00000002''], bb_name = None\<rparr>"

definition sample_bus_pdos :: "string list" where
  "sample_bus_pdos =
     [''SM3: PhysAddr 0x1180, DefaultSize'', ''  TxPDO 0x1a00 '' @ quote @ ''Inputs A'' @ quote,
      ''    PDO entry 0x6000:01, 16 bit, '' @ quote @ ''Value'' @ quote, ''    PDO entry 0x0000:00,  8 bit, '' @ quote @ ''Gap'' @ quote,
      ''  TxPDO 0x1a01 '' @ quote @ ''Inputs B'' @ quote, ''    PDO entry 0x6010:01, 16 bit, '' @ quote @ ''Value'' @ quote]"

definition sample_gen_env :: gen_env where
  "sample_gen_env =
     \<lparr>ge_run = (\<lambda>cmd.
        if cmd = ''ethercat -v slaves'' then Some (concat (map block_lines [sample_bus_a, sample_bus_b, sample_bus_c]))
        else if cmd = ''ethercat -m 2 sdos -p 0'' then Some [''SDO 0x6000'', ''  0x6000:01, r-r-r-, uint16, 16 bit, Value'']
        else if cmd = ''ethercat -m 2 pdos -p 0'' then Some sample_bus_pdos
        else Some []), ge_types = sample_types\<rparr>"

definition sample_gen_args :: "string list" where
  "sample_gen_args = [''-modparam'', ''gain=5'']"

definition sample_gen_box :: gen_slave where
  "sample_gen_box =
     \<lparr>gl_idx = ''0'', gl_type = ''generic'', gl_vid = ''0x00000099'', gl_pid = ''0x00000010'', gl_name = ''D1'', gl_comment = Some ''Box'',
      gl_modparams = [],
      gl_sms = [\<lparr>gs_idx = ''3'', gs_dir = ''in'',
        gs_pdos =
          [\<lparr>gd_idx = ''1a00'', gd_comment = ''Inputs A'',
            gd_entries = [\<lparr>ge_idx = ''6000'', ge_subidx = ''01'', ge_bitlen = ''16'', ge_halpin = ''a-value'', ge_haltype = ''u32''\<rparr>]\<rparr>,
           \<lparr>gd_idx = ''1a01'', gd_comment = ''Inputs B'',
            gd_entries = [\<lparr>ge_idx = ''6010'', ge_subidx = ''01'', ge_bitlen = ''16'', ge_halpin = ''b-value'', ge_haltype = ''BLANK''\<rparr>]\<rparr>]\<rparr>]\<rparr>"

definition sample_gen_drive :: gen_slave where
  "sample_gen_drive =
     \<lparr>gl_idx = ''0'', gl_type = ''EL9'', gl_vid = [], gl_pid = [], gl_name = ''D2'', gl_comment = Some [],
      gl_modparams = [MpParam ''gain'' ''5''], gl_sms = []\<rparr>"

definition sample_gen_masters :: "gen_master list" where
  "sample_gen_masters = [\<lparr>gm_idx = ''10'', gm_slaves = [sample_gen_drive]\<rparr>, \<lparr>gm_idx = ''2'', gm_slaves = [sample_gen_box]\<rparr>]"

lemma sample_gen_config: "gen_config sample_gen_env sample_gen_args = Inr (sample_gen_masters, [])"
  by code_simp

lemma sample_gen_free: "\<forall>m\<in>set sample_gen_masters. \<forall>sc\<in>set (gm_slaves m). free_slave_ok sc"
  by code_simp

lemma sample_gen_slaves:
  "gen_read_slaves sample_gen_env = Inr (map block_slave [sample_bus_a, sample_bus_b])"
  by code_simp

lemma sample_gen_blocks: "list_all block_ok [sample_bus_a, sample_bus_b, sample_bus_c]"
  by code_simp

end
