(* ===== verification/Spec2Isabelle.thy ===== *)
theory Spec2Isabelle
  imports SamplesDrivers SamplesGen
begin

text \<open>
  This development models the core of the LinuxCNC EtherCAT component: the program
  \<^verbatim>\<open>lcec_configgen\<close>, which prints an XML configuration for the slaves it finds on the bus, the
  user-space program \<^verbatim>\<open>lcec_conf\<close>, which reads the XML configuration and puts it into shared memory as a stream of
  tokens, and the real-time component \<^verbatim>\<open>lcec\<close>, which builds its masters and slaves from the
  stream and exchanges process data with them in every cycle of the servo thread.

  \<^bold>\<open>Theories and the code they model\<close> (files under \<^verbatim>\<open>src/\<close>).
  \<^item> \<^verbatim>\<open>LcecPrelude\<close>: results as sums, the monadic folds, list and word lemmas; \<^verbatim>\<open>CString\<close>: C strings,
    \<^verbatim>\<open>atoi\<close>, \<^verbatim>\<open>strtol\<close>, \<^verbatim>\<open>strcmp\<close>, \<^verbatim>\<open>strcasecmp\<close>, the terminated \<^verbatim>\<open>strncpy\<close>.
  \<^item> \<^verbatim>\<open>Lookup\<close> (\<^verbatim>\<open>lcec_lookup.c\<close>), \<^verbatim>\<open>ModParam\<close> (\<^verbatim>\<open>lcec_modparam.c\<close>, \<^verbatim>\<open>lcec_modparam_get\<close>),
    \<^verbatim>\<open>TypeRegistry\<close> (\<^verbatim>\<open>lcec_devicelist.c\<close>, \<^verbatim>\<open>lcec_devices.c\<close>): tables.
  \<^item> \<^verbatim>\<open>ConfUtil\<close> (\<^verbatim>\<open>lcec_conf_util.c\<close>): output blocks, the XML state machine, the hex reader;
    \<^verbatim>\<open>ConfData\<close> (\<^verbatim>\<open>lcec_conf.h\<close>): the tokens; \<^verbatim>\<open>ConfIcmds\<close> (\<^verbatim>\<open>lcec_conf_icmds.c\<close>): init command files;
    \<^verbatim>\<open>ConfParse\<close> (\<^verbatim>\<open>lcec_conf.c\<close>): every element handler, the state table and \<^verbatim>\<open>main\<close>.
  \<^item> \<^verbatim>\<open>MasterData\<close> (\<^verbatim>\<open>lcec.h\<close>): masters, slaves, Sync Units; \<^verbatim>\<open>ConfLoad\<close> (\<^verbatim>\<open>lcec_parse_config\<close> of
    \<^verbatim>\<open>lcec_main.c\<close>): the loader.
  \<^item> \<^verbatim>\<open>MasterRead\<close> and \<^verbatim>\<open>MasterWrite\<close> (\<^verbatim>\<open>lcec_read_master\<close>, \<^verbatim>\<open>lcec_write_master\<close>,
    \<^verbatim>\<open>lcec_activate_master\<close> and their callers): the cyclic task, each function returning the calls it
    makes and the new state.
  \<^item> \<^verbatim>\<open>BusRegs\<close>, \<^verbatim>\<open>Syncs\<close> and \<^verbatim>\<open>Sdo\<close> (\<^verbatim>\<open>lcec_ethercat.c\<close>): registration of process data entries, the
    builder of the sync manager tables, SDO access; \<^verbatim>\<open>HalExport\<close> (\<^verbatim>\<open>lcec_pins.c\<close> and the pin tables of
    \<^verbatim>\<open>lcec_main.c\<close>): HAL pins and parameters; \<^verbatim>\<open>BusData\<close>: access to process data over the macros
    of the EtherCAT master.
  \<^item> \<^verbatim>\<open>GenericDev\<close> and \<^verbatim>\<open>GenericPins\<close> (\<^verbatim>\<open>devices/lcec_generic.c\<close>): the driver of generic slaves.
  \<^item> \<^verbatim>\<open>MasterInit\<close> (\<^verbatim>\<open>rtapi_app_main\<close>, \<^verbatim>\<open>rtapi_app_exit\<close>, \<^verbatim>\<open>lcec_clear_config\<close>): start and end of the
    component, with every call to the EtherCAT master, HAL and the drivers in a log.
  \<^item> Device classes, the code the drivers share (files \<^verbatim>\<open>devices/lcec_class_*\<close>): \<^verbatim>\<open>EncDev\<close> (enc),
    \<^verbatim>\<open>ChannelBits\<close> (din, dout), \<^verbatim>\<open>ChannelAnalog\<close> (ain, aout), and for CiA 402 drives \<^verbatim>\<open>CiaTables\<close>
    (the macro lists), \<^verbatim>\<open>Cia402\<close> (options, sync managers, channels), \<^verbatim>\<open>CiaRatio\<close> and \<^verbatim>\<open>CiaParams\<close>
    (module parameters).
  \<^item> Drivers (\<^verbatim>\<open>devices/lcec_el*.c\<close>): \<^verbatim>\<open>DriverBase\<close> (static tables, registration, process data at the
    registered positions), \<^verbatim>\<open>DevCounter\<close> (the steps of a counter input), \<^verbatim>\<open>DevDrive\<close> (the output of a duty
    cycle), and \<^verbatim>\<open>DevEl5101\<close>, \<^verbatim>\<open>DevEl5151\<close>, \<^verbatim>\<open>DevEl5152\<close>, \<^verbatim>\<open>DevEl7342\<close>, one per driver, each with
    its tables, its init, read and write functions.

  \<^item> \<^verbatim>\<open>ConfGen\<close> and \<^verbatim>\<open>ConfGenOut\<close> (\<^verbatim>\<open>lcec_configgen.c\<close>): the generator, from the lines of the command
    line tool to the printed text; its regular expressions are written as functions, its arrays as lists.

  \<^bold>\<open>Interfaces.\<close> \<^verbatim>\<open>key_table\<close> (Lookup) is the contract of a table search; \<^verbatim>\<open>xml_table\<close> and
  \<^verbatim>\<open>xml_tree\<close> (ConfUtil) are what a handler table must keep for an invariant to hold over a whole
  document, interpreted for the init command table in IcmdSafety and for the configuration table
  in ConfSound; \<^verbatim>\<open>countdown\<close> (RuntimeSched) is a counter that fires every n cycles, interpreted for the
  Sync Units and for the reference clock; \<^verbatim>\<open>bounded_log\<close> (BusRegs) is a log with a limit,
  interpreted on the array of registered entries; \<^verbatim>\<open>table_export\<close> (HalExport) is the export of a
  table of HAL objects, interpreted for pins and for parameters; \<^verbatim>\<open>hw_counter\<close> (DevCounter) is a
  counter of 16 or 32 bits that a driver extends, interpreted for every driver with one.

  \<^bold>\<open>What is proved.\<close> ConfStream states what a well-formed token stream is; ConfSafety, ConfHandlers,
  IcmdSafety and ConfSound prove that every accepted document gives one, and ConfPipeline that the
  loader takes exactly such streams without leaving its arrays. RuntimeSched proves when Sync Units
  and the reference clock are served and that the master's mutex protects every bus call;
  RuntimeStats and RuntimeClock give the working counter statistics, the clock monitor and the two
  clock controllers. Syncs and SyncsOrder refine the sync manager tables to the layout a driver
  asks for; InitSound and InitRegs prove what a start cleans up when it fails and what it has
  registered when it succeeds. EncDev proves that the extended position follows the encoder over
  all overflows, ChannelBits and ChannelAnalog what a write puts where, CiaMapped that a drive only
  registers objects its sync managers map, CiaRatio that the continued fraction of a ratio ends
  with a good approximation. The theories of the drivers prove that the tables of a driver map what
  it registers, that its cycles never leave the process data, that its outputs are at their places
  on the bus, and that its counter follows the position. ConfGenXml says what a text means to an XML
  parser and that it means one thing only, ConfGenSound what the patterns of the generator capture,
  which names it makes and where a slave appears, and ConfGenAccept how the lines of the tool become
  slaves and which printed entries \<^verbatim>\<open>lcec_conf\<close> takes. Samples, SamplesBus, SamplesDev, SamplesDrivers
  and SamplesGen hold the concrete inputs the witnesses use.
  The properties are stated in this theory and numbered C1, C2, and so on.

  \<^bold>\<open>Conventions.\<close> Pointers into the token stream are positions in the list of tokens; linked lists
  are lists in list order; \<^verbatim>\<open>uint32_t\<close> and \<^verbatim>\<open>uint8_t\<close> are words; \<^verbatim>\<open>int\<close> values are
  integers with the wrap-around written out (\<^verbatim>\<open>s32\<close>). An error return is the left side of a sum.
  Expat, the EtherCAT master library, HAL memory and the drivers' functions are
  arguments of the definitions (\<^verbatim>\<open>conf_env\<close>, \<^verbatim>\<open>load_env\<close>, \<^verbatim>\<open>rt_env\<close>, \<^verbatim>\<open>init_env\<close>, \<^verbatim>\<open>sdo_env\<close>, \<^verbatim>\<open>hal_env\<close>, \<^verbatim>\<open>ec_macros\<close>), as
  is the tool the generator calls (\<^verbatim>\<open>gen_env\<close>). No definition uses
  fuel: every loop of the modelled code is a recursion over its data but one, the loop of the ratio
  decoder, which is a partial function whose result \<^verbatim>\<open>ratio_decoder_terminates\<close> proves to exist. Floating-point values are
  reals, and every result of an operation goes through a rounding function.

  \<^bold>\<open>Not modelled.\<close> Message texts, the HAL set-up of \<^verbatim>\<open>lcec_conf\<close>, the allocation wrappers (they end
  the process when memory is short), the AX5 device class, the creation of SDO requests, and the other device drivers,
  which repeat the patterns of those that are modelled.
\<close>

section \<open>From the document to the loaded configuration\<close>

text \<open>
  C1. A document \<open>lcec_conf\<close> accepts leaves a well-formed token stream in shared memory: the
  counts in the slave, sync manager and PDO tokens are those of the tokens behind them, every
  token stands where the loader has the pointers it needs, SDO and IDN tokens are followed by
  exactly the data bytes they announce, and the end mark closes the stream.
\<close>

theorem config_stream_valid:
  assumes "conf_main env shmem_ok file = Inr im" and "short_names (ev_types env)" and "icmd_files_balanced env"
  shows "valid_stream (ev_types env) (map snd (im_blocks im))"
  using assms by (rule conf_main_valid)

theorem config_stream_valid_witness:
  "valid_stream sample_types (map snd (im_blocks sample_image)) \<and> length (im_blocks sample_image) = 15"
proof
  show "valid_stream sample_types (map snd (im_blocks sample_image))"
    using config_stream_valid [OF sample_main sample_short sample_balanced] by (simp add: sample_env_def)
  show "length (im_blocks sample_image) = 15" by code_simp
qed

text \<open>
  C2. Loading the image of an accepted document never writes behind an array of a slave and
  never reads data bytes as a token or a token as data, whatever happens around it.
\<close>

theorem config_load_safe:
  assumes "conf_main env shmem_ok file = Inr im" and "short_names (ev_types env)" and "icmd_files_balanced env"
    and "le_types lenv = ev_types env"
  shows "lcec_parse_config lenv im \<noteq> Inl OutOfBounds \<and> lcec_parse_config lenv im \<noteq> Inl Misaligned"
proof -
  have "valid_stream (le_types lenv) (map snd (im_blocks im))"
    using conf_main_valid [OF assms(1-3)] assms(4) by simp
  from valid_stream_loads [OF this] show ?thesis
    by (auto simp: lcec_parse_config_def bind_res_split split: if_splits)
qed

theorem config_load_safe_witness:
  "lcec_parse_config sample_load_env sample_image \<noteq> Inl OutOfBounds \<and>
   (\<exists>m. lcec_parse_config sample_load_env sample_image = Inr ([m], 2))"
proof
  show "lcec_parse_config sample_load_env sample_image \<noteq> Inl OutOfBounds"
    using config_load_safe [OF sample_main sample_short sample_balanced, of sample_load_env]
    by (simp add: sample_load_env_def sample_env_def)
  have "case lcec_parse_config sample_load_env sample_image of Inr (ms, n) \<Rightarrow> length ms = 1 \<and> n = 2 | Inl _ \<Rightarrow> False"
    by code_simp
  then show "\<exists>m. lcec_parse_config sample_load_env sample_image = Inr ([m], 2)"
    by (auto split: sum.splits simp: length_Suc_conv)
qed

text \<open>
  C3. With the shared memory mapped and the drivers' pre-initialisation successful, the
  loader accepts the image of an accepted document exactly when slaves that name the same
  Sync Unit of a master give it the same cycle; this is the one check \<open>lcec_conf\<close> leaves out.
\<close>

theorem config_load_iff_units_agree:
  assumes "conf_main env shmem_ok file = Inr im" and "short_names (ev_types env)" and "icmd_files_balanced env"
    and "le_types lenv = ev_types env" and "le_shmem_header lenv" and "le_map_header lenv"
    and "le_shmem_full lenv" and "le_map_full lenv" and "\<And>p. le_preinit lenv p"
  shows "(\<exists>ms n. lcec_parse_config lenv im = Inr (ms, n)) \<longleftrightarrow>
    units_agree Map.empty (butlast (map snd (im_blocks im)))"
proof -
  have "valid_stream (le_types lenv) (map snd (im_blocks im))"
    using conf_main_valid [OF assms(1-3)] assms(4) by simp
  from valid_stream_loads [OF this] show ?thesis
    using conf_image_items [OF assms(1)] assms(5-9)
    by (auto simp: lcec_parse_config_def list_all_iff split: if_splits)
qed

theorem config_load_iff_units_agree_witness:
  "\<exists>ms n. lcec_parse_config sample_load_env sample_image = Inr (ms, n)"
  using config_load_iff_units_agree [OF sample_main sample_short sample_balanced, of sample_load_env] sample_units
  by (simp add: sample_load_env_def sample_env_def)

section \<open>Elements, attributes and values\<close>

text \<open>
  C4. No document with an \<^verbatim>\<open>idnConfig\<close> element is accepted: its handler tests the attribute
  name \<^verbatim>\<open>drive\<close> twice, so the required \<^verbatim>\<open>state\<close> attribute is always an error.
\<close>

theorem idn_config_never_accepted:
  assumes "conf_run env evs = Inr st"
  shows "StartEl ''idnConfig'' ats \<notin> set evs"
proof
  assume "StartEl ''idnConfig'' ats \<in> set evs"
  then obtain pre post where evs: "evs = pre @ StartEl ''idnConfig'' ats # post" by (auto simp: in_set_conv_decomp)
  have "xml_start_handler (conf_xml_states env) ''idnConfig'' ats i \<noteq> Inr j" for i j
    by (auto simp: xml_start_handler_def conf_xml_states_def conf_row_def parseIdnConfigAttrs_fails
        split: search.splits if_splits)
  with assms show False by (auto simp: evs conf_run_def xml_run_def fold_res_append)
qed

theorem idn_config_never_accepted_witness:
  "\<exists>st. conf_run sample_env sample_doc = Inr st \<and> StartEl ''idnConfig'' [] \<notin> set sample_doc"
proof -
  have "case conf_run sample_env sample_doc of Inr st \<Rightarrow> True | Inl _ \<Rightarrow> False" by code_simp
  then obtain st where "conf_run sample_env sample_doc = Inr st" by (auto split: sum.splits)
  with idn_config_never_accepted [OF this] show ?thesis by blast
qed



text \<open>
  C6. The hexadecimal reader inverts the two-digit notation: any bytes, written in any mixture
  with blanks between them, are read back unchanged.
\<close>

theorem parseHex_roundtrip:
  assumes "\<forall>(b, ws) \<in> set items. \<forall>c \<in> set ws. is_hex_blank c"
  shows "parseHex (concat (map (\<lambda>(b, ws). hex_byte b @ ws) items)) (-1) = Some (map fst items)"
proof -
  have "parse_hex_loop (concat (map (\<lambda>(b, ws). hex_byte b @ ws) items)) (-1) False tmp out = Some (out @ map fst items)"
    for tmp out
    using assms
    by (induction items arbitrary: tmp out) (auto simp: parse_hex_loop_byte parse_hex_loop_blanks)
  then show ?thesis by (simp add: parseHex_def)
qed

theorem parseHex_roundtrip_witness: "parseHex ''0aF0 '' (-1) = Some [10, 240]"
proof -
  have "parseHex (concat (map (\<lambda>(b, ws). hex_byte b @ ws) [(10, []), (240, '' '')])) (-1) = Some (map fst [(10, []), (240, '' '')])"
    by (rule parseHex_roundtrip) (simp add: is_hex_blank_def)
  moreover have "concat (map (\<lambda>(b, ws). hex_byte b @ ws) [(10, []), (240::u8, '' '')]) = ''0af0 ''"
    by (simp add: hex_byte_def hex_char_def)
  moreover have "parseHex ''0aF0 '' (-1) = parseHex ''0af0 '' (-1)"
    by (simp add: parseHex_def hex_nibble_def char_code_def is_hex_blank_def Let_def)
  ultimately show ?thesis by (simp only: list.map fst_conv)
qed


text \<open>
  C13. Merging documentation into module parameters keeps every parameter's name, number and
  type in place and gives it the last value and comment any documentation row of its name
  has, or its own; the nested loops are one pass.
\<close>

theorem merge_docs_one_pass:
  "lcec_modparam_desc_merge_docs a b =
     map (merged_row (case b of None \<Rightarrow> [] | Some docs \<Rightarrow> docs)) (case a of None \<Rightarrow> [] | Some rows \<Rightarrow> rows)"
  by (simp add: lcec_modparam_desc_merge_docs_def fold_merge_doc)

text \<open>
  In a table whose keys differ by more than case, the case-insensitive lookup finds a
  row under every spelling of its key and the exact lookup under the spelling of the table.
\<close>

lemma lookup_finds_row:
  assumes "distinct (map (\<lambda>row. map c_tolower (fst row)) t)" and "(k, v) \<in> set t" and "strcasecmp_eq k key"
  shows "lcec_lookupint_i t key d = v \<and> lcec_lookupint t k d = v"
proof -
  from assms(2) obtain pre post where t: "t = pre @ (k, v) # post" by (auto simp: in_set_conv_decomp)
  have no: "\<not> strcasecmp_eq k' k" if "(k', v') \<in> set pre" for k' v'
    using assms(1) that by (force simp: t strcasecmp_eq_def)
  have "\<not> strcasecmp_eq k' key" if "(k', v') \<in> set pre" for k' v'
    using no [OF that] assms(3) by (metis strcasecmp_eq_sym strcasecmp_eq_trans)
  then have "lcec_lookupint_i t key d = v" unfolding t using assms(3) by (metis lii.lookup_first)
  moreover have "lcec_lookupint t k d = v"
    unfolding t using no by (intro li.lookup_first) (auto simp: strcasecmp_eq_def)
  ultimately show ?thesis ..
qed

lemma lookup_finds_row_witness:
  "lcec_lookupint_i [(''Pt100'', 0), (''Ni100'', 1)] ''NI100'' (-1) = 1"
  using lookup_finds_row [of "[(''Pt100'', 0), (''Ni100'', 1)]" "''Ni100''" 1 "''NI100''" "-1"]
  by (simp add: strcasecmp_eq_def c_tolower_def char_code_def)

section \<open>The cyclic task\<close>

text \<open>
  C14. Over any number of thread cycles, with or without a late activation in them, every
  call to a domain, to the master's datagrams and to the clocks is made with the master's
  mutex held, the drivers and the activation run without it, and the mutex is never taken
  twice nor left held.
\<close>

theorem cycles_mutex_discipline:
  assumes "lcec_cycles period gms es m = Some (tr, m')"
  shows "mutex_ok False (concat (map (\<lambda>(r, w). r @ w) tr))"
  using assms by (rule lcec_cycles_mutex)

theorem cycles_mutex_discipline_witness:
  "\<exists>tr m'. lcec_cycles 1000000 zero_master_state [(sample_rt, sample_rt)] (sample_master\<lparr>ma_activated := False\<rparr>) = Some (tr, m') \<and>
     mutex_ok False (concat (map (\<lambda>(r, w). r @ w) tr)) \<and> length (snd (tr ! 0)) = 17"
proof -
  let ?r = "lcec_cycles 1000000 zero_master_state [(sample_rt, sample_rt)] (sample_master\<lparr>ma_activated := False\<rparr>)"
  have "case ?r of Some (tr, m') \<Rightarrow> length (snd (tr ! 0)) = 17 | None \<Rightarrow> False" by code_simp
  then obtain tr m' where "?r = Some (tr, m')" "length (snd (tr ! 0)) = 17" by (auto split: option.splits)
  with cycles_mutex_discipline show ?thesis by blast
qed

text \<open>
  C15. Once all slaves have reached OP, the domain of a Sync Unit is queued for exchange in
  the cycles 0, d, 2d, ... of its divider d and in no other, and the read of the next cycle
  processes it exactly then.
\<close>

theorem sync_unit_schedule:
  assumes "lcec_cycles period gms es m = Some (tr, m')" and "ma_activated m" and "ma_sync_units_started m"
    and "Suc n < length es" and "j < length (ma_sync_units m)"
    and "0 < su_cycle_divider (ma_sync_units m ! j)" and "su_cycle_counter (ma_sync_units m ! j) = 0"
  shows "(CDomainQueue j \<in> set (snd (tr ! n)) \<longleftrightarrow> n mod unat (su_cycle_divider (ma_sync_units m ! j)) = 0) \<and>
    (CDomainProcess j \<in> set (fst (tr ! Suc n)) \<longleftrightarrow> n mod unat (su_cycle_divider (ma_sync_units m ! j)) = 0)"
proof -
  have "n < length es" using assms(4) by simp
  then show ?thesis
    using lcec_cycles_units(2) [OF assms(1-3) assms(4,5)] lcec_cycles_units(3) [OF assms(1-3) \<open>n < length es\<close> assms(5)]
      unit_counter_run [OF assms(6,7)] unit_queued_run by simp
qed

theorem sync_unit_schedule_witness:
  "\<exists>tr m'. lcec_cycles 1000000 zero_master_state (replicate 4 (sample_rt, sample_rt)) sample_master = Some (tr, m') \<and>
     CDomainQueue 0 \<in> set (snd (tr ! 2)) \<and> CDomainQueue 0 \<notin> set (snd (tr ! 1)) \<and> CDomainProcess 0 \<in> set (fst (tr ! 3))"
proof -
  let ?es = "replicate 4 (sample_rt, sample_rt)"
  have "case lcec_cycles 1000000 zero_master_state ?es sample_master of Some (tr, m') \<Rightarrow> True | None \<Rightarrow> False" by code_simp
  then obtain tr m' where r: "lcec_cycles 1000000 zero_master_state ?es sample_master = Some (tr, m')"
    by (auto split: option.splits)
  have m: "ma_activated sample_master" "ma_sync_units_started sample_master" "ma_sync_units sample_master = [sample_unit]"
    by (simp_all add: sample_master_def)
  have u: "su_cycle_divider sample_unit = 2" "su_cycle_counter sample_unit = 0" by code_simp+
  show ?thesis
    using r sync_unit_schedule [OF r m(1,2), of 1 0] sync_unit_schedule [OF r m(1,2), of 2 0] by (simp add: m(3) u)
qed

text \<open>
  Where the master is the clock source, the reference clock is set in the cycles 0, c,
  2c, ... of the configured number c of cycles and in no other.
\<close>

lemma reference_clock_schedule:
  assumes "lcec_cycles period gms es m = Some (tr, m')" and "ma_activated m" and "n < length es"
    and "ma_sync_to_ref_clock m = 0" and "0 < ma_sync_ref_cycles m" and "ma_sync_ref_cycles m < 2147483648"
    and "ma_sync_ref_cnt m = 0"
  shows "CSyncReferenceClock \<in> set (snd (tr ! n)) \<longleftrightarrow> int n mod ma_sync_ref_cycles m = 0"
proof -
  have "ref_source m" using assms(4-7) by (simp add: ref_source_def in_s32_def)
  then have "CSyncReferenceClock \<in> set (snd (tr ! n)) \<longleftrightarrow> n mod nat (ma_sync_ref_cycles m) = 0"
    using lcec_cycles_ref [OF assms(1-3)] ref_clock.fires_run [of m n] assms(7) by simp
  moreover obtain c where "ma_sync_ref_cycles m = int c" using assms(5) by (metis zero_le_imp_eq_int less_imp_le)
  ultimately show ?thesis by (simp add: zmod_int [symmetric])
qed

lemma reference_clock_schedule_witness:
  "\<exists>tr m'. lcec_cycles 1000000 zero_master_state (replicate 6 (sample_rt, sample_rt)) sample_master = Some (tr, m') \<and>
     CSyncReferenceClock \<in> set (snd (tr ! 5)) \<and> CSyncReferenceClock \<notin> set (snd (tr ! 4))"
proof -
  let ?es = "replicate 6 (sample_rt, sample_rt)"
  have "case lcec_cycles 1000000 zero_master_state ?es sample_master of Some (tr, m') \<Rightarrow> True | None \<Rightarrow> False" by code_simp
  then obtain tr m' where r: "lcec_cycles 1000000 zero_master_state ?es sample_master = Some (tr, m')"
    by (auto split: option.splits)
  have m: "ma_activated sample_master" "ma_sync_to_ref_clock sample_master = 0" "ma_sync_ref_cycles sample_master = 5"
    "ma_sync_ref_cnt sample_master = 0"
    by (simp_all add: sample_master_def)
  show ?thesis
    using r reference_clock_schedule [OF r m(1), of 5] reference_clock_schedule [OF r m(1), of 4] by (simp add: m)
qed

section \<open>Monitoring\<close>



text \<open>
  The working counter statistics are those of the exchanges from the first complete one
  on: their minimum, the number of changes between neighbours, and the last value.
\<close>

lemma wkc_statistics:
  assumes "\<not> hd_wkc_full_seen h" and "\<not> hd_wkc_reset h" and "wkc_seen xs \<noteq> []"
  shows "hd_wkc_min (wkc_run xs h) = Min (set (wkc_seen xs)) \<and>
    hd_wkc_change_cnt (wkc_run xs h) = of_nat (changes (wkc_seen xs)) \<and>
    hd_wkc_last (wkc_run xs h) = last (wkc_seen xs)"
  using wkc_run_spec [OF assms(1,2)] assms(3) by blast

lemma wkc_statistics_witness:
  "hd_wkc_min (wkc_run [(1, EC_WC_INCOMPLETE), (3, EC_WC_COMPLETE), (2, EC_WC_INCOMPLETE), (3, EC_WC_COMPLETE)] zero_master_hal) = 2 \<and>
   hd_wkc_change_cnt (wkc_run [(1, EC_WC_INCOMPLETE), (3, EC_WC_COMPLETE), (2, EC_WC_INCOMPLETE), (3, EC_WC_COMPLETE)] zero_master_hal) = 2"
proof -
  let ?xs = "[(1, EC_WC_INCOMPLETE), (3, EC_WC_COMPLETE), (2, EC_WC_INCOMPLETE), (3, EC_WC_COMPLETE)]"
  have s: "wkc_seen ?xs = [3, 2, 3]" by (simp add: wkc_seen_def)
  have h: "\<not> hd_wkc_full_seen zero_master_hal" "\<not> hd_wkc_reset zero_master_hal" by (simp_all add: zero_master_hal_def)
  show ?thesis using wkc_statistics [OF h, of ?xs] unfolding s by simp
qed

text \<open>
  C17. The clock synchrony pins survive up to ten missing answers in a row with the last
  value measured; from the eleventh on they read not converged.
\<close>

theorem dc_sync_monitor_expires:
  assumes "hd_dc_sync_monitor h" and "d \<noteq> 0xFFFFFFFF"
  shows "hd_dc_sync_diff (dc_sync_run (d # replicate n 0xFFFFFFFF) h) = (if n \<le> 10 then d else 0xFFFFFFFF) \<and>
    (hd_dc_sync_converged (dc_sync_run (d # replicate n 0xFFFFFFFF) h) \<longleftrightarrow> n \<le> 10 \<and> d < hd_dc_sync_max h)"
  using dc_sync_run_spec [OF assms] by simp

theorem dc_sync_monitor_expires_witness:
  "hd_dc_sync_converged (dc_sync_run (12 # replicate 10 0xFFFFFFFF) (ma_hal sample_master)) \<and>
   \<not> hd_dc_sync_converged (dc_sync_run (12 # replicate 11 0xFFFFFFFF) (ma_hal sample_master))"
  using dc_sync_monitor_expires [of "ma_hal sample_master" 12 10] dc_sync_monitor_expires [of "ma_hal sample_master" 12 11]
  by (simp add: sample_master_def)

text \<open>
  The global pins after reading all masters: the responding slaves of the active masters
  added up, a state shown if some active master reports it, and the link only if there is a
  master and every active one has its link.
\<close>

lemma read_all_global_state:
  assumes "lcec_read_all envs period ms gh = (css, ms', gh')"
  shows "hd_slaves_responding gh' =
      (\<Sum>i\<leftarrow>filter (\<lambda>i. ma_activated (ms ! i)) [0..<length ms]. ms_slaves_responding (ma_ms (ms' ! i))) \<and>
    (hd_state_op gh' = (\<exists>i<length ms. ma_activated (ms ! i) \<and> ms_al_states (ma_ms (ms' ! i)) AND 8 \<noteq> 0)) \<and>
    (hd_link_up gh' = (ms \<noteq> [] \<and> (\<forall>i<length ms. ma_activated (ms ! i) \<longrightarrow> ms_link_up (ma_ms (ms' ! i)))))"
proof -
  let ?g0 = "\<lparr>ms_slaves_responding = 0, ms_al_states = 0, ms_link_up = (ms \<noteq> [])\<rparr>"
  let ?idx = "filter (\<lambda>i. ma_activated (ms ! i)) [0..<length ms]"
  have ms': "ms' = snd (snd (read_masters envs period 0 ?g0 ms))"
    and gh': "gh' = lcec_update_master_hal gh (fst (snd (read_masters envs period 0 ?g0 ms)))"
    using assms by (auto simp: lcec_read_all_def Let_def case_prod_unfold)
  have st: "read_ms (envs i) period (ms ! i) = ma_ms (ms' ! i)" if "i \<in> set ?idx" for i
    using that read_masters_ms [of i ms envs period 0 ?g0] by (simp add: ms')
  have resp: "map (\<lambda>i. ms_slaves_responding (read_ms (envs i) period (ms ! i))) ?idx =
      map (\<lambda>i. ms_slaves_responding (ma_ms (ms' ! i))) ?idx"
    using st by (intro map_cong refl) simp
  have "hd_slaves_responding gh' = (\<Sum>i\<leftarrow>?idx. ms_slaves_responding (ma_ms (ms' ! i)))"
    by (simp only: gh' read_masters_gms Let_def lcec_update_master_hal_def) (simp add: resp)
  moreover have "hd_state_op gh' = (\<exists>i<length ms. ma_activated (ms ! i) \<and> ms_al_states (ma_ms (ms' ! i)) AND 8 \<noteq> 0)"
    using st by (auto simp: gh' read_masters_gms Let_def lcec_update_master_hal_def fold_or_bit)
  moreover have "hd_link_up gh' = (ms \<noteq> [] \<and> (\<forall>i<length ms. ma_activated (ms ! i) \<longrightarrow> ms_link_up (ma_ms (ms' ! i))))"
    using st by (auto simp: gh' read_masters_gms Let_def lcec_update_master_hal_def)
  ultimately show ?thesis by blast
qed

lemma read_all_global_state_witness:
  "\<exists>css ms' gh'. lcec_read_all (\<lambda>_. sample_rt) 1000000 [sample_master, sample_master] zero_master_hal = (css, ms', gh') \<and>
     hd_link_up gh' \<and> hd_state_op gh' \<and> length css = 2"
proof -
  let ?r = "lcec_read_all (\<lambda>_. sample_rt) 1000000 [sample_master, sample_master] zero_master_hal"
  obtain css ms' gh' where r: "?r = (css, ms', gh')" by (cases ?r)
  have "case ?r of (css, ms', gh') \<Rightarrow> length css = 2 \<and> ms_link_up (ma_ms (ms' ! 0)) \<and> ms_link_up (ma_ms (ms' ! 1)) \<and>
      ms_al_states (ma_ms (ms' ! 0)) AND 8 \<noteq> 0" by code_simp
  moreover have "ma_activated sample_master" by (simp add: sample_master_def)
  ultimately show ?thesis
    using read_all_global_state [OF r] r by (auto simp: less_Suc_eq numeral_2_eq_2)
qed

section \<open>The clock controllers\<close>



text \<open>
  A resynchronisation counts itself, makes the next reads start over, and moves the
  reference by an amount that leaves at most half a period of the offset: whole periods where
  the offset has some, else the offset itself.
\<close>

lemma pll_resync_moves_reference:
  assumes "clock_control t (Some d) m = Some (cs, m')" and "ma_sync_to_ref_clock m \<noteq> 0" and "ma_dc_time_valid_last m"
    and "period_ok (uint (ma_app_time_period m))"
    and "raw = s32 (uint (ma_app_time_last m - d))" and "raw \<noteq> 0" and "\<not> ma_dc_time_valid_last m'"
  shows "hd_pll_reset_cnt (ma_hal m') = hd_pll_reset_cnt (ma_hal m) + 1 \<and>
    (\<exists>corr. ma_dc_ref m' = ma_dc_ref m - word_of_int corr \<and> \<bar>raw - corr\<bar> \<le> uint (ma_app_time_period m) div 2 \<and>
       (uint (ma_app_time_period m) dvd corr \<or> corr = raw))"
proof -
  obtain h' ref' v h cur where r: "m2r_control (ma_app_time_period m) raw cur (ma_dc_ref m) h = (h', ref', v)"
    and cnt: "hd_pll_reset_cnt h = hd_pll_reset_cnt (ma_hal m)"
    and m': "ma_hal m' = h'\<lparr>hd_pll_final := s32 (hd_pll_out h' + hd_pll_drift (ma_hal m))\<rparr>"
    and rv: "ma_dc_ref m' = ref'" "ma_dc_time_valid_last m' = v"
    unfolding assms(5) by (rule clock_control_m2r [OF assms(1-3)])
  from r assms(7) rv have r': "m2r_control (ma_app_time_period m) raw cur (ma_dc_ref m) h = (h', ref', False)" by simp
  have p: "0 < uint (ma_app_time_period m)" using assms(4) by (simp add: period_ok_def)
  show ?thesis
    using m2r_control_resync(1,2) [OF r' assms(4)] resync_corr_rest [OF p assms(6)] resync_corr_spec [OF p assms(6)]
    by (intro conjI exI [of _ "resync_corr (uint (ma_app_time_period m)) raw"]) (auto simp: m' rv cnt)
qed

lemma pll_resync_moves_reference_witness:
  "case clock_control 5000000 (Some 999000)
       (sample_master\<lparr>ma_sync_to_ref_clock := 1, ma_dc_time_valid_last := True, ma_app_time_last := 7400000\<rparr>) of
     Some (cs, m') \<Rightarrow> hd_pll_reset_cnt (ma_hal m') = 1 \<and> ma_dc_ref m' = - 6000000 | None \<Rightarrow> False"
proof -
  let ?m = "sample_master\<lparr>ma_sync_to_ref_clock := 1, ma_dc_time_valid_last := True, ma_app_time_last := 7400000\<rparr>"
  have e: "case clock_control 5000000 (Some 999000) ?m of Some (cs, m') \<Rightarrow> \<not> ma_dc_time_valid_last m' \<and> ma_dc_ref m' = - 6000000 | None \<Rightarrow> False"
    by code_simp
  then obtain cs m' where r: "clock_control 5000000 (Some 999000) ?m = Some (cs, m')"
    and v: "\<not> ma_dc_time_valid_last m'" "ma_dc_ref m' = - 6000000" by (auto split: option.splits)
  have "hd_pll_reset_cnt (ma_hal m') = 0 + 1"
    using pll_resync_moves_reference [OF r _ _ _ refl _ v(1)]
    by (simp add: sample_master_def zero_master_hal_def period_ok_def in_s32_def)
  then show ?thesis using v(2) by (simp add: r)
qed



text \<open>
  The lock pin lags the phase: while the phase stays within one hundredth of the period
  around the target, the correction is off from the first cycle, and the pin rises in the
  cycle after the dwell time and not before.
\<close>

lemma phase_lock_dwell:
  assumes "\<forall>c\<in>set curs. s32 \<bar>s32 (c - hd_phase_target h)\<bar> < c_div p 100" and "curs \<noteq> []"
    and "hd_phase_lock_cnt h = 0" and "\<not> hd_dc_phased h" and "0 \<le> hd_phase_lock_dwell h"
  shows "hd_pll_out (fold (phase_control p) curs h) = 0 \<and> hd_phase_locked (fold (phase_control p) curs h) \<and>
    (hd_dc_phased (fold (phase_control p) curs h) \<longleftrightarrow> hd_phase_lock_dwell h < int (length curs))"
  using phase_control_run_spec [OF assms(1,3-5)] assms(2) by (simp add: phase_control_run_def)

lemma phase_lock_dwell_witness:
  "hd_dc_phased (fold (phase_control 1000000) (replicate 201 500) (ma_hal sample_master)) \<and>
   \<not> hd_dc_phased (fold (phase_control 1000000) (replicate 200 500) (ma_hal sample_master))"
proof -
  let ?h = "ma_hal sample_master"
  have h: "hd_phase_lock_cnt ?h = 0" "\<not> hd_dc_phased ?h" "hd_phase_lock_dwell ?h = 200" "hd_phase_target ?h = 0"
    by (simp_all add: sample_master_def zero_master_hal_def)
  have w: "s32 \<bar>s32 (500 - 0)\<bar> < c_div 1000000 100" by (simp add: in_s32_def c_div_def)
  show ?thesis
    using phase_lock_dwell [of "replicate 201 500" ?h 1000000] phase_lock_dwell [of "replicate 200 500" ?h 1000000] h w
    by simp
qed

text \<open>
  The application time continues over the activation: the phase of the first cycle is the
  time that has passed since the activation (measured against the thread's reference where
  the reference clock is the source), reduced by whole periods.
\<close>

lemma activation_phase_continuous:
  assumes "lcec_activate_master ea m = (as, True, m1)" and "\<not> ma_activated m"
    and "write_cycle ew period m1 = Some (cs, m2)"
    and "elapsed = (if ma_sync_to_ref_clock m = 0 then en_now ew - en_now_act ea else en_now ew - en_pll_ref ew)"
    and "0 \<le> elapsed" and "elapsed < 2 ^ 64" and "period_ok (uint (ma_app_time_period m))"
  shows "hd_app_phase (ma_hal m2) = elapsed mod uint (ma_app_time_period m)"
proof -
  have u: "uint (word_of_int elapsed :: u64) = elapsed"
    using assms(5,6) by (simp add: uint_word_of_int)
  have a: "uint (ucast (ma_app_time_period m) :: u64) = uint (ma_app_time_period m)" by (simp add: uint_up_ucast is_up)
  have "0 \<le> elapsed mod uint (ma_app_time_period m)" "elapsed mod uint (ma_app_time_period m) < uint (ma_app_time_period m)"
    using assms(7) by (simp_all add: period_ok_def)
  then have s: "in_s32 (elapsed mod uint (ma_app_time_period m))"
    using assms(7) by (simp add: in_s32_def period_ok_def)
  have "hd_app_phase (ma_hal m2) = s32 (uint (word_of_int elapsed mod (ucast (ma_app_time_period m) :: u64)))"
    using activated_phase [OF assms(1-3)] by (simp add: assms(4))
  then show ?thesis by (simp add: uint_mod u a s)
qed

lemma activation_phase_continuous_witness:
  "case lcec_activate_master sample_rt (sample_master\<lparr>ma_activated := False\<rparr>) of (_, ok, m1) \<Rightarrow>
     (case write_cycle (sample_rt\<lparr>en_now := 3250000\<rparr>) 1000000 m1 of
        Some (_, m2) \<Rightarrow> hd_app_phase (ma_hal m2) = 250000 | None \<Rightarrow> False)"
proof -
  let ?m = "sample_master\<lparr>ma_activated := False\<rparr>" and ?ew = "sample_rt\<lparr>en_now := 3250000\<rparr>"
  obtain as ok m1 where a: "lcec_activate_master sample_rt ?m = (as, ok, m1)"
    by (cases "lcec_activate_master sample_rt ?m")
  have ok: "ok" and p: "ma_app_time_period m1 \<noteq> 0"
    using a activate_period [of sample_rt ?m]
    by (auto simp: lcec_activate_master_def sample_rt_def sample_master_def Let_def case_prod_unfold)
  then obtain cs m2 where w: "write_cycle ?ew 1000000 m1 = Some (cs, m2)"
    using write_cycle_None [of ?ew 1000000 m1] by (cases "write_cycle ?ew 1000000 m1") auto
  have c: "hd_app_phase (ma_hal m2) = 2250000 mod uint (ma_app_time_period ?m)"
    using ok a by (intro activation_phase_continuous [OF _ _ w]) (auto simp: sample_master_def sample_rt_def period_ok_def)
  have "uint (ma_app_time_period ?m) = 1000000" by (simp add: sample_master_def)
  then show ?thesis by (simp add: a w c)
qed

text \<open>
  C20. A master with a nonzero application period runs for any number of cycles: no read or
  write of it divides by zero, whatever the bus answers.
\<close>

theorem cycles_never_fault:
  assumes "ma_app_time_period m \<noteq> 0"
  shows "\<exists>tr m'. lcec_cycles period gms es m = Some (tr, m')"
  using lcec_cycles_total [OF assms, of period gms es] by (cases "lcec_cycles period gms es m") auto

theorem cycles_never_fault_witness:
  "\<exists>tr m'. lcec_cycles 1000000 zero_master_state (replicate 1000 (sample_rt, sample_rt)) sample_master = Some (tr, m')"
  by (rule cycles_never_fault) (simp add: sample_master_def)

section \<open>Sync managers and their PDOs\<close>

text \<open>
  C21. The three arrays the sync manager helpers fill describe the layout the driver's calls
  name: read from the first sync manager to the end mark, as the EtherCAT master reads them,
  they give every sync manager with its PDOs and their entries in the order of the calls,
  with autoflow splitting included, whenever no error was flagged.
\<close>

theorem sync_tables_refine_layout:
  assumes "calls_fit (start_flow af) cs []" and "cs \<noteq> []"
    and "sync_build cs (syncs_start af) = Inr s" and "\<not> sy_error s"
  shows "read_syncs s = layout_run (start_flow af) cs []"
proof (rule read_syncs_rel)
  show "syncs_rel s (layout_run (start_flow af) cs [])"
    using sync_build_rel [OF syncs_start_facts(2) _ assms(3,4)] assms(1) by (simp add: syncs_start_facts(3))
qed (rule layout_run_nonempty [OF assms(1,2)])

theorem sync_tables_refine_layout_witness:
  "case sync_build sample_calls (syncs_start (Some (8, 2, 1))) of
     Inr s \<Rightarrow> map (\<lambda>(h, ps). map (\<lambda>(i, es). (i, length es)) ps) (read_syncs s) =
       [[(0x1600, 2), (0x1601, 0)], [(0x1a00, 2), (0x1a01, 1)]]
   | Inl f \<Rightarrow> False"
proof -
  have f: "calls_fit (start_flow (Some (8, 2, 1))) sample_calls []" by code_simp
  have "case sync_build sample_calls (syncs_start (Some (8, 2, 1))) of Inr s \<Rightarrow> \<not> sy_error s | Inl f \<Rightarrow> False" by code_simp
  then obtain s where s: "sync_build sample_calls (syncs_start (Some (8, 2, 1))) = Inr s" "\<not> sy_error s"
    by (auto split: sum.splits)
  have "read_syncs s = layout_run (start_flow (Some (8, 2, 1))) sample_calls []"
    by (rule sync_tables_refine_layout [OF f _ s]) (simp add: sample_calls_def)
  moreover have "map (\<lambda>(h, ps). map (\<lambda>(i, es). (i, length es)) ps) (layout_run (start_flow (Some (8, 2, 1))) sample_calls []) =
      [[(0x1600, 2), (0x1601, 0)], [(0x1a00, 2), (0x1a01, 1)]]" by code_simp
  ultimately show ?thesis by (simp add: s(1))
qed

text \<open>
  C22. Whatever a driver builds, nothing is written behind the three arrays: a sequence that
  names a sync manager before its PDOs and a PDO before its entries runs to its end, also
  behind a rejected call, and any other sequence stops at worst at a null pointer.
\<close>

theorem sync_tables_memory_safe:
  "(\<forall>f. sync_build cs (syncs_start af) = Inl f \<longrightarrow> f = SyncNull) \<and>
   (calls_fit (start_flow af) cs [] \<longrightarrow> (\<exists>s. sync_build cs (syncs_start af) = Inr s \<and> syncs_mem s))"
  using sync_build_mem [of "syncs_start af" cs] sync_build_ptr [OF syncs_start_facts(1), of "start_flow af" cs af]
    syncs_start_facts(1) [of af]
  by (auto simp: syncs_ptr_def)

theorem sync_tables_memory_safe_witness:
  "\<exists>s. sync_build (concat (replicate 10 sample_calls)) (syncs_start None) = Inr s"
proof -
  have "calls_fit (start_flow None) (concat (replicate 10 sample_calls)) []" by code_simp
  then show ?thesis using sync_tables_memory_safe [of "concat (replicate 10 sample_calls)" None] by blast
qed

text \<open>
  Without autoflow no call is rejected as long as the layout stays within 4 sync
  managers, 17 PDOs and 129 entries, one more of the last two than the constants say.
\<close>

lemma sync_tables_accept:
  assumes "calls_fit None cs []" and "length (layout_run None cs []) \<le> 4"
    and "length (all_pdos (layout_run None cs [])) \<le> 17"
    and "length (all_entries (all_pdos (layout_run None cs []))) \<le> 129"
  shows "\<exists>s. sync_build cs lcec_syncs_init = Inr s \<and> \<not> sy_error s"
proof -
  have f: "layout_fits (layout_run None cs [])" using assms(2-4) by (simp add: layout_fits_def sync_max_defs)
  have s: "syncs_start None = lcec_syncs_init" "start_flow None = None" by (simp_all add: syncs_start_def start_flow_def)
  show ?thesis
    using sync_build_fits [OF syncs_start_facts(2) [of None] _ _ assms(1) f] syncs_start_facts(3,4) [of None]
    by (auto simp: s)
qed

lemma sync_tables_accept_witness: "\<exists>s. sync_build sample_calls lcec_syncs_init = Inr s \<and> \<not> sy_error s"
proof (rule sync_tables_accept)
  show "calls_fit None sample_calls []" by code_simp
  show "length (layout_run None sample_calls []) \<le> 4" by code_simp
  show "length (all_pdos (layout_run None sample_calls [])) \<le> 17" by code_simp
  show "length (all_entries (all_pdos (layout_run None sample_calls []))) \<le> 129" by code_simp
qed

text \<open>
  With autoflow, no PDO ever holds more entries than the driver's limit, and the entries
  of the driver are all there in their order: splitting changes only the borders.
\<close>

lemma autoflow_bounds_pdos:
  assumes "sync_build cs (syncs_start (Some (pl, el, inc))) = Inr s" and "\<not> sy_error s" and "0 < el"
    and "calls_fit (Some (el, inc)) cs []" and "cs \<noteq> []"
  shows "(\<forall>(h, ps) \<in> set (read_syncs s). \<forall>(i, es) \<in> set ps. int (length es) \<le> el) \<and>
    all_entries (all_pdos (read_syncs s)) =
      concat (map (\<lambda>c. case c of AddEntry i si l \<Rightarrow> [\<lparr>ei_index = i, ei_subindex = si, ei_bit_length = l\<rparr>] | _ \<Rightarrow> []) cs)"
proof -
  have fl: "start_flow (Some (pl, el, inc)) = Some (el, inc)" by (simp add: start_flow_def)
  have "autoflow_ok el (layout_run (Some (el, inc)) cs [])"
    by (rule autoflow_run_ok [OF assms(3) _ assms(4)]) (simp add: autoflow_ok_def)
  moreover have "read_syncs s = layout_run (Some (el, inc)) cs []"
    using sync_build_rel [OF syncs_start_facts(2) _ assms(1,2)] assms(4) layout_run_nonempty [OF assms(4,5)]
    by (intro read_syncs_rel) (simp_all add: syncs_start_facts(3) fl)
  ultimately show ?thesis
    using layout_run_entries [OF assms(4)] by (auto simp: autoflow_ok_def)
qed

lemma autoflow_bounds_pdos_witness:
  "case sync_build sample_calls (syncs_start (Some (8, 2, 1))) of
     Inr s \<Rightarrow> (\<forall>(h, ps) \<in> set (read_syncs s). \<forall>(i, es) \<in> set ps. int (length es) \<le> 2)
   | Inl f \<Rightarrow> False"
proof -
  have f: "calls_fit (Some (2, 1)) sample_calls []" by code_simp
  have "case sync_build sample_calls (syncs_start (Some (8, 2, 1))) of Inr s \<Rightarrow> \<not> sy_error s | Inl f \<Rightarrow> False" by code_simp
  then obtain s where s: "sync_build sample_calls (syncs_start (Some (8, 2, 1))) = Inr s" "\<not> sy_error s"
    by (auto split: sum.splits)
  have "sample_calls \<noteq> []" by (simp add: sample_calls_def)
  then show ?thesis using autoflow_bounds_pdos [OF s _ f] by (simp add: s(1))
qed

text \<open>
  C23. A PDO that autoflow's limit rejects is reported as an error and not counted, but the
  sync manager already counts it: it names one PDO more than there are.
\<close>

theorem rejected_pdo_is_counted:
  assumes "syncs_mem s" and "sy_curr_sync s = Some c" and "sy_pdo_info_count s \<le> LCEC_MAX_PDO_INFO_COUNT"
    and "sy_autoflow s" and "sy_pdo_limit s < int (sy_pdo_info_count s)"
  shows "\<exists>s'. lcec_syncs_add_pdo_info i s = Inr (False, s') \<and> sy_error s' \<and> sy_pdo_info_count s' = sy_pdo_info_count s \<and>
    si_n_pdos (sy_syncs s' ! c) = Suc (si_n_pdos (sy_syncs s ! c))"
  using pdo_limit_rejects [OF assms] .

theorem rejected_pdo_is_counted_witness:
  "\<exists>s s'. lcec_syncs_add_pdo_info 0x1602 s = Inr (False, s') \<and> sy_error s' \<and> sy_pdo_info_count s' = 2 \<and>
     si_n_pdos (sy_syncs s' ! 0) = 3"
proof -
  let ?cs = "[AddSync EC_DIR_OUTPUT EC_WD_DEFAULT, AddPdo 0x1600, AddPdo 0x1601]"
  have "case sync_build ?cs (syncs_start (Some (1, 2, 1))) of
      Inr s \<Rightarrow> syncs_mem s \<and> sy_curr_sync s = Some 0 \<and> sy_pdo_info_count s = 2 \<and> sy_autoflow s \<and> sy_pdo_limit s = 1 \<and>
        si_n_pdos (sy_syncs s ! 0) = 2
    | Inl f \<Rightarrow> False"
    by (simp add: sync_build_def syncs_start_def lcec_syncs_init_def lcec_syncs_enable_autoflow_def lcec_syncs_add_sync_def
        lcec_syncs_add_pdo_info_def upd_at_def Let_def sync_max_defs syncs_mem_def nth_list_update eval_nat_numeral zero_sync_def)
  then obtain s where "sync_build ?cs (syncs_start (Some (1, 2, 1))) = Inr s" and s: "syncs_mem s" "sy_curr_sync s = Some 0"
    "sy_pdo_info_count s = 2" "sy_autoflow s" "sy_pdo_limit s = 1" "si_n_pdos (sy_syncs s ! 0) = 2"
    by (auto split: sum.splits)
  have "sy_pdo_info_count s \<le> LCEC_MAX_PDO_INFO_COUNT" by (simp add: s(3) LCEC_MAX_PDO_INFO_COUNT_def)
  then show ?thesis using rejected_pdo_is_counted [where i = "0x1602", OF s(1,2) _ s(4)] s by fastforce
qed

section \<open>The generic driver\<close>

text \<open>
  C24. Writing the pins of a generic slave changes no bit of the process data outside them,
  and as long as the pins do not overlap every one keeps its value: reading back an unsigned
  pin gives the HAL value limited to the pin's length, whatever the other pins are.
\<close>

theorem generic_write_keeps_pins:
  assumes "ec_le ec" and "\<forall>p\<in>set ps. pin_in pd p" and "pins_disjoint ps"
    and "generic_write_pins ec rnd ps pd = Some pd'" and "p \<in> set ps"
    and "gp_dir p = HAL_IN" and "gp_type p = HAL_U32" and "gp_pin p = [HvU32 w]" and "unat (gp_bitLength p) \<le> 32"
  shows "\<exists>v. lcec_generic_read_u32 ec pd' p = Some v \<and> uint v = min (uint w) (2 ^ unat (gp_bitLength p) - 1) \<and>
    (\<forall>j < 8 * length pd. j \<notin> (\<Union>q\<in>set ps. pin_bits q) \<longrightarrow> pd_bit pd' j = pd_bit pd j)"
  using write_pins_u32 [OF assms] write_pins_same [OF assms(1,2,4)] take_bit_clamp_u32(2) [OF assms(9)]
  by (simp add: same_but_def)

theorem generic_write_keeps_pins_witness:
  "\<exists>v. Option.bind (generic_write_pins le_macros id [sample_s32_pin, sample_u32_pin] [1, 2, 3])
     (\<lambda>pd. lcec_generic_read_u32 le_macros pd sample_u32_pin) = Some v \<and> uint v = 31"
proof -
  let ?ps = "[sample_s32_pin, sample_u32_pin]"
  have i: "\<forall>p\<in>set ?ps. pin_in [1, 2, 3] p"
    by (auto simp: sample_s32_pin_def sample_u32_pin_def pin_in_def generic_in_def generic_pos_def pin_bits_def zero_pin_def)
  have d: "pins_disjoint ?ps"
    by (simp add: sample_s32_pin_def sample_u32_pin_def generic_pos_def pin_bits_def zero_pin_def)
  have "case generic_write_pins le_macros id ?ps [1, 2, 3] of Some pd \<Rightarrow> True | None \<Rightarrow> False" by code_simp
  then obtain pd' where w: "generic_write_pins le_macros id ?ps [1, 2, 3] = Some pd'" by (auto split: option.splits)
  have p: "gp_dir sample_u32_pin = HAL_IN" "gp_type sample_u32_pin = HAL_U32" "gp_pin sample_u32_pin = [HvU32 40]"
    "unat (gp_bitLength sample_u32_pin) = 5" by (simp_all add: sample_u32_pin_def)
  show ?thesis
    using generic_write_keeps_pins [OF le_macros i d w _ p(1-3)] p(4) by (auto simp: w simp del: generic_write_pins.simps)
qed

text \<open>
  C25. A signed value of a generic slave comes back limited to the range of its length if the
  length is 8, 16 or 32. At any other length the driver does not extend the sign: a negative
  value comes back as the unsigned number of the same bits.
\<close>

theorem generic_s32_roundtrip:
  assumes "ec_le ec" and "generic_in pd p" and "n = unat (gp_bitLength p)" and "1 \<le> n" and "n \<le> 32"
    and "c = max (- (2 ^ (n - 1))) (min v (2 ^ (n - 1) - 1))"
  shows "\<exists>pd'. lcec_generic_write_s32 ec pd p v = Some pd' \<and>
    lcec_generic_read_s32 ec pd' p = Some (if n \<in> {8, 16, 32} \<or> 0 \<le> c then c else c + 2 ^ n)"
proof -
  have e: "c mod 2 ^ n = (if 0 \<le> c then c else c + 2 ^ n)"
  proof (cases "0 \<le> c")
    case True
    have "1 \<le> (2::int) ^ (n - 1)" and "(2::int) ^ (n - 1) \<le> 2 ^ n"
      by (simp, rule power_increasing) simp_all
    then have "c < 2 ^ n" unfolding assms(6) by linarith
    then show ?thesis using True by simp
  next
    case False
    have "(2::int) ^ (n - 1) \<le> 2 ^ n" by (rule power_increasing) simp_all
    then have "- (2 ^ n) \<le> c" unfolding assms(6) by linarith
    then have "(c + 2 ^ n) mod 2 ^ n = c + 2 ^ n" using False by (intro mod_pos_pos_trivial) simp_all
    then show ?thesis using False by simp
  qed
  obtain pd' where w: "lcec_generic_write_s32 ec pd p v = Some pd'"
    and r: "lcec_generic_read_s32 ec pd' p = Some (if n \<in> {8, 16, 32} then c else c mod 2 ^ n)"
    using generic_roundtrip_s32 [OF assms(1,2) assms(4-6) [unfolded assms(3)], folded assms(3)] by blast
  have "(if n \<in> {8, 16, 32} then c else c mod 2 ^ n) = (if n \<in> {8, 16, 32} \<or> 0 \<le> c then c else c + 2 ^ n)"
    unfolding e by (cases "n \<in> {8, 16, 32}"; cases "0 \<le> c") (simp_all only: if_True if_False simp_thms)
  then show ?thesis using w r by (simp only: simp_thms) blast
qed

theorem generic_s32_roundtrip_witness:
  "\<exists>pd'. lcec_generic_write_s32 le_macros [0, 0] (sample_s32_pin\<lparr>gp_bitLength := 12\<rparr>) (-3) = Some pd' \<and>
     lcec_generic_read_s32 le_macros pd' (sample_s32_pin\<lparr>gp_bitLength := 12\<rparr>) = Some 4093"
proof -
  have "generic_in [0, 0] (sample_s32_pin\<lparr>gp_bitLength := 12\<rparr>)" "unat (gp_bitLength (sample_s32_pin\<lparr>gp_bitLength := 12\<rparr>)) = 12"
    by (simp_all add: generic_in_def generic_pos_def sample_s32_pin_def zero_pin_def)
  then show ?thesis using generic_s32_roundtrip [OF le_macros, of "[0, 0]" "sample_s32_pin\<lparr>gp_bitLength := 12\<rparr>" 12 "-3" "-3"] by simp
qed

text \<open>
  If the driver's init function succeeds and the array has room, it has registered one
  entry for every pin, in the order of the pins, with the address of the slave and with the
  position fields of that pin as the place for the answer.
\<close>

lemma generic_init_registers:
  assumes "lcec_generic_init env mname s objs = Some (0, s', objs')"
    and "sl_hal_data s = Some ps" and "sl_generic_pdo_entry_count s = length ps"
    and "sl_regs s = Some (lcec_allocate_pdo_entry_reg LCEC_MAX_PDO_REG_COUNT)" and "length ps \<le> 256"
  shows "slave_regs s' = map (\<lambda>k. generic_reg s k (ps ! k)) [0..<length ps]"
proof -
  let ?s = "s\<lparr>sl_proc_read := True, sl_proc_write := True\<rparr>"
  obtain ps' s1 where g: "generic_init_pins env mname 0 ps ?s objs = Some (0, ps', s1, objs')"
    and s': "s' = s1\<lparr>sl_hal_data := Some ps'\<rparr>"
    using assms(1-3) by (auto simp: lcec_generic_init_def)
  have r: "sl_regs ?s = Some (lcec_allocate_pdo_entry_reg LCEC_MAX_PDO_REG_COUNT)"
    and m: "pr_current (lcec_allocate_pdo_entry_reg LCEC_MAX_PDO_REG_COUNT) + length ps \<le> pr_max (lcec_allocate_pdo_entry_reg LCEC_MAX_PDO_REG_COUNT)"
    using assms(4,5) by (simp_all add: lcec_allocate_pdo_entry_reg_def LCEC_MAX_PDO_REG_COUNT_def)
  have e: "generic_reg ?s = generic_reg s" by (intro ext) (simp add: generic_reg_def)
  show ?thesis
    using generic_init_pins_ok [OF g r allocate_regs(1) m] by (auto simp: s' slave_regs_def e)
qed

lemma generic_init_registers_witness:
  "case lcec_generic_init (ie_hal sample_init_env) ''0''
       (sample_slave\<lparr>sl_index := 4, sl_hal_data := Some [sample_u32_pin, sample_s32_pin], sl_generic_pdo_entry_count := 2,
                     sl_regs := Some (lcec_allocate_pdo_entry_reg LCEC_MAX_PDO_REG_COUNT)\<rparr>) [] of
     Some (r, s', objs) \<Rightarrow> r = 0 \<and> map (\<lambda>e. (er_position e, er_offset e)) (slave_regs s') = [(4, Some 0), (4, Some 1)]
   | None \<Rightarrow> False"
proof -
  let ?s = "sample_slave\<lparr>sl_index := 4, sl_hal_data := Some [sample_u32_pin, sample_s32_pin], sl_generic_pdo_entry_count := 2,
                     sl_regs := Some (lcec_allocate_pdo_entry_reg LCEC_MAX_PDO_REG_COUNT)\<rparr>"
  have "case lcec_generic_init (ie_hal sample_init_env) ''0'' ?s [] of Some (r, s', objs) \<Rightarrow> r = 0 | None \<Rightarrow> False" by code_simp
  then obtain s' objs where i: "lcec_generic_init (ie_hal sample_init_env) ''0'' ?s [] = Some (0, s', objs)"
    by (auto split: option.splits)
  show ?thesis using generic_init_registers [OF i] by (simp add: i generic_reg_def upt_rec)
qed

section \<open>Start and end of the component\<close>



text \<open>
  C27. A start that succeeds has handed the EtherCAT master, for every Sync Unit, exactly the
  process data entries the drivers of its slaves have recorded, slave by slave in the order
  of the configuration, with one zeroed entry behind them that ends the list.
\<close>

theorem start_registers_units:
  assumes "rtapi_app_main env lenv im = Some (0, cs, ms)" and "drivers_ok env"
    and "k < length ms" and "j < length (ma_sync_units (ms ! k))"
  shows "IRegPdoEntries k j (concat (map slave_regs (filter (\<lambda>s. sl_sync_unit s = j) (ma_slaves (ms ! k)))) @ [zero_reg]) \<in> set cs"
proof -
  obtain ms0 n st where p: "lcec_parse_config lenv im = Inr (ms0, n)"
    and ok: "init_all env \<lparr>is_masters = ms0, is_objs = [], is_calls = [IHalInit]\<rparr> = Inr st"
    and res: "cs = is_calls st @ [IHalReady]" "ms = is_masters st"
    using assms(1) by (auto simp: rtapi_app_main_def EINVAL_def split: if_splits sum.splits load_fail.splits init_stop.splits)
  let ?st0 = "\<lparr>is_masters = ms0, is_objs = [], is_calls = [IHalInit]\<rparr>"
  have s: "same_sizes ?st0 st" using init_all_sizes [of ?st0 env] by (simp add: ok)
  then have l: "length ms = length ms0" by (metis same_sizes_length init_state.select_convs(1) res(2))
  have u: "length (ma_sync_units (ms ! k)) = length (ma_sync_units (ms0 ! k))"
    using same_sizes_units [OF s, of k] assms(3) l res(2) by simp
  have "registered k (length (ma_sync_units (ms0 ! k))) st"
    using init_all_registers [OF assms(2) _ ok, of k] parse_config_fresh [OF p] assms(3) l by simp
  then show ?thesis using assms(4) u by (simp add: registered_def unit_entries_def the_master_def res)
qed

theorem start_registers_units_witness:
  "case rtapi_app_main sample_init_env sample_load_env sample_image of
     Some (r, cs, ms) \<Rightarrow> (\<forall>j < 2. IRegPdoEntries 0 j (concat (map slave_regs (filter (\<lambda>s. sl_sync_unit s = j) (ma_slaves (ms ! 0)))) @ [zero_reg]) \<in> set cs)
   | None \<Rightarrow> False"
proof -
  obtain cs ms where m: "rtapi_app_main sample_init_env sample_load_env sample_image = Some (0, cs, ms)"
    "map (\<lambda>m. (length (ma_slaves m), length (ma_sync_units m))) ms = [(2, 2)]"
    using sample_start by (auto split: option.splits)
  then have l: "length ms = 1" "length (ma_sync_units (ms ! 0)) = 2" by (auto simp: map_eq_Cons_conv)
  have d: "drivers_ok sample_init_env" using sample_drivers_ok [where f = "\<lambda>_. 0" and g = "\<lambda>_ _. True"] by (simp add: sample_init_env_def)
  show ?thesis using start_registers_units [OF m(1) d, of 0] l by (auto simp: m(1))
qed

text \<open>
  C28. Start and exit together release every master of the configuration exactly once, in
  reverse order, after all of them have been deactivated.
\<close>

theorem exit_releases_masters:
  assumes "rtapi_app_main env lenv im = Some (0, cs, ms)"
  shows "filter is_release (cs @ rtapi_app_exit ms) = map IReleaseMaster (rev [0..<length ms]) \<and>
    take (length ms) (rtapi_app_exit ms) = map IDeactivate [0..<length ms] \<and> last (rtapi_app_exit ms) = IHalExit"
proof -
  obtain ms0 n st where p: "lcec_parse_config lenv im = Inr (ms0, n)"
    and ok: "init_all env \<lparr>is_masters = ms0, is_objs = [], is_calls = [IHalInit]\<rparr> = Inr st"
    and res: "cs = is_calls st @ [IHalReady]" "ms = is_masters st"
    using assms(1) by (auto simp: rtapi_app_main_def EINVAL_def split: if_splits sum.splits load_fail.splits init_stop.splits)
  have o: "owns env (length ms0) st"
    using owns_all [OF owns_init [OF parse_config_fresh [OF p]], of env] by (simp add: ok)
  have l: "length ms = length ms0" using o by (simp add: owns_def res)
  have "filter (\<lambda>k. ma_master (ms ! k)) (rev [0..<length ms]) = rev [0..<length ms]"
    using init_all_acquired [OF ok] o l by (intro filter_True) (auto simp: owns_def res)
  moreover have "filter is_release (is_calls st) = []" using no_release o by (simp add: owns_def)
  moreover have "filter is_release (map IDeactivate xs) = []" for xs by (induction xs) (simp_all add: is_release_def)
  ultimately show ?thesis
    by (simp add: rtapi_app_exit_def res(1) release_filter) (simp add: is_release_def)
qed

theorem exit_releases_masters_witness:
  "case rtapi_app_main sample_init_env sample_load_env sample_image of
     Some (r, cs, ms) \<Rightarrow> filter is_release (cs @ rtapi_app_exit ms) = [IReleaseMaster 0] | None \<Rightarrow> False"
proof -
  obtain cs ms where m: "rtapi_app_main sample_init_env sample_load_env sample_image = Some (0, cs, ms)"
    "map (\<lambda>m. (length (ma_slaves m), length (ma_sync_units m))) ms = [(2, 2)]"
    using sample_start by (auto split: option.splits)
  then have "length ms = 1" by (auto simp: map_eq_Cons_conv)
  then show ?thesis using exit_releases_masters [OF m(1)] by (simp add: m(1))
qed

text \<open>
  C29. Start and cyclic task together: every master with a slave that a successful start
  leaves runs any number of cycles without a fault, since the loader only accepts a slave
  under a nonzero application period and no step of the start changes it.
\<close>

theorem started_masters_run:
  assumes "rtapi_app_main env lenv im = Some (0, cs, ms)" and "m \<in> set ms" and "ma_slaves m \<noteq> []"
  shows "\<exists>tr m'. lcec_cycles period gms es m = Some (tr, m')"
proof -
  obtain ms0 n st where p: "lcec_parse_config lenv im = Inr (ms0, n)"
    and ok: "init_all env \<lparr>is_masters = ms0, is_objs = [], is_calls = [IHalInit]\<rparr> = Inr st"
    and res: "cs = is_calls st @ [IHalReady]" "ms = is_masters st"
    using assms(1) by (auto simp: rtapi_app_main_def EINVAL_def split: if_splits sum.splits load_fail.splits init_stop.splits)
  let ?st0 = "\<lparr>is_masters = ms0, is_objs = [], is_calls = [IHalInit]\<rparr>"
  have s: "same_sizes ?st0 st" using init_all_sizes [of ?st0 env] by (simp add: ok)
  then have l: "length ms = length ms0" by (metis same_sizes_length init_state.select_convs(1) res(2))
  obtain k where k: "k < length ms0" "m = ms ! k" using assms(2) l by (auto simp: in_set_conv_nth)
  have "ma_app_time_period m = ma_app_time_period (ms0 ! k)" "length (ma_slaves m) = length (ma_slaves (ms0 ! k))"
    using same_sizes_period(2,3) [OF s, of k] k by (simp_all add: res(2))
  moreover have "fresh_master (ms0 ! k)" using parse_config_fresh [OF p] k(1) by (simp add: list_all_length)
  ultimately have "ma_app_time_period m \<noteq> 0" using assms(3) by (auto simp: fresh_master_def)
  then show ?thesis using lcec_cycles_total [of m period gms es] by (cases "lcec_cycles period gms es m") auto
qed

theorem started_masters_run_witness:
  "case rtapi_app_main sample_init_env sample_load_env sample_image of
     Some (r, cs, ms) \<Rightarrow> \<exists>tr m'. lcec_cycles 1000000 zero_master_state (replicate 1000 (sample_rt, sample_rt)) (ms ! 0) = Some (tr, m')
   | None \<Rightarrow> False"
proof -
  obtain cs ms where m: "rtapi_app_main sample_init_env sample_load_env sample_image = Some (0, cs, ms)"
    "map (\<lambda>m. (length (ma_slaves m), length (ma_sync_units m))) ms = [(2, 2)]"
    using sample_start by (auto split: option.splits)
  then have "length ms = 1" "ma_slaves (ms ! 0) \<noteq> []" by (auto simp: map_eq_Cons_conv)
  then show ?thesis using started_masters_run [OF m(1), of "ms ! 0"] by (simp add: m(1))
qed

section \<open>Device classes\<close>





text \<open>
  C32. Digital channels: writing all outputs of a device, each on a bit of its own, never leaves
  the process data, changes no other bit, and what the device then reads on any channel is the
  output of that bit, inverted where the channel asks for it, or the old bit where no output is.
\<close>

theorem digital_outputs_read_back:
  assumes "ec_le ec" and "\<forall>d\<in>set (channels_of cs). dout_in (length pd) d" and "distinct (map dout_pos (channels_of cs))"
    and "\<forall>d\<in>set (channels_of ds). din_in (length pd) d"
  shows "\<exists>pd' ds'. lcec_dout_write_all ec cs pd = Some pd' \<and> length pd' = length pd \<and> lcec_din_read_all ec pd' ds = Some ds' \<and>
    map (map_option din_pos) ds' = map (map_option din_pos) ds \<and>
    (\<forall>k < 8 * length pd. k \<notin> dout_pos ` set (channels_of cs) \<longrightarrow> pd_bit pd' k = pd_bit pd k) \<and>
    (\<forall>e\<in>set (channels_of ds'). di_in_not e \<longleftrightarrow> \<not> di_in e) \<and>
    (\<forall>e\<in>set (channels_of ds'). \<forall>d\<in>set (channels_of cs). din_pos e = dout_pos d \<longrightarrow> di_in e = (do_out d \<noteq> do_invert d)) \<and>
    (\<forall>e\<in>set (channels_of ds'). din_pos e \<notin> dout_pos ` set (channels_of cs) \<longrightarrow> di_in e = pd_bit pd (din_pos e))"
proof -
  obtain pd' where w: "lcec_dout_write_all ec cs pd = Some pd'" "length pd' = length pd"
    "\<forall>d\<in>set (channels_of cs). pd_bit pd' (dout_pos d) = (do_out d \<noteq> do_invert d)"
    "\<forall>k < 8 * length pd. k \<notin> dout_pos ` set (channels_of cs) \<longrightarrow> pd_bit pd' k = pd_bit pd k"
    using dout_write_all_bits [OF assms(1-3)] by blast
  define f where "f d = d\<lparr>di_in := pd_bit pd' (din_pos d), di_in_not := \<not> pd_bit pd' (din_pos d)\<rparr>" for d :: din_channel
  have f: "din_pos (f d) = din_pos d" "di_in (f d) = pd_bit pd' (din_pos d)" "di_in_not (f d) = (\<not> pd_bit pd' (din_pos d))" for d
    by (simp_all add: f_def din_pos_def)
  have r: "lcec_din_read_all ec pd' ds = Some (map (map_option f) ds)"
    using din_read_all_bits [OF assms(1), of ds pd'] assms(4) w(2) by (simp add: f_def [abs_def])
  have c: "channels_of (map (map_option f) ds) = map f (channels_of ds)"
    by (induction ds) (simp, case_tac a, simp_all)
  have i: "\<forall>d\<in>set (channels_of ds). din_pos d < 8 * length pd" using assms(4) by (simp add: din_in_def chan_in_def din_pos_def)
  show ?thesis
    by (intro exI [of _ pd'] exI [of _ "map (map_option f) ds"] conjI)
      (use w r i in \<open>auto simp: c f option.map_comp comp_def\<close>)
qed

theorem digital_outputs_read_back_witness:
  "\<exists>pd' ds'. lcec_dout_write_all le_macros [sample_dout 3 True False, None, sample_dout 6 True True] [0, 0x40, 0] = Some pd' \<and>
     lcec_din_read_all le_macros pd' [sample_din 3, sample_din 6, None] = Some ds' \<and> map di_in (channels_of ds') = [True, False]"
proof -
  let ?cs = "[sample_dout 3 True False, None, sample_dout 6 True True]" and ?ds = "[sample_din 3, sample_din 6, None]"
  have p: "\<forall>d\<in>set (channels_of ?cs). dout_in (length [0 :: u8, 0x40, 0]) d" "distinct (map dout_pos (channels_of ?cs))"
    "\<forall>d\<in>set (channels_of ?ds). din_in (length [0 :: u8, 0x40, 0]) d"
    by (simp_all add: sample_dout_def sample_din_def dout_in_def dout_pos_def din_in_def chan_in_def chan_pos_def)
  obtain pd' ds' where w: "lcec_dout_write_all le_macros ?cs [0, 0x40, 0] = Some pd'" "lcec_din_read_all le_macros pd' ?ds = Some ds'"
    "map (map_option din_pos) ds' = map (map_option din_pos) ?ds"
    "\<forall>e\<in>set (channels_of ds'). \<forall>d\<in>set (channels_of ?cs). din_pos e = dout_pos d \<longrightarrow> di_in e = (do_out d \<noteq> do_invert d)"
    using digital_outputs_read_back [OF le_macros p] by blast
  obtain e1 e2 where e: "ds' = [Some e1, Some e2, None]" "din_pos e1 = 11" "din_pos e2 = 14"
    using w(3) by (auto simp: sample_din_def din_pos_def chan_pos_def map_eq_Cons_conv)
  then show ?thesis using w(1,2,4) by (auto simp: sample_dout_def dout_pos_def chan_pos_def zero_dout_def)
qed



text \<open>
  C34. CiA 402 drives: when the sync managers of a device were built by the library's two parts,
  with further entries of the driver after each, and nothing overflowed, then every process data
  entry that the registration of a channel adds, its words, its objects and its digital inputs
  and outputs, is one that the sync managers map.
\<close>

theorem cia_registered_are_mapped:
  assumes "lcec_cia402_init_sync opt = Inr s0" and "lcec_cia402_add_output_sync opt s0 = Inr (0, s1)"
    and "sync_build own1 s1 = Inr s2" and "lcec_cia402_add_input_sync opt s2 = Inr (0, s3)" and "sync_build own2 s3 = Inr sy"
    and "no_sync own1" and "no_sync own2" and "\<not> sy_error sy" and "c < nat (cg_channels opt)"
    and "lcec_cia402_register_channel ec henv senv junk mname s (cia_offset c) (Some (cg_channel opt ! c)) loc objs = Some (r, s', objs')"
    and "sl_regs s = Some g" and "regs_ok g"
  shows "\<exists>g' new. sl_regs s' = Some g' \<and> regs_content g' = regs_content g @ new \<and>
    (\<forall>e\<in>set new. \<exists>k. er_subindex e = ucast k \<and> is_mapped sy (er_index e) k)"
proof -
  have b: "sync_build (cia_sequence opt own1 own2) (syncs_start (cia_flow opt)) = Inr sy" by (rule cia_sequence_build [OF assms(1-5)])
  have m: "mapped_entries sy = concat (map call_entries (cia_sequence opt own1 own2))"
    by (rule cia_mapped_entries [OF _ assms(6,7) b assms(8)]) (use assms(9) in linarith)
  obtain g' new where g: "sl_regs s' = Some g'" "regs_content g' = regs_content g @ new"
    "\<forall>e\<in>set new. \<exists>k. cia_address (lcec_cia402_enabled (cg_channel opt ! c)) (cia_offset c) (er_index e) k \<and> er_subindex e = ucast k"
    using register_channel_grow [OF assms(10)] assms(11,12) unfolding regs_grow_def by blast
  then show ?thesis using cia_address_mapped [OF m assms(9)] by blast
qed

theorem cia_registered_are_mapped_witness:
  "case lcec_cia402_register_channel le_macros sample_hal sample_sdo_env (\<lambda>_. []) ''0'' sample_drive (cia_offset 0)
     (Some (cg_channel lcec_cia402_options ! 0)) sample_loc [] of
     None \<Rightarrow> False
   | Some (r, s', objs') \<Rightarrow> \<exists>sy g' new. sl_regs s' = Some g' \<and>
       regs_content g' = regs_content (lcec_allocate_pdo_entry_reg LCEC_MAX_PDO_REG_COUNT) @ new \<and>
       (\<forall>e\<in>set new. \<exists>k. er_subindex e = ucast k \<and> is_mapped sy (er_index e) k)"
proof -
  obtain s0 s1 s2 s3 where s: "lcec_cia402_init_sync lcec_cia402_options = Inr s0" "lcec_cia402_add_output_sync lcec_cia402_options s0 = Inr (0, s1)"
    "sync_build [AddEntry 0x2000 1 32] s1 = Inr s2" "lcec_cia402_add_input_sync lcec_cia402_options s2 = Inr (0, s3)" "\<not> sy_error s3"
    using sample_cia_syncs by blast
  have n: "no_sync [AddEntry 0x2000 1 32]" "no_sync []" by (simp_all add: no_sync_def)
  obtain d s' objs' where r: "lcec_cia402_register_channel le_macros sample_hal sample_sdo_env (\<lambda>_. []) ''0'' sample_drive (cia_offset 0)
      (Some (cg_channel lcec_cia402_options ! 0)) sample_loc [] = Some (Some d, s', objs')"
    using sample_cia_channel by (auto simp: cia_offset_def sample_cia_options)
  have "regs_ok (lcec_allocate_pdo_entry_reg LCEC_MAX_PDO_REG_COUNT)" by (simp add: regs_ok_def lcec_allocate_pdo_entry_reg_def)
  moreover have "0 < nat (cg_channels lcec_cia402_options)" by (simp add: sample_cia_options)
  ultimately show ?thesis
    using cia_registered_are_mapped [OF s(1-4) sync_build_nil n s(5) _ r sample_drive_regs] unfolding r option.case prod.case by blast
qed

text \<open>
  C35. Ratios of CiA 402 parameters: for a value without a separator whose number lies between 0
  and the largest \<open>int\<close>, the decoder always ends, and unless an \<open>int\<close> overflows on the way, the
  result is a fraction in lowest terms whose denominator is positive and within the limit; with
  exact arithmetic it is off by no more than the inverse square of the denominator.
\<close>

theorem ratio_decoder_terminates:
  assumes "ieee_rnd rnd" and "find_char (CHR ''/'') v = []" and "find_char (CHR '':'') v = []"
    and "0 \<le> rnd (atof v)" and "rnd (atof v) \<le> 2147483647" and "1 \<le> mx" and "mx < 4294967296"
  shows "\<exists>r. lcec_cia402_decode_ratio_modparam rnd v mx = Some r \<and>
    (\<forall>n q. r = Inr (n, q) \<longrightarrow> ratio_good rnd mx (rnd (atof v)) n (uint q))"
proof -
  obtain r where r: "ratio_loop rnd mx 1 0 0 1 (rnd (atof v)) \<lfloor>rnd (atof v)\<rfloor> = Some r"
    "\<forall>n q. r = Inr (n, q) \<longrightarrow> ratio_good rnd mx (rnd (atof v)) n q"
    using ratio_loop_result [OF assms(1,4,5,6)] by blast
  have d: "lcec_cia402_decode_ratio_modparam rnd v mx = Some (map_sum id (\<lambda>(n, q). (n, word_of_int q)) r)"
    using assms(2,3) r(1) c_s32_of_pos [OF assms(4,5)] by (simp add: lcec_cia402_decode_ratio_modparam_def Let_def)
  have "ratio_good rnd mx (rnd (atof v)) n (uint w)" if "map_sum id (\<lambda>(n, q). (n, word_of_int q)) r = Inr (n, w)" for n and w :: u32
  proof (cases r)
    case (Inr p)
    obtain n' q where p: "p = (n', q)" by fastforce
    have g: "ratio_good rnd mx (rnd (atof v)) n' q" using r(2) Inr p by simp
    then have "uint (word_of_int q :: u32) = q" using assms(7) by (simp add: ratio_good_def uint_word_of_int)
    then show ?thesis using g that Inr p by auto
  qed (use that in simp)
  then show ?thesis using d by blast
qed

theorem ratio_decoder_terminates_witness:
  "\<exists>r. lcec_cia402_decode_ratio_modparam (\<lambda>x. x) ''2.5'' (2 ^ 14) = Some r \<and>
    (\<forall>n q. r = Inr (n, q) \<longrightarrow> ratio_good (\<lambda>x. x) (2 ^ 14) (5 / 2) n (uint q))"
proof -
  have a: "atof ''2.5'' = 5 / 2" by code_simp
  have i: "ieee_rnd (\<lambda>x. x)" by (simp add: ieee_rnd_def mono_def)
  have f: "find_char (CHR ''/'') ''2.5'' = []" "find_char (CHR '':'') ''2.5'' = []" by (simp_all add: find_char_def)
  show ?thesis using ratio_decoder_terminates [OF i f, of "2 ^ 14"] by (simp add: a)
qed

section \<open>Device drivers\<close>




text \<open>
  C37. EL5151: in a cycle of an operational slave the driver never leaves the process data, and
  the count pin becomes the distance to the latched value when the terminal reports a latch, zero
  after an initialisation or a reset, keeps its value in the first operational cycle and when a preset
  has been acknowledged, and otherwise moves by the difference of the raw counts modulo the 32 bits
  of the pin; a latch takes back the pins that asked for it, and only those.
\<close>

theorem el5151_read_counts:
  fixes d :: el5151
  assumes "placed el5151_syncs el5151_rows base P (length pd)" and "in_s32 (k_count d)"
  shows "\<exists>d'. lcec_el5151_read ec rnd P True pd d = Some d' \<and>
    k_last_count d' = el5151_count ec P pd \<and> \<not> k_do_init d' \<and> in_s32 (k_count d') \<and>
    k_count d' =
      (if bit_at ec pd P latch_ext_valid_pdo \<or> bit_at ec pd P latch_c_valid_pdo then s32 (el5151_count ec P pd - el5151_latched ec P pd)
       else if k_do_init d \<or> k_reset d then 0
       else if \<not> e2_last_operational d \<or> bit_at ec pd P set_count_done_pdo then k_count d
       else s32 (k_count d + (el5151_count ec P pd - k_last_count d))) \<and>
    (if bit_at ec pd P latch_ext_valid_pdo then \<not> e2_ena_latch_ext_pos d' \<and> \<not> e2_ena_latch_ext_neg d'
     else e2_ena_latch_ext_pos d' = e2_ena_latch_ext_pos d \<and> e2_ena_latch_ext_neg d' = e2_ena_latch_ext_neg d) \<and>
    (if bit_at ec pd P latch_c_valid_pdo then \<not> e2_ena_latch_c d' else e2_ena_latch_c d' = e2_ena_latch_c d)"
  by (rule el5151_read_branches [OF el5151_placed_in [OF assms(1)] assms(2)])

theorem el5151_read_counts_witness:
  "\<exists>d'. lcec_el5151_read le_macros (\<lambda>x. x) el5151_pos True el5151_latch_data (el5151_start (\<lambda>x. x)\<lparr>e2_ena_latch_c := True\<rparr>) = Some d' \<and>
     k_count d' = 16 \<and> \<not> e2_ena_latch_c d'"
proof -
  have "placed el5151_syncs el5151_rows (sample_base 6) el5151_pos (length el5151_latch_data)"
    using el5151_sample unfolding el5151_data_length .
  from el5151_read_counts [OF this, of "el5151_start (\<lambda>x. x)\<lparr>e2_ena_latch_c := True\<rparr>" le_macros "\<lambda>x. x"]
  show ?thesis by (auto simp: el5151_latch_sample el5151_start_def counter_start_def in_s32_0 s32_def)
qed





section \<open>The configuration generator\<close>



text \<open>
  C8. Which of the printed process data entries \<^verbatim>\<open>lcec_conf\<close> accepts: for an entry line with an
  index and a subindex of at most 7 hexadecimal digits and a length of at most 9 decimal digits,
  whatever its pin is called, the attributes are accepted exactly if the index is below 0xffff, the
  subindex below 0xff, the length between 1 and 255, and the length is below 8 or the type of the
  object is one of the nine the generator knows and \<^verbatim>\<open>lcec_conf\<close> too; the token then has the
  numbers of the line and the pin type that fits. For all other types, 64-bit ones and unknown ones,
  the generator prints a \<^verbatim>\<open>halType\<close> that \<^verbatim>\<open>lcec_conf\<close> rejects.
\<close>

theorem generated_entry_accepted:
  assumes "re_pdo_entry line = Some (i, b, n, c)" and "length i \<le> 9" and "length b \<le> 7" and "length n \<le> 9"
    and "e = make_entry s (xml_format_hex i) b n c\<lparr>ge_halpin := pin\<rparr>"
  shows "read_entry (entry_attrs e) = Inr p \<longleftrightarrow>
    numbers_ok e \<and> haltype_known (entry_type s (xml_format_hex i) b) (digits_val 10 n) \<and>
    p = entry_token e (entry_type s (xml_format_hex i) b)"
proof -
  obtain h where h: "i = ''0x'' @ h" "h \<noteq> []" "list_all re_lower_hex h" "b \<noteq> []" "list_all re_lower_hex b" "n \<noteq> []" "list_all re_digit n"
    using re_pdo_entryD [OF assms(1)] by blast
  have x: "xml_format_hex i = h" unfolding h(1) by (rule format_hex_0x)
  have e: "ge_idx e = h" "ge_subidx e = b" "ge_bitlen e = n" "ge_haltype e = infer_haltype (entry_type s h b) (fst (strtoul 10 n))"
    by (simp_all add: assms(5) x make_entry_def)
  have "length h \<le> 7" using assms(2) by (simp add: h(1))
  then show ?thesis unfolding x using read_entry_iff [of e "entry_type s h b" p] h assms(3,4) by (simp add: e)
qed

theorem generated_entry_accepted_witness:
  "read_entry (entry_attrs (make_entry no_slave ''6041'' ''00'' ''16'' [])) =
     Inr (entry_token (make_entry no_slave ''6041'' ''00'' ''16'' []) ''uint16'') \<and>
   (\<nexists>p. read_entry (entry_attrs (make_entry no_slave ''6000'' ''01'' ''16'' [])) = Inr p)"
proof -
  let ?l = "\<lambda>i. ''    PDO entry 0x'' @ i @ '', 16 bit, '' @ quote @ quote"
  have l: "re_pdo_entry (?l ''6041:00'') = Some (''0x6041'', ''00'', ''16'', [])"
    "re_pdo_entry (?l ''6000:01'') = Some (''0x6000'', ''01'', ''16'', [])" by code_simp+
  have x: "xml_format_hex ''0x6041'' = ''6041''" "xml_format_hex ''0x6000'' = ''6000''" by code_simp+
  have t: "entry_type no_slave ''6041'' ''00'' = ''uint16''" "entry_type no_slave ''6000'' ''01'' = []" by code_simp+
  have n: "numbers_ok (make_entry no_slave ''6041'' ''00'' ''16'' [])" "haltype_known ''uint16'' (digits_val 10 ''16'')"
    "\<not> haltype_known [] (digits_val 10 ''16'')" by code_simp+
  have s: "e = e\<lparr>ge_halpin := ge_halpin e\<rparr>" for e by simp
  have len: "length ''0x6041'' \<le> 9" "length ''00'' \<le> 7" "length ''16'' \<le> 9" "length ''0x6000'' \<le> 9" "length ''01'' \<le> 7" by simp_all
  note a = generated_entry_accepted [OF l(1) len(1-3), unfolded x t, OF s]
  note b = generated_entry_accepted [OF l(2) len(4,5,3), unfolded x t, OF s]
  show ?thesis unfolding a b t using n by blast
qed

text \<open>
  C10. The structure of the configuration: the masters stand in the order of their numbers as strings,
  each once, and they are those the slaves of the bus belong to; each master lists its slaves in the
  order of the bus, with their positions, and slave number n of the bus is named Dn.
\<close>

theorem generated_masters:
  assumes "gen_config env argv = Inr (ms, w)" and "gen_read_slaves env = Inr ss"
  shows "sorted_wrt strcmp_le (map gm_idx ms) \<and> distinct (map gm_idx ms) \<and> set (map gm_idx ms) = (the \<circ> es_master) ` set ss \<and>
    (\<forall>m\<in>set ms. listed (gm_slaves m) = master_entries (gm_idx m) 0 ss)"
  using gen_config_structure [OF assms] by blast

theorem generated_masters_witness:
  "map gm_idx sample_gen_masters = [''10'', ''2''] \<and> sorted_wrt strcmp_le (map gm_idx sample_gen_masters) \<and>
   listed (gm_slaves (hd sample_gen_masters)) = master_entries ''10'' 0 (map block_slave [sample_bus_a, sample_bus_b])"
  using generated_masters [OF sample_gen_config sample_gen_slaves] by (simp add: sample_gen_masters_def)

text \<open>
  C9. Pin names: every pin of a generated configuration, also one that was renamed because its name
  occurred twice, has a name that is not empty and consists of lower-case letters, digits and single
  minus signs, whatever the names of the objects and PDOs on the bus are.
\<close>

theorem generated_pin_names:
  assumes "gen_config env argv = Inr (ms, w)" and "m \<in> set ms" and "sc \<in> set (gm_slaves m)" and "n \<in> set (sm_pins (gl_sms sc))"
  shows "pin_ok n"
  using gen_config_pin_names [OF assms(1)] assms(2-4) by blast

theorem generated_pin_names_witness: "sm_pins (gl_sms sample_gen_box) = [''a-value'', ''b-value''] \<and> pin_ok ''b-value''"
proof -
  have p: "sm_pins (gl_sms sample_gen_box) = [''a-value'', ''b-value'']" by (simp add: sample_gen_box_def sm_pins_def)
  have "\<lparr>gm_idx = ''2'', gm_slaves = [sample_gen_box]\<rparr> \<in> set sample_gen_masters" by (simp add: sample_gen_masters_def)
  from generated_pin_names [OF sample_gen_config this, of sample_gen_box "''b-value''"] p show ?thesis by simp
qed

text \<open>
  C11. The list of slaves: when the tool prints one block of lines per slave, with the header first
  and the line with the name, if there is one, behind the numbers, the generator finds exactly the
  slaves of the blocks, in their order, each with the numbers of its own block; but if the last
  block has no line with a name, its slave is missing.
\<close>

theorem bus_slaves_read:
  assumes "list_all block_ok bs" and "run_ethercat env ''-v slaves'' = Inr (concat (map block_lines bs))"
  shows "gen_read_slaves env = Inr (map block_slave (if bs \<noteq> [] \<and> bb_name (last bs) = None then butlast bs else bs))"
  using slaves_of_blocks [OF assms(1)] assms(2) by (simp add: gen_read_slaves_def complete_def)

theorem bus_slaves_read_witness: "gen_read_slaves sample_gen_env = Inr [block_slave sample_bus_a, block_slave sample_bus_b]"
proof -
  have "run_ethercat sample_gen_env ''-v slaves'' = Inr (concat (map block_lines [sample_bus_a, sample_bus_b, sample_bus_c]))"
    by (simp add: run_ethercat_def sample_gen_env_def)
  from bus_slaves_read [OF sample_gen_blocks this] show ?thesis by (simp add: sample_bus_c_def)
qed

end
